(* ===== verification/Prelude.thy ===== *)
theory Prelude
  imports Main "HOL-Library.Word" "HOL-Library.AList" "HOL-Library.Multiset"
begin

text \<open>
  Shared vocabulary of the development: the fixed-width integers of the C++ sources, C++ exceptions
  as values of a sum type, \<open>std::map\<close> as an association list kept in the order of its comparator,
  and the generic list lemmas that several components use.
\<close>

named_theorems result_iff \<open>when a fallible computation returns normally\<close>
named_theorems bytes_simps \<open>reading and writing fixed-width fields of byte buffers\<close>

section \<open>Machine integers\<close>

type_synonym u8 = "8 word"
type_synonym u16 = "16 word"
type_synonym u32 = "32 word"
type_synonym u64 = "64 word"

text \<open>Container sizes (\<open>std::size_t\<close>) are natural numbers; the checks the sources make against the
  largest \<open>std::size_t\<close> and \<open>std::uint32_t\<close> are written out.\<close>

definition SIZE_MAX :: nat where
  "SIZE_MAX = 2 ^ 64 - 1"

definition UINT32_MAX :: nat where
  "UINT32_MAX = 2 ^ 32 - 1"

lemma unat_sub_less:
  fixes t x :: "'a::len word"
  assumes "t \<noteq> 0" and "t \<le> x"
  shows "unat (x - t) < unat x"
proof -
  have "0 < unat t" and "unat t \<le> unat x"
    using assms by (auto simp: word_le_nat_alt unat_gt_0)
  then show ?thesis
    using assms(2) by (simp add: unat_sub)
qed

section \<open>Exceptions\<close>

text \<open>The C++ exceptions of the sources with their messages. \<open>undefined_behaviour\<close> is not an
  exception of the program: it marks an iterator dereference that the C++ standard leaves undefined,
  so that a theorem that a call returns normally also shows that no such dereference happens.\<close>

datatype cpp_exception =
    logic_error string
  | invalid_argument string
  | overflow_error string
  | length_error string
  | undefined_behaviour string

type_synonym 'a result = "cpp_exception + 'a"

definition bind_result :: "'e + 'a \<Rightarrow> ('a \<Rightarrow> 'e + 'b) \<Rightarrow> 'e + 'b" where
  "bind_result m f = (case m of Inl e \<Rightarrow> Inl e | Inr x \<Rightarrow> f x)"

lemma bind_result_simps [simp]:
  "bind_result (Inl e) f = Inl e"
  "bind_result (Inr x) f = f x"
  by (simp_all add: bind_result_def)

lemma bind_result_Inr_iff [result_iff]:
  "bind_result m f = Inr y \<longleftrightarrow> (\<exists>x. m = Inr x \<and> f x = Inr y)"
  by (cases m) simp_all

lemma if_Inl_Inr_iff [result_iff]:
  "(if b then Inl e else m) = Inr y \<longleftrightarrow> \<not> b \<and> m = Inr y"
  "(if b then m else Inl e) = Inr y \<longleftrightarrow> b \<and> m = Inr y"
  by simp_all

lemma case_Inl_Inr_iff [result_iff]:
  "(case m of Inl _ \<Rightarrow> Inl e | Inr x \<Rightarrow> f x) = Inr y \<longleftrightarrow> (\<exists>x. m = Inr x \<and> f x = Inr y)"
  by (cases m) simp_all

lemma bind_result_assoc: "bind_result (bind_result m f) g = bind_result m (\<lambda>x. bind_result (f x) g)"
  by (cases m) simp_all

text \<open>\<open>if (condition) throw e;\<close> and the access to an optional or to the result of a lookup.\<close>

definition throw_if :: "bool \<Rightarrow> 'e \<Rightarrow> 'e + unit" where
  "throw_if b e = (if b then Inl e else Inr ())"

definition get_or_throw :: "'a option \<Rightarrow> 'e \<Rightarrow> 'e + 'a" where
  "get_or_throw m e = (case m of None \<Rightarrow> Inl e | Some x \<Rightarrow> Inr x)"

lemma throw_if_simps [simp]:
  "throw_if True e = Inl e"
  "throw_if False e = Inr ()"
  by (simp_all add: throw_if_def)

lemma get_or_throw_simps [simp]:
  "get_or_throw None e = Inl e"
  "get_or_throw (Some x) e = Inr x"
  by (simp_all add: get_or_throw_def)

lemma throw_if_Inr_iff [result_iff]: "throw_if b e = Inr u \<longleftrightarrow> \<not> b"
  by (cases b) simp_all

lemma get_or_throw_Inr_iff [result_iff]: "get_or_throw m e = Inr x \<longleftrightarrow> m = Some x"
  by (cases m) simp_all

lemma bind_result_cong [fundef_cong]:
  assumes "m = m'" and "\<And>x. m' = Inr x \<Longrightarrow> f x = f' x"
  shows "bind_result m f = bind_result m' f'"
  using assms by (cases m') simp_all

section \<open>Ordered maps\<close>

text \<open>\<open>std::map<Key, Value, Compare>\<close> is the list of its entries in the order of \<open>Compare\<close>, which is
  the order in which iteration and \<open>begin()\<close> see them. \<open>find\<close> is \<open>map_of\<close>, \<open>erase\<close> is
  \<open>AList.delete\<close> and insertion or assignment through \<open>operator[]\<close> is \<open>om_insert\<close>.\<close>

fun om_insert :: "('k \<Rightarrow> 'k \<Rightarrow> bool) \<Rightarrow> 'k \<Rightarrow> 'v \<Rightarrow> ('k \<times> 'v) list \<Rightarrow> ('k \<times> 'v) list" where
  "om_insert lt k v [] = [(k, v)]"
| "om_insert lt k v ((k', v') # xs) =
     (if lt k k' then (k, v) # (k', v') # xs
      else if k = k' then (k, v) # xs
      else (k', v') # om_insert lt k v xs)"

definition om_sorted :: "('k \<Rightarrow> 'k \<Rightarrow> bool) \<Rightarrow> ('k \<times> 'v) list \<Rightarrow> bool" where
  "om_sorted lt xs = sorted_wrt lt (map fst xs)"

lemma om_sorted_Nil [simp]: "om_sorted lt []"
  by (simp add: om_sorted_def)

lemma om_sorted_Cons [simp]:
  "om_sorted lt ((k, v) # xs) \<longleftrightarrow> (\<forall>k' \<in> fst ` set xs. lt k k') \<and> om_sorted lt xs"
  by (auto simp: om_sorted_def)

lemma om_insert_not_Nil [simp]: "om_insert lt k v xs \<noteq> []"
  by (induction lt k v xs rule: om_insert.induct) simp_all

lemma fst_set_om_insert [simp]: "fst ` set (om_insert lt k v xs) = insert k (fst ` set xs)"
  by (induction lt k v xs rule: om_insert.induct) (simp_all add: insert_commute)

lemma fst_set_delete [simp]: "fst ` set (AList.delete k xs) = fst ` set xs - {k}"
proof -
  have "set (map fst (AList.delete k xs)) = set (map fst xs) - {k}"
    unfolding delete_keys by simp
  then show ?thesis by simp
qed

lemma set_delete: "set (AList.delete k xs) = {(k', v') \<in> set xs. k' \<noteq> k}"
  by (induction xs) auto

lemma delete_absent: "k \<notin> fst ` set xs \<Longrightarrow> AList.delete k xs = xs"
  by (induction xs) auto

text \<open>The requirement of the C++ standard on \<open>Compare\<close>: a strict total order on the keys.\<close>

locale key_order =
  fixes lt :: "'k \<Rightarrow> 'k \<Rightarrow> bool"
  assumes lt_irrefl: "\<not> lt k k"
    and lt_trans: "lt a b \<Longrightarrow> lt b c \<Longrightarrow> lt a c"
    and lt_total: "a \<noteq> b \<Longrightarrow> lt a b \<or> lt b a"
begin

lemma lt_asym: "lt a b \<Longrightarrow> \<not> lt b a"
  using lt_irrefl lt_trans by blast

lemma om_sorted_distinct: "om_sorted lt xs \<Longrightarrow> distinct (map fst xs)"
  by (induction xs) (auto simp: lt_irrefl om_sorted_def)

lemma map_of_om_insert:
  "om_sorted lt xs \<Longrightarrow> map_of (om_insert lt k v xs) = (map_of xs)(k \<mapsto> v)"
proof (induction xs)
  case (Cons x xs)
  obtain k' v' where x: "x = (k', v')" by (cases x)
  show ?case
    using Cons by (auto simp: x fun_eq_iff)
qed simp

lemma om_sorted_om_insert: "om_sorted lt xs \<Longrightarrow> om_sorted lt (om_insert lt k v xs)"
proof (induction xs)
  case (Cons x xs)
  obtain k' v' where x: "x = (k', v')" by (cases x)
  have "lt k' k" if "\<not> lt k k'" "k \<noteq> k'"
    using that lt_total by blast
  then show ?case
    using Cons by (auto simp: x intro: lt_trans)
qed simp

lemma om_sorted_delete: "om_sorted lt xs \<Longrightarrow> om_sorted lt (AList.delete k xs)"
proof (induction xs)
  case (Cons x xs)
  then show ?case by (cases x) auto
qed simp

lemma om_insert_present:
  "om_sorted lt xs \<Longrightarrow> k \<in> fst ` set xs \<Longrightarrow>
     map fst (om_insert lt k v xs) = map fst xs"
proof (induction xs)
  case (Cons x xs)
  obtain k' v' where x: "x = (k', v')" by (cases x)
  show ?case
    using Cons lt_asym by (auto simp: x image_iff)
qed simp

lemma set_om_insert:
  "om_sorted lt xs \<Longrightarrow> set (om_insert lt k v xs) = insert (k, v) {(k', v') \<in> set xs. k' \<noteq> k}"
proof (induction xs)
  case (Cons x xs)
  obtain k' v' where x: "x = (k', v')" by (cases x)
  have "set xs \<subseteq> {(a, b). lt k' a}"
    using Cons.prems by (auto simp: x)
  then have "{(a, b) \<in> set xs. a \<noteq> k'} = set xs" and "lt k k' \<Longrightarrow> {(a, b) \<in> set xs. a \<noteq> k} = set xs"
    using lt_irrefl lt_trans by fast+
  moreover have "om_sorted lt xs"
    using Cons.prems by (simp add: x)
  ultimately show ?case
    using Cons.IH lt_irrefl [of k] by (auto simp: x)
qed simp

lemma om_insert_length_absent:
  "k \<notin> fst ` set xs \<Longrightarrow> length (om_insert lt k v xs) = Suc (length xs)"
  by (induction xs) auto

text \<open>\<open>begin()\<close> is the entry with the least key.\<close>

lemma om_head_least:
  "om_sorted lt ((k, v) # xs) \<Longrightarrow> k' \<in> fst ` set xs \<Longrightarrow> lt k k'"
  by auto

text \<open>Assigning to the first entry or erasing it leaves the rest of the iteration order alone.\<close>

lemma om_insert_head [simp]: "om_insert lt k v ((k, v') # xs) = (k, v) # xs"
  by (simp add: lt_irrefl)

lemma delete_head: "om_sorted lt ((k, v') # xs) \<Longrightarrow> AList.delete k ((k, v') # xs) = xs"
  using lt_irrefl [of k] by (auto intro!: delete_absent)

end

interpretation asc: key_order "(<) :: u64 \<Rightarrow> u64 \<Rightarrow> bool"
  by unfold_locales auto

interpretation desc: key_order "(>) :: u64 \<Rightarrow> u64 \<Rightarrow> bool"
  by unfold_locales auto

end
