(* ===== verification/Domain.thy ===== *)
theory Domain
  imports Prelude
begin

text \<open>
  The domain vocabulary: \<open>core/domain/include\<close> (identifiers, business events),
  \<open>core/instrument/include/instrument_config.hpp\<close>, \<open>core/task/include/time_in_force.hpp\<close>,
  \<open>sequencer/include/sequence_message.hpp\<close> and \<open>matching_engine/include/command_result.hpp\<close>.
  The \<open>StrongUnsigned\<close> wrappers are their underlying words. A C++ enumeration is a datatype of its
  enumerators; where the sources handle values that are no enumerator (a zero-initialised message, a
  \<open>default\<close> branch), a last constructor carries such a value.
\<close>

section \<open>Identifiers\<close>

type_synonym CommandSequence = u64
type_synonym ExchangeRunId = u64
type_synonym OrderId = u64
type_synonym TargetOrderId = u64
type_synonym ClientId = u64
type_synonym InstrumentId = u64
type_synonym EventIndex = u32
type_synonym Price = u64
type_synonym Quantity = u64

definition orderIdFrom_sequence :: "CommandSequence \<Rightarrow> OrderId" where
  "orderIdFrom_sequence commandSequence = commandSequence"

definition orderIdFrom_target :: "TargetOrderId \<Rightarrow> OrderId" where
  "orderIdFrom_target targetOrderId = targetOrderId"

section \<open>Client command identifiers\<close>

text \<open>\<open>ClientCommandId\<close> stores up to 64 bytes in a zero-filled array with the length beside it.\<close>

definition MAX_LENGTH :: nat where
  "MAX_LENGTH = 64"

record ClientCommandId =
  cc_bytes :: "u8 list"
  cc_size :: u8

definition make_ClientCommandId :: "u8 list \<Rightarrow> ClientCommandId result" where
  "make_ClientCommandId v =
     (if v = [] \<or> length v > MAX_LENGTH
      then Inl (invalid_argument ''ClientCommandId must contain between 1 and 64 ASCII bytes'')
      else if \<exists>byte \<in> set v. byte > 0x7f
      then Inl (invalid_argument ''ClientCommandId must contain only ASCII bytes'')
      else Inr \<lparr>cc_bytes = v @ replicate (MAX_LENGTH - length v) 0, cc_size = of_nat (length v)\<rparr>)"

definition ClientCommandId_value :: "ClientCommandId \<Rightarrow> u8 list" where
  "ClientCommandId_value c = take (unat (cc_size c)) (cc_bytes c)"

text \<open>The identifiers that the constructor can produce.\<close>

definition valid_ClientCommandId :: "ClientCommandId \<Rightarrow> bool" where
  "valid_ClientCommandId c \<longleftrightarrow> make_ClientCommandId (ClientCommandId_value c) = Inr c"

section \<open>Commands\<close>

datatype orderType = BUY | SELL | CANCEL | CANCELREJ | orderType_other u8

datatype TimeInForce = DAY | GTC | IOC | FOK | GTX | ATC | GTD | TimeInForce_other int

record sequenceMessage =
  orderId :: OrderId
  targetOrderId :: "TargetOrderId option"
  globalSequenceNumber :: CommandSequence
  clientId :: ClientId
  clientCommandId :: "ClientCommandId option"
  instrumentId :: InstrumentId
  configurationVersion :: u64
  price :: Price
  quantity :: Quantity
  symbol :: "u8 list"
  orderType_of :: orderType
  expiry :: int
  shard_id :: u8
  tif :: TimeInForce

text \<open>\<open>sequenceMessage message{}\<close> value-initialises every field.\<close>

definition empty_sequenceMessage :: sequenceMessage where
  "empty_sequenceMessage =
     \<lparr>orderId = 0, targetOrderId = None, globalSequenceNumber = 0, clientId = 0,
      clientCommandId = None, instrumentId = 0, configurationVersion = 0, price = 0, quantity = 0,
      symbol = replicate 10 0, orderType_of = orderType_other 0, expiry = 0, shard_id = 0,
      tif = TimeInForce_other 0\<rparr>"

section \<open>Business events\<close>

datatype Side = Side_BUY | Side_SELL | Side_other u8

datatype CommandType = NEW_ORDER | CommandType_CANCEL

datatype AdmissionRejectionReason =
  DUPLICATE_COMMAND_CONFLICT | EXCHANGE_RUN_UNAVAILABLE | GATEWAY_BUSY | RUN_CAPACITY_REACHED

datatype CommandRejectionReason = ORDER_NOT_ACTIVE | NOT_OWNER | BOOK_CAPACITY_EXCEEDED

datatype CancelReason = CLIENT_REQUESTED | IOC_REMAINDER

record EventId =
  ev_commandSequence :: CommandSequence
  ev_eventIndex :: EventIndex
  ev_exchangeRunId :: ExchangeRunId

record CommandRejected =
  cr_eventId :: EventId
  cr_commandType :: CommandType
  cr_clientId :: ClientId
  cr_clientCommandId :: ClientCommandId
  cr_relevantOrderId :: "OrderId option"
  cr_reason :: CommandRejectionReason

record Trade =
  tr_eventId :: EventId
  tr_instrumentId :: InstrumentId
  makerOrderId :: OrderId
  makerClientId :: ClientId
  takerOrderId :: OrderId
  takerClientId :: ClientId
  takerSide :: Side
  executionPrice :: Price
  executionQuantity :: Quantity
  makerRemainingQuantity :: Quantity
  takerRemainingQuantity :: Quantity

record OrderRested =
  or_eventId :: EventId
  or_orderId :: OrderId
  or_clientId :: ClientId
  or_instrumentId :: InstrumentId
  or_side :: Side
  or_price :: Price
  or_remainingQuantity :: Quantity

record OrderCancelled =
  oc_eventId :: EventId
  oc_orderId :: OrderId
  oc_clientId :: ClientId
  oc_instrumentId :: InstrumentId
  cancelledQuantity :: Quantity
  oc_reason :: CancelReason

datatype BusinessEvent =
    EvCommandRejected CommandRejected
  | EvTrade Trade
  | EvOrderRested OrderRested
  | EvOrderCancelled OrderCancelled

fun eventId_of :: "BusinessEvent \<Rightarrow> EventId" where
  "eventId_of (EvCommandRejected e) = cr_eventId e"
| "eventId_of (EvTrade e) = tr_eventId e"
| "eventId_of (EvOrderRested e) = or_eventId e"
| "eventId_of (EvOrderCancelled e) = oc_eventId e"

section \<open>Command results\<close>

datatype ProcessingResult = APPLIED | PR_BOOK_CAPACITY_EXCEEDED

record CommandResultCorrelation =
  co_clientId :: ClientId
  co_clientCommandId :: ClientCommandId
  co_commandSequence :: CommandSequence
  co_exchangeRunId :: ExchangeRunId

record CommandResultBatch =
  correlation :: CommandResultCorrelation
  batch_result :: ProcessingResult
  events :: "BusinessEvent list"

text \<open>The constructor checks that every event carries the identity of the batch.\<close>

definition make_CommandResultBatch ::
  "CommandResultCorrelation \<Rightarrow> ProcessingResult \<Rightarrow> BusinessEvent list \<Rightarrow> CommandResultBatch result" where
  "make_CommandResultBatch correl res evs =
     (if \<exists>event \<in> set evs.
           ev_commandSequence (eventId_of event) \<noteq> co_commandSequence correl \<or>
           ev_exchangeRunId (eventId_of event) \<noteq> co_exchangeRunId correl
      then Inl (invalid_argument ''command-result event identity does not match batch correlation'')
      else Inr \<lparr>correlation = correl, batch_result = res, events = evs\<rparr>)"

section \<open>Instrument configuration\<close>

record InstrumentConfiguration =
  ic_symbol :: string
  ic_instrumentId :: InstrumentId
  ic_configurationVersion :: u64
  priceScale :: u32
  tickSizeMantissa :: u64
  lotSize :: Quantity
  maxPrice :: Price
  maxOrderQuantity :: Quantity
  maxPriceLevelAggregate :: Quantity

definition SPY_V1 :: InstrumentConfiguration where
  "SPY_V1 =
     \<lparr>ic_symbol = ''SPY'', ic_instrumentId = 1, ic_configurationVersion = 1, priceScale = 4,
      tickSizeMantissa = 1, lotSize = 1, maxPrice = 10000000000, maxOrderQuantity = 100000000,
      maxPriceLevelAggregate = 1000000000\<rparr>"

definition findBySymbol :: "string \<Rightarrow> InstrumentConfiguration option" where
  "findBySymbol s = (if s = ic_symbol SPY_V1 then Some SPY_V1 else None)"

definition findByIdentity :: "InstrumentId \<Rightarrow> u64 \<Rightarrow> InstrumentConfiguration option" where
  "findByIdentity inst ver =
     (if inst = ic_instrumentId SPY_V1 \<and> ver = ic_configurationVersion SPY_V1
      then Some SPY_V1 else None)"

section \<open>Lemmas\<close>

lemma unat_of_nat_u8: "n < 256 \<Longrightarrow> unat (of_nat n :: u8) = n"
  by (simp add: unat_of_nat)

lemma ClientCommandId_value_make:
  "make_ClientCommandId v = Inr c \<Longrightarrow> ClientCommandId_value c = v"
  by (auto simp: make_ClientCommandId_def ClientCommandId_value_def MAX_LENGTH_def unat_of_nat_u8
      split: if_splits)

lemma make_ClientCommandId_valid:
  "make_ClientCommandId v = Inr c \<Longrightarrow> valid_ClientCommandId c"
  by (simp add: valid_ClientCommandId_def ClientCommandId_value_make)

lemma valid_ClientCommandId_bounds:
  assumes "valid_ClientCommandId c"
  shows "0 < length (ClientCommandId_value c)" and "length (ClientCommandId_value c) \<le> 64"
    and "\<forall>b \<in> set (ClientCommandId_value c). b \<le> 0x7f"
  using assms
  by (auto simp: valid_ClientCommandId_def make_ClientCommandId_def MAX_LENGTH_def not_less
      split: if_splits)

lemma ClientCommandId_value_inject:
  "valid_ClientCommandId c \<Longrightarrow> valid_ClientCommandId d \<Longrightarrow>
     ClientCommandId_value c = ClientCommandId_value d \<longleftrightarrow> c = d"
  unfolding valid_ClientCommandId_def by (metis sum.inject(2))

lemma findByIdentity_Some [result_iff]:
  "findByIdentity inst ver = Some c \<longleftrightarrow> inst = 1 \<and> ver = 1 \<and> c = SPY_V1"
  by (auto simp: findByIdentity_def SPY_V1_def)

end
