(* ===== verification/Matching_State.thy ===== *)
theory Matching_State
  imports Domain
begin

text \<open>
  \<open>MatchingState\<close> of \<open>matching_engine/include/matching_state.hpp\<close> and
  \<open>matching_engine/src/matching_engine.cpp\<close>: the books of one run and the synchronous application
  of one command. A \<open>std::list\<close> node is a record that carries its address, an address being the
  number of the allocation that made the node; an iterator stored in the active-order index is that
  address. So the aliasing between index and book that the code checks and writes through is kept.
  A reference to a price level is the path (instrument, side, price) to it.
  A call that throws has no resulting state here; the theorems show which calls do not throw.
\<close>

section \<open>State\<close>

record OrderNode =
  node_addr :: nat
  node_orderId :: OrderId
  node_owner :: ClientId
  node_remaining :: Quantity

record PriceLevel =
  totalQuantity :: Quantity
  orders :: "OrderNode list"

record InstrumentBook =
  bids :: "(Price \<times> PriceLevel) list"
  asks :: "(Price \<times> PriceLevel) list"

record ActiveOrder =
  ao_owner :: ClientId
  ao_instrumentId :: InstrumentId
  ao_side :: orderType
  ao_price :: Price
  ao_remaining :: Quantity
  ao_location :: nat

record MatchingState =
  ms_exchangeRunId :: ExchangeRunId
  orderBooks :: "(InstrumentId \<times> InstrumentBook) list"
  activeOrders :: "(OrderId \<times> ActiveOrder) list"
  nextNode :: nat

record MatchPlan =
  remainder :: Quantity
  executionCount :: nat

type_synonym ProcessingOutcome = "ProcessingResult \<times> BusinessEvent list"

definition init_MatchingState :: "ExchangeRunId \<Rightarrow> MatchingState" where
  "init_MatchingState runId =
     \<lparr>ms_exchangeRunId = runId, orderBooks = [], activeOrders = [], nextNode = 0\<rparr>"

definition empty_PriceLevel :: PriceLevel where
  "empty_PriceLevel = \<lparr>totalQuantity = 0, orders = []\<rparr>"

definition empty_InstrumentBook :: InstrumentBook where
  "empty_InstrumentBook = \<lparr>bids = [], asks = []\<rparr>"

section \<open>Access paths\<close>

text \<open>\<open>BidBook\<close> is ordered by \<open>std::greater\<close>, \<open>AskBook\<close> by \<open>std::less\<close>.\<close>

definition side_book :: "orderType \<Rightarrow> InstrumentBook \<Rightarrow> (Price \<times> PriceLevel) list" where
  "side_book side ib = (case side of BUY \<Rightarrow> bids ib | SELL \<Rightarrow> asks ib | _ \<Rightarrow> [])"

definition put_level :: "orderType \<Rightarrow> Price \<Rightarrow> PriceLevel \<Rightarrow> InstrumentBook \<Rightarrow> InstrumentBook" where
  "put_level side p l ib =
     (case side of
        BUY \<Rightarrow> ib\<lparr>bids := om_insert (>) p l (bids ib)\<rparr>
      | SELL \<Rightarrow> ib\<lparr>asks := om_insert (<) p l (asks ib)\<rparr>
      | _ \<Rightarrow> ib)"

definition erase_level :: "orderType \<Rightarrow> Price \<Rightarrow> InstrumentBook \<Rightarrow> InstrumentBook" where
  "erase_level side p ib =
     (case side of
        BUY \<Rightarrow> ib\<lparr>bids := AList.delete p (bids ib)\<rparr>
      | SELL \<Rightarrow> ib\<lparr>asks := AList.delete p (asks ib)\<rparr>
      | _ \<Rightarrow> ib)"

definition level_at :: "MatchingState \<Rightarrow> InstrumentId \<Rightarrow> orderType \<Rightarrow> Price \<Rightarrow> PriceLevel option" where
  "level_at st inst side p =
     (case map_of (orderBooks st) inst of None \<Rightarrow> None | Some ib \<Rightarrow> map_of (side_book side ib) p)"

definition set_book :: "InstrumentId \<Rightarrow> InstrumentBook \<Rightarrow> MatchingState \<Rightarrow> MatchingState" where
  "set_book inst ib st = st\<lparr>orderBooks := om_insert (<) inst ib (orderBooks st)\<rparr>"

definition set_active :: "OrderId \<Rightarrow> ActiveOrder \<Rightarrow> MatchingState \<Rightarrow> MatchingState" where
  "set_active oid ao st = st\<lparr>activeOrders := om_insert (<) oid ao (activeOrders st)\<rparr>"

definition erase_active :: "OrderId \<Rightarrow> MatchingState \<Rightarrow> MatchingState" where
  "erase_active oid st = st\<lparr>activeOrders := AList.delete oid (activeOrders st)\<rparr>"

text \<open>The last step of both removals: an instrument with no level left is erased.\<close>

definition erase_empty_instrument :: "InstrumentId \<Rightarrow> MatchingState \<Rightarrow> MatchingState" where
  "erase_empty_instrument inst st =
     (case map_of (orderBooks st) inst of
        None \<Rightarrow> st
      | Some ib \<Rightarrow>
          if bids ib = [] \<and> asks ib = []
          then st\<lparr>orderBooks := AList.delete inst (orderBooks st)\<rparr> else st)"

text \<open>All list nodes of the books; an iterator designates the node at its address.\<close>

definition book_nodes :: "InstrumentBook \<Rightarrow> OrderNode list" where
  "book_nodes ib = concat (map (\<lambda>(p, l). orders l) (bids ib @ asks ib))"

definition all_nodes :: "MatchingState \<Rightarrow> OrderNode list" where
  "all_nodes st = concat (map (\<lambda>(inst, ib). book_nodes ib) (orderBooks st))"

definition deref_node :: "MatchingState \<Rightarrow> nat \<Rightarrow> OrderNode option" where
  "deref_node st loc = List.find (\<lambda>n. node_addr n = loc) (all_nodes st)"

definition erase_node :: "nat \<Rightarrow> OrderNode list \<Rightarrow> OrderNode list result" where
  "erase_node loc os =
     (if loc \<in> set (map node_addr os) then Inr (filter (\<lambda>n. node_addr n \<noteq> loc) os)
      else Inl (undefined_behaviour ''erase of an iterator of another list''))"

section \<open>Helpers of the translation unit\<close>

definition MAX_EVENTS_PER_COMMAND :: nat where
  "MAX_EVENTS_PER_COMMAND = 4096"

definition checkedAddEventCount :: "nat \<Rightarrow> nat \<Rightarrow> nat result" where
  "checkedAddEventCount currentCount additionalCount =
     (if additionalCount > SIZE_MAX - currentCount
      then Inl (logic_error ''business-event count overflow during matching plan'')
      else Inr (currentCount + additionalCount))"

definition makeEventId :: "ExchangeRunId \<Rightarrow> CommandSequence \<Rightarrow> nat \<Rightarrow> EventId result" where
  "makeEventId runId cs eventIndex =
     (if eventIndex > UINT32_MAX
      then Inl (logic_error ''EventIndex exhausted during one command'')
      else Inr \<lparr>ev_commandSequence = cs, ev_eventIndex = of_nat eventIndex,
                ev_exchangeRunId = runId\<rparr>)"

definition toDomainSide :: "orderType \<Rightarrow> Side result" where
  "toDomainSide side =
     (if side = BUY then Inr Side_BUY
      else if side = SELL then Inr Side_SELL
      else Inl (logic_error ''non-order side reached matching engine''))"

definition resultCorrelationFrom ::
  "sequenceMessage \<Rightarrow> ExchangeRunId \<Rightarrow> CommandResultCorrelation result" where
  "resultCorrelationFrom message runId =
     (let missing = logic_error ''sequenced command is missing result correlation'' in
     bind_result (throw_if (clientId message = 0) missing) (\<lambda>_.
     bind_result (get_or_throw (clientCommandId message) missing) (\<lambda>ccid.
     bind_result (throw_if (globalSequenceNumber message = 0) missing) (\<lambda>_.
     Inr \<lparr>co_clientId = clientId message, co_clientCommandId = ccid,
          co_commandSequence = globalSequenceNumber message, co_exchangeRunId = runId\<rparr>))))"

section \<open>Rejections\<close>

definition rejectBookCapacity :: "MatchingState \<Rightarrow> sequenceMessage \<Rightarrow> ProcessingOutcome result" where
  "rejectBookCapacity st message =
     bind_result (get_or_throw (clientCommandId message)
       (logic_error ''sequenced command is missing ClientCommandId'')) (\<lambda>ccid.
     Inr (PR_BOOK_CAPACITY_EXCEEDED,
          [EvCommandRejected
             \<lparr>cr_eventId = \<lparr>ev_commandSequence = globalSequenceNumber message,
                            ev_eventIndex = 0, ev_exchangeRunId = ms_exchangeRunId st\<rparr>,
              cr_commandType = NEW_ORDER,
              cr_clientId = clientId message,
              cr_clientCommandId = ccid,
              cr_relevantOrderId = Some (orderId message),
              cr_reason = BOOK_CAPACITY_EXCEEDED\<rparr>]))"

definition rejectCancel ::
  "MatchingState \<Rightarrow> sequenceMessage \<Rightarrow> OrderId \<Rightarrow> CommandRejectionReason \<Rightarrow> ProcessingOutcome result" where
  "rejectCancel st message target reason =
     bind_result (makeEventId (ms_exchangeRunId st) (globalSequenceNumber message) 0) (\<lambda>eid.
     bind_result (get_or_throw (clientCommandId message)
       (undefined_behaviour ''dereference of an empty optional'')) (\<lambda>ccid.
     Inr (APPLIED,
          [EvCommandRejected
             \<lparr>cr_eventId = eid,
              cr_commandType = CommandType_CANCEL,
              cr_clientId = clientId message,
              cr_clientCommandId = ccid,
              cr_relevantOrderId = Some target,
              cr_reason = reason\<rparr>])))"

section \<open>Resting an order\<close>

definition canAddOrder :: "MatchingState \<Rightarrow> sequenceMessage \<Rightarrow> Quantity \<Rightarrow> bool result" where
  "canAddOrder st message qty =
     (if qty = 0 then Inr True
      else
      bind_result (get_or_throw (findByIdentity (instrumentId message) (configurationVersion message))
        (logic_error ''unknown instrument configuration reached matching engine'')) (\<lambda>configuration.
      bind_result (throw_if (orderType_of message \<noteq> BUY \<and> orderType_of message \<noteq> SELL)
        (logic_error ''non-order message cannot rest in the order book'')) (\<lambda>_.
      let currentAggregate =
            (case level_at st (instrumentId message) (orderType_of message) (price message) of
               None \<Rightarrow> 0 | Some l \<Rightarrow> totalQuantity l);
          maximum = maxPriceLevelAggregate configuration
      in Inr (currentAggregate \<le> maximum \<and> qty \<le> maximum - currentAggregate))))"

definition addOrder ::
  "MatchingState \<Rightarrow> sequenceMessage \<Rightarrow> Quantity \<Rightarrow> (MatchingState \<times> ProcessingResult) result" where
  "addOrder st message remainingQuantity =
     bind_result (throw_if (orderId message \<in> fst ` set (activeOrders st))
       (logic_error ''duplicate authoritative OrderId reached matching engine'')) (\<lambda>_.
     if remainingQuantity = 0 then Inr (st, APPLIED)
     else
     bind_result (canAddOrder st message remainingQuantity) (\<lambda>fits.
     if \<not> fits then Inr (st, PR_BOOK_CAPACITY_EXCEEDED)
     else
     let inst = instrumentId message; side = orderType_of message; p = price message;
         ib = (case map_of (orderBooks st) inst of None \<Rightarrow> empty_InstrumentBook | Some ib \<Rightarrow> ib) in
     bind_result (throw_if (side \<noteq> BUY \<and> side \<noteq> SELL)
       (logic_error ''non-order message cannot rest in the order book'')) (\<lambda>_.
     let lvl = (case map_of (side_book side ib) p of None \<Rightarrow> empty_PriceLevel | Some l \<Rightarrow> l);
         node = \<lparr>node_addr = nextNode st, node_orderId = orderId message,
                 node_owner = clientId message, node_remaining = remainingQuantity\<rparr>;
         lvl' = \<lparr>totalQuantity = totalQuantity lvl + remainingQuantity, orders = orders lvl @ [node]\<rparr>;
         ao = \<lparr>ao_owner = clientId message, ao_instrumentId = inst, ao_side = side, ao_price = p,
               ao_remaining = remainingQuantity, ao_location = node_addr node\<rparr>
     in Inr ((set_active (orderId message) ao (set_book inst (put_level side p lvl' ib) st))
               \<lparr>nextNode := Suc (nextNode st)\<rparr>, APPLIED))))"

section \<open>Removing an order\<close>

definition removeFilledOrder :: "MatchingState \<Rightarrow> OrderId \<Rightarrow> MatchingState result" where
  "removeFilledOrder st oid =
     (let notFilled = logic_error ''only a fully filled active order can use filled-order removal'' in
     bind_result (get_or_throw (map_of (activeOrders st) oid) notFilled) (\<lambda>ao.
     bind_result (throw_if (ao_remaining ao \<noteq> 0) notFilled) (\<lambda>_.
     bind_result (get_or_throw (deref_node st (ao_location ao))
       (undefined_behaviour ''dangling order iterator'')) (\<lambda>node.
     bind_result (throw_if (node_remaining node \<noteq> 0) notFilled) (\<lambda>_.
     let inst = ao_instrumentId ao; side = ao_side ao; p = ao_price ao; loc = ao_location ao in
     bind_result (get_or_throw (map_of (orderBooks st) inst)
       (logic_error ''active order references a missing instrument book'')) (\<lambda>ib.
     bind_result (throw_if (side \<noteq> BUY \<and> side \<noteq> SELL)
       (logic_error ''active order has a non-resting side'')) (\<lambda>_.
     bind_result (get_or_throw (map_of (side_book side ib) p)
       (logic_error (if side = BUY then ''active order references a missing bid level''
                     else ''active order references a missing ask level''))) (\<lambda>lvl.
     bind_result (erase_node loc (orders lvl)) (\<lambda>os.
     bind_result (throw_if (os = [] \<and> totalQuantity lvl \<noteq> 0)
       (logic_error (if side = BUY then ''empty bid level has non-zero aggregate''
                     else ''empty ask level has non-zero aggregate''))) (\<lambda>_.
     let ib' = (if os = [] then erase_level side p ib
                else put_level side p (lvl\<lparr>orders := os\<rparr>) ib)
     in Inr (erase_empty_instrument inst (set_book inst ib' (erase_active oid st)))))))))))))"

definition removeCancelledOrder :: "MatchingState \<Rightarrow> OrderId \<Rightarrow> MatchingState result" where
  "removeCancelledOrder st oid =
     (let notActive = logic_error ''only an active positive-quantity order can be cancelled'';
          inconsistent = logic_error ''active-order index is inconsistent with cancellation target'' in
     bind_result (get_or_throw (map_of (activeOrders st) oid) notActive) (\<lambda>ao.
     bind_result (throw_if (ao_remaining ao = 0) notActive) (\<lambda>_.
     let owner = ao_owner ao; inst = ao_instrumentId ao; side = ao_side ao; p = ao_price ao;
         remainingQuantity = ao_remaining ao; loc = ao_location ao in
     bind_result (get_or_throw (map_of (orderBooks st) inst)
       (logic_error ''active order references a missing instrument book'')) (\<lambda>ib.
     bind_result (throw_if (side \<noteq> BUY \<and> side \<noteq> SELL)
       (logic_error ''active order has a non-resting side'')) (\<lambda>_.
     bind_result (get_or_throw (map_of (side_book side ib) p)
       (logic_error (if side = BUY then ''active order references a missing bid level''
                     else ''active order references a missing ask level''))) (\<lambda>lvl.
     bind_result (get_or_throw (List.find (\<lambda>n. node_addr n = loc) (orders lvl)) inconsistent)
       (\<lambda>storedOrder.
     bind_result (throw_if
       (node_orderId storedOrder \<noteq> oid \<or> node_owner storedOrder \<noteq> owner \<or>
        node_remaining storedOrder \<noteq> remainingQuantity \<or> totalQuantity lvl < remainingQuantity)
       inconsistent) (\<lambda>_.
     let removeLevel = (length (orders lvl) = 1) in
     bind_result (throw_if
       ((removeLevel \<and> totalQuantity lvl \<noteq> remainingQuantity) \<or>
        (\<not> removeLevel \<and> totalQuantity lvl \<le> remainingQuantity))
       (logic_error ''price-level aggregate is inconsistent with cancellation target'')) (\<lambda>_.
     bind_result (erase_node loc (orders lvl)) (\<lambda>os.
     let lvl' = \<lparr>totalQuantity = totalQuantity lvl - remainingQuantity, orders = os\<rparr>;
         ib' = (if removeLevel then erase_level side p ib else put_level side p lvl' ib)
     in Inr (erase_empty_instrument inst (set_book inst ib' (erase_active oid st)))))))))))))"

end
