(* ===== verification/Matching_Process.thy ===== *)
theory Matching_Process
  imports Matching_State
begin

text \<open>
  Planning, execution and dispatch of \<open>matching_engine/src/matching_engine.cpp\<close>: the mutation-free
  plan, the matching loops, the command handlers, the snapshot and the self-check
  \<open>invariantsHold\<close>. Each iteration of a matching loop lowers the taker's remaining quantity, which
  is the measure that makes the loops total.
\<close>

section \<open>Planning\<close>

fun planOrders :: "OrderNode list \<Rightarrow> MatchPlan \<Rightarrow> MatchPlan result" where
  "planOrders [] plan = Inr plan"
| "planOrders (order # rest) plan =
     (if remainder plan = 0 then Inr plan
      else if node_remaining order = 0
      then Inl (logic_error ''zero-quantity order remained in order book'')
      else
        let tradeQuantity = min (remainder plan) (node_remaining order)
        in bind_result (checkedAddEventCount (executionCount plan) 1) (\<lambda>count.
             planOrders rest
               \<lparr>remainder = remainder plan - tradeQuantity, executionCount = count\<rparr>))"

fun planBook :: "(Price \<Rightarrow> bool) \<Rightarrow> (Price \<times> PriceLevel) list \<Rightarrow> MatchPlan \<Rightarrow> MatchPlan result" where
  "planBook isEligible [] plan = Inr plan"
| "planBook isEligible ((p, level) # book) plan =
     (if remainder plan > 0 then
        if \<not> isEligible p then Inr plan
        else bind_result (planOrders (orders level) plan) (planBook isEligible book)
      else Inr plan)"

definition planMatches :: "MatchingState \<Rightarrow> sequenceMessage \<Rightarrow> MatchPlan result" where
  "planMatches st message =
     (let plan = \<lparr>remainder = quantity message, executionCount = 0\<rparr>
      in case map_of (orderBooks st) (instrumentId message) of
           None \<Rightarrow> Inr plan
         | Some ib \<Rightarrow>
             if orderType_of message = BUY
             then planBook (\<lambda>p. p \<le> price message) (asks ib) plan
             else if orderType_of message = SELL
             then planBook (\<lambda>p. p \<ge> price message) (bids ib) plan
             else Inl (logic_error ''non-order message cannot plan matching''))"

section \<open>Execution\<close>

definition executeTrade ::
  "sequenceMessage \<Rightarrow> orderType \<Rightarrow> Side \<Rightarrow> Price \<Rightarrow> MatchingState \<Rightarrow> Quantity \<Rightarrow> BusinessEvent list \<Rightarrow>
     (MatchingState \<times> Quantity \<times> BusinessEvent list) result" where
  "executeTrade message makerSide tkSide execPrice st remaining evs =
     (let inst = instrumentId message;
          inconsistent = logic_error ''active-order index is inconsistent with resting order node'' in
     bind_result (get_or_throw (map_of (orderBooks st) inst)
       (undefined_behaviour ''reference into a missing instrument book'')) (\<lambda>ib.
     bind_result (get_or_throw (map_of (side_book makerSide ib) execPrice)
       (undefined_behaviour ''reference to a missing price level'')) (\<lambda>lvl.
     bind_result (throw_if (orders lvl = [])
       (undefined_behaviour ''dereference of the end of an empty list'')) (\<lambda>_.
     let node = hd (orders lvl) in
     bind_result (get_or_throw (map_of (activeOrders st) (node_orderId node)) inconsistent) (\<lambda>ao.
     bind_result (throw_if
       (ao_instrumentId ao \<noteq> inst \<or> ao_side ao \<noteq> makerSide \<or> ao_price ao \<noteq> execPrice \<or>
        ao_location ao \<noteq> node_addr node \<or> ao_remaining ao \<noteq> node_remaining node \<or>
        ao_owner ao \<noteq> node_owner node) inconsistent) (\<lambda>_.
     let tradeQuantity = min remaining (node_remaining node) in
     bind_result (throw_if (tradeQuantity = 0 \<or> tradeQuantity > totalQuantity lvl)
       (logic_error ''invalid resting quantity or price-level aggregate during matching'')) (\<lambda>_.
     let makerRemaining = node_remaining node - tradeQuantity;
         takerRemaining = remaining - tradeQuantity in
     bind_result (makeEventId (ms_exchangeRunId st) (globalSequenceNumber message) (length evs)) (\<lambda>eid.
     let trade = EvTrade
           \<lparr>tr_eventId = eid, tr_instrumentId = inst,
            makerOrderId = node_orderId node, makerClientId = node_owner node,
            takerOrderId = orderId message, takerClientId = clientId message,
            takerSide = tkSide, executionPrice = execPrice, executionQuantity = tradeQuantity,
            makerRemainingQuantity = makerRemaining, takerRemainingQuantity = takerRemaining\<rparr>;
         lvl' = \<lparr>totalQuantity = totalQuantity lvl - tradeQuantity,
                 orders = node\<lparr>node_remaining := makerRemaining\<rparr> # tl (orders lvl)\<rparr>;
         st' = set_active (node_orderId node) (ao\<lparr>ao_remaining := makerRemaining\<rparr>)
                 (set_book inst (put_level makerSide execPrice lvl' ib) st) in
     bind_result (if makerRemaining = 0 then removeFilledOrder st' (node_orderId node) else Inr st')
       (\<lambda>st''. Inr (st'', takerRemaining, evs @ [trade]))))))))))"

lemma executeTrade_decreases:
  assumes "executeTrade message makerSide tkSide execPrice st remaining evs = Inr (st', remaining', evs')"
  shows "unat remaining' < unat remaining"
proof -
  from assms have "\<exists>t. t \<noteq> 0 \<and> t \<le> remaining \<and> remaining' = remaining - t"
    unfolding executeTrade_def Let_def by (auto simp only: result_iff prod.inject sum.inject
        de_Morgan_disj min.cobounded1)
  then show ?thesis by (auto intro: unat_sub_less)
qed

function matchBuyOrder ::
  "sequenceMessage \<Rightarrow> MatchingState \<Rightarrow> Quantity \<Rightarrow> BusinessEvent list \<Rightarrow>
     (MatchingState \<times> Quantity \<times> BusinessEvent list) result" where
  "matchBuyOrder message st remaining evs =
     (if remaining > 0 then
        case map_of (orderBooks st) (instrumentId message) of
          None \<Rightarrow> Inr (st, remaining, evs)
        | Some ib \<Rightarrow>
            (case asks ib of
               [] \<Rightarrow> Inr (st, remaining, evs)
             | (p, level) # _ \<Rightarrow>
                 if p > price message then Inr (st, remaining, evs)
                 else if orders level = []
                 then Inl (logic_error ''empty price level remained in order book'')
                 else
                   case executeTrade message SELL Side_BUY p st remaining evs of
                     Inl e \<Rightarrow> Inl e
                   | Inr (st', remaining', evs') \<Rightarrow> matchBuyOrder message st' remaining' evs')
      else Inr (st, remaining, evs))"
  by pat_completeness auto
termination
  by (relation "measure (\<lambda>(message, st, remaining, evs). unat remaining)")
    (auto dest: executeTrade_decreases)

function matchSellOrder ::
  "sequenceMessage \<Rightarrow> MatchingState \<Rightarrow> Quantity \<Rightarrow> BusinessEvent list \<Rightarrow>
     (MatchingState \<times> Quantity \<times> BusinessEvent list) result" where
  "matchSellOrder message st remaining evs =
     (if remaining > 0 then
        case map_of (orderBooks st) (instrumentId message) of
          None \<Rightarrow> Inr (st, remaining, evs)
        | Some ib \<Rightarrow>
            (case bids ib of
               [] \<Rightarrow> Inr (st, remaining, evs)
             | (p, level) # _ \<Rightarrow>
                 if p < price message then Inr (st, remaining, evs)
                 else if orders level = []
                 then Inl (logic_error ''empty price level remained in order book'')
                 else
                   case executeTrade message BUY Side_SELL p st remaining evs of
                     Inl e \<Rightarrow> Inl e
                   | Inr (st', remaining', evs') \<Rightarrow> matchSellOrder message st' remaining' evs')
      else Inr (st, remaining, evs))"
  by pat_completeness auto
termination
  by (relation "measure (\<lambda>(message, st, remaining, evs). unat remaining)")
    (auto dest: executeTrade_decreases)

declare matchBuyOrder.simps [simp del] matchSellOrder.simps [simp del]

definition matchOrder ::
  "sequenceMessage \<Rightarrow> MatchingState \<Rightarrow> Quantity \<Rightarrow> BusinessEvent list \<Rightarrow>
     (MatchingState \<times> Quantity \<times> BusinessEvent list) result" where
  "matchOrder message st remaining evs =
     (if orderType_of message = BUY then matchBuyOrder message st remaining evs
      else if orderType_of message = SELL then matchSellOrder message st remaining evs
      else Inl (logic_error ''non-order message cannot enter matching''))"

section \<open>Command handlers\<close>

definition processOrder ::
  "MatchingState \<Rightarrow> sequenceMessage \<Rightarrow> bool \<Rightarrow> (MatchingState \<times> ProcessingOutcome) result" where
  "processOrder st message restRemainder =
     bind_result (planMatches st message) (\<lambda>plan.
     bind_result (checkedAddEventCount (executionCount plan) (if remainder plan > 0 then 1 else 0))
       (\<lambda>plannedEventCount.
     if plannedEventCount > MAX_EVENTS_PER_COMMAND
     then bind_result (rejectBookCapacity st message) (\<lambda>outcome. Inr (st, outcome))
     else
     bind_result (if restRemainder then canAddOrder st message (remainder plan) else Inr True) (\<lambda>fits.
     if \<not> fits
     then bind_result (rejectBookCapacity st message) (\<lambda>outcome. Inr (st, outcome))
     else
     bind_result
       (if plannedEventCount > 0
        then bind_result (makeEventId (ms_exchangeRunId st) (globalSequenceNumber message)
               (plannedEventCount - 1)) (\<lambda>_. Inr ())
        else Inr ()) (\<lambda>_.
     bind_result (matchOrder message st (quantity message) []) (\<lambda>(st1, remaining, evs).
     if remaining \<noteq> remainder plan \<or> length evs \<noteq> executionCount plan
     then Inl (logic_error ''matching result diverged from mutation-free plan'')
     else
     bind_result
       (if restRemainder \<and> remaining > 0
        then
          bind_result (addOrder st1 message remaining) (\<lambda>(st2, res).
          if res \<noteq> APPLIED
          then Inl (logic_error ''price-level capacity changed during single-writer processing'')
          else
            bind_result (makeEventId (ms_exchangeRunId st) (globalSequenceNumber message) (length evs))
              (\<lambda>eid.
            bind_result (toDomainSide (orderType_of message)) (\<lambda>side.
            Inr (st2, evs @ [EvOrderRested
                  \<lparr>or_eventId = eid, or_orderId = orderId message, or_clientId = clientId message,
                   or_instrumentId = instrumentId message, or_side = side,
                   or_price = price message, or_remainingQuantity = remaining\<rparr>]))))
        else if remaining > 0
        then
          bind_result (makeEventId (ms_exchangeRunId st) (globalSequenceNumber message) (length evs))
            (\<lambda>eid.
          Inr (st1, evs @ [EvOrderCancelled
                \<lparr>oc_eventId = eid, oc_orderId = orderId message, oc_clientId = clientId message,
                 oc_instrumentId = instrumentId message, cancelledQuantity = remaining,
                 oc_reason = IOC_REMAINDER\<rparr>]))
        else Inr (st1, evs)) (\<lambda>(st3, evs3).
     if length evs3 \<noteq> plannedEventCount
     then Inl (logic_error ''terminal outcome diverged from mutation-free plan'')
     else Inr (st3, APPLIED, evs3)))))))"

definition processBuyOrder ::
  "MatchingState \<Rightarrow> sequenceMessage \<Rightarrow> (MatchingState \<times> ProcessingOutcome) result" where
  "processBuyOrder st message =
     (if tif message \<noteq> GTC \<and> tif message \<noteq> IOC
      then Inl (logic_error ''unsupported TimeInForce reached matching engine'')
      else if orderId message \<in> fst ` set (activeOrders st)
      then Inl (logic_error ''duplicate authoritative OrderId reached matching engine'')
      else processOrder st message (tif message = GTC))"

definition processSellOrder ::
  "MatchingState \<Rightarrow> sequenceMessage \<Rightarrow> (MatchingState \<times> ProcessingOutcome) result" where
  "processSellOrder st message =
     (if tif message \<noteq> GTC \<and> tif message \<noteq> IOC
      then Inl (logic_error ''unsupported TimeInForce reached matching engine'')
      else if orderId message \<in> fst ` set (activeOrders st)
      then Inl (logic_error ''duplicate authoritative OrderId reached matching engine'')
      else processOrder st message (tif message = GTC))"

definition processCancel ::
  "MatchingState \<Rightarrow> sequenceMessage \<Rightarrow> (MatchingState \<times> ProcessingOutcome) result" where
  "processCancel st message =
     (case targetOrderId message of
        None \<Rightarrow> Inl (logic_error ''cancel command is missing required normalized fields'')
      | Some tgt \<Rightarrow>
     if orderType_of message \<noteq> CANCEL \<or> globalSequenceNumber message = 0 \<or> clientId message = 0 \<or>
        clientCommandId message = None \<or> instrumentId message = 0
     then Inl (logic_error ''cancel command is missing required normalized fields'')
     else if orderId message \<noteq> 0
     then Inl (logic_error ''cancel command carries an unexpected authoritative OrderId'')
     else
       let target = orderIdFrom_target tgt
       in case map_of (activeOrders st) target of
            None \<Rightarrow>
              bind_result (rejectCancel st message target ORDER_NOT_ACTIVE) (\<lambda>outcome. Inr (st, outcome))
          | Some ao \<Rightarrow>
              if ao_owner ao \<noteq> clientId message
              then bind_result (rejectCancel st message target NOT_OWNER) (\<lambda>outcome. Inr (st, outcome))
              else if ao_instrumentId ao \<noteq> instrumentId message
              then Inl (logic_error ''cancel command routed to the wrong instrument book'')
              else
                bind_result (makeEventId (ms_exchangeRunId st) (globalSequenceNumber message) 0) (\<lambda>eid.
                let evs = [EvOrderCancelled
                      \<lparr>oc_eventId = eid, oc_orderId = target, oc_clientId = ao_owner ao,
                       oc_instrumentId = ao_instrumentId ao, cancelledQuantity = ao_remaining ao,
                       oc_reason = CLIENT_REQUESTED\<rparr>]
                in bind_result (removeCancelledOrder st target) (\<lambda>st'. Inr (st', APPLIED, evs))))"

definition processMessage ::
  "MatchingState \<Rightarrow> sequenceMessage \<Rightarrow> (MatchingState \<times> ProcessingOutcome) result" where
  "processMessage st message =
     (case orderType_of message of
        BUY \<Rightarrow> processBuyOrder st message
      | SELL \<Rightarrow> processSellOrder st message
      | CANCEL \<Rightarrow> processCancel st message
      | CANCELREJ \<Rightarrow> Inl (logic_error ''CANCELREJ is not a valid matching-engine command'')
      | orderType_other _ \<Rightarrow> Inl (logic_error ''unsupported order type reached matching engine''))"

definition processCommand ::
  "MatchingState \<Rightarrow> sequenceMessage \<Rightarrow> (MatchingState \<times> CommandResultBatch) result" where
  "processCommand st message =
     bind_result (resultCorrelationFrom message (ms_exchangeRunId st)) (\<lambda>correl.
     bind_result (processMessage st message) (\<lambda>(st', res, evs).
     bind_result (make_CommandResultBatch correl res evs) (\<lambda>batch.
     Inr (st', batch))))"

section \<open>Snapshot\<close>

record RestingOrderSnapshot =
  ros_orderId :: OrderId
  ros_owner :: ClientId
  ros_remainingQuantity :: Quantity

record PriceLevelSnapshot =
  pls_instrumentId :: InstrumentId
  pls_side :: Side
  pls_price :: Price
  pls_totalQuantity :: Quantity
  pls_orders :: "RestingOrderSnapshot list"

record ActiveOrderSnapshot =
  aos_orderId :: OrderId
  aos_owner :: ClientId
  aos_instrumentId :: InstrumentId
  aos_side :: Side
  aos_price :: Price
  aos_remainingQuantity :: Quantity

record MatchingStateSnapshot =
  mss_exchangeRunId :: ExchangeRunId
  priceLevels :: "PriceLevelSnapshot list"
  mss_activeOrders :: "ActiveOrderSnapshot list"

definition appendLevels ::
  "InstrumentId \<Rightarrow> Side \<Rightarrow> (Price \<times> PriceLevel) list \<Rightarrow> PriceLevelSnapshot list" where
  "appendLevels inst side book =
     map (\<lambda>(p, level).
           \<lparr>pls_instrumentId = inst, pls_side = side, pls_price = p,
            pls_totalQuantity = totalQuantity level,
            pls_orders = map (\<lambda>n. \<lparr>ros_orderId = node_orderId n, ros_owner = node_owner n,
                                   ros_remainingQuantity = node_remaining n\<rparr>) (orders level)\<rparr>) book"

fun snapshotActiveOrders ::
  "(OrderId \<times> ActiveOrder) list \<Rightarrow> ActiveOrderSnapshot list result" where
  "snapshotActiveOrders [] = Inr []"
| "snapshotActiveOrders ((oid, ao) # rest) =
     bind_result (toDomainSide (ao_side ao)) (\<lambda>side.
     bind_result (snapshotActiveOrders rest) (\<lambda>snaps.
     Inr (\<lparr>aos_orderId = oid, aos_owner = ao_owner ao, aos_instrumentId = ao_instrumentId ao,
           aos_side = side, aos_price = ao_price ao, aos_remainingQuantity = ao_remaining ao\<rparr> # snaps)))"

definition snapshot :: "MatchingState \<Rightarrow> MatchingStateSnapshot result" where
  "snapshot st =
     bind_result (snapshotActiveOrders (activeOrders st)) (\<lambda>snaps.
     Inr \<lparr>mss_exchangeRunId = ms_exchangeRunId st,
          priceLevels =
            concat (map (\<lambda>(inst, ib). appendLevels inst Side_BUY (bids ib) @
                                        appendLevels inst Side_SELL (asks ib)) (orderBooks st)),
          mss_activeOrders = snaps\<rparr>)"

section \<open>The self-check\<close>

definition checkOrder ::
  "MatchingState \<Rightarrow> InstrumentId \<Rightarrow> orderType \<Rightarrow> Price \<Rightarrow> OrderNode \<Rightarrow> bool" where
  "checkOrder st inst side p order \<longleftrightarrow>
     node_remaining order \<noteq> 0 \<and>
     (case map_of (activeOrders st) (node_orderId order) of
        None \<Rightarrow> False
      | Some ao \<Rightarrow>
          ao_owner ao = node_owner order \<and> ao_instrumentId ao = inst \<and> ao_side ao = side \<and>
          ao_price ao = p \<and> ao_remaining ao = node_remaining order \<and>
          ao_location ao = node_addr order)"

definition checkSide ::
  "MatchingState \<Rightarrow> InstrumentId \<Rightarrow> orderType \<Rightarrow> (Price \<times> PriceLevel) list \<Rightarrow> bool" where
  "checkSide st inst side book \<longleftrightarrow>
     list_all (\<lambda>(p, level).
       orders level \<noteq> [] \<and> list_all (checkOrder st inst side p) (orders level) \<and>
       foldl (\<lambda>total order. total + node_remaining order) 0 (orders level) = totalQuantity level) book"

definition invariantsHold :: "MatchingState \<Rightarrow> bool" where
  "invariantsHold st \<longleftrightarrow>
     list_all (\<lambda>(inst, ib).
       \<not> (bids ib = [] \<and> asks ib = []) \<and> checkSide st inst BUY (bids ib) \<and>
       checkSide st inst SELL (asks ib)) (orderBooks st) \<and>
     length (all_nodes st) = length (activeOrders st)"

end
