(* ===== verification/Matching_Views.thy ===== *)
theory Matching_Views
  imports Matching_Process
begin

text \<open>
  The books seen as functions: \<open>side_levels\<close> gives the levels of one side of one instrument in
  iteration order, \<open>level_at\<close> one level, and \<open>map_of (activeOrders st)\<close> the index. Every mutation
  of the code is a pointwise update of these views, so the invariant is stated and preserved on them.
\<close>

section \<open>Views\<close>

definition side_levels :: "MatchingState \<Rightarrow> InstrumentId \<Rightarrow> orderType \<Rightarrow> (Price \<times> PriceLevel) list" where
  "side_levels st i s = (case map_of (orderBooks st) i of None \<Rightarrow> [] | Some ib \<Rightarrow> side_book s ib)"

definition price_before :: "orderType \<Rightarrow> Price \<Rightarrow> Price \<Rightarrow> bool" where
  "price_before s = (if s = BUY then (>) else (<))"

definition resting_side :: "orderType \<Rightarrow> bool" where
  "resting_side s \<longleftrightarrow> s = BUY \<or> s = SELL"

definition book_sorted :: "InstrumentBook \<Rightarrow> bool" where
  "book_sorted ib \<longleftrightarrow> om_sorted (>) (bids ib) \<and> om_sorted (<) (asks ib)"

text \<open>The maps are in order, and no instrument without levels is kept.\<close>

definition maps_sorted :: "MatchingState \<Rightarrow> bool" where
  "maps_sorted st \<longleftrightarrow>
     om_sorted (<) (orderBooks st) \<and> om_sorted (<) (activeOrders st) \<and>
     (\<forall>(i, ib) \<in> set (orderBooks st). book_sorted ib)"

definition no_empty_book :: "MatchingState \<Rightarrow> bool" where
  "no_empty_book st \<longleftrightarrow> (\<forall>(i, ib) \<in> set (orderBooks st). \<not> (bids ib = [] \<and> asks ib = []))"

interpretation price_order: key_order "price_before s"
  by unfold_locales (auto simp: price_before_def split: if_splits)

lemma level_at_side_levels: "level_at st i s p = map_of (side_levels st i s) p"
  by (simp add: level_at_def side_levels_def split: option.splits)

lemma side_levels_non_resting: "\<not> resting_side s \<Longrightarrow> side_levels st i s = []"
  by (cases s) (auto simp: side_levels_def side_book_def resting_side_def split: option.splits)

lemma side_book_sorted: "book_sorted ib \<Longrightarrow> om_sorted (price_before s) (side_book s ib)"
  by (cases s) (auto simp: book_sorted_def side_book_def price_before_def)

lemma side_levels_sorted: "maps_sorted st \<Longrightarrow> om_sorted (price_before s) (side_levels st i s)"
  by (auto simp: side_levels_def maps_sorted_def dest!: map_of_SomeD intro!: side_book_sorted
      split: option.splits)

lemma level_at_in_side_levels:
  "maps_sorted st \<Longrightarrow> (p, l) \<in> set (side_levels st i s) \<longleftrightarrow> level_at st i s p = Some l"
  by (simp add: level_at_side_levels price_order.om_sorted_distinct [OF side_levels_sorted])

section \<open>Effect of the mutations on the views\<close>

lemma side_book_put_level:
  "resting_side s \<Longrightarrow>
     side_book s' (put_level s p l ib) =
       (if s' = s then om_insert (price_before s) p l (side_book s ib) else side_book s' ib)"
  by (auto simp: resting_side_def put_level_def side_book_def price_before_def split: orderType.splits)

lemma side_book_erase_level:
  "resting_side s \<Longrightarrow>
     side_book s' (erase_level s p ib) =
       (if s' = s then AList.delete p (side_book s ib) else side_book s' ib)"
  by (auto simp: resting_side_def erase_level_def side_book_def split: orderType.splits)

lemma book_sorted_put_level: "book_sorted ib \<Longrightarrow> book_sorted (put_level s p l ib)"
  by (cases s)
    (auto simp: book_sorted_def put_level_def asc.om_sorted_om_insert desc.om_sorted_om_insert)

lemma book_sorted_erase_level: "book_sorted ib \<Longrightarrow> book_sorted (erase_level s p ib)"
  by (cases s) (auto simp: book_sorted_def erase_level_def asc.om_sorted_delete desc.om_sorted_delete)

lemma side_levels_set_book:
  "maps_sorted st \<Longrightarrow>
     side_levels (set_book i ib st) j s = (if j = i then side_book s ib else side_levels st j s)"
  by (simp add: side_levels_def set_book_def maps_sorted_def asc.map_of_om_insert)

lemma maps_sorted_set_book:
  "maps_sorted st \<Longrightarrow> book_sorted ib \<Longrightarrow> maps_sorted (set_book i ib st)"
  by (auto simp: maps_sorted_def set_book_def asc.om_sorted_om_insert asc.set_om_insert)

lemma no_empty_book_set_book:
  "maps_sorted st \<Longrightarrow> no_empty_book st \<Longrightarrow> \<not> (bids ib = [] \<and> asks ib = []) \<Longrightarrow>
     no_empty_book (set_book i ib st)"
  by (auto simp: maps_sorted_def no_empty_book_def set_book_def asc.set_om_insert)

lemma set_active_views [simp]:
  "side_levels (set_active oid ao st) = side_levels st"
  "orderBooks (set_active oid ao st) = orderBooks st"
  "nextNode (set_active oid ao st) = nextNode st"
  "ms_exchangeRunId (set_active oid ao st) = ms_exchangeRunId st"
  by (auto simp: set_active_def side_levels_def fun_eq_iff)

lemma erase_active_views [simp]:
  "side_levels (erase_active oid st) = side_levels st"
  "orderBooks (erase_active oid st) = orderBooks st"
  "nextNode (erase_active oid st) = nextNode st"
  "ms_exchangeRunId (erase_active oid st) = ms_exchangeRunId st"
  "activeOrders (erase_active oid st) = AList.delete oid (activeOrders st)"
  by (auto simp: erase_active_def side_levels_def fun_eq_iff)

lemma set_book_fields [simp]:
  "activeOrders (set_book i ib st) = activeOrders st"
  "nextNode (set_book i ib st) = nextNode st"
  "ms_exchangeRunId (set_book i ib st) = ms_exchangeRunId st"
  by (simp_all add: set_book_def)

lemma maps_sorted_set_active: "maps_sorted st \<Longrightarrow> maps_sorted (set_active oid ao st)"
  by (simp add: maps_sorted_def set_active_def asc.om_sorted_om_insert)

lemma maps_sorted_erase_active: "maps_sorted st \<Longrightarrow> maps_sorted (erase_active oid st)"
  by (simp add: maps_sorted_def asc.om_sorted_delete)

lemma map_of_set_active:
  "maps_sorted st \<Longrightarrow>
     map_of (activeOrders (set_active oid ao st)) = (map_of (activeOrders st))(oid \<mapsto> ao)"
  by (simp add: maps_sorted_def set_active_def asc.map_of_om_insert)

lemma no_empty_book_cong: "orderBooks st' = orderBooks st \<Longrightarrow> no_empty_book st' = no_empty_book st"
  by (simp add: no_empty_book_def)

lemma erase_empty_instrument_fields [simp]:
  "activeOrders (erase_empty_instrument i st) = activeOrders st"
  "nextNode (erase_empty_instrument i st) = nextNode st"
  "ms_exchangeRunId (erase_empty_instrument i st) = ms_exchangeRunId st"
  by (simp_all add: erase_empty_instrument_def split: option.splits)

lemma side_levels_erase_empty_instrument [simp]:
  "side_levels (erase_empty_instrument i st) = side_levels st"
proof (intro ext)
  fix j s
  show "side_levels (erase_empty_instrument i st) j s = side_levels st j s"
    by (cases s)
      (auto simp: side_levels_def erase_empty_instrument_def delete_conv' side_book_def
        split: option.splits)
qed

lemma maps_sorted_erase_empty_instrument:
  "maps_sorted st \<Longrightarrow> maps_sorted (erase_empty_instrument i st)"
  by (auto simp: maps_sorted_def erase_empty_instrument_def asc.om_sorted_delete set_delete
      split: option.splits)

lemma no_empty_book_erase_empty_instrument:
  assumes sorted: "maps_sorted st"
    and others: "\<And>j ib. (j, ib) \<in> set (orderBooks st) \<Longrightarrow> j \<noteq> i \<Longrightarrow> \<not> (bids ib = [] \<and> asks ib = [])"
  shows "no_empty_book (erase_empty_instrument i st)"
proof -
  have dist: "distinct (map fst (orderBooks st))"
    using sorted asc.om_sorted_distinct by (auto simp: maps_sorted_def)
  then have "ib = ib'" if "map_of (orderBooks st) i = Some ib'" "(i, ib) \<in> set (orderBooks st)" for ib ib'
    using that by (metis map_of_eq_Some_iff option.inject)
  then show ?thesis
    using others
    by (fastforce simp: no_empty_book_def erase_empty_instrument_def set_delete
        dest: weak_map_of_SomeI split: option.splits)
qed

end
