(* ===== verification/Matching_Invariant.thy ===== *)
theory Matching_Invariant
  imports Matching_Views
begin

text \<open>
  The invariant of the matching state and its preservation by the three elementary changes of a
  book: reducing the order at the head of a level, removing an order, resting an order.
\<close>

section \<open>The invariant\<close>

type_synonym level_view = "InstrumentId \<Rightarrow> orderType \<Rightarrow> Price \<Rightarrow> PriceLevel option"
type_synonym index_view = "OrderId \<Rightarrow> ActiveOrder option"

definition level_sum :: "OrderNode list \<Rightarrow> nat" where
  "level_sum os = sum_list (map (\<lambda>n. unat (node_remaining n)) os)"

text \<open>A level holds at least one order, every order has a positive remainder, and the aggregate is
  the exact sum of the remainders and within the configured maximum.\<close>

definition wf_level :: "PriceLevel \<Rightarrow> bool" where
  "wf_level l \<longleftrightarrow>
     orders l \<noteq> [] \<and> (\<forall>n \<in> set (orders l). node_remaining n \<noteq> 0) \<and>
     distinct (map node_orderId (orders l)) \<and>
     unat (totalQuantity l) = level_sum (orders l) \<and>
     totalQuantity l \<le> maxPriceLevelAggregate SPY_V1"

text \<open>The index entry of a resting order.\<close>

definition index_entry :: "InstrumentId \<Rightarrow> orderType \<Rightarrow> Price \<Rightarrow> OrderNode \<Rightarrow> ActiveOrder" where
  "index_entry i s p n =
     \<lparr>ao_owner = node_owner n, ao_instrumentId = i, ao_side = s, ao_price = p,
      ao_remaining = node_remaining n, ao_location = node_addr n\<rparr>"

definition levels_ok :: "level_view \<Rightarrow> bool" where
  "levels_ok L \<longleftrightarrow> (\<forall>i s p l. L i s p = Some l \<longrightarrow> resting_side s \<and> wf_level l)"

definition nodes_indexed :: "level_view \<Rightarrow> index_view \<Rightarrow> bool" where
  "nodes_indexed L A \<longleftrightarrow>
     (\<forall>i s p l n. L i s p = Some l \<longrightarrow> n \<in> set (orders l) \<longrightarrow>
        A (node_orderId n) = Some (index_entry i s p n))"

definition index_backed :: "level_view \<Rightarrow> index_view \<Rightarrow> bool" where
  "index_backed L A \<longleftrightarrow>
     (\<forall>oid ao. A oid = Some ao \<longrightarrow>
        (\<exists>l. L (ao_instrumentId ao) (ao_side ao) (ao_price ao) = Some l \<and>
             oid \<in> node_orderId ` set (orders l)))"

definition locations_ok :: "index_view \<Rightarrow> nat \<Rightarrow> bool" where
  "locations_ok A nxt \<longleftrightarrow>
     (\<forall>oid ao. A oid = Some ao \<longrightarrow> ao_location ao < nxt) \<and>
     (\<forall>oid oid' ao ao'. A oid = Some ao \<longrightarrow> A oid' = Some ao' \<longrightarrow>
        ao_location ao = ao_location ao' \<longrightarrow> oid = oid')"

text \<open>No bid is at or above an ask of the same instrument.\<close>

definition uncrossed :: "level_view \<Rightarrow> bool" where
  "uncrossed L \<longleftrightarrow> (\<forall>i b a. L i BUY b \<noteq> None \<longrightarrow> L i SELL a \<noteq> None \<longrightarrow> b < a)"

definition book_inv :: "level_view \<Rightarrow> index_view \<Rightarrow> nat \<Rightarrow> bool" where
  "book_inv L A nxt \<longleftrightarrow>
     levels_ok L \<and> nodes_indexed L A \<and> index_backed L A \<and> locations_ok A nxt \<and> uncrossed L"

definition wf_state :: "MatchingState \<Rightarrow> bool" where
  "wf_state st \<longleftrightarrow>
     maps_sorted st \<and> no_empty_book st \<and>
     book_inv (level_at st) (map_of (activeOrders st)) (nextNode st)"

lemmas book_inv_defs = book_inv_def levels_ok_def nodes_indexed_def index_backed_def
  locations_ok_def uncrossed_def

definition upd_level ::
  "level_view \<Rightarrow> InstrumentId \<Rightarrow> orderType \<Rightarrow> Price \<Rightarrow> PriceLevel option \<Rightarrow> level_view" where
  "upd_level L i s p v = (\<lambda>i' s' p'. if i' = i \<and> s' = s \<and> p' = p then v else L i' s' p')"

lemma upd_level_apply [simp]:
  "upd_level L i s p v i' s' p' = (if i' = i \<and> s' = s \<and> p' = p then v else L i' s' p')"
  by (simp add: upd_level_def)

section \<open>Consequences of the invariant\<close>

lemma wf_state_init: "wf_state (init_MatchingState runId)"
  by (simp add: wf_state_def init_MatchingState_def maps_sorted_def no_empty_book_def book_inv_defs
      level_at_def)

lemma level_sum_simps [simp]:
  "level_sum [] = 0"
  "level_sum (n # os) = unat (node_remaining n) + level_sum os"
  "level_sum (os @ os') = level_sum os + level_sum os'"
  by (simp_all add: level_sum_def)

lemma level_sum_remove:
  "distinct (map node_orderId os) \<Longrightarrow> n \<in> set os \<Longrightarrow>
     level_sum os = unat (node_remaining n) + level_sum (filter (\<lambda>m. node_orderId m \<noteq> node_orderId n) os)"
proof (induction os)
  case (Cons m os)
  show ?case
  proof (cases "m = n")
    case True
    have "filter (\<lambda>k. node_orderId k \<noteq> node_orderId n) os = os"
      using Cons.prems True by (auto simp: filter_id_conv image_iff)
    then show ?thesis using True by simp
  next
    case False
    then have "node_orderId m \<noteq> node_orderId n" and "n \<in> set os"
      using Cons.prems by force+
    then show ?thesis using Cons by simp
  qed
qed simp

lemma book_inv_level:
  assumes "book_inv L A nxt" and "L i s p = Some l"
  shows "resting_side s" and "wf_level l"
  using assms by (auto simp: book_inv_defs)

lemma book_inv_index:
  assumes "book_inv L A nxt" and "L i s p = Some l" and "n \<in> set (orders l)"
  shows "A (node_orderId n) = Some (index_entry i s p n)"
  using assms unfolding book_inv_def nodes_indexed_def by blast

text \<open>An order identifier determines its level and its node.\<close>

lemma book_inv_unique:
  assumes inv: "book_inv L A nxt"
    and l: "L i s p = Some l" and n: "n \<in> set (orders l)"
    and l': "L i' s' p' = Some l'" and n': "n' \<in> set (orders l')"
    and same: "node_orderId n = node_orderId n'"
  shows "i' = i" and "s' = s" and "p' = p" and "n' = n"
proof -
  have "index_entry i s p n = index_entry i' s' p' n'"
    using book_inv_index [OF inv l n] book_inv_index [OF inv l' n'] same by simp
  with same show "i' = i" "s' = s" "p' = p" "n' = n"
    by (auto simp: index_entry_def)
qed

lemma book_inv_address:
  assumes inv: "book_inv L A nxt"
    and l: "L i s p = Some l" and n: "n \<in> set (orders l)"
    and l': "L i' s' p' = Some l'" and n': "n' \<in> set (orders l')"
    and same: "node_addr n = node_addr n'"
  shows "node_orderId n = node_orderId n'"
proof -
  have "ao_location (index_entry i s p n) = ao_location (index_entry i' s' p' n')"
    using same by (simp add: index_entry_def)
  with book_inv_index [OF inv l n] book_inv_index [OF inv l' n'] inv show ?thesis
    unfolding book_inv_def locations_ok_def by blast
qed

section \<open>Preservation\<close>

lemma wf_level_reduce:
  assumes "wf_level l" and "orders l = n # rest" and "t \<noteq> 0" and "t < node_remaining n"
  shows "wf_level \<lparr>totalQuantity = totalQuantity l - t,
                   orders = n\<lparr>node_remaining := node_remaining n - t\<rparr> # rest\<rparr>"
proof -
  have "unat t < unat (node_remaining n)"
    using assms(4) by (simp add: word_less_nat_alt)
  moreover have "unat (totalQuantity l) = unat (node_remaining n) + level_sum rest"
    using assms(1,2) by (simp add: wf_level_def)
  moreover have "t \<le> totalQuantity l" and "t \<le> node_remaining n"
    using calculation assms(4) by (simp_all add: word_le_nat_alt)
  moreover have "totalQuantity l - t \<le> totalQuantity l"
    using \<open>t \<le> totalQuantity l\<close> by (rule word_sub_le)
  ultimately show ?thesis
    using assms by (auto simp: wf_level_def unat_sub word_less_nat_alt)
qed

lemma wf_level_remove:
  assumes wf: "wf_level l" and n: "n \<in> set (orders l)"
    and os: "os = filter (\<lambda>m. node_orderId m \<noteq> node_orderId n) (orders l)" and "os \<noteq> []"
  shows "wf_level \<lparr>totalQuantity = totalQuantity l - node_remaining n, orders = os\<rparr>"
proof -
  have "unat (totalQuantity l) = unat (node_remaining n) + level_sum os"
    using wf n level_sum_remove [of "orders l" n] by (simp add: wf_level_def os)
  moreover have "node_remaining n \<le> totalQuantity l"
    using calculation by (simp add: word_le_nat_alt)
  moreover have "totalQuantity l - node_remaining n \<le> totalQuantity l"
    using \<open>node_remaining n \<le> totalQuantity l\<close> by (rule word_sub_le)
  ultimately show ?thesis
    using assms by (auto simp: wf_level_def unat_sub distinct_map_filter)
qed

lemma locations_ok_update:
  assumes "locations_ok A nxt" and "A k = Some a" and "ao_location b = ao_location a"
  shows "locations_ok (A(k \<mapsto> b)) nxt"
proof -
  have "\<exists>a'. A x = Some a' \<and> ao_location a' = ao_location ao" if "(A(k \<mapsto> b)) x = Some ao" for x ao
    using that assms(2,3) by (auto split: if_splits)
  then show ?thesis
    using assms(1) unfolding locations_ok_def by metis
qed

lemma book_inv_reduce:
  assumes inv: "book_inv L A nxt" and l: "L i s p = Some l" and os: "orders l = n # rest"
    and t: "t \<noteq> 0" "t < node_remaining n"
  shows "book_inv
     (upd_level L i s p (Some \<lparr>totalQuantity = totalQuantity l - t,
                               orders = n\<lparr>node_remaining := node_remaining n - t\<rparr> # rest\<rparr>))
     (A(node_orderId n \<mapsto> (index_entry i s p n)\<lparr>ao_remaining := node_remaining n - t\<rparr>)) nxt"
    (is "book_inv ?L ?A nxt")
proof -
  let ?n = "n\<lparr>node_remaining := node_remaining n - t\<rparr>"
  have An: "A (node_orderId n) = Some (index_entry i s p n)"
    using book_inv_index [OF inv l] os by simp
  have entry: "(index_entry i s p n)\<lparr>ao_remaining := node_remaining n - t\<rparr> = index_entry i s p ?n"
    by (simp add: index_entry_def)
  have dist: "node_orderId m \<noteq> node_orderId n" if "m \<in> set rest" for m
    using book_inv_level(2) [OF inv l] os that by (auto simp: wf_level_def image_iff)
  have elsewhere: "node_orderId m \<noteq> node_orderId n"
    if "L i' s' p' = Some l'" "m \<in> set (orders l')" "\<not> (i' = i \<and> s' = s \<and> p' = p)" for i' s' p' l' m
    using book_inv_unique [OF inv l _ that(1,2)] that(3) os by fastforce
  have "levels_ok ?L"
    using inv wf_level_reduce [OF book_inv_level(2) [OF inv l] os t] book_inv_level(1) [OF inv l]
    by (auto simp: book_inv_defs)
  moreover have "nodes_indexed ?L ?A"
    unfolding nodes_indexed_def entry
    using book_inv_index [OF inv] l os dist elsewhere by auto
  moreover have "index_backed ?L ?A"
    using inv l os An unfolding book_inv_def index_backed_def
    by (auto simp: index_entry_def split: if_splits; force)
  moreover have "locations_ok ?A nxt"
    using inv by (auto simp: book_inv_def index_entry_def An intro: locations_ok_update)
  moreover have "uncrossed ?L"
    using inv l unfolding book_inv_def uncrossed_def by (auto split: if_splits)
  ultimately show ?thesis
    by (simp add: book_inv_def)
qed

lemma book_inv_remove:
  assumes inv: "book_inv L A nxt" and l: "L i s p = Some l" and n: "n \<in> set (orders l)"
    and os: "os = filter (\<lambda>m. node_orderId m \<noteq> node_orderId n) (orders l)"
  shows "book_inv
     (upd_level L i s p
        (if os = [] then None
         else Some \<lparr>totalQuantity = totalQuantity l - node_remaining n, orders = os\<rparr>))
     (A(node_orderId n := None)) nxt"
    (is "book_inv ?L ?A nxt")
proof -
  have An: "A (node_orderId n) = Some (index_entry i s p n)"
    by (rule book_inv_index [OF inv l n])
  have elsewhere: "node_orderId m \<noteq> node_orderId n"
    if "L i' s' p' = Some l'" "m \<in> set (orders l')" "\<not> (i' = i \<and> s' = s \<and> p' = p)" for i' s' p' l' m
    using book_inv_unique [OF inv l n that(1,2)] that(3) by fastforce
  have "levels_ok ?L"
    using inv wf_level_remove [OF book_inv_level(2) [OF inv l] n os] book_inv_level(1) [OF inv l]
    by (auto simp: book_inv_defs split: if_splits)
  moreover have "nodes_indexed ?L ?A"
    unfolding nodes_indexed_def
    using book_inv_index [OF inv] l elsewhere by (auto simp: os split: if_splits)
  moreover have "index_backed ?L ?A"
    unfolding index_backed_def
  proof (intro allI impI)
    fix oid ao
    assume "?A oid = Some ao"
    then have neq: "oid \<noteq> node_orderId n" and "A oid = Some ao"
      by (auto split: if_splits)
    then obtain l' where l': "L (ao_instrumentId ao) (ao_side ao) (ao_price ao) = Some l'"
      and mem: "oid \<in> node_orderId ` set (orders l')"
      using inv unfolding book_inv_def index_backed_def by blast
    show "\<exists>l'. ?L (ao_instrumentId ao) (ao_side ao) (ao_price ao) = Some l' \<and>
        oid \<in> node_orderId ` set (orders l')"
    proof (cases "ao_instrumentId ao = i \<and> ao_side ao = s \<and> ao_price ao = p")
      case True
      then have "oid \<in> node_orderId ` set os"
        using l l' mem neq by (auto simp: os)
      with True show ?thesis by auto
    next
      case False
      with l' mem show ?thesis by auto
    qed
  qed
  moreover have "locations_ok ?A nxt"
    using inv unfolding book_inv_def locations_ok_def by (auto split: if_splits)
  moreover have "uncrossed ?L"
    using inv l unfolding book_inv_def uncrossed_def by (auto split: if_splits)
  ultimately show ?thesis
    by (simp add: book_inv_def)
qed

lemma wf_level_add:
  assumes lvl: "old = None \<and> l = empty_PriceLevel \<or> old = Some l \<and> wf_level l"
    and r: "r \<noteq> 0" and cap: "totalQuantity l \<le> maxPriceLevelAggregate SPY_V1"
      "r \<le> maxPriceLevelAggregate SPY_V1 - totalQuantity l"
    and new: "node_orderId n \<notin> node_orderId ` set (orders l)" and nr: "node_remaining n = r"
  shows "wf_level \<lparr>totalQuantity = totalQuantity l + r, orders = orders l @ [n]\<rparr>"
proof -
  let ?M = "maxPriceLevelAggregate SPY_V1"
  have M: "unat ?M = 1000000000"
    by (simp add: SPY_V1_def)
  have "unat r \<le> unat ?M - unat (totalQuantity l)"
    using cap by (simp add: word_le_nat_alt unat_sub)
  then have bound: "unat (totalQuantity l) + unat r \<le> 1000000000"
    using cap(1) M by (simp add: word_le_nat_alt)
  then have sum: "unat (totalQuantity l + r) = unat (totalQuantity l) + unat r"
    by (simp add: unat_plus_if_size word_size)
  have "unat (totalQuantity l) = level_sum (orders l)" "distinct (map node_orderId (orders l))"
    "\<forall>m \<in> set (orders l). node_remaining m \<noteq> 0"
    using lvl by (auto simp: wf_level_def empty_PriceLevel_def)
  then show ?thesis
    using sum bound M r new nr by (auto simp: wf_level_def word_le_nat_alt)
qed

lemma book_inv_add:
  assumes inv: "book_inv L A nxt" and s: "resting_side s"
    and fresh: "A oid = None" and addr: "node_addr n = nxt" and oid: "node_orderId n = oid"
    and lvl: "l = (case L i s p of None \<Rightarrow> empty_PriceLevel | Some l \<Rightarrow> l)"
    and r: "node_remaining n \<noteq> 0" and cap: "totalQuantity l \<le> maxPriceLevelAggregate SPY_V1"
      "node_remaining n \<le> maxPriceLevelAggregate SPY_V1 - totalQuantity l"
    and buy: "\<And>a. s = BUY \<Longrightarrow> L i SELL a \<noteq> None \<Longrightarrow> p < a"
    and sell: "\<And>b. s = SELL \<Longrightarrow> L i BUY b \<noteq> None \<Longrightarrow> b < p"
  shows "book_inv
     (upd_level L i s p
        (Some \<lparr>totalQuantity = totalQuantity l + node_remaining n, orders = orders l @ [n]\<rparr>))
     (A(oid \<mapsto> index_entry i s p n)) (Suc nxt)"
    (is "book_inv ?L ?A _")
proof -
  have old: "L i s p = None \<and> l = empty_PriceLevel \<or> L i s p = Some l \<and> wf_level l"
    using lvl book_inv_level(2) [OF inv] by (auto split: option.splits)
  have no_id: "node_orderId m \<noteq> oid" if "L i' s' p' = Some l'" "m \<in> set (orders l')" for i' s' p' l' m
    using book_inv_index [OF inv that] fresh by auto
  have new: "node_orderId n \<notin> node_orderId ` set (orders l)"
    using old no_id oid by (auto simp: empty_PriceLevel_def; blast)
  have "levels_ok ?L"
    using inv s wf_level_add [OF old r cap new refl] by (auto simp: book_inv_defs)
  moreover have "nodes_indexed ?L ?A"
    unfolding nodes_indexed_def
    using book_inv_index [OF inv] old oid no_id by (auto simp: empty_PriceLevel_def)
  moreover have "index_backed ?L ?A"
    using inv old oid unfolding book_inv_def index_backed_def
    by (auto simp: index_entry_def empty_PriceLevel_def split: if_splits; force)
  moreover have "locations_ok ?A (Suc nxt)"
    using inv addr unfolding book_inv_def locations_ok_def
    by (auto simp: index_entry_def; fastforce)
  moreover have "uncrossed ?L"
    using inv s buy sell unfolding book_inv_def uncrossed_def resting_side_def
    by (auto split: if_splits)
  ultimately show ?thesis
    by (simp add: book_inv_def)
qed

end
