(* ===== verification/Matching_Operations.thy ===== *)
theory Matching_Operations
  imports Matching_Invariant
begin

text \<open>
  What each mutating operation of the matching state does to a well-formed state: it does not
  throw, it keeps the invariant, and it changes exactly one level and one index entry.
\<close>

section \<open>Replacing the book of an instrument\<close>

lemma map_of_orderBooks_sorted:
  "maps_sorted st \<Longrightarrow> map_of (orderBooks st) i = Some ib \<Longrightarrow> book_sorted ib"
  by (auto simp: maps_sorted_def dest!: map_of_SomeD)

lemma replace_book:
  fixes i :: InstrumentId
  assumes "maps_sorted st" and "book_sorted ib'"
  defines "st' \<equiv> erase_empty_instrument i (set_book i ib' st)"
  shows "maps_sorted st'"
    and "no_empty_book st \<Longrightarrow> no_empty_book st'"
    and "side_levels st' = (side_levels st)(i := (\<lambda>s. side_book s ib'))"
    and "activeOrders st' = activeOrders st" and "nextNode st' = nextNode st"
    and "ms_exchangeRunId st' = ms_exchangeRunId st"
proof -
  have sorted': "maps_sorted (set_book i ib' st)"
    using assms by (simp add: maps_sorted_set_book)
  then show "maps_sorted st'"
    unfolding st'_def by (rule maps_sorted_erase_empty_instrument)
  show "no_empty_book st'" if "no_empty_book st"
    unfolding st'_def
    using sorted' assms(1) that
    by (intro no_empty_book_erase_empty_instrument)
      (auto simp: set_book_def maps_sorted_def asc.set_om_insert no_empty_book_def)
  show "side_levels st' = (side_levels st)(i := (\<lambda>s. side_book s ib'))"
    using assms(1) by (auto simp: st'_def side_levels_set_book fun_eq_iff)
qed (simp_all add: st'_def)

lemma level_at_put:
  assumes "maps_sorted st"
    and "side_levels st' = (side_levels st)(i := (side_levels st i)
           (s := om_insert (price_before s) p l (side_levels st i s)))"
  shows "level_at st' = upd_level (level_at st) i s p (Some l)"
  using assms
  by (auto simp: fun_eq_iff level_at_side_levels price_order.map_of_om_insert [OF side_levels_sorted])

lemma level_at_delete:
  assumes "side_levels st' = (side_levels st)(i := (side_levels st i)
             (s := AList.delete p (side_levels st i s)))"
  shows "level_at st' = upd_level (level_at st) i s p None"
  using assms by (auto simp: fun_eq_iff level_at_side_levels delete_conv')

text \<open>Writing one level (or erasing it) and then erasing the instrument if nothing is left, as both
  removals do.\<close>

definition write_level ::
  "orderType \<Rightarrow> Price \<Rightarrow> PriceLevel option \<Rightarrow> InstrumentBook \<Rightarrow> InstrumentBook" where
  "write_level s p v ib = (case v of None \<Rightarrow> erase_level s p ib | Some l \<Rightarrow> put_level s p l ib)"

definition write_levels ::
  "orderType \<Rightarrow> Price \<Rightarrow> PriceLevel option \<Rightarrow> (Price \<times> PriceLevel) list \<Rightarrow> (Price \<times> PriceLevel) list" where
  "write_levels s p v ls =
     (case v of None \<Rightarrow> AList.delete p ls | Some l \<Rightarrow> om_insert (price_before s) p l ls)"

lemma replace_level:
  fixes st :: MatchingState and ib :: InstrumentBook and i s p v
  assumes sorted: "maps_sorted st" and noempty: "no_empty_book st"
    and ib: "map_of (orderBooks st) i = Some ib" and s: "resting_side s"
  defines "st' \<equiv> erase_empty_instrument i (set_book i (write_level s p v ib) st)"
  shows "maps_sorted st'" and "no_empty_book st'"
    and "side_levels st' = (side_levels st)(i := (side_levels st i)
           (s := write_levels s p v (side_levels st i s)))"
    and "level_at st' = upd_level (level_at st) i s p v"
    and "activeOrders st' = activeOrders st" and "nextNode st' = nextNode st"
    and "ms_exchangeRunId st' = ms_exchangeRunId st"
proof -
  have "book_sorted (write_level s p v ib)"
    using map_of_orderBooks_sorted [OF sorted ib]
    by (simp add: write_level_def book_sorted_put_level book_sorted_erase_level split: option.splits)
  note rb = replace_book [OF sorted this, of i, folded st'_def]
  show "maps_sorted st'" and "no_empty_book st'" and "activeOrders st' = activeOrders st"
    and "nextNode st' = nextNode st" and "ms_exchangeRunId st' = ms_exchangeRunId st"
    using rb noempty by simp_all
  have "side_book s' (write_level s p v ib) =
      ((side_levels st i)(s := write_levels s p v (side_levels st i s))) s'" for s'
    using s ib
    by (simp add: write_level_def write_levels_def side_book_erase_level side_book_put_level
        side_levels_def split: option.splits)
  with rb(3) show *: "side_levels st' = (side_levels st)(i := (side_levels st i)
           (s := write_levels s p v (side_levels st i s)))"
    by (auto simp: fun_eq_iff)
  show "level_at st' = upd_level (level_at st) i s p v"
  proof (cases v)
    case None
    with * show ?thesis by (simp add: write_levels_def level_at_delete)
  next
    case (Some l)
    with * show ?thesis by (simp add: write_levels_def level_at_put [OF sorted])
  qed
qed

lemma side_levels_present:
  "map_of (orderBooks st) i = Some ib \<Longrightarrow> side_book s ib = side_levels st i s"
  by (simp add: side_levels_def)

lemma side_levels_Cons_present:
  "side_levels st i s = x # xs \<Longrightarrow> \<exists>ib. map_of (orderBooks st) i = Some ib"
  by (auto simp: side_levels_def split: option.splits)

lemma level_at_Some_iff:
  "level_at st i s p = Some l \<longleftrightarrow>
     (\<exists>ib. map_of (orderBooks st) i = Some ib \<and> map_of (side_book s ib) p = Some l)"
  by (auto simp: level_at_def split: option.splits)

lemma resting_side_not_other: "resting_side s \<Longrightarrow> (s \<noteq> BUY \<and> s \<noteq> SELL) = False"
  by (auto simp: resting_side_def)

lemma level_at_erase_active [simp]: "level_at (erase_active oid st) = level_at st"
  by (simp add: level_at_def fun_eq_iff)

lemma level_at_set_active [simp]: "level_at (set_active oid ao st) = level_at st"
  by (simp add: level_at_def fun_eq_iff)

section \<open>Iterators\<close>

lemma set_book_nodes:
  "book_sorted ib \<Longrightarrow>
     n \<in> set (book_nodes ib) \<longleftrightarrow> (\<exists>s p l. map_of (side_book s ib) p = Some l \<and> n \<in> set (orders l))"
  (is "_ \<Longrightarrow> ?L \<longleftrightarrow> ?R")
proof -
  assume sorted: "book_sorted ib"
  then have dist: "distinct (map fst (bids ib))" "distinct (map fst (asks ib))"
    by (auto simp: book_sorted_def asc.om_sorted_distinct desc.om_sorted_distinct)
  have side: "map_of (side_book s ib) p = Some l \<longleftrightarrow>
      s = BUY \<and> (p, l) \<in> set (bids ib) \<or> s = SELL \<and> (p, l) \<in> set (asks ib)" for s p l
    using dist by (cases s) (auto simp: side_book_def)
  show "?L \<longleftrightarrow> ?R"
    unfolding side by (auto simp: book_nodes_def)
qed

lemma set_all_nodes:
  assumes "maps_sorted st"
  shows "n \<in> set (all_nodes st) \<longleftrightarrow> (\<exists>i s p l. level_at st i s p = Some l \<and> n \<in> set (orders l))"
proof -
  have "distinct (map fst (orderBooks st))"
    using assms asc.om_sorted_distinct by (auto simp: maps_sorted_def)
  then have "(i, ib) \<in> set (orderBooks st) \<longleftrightarrow> map_of (orderBooks st) i = Some ib" for i ib
    by simp
  then have "n \<in> set (all_nodes st) \<longleftrightarrow>
      (\<exists>i ib. map_of (orderBooks st) i = Some ib \<and> n \<in> set (book_nodes ib))"
    unfolding all_nodes_def by fastforce
  also have "\<dots> \<longleftrightarrow> (\<exists>i ib s p l. map_of (orderBooks st) i = Some ib \<and>
      map_of (side_book s ib) p = Some l \<and> n \<in> set (orders l))"
    using set_book_nodes map_of_orderBooks_sorted [OF assms] by blast
  also have "\<dots> \<longleftrightarrow> (\<exists>i s p l. level_at st i s p = Some l \<and> n \<in> set (orders l))"
    unfolding level_at_Some_iff by blast
  finally show ?thesis .
qed

lemma find_unique:
  assumes "x \<in> set xs" and "P x" and "\<And>y. y \<in> set xs \<Longrightarrow> P y \<Longrightarrow> y = x"
  shows "List.find P xs = Some x"
  using assms
proof (induction xs)
  case (Cons a xs)
  show ?case
  proof (cases "P a")
    case True
    then show ?thesis using Cons.prems(3) [of a] by simp
  next
    case False
    then have "x \<in> set xs" using Cons.prems(1,2) by auto
    then have "List.find P xs = Some x"
      using Cons.prems(2) Cons.prems(3) [OF list.set_intros(2)] by (rule Cons.IH)
    then show ?thesis using False by simp
  qed
qed simp

lemma deref_node_unique:
  assumes "maps_sorted st" and "level_at st i s p = Some l" and "n \<in> set (orders l)"
    and "\<And>i' s' p' l' m. level_at st i' s' p' = Some l' \<Longrightarrow> m \<in> set (orders l') \<Longrightarrow>
           node_addr m = node_addr n \<Longrightarrow> m = n"
  shows "deref_node st (node_addr n) = Some n"
  unfolding deref_node_def
  using assms by (intro find_unique) (auto simp: set_all_nodes)

text \<open>In a well-formed state the address of a node of a level designates that node, in its level and
  nowhere else.\<close>

lemma book_inv_address_unique:
  assumes inv: "book_inv L A nxt" and l: "L i s p = Some l" and n: "n \<in> set (orders l)"
    and l': "L i' s' p' = Some l'" and n': "n' \<in> set (orders l')" and same: "node_addr n' = node_addr n"
  shows "i' = i \<and> s' = s \<and> p' = p \<and> n' = n"
proof -
  have "node_orderId n = node_orderId n'"
    using book_inv_address [OF inv l n l' n'] same by simp
  then show ?thesis
    using book_inv_unique [OF inv l n l' n'] by blast
qed

lemma erase_node_level:
  assumes inv: "book_inv L A nxt" and l: "L i s p = Some l" and n: "n \<in> set (orders l)"
  shows "erase_node (node_addr n) (orders l) =
           Inr (filter (\<lambda>m. node_orderId m \<noteq> node_orderId n) (orders l))"
proof -
  have "node_addr m = node_addr n \<longleftrightarrow> node_orderId m = node_orderId n" if "m \<in> set (orders l)" for m
    using book_inv_address_unique [OF inv l n l that] book_inv_unique [OF inv l n l that] by metis
  then have "filter (\<lambda>m. node_addr m \<noteq> node_addr n) (orders l) =
      filter (\<lambda>m. node_orderId m \<noteq> node_orderId n) (orders l)"
    by (intro filter_cong) auto
  then show ?thesis
    using n by (auto simp: erase_node_def)
qed

section \<open>Cancelling\<close>

lemma removeCancelledOrder_wf:
  assumes wf: "wf_state st" and l: "level_at st i s p = Some l" and n: "n \<in> set (orders l)"
  defines "os \<equiv> filter (\<lambda>m. node_orderId m \<noteq> node_orderId n) (orders l)"
  shows "\<exists>st'. removeCancelledOrder st (node_orderId n) = Inr st' \<and> wf_state st' \<and>
    level_at st' = upd_level (level_at st) i s p
      (if os = [] then None
       else Some \<lparr>totalQuantity = totalQuantity l - node_remaining n, orders = os\<rparr>) \<and>
    side_levels st' = (side_levels st)(i := (side_levels st i)(s := write_levels s p
      (if os = [] then None
       else Some \<lparr>totalQuantity = totalQuantity l - node_remaining n, orders = os\<rparr>)
      (side_levels st i s))) \<and>
    activeOrders st' = AList.delete (node_orderId n) (activeOrders st) \<and>
    nextNode st' = nextNode st \<and> ms_exchangeRunId st' = ms_exchangeRunId st"
proof -
  let ?A = "map_of (activeOrders st)"
  have inv: "book_inv (level_at st) ?A (nextNode st)" and sorted: "maps_sorted st"
    and noempty: "no_empty_book st"
    using wf by (auto simp: wf_state_def)
  note lvl = book_inv_level [OF inv l]
  have idx: "?A (node_orderId n) = Some (index_entry i s p n)"
    by (rule book_inv_index [OF inv l n])
  obtain ib where ib: "map_of (orderBooks st) i = Some ib" and side: "map_of (side_book s ib) p = Some l"
    using l unfolding level_at_Some_iff by blast
  have found: "List.find (\<lambda>m. node_addr m = node_addr n) (orders l) = Some n"
    using n book_inv_address_unique [OF inv l n l] by (intro find_unique) auto
  have erased: "erase_node (node_addr n) (orders l) = Inr os"
    unfolding os_def by (rule erase_node_level [OF inv l n])
  have total: "unat (totalQuantity l) = unat (node_remaining n) + level_sum os"
    using lvl(2) n level_sum_remove [of "orders l" n] by (simp add: wf_level_def os_def)
  have dist: "distinct (map node_orderId (orders l))"
    using lvl(2) by (simp add: wf_level_def)
  have single: "length (orders l) = 1 \<longleftrightarrow> os = []"
  proof
    assume "os = []"
    then have "set (map node_orderId (orders l)) \<subseteq> {node_orderId n}"
      by (auto simp: os_def filter_empty_conv)
    then have "card (set (map node_orderId (orders l))) \<le> 1"
      using card_mono [of "{node_orderId n}"] by fastforce
    then have "length (orders l) \<le> 1"
      using distinct_card [OF dist] by simp
    moreover have "orders l \<noteq> []" using n by auto
    ultimately show "length (orders l) = 1"
      by (cases "orders l") auto
  qed (use n in \<open>auto simp: os_def length_Suc_conv\<close>)
  have rem: "node_remaining n \<noteq> 0" and le: "\<not> totalQuantity l < node_remaining n"
    using lvl(2) n total by (auto simp: wf_level_def word_less_nat_alt)
  have sum0: "level_sum os = 0 \<longleftrightarrow> os = []"
    using lvl(2) by (cases os) (auto simp: os_def wf_level_def filter_eq_Cons_iff unat_eq_zero)
  have agg: "totalQuantity l \<le> node_remaining n \<longleftrightarrow> os = []" "os = [] \<Longrightarrow> totalQuantity l = node_remaining n"
    using total sum0 by (auto simp: word_le_nat_alt intro!: word_unat_eq_iff [THEN iffD2])
  define v where "v = (if os = [] then None
      else Some \<lparr>totalQuantity = totalQuantity l - node_remaining n, orders = os\<rparr>)"
  define st' where "st' = erase_empty_instrument i
      (set_book i (write_level s p v ib) (erase_active (node_orderId n) st))"
  have result: "removeCancelledOrder st (node_orderId n) = Inr st'"
    using idx ib side found erased rem le single agg
    by (simp add: removeCancelledOrder_def Let_def index_entry_def write_level_def v_def st'_def
        resting_side_not_other [OF lvl(1)])
  note rl = replace_level [OF maps_sorted_erase_active [OF sorted, of "node_orderId n"] _ _ lvl(1),
      where i = i and ib = ib and p = p and v = v, folded st'_def]
  have "wf_state st'"
    using rl noempty ib book_inv_remove [OF inv l n os_def [THEN meta_eq_to_obj_eq]]
    by (simp add: wf_state_def v_def delete_conv' level_at_erase_active
        no_empty_book_cong [of "erase_active (node_orderId n) st" st])
  moreover have "level_at st' = upd_level (level_at st) i s p v"
    "side_levels st' = (side_levels st)(i := (side_levels st i)(s := write_levels s p v (side_levels st i s)))"
    using rl noempty ib
    by (simp_all add: level_at_erase_active no_empty_book_cong [of "erase_active (node_orderId n) st" st])
  ultimately show ?thesis
    using result by (simp add: v_def st'_def)
qed

end
