(* ===== verification/Matching_Execution.thy ===== *)
theory Matching_Execution
  imports Matching_Operations
begin

text \<open>
  One trade against the head of the best level, and resting a remainder, on a well-formed state.
\<close>

section \<open>Removing a filled order\<close>

lemma removeFilledOrder_head:
  assumes idx: "map_of (activeOrders st) oid = Some ao" and ao0: "ao_remaining ao = 0"
    and i: "ao_instrumentId ao = i" and s: "ao_side ao = s" and p: "ao_price ao = p"
    and loc: "ao_location ao = node_addr n"
    and side: "resting_side s" and ib: "map_of (orderBooks st) i = Some ib"
    and lvl: "map_of (side_book s ib) p = Some l" and os: "orders l = n # rest"
    and deref: "deref_node st (node_addr n) = Some n" and n0: "node_remaining n = 0"
    and addr: "node_addr n \<notin> node_addr ` set rest"
    and total: "rest = [] \<Longrightarrow> totalQuantity l = 0"
  shows "removeFilledOrder st oid =
    Inr (erase_empty_instrument i (set_book i
      (write_level s p (if rest = [] then None else Some (l\<lparr>orders := rest\<rparr>)) ib)
      (erase_active oid st)))"
proof -
  have "filter (\<lambda>m. node_addr m \<noteq> node_addr n) rest = rest"
    using addr by (auto simp: filter_id_conv image_iff)
  then have erased: "erase_node (node_addr n) (orders l) = Inr rest"
    by (simp add: erase_node_def os)
  have agg: "(rest = [] \<and> totalQuantity l \<noteq> 0) = False"
    using total by auto
  show ?thesis
    using idx ao0 i s p loc ib lvl deref n0 erased
    by (simp add: removeFilledOrder_def Let_def resting_side_not_other [OF side] agg write_level_def)
qed

section \<open>One trade\<close>

definition trade_of ::
  "sequenceMessage \<Rightarrow> ExchangeRunId \<Rightarrow> Side \<Rightarrow> nat \<Rightarrow> Price \<Rightarrow> OrderNode \<Rightarrow> Quantity \<Rightarrow> Quantity \<Rightarrow> BusinessEvent" where
  "trade_of message runId tkSide idx p n t remaining =
     EvTrade
       \<lparr>tr_eventId = \<lparr>ev_commandSequence = globalSequenceNumber message, ev_eventIndex = of_nat idx,
                      ev_exchangeRunId = runId\<rparr>,
        tr_instrumentId = instrumentId message,
        makerOrderId = node_orderId n, makerClientId = node_owner n,
        takerOrderId = orderId message, takerClientId = clientId message,
        takerSide = tkSide, executionPrice = p, executionQuantity = t,
        makerRemainingQuantity = node_remaining n - t, takerRemainingQuantity = remaining - t\<rparr>"

text \<open>The head level after a trade of \<open>t\<close> against its first order.\<close>

definition level_after :: "PriceLevel \<Rightarrow> Quantity \<Rightarrow> PriceLevel option" where
  "level_after l t =
     (let n = hd (orders l); rest = tl (orders l) in
      if t = node_remaining n
      then (if rest = [] then None else Some \<lparr>totalQuantity = totalQuantity l - t, orders = rest\<rparr>)
      else Some \<lparr>totalQuantity = totalQuantity l - t,
                 orders = n\<lparr>node_remaining := node_remaining n - t\<rparr> # rest\<rparr>)"

text \<open>What \<open>executeTrade\<close> computes when none of its checks fails, up to the removal.\<close>

lemma executeTrade_checks:
  assumes inv: "book_inv (level_at st) (map_of (activeOrders st)) (nextNode st)"
    and ib: "map_of (orderBooks st) (instrumentId message) = Some ib"
    and lvl: "map_of (side_book s ib) p = Some l" and os: "orders l = n # rest"
    and rem: "remaining \<noteq> 0" and len: "length evs \<le> UINT32_MAX"
  defines "t \<equiv> min remaining (node_remaining n)"
  defines "st1 \<equiv> set_active (node_orderId n)
      ((index_entry (instrumentId message) s p n)\<lparr>ao_remaining := node_remaining n - t\<rparr>)
      (set_book (instrumentId message) (put_level s p
         \<lparr>totalQuantity = totalQuantity l - t,
          orders = n\<lparr>node_remaining := node_remaining n - t\<rparr> # rest\<rparr> ib) st)"
  shows "executeTrade message s tkSide p st remaining evs =
    bind_result (if node_remaining n - t = 0 then removeFilledOrder st1 (node_orderId n) else Inr st1)
      (\<lambda>st2. Inr (st2, remaining - t,
         evs @ [trade_of message (ms_exchangeRunId st) tkSide (length evs) p n t remaining]))"
proof -
  have l: "level_at st (instrumentId message) s p = Some l"
    using ib lvl by (simp add: level_at_def)
  have idx: "map_of (activeOrders st) (node_orderId n) = Some (index_entry (instrumentId message) s p n)"
    using book_inv_index [OF inv l] os by simp
  have wfl: "wf_level l"
    using book_inv_level(2) [OF inv l] .
  have t0: "min remaining (node_remaining n) \<noteq> 0"
    using wfl rem by (auto simp: min_def wf_level_def os)
  have "\<not> totalQuantity l < node_remaining n"
    using wfl by (simp add: wf_level_def os word_less_nat_alt)
  then show ?thesis
    using ib lvl os idx len t0
    by (simp add: executeTrade_def Let_def index_entry_def makeEventId_def trade_of_def t_def st1_def)
qed

lemma write_levels_head:
  "om_sorted (price_before s) ((p, l) # bk) \<Longrightarrow>
     write_levels s p v ((p, l) # bk) = (case v of None \<Rightarrow> bk | Some l' \<Rightarrow> (p, l') # bk)"
  using price_order.delete_head [of s p l bk]
  by (cases v) (simp_all add: write_levels_def price_order.lt_irrefl)

text \<open>After the trade has been written, the first node is still the only one at its address.\<close>

lemma traded_node_unique:
  assumes inv: "book_inv L A nxt" and l: "L i s p = Some l" and os: "orders l = n # rest"
    and m: "upd_level L i s p (Some \<lparr>totalQuantity = q, orders = n' # rest\<rparr>) i' s' p' = Some l'"
      "m \<in> set (orders l')" "node_addr m = node_addr n"
  shows "m = n'"
proof -
  have n: "n \<in> set (orders l)"
    using os by simp
  have dist: "n \<notin> set rest"
    using book_inv_level(2) [OF inv l] os by (auto simp: wf_level_def)
  show ?thesis
  proof (cases "i' = i \<and> s' = s \<and> p' = p")
    case True
    then have "m = n' \<or> m \<in> set rest"
      using m by auto
    then show ?thesis
      using book_inv_address_unique [OF inv l n l _ m(3)] dist os by auto
  next
    case False
    then have "L i' s' p' = Some l'"
      using m(1) by (simp split: if_splits)
    then show ?thesis
      using book_inv_address_unique [OF inv l n _ m(2,3)] False by blast
  qed
qed

text \<open>The state between the writes of a trade and the removal of a filled maker.\<close>

definition traded_state ::
  "MatchingState \<Rightarrow> InstrumentId \<Rightarrow> orderType \<Rightarrow> Price \<Rightarrow> PriceLevel \<Rightarrow> Quantity \<Rightarrow> InstrumentBook \<Rightarrow> MatchingState" where
  "traded_state st i s p l t ib =
     (let n = hd (orders l) in
      set_active (node_orderId n) ((index_entry i s p n)\<lparr>ao_remaining := node_remaining n - t\<rparr>)
        (set_book i (put_level s p
          \<lparr>totalQuantity = totalQuantity l - t,
           orders = n\<lparr>node_remaining := node_remaining n - t\<rparr> # tl (orders l)\<rparr> ib) st))"

lemma put_level_not_empty:
  "resting_side s \<Longrightarrow> \<not> (bids (put_level s p l ib) = [] \<and> asks (put_level s p l ib) = [])"
  by (auto simp: resting_side_def put_level_def)

lemma erase_empty_instrument_set_book:
  "maps_sorted st \<Longrightarrow> \<not> (bids ib = [] \<and> asks ib = []) \<Longrightarrow>
     erase_empty_instrument i (set_book i ib st) = set_book i ib st"
  by (auto simp: erase_empty_instrument_def set_book_def maps_sorted_def asc.map_of_om_insert)

lemma traded_state_views:
  fixes st :: MatchingState and i s p l t ib
  assumes sorted: "maps_sorted st" and noempty: "no_empty_book st" and s: "resting_side s"
    and ib: "map_of (orderBooks st) i = Some ib" and os: "orders l = n # rest"
  defines "st1 \<equiv> traded_state st i s p l t ib"
  defines "l1 \<equiv> \<lparr>totalQuantity = totalQuantity l - t,
      orders = n\<lparr>node_remaining := node_remaining n - t\<rparr> # rest\<rparr>"
  shows "maps_sorted st1" and "no_empty_book st1"
    and "side_levels st1 = (side_levels st)(i := (side_levels st i)
           (s := write_levels s p (Some l1) (side_levels st i s)))"
    and "level_at st1 = upd_level (level_at st) i s p (Some l1)"
    and "map_of (activeOrders st1) = (map_of (activeOrders st))
           (node_orderId n \<mapsto> (index_entry i s p n)\<lparr>ao_remaining := node_remaining n - t\<rparr>)"
    and "nextNode st1 = nextNode st" and "ms_exchangeRunId st1 = ms_exchangeRunId st"
    and "map_of (orderBooks st1) i = Some (put_level s p l1 ib)"
proof -
  let ?st0 = "set_book i (put_level s p l1 ib) st"
  have st1: "st1 = set_active (node_orderId n)
      ((index_entry i s p n)\<lparr>ao_remaining := node_remaining n - t\<rparr>) ?st0"
    by (simp add: st1_def traded_state_def l1_def os)
  have "erase_empty_instrument i ?st0 = ?st0"
    by (rule erase_empty_instrument_set_book [OF sorted put_level_not_empty [OF s]])
  then have st0: "?st0 = erase_empty_instrument i (set_book i (write_level s p (Some l1) ib) st)"
    by (simp add: write_level_def)
  note rl = replace_level [OF sorted noempty ib s, of p "Some l1", folded st0]
  show "maps_sorted st1" and "nextNode st1 = nextNode st" and "ms_exchangeRunId st1 = ms_exchangeRunId st"
    using rl by (simp_all add: st1 maps_sorted_set_active)
  show "no_empty_book st1"
    using rl(2) by (simp add: st1 no_empty_book_def)
  show "side_levels st1 = (side_levels st)(i := (side_levels st i)
           (s := write_levels s p (Some l1) (side_levels st i s)))"
    using rl(3) by (simp add: st1)
  show "level_at st1 = upd_level (level_at st) i s p (Some l1)"
    using rl(4) by (simp add: st1)
  show "map_of (activeOrders st1) = (map_of (activeOrders st))
           (node_orderId n \<mapsto> (index_entry i s p n)\<lparr>ao_remaining := node_remaining n - t\<rparr>)"
    using rl(1,5) by (simp add: st1 map_of_set_active)
  show "map_of (orderBooks st1) i = Some (put_level s p l1 ib)"
    using sorted by (simp add: st1 set_book_def maps_sorted_def asc.map_of_om_insert)
qed

lemma upd_level_twice [simp]: "upd_level (upd_level L i s p v) i s p v' = upd_level L i s p v'"
  by (auto simp: fun_eq_iff)

lemma removeFilledOrder_traded:
  assumes wf: "wf_state st" and l: "level_at st i s p = Some l" and os: "orders l = n # rest"
    and ib: "map_of (orderBooks st) i = Some ib"
  defines "st1 \<equiv> traded_state st i s p l (node_remaining n) ib"
  defines "v \<equiv> if rest = [] then None
    else Some \<lparr>totalQuantity = totalQuantity l - node_remaining n, orders = rest\<rparr>"
  shows "\<exists>st'. removeFilledOrder st1 (node_orderId n) = Inr st' \<and> wf_state st' \<and>
    side_levels st' = (side_levels st1)(i := (side_levels st1 i)(s := write_levels s p v (side_levels st1 i s))) \<and>
    map_of (activeOrders st') = (map_of (activeOrders st))(node_orderId n := None) \<and>
    ms_exchangeRunId st' = ms_exchangeRunId st"
proof -
  have inv: "book_inv (level_at st) (map_of (activeOrders st)) (nextNode st)"
    and sorted: "maps_sorted st" and noempty: "no_empty_book st"
    using wf by (auto simp: wf_state_def)
  have s: "resting_side s" and wfl: "wf_level l"
    using book_inv_level [OF inv l] by auto
  let ?n = "n\<lparr>node_remaining := 0\<rparr>"
  define l1 where "l1 = \<lparr>totalQuantity = totalQuantity l - node_remaining n, orders = ?n # rest\<rparr>"
  define ib1 where "ib1 = put_level s p l1 ib"
  note v1 = traded_state_views [OF sorted noempty s ib os, of p "node_remaining n", folded st1_def,
      simplified diff_self, folded l1_def ib1_def]
  have lvl1: "level_at st1 i s p = Some l1"
    using v1(4) by simp
  have "deref_node st1 (node_addr ?n) = Some ?n"
    using traded_node_unique [OF inv l os] v1(4)
    by (intro deref_node_unique [OF v1(1) lvl1]) (auto simp: l1_def)
  moreover have "node_addr n \<notin> node_addr ` set rest"
    using book_inv_address_unique [OF inv l _ l] wfl os by (fastforce simp: wf_level_def)
  moreover have "totalQuantity l1 = 0" if "rest = []"
    using wfl that os word_unat_eq_iff [of "totalQuantity l" "node_remaining n"]
    by (simp add: l1_def wf_level_def)
  ultimately have result: "removeFilledOrder st1 (node_orderId n) = Inr (erase_empty_instrument i
      (set_book i (write_level s p v ib1) (erase_active (node_orderId n) st1)))"
    using removeFilledOrder_head [OF v1(5) [THEN fun_cong, of "node_orderId n", simplified fun_upd_same]
        _ _ _ _ _ s v1(8), where p = p and l = l1 and n = ?n and rest = rest] lvl1 v1(8)
    by (simp add: index_entry_def level_at_def l1_def v_def cong: if_cong)
  note rl = replace_level [OF maps_sorted_erase_active [OF v1(1), of "node_orderId n"] _ _ s,
      where i = i and ib = ib1 and p = p and v = v]
  have pre: "no_empty_book (erase_active (node_orderId n) st1)"
      "map_of (orderBooks (erase_active (node_orderId n) st1)) i = Some ib1"
    using v1(2,8) by (simp_all add: no_empty_book_def)
  note rl' = rl [OF pre]
  have "\<forall>m \<in> set rest. node_orderId m \<noteq> node_orderId n"
    using wfl os by (auto simp: wf_level_def image_iff)
  then have rest: "rest = filter (\<lambda>m. node_orderId m \<noteq> node_orderId n) (orders l)"
    by (simp add: os)
  have n: "n \<in> set (orders l)"
    by (simp add: os)
  have "book_inv (upd_level (level_at st) i s p v)
      ((map_of (activeOrders st))(node_orderId n := None)) (nextNode st)"
    unfolding v_def by (rule book_inv_remove [OF inv l n rest])
  then have "wf_state (erase_empty_instrument i
      (set_book i (write_level s p v ib1) (erase_active (node_orderId n) st1)))"
    using rl' v1 by (simp add: wf_state_def delete_conv')
  with result rl'(3,7) v1(5,7) show ?thesis
    by (simp add: delete_conv')
qed

theorem executeTrade_wf:
  assumes wf: "wf_state st" and lv: "side_levels st (instrumentId message) s = (p, l) # bk"
    and os: "orders l = n # rest"
    and rem: "remaining \<noteq> 0" and len: "length evs \<le> UINT32_MAX"
  defines "t \<equiv> min remaining (node_remaining n)"
  shows "\<exists>st'. executeTrade message s tkSide p st remaining evs =
      Inr (st', remaining - t,
        evs @ [trade_of message (ms_exchangeRunId st) tkSide (length evs) p n t remaining]) \<and>
    wf_state st' \<and>
    side_levels st' = (side_levels st)(instrumentId message := (side_levels st (instrumentId message))
      (s := (case level_after l t of None \<Rightarrow> bk | Some l' \<Rightarrow> (p, l') # bk))) \<and>
    map_of (activeOrders st') = (map_of (activeOrders st))(node_orderId n :=
      (if t = node_remaining n then None
       else Some ((index_entry (instrumentId message) s p n)\<lparr>ao_remaining := node_remaining n - t\<rparr>))) \<and>
    ms_exchangeRunId st' = ms_exchangeRunId st"
proof -
  let ?i = "instrumentId message" and ?A = "map_of (activeOrders st)"
  have inv: "book_inv (level_at st) ?A (nextNode st)" and sorted: "maps_sorted st"
    and noempty: "no_empty_book st"
    using wf by (auto simp: wf_state_def)
  obtain ib where ib: "map_of (orderBooks st) ?i = Some ib"
    using side_levels_Cons_present [OF lv] by blast
  have l: "level_at st ?i s p = Some l"
    by (simp add: level_at_side_levels lv)
  have s: "resting_side s" and wfl: "wf_level l"
    using book_inv_level [OF inv l] by auto
  have sorted_lv: "om_sorted (price_before s) ((p, l) # bk)" for l
    using side_levels_sorted [OF sorted, of s ?i] lv by simp
  define st1 where "st1 = traded_state st ?i s p l t ib"
  have exec: "executeTrade message s tkSide p st remaining evs =
    bind_result (if node_remaining n - t = 0 then removeFilledOrder st1 (node_orderId n) else Inr st1)
      (\<lambda>st2. Inr (st2, remaining - t,
         evs @ [trade_of message (ms_exchangeRunId st) tkSide (length evs) p n t remaining]))"
    using executeTrade_checks [OF inv ib _ os rem len] l ib os
    by (simp add: t_def st1_def traded_state_def level_at_def)
  note v1 = traded_state_views [OF sorted noempty s ib os, of p t, folded st1_def]
  note head = write_levels_head [OF sorted_lv]
  show ?thesis
  proof (cases "t = node_remaining n")
    case True
    obtain st' where "removeFilledOrder st1 (node_orderId n) = Inr st'" and "wf_state st'"
      and "side_levels st' = (side_levels st1)(?i := (side_levels st1 ?i)
          (s := write_levels s p (level_after l t) (side_levels st1 ?i s)))"
      and "map_of (activeOrders st') = ?A(node_orderId n := None)"
      and "ms_exchangeRunId st' = ms_exchangeRunId st"
      using removeFilledOrder_traded [OF wf l os ib] True os by (auto simp: st1_def level_after_def)
    then show ?thesis
      using exec True v1(3) lv head by simp
  next
    case False
    then have "t < node_remaining n" and "t \<noteq> 0"
      using wfl rem os by (auto simp: t_def min_def wf_level_def)
    then have "wf_state st1"
      using v1 book_inv_reduce [OF inv l os] by (simp add: wf_state_def)
    moreover have "node_remaining n - t \<noteq> 0"
      using False by simp
    ultimately show ?thesis
      using exec False v1(3,5,7) lv head os by (simp add: level_after_def)
  qed
qed

end
