(* ===== verification/Matching_Refinement.thy ===== *)
theory Matching_Refinement
  imports Matching_Execution
begin

text \<open>
  The abstract specification of matching and the proof that the plan and the loops implement it.
  A book side is seen as one queue of (price, order) pairs in price-time priority; an incoming
  quantity is filled greedily against the eligible orders of the queue.
\<close>

section \<open>Specification\<close>

definition side_queue :: "(Price \<times> PriceLevel) list \<Rightarrow> (Price \<times> OrderNode) list" where
  "side_queue levels = concat (map (\<lambda>(p, l). map (Pair p) (orders l)) levels)"

text \<open>A resting order at price \<open>p\<close> on side \<open>s\<close> can trade with an incoming limit price.\<close>

definition crosses :: "orderType \<Rightarrow> Price \<Rightarrow> Price \<Rightarrow> bool" where
  "crosses s limit p = (if s = SELL then p \<le> limit else p \<ge> limit)"

fun fills :: "(Price \<Rightarrow> bool) \<Rightarrow> Quantity \<Rightarrow> (Price \<times> OrderNode) list \<Rightarrow> (Price \<times> OrderNode \<times> Quantity) list" where
  "fills ok q [] = []"
| "fills ok q ((p, n) # xs) =
     (if q = 0 \<or> \<not> ok p then []
      else (p, n, min q (node_remaining n)) # fills ok (q - min q (node_remaining n)) xs)"

fun leftover :: "(Price \<Rightarrow> bool) \<Rightarrow> Quantity \<Rightarrow> (Price \<times> OrderNode) list \<Rightarrow> Quantity" where
  "leftover ok q [] = q"
| "leftover ok q ((p, n) # xs) =
     (if q = 0 \<or> \<not> ok p then q else leftover ok (q - min q (node_remaining n)) xs)"

fun queue_after :: "(Price \<Rightarrow> bool) \<Rightarrow> Quantity \<Rightarrow> (Price \<times> OrderNode) list \<Rightarrow> (Price \<times> OrderNode) list" where
  "queue_after ok q [] = []"
| "queue_after ok q ((p, n) # xs) =
     (if q = 0 \<or> \<not> ok p then (p, n) # xs
      else if q < node_remaining n then (p, n\<lparr>node_remaining := node_remaining n - q\<rparr>) # xs
      else queue_after ok (q - node_remaining n) xs)"

text \<open>The trade reports of a sequence of fills, numbered from \<open>idx\<close>.\<close>

fun trade_events ::
  "sequenceMessage \<Rightarrow> ExchangeRunId \<Rightarrow> Side \<Rightarrow> nat \<Rightarrow> Quantity \<Rightarrow> (Price \<times> OrderNode \<times> Quantity) list \<Rightarrow>
     BusinessEvent list" where
  "trade_events message runId tkSide idx q [] = []"
| "trade_events message runId tkSide idx q ((p, n, t) # fs) =
     trade_of message runId tkSide idx p n t q # trade_events message runId tkSide (Suc idx) (q - t) fs"

lemma length_trade_events [simp]: "length (trade_events message runId tkSide idx q fs) = length fs"
  by (induction message runId tkSide idx q fs rule: trade_events.induct) simp_all

lemma spec_zero [simp]:
  "fills ok 0 xs = []" "leftover ok 0 xs = 0" "queue_after ok 0 xs = xs"
  by (cases xs; auto)+

lemma side_queue_simps [simp]:
  "side_queue [] = []"
  "side_queue ((p, l) # levels) = map (Pair p) (orders l) @ side_queue levels"
  by (simp_all add: side_queue_def)

section \<open>The plan\<close>

lemma fills_same_price:
  assumes "ok p"
  shows "leftover ok q (map (Pair p) os @ xs) = leftover ok (leftover ok q (map (Pair p) os)) xs"
    and "length (fills ok q (map (Pair p) os @ xs)) =
      length (fills ok q (map (Pair p) os)) + length (fills ok (leftover ok q (map (Pair p) os)) xs)"
  using assms by (induction os arbitrary: q) auto

lemma planOrders_spec:
  assumes "ok p" and "\<forall>n \<in> set os. node_remaining n \<noteq> 0"
    and "c + length (fills ok q (map (Pair p) os)) \<le> SIZE_MAX"
  shows "planOrders os \<lparr>remainder = q, executionCount = c\<rparr> =
    Inr \<lparr>remainder = leftover ok q (map (Pair p) os),
         executionCount = c + length (fills ok q (map (Pair p) os))\<rparr>"
  using assms
proof (induction os arbitrary: q c)
  case (Cons n os)
  then show ?case
    by (cases "q = 0") (auto simp: checkedAddEventCount_def Let_def not_less)
qed simp

lemma planBook_spec:
  assumes "\<forall>(p, l) \<in> set levels. orders l \<noteq> [] \<and> (\<forall>n \<in> set (orders l). node_remaining n \<noteq> 0)"
    and "c + length (fills ok q (side_queue levels)) \<le> SIZE_MAX"
  shows "planBook ok levels \<lparr>remainder = q, executionCount = c\<rparr> =
    Inr \<lparr>remainder = leftover ok q (side_queue levels),
         executionCount = c + length (fills ok q (side_queue levels))\<rparr>"
  using assms
proof (induction levels arbitrary: q c)
  case (Cons pl levels)
  obtain p l where pl: "pl = (p, l)" by (cases pl)
  show ?case
  proof (cases "q = 0 \<or> \<not> ok p")
    case True
    moreover obtain n rest where "orders l = n # rest"
      using Cons.prems(1) by (cases "orders l") (auto simp: pl)
    ultimately show ?thesis
      by (auto simp: pl word_gt_0)
  next
    case False
    then show ?thesis
      using Cons.prems planOrders_spec [of ok p "orders l" c q] Cons.IH
      by (auto simp: pl word_gt_0 fills_same_price)
  qed
qed simp

section \<open>The loops\<close>

text \<open>What a matching loop against side \<open>s\<close> promises from a well-formed state: it returns, its trades
  and remainder are those of the specification, the queue it leaves is the specified one, every
  other book side is untouched, and if a remainder is left then nothing eligible is.\<close>

definition match_outcome ::
  "orderType \<Rightarrow> Side \<Rightarrow> sequenceMessage \<Rightarrow> MatchingState \<Rightarrow> Quantity \<Rightarrow> BusinessEvent list \<Rightarrow>
     (MatchingState \<times> Quantity \<times> BusinessEvent list) result \<Rightarrow> MatchingState \<Rightarrow> bool" where
  "match_outcome s tkSide message st q evs res st' \<longleftrightarrow>
     (let ok = crosses s (price message); i = instrumentId message;
          queue = side_queue (side_levels st i s) in
      res = Inr (st', leftover ok q queue,
             evs @ trade_events message (ms_exchangeRunId st) tkSide (length evs) q (fills ok q queue)) \<and>
      wf_state st' \<and>
      side_queue (side_levels st' i s) = queue_after ok q queue \<and>
      (\<forall>i' s'. \<not> (i' = i \<and> s' = s) \<longrightarrow> side_levels st' i' s' = side_levels st i' s') \<and>
      (leftover ok q queue \<noteq> 0 \<longrightarrow> (\<forall>(p, l) \<in> set (side_levels st' i s). \<not> ok p)) \<and>
      (\<forall>oid. map_of (activeOrders st) oid = None \<longrightarrow> map_of (activeOrders st') oid = None) \<and>
      ms_exchangeRunId st' = ms_exchangeRunId st)"

lemma wf_state_head_level:
  assumes "wf_state st" and "side_levels st i s = (p, l) # bk"
  obtains n rest where "orders l = n # rest" and "node_remaining n \<noteq> 0"
    and "map_of (activeOrders st) (node_orderId n) = Some (index_entry i s p n)"
proof -
  have inv: "book_inv (level_at st) (map_of (activeOrders st)) (nextNode st)"
    using assms(1) by (simp add: wf_state_def)
  have l: "level_at st i s p = Some l"
    by (simp add: level_at_side_levels assms(2))
  obtain n rest where os: "orders l = n # rest" and "node_remaining n \<noteq> 0"
    using book_inv_level(2) [OF inv l] by (cases "orders l") (auto simp: wf_level_def)
  moreover have "map_of (activeOrders st) (node_orderId n) = Some (index_entry i s p n)"
    using book_inv_index [OF inv l] os by simp
  ultimately show ?thesis by (rule that)
qed

lemma crosses_head:
  assumes "om_sorted (price_before s) ((p, l) # bk)" and "resting_side s" and "\<not> crosses s limit p"
    and "(p', l') \<in> set ((p, l) # bk)"
  shows "\<not> crosses s limit p'"
  using assms by (auto simp: crosses_def price_before_def resting_side_def split: if_splits)

lemma match_outcome_stop:
  assumes wf: "wf_state st" and s: "resting_side s"
    and stop: "\<And>p l bk. side_levels st (instrumentId message) s = (p, l) # bk \<Longrightarrow>
      \<not> crosses s (price message) p"
  shows "match_outcome s tkSide message st q evs (Inr (st, q, evs)) st"
proof (cases "side_levels st (instrumentId message) s")
  case Nil
  then show ?thesis
    using wf by (simp add: match_outcome_def Let_def)
next
  case (Cons pl bk)
  obtain p l where lvls: "side_levels st (instrumentId message) s = (p, l) # bk"
    using Cons by (cases pl) simp
  obtain n ns where "orders l = n # ns"
    using wf_state_head_level [OF wf lvls] by blast
  moreover have "\<not> crosses s (price message) p'" if "(p', l') \<in> set ((p, l) # bk)" for p' l'
    using crosses_head [OF _ s stop [OF lvls] that] wf lvls
      side_levels_sorted [of st s "instrumentId message"] by (simp add: wf_state_def)
  ultimately show ?thesis
    using wf lvls stop [OF lvls] by (auto simp: match_outcome_def Let_def)
qed

lemma match_outcome_done:
  "wf_state st \<Longrightarrow> match_outcome s tkSide message st 0 evs (Inr (st, 0, evs)) st"
  by (simp add: match_outcome_def Let_def)

lemma match_outcome_step:
  assumes lvls: "side_levels st (instrumentId message) s = (p, l) # bk" and os: "orders l = n # rest"
    and ok: "crosses s (price message) p" and q: "q \<noteq> 0" and t: "t = min q (node_remaining n)"
    and idx: "map_of (activeOrders st) (node_orderId n) \<noteq> None"
    and lvls1: "side_levels st1 = (side_levels st)(instrumentId message :=
        (side_levels st (instrumentId message))
          (s := (case level_after l t of None \<Rightarrow> bk | Some l' \<Rightarrow> (p, l') # bk)))"
    and act1: "map_of (activeOrders st1) = (map_of (activeOrders st))(node_orderId n := v)"
    and run1: "ms_exchangeRunId st1 = ms_exchangeRunId st"
    and evs1: "evs1 = evs @ [trade_of message (ms_exchangeRunId st) tkSide (length evs) p n t q]"
  shows "length evs1 + length (fills (crosses s (price message)) (q - t)
           (side_queue (side_levels st1 (instrumentId message) s))) =
         length evs + length (fills (crosses s (price message)) q
           (side_queue (side_levels st (instrumentId message) s)))"
    and "match_outcome s tkSide message st1 (q - t) evs1 res st' \<Longrightarrow>
         match_outcome s tkSide message st q evs res st'"
proof -
  have queue: "side_queue (side_levels st1 (instrumentId message) s) =
      (if t = node_remaining n then map (Pair p) rest @ side_queue bk
       else (p, n\<lparr>node_remaining := node_remaining n - t\<rparr>) # map (Pair p) rest @ side_queue bk)"
    by (simp add: lvls1 level_after_def os Let_def)
  have part: "q = t \<and> q < node_remaining n" if "t \<noteq> node_remaining n"
    using that by (auto simp: t min_def split: if_splits)
  have full: "\<not> q < node_remaining n" if "t = node_remaining n"
    using that by (auto simp: t min_def split: if_splits)
  show "length evs1 + length (fills (crosses s (price message)) (q - t)
           (side_queue (side_levels st1 (instrumentId message) s))) =
         length evs + length (fills (crosses s (price message)) q
           (side_queue (side_levels st (instrumentId message) s)))"
    using q ok part by (auto simp: queue lvls os evs1 t [symmetric])
  have "map_of (activeOrders st1) oid = None" if "map_of (activeOrders st) oid = None" for oid
    using that idx by (auto simp: act1)
  moreover assume "match_outcome s tkSide message st1 (q - t) evs1 res st'"
  ultimately show "match_outcome s tkSide message st q evs res st'"
    using q ok part full run1 unfolding match_outcome_def Let_def queue
    by (auto simp: lvls os evs1 t [symmetric] lvls1)
qed

text \<open>Both matching loops are one loop, for the two sides of the book; what follows is proved once
  and used for either.\<close>

locale match_loop =
  fixes loop :: "sequenceMessage \<Rightarrow> MatchingState \<Rightarrow> Quantity \<Rightarrow> BusinessEvent list \<Rightarrow>
      (MatchingState \<times> Quantity \<times> BusinessEvent list) result"
    and s :: orderType and tkSide :: Side
  assumes resting: "resting_side s"
    and loop_done: "loop message st 0 evs = Inr (st, 0, evs)"
    and loop_stop: "(\<And>p l bk. side_levels st (instrumentId message) s = (p, l) # bk \<Longrightarrow>
        \<not> crosses s (price message) p) \<Longrightarrow> loop message st q evs = Inr (st, q, evs)"
    and loop_step: "q \<noteq> 0 \<Longrightarrow> side_levels st (instrumentId message) s = (p, l) # bk \<Longrightarrow>
        crosses s (price message) p \<Longrightarrow> orders l \<noteq> [] \<Longrightarrow>
        executeTrade message s tkSide p st q evs = Inr (st1, q1, evs1) \<Longrightarrow>
        loop message st q evs = loop message st1 q1 evs1"
begin

theorem loop_refines:
  assumes "wf_state st"
    and "length evs + length (fills (crosses s (price message)) q
           (side_queue (side_levels st (instrumentId message) s))) \<le> UINT32_MAX"
  shows "\<exists>st'. match_outcome s tkSide message st q evs (loop message st q evs) st'"
  using assms
proof (induction "unat q" arbitrary: st q evs rule: less_induct)
  case less
  let ?i = "instrumentId message" and ?ok = "crosses s (price message)"
  consider "q = 0" | "\<And>p l bk. side_levels st ?i s = (p, l) # bk \<Longrightarrow> \<not> ?ok p"
    | p l bk where "side_levels st ?i s = (p, l) # bk" "?ok p" "q \<noteq> 0"
    by blast
  then show ?case
  proof cases
    case 1
    then show ?thesis
      using match_outcome_done [OF less.prems(1)] loop_done by metis
  next
    case 2
    then show ?thesis
      using match_outcome_stop [OF less.prems(1) resting] loop_stop by metis
  next
    case (3 p l bk)
    obtain n rest where os: "orders l = n # rest" and nz: "node_remaining n \<noteq> 0"
      and idx: "map_of (activeOrders st) (node_orderId n) = Some (index_entry ?i s p n)"
      using wf_state_head_level [OF less.prems(1) 3(1)] by blast
    define t where "t = min q (node_remaining n)"
    have smaller: "unat (q - t) < unat q"
      using 3(3) nz by (intro unat_sub_less) (auto simp: t_def min_def)
    have len: "length evs \<le> UINT32_MAX"
      using less.prems(2) by simp
    obtain st1 where exec: "executeTrade message s tkSide p st q evs = Inr (st1, q - t,
        evs @ [trade_of message (ms_exchangeRunId st) tkSide (length evs) p n t q])"
      and wf1: "wf_state st1"
      and lvls1: "side_levels st1 = (side_levels st)(?i := (side_levels st ?i)
        (s := (case level_after l t of None \<Rightarrow> bk | Some l' \<Rightarrow> (p, l') # bk)))"
      and act1: "map_of (activeOrders st1) = (map_of (activeOrders st))(node_orderId n :=
        (if t = node_remaining n then None
         else Some ((index_entry ?i s p n)\<lparr>ao_remaining := node_remaining n - t\<rparr>)))"
      and run1: "ms_exchangeRunId st1 = ms_exchangeRunId st"
      using executeTrade_wf [OF less.prems(1) 3(1) os 3(3) len, of tkSide] unfolding t_def by blast
    have "map_of (activeOrders st) (node_orderId n) \<noteq> None"
      using idx by simp
    note step = match_outcome_step [OF 3(1) os 3(2,3) t_def this lvls1 act1 run1 refl]
    obtain st' where "match_outcome s tkSide message st q evs (loop message st1 (q - t)
        (evs @ [trade_of message (ms_exchangeRunId st) tkSide (length evs) p n t q])) st'"
      using less.hyps [OF smaller wf1] step less.prems(2) by metis
    then show ?thesis
      using loop_step [OF 3(3,1,2) _ exec] os by auto
  qed
qed

end

interpretation buy_loop: match_loop matchBuyOrder SELL Side_BUY
proof unfold_locales
  fix message st evs
  show "matchBuyOrder message st 0 evs = Inr (st, 0, evs)"
    by (subst matchBuyOrder.simps) simp
next
  fix message :: sequenceMessage and st q evs
  assume "\<And>p l bk. side_levels st (instrumentId message) SELL = (p, l) # bk \<Longrightarrow>
      \<not> crosses SELL (price message) p"
  then show "matchBuyOrder message st q evs = Inr (st, q, evs)"
    by (subst matchBuyOrder.simps)
      (auto simp: side_levels_def side_book_def crosses_def split: option.splits list.splits)
next
  fix message :: sequenceMessage and st q p l bk evs st1 q1 evs1
  assume "q \<noteq> 0" "side_levels st (instrumentId message) SELL = (p, l) # bk"
    "crosses SELL (price message) p" "orders l \<noteq> []"
    "executeTrade message SELL Side_BUY p st q evs = Inr (st1, q1, evs1)"
  then show "matchBuyOrder message st q evs = matchBuyOrder message st1 q1 evs1"
    by (subst matchBuyOrder.simps)
      (auto simp: side_levels_def side_book_def crosses_def word_gt_0 split: option.splits)
qed (simp add: resting_side_def)

interpretation sell_loop: match_loop matchSellOrder BUY Side_SELL
proof unfold_locales
  fix message st evs
  show "matchSellOrder message st 0 evs = Inr (st, 0, evs)"
    by (subst matchSellOrder.simps) simp
next
  fix message :: sequenceMessage and st q evs
  assume "\<And>p l bk. side_levels st (instrumentId message) BUY = (p, l) # bk \<Longrightarrow>
      \<not> crosses BUY (price message) p"
  then show "matchSellOrder message st q evs = Inr (st, q, evs)"
    by (subst matchSellOrder.simps)
      (auto simp: side_levels_def side_book_def crosses_def split: option.splits list.splits)
next
  fix message :: sequenceMessage and st q p l bk evs st1 q1 evs1
  assume "q \<noteq> 0" "side_levels st (instrumentId message) BUY = (p, l) # bk"
    "crosses BUY (price message) p" "orders l \<noteq> []"
    "executeTrade message BUY Side_SELL p st q evs = Inr (st1, q1, evs1)"
  then show "matchSellOrder message st q evs = matchSellOrder message st1 q1 evs1"
    by (subst matchSellOrder.simps)
      (auto simp: side_levels_def side_book_def crosses_def word_gt_0 split: option.splits)
qed (simp add: resting_side_def)

end
