(* ===== verification/Matching_Orders.thy ===== *)
theory Matching_Orders
  imports Matching_Refinement
begin

text \<open>
  The command handlers on a well-formed state: what \<open>processOrder\<close> and \<open>processCancel\<close> return and
  leave behind on every branch.
\<close>

section \<open>Resting an order\<close>

definition current_aggregate :: "MatchingState \<Rightarrow> sequenceMessage \<Rightarrow> Quantity" where
  "current_aggregate st message =
     (case level_at st (instrumentId message) (orderType_of message) (price message) of
        None \<Rightarrow> 0 | Some l \<Rightarrow> totalQuantity l)"

text \<open>The level of the message's own side and price can take \<open>r\<close> more.\<close>

definition level_fits :: "MatchingState \<Rightarrow> sequenceMessage \<Rightarrow> Quantity \<Rightarrow> bool" where
  "level_fits st message r \<longleftrightarrow>
     unat (current_aggregate st message) + unat r \<le> unat (maxPriceLevelAggregate SPY_V1)"

definition rested_node :: "MatchingState \<Rightarrow> sequenceMessage \<Rightarrow> Quantity \<Rightarrow> OrderNode" where
  "rested_node st message r =
     \<lparr>node_addr = nextNode st, node_orderId = orderId message, node_owner = clientId message,
      node_remaining = r\<rparr>"

text \<open>The level with the new order at its back.\<close>

definition level_with ::
  "MatchingState \<Rightarrow> sequenceMessage \<Rightarrow> Quantity \<Rightarrow> PriceLevel" where
  "level_with st message r =
     (let l = (case level_at st (instrumentId message) (orderType_of message) (price message) of
                 None \<Rightarrow> empty_PriceLevel | Some l \<Rightarrow> l)
      in \<lparr>totalQuantity = totalQuantity l + r, orders = orders l @ [rested_node st message r]\<rparr>)"

definition opposite :: "orderType \<Rightarrow> orderType" where
  "opposite s = (if s = BUY then SELL else BUY)"

lemma word_fits_iff:
  fixes a r m :: u64
  shows "a \<le> m \<and> r \<le> m - a \<longleftrightarrow> unat a + unat r \<le> unat m"
  by (auto simp: word_le_nat_alt unat_sub)

lemma canAddOrder_eq:
  assumes "findByIdentity (instrumentId message) (configurationVersion message) \<noteq> None"
    and "resting_side (orderType_of message)"
  shows "canAddOrder st message r = Inr (r = 0 \<or> level_fits st message r)"
proof -
  obtain c where c: "findByIdentity (instrumentId message) (configurationVersion message) = Some c"
    using assms(1) by auto
  then have "c = SPY_V1"
    by (simp add: result_iff)
  then show ?thesis
    using c
    by (simp add: canAddOrder_def resting_side_not_other [OF assms(2)] Let_def word_fits_iff
        level_fits_def current_aggregate_def)
qed

lemma level_with_inv:
  assumes wf: "wf_state st" and s: "resting_side (orderType_of message)"
    and fresh: "map_of (activeOrders st) (orderId message) = None"
    and r: "r \<noteq> 0" and fits: "level_fits st message r"
    and nocross: "\<And>p l. (p, l) \<in> set (side_levels st (instrumentId message) (opposite (orderType_of message))) \<Longrightarrow>
      \<not> crosses (opposite (orderType_of message)) (price message) p"
  shows "book_inv (upd_level (level_at st) (instrumentId message) (orderType_of message) (price message)
        (Some (level_with st message r)))
      ((map_of (activeOrders st))(orderId message \<mapsto>
        index_entry (instrumentId message) (orderType_of message) (price message) (rested_node st message r)))
      (Suc (nextNode st))"
proof -
  let ?i = "instrumentId message" and ?s = "orderType_of message" and ?p = "price message"
  have inv: "book_inv (level_at st) (map_of (activeOrders st)) (nextNode st)"
    and sorted: "maps_sorted st"
    using wf by (auto simp: wf_state_def)
  define l where "l = (case level_at st ?i ?s ?p of None \<Rightarrow> empty_PriceLevel | Some l \<Rightarrow> l)"
  have agg: "totalQuantity l = current_aggregate st message"
    by (simp add: l_def current_aggregate_def empty_PriceLevel_def split: option.splits)
  have cap: "totalQuantity l \<le> maxPriceLevelAggregate SPY_V1 \<and>
      r \<le> maxPriceLevelAggregate SPY_V1 - totalQuantity l"
    unfolding word_fits_iff agg using fits by (simp add: level_fits_def)
  have other: "\<not> crosses (opposite ?s) ?p a" if "level_at st ?i (opposite ?s) a \<noteq> None" for a
    using that nocross level_at_in_side_levels [OF sorted] by fastforce
  have "book_inv (upd_level (level_at st) ?i ?s ?p
      (Some \<lparr>totalQuantity = totalQuantity l + node_remaining (rested_node st message r),
             orders = orders l @ [rested_node st message r]\<rparr>))
      ((map_of (activeOrders st))(orderId message \<mapsto> index_entry ?i ?s ?p (rested_node st message r)))
      (Suc (nextNode st))"
    using cap r other
    by (intro book_inv_add [OF inv s fresh _ _ l_def])
      (auto simp: rested_node_def opposite_def crosses_def not_le)
  then show ?thesis
    by (simp add: level_with_def Let_def l_def rested_node_def)
qed

lemma addOrder_wf:
  assumes wf: "wf_state st" and s: "resting_side (orderType_of message)"
    and cfg: "findByIdentity (instrumentId message) (configurationVersion message) \<noteq> None"
    and fresh: "map_of (activeOrders st) (orderId message) = None"
    and r: "r \<noteq> 0" and fits: "level_fits st message r"
    and nocross: "\<And>p l. (p, l) \<in> set (side_levels st (instrumentId message) (opposite (orderType_of message))) \<Longrightarrow>
      \<not> crosses (opposite (orderType_of message)) (price message) p"
  shows "\<exists>st'. addOrder st message r = Inr (st', APPLIED) \<and> wf_state st' \<and>
    side_levels st' = (side_levels st)(instrumentId message :=
      (side_levels st (instrumentId message))(orderType_of message :=
        om_insert (price_before (orderType_of message)) (price message) (level_with st message r)
          (side_levels st (instrumentId message) (orderType_of message)))) \<and>
    map_of (activeOrders st') = (map_of (activeOrders st))(orderId message \<mapsto>
      index_entry (instrumentId message) (orderType_of message) (price message) (rested_node st message r)) \<and>
    ms_exchangeRunId st' = ms_exchangeRunId st"
proof -
  let ?i = "instrumentId message" and ?s = "orderType_of message" and ?p = "price message"
  have inv: "book_inv (level_at st) (map_of (activeOrders st)) (nextNode st)"
    and sorted: "maps_sorted st" and noempty: "no_empty_book st"
    using wf by (auto simp: wf_state_def)
  define ib where "ib = (case map_of (orderBooks st) ?i of None \<Rightarrow> empty_InstrumentBook | Some ib \<Rightarrow> ib)"
  have side: "side_book s ib = side_levels st ?i s" for s
    by (cases s)
      (auto simp: ib_def side_levels_def empty_InstrumentBook_def side_book_def split: option.splits)
  have bsorted: "book_sorted ib"
    using map_of_orderBooks_sorted [OF sorted]
    by (auto simp: ib_def empty_InstrumentBook_def book_sorted_def split: option.splits)
  have lookup: "map_of (side_book ?s ib) ?p = level_at st ?i ?s ?p"
    by (simp add: side level_at_side_levels)
  define ib' where "ib' = put_level ?s ?p (level_with st message r) ib"
  define st0 where "st0 = set_book ?i ib' st"
  define st' where "st' = (set_active (orderId message)
      (index_entry ?i ?s ?p (rested_node st message r)) st0)\<lparr>nextNode := Suc (nextNode st)\<rparr>"
  have nokey: "orderId message \<notin> fst ` set (activeOrders st)"
    using fresh by (simp add: map_of_eq_None_iff)
  have "level_with st message r =
      \<lparr>totalQuantity = totalQuantity (case map_of (side_book ?s ib) ?p of None \<Rightarrow> empty_PriceLevel | Some l \<Rightarrow> l) + r,
       orders = orders (case map_of (side_book ?s ib) ?p of None \<Rightarrow> empty_PriceLevel | Some l \<Rightarrow> l) @
         [rested_node st message r]\<rparr>"
    by (simp add: level_with_def lookup Let_def)
  then have result: "addOrder st message r = Inr (st', APPLIED)"
    using nokey r fits
    by (simp add: addOrder_def canAddOrder_eq [OF cfg s] Let_def resting_side_not_other [OF s]
        ib_def [symmetric] st'_def st0_def ib'_def index_entry_def rested_node_def)
  have b': "book_sorted ib'" "\<not> (bids ib' = [] \<and> asks ib' = [])"
    using bsorted put_level_not_empty [OF s] by (auto simp: ib'_def book_sorted_put_level)
  have sorted0: "maps_sorted st0" and noempty0: "no_empty_book st0"
    using sorted noempty b' by (auto simp: st0_def maps_sorted_set_book intro: no_empty_book_set_book)
  have lv0: "side_levels st0 = (side_levels st)(?i := (side_levels st ?i)(?s :=
      om_insert (price_before ?s) ?p (level_with st message r) (side_levels st ?i ?s)))"
    using sorted s by (auto simp: st0_def side_levels_set_book ib'_def side_book_put_level side fun_eq_iff)
  have views: "side_levels st' = side_levels st0" "orderBooks st' = orderBooks st0"
    "nextNode st' = Suc (nextNode st)" "ms_exchangeRunId st' = ms_exchangeRunId st"
    "map_of (activeOrders st') = (map_of (activeOrders st))(orderId message \<mapsto>
        index_entry ?i ?s ?p (rested_node st message r))"
    using map_of_set_active [OF sorted0]
    by (simp_all add: st'_def side_levels_def set_active_def st0_def fun_eq_iff)
  have "maps_sorted st'" "no_empty_book st'"
    using maps_sorted_set_active [OF sorted0] noempty0 by (auto simp: st'_def maps_sorted_def no_empty_book_def)
  moreover have "level_at st' = upd_level (level_at st) ?i ?s ?p (Some (level_with st message r))"
    using level_at_put [OF sorted, of st' ?i ?s ?p] views(1) lv0 by simp
  moreover have "book_inv (upd_level (level_at st) ?i ?s ?p (Some (level_with st message r)))
      ((map_of (activeOrders st))(orderId message \<mapsto>
        index_entry ?i ?s ?p (rested_node st message r))) (Suc (nextNode st))"
    by (rule level_with_inv [OF wf s fresh r fits nocross])
  ultimately have "wf_state st'"
    using views by (simp add: wf_state_def)
  then show ?thesis
    using result views lv0 by simp
qed

end
