(* ===== verification/Order_Book_Spec.thy ===== *)
theory Order_Book_Spec
  imports Domain
begin

text \<open>
  The abstract limit order book that the matching engine promises to be: two queues of resting orders
  in price-time priority, with no levels, aggregates, index or iterators. A command maps a book to a
  book and the business events it reports. The properties that a trader sees (priority, conservation
  of quantity, limit prices, numbering of events) are proved here on the queues; the refinement in
  \<open>Matching_Commands\<close> carries them to the engine.
\<close>

section \<open>Books\<close>

record Resting =
  r_price :: Price
  r_orderId :: OrderId
  r_owner :: ClientId
  r_quantity :: Quantity

record Book =
  b_bids :: "Resting list"
  b_asks :: "Resting list"

definition book_side :: "orderType \<Rightarrow> Book \<Rightarrow> Resting list" where
  "book_side s b = (if s = BUY then b_bids b else b_asks b)"

definition set_side :: "orderType \<Rightarrow> Resting list \<Rightarrow> Book \<Rightarrow> Book" where
  "set_side s q b = (if s = BUY then b\<lparr>b_bids := q\<rparr> else b\<lparr>b_asks := q\<rparr>)"

definition other_side :: "orderType \<Rightarrow> orderType" where
  "other_side s = (if s = BUY then SELL else BUY)"

text \<open>Bids are served from the highest price, asks from the lowest.\<close>

definition better :: "orderType \<Rightarrow> Price \<Rightarrow> Price \<Rightarrow> bool" where
  "better s p p' = (if s = BUY then p > p' else p < p')"

text \<open>An incoming order on side \<open>s\<close> with a limit can trade at a resting price.\<close>

definition acceptable :: "orderType \<Rightarrow> Price \<Rightarrow> Price \<Rightarrow> bool" where
  "acceptable s limit p = (if s = BUY then p \<le> limit else p \<ge> limit)"

definition domain_side :: "orderType \<Rightarrow> Side" where
  "domain_side s = (if s = BUY then Side_BUY else Side_SELL)"

section \<open>Matching\<close>

fun match_queue ::
  "(Price \<Rightarrow> bool) \<Rightarrow> Quantity \<Rightarrow> Resting list \<Rightarrow> (Resting \<times> Quantity) list \<times> Quantity \<times> Resting list" where
  "match_queue ok q [] = ([], q, [])"
| "match_queue ok q (r # rs) =
     (if q = 0 \<or> \<not> ok (r_price r) then ([], q, r # rs)
      else if q < r_quantity r then ([(r, q)], 0, r\<lparr>r_quantity := r_quantity r - q\<rparr> # rs)
      else case match_queue ok (q - r_quantity r) rs of
             (fs, q', rs') \<Rightarrow> ((r, r_quantity r) # fs, q', rs'))"

definition event_id :: "ExchangeRunId \<Rightarrow> sequenceMessage \<Rightarrow> nat \<Rightarrow> EventId" where
  "event_id runId message idx =
     \<lparr>ev_commandSequence = globalSequenceNumber message, ev_eventIndex = of_nat idx,
      ev_exchangeRunId = runId\<rparr>"

definition trade_report ::
  "ExchangeRunId \<Rightarrow> sequenceMessage \<Rightarrow> nat \<Rightarrow> Quantity \<Rightarrow> Resting \<Rightarrow> Quantity \<Rightarrow> Trade" where
  "trade_report runId message idx q r t =
     \<lparr>tr_eventId = event_id runId message idx, tr_instrumentId = instrumentId message,
      makerOrderId = r_orderId r, makerClientId = r_owner r,
      takerOrderId = orderId message, takerClientId = clientId message,
      takerSide = domain_side (orderType_of message), executionPrice = r_price r,
      executionQuantity = t, makerRemainingQuantity = r_quantity r - t,
      takerRemainingQuantity = q - t\<rparr>"

fun trade_reports ::
  "ExchangeRunId \<Rightarrow> sequenceMessage \<Rightarrow> nat \<Rightarrow> Quantity \<Rightarrow> (Resting \<times> Quantity) list \<Rightarrow> BusinessEvent list" where
  "trade_reports runId message idx q [] = []"
| "trade_reports runId message idx q ((r, t) # fs) =
     EvTrade (trade_report runId message idx q r t) #
       trade_reports runId message (Suc idx) (q - t) fs"

text \<open>A remainder is queued behind every order of its side with the same or a better price.\<close>

definition enqueue :: "orderType \<Rightarrow> Resting \<Rightarrow> Resting list \<Rightarrow> Resting list" where
  "enqueue s r rs =
     takeWhile (\<lambda>x. \<not> better s (r_price r) (r_price x)) rs @
     r # dropWhile (\<lambda>x. \<not> better s (r_price r) (r_price x)) rs"

definition depth_at :: "Price \<Rightarrow> Resting list \<Rightarrow> nat" where
  "depth_at p rs = sum_list (map (\<lambda>r. unat (r_quantity r)) (filter (\<lambda>r. r_price r = p) rs))"

section \<open>Commands\<close>

definition rejection ::
  "ExchangeRunId \<Rightarrow> sequenceMessage \<Rightarrow> CommandType \<Rightarrow> OrderId \<Rightarrow> CommandRejectionReason \<Rightarrow> BusinessEvent" where
  "rejection runId message ct oid reason =
     EvCommandRejected
       \<lparr>cr_eventId = event_id runId message 0, cr_commandType = ct, cr_clientId = clientId message,
        cr_clientCommandId = the (clientCommandId message), cr_relevantOrderId = Some oid,
        cr_reason = reason\<rparr>"

definition own_resting :: "sequenceMessage \<Rightarrow> Quantity \<Rightarrow> Resting" where
  "own_resting message q =
     \<lparr>r_price = price message, r_orderId = orderId message, r_owner = clientId message,
      r_quantity = q\<rparr>"

text \<open>The event that ends an order whose quantity was not filled completely.\<close>

definition remainder_event :: "ExchangeRunId \<Rightarrow> sequenceMessage \<Rightarrow> nat \<Rightarrow> Quantity \<Rightarrow> BusinessEvent" where
  "remainder_event runId message idx q =
     (if tif message = GTC
      then EvOrderRested
        \<lparr>or_eventId = event_id runId message idx, or_orderId = orderId message,
         or_clientId = clientId message, or_instrumentId = instrumentId message,
         or_side = domain_side (orderType_of message), or_price = price message,
         or_remainingQuantity = q\<rparr>
      else EvOrderCancelled
        \<lparr>oc_eventId = event_id runId message idx, oc_orderId = orderId message,
         oc_clientId = clientId message, oc_instrumentId = instrumentId message,
         cancelledQuantity = q, oc_reason = IOC_REMAINDER\<rparr>)"

definition spec_order ::
  "ExchangeRunId \<Rightarrow> sequenceMessage \<Rightarrow> Book \<Rightarrow> Book \<times> ProcessingResult \<times> BusinessEvent list" where
  "spec_order runId message b =
     (let s = orderType_of message;
          (fs, rest, queue) = match_queue (acceptable s (price message)) (quantity message)
            (book_side (other_side s) b) in
      if length fs + (if rest > 0 then 1 else 0) > 4096 \<or>
         tif message = GTC \<and> rest > 0 \<and>
           depth_at (price message) (book_side s b) + unat rest > 1000000000
      then (b, PR_BOOK_CAPACITY_EXCEEDED,
            [rejection runId message NEW_ORDER (orderId message) BOOK_CAPACITY_EXCEEDED])
      else
        let b1 = set_side (other_side s) queue b;
            b2 = (if tif message = GTC \<and> rest > 0
                  then set_side s (enqueue s (own_resting message rest) (book_side s b1)) b1 else b1)
        in (b2, APPLIED,
            trade_reports runId message 0 (quantity message) fs @
            (if rest > 0 then [remainder_event runId message (length fs) rest] else [])))"

definition cancel_report :: "ExchangeRunId \<Rightarrow> sequenceMessage \<Rightarrow> Resting \<Rightarrow> BusinessEvent" where
  "cancel_report runId message r =
     EvOrderCancelled
       \<lparr>oc_eventId = event_id runId message 0, oc_orderId = r_orderId r, oc_clientId = r_owner r,
        oc_instrumentId = instrumentId message, cancelledQuantity = r_quantity r,
        oc_reason = CLIENT_REQUESTED\<rparr>"

definition without_order :: "OrderId \<Rightarrow> Resting list \<Rightarrow> Resting list" where
  "without_order oid rs = filter (\<lambda>r. r_orderId r \<noteq> oid) rs"

definition spec_cancel ::
  "ExchangeRunId \<Rightarrow> sequenceMessage \<Rightarrow> Book \<Rightarrow> Book \<times> ProcessingResult \<times> BusinessEvent list" where
  "spec_cancel runId message b =
     (let target = the (targetOrderId message) in
      case List.find (\<lambda>r. r_orderId r = target) (b_bids b @ b_asks b) of
        None \<Rightarrow> (b, APPLIED, [rejection runId message CommandType_CANCEL target ORDER_NOT_ACTIVE])
      | Some r \<Rightarrow>
          if r_owner r \<noteq> clientId message
          then (b, APPLIED, [rejection runId message CommandType_CANCEL target NOT_OWNER])
          else (\<lparr>b_bids = without_order target (b_bids b), b_asks = without_order target (b_asks b)\<rparr>,
                APPLIED, [cancel_report runId message r]))"

definition spec_command ::
  "ExchangeRunId \<Rightarrow> sequenceMessage \<Rightarrow> Book \<Rightarrow> Book \<times> ProcessingResult \<times> BusinessEvent list" where
  "spec_command runId message b =
     (if orderType_of message = CANCEL then spec_cancel runId message b
      else spec_order runId message b)"


section \<open>Facts about matching\<close>

lemma match_queue_makers:
  "match_queue ok q rs = (fs, q', rs') \<Longrightarrow> map fst fs = take (length fs) rs"
  by (induction ok q rs arbitrary: fs q' rs' rule: match_queue.induct)
    (auto split: if_splits prod.splits)

lemma match_queue_fills:
  "match_queue ok q rs = (fs, q', rs') \<Longrightarrow> (r, t) \<in> set fs \<Longrightarrow> \<forall>r \<in> set rs. r_quantity r \<noteq> 0 \<Longrightarrow>
     ok (r_price r) \<and> t \<noteq> 0 \<and> t \<le> r_quantity r"
  by (induction ok q rs arbitrary: fs q' rs' rule: match_queue.induct)
    (auto split: if_splits prod.splits)

lemma match_queue_full:
  "match_queue ok q rs = (fs, q', rs') \<Longrightarrow> (r, t) \<in> set (butlast fs) \<Longrightarrow> t = r_quantity r"
  by (induction ok q rs arbitrary: fs q' rs' rule: match_queue.induct)
    (auto split: if_splits prod.splits)

lemma match_queue_conserves:
  "match_queue ok q rs = (fs, q', rs') \<Longrightarrow> sum_list (map (\<lambda>(r, t). unat t) fs) + unat q' = unat q"
proof (induction ok q rs arbitrary: fs q' rs' rule: match_queue.induct)
  case (2 ok q r rs)
  show ?case
  proof (cases "q = 0 \<or> \<not> ok (r_price r) \<or> q < r_quantity r")
    case False
    obtain gs p qs where rec: "match_queue ok (q - r_quantity r) rs = (gs, p, qs)"
      by (cases "match_queue ok (q - r_quantity r) rs")
    have "unat (q - r_quantity r) = unat q - unat (r_quantity r)" "unat (r_quantity r) \<le> unat q"
      using False by (auto simp: unat_sub word_le_nat_alt word_less_nat_alt)
    then show ?thesis
      using 2 rec False by auto
  qed (use 2 in \<open>auto split: if_splits\<close>)
qed simp

text \<open>What is left of the queue is a suffix of it, up to the quantity of its first order.\<close>

definition standing :: "Resting \<Rightarrow> Price \<times> OrderId \<times> ClientId" where
  "standing r = (r_price r, r_orderId r, r_owner r)"

lemma match_queue_suffix:
  "match_queue ok q rs = (fs, q', rs') \<Longrightarrow> \<exists>k. map standing rs' = drop k (map standing rs)"
proof (induction ok q rs arbitrary: fs q' rs' rule: match_queue.induct)
  case (2 ok q r rs)
  consider "map standing rs' = map standing (r # rs)"
    | gs p qs where "match_queue ok (q - r_quantity r) rs = (gs, p, qs)"
      "\<not> (q = 0 \<or> \<not> ok (r_price r))" "\<not> q < r_quantity r" "rs' = qs"
    using 2(2) by (auto simp: standing_def split: if_splits prod.splits)
  then show ?case
  proof cases
    case 1
    then show ?thesis by (metis drop0)
  next
    case 2
    then obtain k where "map standing rs' = drop k (map standing rs)"
      using "2.IH" by blast
    then show ?thesis by (intro exI [of _ "Suc k"]) simp
  qed
qed (simp add: exI [of _ 0])

text \<open>The order of service of one side: best price first, and the earlier order first at one price.\<close>

definition served_before :: "orderType \<Rightarrow> Resting \<Rightarrow> Resting \<Rightarrow> bool" where
  "served_before s a b \<longleftrightarrow>
     better s (r_price a) (r_price b) \<or> r_price a = r_price b \<and> r_orderId a < r_orderId b"

definition priority_order :: "orderType \<Rightarrow> Resting list \<Rightarrow> bool" where
  "priority_order s rs = sorted_wrt (served_before s) rs"

lemma priority_order_standing:
  assumes "map standing rs' = drop k (map standing rs)" and "priority_order s rs"
  shows "priority_order s rs'"
proof -
  define before where "before = (\<lambda>(p, i, c :: ClientId) (p', i', c' :: ClientId). better s p p' \<or> p = p' \<and> (i :: OrderId) < i')"
  have eq: "priority_order s xs \<longleftrightarrow> sorted_wrt before (map standing xs)" for xs
    by (simp add: priority_order_def sorted_wrt_map served_before_def [abs_def] before_def standing_def)
  show ?thesis
    using assms(2) unfolding eq assms(1) by (rule sorted_wrt_drop)
qed

lemma better_trans: "better s a b \<Longrightarrow> better s b c \<Longrightarrow> better s a c"
  by (auto simp: better_def split: if_splits)

lemma better_linear: "a \<noteq> b \<Longrightarrow> better s a b \<or> better s b a"
  by (auto simp: better_def)

lemma priority_order_enqueue:
  assumes "priority_order s rs" and newest: "\<forall>x \<in> set rs. r_orderId x < r_orderId r"
  shows "priority_order s (enqueue s r rs)"
  using assms
proof (induction rs)
  case (Cons x rs)
  have later: "better s (r_price x) (r_price y) \<or> r_price x = r_price y" if "y \<in> set rs" for y
    using Cons.prems(1) that by (auto simp: priority_order_def served_before_def)
  show ?case
  proof (cases "better s (r_price r) (r_price x)")
    case True
    have "better s (r_price r) (r_price y)" if "y \<in> set rs" for y
      using later [OF that] True better_trans by metis
    then show ?thesis
      using Cons.prems True by (auto simp: enqueue_def priority_order_def served_before_def)
  next
    case False
    have "priority_order s (enqueue s r rs)"
      using Cons by (auto simp: priority_order_def)
    moreover have "served_before s x r"
      using False Cons.prems(2) better_linear [of "r_price x" "r_price r" s] by (auto simp: served_before_def)
    moreover have "set (enqueue s r rs) = insert r (set rs)"
      by (simp add: enqueue_def flip: set_append) (metis Un_insert_right list.simps(15) set_append takeWhile_dropWhile_id)
    ultimately show ?thesis
      using Cons.prems(1) False by (simp add: enqueue_def priority_order_def)
  qed
qed (simp add: enqueue_def priority_order_def)

text \<open>In a book in priority order, what an order with a remainder leaves behind is not acceptable.\<close>

lemma match_queue_exhausts:
  assumes "match_queue (acceptable s limit) q rs = (fs, q', rs')" and "q' \<noteq> 0"
    and "priority_order (other_side s) rs" and "x \<in> set rs'" and "s = BUY \<or> s = SELL"
  shows "\<not> acceptable s limit (r_price x)"
  using assms
proof (induction "acceptable s limit" q rs arbitrary: fs q' rs' rule: match_queue.induct)
  case (2 q r rs)
  have later: "better (other_side s) (r_price r) (r_price y) \<or> r_price r = r_price y" if "y \<in> set rs" for y
    using "2.prems"(3) that by (auto simp: priority_order_def served_before_def)
  have mono: "\<not> acceptable s limit (r_price y)" if "\<not> acceptable s limit (r_price r)" "y \<in> set rs" for y
    using later [OF that(2)] that(1) \<open>s = BUY \<or> s = SELL\<close>
    by (auto simp: acceptable_def better_def other_side_def)
  show ?case
  proof (cases "q = 0 \<or> \<not> acceptable s limit (r_price r) \<or> q < r_quantity r")
    case True
    then show ?thesis
      using "2.prems" mono by (auto split: if_splits)
  next
    case False
    then show ?thesis
      using "2.prems" "2.hyps" by (auto simp: priority_order_def split: prod.splits)
  qed
qed simp

section \<open>Facts about reports\<close>

fun trades_of :: "BusinessEvent list \<Rightarrow> Trade list" where
  "trades_of [] = []"
| "trades_of (EvTrade t # evs) = t # trades_of evs"
| "trades_of (_ # evs) = trades_of evs"

lemma trades_of_append: "trades_of (xs @ ys) = trades_of xs @ trades_of ys"
  by (induction xs rule: trades_of.induct) simp_all

lemma trades_of_reports_map:
  assumes "\<And>idx q r t. f (trade_report runId message idx q r t) = g (r, t)"
  shows "map f (trades_of (trade_reports runId message idx q fs)) = map g fs"
  using assms by (induction runId message idx q fs rule: trade_reports.induct) simp_all

text \<open>The quantity that the last event of an accepted order accounts for.\<close>

fun terminal_quantity :: "BusinessEvent \<Rightarrow> nat" where
  "terminal_quantity (EvOrderRested e) = unat (or_remainingQuantity e)"
| "terminal_quantity (EvOrderCancelled e) = unat (cancelledQuantity e)"
| "terminal_quantity _ = 0"

lemma eventId_trade_reports:
  "map eventId_of (trade_reports runId message idx q fs) =
     map (event_id runId message) [idx ..< idx + length fs]"
proof (induction runId message idx q fs rule: trade_reports.induct)
  case (2 runId message idx q r t fs)
  then show ?case
    by (simp add: trade_report_def upt_conv_Cons del: upt_Suc)
qed simp

lemma terminal_quantity_trade_reports:
  "sum_list (map terminal_quantity (trade_reports runId message idx q fs)) = 0"
  by (induction runId message idx q fs rule: trade_reports.induct) simp_all

end
