(* ===== verification/Matching_Commands.thy ===== *)
theory Matching_Commands
  imports Matching_Orders Order_Book_Spec
begin

text \<open>
  The command handlers refine the abstract order book: on a well-formed state \<open>processMessage\<close> never
  throws, keeps the state well-formed, and the books and events it leaves are those of
  \<open>spec_command\<close>.
\<close>

section \<open>Abstraction\<close>

definition resting_of :: "Price \<times> OrderNode \<Rightarrow> Resting" where
  "resting_of = (\<lambda>(p, n). \<lparr>r_price = p, r_orderId = node_orderId n, r_owner = node_owner n,
                           r_quantity = node_remaining n\<rparr>)"

definition abs_side :: "(Price \<times> PriceLevel) list \<Rightarrow> Resting list" where
  "abs_side ls = map resting_of (side_queue ls)"

definition abs_book :: "MatchingState \<Rightarrow> Book" where
  "abs_book st = \<lparr>b_bids = abs_side (side_levels st 1 BUY), b_asks = abs_side (side_levels st 1 SELL)\<rparr>"

text \<open>The only configured instrument has identifier 1.\<close>

definition single_instrument :: "MatchingState \<Rightarrow> bool" where
  "single_instrument st \<longleftrightarrow> (\<forall>i s. i \<noteq> 1 \<longrightarrow> side_levels st i s = [])"

lemma resting_of_sel [simp]:
  "r_price (resting_of (p, n)) = p" "r_orderId (resting_of (p, n)) = node_orderId n"
  "r_owner (resting_of (p, n)) = node_owner n" "r_quantity (resting_of (p, n)) = node_remaining n"
  by (simp_all add: resting_of_def)

lemma abs_side_simps [simp]:
  "abs_side [] = []"
  "abs_side ((p, l) # ls) = map (\<lambda>n. resting_of (p, n)) (orders l) @ abs_side ls"
  by (simp_all add: abs_side_def o_def)

lemma abs_side_append [simp]: "abs_side (ls @ ls') = abs_side ls @ abs_side ls'"
  by (induction ls) auto

lemma set_abs_side:
  "r \<in> set (abs_side ls) \<longleftrightarrow> (\<exists>p l n. (p, l) \<in> set ls \<and> n \<in> set (orders l) \<and> r = resting_of (p, n))"
  by (force simp: abs_side_def side_queue_def)

lemma book_side_abs_book:
  "resting_side s \<Longrightarrow> book_side s (abs_book st) = abs_side (side_levels st 1 s)"
  by (auto simp: resting_side_def book_side_def abs_book_def)

lemma opposite_eq: "opposite = other_side"
  by (simp add: opposite_def other_side_def fun_eq_iff)

lemma crosses_eq_acceptable: "resting_side s \<Longrightarrow> crosses (other_side s) limit p = acceptable s limit p"
  by (auto simp: crosses_def acceptable_def other_side_def resting_side_def)

lemma price_before_eq_better: "price_before = better"
  by (simp add: price_before_def better_def fun_eq_iff)

section \<open>Matching against a queue\<close>

lemma match_queue_spec:
  "match_queue ok q (map resting_of xs) =
     (map (\<lambda>(p, n, t). (resting_of (p, n), t)) (fills ok q xs), leftover ok q xs,
      map resting_of (queue_after ok q xs))"
proof (induction ok q xs rule: queue_after.induct)
  case (2 ok q p n xs)
  show ?case
  proof (cases "q = 0 \<or> \<not> ok p")
    case False
    note step = this
    show ?thesis
    proof (cases "q < node_remaining n")
      case True
      then have "min q (node_remaining n) = q" by simp
      then show ?thesis
        using step True by (cases xs) (auto simp: resting_of_def)
    next
      case False
      then have "min q (node_remaining n) = node_remaining n" by (simp add: min_def not_less)
      then show ?thesis
        using step False 2 by simp
    qed
  qed (auto simp: resting_of_def)
qed simp

lemma trade_events_reports:
  assumes "tkSide = domain_side (orderType_of message)"
  shows "trade_events message runId tkSide idx q fs =
    trade_reports runId message idx q (map (\<lambda>(p, n, t). (resting_of (p, n), t)) fs)"
  using assms
  by (induction message runId tkSide idx q fs rule: trade_events.induct)
    (auto simp: trade_of_def trade_report_def event_id_def)

lemma length_fills_le:
  "\<forall>(p, n) \<in> set xs. node_remaining n \<noteq> 0 \<Longrightarrow>
     length (fills ok q xs) + unat (leftover ok q xs) \<le> unat q"
proof (induction ok q xs rule: fills.induct)
  case (2 ok q p n xs)
  show ?case
  proof (cases "q = 0 \<or> \<not> ok p")
    case False
    then have "unat (q - min q (node_remaining n)) < unat q"
      using 2(2) by (intro unat_sub_less) (auto simp: min_def)
    then show ?thesis
      using 2 False by auto
  qed auto
qed simp

section \<open>Queues of a well-formed state\<close>

lemma wf_side_levels:
  assumes "wf_state st" and "(p, l) \<in> set (side_levels st i s)"
  shows "wf_level l" and "resting_side s"
  using assms book_inv_level [of "level_at st" "map_of (activeOrders st)" "nextNode st" i s p l]
  by (auto simp: wf_state_def level_at_in_side_levels)

lemma wf_queue_positive:
  "wf_state st \<Longrightarrow> \<forall>(p, n) \<in> set (side_queue (side_levels st i s)). node_remaining n \<noteq> 0"
  using wf_side_levels(1) by (fastforce simp: side_queue_def wf_level_def)

lemma planMatches_spec:
  assumes wf: "wf_state st" and s: "resting_side (orderType_of message)"
  defines "ok \<equiv> crosses (opposite (orderType_of message)) (price message)"
    and "queue \<equiv> side_queue (side_levels st (instrumentId message) (opposite (orderType_of message)))"
  shows "planMatches st message =
    Inr \<lparr>remainder = leftover ok (quantity message) queue,
         executionCount = length (fills ok (quantity message) queue)\<rparr>"
proof -
  let ?ls = "side_levels st (instrumentId message) (opposite (orderType_of message))"
  have "length (fills ok (quantity message) queue) \<le> unat (quantity message)"
    using length_fills_le [OF wf_queue_positive [OF wf], of ok "quantity message"]
    unfolding queue_def by (meson add_leE)
  also have "\<dots> \<le> SIZE_MAX"
    using unsigned_less [of "quantity message", where 'a = nat] by (simp add: SIZE_MAX_def)
  finally have "planBook ok ?ls \<lparr>remainder = quantity message, executionCount = 0\<rparr> =
    Inr \<lparr>remainder = leftover ok (quantity message) queue,
         executionCount = length (fills ok (quantity message) queue)\<rparr>"
    using wf_side_levels(1) [OF wf] planBook_spec [of ?ls 0 ok "quantity message"]
    by (fastforce simp: queue_def wf_level_def)
  moreover have "ok = (if orderType_of message = BUY then (\<lambda>p. p \<le> price message) else (\<lambda>p. p \<ge> price message))"
    using s by (auto simp: ok_def crosses_def opposite_def resting_side_def)
  ultimately show ?thesis
    using s
    by (auto simp: planMatches_def resting_side_def opposite_def side_levels_def side_book_def queue_def
        split: option.splits)
qed

lemma matchOrder_spec:
  assumes wf: "wf_state st" and s: "resting_side (orderType_of message)"
    and "length (fills (crosses (opposite (orderType_of message)) (price message)) (quantity message)
      (side_queue (side_levels st (instrumentId message) (opposite (orderType_of message))))) \<le> UINT32_MAX"
  shows "\<exists>st'. match_outcome (opposite (orderType_of message)) (domain_side (orderType_of message)) message st
    (quantity message) [] (matchOrder message st (quantity message) []) st'"
  using s assms(3) buy_loop.loop_refines [OF wf, of "[]" message "quantity message"]
    sell_loop.loop_refines [OF wf, of "[]" message "quantity message"]
  by (auto simp: resting_side_def matchOrder_def opposite_def domain_side_def)

section \<open>Levels and queues\<close>

lemma better_irrefl [simp]: "\<not> better s p p"
  by (simp add: better_def)

lemma skip_level:
  assumes "\<not> better s p k"
  shows "takeWhile (\<lambda>x. \<not> better s p (r_price x)) (map (\<lambda>n. resting_of (k, n)) os @ rs) =
      map (\<lambda>n. resting_of (k, n)) os @ takeWhile (\<lambda>x. \<not> better s p (r_price x)) rs"
    and "dropWhile (\<lambda>x. \<not> better s p (r_price x)) (map (\<lambda>n. resting_of (k, n)) os @ rs) =
      dropWhile (\<lambda>x. \<not> better s p (r_price x)) rs"
  using assms by (induction os) simp_all

lemma abs_side_enqueue:
  assumes "om_sorted (price_before s) ls" and "\<forall>(p, l) \<in> set ls. orders l \<noteq> []"
    and "orders lv = (case map_of ls p of None \<Rightarrow> [] | Some l \<Rightarrow> orders l) @ [n]"
  shows "abs_side (om_insert (price_before s) p lv ls) = enqueue s (resting_of (p, n)) (abs_side ls)"
  using assms
proof (induction ls)
  case (Cons pl ls)
  obtain k l where pl: "pl = (k, l)" by (cases pl)
  have after: "better s k p'" if "(p', l') \<in> set ls" for p' l'
    using Cons.prems(1) that by (auto simp: pl price_before_eq_better)
  obtain m ms where os: "orders l = m # ms"
    using Cons.prems(2) by (cases "orders l") (auto simp: pl)
  let ?P = "\<lambda>x. \<not> better s p (r_price x)"
  consider "price_before s p k" | "p = k" | "\<not> price_before s p k" "p \<noteq> k"
    by blast
  then show ?case
  proof cases
    case 1
    then have "map_of ls p = None" and "p \<noteq> k"
      using after price_order.lt_trans [of s p k p] by (auto simp: map_of_eq_None_iff price_before_eq_better)
    then show ?thesis
      using 1 Cons.prems(3) by (simp add: pl os enqueue_def price_before_eq_better)
  next
    case 2
    have "\<forall>x \<in> set (abs_side ls). better s p (r_price x)"
      using after 2 by (auto simp: set_abs_side)
    then have none: "takeWhile ?P (abs_side ls) = []" "dropWhile ?P (abs_side ls) = abs_side ls"
      by (cases "abs_side ls"; simp)+
    show ?thesis
      using 2 Cons.prems(3) none
      by (simp add: pl enqueue_def skip_level price_before_eq_better)
  next
    case 3
    then show ?thesis
      using Cons by (simp add: pl enqueue_def skip_level price_before_eq_better)
  qed
qed (simp add: enqueue_def)

lemma depth_at_abs_side:
  assumes "om_sorted (price_before s) ls"
  shows "depth_at p (abs_side ls) = (case map_of ls p of None \<Rightarrow> 0 | Some l \<Rightarrow> level_sum (orders l))"
  using assms
proof (induction ls)
  case (Cons pl ls)
  obtain k l where pl: "pl = (k, l)" by (cases pl)
  have split: "depth_at p (map (\<lambda>n. resting_of (k, n)) os @ rs) =
      (if k = p then level_sum os else 0) + depth_at p rs" for os rs
    by (induction os) (auto simp: depth_at_def)
  have "map_of ls p = None" if "p = k"
    using Cons.prems that price_order.lt_irrefl [of s k] by (auto simp: pl map_of_eq_None_iff)
  then show ?case
    using Cons by (auto simp: pl split)
qed (simp add: depth_at_def)

end
