(* ===== verification/Matching_Handlers.thy ===== *)
theory Matching_Handlers
  imports Matching_Commands
begin

text \<open>
  The handlers of new orders and cancels, and the dispatcher, against the abstract order book.
\<close>

section \<open>New orders\<close>

lemma level_fits_depth:
  assumes "wf_state st" and "resting_side (orderType_of message)"
  shows "level_fits st message r \<longleftrightarrow>
    depth_at (price message) (abs_side (side_levels st (instrumentId message) (orderType_of message))) + unat r
      \<le> 1000000000"
proof -
  let ?i = "instrumentId message" and ?s = "orderType_of message"
  have "om_sorted (price_before ?s) (side_levels st ?i ?s)"
    using assms(1) by (simp add: side_levels_sorted wf_state_def)
  moreover have "wf_level l" if "level_at st ?i ?s (price message) = Some l" for l
    using that assms(1) by (auto simp: wf_state_def dest: book_inv_level)
  ultimately show ?thesis
    by (auto simp: level_fits_def current_aggregate_def depth_at_abs_side level_at_side_levels [symmetric]
        SPY_V1_def wf_level_def split: option.splits)
qed

lemma rejectBookCapacity_spec:
  assumes "clientCommandId message = Some c"
  shows "rejectBookCapacity st message =
    Inr (PR_BOOK_CAPACITY_EXCEEDED,
      [rejection (ms_exchangeRunId st) message NEW_ORDER (orderId message) BOOK_CAPACITY_EXCEEDED])"
  by (simp add: rejectBookCapacity_def assms rejection_def event_id_def)

lemma makeEventId_small:
  "idx \<le> MAX_EVENTS_PER_COMMAND \<Longrightarrow> makeEventId runId (globalSequenceNumber message) idx = Inr (event_id runId message idx)"
  by (simp add: makeEventId_def MAX_EVENTS_PER_COMMAND_def UINT32_MAX_def event_id_def)

lemma opposite_neq [simp]: "resting_side s \<Longrightarrow> s \<noteq> opposite s" "resting_side s \<Longrightarrow> resting_side (opposite s)"
  by (auto simp: resting_side_def opposite_def)

text \<open>The outcome of the matching loop in terms of the abstract book.\<close>

lemma matchOrder_abs:
  assumes wf: "wf_state st" and single: "single_instrument st" and s: "resting_side (orderType_of message)"
    and inst: "instrumentId message = 1"
    and spec: "match_queue (acceptable (orderType_of message) (price message)) (quantity message)
      (book_side (other_side (orderType_of message)) (abs_book st)) = (fs, r, queue)"
  shows "planMatches st message = Inr \<lparr>remainder = r, executionCount = length fs\<rparr>"
    and "length fs \<le> UINT32_MAX \<Longrightarrow>
      \<exists>st1. matchOrder message st (quantity message) [] =
        Inr (st1, r, trade_reports (ms_exchangeRunId st) message 0 (quantity message) fs) \<and>
      wf_state st1 \<and> single_instrument st1 \<and>
      abs_side (side_levels st1 1 (opposite (orderType_of message))) = queue \<and>
      side_levels st1 1 (orderType_of message) = side_levels st 1 (orderType_of message) \<and>
      (r \<noteq> 0 \<longrightarrow> (\<forall>(p, l) \<in> set (side_levels st1 1 (opposite (orderType_of message))).
         \<not> crosses (opposite (orderType_of message)) (price message) p)) \<and>
      (\<forall>oid. map_of (activeOrders st) oid = None \<longrightarrow> map_of (activeOrders st1) oid = None) \<and>
      ms_exchangeRunId st1 = ms_exchangeRunId st"
proof -
  let ?s = "orderType_of message" and ?o = "opposite (orderType_of message)"
  let ?ok = "crosses ?o (price message)" and ?q = "side_queue (side_levels st 1 ?o)"
  have ok: "acceptable ?s (price message) = ?ok"
    using s by (auto simp: crosses_eq_acceptable opposite_eq)
  have "book_side (other_side ?s) (abs_book st) = map resting_of ?q"
    using s by (simp add: opposite_eq [symmetric] book_side_abs_book abs_side_def)
  then have fs: "fs = map (\<lambda>(p, n, t). (resting_of (p, n), t)) (fills ?ok (quantity message) ?q)"
    and r: "r = leftover ?ok (quantity message) ?q"
    and queue: "queue = map resting_of (queue_after ?ok (quantity message) ?q)"
    using spec by (simp_all add: ok match_queue_spec)
  show "planMatches st message = Inr \<lparr>remainder = r, executionCount = length fs\<rparr>"
    using planMatches_spec [OF wf s] by (simp add: fs r inst)
  assume "length fs \<le> UINT32_MAX"
  then obtain st1 where out: "match_outcome ?o (domain_side ?s) message st (quantity message) []
      (matchOrder message st (quantity message) []) st1"
    using matchOrder_spec [OF wf s] by (auto simp: fs inst)
  have "single_instrument st1"
    using out single by (auto simp: match_outcome_def single_instrument_def Let_def inst)
  moreover have "abs_side (side_levels st1 1 ?o) = queue"
    using out by (simp add: match_outcome_def Let_def inst abs_side_def queue)
  moreover have "side_levels st1 1 ?s = side_levels st 1 ?s"
    using out opposite_neq(1) [OF s] by (simp add: match_outcome_def Let_def inst)
  moreover have "matchOrder message st (quantity message) [] =
      Inr (st1, r, trade_reports (ms_exchangeRunId st) message 0 (quantity message) fs)"
    using out by (simp add: match_outcome_def Let_def inst trade_events_reports fs r)
  ultimately show "\<exists>st1. matchOrder message st (quantity message) [] =
        Inr (st1, r, trade_reports (ms_exchangeRunId st) message 0 (quantity message) fs) \<and>
      wf_state st1 \<and> single_instrument st1 \<and>
      abs_side (side_levels st1 1 (opposite (orderType_of message))) = queue \<and>
      side_levels st1 1 (orderType_of message) = side_levels st 1 (orderType_of message) \<and>
      (r \<noteq> 0 \<longrightarrow> (\<forall>(p, l) \<in> set (side_levels st1 1 (opposite (orderType_of message))).
         \<not> crosses (opposite (orderType_of message)) (price message) p)) \<and>
      (\<forall>oid. map_of (activeOrders st) oid = None \<longrightarrow> map_of (activeOrders st1) oid = None) \<and>
      ms_exchangeRunId st1 = ms_exchangeRunId st"
    using out by (auto simp: match_outcome_def Let_def inst r)
qed

text \<open>Resting the remainder in terms of the abstract book.\<close>

lemma addOrder_abs:
  assumes wf: "wf_state st" and single: "single_instrument st" and s: "resting_side (orderType_of message)"
    and inst: "instrumentId message = 1" and ver: "configurationVersion message = 1"
    and fresh: "map_of (activeOrders st) (orderId message) = None"
    and r: "r \<noteq> 0"
    and fits: "depth_at (price message) (abs_side (side_levels st 1 (orderType_of message))) + unat r \<le> 1000000000"
    and nocross: "\<forall>(p, l) \<in> set (side_levels st 1 (opposite (orderType_of message))).
      \<not> crosses (opposite (orderType_of message)) (price message) p"
  shows "\<exists>st'. addOrder st message r = Inr (st', APPLIED) \<and> wf_state st' \<and> single_instrument st' \<and>
    abs_side (side_levels st' 1 (orderType_of message)) =
      enqueue (orderType_of message) (own_resting message r) (abs_side (side_levels st 1 (orderType_of message))) \<and>
    side_levels st' 1 (opposite (orderType_of message)) = side_levels st 1 (opposite (orderType_of message)) \<and>
    (\<forall>oid. oid \<noteq> orderId message \<longrightarrow> map_of (activeOrders st') oid = map_of (activeOrders st) oid) \<and>
    ms_exchangeRunId st' = ms_exchangeRunId st"
proof -
  let ?s = "orderType_of message" and ?p = "price message" and ?lv = "level_with st message r"
  have cfg: "findByIdentity (instrumentId message) (configurationVersion message) \<noteq> None"
    by (simp add: inst ver findByIdentity_def SPY_V1_def)
  have lf: "level_fits st message r"
    using fits by (simp add: level_fits_depth [OF wf s] inst)
  obtain st' where add: "addOrder st message r = Inr (st', APPLIED)" and wf': "wf_state st'"
    and lvls: "side_levels st' = (side_levels st)(1 := (side_levels st 1)(?s :=
        om_insert (price_before ?s) ?p ?lv (side_levels st 1 ?s)))"
    and act: "map_of (activeOrders st') = (map_of (activeOrders st))(orderId message \<mapsto>
      index_entry 1 ?s ?p (rested_node st message r))"
    and run: "ms_exchangeRunId st' = ms_exchangeRunId st"
    using addOrder_wf [OF wf s cfg fresh r lf] nocross by (auto simp: inst)
  have sorted: "om_sorted (price_before ?s) (side_levels st 1 ?s)"
    using wf by (simp add: side_levels_sorted wf_state_def)
  have nonempty: "\<forall>(p, l) \<in> set (side_levels st 1 ?s). orders l \<noteq> []"
    using wf_side_levels(1) [OF wf] by (fastforce simp: wf_level_def)
  have "orders ?lv = (case map_of (side_levels st 1 ?s) ?p of None \<Rightarrow> [] | Some l \<Rightarrow> orders l) @
      [rested_node st message r]"
    by (simp add: level_with_def Let_def inst level_at_side_levels empty_PriceLevel_def split: option.splits)
  note enq = abs_side_enqueue [OF sorted nonempty this]
  have "abs_side (side_levels st' 1 ?s) = enqueue ?s (own_resting message r) (abs_side (side_levels st 1 ?s))"
    by (simp add: lvls enq resting_of_def rested_node_def own_resting_def)
  moreover have "single_instrument st'"
    using single by (simp add: single_instrument_def lvls)
  ultimately show ?thesis
    using add wf' run act by (simp add: lvls opposite_neq(1) [OF s, symmetric])
qed


text \<open>What a handler promises: it returns the result and events of the abstract command and a
  well-formed state whose books are the abstract ones; only the command's own order can become
  active.\<close>

definition refines_command ::
  "MatchingState \<Rightarrow> sequenceMessage \<Rightarrow> (MatchingState \<times> ProcessingOutcome) result \<Rightarrow>
     Book \<times> ProcessingResult \<times> BusinessEvent list \<Rightarrow> bool" where
  "refines_command st message res spec \<longleftrightarrow>
     (\<exists>st'. res = Inr (st', snd spec) \<and> wf_state st' \<and> single_instrument st' \<and> abs_book st' = fst spec \<and>
        (\<forall>oid. oid \<noteq> orderId message \<longrightarrow> map_of (activeOrders st) oid = None \<longrightarrow>
           map_of (activeOrders st') oid = None) \<and>
        ms_exchangeRunId st' = ms_exchangeRunId st)"

lemma length_trade_reports [simp]: "length (trade_reports runId message idx q fs) = length fs"
  by (induction runId message idx q fs rule: trade_reports.induct) simp_all

lemma toDomainSide_resting: "resting_side s \<Longrightarrow> toDomainSide s = Inr (domain_side s)"
  by (auto simp: resting_side_def toDomainSide_def domain_side_def)

lemma abs_book_sides:
  assumes "resting_side s" and "abs_side (side_levels st' 1 s) = own"
    and "abs_side (side_levels st' 1 (opposite s)) = opp"
  shows "abs_book st' = set_side s own (set_side (other_side s) opp b)"
  using assms by (auto simp: resting_side_def abs_book_def set_side_def other_side_def opposite_def)

text \<open>The common prefix of the three ways a new order can end: the plan, the event count and the
  capacity test in terms of the abstract match.\<close>

definition planned_count :: "(Resting \<times> Quantity) list \<Rightarrow> Quantity \<Rightarrow> nat" where
  "planned_count fs r = length fs + (if r > 0 then 1 else 0)"

definition over_capacity :: "sequenceMessage \<Rightarrow> Book \<Rightarrow> (Resting \<times> Quantity) list \<Rightarrow> Quantity \<Rightarrow> bool" where
  "over_capacity message b fs r \<longleftrightarrow>
     planned_count fs r > MAX_EVENTS_PER_COMMAND \<or>
     tif message = GTC \<and> r > 0 \<and>
       depth_at (price message) (book_side (orderType_of message) b) + unat r > 1000000000"

lemma order_plan:
  assumes wf: "wf_state st" and single: "single_instrument st" and s: "resting_side (orderType_of message)"
    and inst: "instrumentId message = 1" and ver: "configurationVersion message = 1"
    and spec: "match_queue (acceptable (orderType_of message) (price message)) (quantity message)
      (book_side (other_side (orderType_of message)) (abs_book st)) = (fs, r, queue)"
  shows "checkedAddEventCount (length fs) (if r > 0 then 1 else 0) = Inr (planned_count fs r)"
    and "canAddOrder st message r = Inr (r = 0 \<or>
      depth_at (price message) (book_side (orderType_of message) (abs_book st)) + unat r \<le> 1000000000)"
proof -
  let ?s = "orderType_of message"
  have "length fs = length (fills (crosses (opposite ?s) (price message)) (quantity message)
      (side_queue (side_levels st 1 (opposite ?s))))"
    and "r = leftover (crosses (opposite ?s) (price message)) (quantity message)
      (side_queue (side_levels st 1 (opposite ?s)))"
    using planMatches_spec [OF wf s] matchOrder_abs(1) [OF wf single s inst spec] by (simp_all add: inst)
  then have "length fs + unat r \<le> unat (quantity message)"
    using length_fills_le wf_queue_positive [OF wf] by simp
  then have "length fs + unat r < 2 ^ 64"
    using unsigned_less [of "quantity message", where 'a = nat] by simp
  then show "checkedAddEventCount (length fs) (if r > 0 then 1 else 0) = Inr (planned_count fs r)"
    by (auto simp: checkedAddEventCount_def SIZE_MAX_def planned_count_def word_gt_0 unat_gt_0 [symmetric])
  have "findByIdentity (instrumentId message) (configurationVersion message) \<noteq> None"
    by (simp add: inst ver findByIdentity_def SPY_V1_def)
  then show "canAddOrder st message r = Inr (r = 0 \<or>
      depth_at (price message) (book_side (orderType_of message) (abs_book st)) + unat r \<le> 1000000000)"
    by (simp add: canAddOrder_eq [OF _ s] level_fits_depth [OF wf s] book_side_abs_book [OF s] inst)
qed

text \<open>The abstract command on the two branches.\<close>

lemma spec_order_cases:
  assumes "match_queue (acceptable (orderType_of message) (price message)) (quantity message)
      (book_side (other_side (orderType_of message)) b) = (fs, r, queue)"
  shows "over_capacity message b fs r \<Longrightarrow> spec_order runId message b =
      (b, PR_BOOK_CAPACITY_EXCEEDED,
       [rejection runId message NEW_ORDER (orderId message) BOOK_CAPACITY_EXCEEDED])"
    and "\<not> over_capacity message b fs r \<Longrightarrow> spec_order runId message b =
      (let b1 = set_side (other_side (orderType_of message)) queue b;
           b2 = (if tif message = GTC \<and> r > 0
                 then set_side (orderType_of message) (enqueue (orderType_of message) (own_resting message r)
                        (book_side (orderType_of message) b1)) b1 else b1)
       in (b2, APPLIED, trade_reports runId message 0 (quantity message) fs @
             (if r > 0 then [remainder_event runId message (length fs) r] else [])))"
  unfolding over_capacity_def planned_count_def MAX_EVENTS_PER_COMMAND_def
  by (auto simp: spec_order_def assms Let_def)

lemma processOrder_over_capacity:
  assumes "wf_state st" "single_instrument st" "resting_side (orderType_of message)"
    "instrumentId message = 1" "configurationVersion message = 1" and ccid: "clientCommandId message = Some c"
    and spec: "match_queue (acceptable (orderType_of message) (price message)) (quantity message)
      (book_side (other_side (orderType_of message)) (abs_book st)) = (fs, r, queue)"
    and bad: "over_capacity message (abs_book st) fs r"
  shows "processOrder st message (tif message = GTC) = Inr (st, PR_BOOK_CAPACITY_EXCEEDED,
    [rejection (ms_exchangeRunId st) message NEW_ORDER (orderId message) BOOK_CAPACITY_EXCEEDED])"
  using order_plan [OF assms(1-5) spec] matchOrder_abs(1) [OF assms(1-4) spec] bad
  by (auto simp: processOrder_def rejectBookCapacity_spec [OF ccid] over_capacity_def)

lemma processOrder_rests:
  assumes wf: "wf_state st" and single: "single_instrument st" and s: "resting_side (orderType_of message)"
    and inst: "instrumentId message = 1" and ver: "configurationVersion message = 1"
    and spec: "match_queue (acceptable (orderType_of message) (price message)) (quantity message)
      (book_side (other_side (orderType_of message)) (abs_book st)) = (fs, r, queue)"
    and fits: "\<not> over_capacity message (abs_book st) fs r"
    and run: "matchOrder message st (quantity message) [] =
      Inr (st1, r, trade_reports (ms_exchangeRunId st) message 0 (quantity message) fs)"
    and rest: "tif message = GTC" "r > 0" and add: "addOrder st1 message r = Inr (st2, APPLIED)"
  shows "processOrder st message (tif message = GTC) =
    Inr (st2, APPLIED, trade_reports (ms_exchangeRunId st) message 0 (quantity message) fs @
      [remainder_event (ms_exchangeRunId st) message (length fs) r])"
  using order_plan [OF wf single s inst ver spec] matchOrder_abs(1) [OF wf single s inst spec] fits rest
  by (simp add: processOrder_def over_capacity_def not_less run add makeEventId_small planned_count_def
      toDomainSide_resting [OF s] remainder_event_def)

lemma processOrder_no_rest:
  assumes wf: "wf_state st" and single: "single_instrument st" and s: "resting_side (orderType_of message)"
    and inst: "instrumentId message = 1" and ver: "configurationVersion message = 1"
    and spec: "match_queue (acceptable (orderType_of message) (price message)) (quantity message)
      (book_side (other_side (orderType_of message)) (abs_book st)) = (fs, r, queue)"
    and fits: "\<not> over_capacity message (abs_book st) fs r"
    and run: "matchOrder message st (quantity message) [] =
      Inr (st1, r, trade_reports (ms_exchangeRunId st) message 0 (quantity message) fs)"
    and no_rest: "\<not> (tif message = GTC \<and> r > 0)"
  shows "processOrder st message (tif message = GTC) =
    Inr (st1, APPLIED, trade_reports (ms_exchangeRunId st) message 0 (quantity message) fs @
      (if r > 0 then [remainder_event (ms_exchangeRunId st) message (length fs) r] else []))"
  using order_plan [OF wf single s inst ver spec] matchOrder_abs(1) [OF wf single s inst spec] fits no_rest
  by (auto simp: processOrder_def over_capacity_def not_less run makeEventId_small planned_count_def
      remainder_event_def)

lemma processOrder_refines:
  assumes wf: "wf_state st" and single: "single_instrument st" and s: "resting_side (orderType_of message)"
    and inst: "instrumentId message = 1" and ver: "configurationVersion message = 1"
    and fresh: "map_of (activeOrders st) (orderId message) = None"
    and ccid: "clientCommandId message = Some c"
  shows "refines_command st message (processOrder st message (tif message = GTC))
    (spec_order (ms_exchangeRunId st) message (abs_book st))"
proof -
  let ?s = "orderType_of message" and ?b = "abs_book st" and ?run = "ms_exchangeRunId st"
  obtain fs r queue where spec: "match_queue (acceptable ?s (price message)) (quantity message)
      (book_side (other_side ?s) ?b) = (fs, r, queue)"
    by (cases "match_queue (acceptable ?s (price message)) (quantity message) (book_side (other_side ?s) ?b)")
  note spec_cases = spec_order_cases [OF spec]
  show ?thesis
  proof (cases "over_capacity message ?b fs r")
    case True
    then show ?thesis
      using processOrder_over_capacity [OF wf single s inst ver ccid spec] wf single
      by (simp add: refines_command_def spec_cases)
  next
    case False
    then have "length fs \<le> UINT32_MAX"
      by (auto simp: over_capacity_def planned_count_def UINT32_MAX_def MAX_EVENTS_PER_COMMAND_def)
    then obtain st1 where run: "matchOrder message st (quantity message) [] =
        Inr (st1, r, trade_reports ?run message 0 (quantity message) fs)"
      and wf1: "wf_state st1" and single1: "single_instrument st1"
      and opp1: "abs_side (side_levels st1 1 (opposite ?s)) = queue"
      and own1: "side_levels st1 1 ?s = side_levels st 1 ?s"
      and stop: "r \<noteq> 0 \<Longrightarrow> \<forall>(p, l) \<in> set (side_levels st1 1 (opposite ?s)). \<not> crosses (opposite ?s) (price message) p"
      and act1: "\<And>oid. map_of (activeOrders st) oid = None \<Longrightarrow> map_of (activeOrders st1) oid = None"
      and id1: "ms_exchangeRunId st1 = ?run"
      using matchOrder_abs(2) [OF wf single s inst spec] by blast
    have own_b1: "book_side ?s (set_side (other_side ?s) queue ?b) = abs_side (side_levels st 1 ?s)"
      and b1: "abs_book st1 = set_side (other_side ?s) queue ?b"
      using s opp1 own1
      by (auto simp: resting_side_def book_side_def set_side_def other_side_def opposite_def abs_book_def)
    show ?thesis
    proof (cases "tif message = GTC \<and> r > 0")
      case True
      then have r: "r \<noteq> 0" by auto
      have "depth_at (price message) (abs_side (side_levels st1 1 ?s)) + unat r \<le> 1000000000"
        using False True by (simp add: own1 over_capacity_def book_side_abs_book [OF s] not_less)
      then obtain st2 where add: "addOrder st1 message r = Inr (st2, APPLIED)"
        and wf2: "wf_state st2" and single2: "single_instrument st2"
        and own2: "abs_side (side_levels st2 1 ?s) =
          enqueue ?s (own_resting message r) (abs_side (side_levels st1 1 ?s))"
        and opp2: "side_levels st2 1 (opposite ?s) = side_levels st1 1 (opposite ?s)"
        and act2: "\<And>oid. oid \<noteq> orderId message \<Longrightarrow> map_of (activeOrders st2) oid = map_of (activeOrders st1) oid"
        and id2: "ms_exchangeRunId st2 = ms_exchangeRunId st1"
        using addOrder_abs [OF wf1 single1 s inst ver act1 [OF fresh] r _ stop [OF r]] by blast
      have "abs_book st2 =
          set_side ?s (enqueue ?s (own_resting message r) (abs_side (side_levels st 1 ?s)))
            (set_side (other_side ?s) queue ?b)"
        using abs_book_sides [OF s own2] opp1 opp2 own1 by simp
      then show ?thesis
        using processOrder_rests [OF wf single s inst ver spec False run _ _ add]
          wf2 single2 act1 act2 id1 id2 True
        by (simp add: refines_command_def spec_cases(2) [OF False] Let_def own_b1)
    next
      case no_rest: False
      then show ?thesis
        using processOrder_no_rest [OF wf single s inst ver spec False run no_rest] wf1 single1 act1 id1 b1
        by (auto simp: refines_command_def spec_cases(2) [OF False] Let_def)
    qed
  qed
qed


section \<open>Cancels\<close>

lemma abs_side_remove:
  assumes "om_sorted (price_before s) ls" and "map_of ls p = Some l"
    and "os = filter (\<lambda>m. node_orderId m \<noteq> oid) (orders l)"
    and "\<And>p' l' m. (p', l') \<in> set ls \<Longrightarrow> m \<in> set (orders l') \<Longrightarrow> node_orderId m = oid \<Longrightarrow> p' = p"
  shows "abs_side (write_levels s p (if os = [] then None else Some \<lparr>totalQuantity = t, orders = os\<rparr>) ls) =
    without_order oid (abs_side ls)"
  using assms
proof (induction ls)
  case (Cons kl ls)
  obtain k l' where kl: "kl = (k, l')" by (cases kl)
  have map_filter: "filter (\<lambda>r. r_orderId r \<noteq> oid) (map (\<lambda>n. resting_of (k, n)) ns) =
      map (\<lambda>n. resting_of (k, n)) (filter (\<lambda>m. node_orderId m \<noteq> oid) ns)" for k ns
    by (simp add: filter_map o_def)
  have absent: "k \<notin> fst ` set ls"
    using Cons.prems(1) price_order.lt_irrefl [of s k] by (auto simp: kl)
  show ?case
  proof (cases "k = p")
    case True
    have "node_orderId m \<noteq> oid" if "(p', l') \<in> set ls" "m \<in> set (orders l')" for p' l' m
      using True absent that Cons.prems(4) [of p' l' m] by (force simp: kl)
    then have "without_order oid (abs_side ls) = abs_side ls"
      unfolding without_order_def filter_id_conv Ball_def set_abs_side by (metis resting_of_sel(2))
    then show ?thesis
      using True Cons.prems(2,3) absent price_order.lt_irrefl [of s k]
      by (simp add: kl write_levels_def without_order_def map_filter delete_absent)
  next
    case False
    then have "(p, l) \<in> set ls"
      using Cons.prems(2) by (auto simp: kl dest: map_of_SomeD)
    then have "price_before s k p" using Cons.prems(1) by (auto simp: kl)
    then have "\<not> price_before s p k" by (rule price_order.lt_asym)
    moreover have "filter (\<lambda>m. node_orderId m \<noteq> oid) (orders l') = orders l'"
      using False Cons.prems(4) [of k l'] by (auto simp: filter_id_conv kl)
    moreover have "abs_side (write_levels s p (if os = [] then None else Some \<lparr>totalQuantity = t, orders = os\<rparr>) ls) =
        without_order oid (abs_side ls)"
      using Cons.prems False by (intro Cons.IH) (auto simp: kl)
    ultimately show ?thesis
      using False by (auto simp: kl write_levels_def without_order_def map_filter split: if_splits)
  qed
qed simp

lemma set_abs_book_side:
  assumes "wf_state st"
  shows "r \<in> set (abs_side (side_levels st i s)) \<longleftrightarrow>
    (\<exists>p l n. level_at st i s p = Some l \<and> n \<in> set (orders l) \<and> r = resting_of (p, n))"
  using assms by (simp add: set_abs_side level_at_in_side_levels wf_state_def)

lemma active_level:
  assumes wf: "wf_state st" and single: "single_instrument st"
    and ao: "map_of (activeOrders st) oid = Some ao"
  obtains l n where "level_at st 1 (ao_side ao) (ao_price ao) = Some l" and "n \<in> set (orders l)"
    and "node_orderId n = oid" and "ao = index_entry 1 (ao_side ao) (ao_price ao) n"
    and "resting_side (ao_side ao)"
proof -
  have inv: "book_inv (level_at st) (map_of (activeOrders st)) (nextNode st)"
    using wf by (simp add: wf_state_def)
  obtain l n where l: "level_at st (ao_instrumentId ao) (ao_side ao) (ao_price ao) = Some l"
    and n: "n \<in> set (orders l)" "node_orderId n = oid"
    using inv ao unfolding book_inv_def index_backed_def by blast
  have "ao_instrumentId ao = 1"
    using single l by (auto simp: single_instrument_def level_at_side_levels)
  then show ?thesis
    using that [of l n] l n ao book_inv_index [OF inv l n(1)] book_inv_level(1) [OF inv l]
    by (auto simp: index_entry_def)
qed

lemma find_active:
  assumes wf: "wf_state st" and single: "single_instrument st"
  shows "List.find (\<lambda>r. r_orderId r = oid) (b_bids (abs_book st) @ b_asks (abs_book st)) =
    map_option (\<lambda>ao. \<lparr>r_price = ao_price ao, r_orderId = oid, r_owner = ao_owner ao,
      r_quantity = ao_remaining ao\<rparr>) (map_of (activeOrders st) oid)"
proof -
  have inv: "book_inv (level_at st) (map_of (activeOrders st)) (nextNode st)"
    using wf by (simp add: wf_state_def)
  let ?rs = "b_bids (abs_book st) @ b_asks (abs_book st)"
  have mem: "\<exists>ao. map_of (activeOrders st) (r_orderId r) = Some ao \<and>
      r = \<lparr>r_price = ao_price ao, r_orderId = r_orderId r, r_owner = ao_owner ao, r_quantity = ao_remaining ao\<rparr>"
    if r: "r \<in> set ?rs" for r
  proof -
    obtain s p l n where "level_at st 1 s p = Some l" "n \<in> set (orders l)" "r = resting_of (p, n)"
      using r by (auto simp: abs_book_def set_abs_book_side [OF wf])
    then show ?thesis
      using book_inv_index [OF inv] by (fastforce simp: index_entry_def resting_of_def)
  qed
  show ?thesis
  proof (cases "map_of (activeOrders st) oid")
    case None
    then show ?thesis
      using mem by (fastforce simp: find_None_iff)
  next
    case (Some ao)
    obtain l n where "level_at st 1 (ao_side ao) (ao_price ao) = Some l" "n \<in> set (orders l)"
      "node_orderId n = oid" "ao = index_entry 1 (ao_side ao) (ao_price ao) n" "resting_side (ao_side ao)"
      by (rule active_level [OF wf single Some])
    then have "resting_of (ao_price ao, n) \<in> set ?rs" and "resting_of (ao_price ao, n) =
        \<lparr>r_price = ao_price ao, r_orderId = oid, r_owner = ao_owner ao, r_quantity = ao_remaining ao\<rparr>"
      by (auto simp: abs_book_def set_abs_book_side [OF wf] resting_side_def resting_of_def index_entry_def)
        (metis ActiveOrder.select_convs)+
    then show ?thesis
      using mem Some by (simp only: option.map) (intro find_unique; fastforce)
  qed
qed


lemma rejectCancel_spec:
  assumes "clientCommandId message = Some c"
  shows "rejectCancel st message oid reason =
    Inr (APPLIED, [rejection (ms_exchangeRunId st) message CommandType_CANCEL oid reason])"
  by (simp add: rejectCancel_def assms makeEventId_small rejection_def event_id_def)

text \<open>Removing an active order in terms of the abstract book.\<close>

lemma removeCancelledOrder_abs:
  assumes wf: "wf_state st" and single: "single_instrument st"
    and ao: "map_of (activeOrders st) oid = Some ao"
  shows "\<exists>st'. removeCancelledOrder st oid = Inr st' \<and> wf_state st' \<and> single_instrument st' \<and>
    abs_book st' = \<lparr>b_bids = without_order oid (b_bids (abs_book st)),
                    b_asks = without_order oid (b_asks (abs_book st))\<rparr> \<and>
    activeOrders st' = AList.delete oid (activeOrders st) \<and>
    ms_exchangeRunId st' = ms_exchangeRunId st"
proof -
  have inv: "book_inv (level_at st) (map_of (activeOrders st)) (nextNode st)" and sorted: "maps_sorted st"
    using wf by (auto simp: wf_state_def)
  let ?s = "ao_side ao" and ?p = "ao_price ao"
  obtain l n where l: "level_at st 1 ?s ?p = Some l" and n: "n \<in> set (orders l)"
    and oid: "node_orderId n = oid" and s: "resting_side ?s"
    by (rule active_level [OF wf single ao])
  define os where "os = filter (\<lambda>m. node_orderId m \<noteq> oid) (orders l)"
  define v where "v = (if os = [] then None
    else Some \<lparr>totalQuantity = totalQuantity l - node_remaining n, orders = os\<rparr>)"
  obtain st' where rem: "removeCancelledOrder st oid = Inr st'" and wf': "wf_state st'"
    and lvls: "side_levels st' = (side_levels st)(1 := (side_levels st 1)
      (?s := write_levels ?s ?p v (side_levels st 1 ?s)))"
    and act: "activeOrders st' = AList.delete oid (activeOrders st)"
    and run: "ms_exchangeRunId st' = ms_exchangeRunId st"
    using removeCancelledOrder_wf [OF wf l n] by (auto simp: oid os_def v_def)
  have only: "s' = ?s \<and> p' = ?p"
    if "level_at st 1 s' p' = Some l'" "m \<in> set (orders l')" "node_orderId m = oid" for s' p' l' m
    using book_inv_unique [OF inv l n that(1,2)] that(3) oid by simp
  have "abs_side (side_levels st' 1 ?s) = without_order oid (abs_side (side_levels st 1 ?s))"
    using abs_side_remove [OF side_levels_sorted [OF sorted] l [unfolded level_at_side_levels] os_def]
      only level_at_in_side_levels [OF sorted] by (simp add: lvls v_def)
  moreover have "without_order oid (abs_side (side_levels st 1 s')) = abs_side (side_levels st 1 s')"
    if "s' \<noteq> ?s" for s'
    using only that unfolding without_order_def filter_id_conv Ball_def set_abs_book_side [OF wf]
    by (metis resting_of_sel(2))
  ultimately have "abs_book st' = \<lparr>b_bids = without_order oid (b_bids (abs_book st)),
      b_asks = without_order oid (b_asks (abs_book st))\<rparr>"
    using s by (auto simp: resting_side_def abs_book_def lvls)
  moreover have "single_instrument st'"
    using single by (simp add: single_instrument_def lvls)
  ultimately show ?thesis
    using rem wf' act run by blast
qed

lemma processCancel_refines:
  assumes wf: "wf_state st" and single: "single_instrument st"
    and cancel: "orderType_of message = CANCEL" "targetOrderId message = Some target" "orderId message = 0"
    and corr: "globalSequenceNumber message \<noteq> 0" "clientId message \<noteq> 0"
      "clientCommandId message = Some c" "instrumentId message = 1"
  shows "refines_command st message (processCancel st message)
    (spec_cancel (ms_exchangeRunId st) message (abs_book st))"
proof (cases "map_of (activeOrders st) target")
  case None
  then show ?thesis
    using wf single cancel corr
    by (simp add: refines_command_def processCancel_def spec_cancel_def find_active [OF wf single]
        orderIdFrom_target_def rejectCancel_spec)
next
  case (Some ao)
  show ?thesis
  proof (cases "ao_owner ao = clientId message")
    case False
    then show ?thesis
      using wf single cancel corr Some
      by (simp add: refines_command_def processCancel_def spec_cancel_def find_active [OF wf single]
          orderIdFrom_target_def rejectCancel_spec)
  next
    case True
    obtain st' where rem: "removeCancelledOrder st target = Inr st'" "wf_state st'" "single_instrument st'"
      "abs_book st' = \<lparr>b_bids = without_order target (b_bids (abs_book st)),
                       b_asks = without_order target (b_asks (abs_book st))\<rparr>"
      "activeOrders st' = AList.delete target (activeOrders st)" "ms_exchangeRunId st' = ms_exchangeRunId st"
      using removeCancelledOrder_abs [OF wf single Some] by blast
    have "ao_instrumentId ao = 1"
      by (rule active_level [OF wf single Some]) (metis ActiveOrder.select_convs(2) index_entry_def)
    then show ?thesis
      using rem cancel corr Some True
      by (simp add: refines_command_def processCancel_def spec_cancel_def find_active [OF wf single]
          orderIdFrom_target_def makeEventId_small cancel_report_def event_id_def delete_conv')
  qed
qed

section \<open>The dispatcher\<close>

text \<open>The commands that the sequencer hands over: correlated, for the configured instrument, and either
  a new order that carries its sequence number as order identifier or a cancel with a target.\<close>

definition normalized_command :: "sequenceMessage \<Rightarrow> bool" where
  "normalized_command message \<longleftrightarrow>
     globalSequenceNumber message \<noteq> 0 \<and> clientId message \<noteq> 0 \<and> clientCommandId message \<noteq> None \<and>
     instrumentId message = ic_instrumentId SPY_V1 \<and>
     configurationVersion message = ic_configurationVersion SPY_V1 \<and>
     ((orderType_of message = BUY \<or> orderType_of message = SELL) \<and>
        (tif message = GTC \<or> tif message = IOC) \<and>
        orderId message = orderIdFrom_sequence (globalSequenceNumber message) \<or>
      orderType_of message = CANCEL \<and> orderId message = 0 \<and> targetOrderId message \<noteq> None)"

lemma processMessage_refines:
  assumes wf: "wf_state st" and single: "single_instrument st" and norm: "normalized_command message"
    and fresh: "map_of (activeOrders st) (globalSequenceNumber message) = None"
  shows "refines_command st message (processMessage st message)
    (spec_command (ms_exchangeRunId st) message (abs_book st))"
proof (cases "orderType_of message = CANCEL")
  case True
  then show ?thesis
    using processCancel_refines [OF wf single] norm
    by (auto simp: processMessage_def spec_command_def normalized_command_def SPY_V1_def)
next
  case False
  have nokey: "globalSequenceNumber message \<notin> fst ` set (activeOrders st)"
    using fresh by (simp add: map_of_eq_None_iff)
  have s: "resting_side (orderType_of message)"
    and msg: "instrumentId message = 1" "configurationVersion message = 1"
      "orderId message = globalSequenceNumber message"
    using norm False
    by (auto simp: normalized_command_def resting_side_def SPY_V1_def orderIdFrom_sequence_def)
  have "processMessage st message = processOrder st message (tif message = GTC)"
    using norm False nokey msg(3)
    by (auto simp: processMessage_def processBuyOrder_def processSellOrder_def normalized_command_def)
  moreover obtain c where "clientCommandId message = Some c"
    using norm by (auto simp: normalized_command_def)
  ultimately show ?thesis
    using processOrder_refines [OF wf single s msg(1,2)] False fresh
    by (simp add: spec_command_def msg(3))
qed

end
