(* ===== verification/Matching_Runs.thy ===== *)
theory Matching_Runs
  imports Matching_Handlers
begin

text \<open>
  Runs of the matching state: the states reachable from the initial one by the normalized commands
  in sequence order, the invariant of those states, and the consequences of a single command.
\<close>

section \<open>Reachable states\<close>

text \<open>\<open>reachable runId k st\<close>: the state after the commands with sequence numbers 1 to \<open>k\<close>.\<close>

inductive reachable :: "ExchangeRunId \<Rightarrow> nat \<Rightarrow> MatchingState \<Rightarrow> bool" for runId where
  start: "reachable runId 0 (init_MatchingState runId)"
| step: "reachable runId k st \<Longrightarrow> normalized_command message \<Longrightarrow>
    globalSequenceNumber message = of_nat (Suc k) \<Longrightarrow> Suc k < 2 ^ 64 \<Longrightarrow>
    processCommand st message = Inr (st', batch) \<Longrightarrow> reachable runId (Suc k) st'"

inductive_cases reachable_SucE: "reachable runId (Suc k) st"

definition ids_within :: "nat \<Rightarrow> MatchingState \<Rightarrow> bool" where
  "ids_within k st \<longleftrightarrow> (\<forall>oid. map_of (activeOrders st) oid \<noteq> None \<longrightarrow> unat oid \<le> k)"

definition run_inv :: "ExchangeRunId \<Rightarrow> nat \<Rightarrow> MatchingState \<Rightarrow> bool" where
  "run_inv runId k st \<longleftrightarrow>
     wf_state st \<and> single_instrument st \<and> ms_exchangeRunId st = runId \<and> ids_within k st \<and>
     priority_order BUY (b_bids (abs_book st)) \<and> priority_order SELL (b_asks (abs_book st))"

lemma run_inv_init: "run_inv runId 0 (init_MatchingState runId)"
  by (simp add: run_inv_def wf_state_init)
    (simp add: init_MatchingState_def single_instrument_def side_levels_def ids_within_def abs_book_def
      priority_order_def)

lemma abs_book_ids:
  assumes "run_inv runId k st" and "resting_side s" and "r \<in> set (book_side s (abs_book st))"
  shows "unat (r_orderId r) \<le> k" and "r_quantity r \<noteq> 0"
proof -
  have wf: "wf_state st" using assms(1) by (simp add: run_inv_def)
  then have inv: "book_inv (level_at st) (map_of (activeOrders st)) (nextNode st)"
    by (simp add: wf_state_def)
  obtain p l n where l: "level_at st 1 s p = Some l" and n: "n \<in> set (orders l)" "r = resting_of (p, n)"
    using assms(3) by (auto simp: book_side_abs_book [OF assms(2)] set_abs_book_side [OF wf])
  have "map_of (activeOrders st) (r_orderId r) \<noteq> None"
    using book_inv_index [OF inv l n(1)] n(2) by simp
  then show "unat (r_orderId r) \<le> k"
    using assms(1) by (simp add: run_inv_def ids_within_def)
  show "r_quantity r \<noteq> 0"
    using book_inv_level(2) [OF inv l] n by (auto simp: wf_level_def)
qed

lemma priority_order_filter: "priority_order s rs \<Longrightarrow> priority_order s (without_order oid rs)"
  by (simp add: priority_order_def without_order_def sorted_wrt_filter)

lemma priority_order_spec_order:
  assumes "priority_order BUY (b_bids b)" and "priority_order SELL (b_asks b)"
    and s: "orderType_of message = BUY \<or> orderType_of message = SELL"
    and newest: "\<forall>x \<in> set (b_bids b) \<union> set (b_asks b). r_orderId x < orderId message"
  shows "priority_order BUY (b_bids (fst (spec_order runId message b)))"
    and "priority_order SELL (b_asks (fst (spec_order runId message b)))"
proof -
  obtain fs r queue where spec: "match_queue (acceptable (orderType_of message) (price message)) (quantity message)
      (book_side (other_side (orderType_of message)) b) = (fs, r, queue)"
    by (cases "match_queue (acceptable (orderType_of message) (price message)) (quantity message)
      (book_side (other_side (orderType_of message)) b)")
  obtain k where "map standing queue = drop k (map standing (book_side (other_side (orderType_of message)) b))"
    using match_queue_suffix [OF spec] by blast
  note suffix = priority_order_standing [OF this]
  have enq: "priority_order s' (enqueue s' (own_resting message r) rs)"
    if "priority_order s' rs" "set rs \<subseteq> set (b_bids b) \<union> set (b_asks b)" for s' rs
    using that newest by (intro priority_order_enqueue) (auto simp: own_resting_def)
  show "priority_order BUY (b_bids (fst (spec_order runId message b)))"
    and "priority_order SELL (b_asks (fst (spec_order runId message b)))"
    using s assms(1,2) spec suffix [of BUY] suffix [of SELL] enq
    by (auto simp: spec_order_def Let_def book_side_def set_side_def other_side_def)
qed

lemma priority_order_spec_command:
  assumes "priority_order BUY (b_bids b)" and "priority_order SELL (b_asks b)"
    and "orderType_of message \<in> {BUY, SELL, CANCEL}"
    and "orderType_of message \<noteq> CANCEL \<Longrightarrow>
      \<forall>x \<in> set (b_bids b) \<union> set (b_asks b). r_orderId x < orderId message"
  shows "priority_order BUY (b_bids (fst (spec_command runId message b)))"
    and "priority_order SELL (b_asks (fst (spec_command runId message b)))"
  using assms priority_order_spec_order [OF assms(1,2), of message runId]
  by (auto simp: spec_command_def spec_cancel_def Let_def priority_order_filter split: option.splits)

section \<open>One command\<close>

text \<open>The events of the abstract command carry the identity of the command, numbered from 0.\<close>

lemma eventIds_spec_command:
  "map eventId_of (snd (snd (spec_command runId message b))) =
     map (event_id runId message) [0 ..< length (snd (snd (spec_command runId message b)))]"
  by (auto simp: spec_command_def spec_cancel_def spec_order_def Let_def rejection_def cancel_report_def
      eventId_trade_reports remainder_event_def split: option.splits prod.splits)

lemma make_CommandResultBatch_spec:
  assumes "co_commandSequence correl = globalSequenceNumber message" and "co_exchangeRunId correl = runId"
    and "spec_command runId message b = (b', res, evs)"
  shows "make_CommandResultBatch correl res evs = Inr \<lparr>correlation = correl, batch_result = res, events = evs\<rparr>"
proof -
  have "eventId_of ` set evs \<subseteq> range (event_id runId message)"
    using arg_cong [OF eventIds_spec_command [of runId message b], of set] assms(3) by auto
  then have "\<forall>e \<in> set evs. ev_commandSequence (eventId_of e) = globalSequenceNumber message \<and>
      ev_exchangeRunId (eventId_of e) = runId"
    by (auto simp: event_id_def subset_iff image_iff)
  then show ?thesis
    using assms(1,2) by (simp add: make_CommandResultBatch_def)
qed

definition command_correlation :: "ExchangeRunId \<Rightarrow> sequenceMessage \<Rightarrow> CommandResultCorrelation" where
  "command_correlation runId message =
     \<lparr>co_clientId = clientId message, co_clientCommandId = the (clientCommandId message),
      co_commandSequence = globalSequenceNumber message, co_exchangeRunId = runId\<rparr>"

definition spec_batch :: "ExchangeRunId \<Rightarrow> sequenceMessage \<Rightarrow> Book \<Rightarrow> CommandResultBatch" where
  "spec_batch runId message b =
     \<lparr>correlation = command_correlation runId message,
      batch_result = fst (snd (spec_command runId message b)),
      events = snd (snd (spec_command runId message b))\<rparr>"

lemma processCommand_refines:
  assumes inv: "run_inv runId k st" and norm: "normalized_command message"
    and seq: "globalSequenceNumber message = of_nat (Suc k)" and bound: "Suc k < 2 ^ 64"
  shows "\<exists>st'. processCommand st message = Inr (st', spec_batch runId message (abs_book st)) \<and>
    abs_book st' = fst (spec_command runId message (abs_book st)) \<and> run_inv runId (Suc k) st'"
proof -
  let ?b = "abs_book st" and ?spec = "spec_command runId message (abs_book st)"
  have unat_seq: "unat (globalSequenceNumber message) = Suc k"
    using bound by (simp add: seq unat_of_nat del: of_nat_Suc)
  have wf: "wf_state st" and single: "single_instrument st" and run: "ms_exchangeRunId st = runId"
    and ids: "ids_within k st"
    using inv by (auto simp: run_inv_def)
  have "map_of (activeOrders st) (globalSequenceNumber message) = None"
    using ids unat_seq by (auto simp: ids_within_def)
  then obtain st' where proc: "processMessage st message = Inr (st', snd ?spec)"
    and post: "wf_state st'" "single_instrument st'" "abs_book st' = fst ?spec" "ms_exchangeRunId st' = runId"
    and act: "\<forall>oid. oid \<noteq> orderId message \<longrightarrow> map_of (activeOrders st) oid = None \<longrightarrow>
           map_of (activeOrders st') oid = None"
    using processMessage_refines [OF wf single norm] run by (auto simp: refines_command_def)
  have oid: "orderId message = 0 \<or> orderId message = globalSequenceNumber message"
    and types: "orderType_of message \<in> {BUY, SELL, CANCEL}"
    and new: "orderType_of message \<noteq> CANCEL \<Longrightarrow> orderId message = globalSequenceNumber message"
    using norm by (auto simp: normalized_command_def orderIdFrom_sequence_def)
  have "ids_within (Suc k) st'"
    unfolding ids_within_def
  proof (intro allI impI)
    fix oid' assume "map_of (activeOrders st') oid' \<noteq> None"
    then have "oid' = orderId message \<or> unat oid' \<le> k"
      using act ids by (auto simp: ids_within_def)
    then show "unat oid' \<le> Suc k"
      using oid unat_seq by auto
  qed
  moreover have "priority_order BUY (b_bids (fst ?spec))" "priority_order SELL (b_asks (fst ?spec))"
    using abs_book_ids(1) [OF inv, of BUY] abs_book_ids(1) [OF inv, of SELL] unat_seq new types inv
    by (intro priority_order_spec_command;
        fastforce simp: run_inv_def word_less_nat_alt resting_side_def book_side_def)+
  ultimately have "run_inv runId (Suc k) st'"
    using post by (simp add: run_inv_def)
  moreover have "resultCorrelationFrom message runId = Inr (command_correlation runId message)"
    using norm
    by (auto simp: resultCorrelationFrom_def normalized_command_def Let_def command_correlation_def)
  moreover have "make_CommandResultBatch (command_correlation runId message) (fst (snd ?spec)) (snd (snd ?spec)) =
      Inr (spec_batch runId message ?b)"
    using make_CommandResultBatch_spec [of "command_correlation runId message" message runId ?b]
    by (cases ?spec) (simp add: spec_batch_def command_correlation_def)
  ultimately show ?thesis
    using proc post(3) by (simp add: processCommand_def run prod.case_eq_if)
qed

lemma reachable_run_inv: "reachable runId k st \<Longrightarrow> run_inv runId k st"
proof (induction rule: reachable.induct)
  case (step k st message st' batch)
  then show ?case
    using processCommand_refines [OF step.IH step.hyps(2,3,4)] step.hyps(5) by auto
qed (rule run_inv_init)

end
