(* ===== verification/Matching_Selfcheck.thy ===== *)
theory Matching_Selfcheck
  imports Matching_Runs
begin

text \<open>
  The engine's own self-check \<open>invariantsHold\<close> and its \<open>snapshot\<close> on well-formed states.
\<close>

section \<open>Counting\<close>

lemma distinct_concat_keys:
  assumes "distinct (map fst xs)" and "\<And>k v. (k, v) \<in> set xs \<Longrightarrow> distinct (f k v)"
    and "\<And>k v k' v'. (k, v) \<in> set xs \<Longrightarrow> (k', v') \<in> set xs \<Longrightarrow> k \<noteq> k' \<Longrightarrow> set (f k v) \<inter> set (f k' v') = {}"
  shows "distinct (concat (map (\<lambda>(k, v). f k v) xs))"
  using assms
proof (induction xs)
  case (Cons x xs)
  obtain k v where x: "x = (k, v)" by (cases x)
  have "set (f k v) \<inter> set (f k' v') = {}" if "(k', v') \<in> set xs" for k' v'
  proof (rule Cons.prems(3))
    show "k \<noteq> k'" using Cons.prems(1) that by (auto simp: x image_iff)
  qed (use that in \<open>auto simp: x\<close>)
  moreover have "distinct (concat (map (\<lambda>(k, v). f k v) xs))"
    using Cons.prems by (intro Cons.IH) (auto simp: x)
  ultimately show ?case
    using Cons.prems(2) [of k v] by (auto simp: x)
qed simp

definition side_ids :: "(Price \<times> PriceLevel) list \<Rightarrow> OrderId list" where
  "side_ids ls = concat (map (\<lambda>(p, l). map node_orderId (orders l)) ls)"

lemma all_nodes_ids:
  "map node_orderId (all_nodes st) = concat (map (\<lambda>(i, ib). side_ids (bids ib) @ side_ids (asks ib)) (orderBooks st))"
  by (simp add: all_nodes_def book_nodes_def side_ids_def map_concat o_def case_prod_unfold)

lemma set_side_ids:
  assumes "maps_sorted st" and "map_of (orderBooks st) i = Some ib"
  shows "oid \<in> set (side_ids (side_book s ib)) \<longleftrightarrow>
    (\<exists>p l n. level_at st i s p = Some l \<and> n \<in> set (orders l) \<and> node_orderId n = oid)"
  using assms level_at_in_side_levels [OF assms(1), of _ _ i s]
  by (auto simp: side_ids_def side_levels_def)

lemma distinct_all_ids:
  assumes wf: "wf_state st"
  shows "distinct (map node_orderId (all_nodes st))"
proof -
  have inv: "book_inv (level_at st) (map_of (activeOrders st)) (nextNode st)" and sorted: "maps_sorted st"
    using wf by (auto simp: wf_state_def)
  have keys: "distinct (map fst (orderBooks st))"
    using sorted by (auto simp: maps_sorted_def intro: asc.om_sorted_distinct)
  then have lookup: "(i, ib) \<in> set (orderBooks st) \<longleftrightarrow> map_of (orderBooks st) i = Some ib" for i ib
    by simp
  have side: "distinct (side_ids (side_book s ib))" if ib: "map_of (orderBooks st) i = Some ib" for i ib s
    unfolding side_ids_def
  proof (rule distinct_concat_keys)
    show "distinct (map fst (side_book s ib))"
      using price_order.om_sorted_distinct [OF side_book_sorted [OF map_of_orderBooks_sorted [OF sorted ib]]] .
    have mem: "level_at st i s p = Some l" if "(p, l) \<in> set (side_book s ib)" for p l
      using that level_at_in_side_levels [OF sorted, of p l i s] ib by (simp add: side_levels_def)
    show "distinct (map node_orderId (orders l))" if "(p, l) \<in> set (side_book s ib)" for p l
      using book_inv_level(2) [OF inv mem [OF that]] by (simp add: wf_level_def)
    show "set (map node_orderId (orders l)) \<inter> set (map node_orderId (orders l')) = {}"
      if "(p, l) \<in> set (side_book s ib)" "(p', l') \<in> set (side_book s ib)" "p \<noteq> p'" for p l p' l'
      using that(3) book_inv_unique(3) [OF inv mem [OF that(1)] _ mem [OF that(2)]] by fastforce
  qed
  have sides: "side_book BUY ib = bids ib" "side_book SELL ib = asks ib" for ib
    by (simp_all add: side_book_def)
  have apart: "s = s' \<and> i = i'"
    if "map_of (orderBooks st) i = Some ib" "oid \<in> set (side_ids (side_book s ib))"
      "map_of (orderBooks st) i' = Some ib'" "oid \<in> set (side_ids (side_book s' ib'))" for i ib s i' ib' s' oid
    using that book_inv_unique(1,2) [OF inv] unfolding set_side_ids [OF sorted that(1)] set_side_ids [OF sorted that(3)]
    by metis
  show ?thesis
    unfolding all_nodes_ids
  proof (rule distinct_concat_keys [OF keys])
    fix i ib assume "(i, ib) \<in> set (orderBooks st)"
    then show "distinct (side_ids (bids ib) @ side_ids (asks ib))"
      using side [of i ib BUY] side [of i ib SELL] apart [of i ib _ BUY i ib SELL] by (auto simp: lookup sides)
  next
    fix i ib i' ib' assume "(i, ib) \<in> set (orderBooks st)" "(i', ib') \<in> set (orderBooks st)" "i \<noteq> i'"
    then show "set (side_ids (bids ib) @ side_ids (asks ib)) \<inter> set (side_ids (bids ib') @ side_ids (asks ib')) = {}"
      using apart [of i ib _ _ i' ib'] unfolding lookup
      by (auto simp: sides [symmetric])
  qed
qed

lemma length_all_nodes:
  assumes wf: "wf_state st"
  shows "length (all_nodes st) = length (activeOrders st)"
proof -
  have inv: "book_inv (level_at st) (map_of (activeOrders st)) (nextNode st)" and sorted: "maps_sorted st"
    using wf by (auto simp: wf_state_def)
  have dist: "distinct (map fst (activeOrders st))"
    using sorted by (auto simp: maps_sorted_def intro: asc.om_sorted_distinct)
  have "oid \<in> node_orderId ` set (all_nodes st) \<longleftrightarrow> map_of (activeOrders st) oid \<noteq> None" for oid
  proof
    assume "oid \<in> node_orderId ` set (all_nodes st)"
    then show "map_of (activeOrders st) oid \<noteq> None"
      using set_all_nodes [OF sorted] book_inv_index [OF inv] by fastforce
  next
    assume "map_of (activeOrders st) oid \<noteq> None"
    then obtain ao where "map_of (activeOrders st) oid = Some ao" by auto
    then obtain l where "level_at st (ao_instrumentId ao) (ao_side ao) (ao_price ao) = Some l"
      and "oid \<in> node_orderId ` set (orders l)"
      using inv unfolding book_inv_def index_backed_def by blast
    then show "oid \<in> node_orderId ` set (all_nodes st)"
      using set_all_nodes [OF sorted] by blast
  qed
  then have "set (map node_orderId (all_nodes st)) = set (map fst (activeOrders st))"
    by (auto simp: map_of_eq_None_iff)
  then show ?thesis
    using distinct_card [OF distinct_all_ids [OF wf]] distinct_card [OF dist] by simp
qed

section \<open>The self-check\<close>

lemma foldl_remaining:
  "foldl (\<lambda>total order. total + node_remaining order) a os = a + of_nat (level_sum os)"
  by (induction os arbitrary: a) (simp_all add: algebra_simps)

lemma checkSide_wf:
  assumes wf: "wf_state st" and ib: "map_of (orderBooks st) i = Some ib"
  shows "checkSide st i s (side_book s ib)"
  unfolding checkSide_def list_all_iff
proof (intro ballI, clarify)
  have inv: "book_inv (level_at st) (map_of (activeOrders st)) (nextNode st)" and sorted: "maps_sorted st"
    using wf by (auto simp: wf_state_def)
  fix p l assume "(p, l) \<in> set (side_book s ib)"
  then have l: "level_at st i s p = Some l"
    using level_at_in_side_levels [OF sorted, of p l i s] ib by (simp add: side_levels_def)
  note wfl = book_inv_level(2) [OF inv l]
  have "of_nat (level_sum (orders l)) = totalQuantity l"
    using wfl by (metis wf_level_def of_nat_unat ucast_id)
  moreover have "checkOrder st i s p n" if "n \<in> set (orders l)" for n
    using book_inv_index [OF inv l that] wfl that by (auto simp: checkOrder_def index_entry_def wf_level_def)
  ultimately show "orders l \<noteq> [] \<and> (\<forall>n \<in> set (orders l). checkOrder st i s p n) \<and>
      foldl (\<lambda>total order. total + node_remaining order) 0 (orders l) = totalQuantity l"
    using wfl by (simp add: foldl_remaining wf_level_def)
qed

lemma wf_invariantsHold:
  assumes wf: "wf_state st"
  shows "invariantsHold st"
proof -
  have sorted: "maps_sorted st" and noempty: "no_empty_book st"
    using wf by (auto simp: wf_state_def)
  have "distinct (map fst (orderBooks st))"
    using sorted by (auto simp: maps_sorted_def intro: asc.om_sorted_distinct)
  then have "map_of (orderBooks st) i = Some ib" if "(i, ib) \<in> set (orderBooks st)" for i ib
    using that by simp
  then have "checkSide st i BUY (bids ib) \<and> checkSide st i SELL (asks ib)"
    if "(i, ib) \<in> set (orderBooks st)" for i ib
    using that checkSide_wf [OF wf, of i ib BUY] checkSide_wf [OF wf, of i ib SELL] by (simp add: side_book_def)
  then show ?thesis
    using noempty length_all_nodes [OF wf]
    by (auto simp: invariantsHold_def list_all_iff no_empty_book_def)
qed

section \<open>The snapshot\<close>

text \<open>The resting orders that a snapshot lists for one side, in the order of the snapshot.\<close>

definition snapshot_queue :: "Side \<Rightarrow> MatchingStateSnapshot \<Rightarrow> Resting list" where
  "snapshot_queue side snap =
     concat (map (\<lambda>lv. map (\<lambda>ro. \<lparr>r_price = pls_price lv, r_orderId = ros_orderId ro, r_owner = ros_owner ro,
                                  r_quantity = ros_remainingQuantity ro\<rparr>) (pls_orders lv))
       (filter (\<lambda>lv. pls_side lv = side) (priceLevels snap)))"

lemma snapshotActiveOrders_returns:
  "\<forall>(oid, ao) \<in> set aos. resting_side (ao_side ao) \<Longrightarrow>
     \<exists>snaps. snapshotActiveOrders aos = Inr snaps \<and> map aos_orderId snaps = map fst aos"
  by (induction aos) (auto simp: toDomainSide_resting)

lemma filter_appendLevels:
  "filter (\<lambda>lv. pls_side lv = side) (appendLevels i side' ls) = (if side' = side then appendLevels i side' ls else [])"
  by (auto simp: appendLevels_def filter_map o_def case_prod_unfold)

lemma concat_appendLevels:
  "concat (map (\<lambda>lv. map (\<lambda>ro. \<lparr>r_price = pls_price lv, r_orderId = ros_orderId ro, r_owner = ros_owner ro,
      r_quantity = ros_remainingQuantity ro\<rparr>) (pls_orders lv)) (appendLevels i side ls)) = abs_side ls"
  by (induction ls) (auto simp: appendLevels_def resting_of_def)

lemma single_instrument_books:
  assumes "wf_state st" and "single_instrument st"
  shows "orderBooks st = [] \<or> (\<exists>ib. orderBooks st = [(1, ib)])"
proof -
  have only: "i = 1" if "(i, ib) \<in> set (orderBooks st)" for i ib
  proof (rule ccontr)
    assume "i \<noteq> 1"
    have "distinct (map fst (orderBooks st))"
      using assms(1) by (auto simp: wf_state_def maps_sorted_def intro: asc.om_sorted_distinct)
    then have empty: "side_book s ib = []" for s
      using assms(2) \<open>i \<noteq> 1\<close> that by (auto simp: single_instrument_def side_levels_def split: option.splits)
    have "bids ib = []" "asks ib = []"
      using empty [of BUY] empty [of SELL] by (simp_all add: side_book_def)
    then show False
      using assms(1) that by (auto simp: wf_state_def no_empty_book_def)
  qed
  moreover have "om_sorted (<) (orderBooks st)"
    using assms(1) by (simp add: wf_state_def maps_sorted_def)
  ultimately show ?thesis
    by (cases "orderBooks st"; cases "tl (orderBooks st)"; fastforce)
qed

lemma snapshot_abs_book:
  assumes wf: "wf_state st" and single: "single_instrument st"
  shows "\<exists>snap. snapshot st = Inr snap \<and> mss_exchangeRunId snap = ms_exchangeRunId st \<and>
    snapshot_queue Side_BUY snap = b_bids (abs_book st) \<and> snapshot_queue Side_SELL snap = b_asks (abs_book st) \<and>
    map aos_orderId (mss_activeOrders snap) = map fst (activeOrders st)"
proof -
  have "distinct (map fst (activeOrders st))"
    using wf by (auto simp: wf_state_def maps_sorted_def intro: asc.om_sorted_distinct)
  then have "resting_side (ao_side ao)" if "(oid, ao) \<in> set (activeOrders st)" for oid ao
    using active_level [OF wf single, of oid ao] that by auto
  then obtain snaps where snaps: "snapshotActiveOrders (activeOrders st) = Inr snaps"
    "map aos_orderId snaps = map fst (activeOrders st)"
    using snapshotActiveOrders_returns [of "activeOrders st"] by auto
  show ?thesis
    using single_instrument_books [OF wf single] snaps
    by (auto simp: snapshot_def snapshot_queue_def filter_appendLevels concat_appendLevels abs_book_def
        side_levels_def side_book_def)
qed

end
