(* ===== verification/Matching_Examples.thy ===== *)
theory Matching_Examples
  imports Matching_Runs "HOL-Library.Code_Target_Numeral"
begin

text \<open>
  A concrete run of the engine, evaluated command by command: two sell orders rest at different
  prices, a buy order trades with both and rests its remainder, and its owner cancels it.
\<close>

definition demo_id :: ClientCommandId where
  "demo_id = \<lparr>cc_bytes = 0x61 # replicate 63 0, cc_size = 1\<rparr>"

definition demo_order ::
  "CommandSequence \<Rightarrow> ClientId \<Rightarrow> orderType \<Rightarrow> Price \<Rightarrow> Quantity \<Rightarrow> TimeInForce \<Rightarrow> sequenceMessage" where
  "demo_order n client side p q t = empty_sequenceMessage
     \<lparr>orderId := n, globalSequenceNumber := n, clientId := client, clientCommandId := Some demo_id,
      instrumentId := 1, configurationVersion := 1, price := p, quantity := q,
      orderType_of := side, tif := t\<rparr>"

definition demo_cancel :: "CommandSequence \<Rightarrow> ClientId \<Rightarrow> TargetOrderId \<Rightarrow> sequenceMessage" where
  "demo_cancel n client target = empty_sequenceMessage
     \<lparr>globalSequenceNumber := n, clientId := client, clientCommandId := Some demo_id,
      instrumentId := 1, configurationVersion := 1, targetOrderId := Some target,
      orderType_of := CANCEL\<rparr>"

definition demo_sell1 :: sequenceMessage where "demo_sell1 = demo_order 1 11 SELL 100 5 GTC"
definition demo_sell2 :: sequenceMessage where "demo_sell2 = demo_order 2 12 SELL 101 5 GTC"
definition demo_buy :: sequenceMessage where "demo_buy = demo_order 3 13 BUY 101 12 GTC"
definition demo_ioc :: sequenceMessage where "demo_ioc = demo_order 3 13 BUY 100 7 IOC"
definition demo_huge :: sequenceMessage where "demo_huge = demo_order 3 13 SELL 100 1000000000 GTC"
definition demo_pull :: sequenceMessage where "demo_pull = demo_cancel 4 13 3"

definition demo_bid :: sequenceMessage where "demo_bid = demo_order 2 12 BUY 99 5 GTC"

definition demo_level :: "Quantity \<Rightarrow> nat \<Rightarrow> OrderId \<Rightarrow> ClientId \<Rightarrow> PriceLevel" where
  "demo_level q a oid c =
     \<lparr>totalQuantity = q, orders = [\<lparr>node_addr = a, node_orderId = oid, node_owner = c, node_remaining = q\<rparr>]\<rparr>"

definition demo_active :: "orderType \<Rightarrow> Price \<Rightarrow> Quantity \<Rightarrow> nat \<Rightarrow> ClientId \<Rightarrow> ActiveOrder" where
  "demo_active side p q a c =
     \<lparr>ao_owner = c, ao_instrumentId = 1, ao_side = side, ao_price = p, ao_remaining = q, ao_location = a\<rparr>"

definition demo_state1 :: MatchingState where
  "demo_state1 = \<lparr>ms_exchangeRunId = 7,
     orderBooks = [(1, \<lparr>bids = [], asks = [(100, demo_level 5 0 1 11)]\<rparr>)],
     activeOrders = [(1, demo_active SELL 100 5 0 11)], nextNode = 1\<rparr>"

definition demo_state2 :: MatchingState where
  "demo_state2 = \<lparr>ms_exchangeRunId = 7,
     orderBooks = [(1, \<lparr>bids = [], asks = [(100, demo_level 5 0 1 11), (101, demo_level 5 1 2 12)]\<rparr>)],
     activeOrders = [(1, demo_active SELL 100 5 0 11), (2, demo_active SELL 101 5 1 12)], nextNode = 2\<rparr>"

definition demo_both :: MatchingState where
  "demo_both = \<lparr>ms_exchangeRunId = 7,
     orderBooks = [(1, \<lparr>bids = [(99, demo_level 5 1 2 12)], asks = [(100, demo_level 5 0 1 11)]\<rparr>)],
     activeOrders = [(1, demo_active SELL 100 5 0 11), (2, demo_active BUY 99 5 1 12)], nextNode = 2\<rparr>"

definition demo_state3 :: MatchingState where
  "demo_state3 = \<lparr>ms_exchangeRunId = 7,
     orderBooks = [(1, \<lparr>bids = [(101, demo_level 2 2 3 13)], asks = []\<rparr>)],
     activeOrders = [(3, demo_active BUY 101 2 2 13)], nextNode = 3\<rparr>"

definition demo_batch :: "sequenceMessage \<Rightarrow> ProcessingResult \<Rightarrow> BusinessEvent list \<Rightarrow> CommandResultBatch" where
  "demo_batch m res evs =
     \<lparr>correlation = \<lparr>co_clientId = clientId m, co_clientCommandId = demo_id,
        co_commandSequence = globalSequenceNumber m, co_exchangeRunId = 7\<rparr>,
      batch_result = res, events = evs\<rparr>"

definition demo_rested :: "sequenceMessage \<Rightarrow> u32 \<Rightarrow> Side \<Rightarrow> Quantity \<Rightarrow> BusinessEvent" where
  "demo_rested m idx side q = EvOrderRested
     \<lparr>or_eventId = \<lparr>ev_commandSequence = globalSequenceNumber m, ev_eventIndex = idx, ev_exchangeRunId = 7\<rparr>,
      or_orderId = orderId m, or_clientId = clientId m, or_instrumentId = 1, or_side = side,
      or_price = price m, or_remainingQuantity = q\<rparr>"

definition demo_trade :: "sequenceMessage \<Rightarrow> u32 \<Rightarrow> OrderId \<Rightarrow> ClientId \<Rightarrow> Price \<Rightarrow> Quantity \<Rightarrow> Quantity \<Rightarrow> BusinessEvent" where
  "demo_trade m idx maker owner p q left = EvTrade
     \<lparr>tr_eventId = \<lparr>ev_commandSequence = globalSequenceNumber m, ev_eventIndex = idx, ev_exchangeRunId = 7\<rparr>,
      tr_instrumentId = 1, makerOrderId = maker, makerClientId = owner, takerOrderId = orderId m,
      takerClientId = clientId m, takerSide = Side_BUY, executionPrice = p, executionQuantity = q,
      makerRemainingQuantity = 0, takerRemainingQuantity = left\<rparr>"

definition demo_buy_events :: "BusinessEvent list" where
  "demo_buy_events =
     [demo_trade demo_buy 0 1 11 100 5 7, demo_trade demo_buy 1 2 12 101 5 2, demo_rested demo_buy 2 Side_BUY 2]"

definition demo_ioc_events :: "BusinessEvent list" where
  "demo_ioc_events =
     [demo_trade demo_ioc 0 1 11 100 5 2,
      EvOrderCancelled \<lparr>oc_eventId = \<lparr>ev_commandSequence = 3, ev_eventIndex = 1, ev_exchangeRunId = 7\<rparr>,
        oc_orderId = 3, oc_clientId = 13, oc_instrumentId = 1, cancelledQuantity = 2,
        oc_reason = IOC_REMAINDER\<rparr>]"

definition demo_state_ioc :: MatchingState where
  "demo_state_ioc = \<lparr>ms_exchangeRunId = 7,
     orderBooks = [(1, \<lparr>bids = [], asks = [(101, demo_level 5 1 2 12)]\<rparr>)],
     activeOrders = [(2, demo_active SELL 101 5 1 12)], nextNode = 2\<rparr>"

definition demo_pull_event :: BusinessEvent where
  "demo_pull_event = EvOrderCancelled
     \<lparr>oc_eventId = \<lparr>ev_commandSequence = 4, ev_eventIndex = 0, ev_exchangeRunId = 7\<rparr>,
      oc_orderId = 3, oc_clientId = 13, oc_instrumentId = 1, cancelledQuantity = 2,
      oc_reason = CLIENT_REQUESTED\<rparr>"

definition demo_huge_event :: BusinessEvent where
  "demo_huge_event = EvCommandRejected
     \<lparr>cr_eventId = \<lparr>ev_commandSequence = 3, ev_eventIndex = 0, ev_exchangeRunId = 7\<rparr>,
      cr_commandType = NEW_ORDER, cr_clientId = 13, cr_clientCommandId = demo_id,
      cr_relevantOrderId = Some 3, cr_reason = BOOK_CAPACITY_EXCEEDED\<rparr>"

lemma demo_normalized:
  "normalized_command demo_sell1" "normalized_command demo_sell2" "normalized_command demo_buy"
  "normalized_command demo_ioc" "normalized_command demo_huge" "normalized_command demo_pull"
  "normalized_command demo_bid"
  by code_simp+

lemma demo_step1:
  "processCommand (init_MatchingState 7) demo_sell1 =
     Inr (demo_state1, demo_batch demo_sell1 APPLIED [demo_rested demo_sell1 0 Side_SELL 5])"
  by code_simp

lemma demo_step2:
  "processCommand demo_state1 demo_sell2 =
     Inr (demo_state2, demo_batch demo_sell2 APPLIED [demo_rested demo_sell2 0 Side_SELL 5])"
  by code_simp

lemma demo_step_bid:
  "processCommand demo_state1 demo_bid =
     Inr (demo_both, demo_batch demo_bid APPLIED [demo_rested demo_bid 0 Side_BUY 5])"
  by code_simp

lemma demo_step3:
  "processCommand demo_state2 demo_buy = Inr (demo_state3, demo_batch demo_buy APPLIED demo_buy_events)"
  by code_simp

lemma demo_step_ioc:
  "processCommand demo_state2 demo_ioc = Inr (demo_state_ioc, demo_batch demo_ioc APPLIED demo_ioc_events)"
  by code_simp

lemma demo_step_huge:
  "processCommand demo_state2 demo_huge =
     Inr (demo_state2, demo_batch demo_huge PR_BOOK_CAPACITY_EXCEEDED [demo_huge_event])"
  by code_simp

lemma demo_step4:
  "processCommand demo_state3 demo_pull =
     Inr (\<lparr>ms_exchangeRunId = 7, orderBooks = [], activeOrders = [], nextNode = 3\<rparr>,
          demo_batch demo_pull APPLIED [demo_pull_event])"
  by code_simp

lemma demo_sequence:
  "globalSequenceNumber demo_sell1 = of_nat (Suc 0)" "globalSequenceNumber demo_sell2 = of_nat (Suc 1)"
  "globalSequenceNumber demo_buy = of_nat (Suc 2)" "globalSequenceNumber demo_ioc = of_nat (Suc 2)"
  "globalSequenceNumber demo_huge = of_nat (Suc 2)" "globalSequenceNumber demo_pull = of_nat (Suc 3)"
  "globalSequenceNumber demo_bid = of_nat (Suc 1)"
  by (simp_all add: demo_sell1_def demo_sell2_def demo_buy_def demo_ioc_def demo_huge_def demo_pull_def
      demo_bid_def demo_order_def demo_cancel_def)

lemma demo_reachable:
  "reachable 7 1 demo_state1" "reachable 7 2 demo_state2" "reachable 7 3 demo_state3"
  "reachable 7 2 demo_both"
proof -
  show r1: "reachable 7 1 demo_state1"
    using reachable.step [OF reachable.start demo_normalized(1) demo_sequence(1) _ demo_step1] by simp
  have "reachable 7 (Suc 1) demo_state2"
    by (rule reachable.step [OF r1 demo_normalized(2) demo_sequence(2) _ demo_step2]) simp
  then show r2: "reachable 7 2 demo_state2" by (simp add: numeral_2_eq_2)
  have "reachable 7 (Suc 2) demo_state3"
    by (rule reachable.step [OF r2 demo_normalized(3) demo_sequence(3) _ demo_step3]) simp
  then show "reachable 7 3 demo_state3" by simp
  have "reachable 7 (Suc 1) demo_both"
    by (rule reachable.step [OF r1 demo_normalized(7) demo_sequence(7) _ demo_step_bid]) simp
  then show "reachable 7 2 demo_both" by (simp add: numeral_2_eq_2)
qed

end
