(* ===== verification/Matching_Properties.thy ===== *)
theory Matching_Properties
  imports Matching_Selfcheck Matching_Examples
begin

text \<open>
  The properties of the matching engine, each stated of \<open>processCommand\<close> on the reachable states.
\<close>

section \<open>What a processed command says about the abstract command\<close>

lemma processed_new_order:
  assumes reach: "reachable runId k st" and norm: "normalized_command message"
    and seq: "globalSequenceNumber message = of_nat (Suc k)" and bound: "Suc k < 2 ^ 64"
    and proc: "processCommand st message = Inr (st', batch)"
  shows "run_inv runId k st" and "run_inv runId (Suc k) st'"
    and "spec_command runId message (abs_book st) = (abs_book st', batch_result batch, events batch)"
    and "correlation batch = command_correlation runId message"
  using processCommand_refines [OF reachable_run_inv [OF reach] norm seq bound] proc
    reachable_run_inv [OF reach]
  by (auto simp: spec_batch_def)

lemma applied_order_match:
  assumes "spec_command runId message b = (b', APPLIED, evs)" and "orderType_of message \<noteq> CANCEL"
  obtains fs r queue where
    "match_queue (acceptable (orderType_of message) (price message)) (quantity message)
       (book_side (other_side (orderType_of message)) b) = (fs, r, queue)"
    and "evs = trade_reports runId message 0 (quantity message) fs @
          (if r > 0 then [remainder_event runId message (length fs) r] else [])"
    and "length evs \<le> 4096"
    and "b' = (let b1 = set_side (other_side (orderType_of message)) queue b in
           if tif message = GTC \<and> r > 0
           then set_side (orderType_of message) (enqueue (orderType_of message) (own_resting message r)
                  (book_side (orderType_of message) b1)) b1 else b1)"
proof -
  obtain fs r queue where m: "match_queue (acceptable (orderType_of message) (price message)) (quantity message)
       (book_side (other_side (orderType_of message)) b) = (fs, r, queue)"
    by (cases "match_queue (acceptable (orderType_of message) (price message)) (quantity message)
       (book_side (other_side (orderType_of message)) b)")
  have ok: "\<not> over_capacity message b fs r"
    using assms spec_order_cases(1) [OF m] by (auto simp: spec_command_def)
  then have "length (evs :: BusinessEvent list) \<le> 4096"
    if "evs = trade_reports runId message 0 (quantity message) fs @
      (if r > 0 then [remainder_event runId message (length fs) r] else [])" for evs
    using that by (auto simp: over_capacity_def planned_count_def MAX_EVENTS_PER_COMMAND_def)
  then show ?thesis
    using that [OF m] assms spec_order_cases(2) [OF m ok, of runId] by (simp add: spec_command_def Let_def)
qed

lemma trades_of_remainder: "trades_of (if r > 0 then [remainder_event runId message n r] else []) = []"
  by (simp add: remainder_event_def)

lemma applied_order_trades:
  assumes "evs = trade_reports runId message 0 q fs @
      (if r > 0 then [remainder_event runId message (length fs) r] else [])"
  shows "map makerOrderId (trades_of evs) = map (r_orderId \<circ> fst) fs"
    and "map executionPrice (trades_of evs) = map (r_price \<circ> fst) fs"
    and "map executionQuantity (trades_of evs) = map snd fs"
    and "map makerRemainingQuantity (trades_of evs) = map (\<lambda>(r, t). r_quantity r - t) fs"
    and "length (trades_of evs) = length fs"
proof -
  have evs: "trades_of evs = trades_of (trade_reports runId message 0 q fs)"
    by (simp only: assms trades_of_append trades_of_remainder append_Nil2)
  note maps = trades_of_reports_map [where runId = runId and message = message and fs = fs and q = q and idx = 0]
  show "map makerOrderId (trades_of evs) = map (r_orderId \<circ> fst) fs"
    "map executionPrice (trades_of evs) = map (r_price \<circ> fst) fs"
    "map executionQuantity (trades_of evs) = map snd fs"
    "map makerRemainingQuantity (trades_of evs) = map (\<lambda>(r, t). r_quantity r - t) fs"
    unfolding evs by (rule maps; simp add: trade_report_def)+
  then show "length (trades_of evs) = length fs"
    by (metis length_map)
qed

lemma applied_order_priority:
  assumes m: "match_queue ok q queue = (fs, r, q')" and pos: "\<forall>x \<in> set queue. r_quantity x \<noteq> 0"
    and evs: "evs = trade_reports runId message 0 q fs @
      (if r > 0 then [remainder_event runId message (length fs) r] else [])"
  defines "ts \<equiv> trades_of evs"
  shows "map makerOrderId ts = map r_orderId (take (length ts) queue)"
    and "map executionPrice ts = map r_price (take (length ts) queue)"
    and "\<forall>t \<in> set ts. ok (executionPrice t) \<and> executionQuantity t \<noteq> 0"
    and "\<forall>t \<in> set (butlast ts). makerRemainingQuantity t = 0"
proof -
  note trades = applied_order_trades [OF evs, folded ts_def]
  show "map makerOrderId ts = map r_orderId (take (length ts) queue)"
    "map executionPrice ts = map r_price (take (length ts) queue)"
    using match_queue_makers [OF m] trades by (metis map_map)+
  have "ok (executionPrice (ts ! i)) \<and> executionQuantity (ts ! i) \<noteq> 0" if i: "i < length ts" for i
  proof -
    have "executionPrice (ts ! i) = (r_price \<circ> fst) (fs ! i)" "executionQuantity (ts ! i) = snd (fs ! i)"
      using arg_cong [OF trades(2), of "\<lambda>xs. xs ! i"] arg_cong [OF trades(3), of "\<lambda>xs. xs ! i"] i trades(5)
      by simp_all
    moreover have "(fst (fs ! i), snd (fs ! i)) \<in> set fs"
      using i trades(5) by simp
    ultimately show ?thesis
      using match_queue_fills [OF m _ pos] i by fastforce
  qed
  then show "\<forall>t \<in> set ts. ok (executionPrice t) \<and> executionQuantity t \<noteq> 0"
    unfolding all_set_conv_all_nth by blast
  have "map makerRemainingQuantity (butlast ts) = map (\<lambda>(r, t). r_quantity r - t) (butlast fs)"
    using trades(4) by (simp add: map_butlast)
  moreover have "set (map (\<lambda>(r, t). r_quantity r - t) (butlast fs)) \<subseteq> {0}"
    using match_queue_full [OF m] by auto
  ultimately have "set (map makerRemainingQuantity (butlast ts)) \<subseteq> {0}"
    by simp
  then show "\<forall>t \<in> set (butlast ts). makerRemainingQuantity t = 0"
    by auto
qed

lemma queue_positive:
  assumes "run_inv runId k st"
  shows "\<forall>x \<in> set (book_side (other_side s) (abs_book st)). r_quantity x \<noteq> 0"
  using abs_book_ids(2) [OF assms, of "other_side s"] by (simp add: other_side_def resting_side_def)

section \<open>Properties\<close>

text \<open>C1. In every reachable state the engine accepts the next normalized command: \<open>processCommand\<close>
  returns (no exception, no dangling iterator), its batch is the one of the abstract order book, and so
  are the books it leaves; the state is again reachable, so this goes on for the whole run.\<close>

theorem processCommand_implements_book:
  assumes "reachable runId k st" and "normalized_command message"
    and "globalSequenceNumber message = of_nat (Suc k)" and "Suc k < 2 ^ 64"
  shows "\<exists>st'. processCommand st message = Inr (st', spec_batch runId message (abs_book st)) \<and>
    abs_book st' = fst (spec_command runId message (abs_book st)) \<and> reachable runId (Suc k) st'"
  using processCommand_refines [OF reachable_run_inv [OF assms(1)] assms(2-4)] reachable.step [OF assms]
  by blast

theorem processCommand_implements_book_witness:
  "\<exists>st'. processCommand demo_state2 demo_buy = Inr (st', spec_batch 7 demo_buy (abs_book demo_state2)) \<and>
    abs_book st' = fst (spec_command 7 demo_buy (abs_book demo_state2)) \<and> reachable 7 3 st'"
  using processCommand_implements_book [OF demo_reachable(2) demo_normalized(3) demo_sequence(3)] by simp

text \<open>C2. The engine's self-check \<open>invariantsHold\<close> is true in every reachable state.\<close>

theorem reachable_invariantsHold:
  assumes "reachable runId k st"
  shows "invariantsHold st"
  using reachable_run_inv [OF assms] by (simp add: run_inv_def wf_invariantsHold)

theorem reachable_invariantsHold_witness: "invariantsHold demo_state3"
  using reachable_invariantsHold [OF demo_reachable(3)] .

text \<open>C3. Price-time priority: the trades of a new order take the resting orders of the other side in
  queue order, at the resting order's price, each within the limit and with a positive quantity, and
  every maker except the last is filled completely.\<close>

theorem trades_follow_priority:
  assumes "reachable runId k st" and "normalized_command message"
    and "globalSequenceNumber message = of_nat (Suc k)" and "Suc k < 2 ^ 64"
    and "processCommand st message = Inr (st', batch)"
    and "orderType_of message \<noteq> CANCEL" and "batch_result batch = APPLIED"
  defines "queue \<equiv> book_side (other_side (orderType_of message)) (abs_book st)"
    and "ts \<equiv> trades_of (events batch)"
  shows "map makerOrderId ts = map r_orderId (take (length ts) queue) \<and>
    map executionPrice ts = map r_price (take (length ts) queue) \<and>
    (\<forall>t \<in> set ts. acceptable (orderType_of message) (price message) (executionPrice t) \<and>
      executionQuantity t \<noteq> 0) \<and>
    (\<forall>t \<in> set (butlast ts). makerRemainingQuantity t = 0)"
proof -
  note step = processed_new_order [OF assms(1-5)]
  obtain fs r q' where m: "match_queue (acceptable (orderType_of message) (price message)) (quantity message)
      queue = (fs, r, q')"
    and evs: "events batch = trade_reports runId message 0 (quantity message) fs @
          (if r > 0 then [remainder_event runId message (length fs) r] else [])"
    using applied_order_match [OF _ assms(6)] step(3) assms(7) unfolding queue_def by metis
  show ?thesis
    using applied_order_priority [OF m _ evs] queue_positive [OF step(1)]
    unfolding ts_def queue_def by blast
qed

theorem trades_follow_priority_witness:
  "let ts = trades_of demo_buy_events; queue = b_asks (abs_book demo_state2) in
     length ts = 2 \<and> map makerOrderId ts = map r_orderId (take (length ts) queue)"
  using trades_follow_priority [OF demo_reachable(2) demo_normalized(3) demo_sequence(3) _ demo_step3]
  by (simp add: demo_buy_def demo_order_def demo_batch_def other_side_def book_side_def Let_def)
    (simp add: demo_buy_events_def demo_trade_def demo_rested_def)

text \<open>C4. Conservation of quantity: the executions of an accepted new order and the quantity of its
  terminal event (rested or cancelled remainder) add up to the quantity of the order.\<close>

theorem order_quantity_conserved:
  assumes "reachable runId k st" and "normalized_command message"
    and "globalSequenceNumber message = of_nat (Suc k)" and "Suc k < 2 ^ 64"
    and "processCommand st message = Inr (st', batch)"
    and "orderType_of message \<noteq> CANCEL" and "batch_result batch = APPLIED"
  shows "sum_list (map (\<lambda>t. unat (executionQuantity t)) (trades_of (events batch))) +
    sum_list (map terminal_quantity (events batch)) = unat (quantity message)"
proof -
  note step = processed_new_order [OF assms(1-5)]
  obtain fs r q' where m: "match_queue (acceptable (orderType_of message) (price message)) (quantity message)
      (book_side (other_side (orderType_of message)) (abs_book st)) = (fs, r, q')"
    and evs: "events batch = trade_reports runId message 0 (quantity message) fs @
          (if r > 0 then [remainder_event runId message (length fs) r] else [])"
    using applied_order_match [OF _ assms(6)] step(3) assms(7) by metis
  have "sum_list (map terminal_quantity (events batch)) = unat r"
    by (simp add: evs terminal_quantity_trade_reports remainder_event_def word_gt_0)
  moreover have "map (unat \<circ> executionQuantity) (trades_of (events batch)) = map (\<lambda>(r, t). unat t) fs"
    using arg_cong [OF applied_order_trades(3) [OF evs], of "map unat"] by (simp add: o_def case_prod_unfold)
  ultimately show ?thesis
    using match_queue_conserves [OF m] by (simp add: o_def)
qed

theorem order_quantity_conserved_witness:
  "sum_list (map (\<lambda>t. unat (executionQuantity t)) (trades_of demo_buy_events)) +
    sum_list (map terminal_quantity demo_buy_events) = 12"
  using order_quantity_conserved [OF demo_reachable(2) demo_normalized(3) demo_sequence(3) _ demo_step3]
  by (simp add: demo_buy_def demo_order_def demo_batch_def)

text \<open>C5. The book of a reachable state is never crossed: every bid is below every ask. Both queues are in price-time
  priority: best price first and, at one price, the order with the smaller sequence number first.\<close>

theorem reachable_book_ordered:
  assumes "reachable runId k st"
  shows "(\<forall>b \<in> set (b_bids (abs_book st)). \<forall>a \<in> set (b_asks (abs_book st)). r_price b < r_price a) \<and>
    priority_order BUY (b_bids (abs_book st)) \<and> priority_order SELL (b_asks (abs_book st))"
proof (intro conjI ballI)
  fix b a
  assume in_book: "b \<in> set (b_bids (abs_book st))" "a \<in> set (b_asks (abs_book st))"
  have wf: "wf_state st"
    using reachable_run_inv [OF assms] by (simp add: run_inv_def)
  have "level_at st 1 BUY (r_price b) \<noteq> None" "level_at st 1 SELL (r_price a) \<noteq> None"
    using in_book by (auto simp: abs_book_def set_abs_book_side [OF wf])
  then show "r_price b < r_price a"
    using wf unfolding wf_state_def book_inv_def uncrossed_def by blast
qed (use reachable_run_inv [OF assms] in \<open>simp_all add: run_inv_def\<close>)

theorem reachable_book_ordered_witness:
  "r_price (hd (b_bids (abs_book demo_both))) < r_price (hd (b_asks (abs_book demo_both))) \<and>
   priority_order SELL (b_asks (abs_book demo_both))"
proof -
  have "b_bids (abs_book demo_both) \<noteq> []" "b_asks (abs_book demo_both) \<noteq> []"
    by (simp_all add: abs_book_def demo_both_def side_levels_def side_book_def demo_level_def)
  then show ?thesis
    using reachable_book_ordered [OF demo_reachable(4)] by simp
qed

text \<open>C6. A new order is rejected for book capacity exactly when its trades and terminal event would
  exceed 4096 events, or its remainder would lift its price level above the configured aggregate. A
  rejected order changes nothing: the state is the one before, and the only event is the rejection.\<close>

theorem capacity_rejection:
  assumes "reachable runId k st" and "normalized_command message"
    and "globalSequenceNumber message = of_nat (Suc k)" and "Suc k < 2 ^ 64"
    and "processCommand st message = Inr (st', batch)" and "orderType_of message \<noteq> CANCEL"
    and "match_queue (acceptable (orderType_of message) (price message)) (quantity message)
      (book_side (other_side (orderType_of message)) (abs_book st)) = (fs, r, queue)"
  shows "(batch_result batch = PR_BOOK_CAPACITY_EXCEEDED \<longleftrightarrow>
      length fs + (if r > 0 then 1 else 0) > 4096 \<or>
      tif message = GTC \<and> r > 0 \<and>
        depth_at (price message) (book_side (orderType_of message) (abs_book st)) + unat r
          > unat (maxPriceLevelAggregate SPY_V1)) \<and>
    (batch_result batch \<noteq> APPLIED \<longrightarrow>
      st' = st \<and>
      events batch = [rejection runId message NEW_ORDER (orderId message) BOOK_CAPACITY_EXCEEDED])"
proof -
  note step = processed_new_order [OF assms(1-5)]
  have inv: "wf_state st" "single_instrument st" "ms_exchangeRunId st = runId"
    using step(1) by (auto simp: run_inv_def)
  have msg: "resting_side (orderType_of message)" "instrumentId message = 1" "configurationVersion message = 1"
    using assms(2,6) by (auto simp: normalized_command_def resting_side_def SPY_V1_def)
  obtain c where c: "clientCommandId message = Some c"
    using assms(2) by (auto simp: normalized_command_def)
  have over: "over_capacity message (abs_book st) fs r \<longleftrightarrow>
      length fs + (if r > 0 then 1 else 0) > 4096 \<or>
      tif message = GTC \<and> r > 0 \<and>
        depth_at (price message) (book_side (orderType_of message) (abs_book st)) + unat r
          > unat (maxPriceLevelAggregate SPY_V1)"
    by (simp add: over_capacity_def planned_count_def MAX_EVENTS_PER_COMMAND_def SPY_V1_def)
  show ?thesis
  proof (cases "over_capacity message (abs_book st) fs r")
    case True
    have "st' = st"
      using processOrder_over_capacity [OF inv(1,2) msg c assms(7) True] assms(5,6) msg(1)
      by (auto simp: processCommand_def processMessage_def processBuyOrder_def processSellOrder_def
          resting_side_def result_iff)
    then show ?thesis
      using True step(3) assms(6) spec_order_cases(1) [OF assms(7) True, of runId]
      unfolding over [symmetric] by (simp add: spec_command_def)
  next
    case False
    then show ?thesis
      using step(3) assms(6) spec_order_cases(2) [OF assms(7) False, of runId]
      unfolding over [symmetric] by (simp add: spec_command_def Let_def)
  qed
qed

theorem capacity_rejection_witness:
  "\<exists>fs r queue. match_queue (acceptable SELL 100) 1000000000 (b_bids (abs_book demo_state2)) = (fs, r, queue) \<and>
     depth_at 100 (b_asks (abs_book demo_state2)) + unat r > unat (maxPriceLevelAggregate SPY_V1)"
  using capacity_rejection [OF demo_reachable(2) demo_normalized(5) demo_sequence(5) _ demo_step_huge]
  by (simp add: demo_huge_def demo_order_def demo_batch_def other_side_def book_side_def
      abs_book_def demo_state2_def side_levels_def side_book_def)

text \<open>The events of a command are numbered 0, 1, 2, ... without a gap under the identity of the
  command and the run, and there are at most 4096 of them; the batch carries the correlation of its
  command.\<close>

theorem events_numbered:
  assumes "reachable runId k st" and "normalized_command message"
    and "globalSequenceNumber message = of_nat (Suc k)" and "Suc k < 2 ^ 64"
    and "processCommand st message = Inr (st', batch)"
  shows "map eventId_of (events batch) = map (event_id runId message) [0 ..< length (events batch)] \<and>
    length (events batch) \<le> MAX_EVENTS_PER_COMMAND \<and>
    correlation batch = command_correlation runId message"
proof -
  note step = processed_new_order [OF assms]
  have "length (events batch) \<le> 4096"
  proof (cases "orderType_of message \<noteq> CANCEL \<and> batch_result batch = APPLIED")
    case True
    then show ?thesis
      using step(3) by (metis applied_order_match)
  next
    case False
    moreover have "events batch = snd (snd (spec_command runId message (abs_book st)))"
      and "batch_result batch = fst (snd (spec_command runId message (abs_book st)))"
      using step(3) by simp_all
    ultimately show ?thesis
      by (auto simp: spec_command_def spec_cancel_def spec_order_def Let_def
          split: if_splits option.splits prod.splits)
  qed
  then show ?thesis
    using eventIds_spec_command [of runId message "abs_book st"] step(3,4)
    by (simp add: MAX_EVENTS_PER_COMMAND_def)
qed

theorem events_numbered_witness:
  "map eventId_of demo_buy_events = map (event_id 7 demo_buy) [0, 1, 2]"
  using events_numbered [OF demo_reachable(2) demo_normalized(3) demo_sequence(3) _ demo_step3]
  by (simp add: demo_batch_def) (simp add: demo_buy_events_def numeral_2_eq_2)

text \<open>A cancel of an order that is not active, or of another client's order, is reported as such and
  changes nothing; the owner's cancel removes exactly the target from the book and the index and reports
  its whole remaining quantity.\<close>

theorem cancel_behaviour:
  assumes "reachable runId k st" and "normalized_command message"
    and "globalSequenceNumber message = of_nat (Suc k)" and "Suc k < 2 ^ 64"
    and "processCommand st message = Inr (st', batch)" and "targetOrderId message = Some target"
    and "orderType_of message = CANCEL"
  shows "batch_result batch = APPLIED \<and>
    (case map_of (activeOrders st) target of
       None \<Rightarrow> st' = st \<and> events batch = [rejection runId message CommandType_CANCEL target ORDER_NOT_ACTIVE]
     | Some ao \<Rightarrow>
         if ao_owner ao \<noteq> clientId message
         then st' = st \<and> events batch = [rejection runId message CommandType_CANCEL target NOT_OWNER]
         else map_of (activeOrders st') = (map_of (activeOrders st))(target := None) \<and>
           abs_book st' = \<lparr>b_bids = without_order target (b_bids (abs_book st)),
                           b_asks = without_order target (b_asks (abs_book st))\<rparr> \<and>
           events batch = [cancel_report runId message
             \<lparr>r_price = ao_price ao, r_orderId = target, r_owner = ao_owner ao, r_quantity = ao_remaining ao\<rparr>])"
proof -
  note step = processed_new_order [OF assms(1-5)]
  have inv: "wf_state st" "single_instrument st" "ms_exchangeRunId st = runId"
    using step(1) by (auto simp: run_inv_def)
  have msg: "instrumentId message = 1" "orderId message = 0" "clientId message \<noteq> 0"
      "globalSequenceNumber message \<noteq> 0"
    using assms(2,7) by (auto simp: normalized_command_def SPY_V1_def)
  obtain c where c: "clientCommandId message = Some c"
    using assms(2) by (auto simp: normalized_command_def)
  have spec: "spec_cancel runId message (abs_book st) = (abs_book st', batch_result batch, events batch)"
    using step(3) assms(7) by (simp add: spec_command_def)
  have run: "processCancel st message = Inr (st', batch_result batch, events batch)"
    using assms(5,7)
    by (auto simp: processCommand_def processMessage_def result_iff make_CommandResultBatch_def split: if_splits)
  show ?thesis
  proof (cases "map_of (activeOrders st) target")
    case None
    then show ?thesis
      using run [symmetric] assms(6,7) msg c inv(3)
      by (simp add: processCancel_def orderIdFrom_target_def rejectCancel_spec)
  next
    case (Some ao)
    then show ?thesis
      using run [symmetric] spec [symmetric] assms(6,7) msg c inv(3) removeCancelledOrder_abs [OF inv(1,2) Some]
      by (cases "ao_owner ao = clientId message")
        (auto simp: spec_cancel_def find_active [OF inv(1,2)] processCancel_def orderIdFrom_target_def
          rejectCancel_spec makeEventId_small delete_conv' split: if_splits)
  qed
qed

theorem cancel_behaviour_witness:
  "demo_pull_event = cancel_report 7 demo_pull \<lparr>r_price = 101, r_orderId = 3, r_owner = 13, r_quantity = 2\<rparr>"
  using cancel_behaviour [OF demo_reachable(3) demo_normalized(6) demo_sequence(6) _ demo_step4, of 3]
  by (simp add: demo_pull_def demo_cancel_def demo_state3_def demo_active_def demo_batch_def)

text \<open>When an accepted order is not filled completely, nothing of the other side that it could have
  traded with is left; an immediate-or-cancel order never changes its own side of the book.\<close>

theorem remainder_means_exhausted:
  assumes "reachable runId k st" and "normalized_command message"
    and "globalSequenceNumber message = of_nat (Suc k)" and "Suc k < 2 ^ 64"
    and "processCommand st message = Inr (st', batch)"
    and "orderType_of message \<noteq> CANCEL" and "batch_result batch = APPLIED"
  shows "(sum_list (map terminal_quantity (events batch)) > 0 \<longrightarrow>
      (\<forall>x \<in> set (book_side (other_side (orderType_of message)) (abs_book st')).
         \<not> acceptable (orderType_of message) (price message) (r_price x))) \<and>
    (tif message = IOC \<longrightarrow>
      book_side (orderType_of message) (abs_book st') = book_side (orderType_of message) (abs_book st))"
proof -
  note step = processed_new_order [OF assms(1-5)]
  have s: "orderType_of message = BUY \<or> orderType_of message = SELL"
    using assms(2,6) by (auto simp: normalized_command_def)
  obtain fs r queue where m: "match_queue (acceptable (orderType_of message) (price message)) (quantity message)
      (book_side (other_side (orderType_of message)) (abs_book st)) = (fs, r, queue)"
    and evs: "events batch = trade_reports runId message 0 (quantity message) fs @
          (if r > 0 then [remainder_event runId message (length fs) r] else [])"
    and b': "abs_book st' = (let b1 = set_side (other_side (orderType_of message)) queue (abs_book st) in
           if tif message = GTC \<and> r > 0
           then set_side (orderType_of message) (enqueue (orderType_of message) (own_resting message r)
                  (book_side (orderType_of message) b1)) b1 else b1)"
    using applied_order_match [OF _ assms(6)] step(3) assms(7) by metis
  have total: "sum_list (map terminal_quantity (events batch)) = unat r"
    by (simp add: evs terminal_quantity_trade_reports remainder_event_def word_gt_0)
  have "priority_order (other_side (orderType_of message))
      (book_side (other_side (orderType_of message)) (abs_book st))"
    using step(1) by (simp add: run_inv_def book_side_def other_side_def)
  note left = match_queue_exhausts [OF m _ this _ s]
  have "book_side (other_side (orderType_of message)) (abs_book st') = queue"
    using s by (auto simp: b' Let_def book_side_def set_side_def other_side_def)
  moreover have "tif message = IOC \<Longrightarrow>
      book_side (orderType_of message) (abs_book st') = book_side (orderType_of message) (abs_book st)"
    using s by (auto simp: b' Let_def book_side_def set_side_def other_side_def)
  ultimately show ?thesis
    using left by (auto simp: total unat_gt_0)
qed

theorem remainder_means_exhausted_witness:
  "list_all (\<lambda>x. \<not> acceptable BUY 100 (r_price x)) (b_asks (abs_book demo_state_ioc))"
  using remainder_means_exhausted [OF demo_reachable(2) demo_normalized(4) demo_sequence(4) _ demo_step_ioc]
  by (simp add: demo_ioc_def demo_order_def demo_batch_def other_side_def book_side_def demo_ioc_events_def
      demo_trade_def list_all_iff)

text \<open>A snapshot of a reachable state can always be taken, and it lists every resting order of each
  side in service order and every active order in identifier order.\<close>

lemma snapshot_lists_book:
  assumes "reachable runId k st"
  shows "\<exists>snap. snapshot st = Inr snap \<and> mss_exchangeRunId snap = runId \<and>
    snapshot_queue Side_BUY snap = b_bids (abs_book st) \<and> snapshot_queue Side_SELL snap = b_asks (abs_book st) \<and>
    map aos_orderId (mss_activeOrders snap) = map fst (activeOrders st)"
  using snapshot_abs_book [of st] reachable_run_inv [OF assms] by (simp add: run_inv_def)

lemma snapshot_lists_book_example:
  "\<exists>snap. snapshot demo_state2 = Inr snap \<and> snapshot_queue Side_SELL snap = b_asks (abs_book demo_state2)"
  using snapshot_lists_book [OF demo_reachable(2)] by blast

text \<open>A snapshot determines the future: two reachable states of one run with the same snapshot answer
  the next command with the same batch and again have equal books.\<close>

lemma snapshot_determines_results:
  assumes "reachable runId k st" and "reachable runId k' tt" and "snapshot st = snapshot tt"
    and "normalized_command message" and "globalSequenceNumber message = of_nat (Suc k)"
    and "globalSequenceNumber message = of_nat (Suc k')" and "Suc k < 2 ^ 64" and "Suc k' < 2 ^ 64"
  shows "\<exists>st' tt' batch. processCommand st message = Inr (st', batch) \<and> processCommand tt message = Inr (tt', batch) \<and>
    abs_book st' = abs_book tt'"
proof -
  have "abs_book st = abs_book tt"
    using assms(3) snapshot_abs_book [of st] snapshot_abs_book [of tt] reachable_run_inv [OF assms(1)]
      reachable_run_inv [OF assms(2)] by (auto simp: run_inv_def abs_book_def)
  then show ?thesis
    using processCommand_refines [OF reachable_run_inv [OF assms(1)] assms(4,5,7)]
      processCommand_refines [OF reachable_run_inv [OF assms(2)] assms(4,6,8)] by auto
qed

lemma snapshot_determines_results_example:
  "\<exists>st' tt' batch. processCommand demo_state2 demo_buy = Inr (st', batch) \<and>
     processCommand demo_state2 demo_buy = Inr (tt', batch) \<and> abs_book st' = abs_book tt'"
  using snapshot_determines_results [OF demo_reachable(2) demo_reachable(2) refl demo_normalized(3)
      demo_sequence(3) demo_sequence(3)] by simp

text \<open>No price level of a reachable state holds more than the configured maximum, and its aggregate is
  the exact (not wrapped) sum of its orders.\<close>

theorem level_aggregate_bounded:
  assumes "reachable runId k st" and "level_at st i s p = Some l"
  shows "unat (totalQuantity l) = sum_list (map (\<lambda>n. unat (node_remaining n)) (orders l)) \<and>
    totalQuantity l \<le> maxPriceLevelAggregate SPY_V1 \<and> orders l \<noteq> []"
  using reachable_run_inv [OF assms(1)] assms(2) book_inv_level(2)
  by (fastforce simp: run_inv_def wf_state_def wf_level_def level_sum_def)

theorem level_aggregate_bounded_witness:
  "unat (totalQuantity (demo_level 5 0 1 11)) = 5"
  using level_aggregate_bounded [OF demo_reachable(2), of 1 SELL 100 "demo_level 5 0 1 11"]
  by (simp add: level_at_def demo_state2_def side_book_def) (simp add: demo_level_def)

end
