(* ===== verification/Wire.thy ===== *)
theory Wire
  imports Prelude
begin

unbundle bit_operations_syntax

text \<open>
  \<open>core/storage/src/little_endian.hpp\<close>: reading and writing fixed-width integers in byte buffers,
  with the laws that the frame codecs rely on. A buffer is the list of its bytes; the writers update
  bytes in place, index by index, as the loops of the source do.
\<close>

section \<open>Readers and writers\<close>

definition writeUint16LittleEndian :: "u8 list \<Rightarrow> nat \<Rightarrow> u16 \<Rightarrow> u8 list" where
  "writeUint16LittleEndian bytes offset value =
     fold (\<lambda>index b. b[offset + index := ucast (drop_bit (index * 8) value)]) [0 ..< 2] bytes"

definition writeUint32LittleEndian :: "u8 list \<Rightarrow> nat \<Rightarrow> u32 \<Rightarrow> u8 list" where
  "writeUint32LittleEndian bytes offset value =
     fold (\<lambda>index b. b[offset + index := ucast (drop_bit (index * 8) value)]) [0 ..< 4] bytes"

definition writeUint64LittleEndian :: "u8 list \<Rightarrow> nat \<Rightarrow> u64 \<Rightarrow> u8 list" where
  "writeUint64LittleEndian bytes offset value =
     fold (\<lambda>index b. b[offset + index := ucast (drop_bit (index * 8) value)]) [0 ..< 8] bytes"

definition readUint16LittleEndian :: "u8 list \<Rightarrow> nat \<Rightarrow> u16" where
  "readUint16LittleEndian bytes offset =
     fold (\<lambda>index value. value OR push_bit (index * 8) (ucast (bytes ! (offset + index)))) [0 ..< 2] 0"

definition readUint32LittleEndian :: "u8 list \<Rightarrow> nat \<Rightarrow> u32" where
  "readUint32LittleEndian bytes offset =
     fold (\<lambda>index value. value OR push_bit (index * 8) (ucast (bytes ! (offset + index)))) [0 ..< 4] 0"

definition readUint64LittleEndian :: "u8 list \<Rightarrow> nat \<Rightarrow> u64" where
  "readUint64LittleEndian bytes offset =
     fold (\<lambda>index value. value OR push_bit (index * 8) (ucast (bytes ! (offset + index)))) [0 ..< 8] 0"

text \<open>Copying a block of bytes into a buffer (\<open>std::copy\<close>, \<open>std::transform\<close>).\<close>

definition copy_into :: "u8 list \<Rightarrow> nat \<Rightarrow> u8 list \<Rightarrow> u8 list" where
  "copy_into bytes offset xs = take offset bytes @ xs @ drop (offset + length xs) bytes"

section \<open>Specification\<close>

definition le_bytes :: "nat \<Rightarrow> 'a::len word \<Rightarrow> u8 list" where
  "le_bytes n v = map (\<lambda>index. ucast (drop_bit (index * 8) v)) [0 ..< n]"

fun le_value :: "u8 list \<Rightarrow> 'a::len word" where
  "le_value [] = 0"
| "le_value (x # xs) = ucast x OR push_bit 8 (le_value xs)"

lemma length_le_bytes [simp]: "length (le_bytes n v) = n"
  by (simp add: le_bytes_def)

lemma bit_le_value:
  "bit (le_value xs :: 'a::len word) j \<longleftrightarrow>
     j < LENGTH('a) \<and> j div 8 < length xs \<and> bit (xs ! (j div 8)) (j mod 8)"
proof (induction xs arbitrary: j)
  case (Cons x xs)
  show ?case
  proof (cases "j < 8")
    case True
    then show ?thesis
      by (auto simp: bit_or_iff bit_push_bit_iff bit_ucast_iff)
  next
    case False
    then have "j div 8 = Suc ((j - 8) div 8)" "(j - 8) mod 8 = j mod 8"
      by (auto simp: le_div_geq le_mod_geq)
    moreover have "\<not> bit x j"
      using False bit_imp_le_length [of x j] by auto
    ultimately show ?thesis
      using False Cons.IH [of "j - 8"] by (auto simp: bit_or_iff bit_push_bit_iff bit_ucast_iff)
  qed
qed simp

lemma bit_le_bytes:
  "i < n \<Longrightarrow> bit (le_bytes n v ! i) j \<longleftrightarrow> j < 8 \<and> bit v (i * 8 + j)"
  by (auto simp: le_bytes_def bit_ucast_iff bit_drop_bit_eq)

lemma le_value_le_bytes:
  "8 * n = LENGTH('a) \<Longrightarrow> le_value (le_bytes n v) = (v :: 'a::len word)"
  by (rule bit_eqI) (auto simp: bit_le_value bit_le_bytes less_mult_imp_div_less mult.commute)

lemma le_bytes_le_value:
  "8 * n = LENGTH('a) \<Longrightarrow> length xs = n \<Longrightarrow> le_bytes n (le_value xs :: 'a::len word) = xs"
proof (rule nth_equalityI)
  fix i assume "8 * n = LENGTH('a)" "length xs = n" "i < length (le_bytes n (le_value xs :: 'a word))"
  then show "le_bytes n (le_value xs :: 'a word) ! i = xs ! i"
    by (intro bit_eqI) (auto simp: bit_le_bytes bit_le_value dest: bit_imp_le_length)
qed simp

lemma le_value_inject:
  "8 * length xs \<le> LENGTH('a) \<Longrightarrow> length xs = length ys \<Longrightarrow>
     (le_value xs :: 'a::len word) = le_value ys \<longleftrightarrow> xs = ys"
proof
  assume len: "8 * length xs \<le> LENGTH('a)" "length xs = length ys"
    and eq: "(le_value xs :: 'a word) = le_value ys"
  have "bit (xs ! i) j = bit (ys ! i) j" if "i < length xs" "j < 8" for i j
    using arg_cong [OF eq, of "\<lambda>w. bit w (i * 8 + j)"] that len by (auto simp: bit_le_value)
  then show "xs = ys"
    using len by (intro nth_equalityI bit_eqI) auto
qed simp

section \<open>The loops compute the specification\<close>

lemma read_loop:
  assumes "offset + n \<le> length bytes" and "k \<le> n"
  shows "fold (\<lambda>index value. value OR push_bit (index * 8) (ucast (bytes ! (offset + index)))) [k ..< n] a =
    a OR push_bit (k * 8) (le_value (take (n - k) (drop (offset + k) bytes)) :: 'a::len word)"
  using assms(2)
proof (induction "n - k" arbitrary: k a)
  case (Suc m)
  then have k: "k < n" by simp
  have "take (n - k) (drop (offset + k) bytes) =
      bytes ! (offset + k) # take (n - Suc k) (drop (offset + Suc k) bytes)"
    using k assms(1) by (simp add: Cons_nth_drop_Suc [symmetric] take_Cons' Suc_diff_Suc)
  then show ?case
    using Suc k
    by (simp add: upt_conv_Cons push_bit_or or.assoc push_bit_push_bit add.commute)
qed simp

lemma readUint_le_value [bytes_simps]:
  "offset + 2 \<le> length bytes \<Longrightarrow> readUint16LittleEndian bytes offset = le_value (take 2 (drop offset bytes))"
  "offset + 4 \<le> length bytes \<Longrightarrow> readUint32LittleEndian bytes offset = le_value (take 4 (drop offset bytes))"
  "offset + 8 \<le> length bytes \<Longrightarrow> readUint64LittleEndian bytes offset = le_value (take 8 (drop offset bytes))"
  using read_loop [of offset 2 bytes 0 "0 :: u16"] read_loop [of offset 4 bytes 0 "0 :: u32"]
    read_loop [of offset 8 bytes 0 "0 :: u64"]
  by (simp_all add: readUint16LittleEndian_def readUint32LittleEndian_def readUint64LittleEndian_def)

lemma slice_read:
  "offset + 2 \<le> length bytes \<Longrightarrow> take 2 (drop offset bytes) = le_bytes 2 (readUint16LittleEndian bytes offset)"
  "offset + 4 \<le> length bytes \<Longrightarrow> take 4 (drop offset bytes) = le_bytes 4 (readUint32LittleEndian bytes offset)"
  "offset + 8 \<le> length bytes \<Longrightarrow> take 8 (drop offset bytes) = le_bytes 8 (readUint64LittleEndian bytes offset)"
  by (simp_all add: readUint_le_value le_bytes_le_value)

lemma read_slice:
  "offset + 2 \<le> length bytes \<Longrightarrow> take 2 (drop offset bytes) = le_bytes 2 v16 \<Longrightarrow>
     readUint16LittleEndian bytes offset = v16"
  "offset + 4 \<le> length bytes \<Longrightarrow> take 4 (drop offset bytes) = le_bytes 4 v32 \<Longrightarrow>
     readUint32LittleEndian bytes offset = v32"
  "offset + 8 \<le> length bytes \<Longrightarrow> take 8 (drop offset bytes) = le_bytes 8 v64 \<Longrightarrow>
     readUint64LittleEndian bytes offset = v64"
  by (simp_all add: readUint_le_value le_value_le_bytes)

lemma write_loop:
  assumes "offset + n \<le> length bytes"
  shows "fold (\<lambda>index b. b[offset + index := f index]) [0 ..< n] bytes =
    copy_into bytes offset (map f [0 ..< n])"
  using assms
proof (induction n)
  case (Suc n)
  have "(take offset bytes @ map f [0 ..< n] @ drop (offset + n) bytes)[offset + n := f n] =
      take offset bytes @ map f [0 ..< n] @ f n # drop (Suc (offset + n)) bytes"
    using Suc.prems by (simp add: list_update_append Cons_nth_drop_Suc [symmetric])
  then show ?case
    using Suc by (simp add: copy_into_def)
qed (simp add: copy_into_def)

lemma writeUint_copy_into [bytes_simps]:
  "offset + 2 \<le> length bytes \<Longrightarrow> writeUint16LittleEndian bytes offset v16 = copy_into bytes offset (le_bytes 2 v16)"
  "offset + 4 \<le> length bytes \<Longrightarrow> writeUint32LittleEndian bytes offset v32 = copy_into bytes offset (le_bytes 4 v32)"
  "offset + 8 \<le> length bytes \<Longrightarrow> writeUint64LittleEndian bytes offset v64 = copy_into bytes offset (le_bytes 8 v64)"
  by (simp_all add: writeUint16LittleEndian_def writeUint32LittleEndian_def writeUint64LittleEndian_def
      write_loop le_bytes_def)

lemma length_copy_into [simp]:
  "offset + length xs \<le> length bytes \<Longrightarrow> length (copy_into bytes offset xs) = length bytes"
  by (simp add: copy_into_def)

text \<open>Writing a field behind a finished prefix extends the prefix: a frame written field by field in
  offset order is the concatenation of its fields.\<close>

lemma copy_into_prefix [bytes_simps]:
  "offset = length pre \<Longrightarrow> copy_into (pre @ rest) offset xs = pre @ xs @ drop (length xs) rest"
  by (simp add: copy_into_def)

lemma copy_into_zero [bytes_simps]:
  "length xs \<le> n \<Longrightarrow> copy_into (replicate n 0) 0 xs = xs @ replicate (n - length xs) 0"
  by (simp add: copy_into_def)

lemma copy_into_fresh [bytes_simps]:
  "offset = length pre \<Longrightarrow> length xs \<le> n \<Longrightarrow>
     copy_into (pre @ replicate n 0) offset xs = (pre @ xs) @ replicate (n - length xs) 0"
  by (simp add: copy_into_def)

lemma list_update_fresh:
  "offset = length pre \<Longrightarrow> 0 < n \<Longrightarrow> (pre @ replicate n 0)[offset := b] = (pre @ [b]) @ replicate (n - 1) 0"
  by (cases n) (simp_all add: list_update_append)

lemma slice_join [bytes_simps]: "j = n + k \<Longrightarrow> take n (drop k xs) @ drop j xs = drop k xs"
  by (metis add.commute append_take_drop_id drop_drop)

lemma slice_join_first [bytes_simps]: "take n xs @ drop n xs = xs"
  by simp

section \<open>Codecs\<close>

text \<open>What every codec of the journal and of the catalog promises for the values it is meant for: an
  encoded value decodes to itself, and whatever decodes is the one encoding of such a value.\<close>

locale frame_codec =
  fixes encode :: "'c \<Rightarrow> 'e + u8 list" and decode :: "u8 list \<Rightarrow> 'e + 'c" and wf :: "'c \<Rightarrow> bool"
  assumes decode_encode: "wf c \<Longrightarrow> encode c = Inr f \<Longrightarrow> decode f = Inr c"
    and encode_decode: "decode f = Inr c \<Longrightarrow> wf c \<and> encode c = Inr f"
begin

lemma decode_iff: "decode f = Inr c \<longleftrightarrow> wf c \<and> encode c = Inr f"
  using decode_encode encode_decode by blast

lemma encode_inject: "wf c \<Longrightarrow> wf d \<Longrightarrow> encode c = Inr f \<Longrightarrow> encode d = Inr f \<Longrightarrow> c = d"
  using decode_encode by (metis sum.inject(2))

lemma decode_inject: "decode f = Inr c \<Longrightarrow> decode g = Inr c \<Longrightarrow> f = g"
  using encode_decode by (metis sum.inject(2))

end

end
