(* ===== verification/Crc32c.thy ===== *)
theory Crc32c
  imports Wire
begin

text \<open>
  \<open>core/storage/src/crc32c.cpp\<close>: the bitwise CRC-32C accumulator, and what it detects: two inputs
  that differ only inside a window of four consecutive bytes never have the same checksum.
\<close>

section \<open>The accumulator\<close>

definition REFLECTED_CASTAGNOLI_POLYNOMIAL :: u32 where
  "REFLECTED_CASTAGNOLI_POLYNOMIAL = 0x82F63B78"

definition FINAL_XOR :: u32 where
  "FINAL_XOR = 0xFFFFFFFF"

record Crc32cAccumulator =
  crc_state :: u32

definition init_Crc32cAccumulator :: Crc32cAccumulator where
  "init_Crc32cAccumulator = \<lparr>crc_state = 0xFFFFFFFF\<rparr>"

definition crc_bit :: "u32 \<Rightarrow> u32" where
  "crc_bit s =
     (let lowBitMask = 0 - (s AND 1)
      in drop_bit 1 s XOR (REFLECTED_CASTAGNOLI_POLYNOMIAL AND lowBitMask))"

definition crc_byte :: "u8 \<Rightarrow> u32 \<Rightarrow> u32" where
  "crc_byte byte s = (crc_bit ^^ 8) (s XOR ucast byte)"

definition crc_update :: "Crc32cAccumulator \<Rightarrow> u8 list \<Rightarrow> Crc32cAccumulator" where
  "crc_update acc bytes = acc\<lparr>crc_state := fold crc_byte bytes (crc_state acc)\<rparr>"

definition crc_checksum :: "Crc32cAccumulator \<Rightarrow> u32" where
  "crc_checksum acc = crc_state acc XOR FINAL_XOR"

section \<open>One bit step is linear and injective\<close>

lemma low_bit_mask: "0 - (s AND 1 :: u32) = (if bit s 0 then - 1 else 0)"
  by (simp add: and_one_eq mod_2_eq_odd bit_0)

lemma crc_bit_alt:
  "crc_bit s = drop_bit 1 s XOR (if bit s 0 then REFLECTED_CASTAGNOLI_POLYNOMIAL else 0)"
  unfolding crc_bit_def low_bit_mask Let_def by simp

lemma crc_bit_xor: "crc_bit (s XOR t) = crc_bit s XOR crc_bit t"
  by (auto simp: crc_bit_alt bit_xor_iff drop_bit_xor intro!: bit_eqI)

lemma crc_bit_zero: "crc_bit s = 0 \<longleftrightarrow> s = 0"
proof
  assume zero: "crc_bit s = 0"
  have "bit REFLECTED_CASTAGNOLI_POLYNOMIAL 31"
    by (simp add: REFLECTED_CASTAGNOLI_POLYNOMIAL_def)
  moreover have "\<not> bit s 32"
    by (auto dest: bit_imp_le_length)
  ultimately have "bit (crc_bit s) 31 = bit s 0"
    by (simp add: crc_bit_alt bit_xor_iff bit_drop_bit_eq)
  then have low: "\<not> bit s 0" using zero by simp
  then have "drop_bit 1 s = 0" using zero by (simp add: crc_bit_alt)
  moreover have "bit (drop_bit 1 s) j = bit s (Suc j)" for j
    by (simp add: bit_drop_bit_eq)
  ultimately have "\<not> bit s j" for j
    using low by (cases j) simp_all
  then show "s = 0"
    by (intro bit_eqI) simp
qed (simp add: crc_bit_alt)

lemma crc_bits_xor: "(crc_bit ^^ k) (s XOR t) = (crc_bit ^^ k) s XOR (crc_bit ^^ k) t"
  by (induction k) (simp_all add: crc_bit_xor)

lemma crc_bits_zero: "(crc_bit ^^ k) s = 0 \<longleftrightarrow> s = 0"
  by (induction k) (simp_all add: crc_bit_zero)

lemma xor_cancel: "s XOR u = t XOR u \<longleftrightarrow> s = (t :: u32)"
proof
  assume "s XOR u = t XOR u"
  from arg_cong [OF this, of "\<lambda>w. w XOR u"] show "s = t"
    by (simp add: xor.assoc)
qed simp

lemma xor_zero_iff: "(s XOR t = 0) \<longleftrightarrow> s = (t :: u32)"
  using xor_cancel [of s t t] by simp

lemma crc_bits_inject: "(crc_bit ^^ k) s = (crc_bit ^^ k) t \<longleftrightarrow> s = t"
  by (metis crc_bits_xor crc_bits_zero xor_zero_iff)

lemma crc_bits_push:
  assumes "\<And>j. 32 - k \<le> j \<Longrightarrow> \<not> bit y j"
  shows "(crc_bit ^^ k) (push_bit k y) = (y :: u32)"
  using assms
proof (induction k arbitrary: y)
  case (Suc k)
  have "drop_bit 1 (push_bit (Suc k) y) = push_bit k y"
  proof (rule bit_eqI)
    fix n assume "possible_bit TYPE(32 word) n"
    then have "n < 32" by simp
    then show "bit (drop_bit 1 (push_bit (Suc k) y)) n = bit (push_bit k y) n"
      using Suc.prems [of "n - k"]
      by (cases "n = 31") (auto simp: bit_drop_bit_eq bit_push_bit_iff simp del: push_bit_Suc)
  qed
  then have "crc_bit (push_bit (Suc k) y) = push_bit k y"
    by (simp add: crc_bit_alt bit_push_bit_iff del: push_bit_Suc)
  moreover have "(crc_bit ^^ k) (push_bit k y) = y"
    using Suc.prems by (intro Suc.IH) auto
  ultimately show ?case
    by (simp add: funpow_swap1 del: push_bit_Suc)
qed simp

section \<open>Windows of four bytes\<close>

lemma le_value_Cons_xor: "le_value (x # xs) = (ucast x XOR push_bit 8 (le_value xs) :: u32)"
proof (rule bit_eqI)
  fix n
  have "\<not> bit x n" if "8 \<le> n"
    using that bit_imp_le_length [of x n] by auto
  then show "bit (le_value (x # xs) :: u32) n = bit (ucast x XOR push_bit 8 (le_value xs) :: u32) n"
    by (cases "n < 8") (auto simp: bit_or_iff bit_xor_iff bit_push_bit_iff bit_ucast_iff)
qed

lemma crc_window:
  "length xs \<le> 4 \<Longrightarrow> fold crc_byte xs s = (crc_bit ^^ (8 * length xs)) (s XOR le_value xs)"
proof (induction xs arbitrary: s)
  case (Cons x xs)
  have push: "(crc_bit ^^ 8) (push_bit 8 (le_value xs)) = (le_value xs :: u32)"
    using Cons.prems by (intro crc_bits_push) (auto simp: bit_le_value)
  have "crc_byte x s XOR le_value xs = (crc_bit ^^ 8) (s XOR ucast x) XOR (crc_bit ^^ 8) (push_bit 8 (le_value xs))"
    unfolding push by (simp only: crc_byte_def)
  also have "\<dots> = (crc_bit ^^ 8) (s XOR le_value (x # xs))"
    by (simp only: crc_bits_xor [symmetric] le_value_Cons_xor xor.assoc)
  finally have "(crc_bit ^^ (8 * length xs)) (crc_byte x s XOR le_value xs) =
      (crc_bit ^^ (8 * length xs + 8)) (s XOR le_value (x # xs))"
    by (simp only: funpow_add o_def)
  then show ?case
    using Cons by (simp add: add.commute)
qed simp

lemma fold_crc_byte_inject: "fold crc_byte xs s = fold crc_byte xs t \<longleftrightarrow> s = t"
proof (induction xs arbitrary: s t)
  case (Cons x xs)
  then show ?case
    by (simp add: crc_byte_def crc_bits_inject xor_cancel del: funpow.simps)
qed simp

text \<open>Two inputs that agree outside a window of at most four bytes have equal checksums only if they
  agree inside the window.\<close>

lemma fold_crc_byte_window:
  assumes "length xs \<le> 4" and "length ys = length xs"
  shows "fold crc_byte (pre @ xs @ post) s = fold crc_byte (pre @ ys @ post) s \<longleftrightarrow> xs = ys"
proof -
  have "8 * length xs \<le> LENGTH(32)" using assms(1) by simp
  then have "(le_value xs :: u32) = le_value ys \<longleftrightarrow> xs = ys"
    using assms(2) by (intro le_value_inject) simp_all
  then have "a XOR le_value xs = a XOR le_value ys \<longleftrightarrow> xs = ys" for a :: u32
    unfolding xor.commute [of a] xor_cancel .
  moreover have "length ys \<le> 4" using assms by simp
  ultimately show ?thesis
    unfolding fold_append o_apply fold_crc_byte_inject crc_window [OF assms(1)]
    by (simp only: crc_window assms(2) crc_bits_inject)
qed

end
