(* ===== verification/Journal_Envelope.thy ===== *)
theory Journal_Envelope
  imports Crc32c Domain
begin

text \<open>
  \<open>core/storage/src/journal_v1_envelope.hpp\<close> and the envelope part of
  \<open>core/storage/src/journal_command_codec.cpp\<close>: the layout of a journal command frame, its checksum
  and the validation of the envelope. A function that returns an error code and fills an output
  parameter is a sum: \<open>Inl\<close> the error, \<open>Inr\<close> the output. Allocation always succeeds.
\<close>

named_theorems layout \<open>offsets and sizes of the journal format\<close>

section \<open>Layout\<close>

datatype JournalCommandCodecError =
    NONE | TRUNCATED_INPUT | FRAME_TOO_LARGE | TRAILING_BYTES | INVALID_MAGIC
  | UNSUPPORTED_FORMAT_VERSION | UNSUPPORTED_RECORD_TYPE | INVALID_TOTAL_LENGTH
  | ZERO_EXCHANGE_RUN_ID | ZERO_COMMAND_SEQUENCE | INVALID_PAYLOAD_LENGTH | CHECKSUM_MISMATCH
  | UNSUPPORTED_BEHAVIORAL_RULES_VERSION | ZERO_CONFIGURATION_VERSION | ZERO_CLIENT_ID
  | ZERO_INSTRUMENT_ID | INVALID_CLIENT_COMMAND_ID | UNSUPPORTED_SIDE | UNSUPPORTED_TIME_IN_FORCE
  | ZERO_PRICE | ZERO_QUANTITY | ZERO_TARGET_ORDER_ID | ALLOCATION_FAILURE

definition JOURNAL_V1_MAGIC :: "u8 list" where
  "JOURNAL_V1_MAGIC = [0x46, 0x58, 0x4A, 0x52]"

definition JOURNAL_V1_FORMAT_VERSION :: u16 where
  [layout]: "JOURNAL_V1_FORMAT_VERSION = 1"

definition JOURNAL_V1_FORMAT_VERSION_OFFSET :: nat where
  [layout]: "JOURNAL_V1_FORMAT_VERSION_OFFSET = 4"

definition JOURNAL_V1_RECORD_TYPE_OFFSET :: nat where
  [layout]: "JOURNAL_V1_RECORD_TYPE_OFFSET = 6"

definition JOURNAL_V1_TOTAL_LENGTH_OFFSET :: nat where
  [layout]: "JOURNAL_V1_TOTAL_LENGTH_OFFSET = 8"

definition JOURNAL_V1_EXCHANGE_RUN_ID_OFFSET :: nat where
  [layout]: "JOURNAL_V1_EXCHANGE_RUN_ID_OFFSET = 12"

definition JOURNAL_V1_COMMAND_SEQUENCE_OFFSET :: nat where
  [layout]: "JOURNAL_V1_COMMAND_SEQUENCE_OFFSET = 20"

definition JOURNAL_V1_PAYLOAD_LENGTH_OFFSET :: nat where
  [layout]: "JOURNAL_V1_PAYLOAD_LENGTH_OFFSET = 28"

definition JOURNAL_V1_CHECKSUM_OFFSET :: nat where
  [layout]: "JOURNAL_V1_CHECKSUM_OFFSET = 32"

definition JOURNAL_V1_ENVELOPE_SIZE :: nat where
  [layout]: "JOURNAL_V1_ENVELOPE_SIZE = 36"

definition JOURNAL_V1_PAYLOAD_OFFSET :: nat where
  [layout]: "JOURNAL_V1_PAYLOAD_OFFSET = JOURNAL_V1_ENVELOPE_SIZE"

definition JOURNAL_V1_NEW_ORDER_RECORD_TYPE :: u16 where
  [layout]: "JOURNAL_V1_NEW_ORDER_RECORD_TYPE = 2"

definition JOURNAL_V1_CANCEL_RECORD_TYPE :: u16 where
  [layout]: "JOURNAL_V1_CANCEL_RECORD_TYPE = 3"

definition JOURNAL_V1_COMMAND_MAX_FRAME_SIZE :: nat where
  [layout]: "JOURNAL_V1_COMMAND_MAX_FRAME_SIZE = 256"

definition JOURNAL_V1_NEW_ORDER_PAYLOAD_SIZE_WITHOUT_CLIENT_COMMAND_ID :: nat where
  [layout]: "JOURNAL_V1_NEW_ORDER_PAYLOAD_SIZE_WITHOUT_CLIENT_COMMAND_ID = 43"

definition JOURNAL_V1_CANCEL_PAYLOAD_SIZE_WITHOUT_CLIENT_COMMAND_ID :: nat where
  [layout]: "JOURNAL_V1_CANCEL_PAYLOAD_SIZE_WITHOUT_CLIENT_COMMAND_ID = 33"

definition JOURNAL_V1_CLIENT_COMMAND_ID_MIN_LENGTH :: nat where
  [layout]: "JOURNAL_V1_CLIENT_COMMAND_ID_MIN_LENGTH = 1"

definition JOURNAL_V1_CLIENT_COMMAND_ID_MAX_LENGTH :: nat where
  [layout]: "JOURNAL_V1_CLIENT_COMMAND_ID_MAX_LENGTH = 64"

record JournalV1CommandEnvelope =
  env_recordType :: u16
  env_totalLength :: u32
  env_exchangeRunId :: u64
  env_commandSequence :: u64
  env_payloadLength :: u32

section \<open>Checksum and envelope validation\<close>

definition journalV1Checksum :: "u8 list \<Rightarrow> u32" where
  "journalV1Checksum frame =
     crc_checksum (crc_update (crc_update init_Crc32cAccumulator (take JOURNAL_V1_CHECKSUM_OFFSET frame))
       (drop JOURNAL_V1_PAYLOAD_OFFSET frame))"

definition validateJournalV1CommandEnvelope ::
  "u8 list \<Rightarrow> u16 \<Rightarrow> bool \<Rightarrow> JournalCommandCodecError + JournalV1CommandEnvelope" where
  "validateJournalV1CommandEnvelope input expectedRecordType requireCompleteFrame =
     (if length input < JOURNAL_V1_ENVELOPE_SIZE then Inl TRUNCATED_INPUT
      else if length input > JOURNAL_V1_COMMAND_MAX_FRAME_SIZE then Inl FRAME_TOO_LARGE
      else if take (length JOURNAL_V1_MAGIC) input \<noteq> JOURNAL_V1_MAGIC then Inl INVALID_MAGIC
      else if readUint16LittleEndian input JOURNAL_V1_FORMAT_VERSION_OFFSET \<noteq> JOURNAL_V1_FORMAT_VERSION
      then Inl UNSUPPORTED_FORMAT_VERSION
      else
        let recordType = readUint16LittleEndian input JOURNAL_V1_RECORD_TYPE_OFFSET;
            supportedRecordType =
              (recordType = JOURNAL_V1_NEW_ORDER_RECORD_TYPE \<or> recordType = JOURNAL_V1_CANCEL_RECORD_TYPE)
        in
        if \<not> supportedRecordType \<or> (expectedRecordType \<noteq> 0 \<and> recordType \<noteq> expectedRecordType)
        then Inl UNSUPPORTED_RECORD_TYPE
        else
        let totalLength = readUint32LittleEndian input JOURNAL_V1_TOTAL_LENGTH_OFFSET in
        if unat totalLength < JOURNAL_V1_ENVELOPE_SIZE then Inl INVALID_TOTAL_LENGTH
        else if unat totalLength > JOURNAL_V1_COMMAND_MAX_FRAME_SIZE then Inl FRAME_TOO_LARGE
        else if requireCompleteFrame \<and> length input < unat totalLength then Inl TRUNCATED_INPUT
        else if requireCompleteFrame \<and> length input > unat totalLength then Inl TRAILING_BYTES
        else
        let exchangeRunId = readUint64LittleEndian input JOURNAL_V1_EXCHANGE_RUN_ID_OFFSET in
        if exchangeRunId = 0 then Inl ZERO_EXCHANGE_RUN_ID
        else
        let commandSequence = readUint64LittleEndian input JOURNAL_V1_COMMAND_SEQUENCE_OFFSET in
        if commandSequence = 0 then Inl ZERO_COMMAND_SEQUENCE
        else
        let payloadLength = readUint32LittleEndian input JOURNAL_V1_PAYLOAD_LENGTH_OFFSET;
            derivedTotalLength = of_nat JOURNAL_V1_ENVELOPE_SIZE + (ucast payloadLength :: u64)
        in
        if derivedTotalLength \<noteq> ucast totalLength then Inl INVALID_PAYLOAD_LENGTH
        else if requireCompleteFrame \<and>
          readUint32LittleEndian input JOURNAL_V1_CHECKSUM_OFFSET \<noteq> journalV1Checksum input
        then Inl CHECKSUM_MISMATCH
        else
        let minimumPayloadLength =
              (if recordType = JOURNAL_V1_NEW_ORDER_RECORD_TYPE
               then JOURNAL_V1_NEW_ORDER_PAYLOAD_SIZE_WITHOUT_CLIENT_COMMAND_ID +
                    JOURNAL_V1_CLIENT_COMMAND_ID_MIN_LENGTH
               else JOURNAL_V1_CANCEL_PAYLOAD_SIZE_WITHOUT_CLIENT_COMMAND_ID +
                    JOURNAL_V1_CLIENT_COMMAND_ID_MIN_LENGTH);
            maximumPayloadLength =
              (if recordType = JOURNAL_V1_NEW_ORDER_RECORD_TYPE
               then JOURNAL_V1_NEW_ORDER_PAYLOAD_SIZE_WITHOUT_CLIENT_COMMAND_ID +
                    JOURNAL_V1_CLIENT_COMMAND_ID_MAX_LENGTH
               else JOURNAL_V1_CANCEL_PAYLOAD_SIZE_WITHOUT_CLIENT_COMMAND_ID +
                    JOURNAL_V1_CLIENT_COMMAND_ID_MAX_LENGTH)
        in
        if \<not> requireCompleteFrame \<and>
          (unat payloadLength < minimumPayloadLength \<or> unat payloadLength > maximumPayloadLength)
        then Inl INVALID_PAYLOAD_LENGTH
        else Inr \<lparr>env_recordType = recordType, env_totalLength = totalLength,
                  env_exchangeRunId = exchangeRunId, env_commandSequence = commandSequence,
                  env_payloadLength = payloadLength\<rparr>)"

definition writeEnvelope :: "u8 list \<Rightarrow> u16 \<Rightarrow> ExchangeRunId \<Rightarrow> CommandSequence \<Rightarrow> nat \<Rightarrow> u8 list" where
  "writeEnvelope frame recordType runId sequence payloadLength =
     (let f1 = copy_into frame 0 JOURNAL_V1_MAGIC;
          f2 = writeUint16LittleEndian f1 JOURNAL_V1_FORMAT_VERSION_OFFSET JOURNAL_V1_FORMAT_VERSION;
          f3 = writeUint16LittleEndian f2 JOURNAL_V1_RECORD_TYPE_OFFSET recordType;
          f4 = writeUint32LittleEndian f3 JOURNAL_V1_TOTAL_LENGTH_OFFSET
                 (of_nat (JOURNAL_V1_ENVELOPE_SIZE + payloadLength));
          f5 = writeUint64LittleEndian f4 JOURNAL_V1_EXCHANGE_RUN_ID_OFFSET runId;
          f6 = writeUint64LittleEndian f5 JOURNAL_V1_COMMAND_SEQUENCE_OFFSET sequence
      in writeUint32LittleEndian f6 JOURNAL_V1_PAYLOAD_LENGTH_OFFSET (of_nat payloadLength))"

section \<open>Specification of a frame\<close>

text \<open>The 32 bytes before the checksum, and a whole frame around a payload.\<close>

definition command_header :: "u16 \<Rightarrow> u64 \<Rightarrow> u64 \<Rightarrow> nat \<Rightarrow> u8 list" where
  "command_header recordType runId sequence n =
     JOURNAL_V1_MAGIC @ le_bytes 2 JOURNAL_V1_FORMAT_VERSION @ le_bytes 2 recordType @
     le_bytes 4 (of_nat (36 + n) :: u32) @ le_bytes 8 runId @ le_bytes 8 sequence @
     le_bytes 4 (of_nat n :: u32)"

definition frame_checksum :: "u8 list \<Rightarrow> u8 list \<Rightarrow> u32" where
  "frame_checksum header payload = fold crc_byte (header @ payload) 0xFFFFFFFF XOR FINAL_XOR"

definition command_frame :: "u16 \<Rightarrow> u64 \<Rightarrow> u64 \<Rightarrow> u8 list \<Rightarrow> u8 list" where
  "command_frame recordType runId sequence payload =
     (let header = command_header recordType runId sequence (length payload)
      in header @ le_bytes 4 (frame_checksum header payload) @ payload)"

lemma length_JOURNAL_V1_MAGIC [simp]: "length JOURNAL_V1_MAGIC = 4"
  by (simp add: JOURNAL_V1_MAGIC_def)

lemma length_command_header [simp]: "length (command_header t r s n) = 32"
  by (simp add: command_header_def)

lemma length_command_frame [simp]: "length (command_frame t r s payload) = 36 + length payload"
  by (simp add: command_frame_def Let_def)

lemma drop_command_frame: "36 \<le> k \<Longrightarrow> drop k (command_frame t r s payload) = drop (k - 36) payload"
  by (simp add: command_frame_def Let_def)

lemma journalV1Checksum_parts:
  "length header = 32 \<Longrightarrow> length c = 4 \<Longrightarrow> journalV1Checksum (header @ c @ payload) = frame_checksum header payload"
  by (simp add: journalV1Checksum_def frame_checksum_def layout crc_checksum_def crc_update_def
      init_Crc32cAccumulator_def)

lemma writeEnvelope_header:
  assumes "36 \<le> n"
  shows "writeEnvelope (replicate n 0) t r s p = command_header t r s p @ replicate (n - 32) 0"
proof -
  obtain m where n: "n = 36 + m"
    using assms le_Suc_ex by blast
  show ?thesis
    by (simp add: writeEnvelope_def Let_def layout copy_into_zero copy_into_fresh writeUint_copy_into n del: append_assoc replicate_add)
      (simp add: command_header_def layout)
qed

lemma write_checksum:
  assumes "e = command_header t r s n @ replicate 4 0 @ payload" and "length payload = n"
  shows "writeUint32LittleEndian e 32 (journalV1Checksum e) = command_frame t r s payload"
  unfolding assms(1)
  by (simp add: assms(2) writeUint_copy_into journalV1Checksum_parts copy_into_def command_frame_def Let_def)

lemma command_frame_iff:
  assumes "length input = 36 + length payload"
  shows "input = command_frame t r s payload \<longleftrightarrow>
    take 4 input = JOURNAL_V1_MAGIC \<and>
    take 2 (drop 4 input) = le_bytes 2 JOURNAL_V1_FORMAT_VERSION \<and>
    take 2 (drop 6 input) = le_bytes 2 t \<and>
    take 4 (drop 8 input) = le_bytes 4 (of_nat (36 + length payload) :: u32) \<and>
    take 8 (drop 12 input) = le_bytes 8 r \<and> take 8 (drop 20 input) = le_bytes 8 s \<and>
    take 4 (drop 28 input) = le_bytes 4 (of_nat (length payload) :: u32) \<and>
    take 4 (drop 32 input) = le_bytes 4 (journalV1Checksum input) \<and> drop 36 input = payload"
  (is "_ \<longleftrightarrow> ?R")
proof
  assume "input = command_frame t r s payload"
  then show ?R
    by (simp add: command_frame_def Let_def journalV1Checksum_parts) (simp add: command_header_def layout)
next
  assume r: ?R
  have "input = take 4 input @ take 2 (drop 4 input) @ take 2 (drop 6 input) @ take 4 (drop 8 input) @
      take 8 (drop 12 input) @ take 8 (drop 20 input) @ take 4 (drop 28 input) @ take 4 (drop 32 input) @
      drop 36 input"
    by (simp add: bytes_simps)
  also have "\<dots> = command_header t r s (length payload) @ le_bytes 4 (journalV1Checksum input) @ payload"
    using r by (simp add: command_header_def)
  finally have "input = command_header t r s (length payload) @ le_bytes 4 (journalV1Checksum input) @ payload" .
  then show "input = command_frame t r s payload"
    using journalV1Checksum_parts [of "command_header t r s (length payload)" "le_bytes 4 (journalV1Checksum input)" payload]
    by (simp add: command_frame_def Let_def)
qed

text \<open>What the envelope fields of a frame read as, and that a buffer with these fields is a frame.\<close>

lemma command_frame_reads:
  assumes "input = command_frame t r s payload" and "length payload < 2 ^ 31"
  shows "take 4 input = JOURNAL_V1_MAGIC"
    and "readUint16LittleEndian input 4 = 1" "readUint16LittleEndian input 6 = t"
    and "unat (readUint32LittleEndian input 8) = 36 + length payload"
    and "readUint64LittleEndian input 12 = r" "readUint64LittleEndian input 20 = s"
    and "unat (readUint32LittleEndian input 28) = length payload"
    and "readUint32LittleEndian input 32 = journalV1Checksum input"
proof -
  have len: "length input = 36 + length payload" by (simp add: assms(1))
  note slices = assms(1) [unfolded command_frame_iff [OF len]]
  have "readUint32LittleEndian input 8 = of_nat (36 + length payload)"
    "readUint32LittleEndian input 28 = of_nat (length payload)"
    using slices len by (auto intro!: read_slice)
  then show "unat (readUint32LittleEndian input 8) = 36 + length payload"
    "unat (readUint32LittleEndian input 28) = length payload"
    using assms(2) by (simp_all add: unat_of_nat del: of_nat_add)
  show "take 4 input = JOURNAL_V1_MAGIC" "readUint16LittleEndian input 4 = 1"
    "readUint16LittleEndian input 6 = t" "readUint64LittleEndian input 12 = r"
    "readUint64LittleEndian input 20 = s" "readUint32LittleEndian input 32 = journalV1Checksum input"
    using slices len by (auto intro!: read_slice simp: layout)
qed

lemma command_frameI:
  assumes "take 4 input = JOURNAL_V1_MAGIC" and "readUint16LittleEndian input 4 = 1"
    and "unat (readUint32LittleEndian input 8) = length input"
    and "unat (readUint32LittleEndian input 28) = length input - 36" and "36 \<le> length input"
    and "readUint32LittleEndian input 32 = journalV1Checksum input"
  shows "input = command_frame (readUint16LittleEndian input 6) (readUint64LittleEndian input 12)
    (readUint64LittleEndian input 20) (drop 36 input)"
proof -
  have len: "length input = 36 + length (drop 36 input)"
    using assms(5) by simp
  have "readUint32LittleEndian input 8 = of_nat (36 + length (drop 36 input))"
    "readUint32LittleEndian input 28 = of_nat (length (drop 36 input))"
    using assms(3-5) len by (metis of_nat_unat ucast_id length_drop)+
  then show ?thesis
    unfolding command_frame_iff [OF len] using assms by (simp add: slice_read layout)
qed

section \<open>Validation accepts exactly the frames\<close>

definition env_of :: "u16 \<Rightarrow> u64 \<Rightarrow> u64 \<Rightarrow> u8 list \<Rightarrow> JournalV1CommandEnvelope" where
  "env_of t r s payload =
     \<lparr>env_recordType = t, env_totalLength = of_nat (36 + length payload), env_exchangeRunId = r,
      env_commandSequence = s, env_payloadLength = of_nat (length payload)\<rparr>"

lemma unat_ucast_u64: "unat (ucast (x :: u32) :: u64) = unat x"
proof -
  have "unat x < 2 ^ 32"
    using unsigned_less [of x, where 'a = nat] by simp
  then show ?thesis
    by (simp add: unsigned_ucast_eq take_bit_nat_eq_self)
qed

lemma total_length_iff:
  fixes total plen :: u32
  shows "of_nat 36 + (ucast plen :: u64) = ucast total \<longleftrightarrow>
    unat total = 36 + unat plen"
proof -
  have p: "unat plen < 2 ^ 32"
    using unsigned_less [of plen, where 'a = nat] by simp
  then have "unat (of_nat 36 + (ucast plen :: u64)) = 36 + unat plen"
    by (simp add: unat_word_ariths unat_ucast_u64)
  then show ?thesis
    by (metis word_unat_eq_iff unat_ucast_u64)
qed

lemma validate_complete_iff:
  assumes "t = 2 \<or> t = 3"
  shows "validateJournalV1CommandEnvelope input t True = Inr env \<longleftrightarrow>
    (\<exists>r s payload. length payload \<le> 220 \<and> r \<noteq> 0 \<and> s \<noteq> 0 \<and> input = command_frame t r s payload \<and>
       env = env_of t r s payload)"
  (is "?L \<longleftrightarrow> ?R")
proof
  assume l: ?L
  then have len: "36 \<le> length input" "length input \<le> 256"
    by (auto simp: validateJournalV1CommandEnvelope_def layout result_iff split: if_splits)
  define payload where "payload = drop 36 input"
  define total where "total = readUint32LittleEndian input 8"
  define plen where "plen = readUint32LittleEndian input 28"
  have facts: "take 4 input = JOURNAL_V1_MAGIC" "readUint16LittleEndian input 4 = 1"
    "readUint16LittleEndian input 6 = t" "unat total \<le> 256" "length input = unat total"
    "of_nat 36 + (ucast plen :: u64) = ucast total"
    "readUint64LittleEndian input 12 \<noteq> 0" "readUint64LittleEndian input 20 \<noteq> 0"
    "readUint32LittleEndian input 32 = journalV1Checksum input"
    "env = \<lparr>env_recordType = t, env_totalLength = total,
                  env_exchangeRunId = readUint64LittleEndian input 12, env_commandSequence = readUint64LittleEndian input 20,
                  env_payloadLength = plen\<rparr>"
    using l assms unfolding validateJournalV1CommandEnvelope_def Let_def layout total_def plen_def
    by (auto split: if_splits)
  have plen: "length payload = unat plen" "length payload \<le> 220" "length input = 36 + length payload"
    using facts(5,6) len total_length_iff [of plen total] by (auto simp: payload_def)
  have total: "total = of_nat (36 + length payload)" and plen': "plen = of_nat (length payload)"
    using facts(5) plen by (metis of_nat_unat ucast_id)+
  have "input = command_frame t (readUint64LittleEndian input 12) (readUint64LittleEndian input 20) payload"
    unfolding payload_def facts(3) [symmetric]
  proof (rule command_frameI [OF facts(1,2) _ _ len(1) facts(9)])
    show "unat (readUint32LittleEndian input 8) = length input"
      using facts(5) by (simp only: total_def)
    show "unat (readUint32LittleEndian input 28) = length input - 36"
      using plen(1,3) by (simp only: plen_def)
  qed
  then show ?R
    using facts(7,8,10) plen(2) total plen' unfolding env_of_def by blast
next
  assume ?R
  then obtain r s payload where p: "length payload \<le> 220" "r \<noteq> 0" "s \<noteq> 0"
    and input: "input = command_frame t r s payload" and env: "env = env_of t r s payload"
    by blast
  have len: "length input = 36 + length payload" by (simp add: input)
  have "length payload < 2 ^ 31" using p(1) by simp
  note reads = command_frame_reads [OF input this]
  have words: "readUint32LittleEndian input 8 = of_nat (36 + length payload)"
    "readUint32LittleEndian input 28 = of_nat (length payload)"
    using reads(4,7) by (metis of_nat_unat ucast_id)+
  have "unat (of_nat (36 + length payload) :: u32) = 36 + length payload"
    "unat (of_nat (length payload) :: u32) = length payload"
    using p(1) by (simp_all add: unat_of_nat del: of_nat_add)
  moreover from this have "of_nat 36 + (ucast (of_nat (length payload) :: u32) :: u64) = ucast (of_nat (36 + length payload) :: u32)"
    using p(1) by (subst total_length_iff) simp_all
  ultimately show ?L
    using len p assms reads(1-3,5,6,8) words
    unfolding validateJournalV1CommandEnvelope_def layout Let_def env env_of_def by auto
qed

end
