(* ===== verification/Command_Codec.thy ===== *)
theory Command_Codec
  imports Journal_Envelope
begin

text \<open>
  The command codecs of \<open>core/storage/src/journal_command_codec.cpp\<close>. The main result is that the
  decoders accept exactly the frames that the encoders produce, and give back what was encoded.
\<close>

section \<open>Commands\<close>

record JournalNewOrderV1 =
  jn_exchangeRunId :: ExchangeRunId
  jn_commandSequence :: CommandSequence
  jn_behavioralRulesVersion :: u32
  jn_configurationVersion :: u32
  jn_clientId :: ClientId
  jn_instrumentId :: InstrumentId
  jn_clientCommandId :: ClientCommandId
  jn_side :: Side
  jn_timeInForce :: TimeInForce
  jn_price :: Price
  jn_quantity :: Quantity

record JournalCancelV1 =
  jc_exchangeRunId :: ExchangeRunId
  jc_commandSequence :: CommandSequence
  jc_behavioralRulesVersion :: u32
  jc_configurationVersion :: u32
  jc_clientId :: ClientId
  jc_instrumentId :: InstrumentId
  jc_clientCommandId :: ClientCommandId
  jc_targetOrderId :: TargetOrderId

definition BEHAVIORAL_RULES_VERSION :: u32 where
  [layout]: "BEHAVIORAL_RULES_VERSION = 1"

definition RULES_VERSION_PAYLOAD_OFFSET :: nat where
  [layout]: "RULES_VERSION_PAYLOAD_OFFSET = 0"

definition CONFIGURATION_VERSION_PAYLOAD_OFFSET :: nat where
  [layout]: "CONFIGURATION_VERSION_PAYLOAD_OFFSET = 4"

definition CLIENT_ID_PAYLOAD_OFFSET :: nat where
  [layout]: "CLIENT_ID_PAYLOAD_OFFSET = 8"

definition INSTRUMENT_ID_PAYLOAD_OFFSET :: nat where
  [layout]: "INSTRUMENT_ID_PAYLOAD_OFFSET = 16"

definition CLIENT_COMMAND_ID_LENGTH_PAYLOAD_OFFSET :: nat where
  [layout]: "CLIENT_COMMAND_ID_LENGTH_PAYLOAD_OFFSET = 24"

definition CLIENT_COMMAND_ID_PAYLOAD_OFFSET :: nat where
  [layout]: "CLIENT_COMMAND_ID_PAYLOAD_OFFSET = 25"

definition BUY_WIRE_CODE :: u8 where [layout]: "BUY_WIRE_CODE = 1"
definition SELL_WIRE_CODE :: u8 where [layout]: "SELL_WIRE_CODE = 2"
definition GTC_WIRE_CODE :: u8 where [layout]: "GTC_WIRE_CODE = 1"
definition IOC_WIRE_CODE :: u8 where [layout]: "IOC_WIRE_CODE = 2"

definition validateCommonCommand ::
  "ExchangeRunId \<Rightarrow> CommandSequence \<Rightarrow> u32 \<Rightarrow> u32 \<Rightarrow> ClientId \<Rightarrow> InstrumentId \<Rightarrow> JournalCommandCodecError + unit" where
  "validateCommonCommand runId sequence rulesVersion cfgVersion client instrument =
     (if runId = 0 then Inl ZERO_EXCHANGE_RUN_ID
      else if sequence = 0 then Inl ZERO_COMMAND_SEQUENCE
      else if rulesVersion \<noteq> BEHAVIORAL_RULES_VERSION then Inl UNSUPPORTED_BEHAVIORAL_RULES_VERSION
      else if cfgVersion = 0 then Inl ZERO_CONFIGURATION_VERSION
      else if client = 0 then Inl ZERO_CLIENT_ID
      else if instrument = 0 then Inl ZERO_INSTRUMENT_ID
      else Inr ())"

section \<open>Wire codes\<close>

definition side_code :: "Side \<Rightarrow> JournalCommandCodecError + u8" where
  "side_code side =
     (case side of Side_BUY \<Rightarrow> Inr BUY_WIRE_CODE | Side_SELL \<Rightarrow> Inr SELL_WIRE_CODE | _ \<Rightarrow> Inl UNSUPPORTED_SIDE)"

definition side_of_code :: "u8 \<Rightarrow> JournalCommandCodecError + Side" where
  "side_of_code c =
     (if c = BUY_WIRE_CODE then Inr Side_BUY
      else if c = SELL_WIRE_CODE then Inr Side_SELL else Inl UNSUPPORTED_SIDE)"

definition tif_code :: "TimeInForce \<Rightarrow> JournalCommandCodecError + u8" where
  "tif_code t =
     (case t of GTC \<Rightarrow> Inr GTC_WIRE_CODE | IOC \<Rightarrow> Inr IOC_WIRE_CODE | _ \<Rightarrow> Inl UNSUPPORTED_TIME_IN_FORCE)"

definition tif_of_code :: "u8 \<Rightarrow> JournalCommandCodecError + TimeInForce" where
  "tif_of_code c =
     (if c = GTC_WIRE_CODE then Inr GTC
      else if c = IOC_WIRE_CODE then Inr IOC else Inl UNSUPPORTED_TIME_IN_FORCE)"

section \<open>Encoders\<close>

text \<open>The fields that both commands write first.\<close>

definition writeCommonPayload ::
  "u8 list \<Rightarrow> u32 \<Rightarrow> u32 \<Rightarrow> ClientId \<Rightarrow> InstrumentId \<Rightarrow> u8 list \<Rightarrow> u8 list" where
  "writeCommonPayload encoded rulesVersion cfgVersion client instrument ccid =
     (let e1 = writeUint32LittleEndian encoded (JOURNAL_V1_PAYLOAD_OFFSET + RULES_VERSION_PAYLOAD_OFFSET) rulesVersion;
          e2 = writeUint32LittleEndian e1 (JOURNAL_V1_PAYLOAD_OFFSET + CONFIGURATION_VERSION_PAYLOAD_OFFSET) cfgVersion;
          e3 = writeUint64LittleEndian e2 (JOURNAL_V1_PAYLOAD_OFFSET + CLIENT_ID_PAYLOAD_OFFSET) client;
          e4 = writeUint64LittleEndian e3 (JOURNAL_V1_PAYLOAD_OFFSET + INSTRUMENT_ID_PAYLOAD_OFFSET) instrument;
          e5 = e4[JOURNAL_V1_PAYLOAD_OFFSET + CLIENT_COMMAND_ID_LENGTH_PAYLOAD_OFFSET := of_nat (length ccid)]
      in copy_into e5 (JOURNAL_V1_PAYLOAD_OFFSET + CLIENT_COMMAND_ID_PAYLOAD_OFFSET) ccid)"

definition encodeNewOrderV1 :: "JournalNewOrderV1 \<Rightarrow> JournalCommandCodecError + u8 list" where
  "encodeNewOrderV1 command =
     (let ccid = ClientCommandId_value (jn_clientCommandId command) in
     bind_result (validateCommonCommand (jn_exchangeRunId command) (jn_commandSequence command)
       (jn_behavioralRulesVersion command) (jn_configurationVersion command)
       (jn_clientId command) (jn_instrumentId command)) (\<lambda>_.
     bind_result (side_code (jn_side command)) (\<lambda>side.
     bind_result (tif_code (jn_timeInForce command)) (\<lambda>timeInForce.
     if jn_price command = 0 then Inl ZERO_PRICE
     else if jn_quantity command = 0 then Inl ZERO_QUANTITY
     else
     let payloadLength = JOURNAL_V1_NEW_ORDER_PAYLOAD_SIZE_WITHOUT_CLIENT_COMMAND_ID + length ccid;
         frameSize = JOURNAL_V1_ENVELOPE_SIZE + payloadLength;
         e0 = writeEnvelope (replicate frameSize 0) JOURNAL_V1_NEW_ORDER_RECORD_TYPE
                (jn_exchangeRunId command) (jn_commandSequence command) payloadLength;
         e1 = writeCommonPayload e0 (jn_behavioralRulesVersion command) (jn_configurationVersion command)
                (jn_clientId command) (jn_instrumentId command) ccid;
         variableFieldsOffset = JOURNAL_V1_PAYLOAD_OFFSET + CLIENT_COMMAND_ID_PAYLOAD_OFFSET + length ccid;
         e2 = e1[variableFieldsOffset := side];
         e3 = e2[variableFieldsOffset + 1 := timeInForce];
         e4 = writeUint64LittleEndian e3 (variableFieldsOffset + 2) (jn_price command);
         e5 = writeUint64LittleEndian e4 (variableFieldsOffset + 10) (jn_quantity command)
     in Inr (writeUint32LittleEndian e5 JOURNAL_V1_CHECKSUM_OFFSET (journalV1Checksum e5))))))"

definition encodeCancelV1 :: "JournalCancelV1 \<Rightarrow> JournalCommandCodecError + u8 list" where
  "encodeCancelV1 command =
     (let ccid = ClientCommandId_value (jc_clientCommandId command) in
     bind_result (validateCommonCommand (jc_exchangeRunId command) (jc_commandSequence command)
       (jc_behavioralRulesVersion command) (jc_configurationVersion command)
       (jc_clientId command) (jc_instrumentId command)) (\<lambda>_.
     if jc_targetOrderId command = 0 then Inl ZERO_TARGET_ORDER_ID
     else
     let payloadLength = JOURNAL_V1_CANCEL_PAYLOAD_SIZE_WITHOUT_CLIENT_COMMAND_ID + length ccid;
         frameSize = JOURNAL_V1_ENVELOPE_SIZE + payloadLength;
         e0 = writeEnvelope (replicate frameSize 0) JOURNAL_V1_CANCEL_RECORD_TYPE
                (jc_exchangeRunId command) (jc_commandSequence command) payloadLength;
         e1 = writeCommonPayload e0 (jc_behavioralRulesVersion command) (jc_configurationVersion command)
                (jc_clientId command) (jc_instrumentId command) ccid;
         e2 = writeUint64LittleEndian e1
                (JOURNAL_V1_PAYLOAD_OFFSET + CLIENT_COMMAND_ID_PAYLOAD_OFFSET + length ccid)
                (jc_targetOrderId command)
     in Inr (writeUint32LittleEndian e2 JOURNAL_V1_CHECKSUM_OFFSET (journalV1Checksum e2))))"

section \<open>Decoders\<close>

definition decodeNewOrderV1 :: "u8 list \<Rightarrow> JournalCommandCodecError + JournalNewOrderV1" where
  "decodeNewOrderV1 input =
     bind_result (validateJournalV1CommandEnvelope input JOURNAL_V1_NEW_ORDER_RECORD_TYPE True) (\<lambda>envelope.
     if unat (env_payloadLength envelope) < JOURNAL_V1_NEW_ORDER_PAYLOAD_SIZE_WITHOUT_CLIENT_COMMAND_ID
     then Inl INVALID_PAYLOAD_LENGTH
     else
     let ccidLength = unat (input ! (JOURNAL_V1_PAYLOAD_OFFSET + CLIENT_COMMAND_ID_LENGTH_PAYLOAD_OFFSET));
         expectedPayloadLength = JOURNAL_V1_NEW_ORDER_PAYLOAD_SIZE_WITHOUT_CLIENT_COMMAND_ID + ccidLength in
     if unat (env_payloadLength envelope) \<noteq> expectedPayloadLength then Inl INVALID_PAYLOAD_LENGTH
     else
     let ccid = take ccidLength (drop (JOURNAL_V1_PAYLOAD_OFFSET + CLIENT_COMMAND_ID_PAYLOAD_OFFSET) input);
         rulesVersion = readUint32LittleEndian input (JOURNAL_V1_PAYLOAD_OFFSET + RULES_VERSION_PAYLOAD_OFFSET);
         cfgVersion = readUint32LittleEndian input (JOURNAL_V1_PAYLOAD_OFFSET + CONFIGURATION_VERSION_PAYLOAD_OFFSET);
         client = readUint64LittleEndian input (JOURNAL_V1_PAYLOAD_OFFSET + CLIENT_ID_PAYLOAD_OFFSET);
         instrument = readUint64LittleEndian input (JOURNAL_V1_PAYLOAD_OFFSET + INSTRUMENT_ID_PAYLOAD_OFFSET) in
     bind_result (validateCommonCommand (env_exchangeRunId envelope) (env_commandSequence envelope)
       rulesVersion cfgVersion client instrument) (\<lambda>_.
     let variableFieldsOffset = JOURNAL_V1_PAYLOAD_OFFSET + CLIENT_COMMAND_ID_PAYLOAD_OFFSET + ccidLength in
     bind_result (side_of_code (input ! variableFieldsOffset)) (\<lambda>side.
     bind_result (tif_of_code (input ! (variableFieldsOffset + 1))) (\<lambda>timeInForce.
     let p = readUint64LittleEndian input (variableFieldsOffset + 2) in
     if p = 0 then Inl ZERO_PRICE
     else
     let q = readUint64LittleEndian input (variableFieldsOffset + 10) in
     if q = 0 then Inl ZERO_QUANTITY
     else
       case make_ClientCommandId ccid of
         Inl _ \<Rightarrow> Inl INVALID_CLIENT_COMMAND_ID
       | Inr c \<Rightarrow> Inr \<lparr>jn_exchangeRunId = env_exchangeRunId envelope,
           jn_commandSequence = env_commandSequence envelope, jn_behavioralRulesVersion = rulesVersion,
           jn_configurationVersion = cfgVersion, jn_clientId = client, jn_instrumentId = instrument,
           jn_clientCommandId = c, jn_side = side, jn_timeInForce = timeInForce, jn_price = p,
           jn_quantity = q\<rparr>))))"

definition decodeCancelV1 :: "u8 list \<Rightarrow> JournalCommandCodecError + JournalCancelV1" where
  "decodeCancelV1 input =
     bind_result (validateJournalV1CommandEnvelope input JOURNAL_V1_CANCEL_RECORD_TYPE True) (\<lambda>envelope.
     if unat (env_payloadLength envelope) < JOURNAL_V1_CANCEL_PAYLOAD_SIZE_WITHOUT_CLIENT_COMMAND_ID
     then Inl INVALID_PAYLOAD_LENGTH
     else
     let ccidLength = unat (input ! (JOURNAL_V1_PAYLOAD_OFFSET + CLIENT_COMMAND_ID_LENGTH_PAYLOAD_OFFSET));
         expectedPayloadLength = JOURNAL_V1_CANCEL_PAYLOAD_SIZE_WITHOUT_CLIENT_COMMAND_ID + ccidLength in
     if unat (env_payloadLength envelope) \<noteq> expectedPayloadLength then Inl INVALID_PAYLOAD_LENGTH
     else
     let ccid = take ccidLength (drop (JOURNAL_V1_PAYLOAD_OFFSET + CLIENT_COMMAND_ID_PAYLOAD_OFFSET) input);
         rulesVersion = readUint32LittleEndian input (JOURNAL_V1_PAYLOAD_OFFSET + RULES_VERSION_PAYLOAD_OFFSET);
         cfgVersion = readUint32LittleEndian input (JOURNAL_V1_PAYLOAD_OFFSET + CONFIGURATION_VERSION_PAYLOAD_OFFSET);
         client = readUint64LittleEndian input (JOURNAL_V1_PAYLOAD_OFFSET + CLIENT_ID_PAYLOAD_OFFSET);
         instrument = readUint64LittleEndian input (JOURNAL_V1_PAYLOAD_OFFSET + INSTRUMENT_ID_PAYLOAD_OFFSET) in
     bind_result (validateCommonCommand (env_exchangeRunId envelope) (env_commandSequence envelope)
       rulesVersion cfgVersion client instrument) (\<lambda>_.
     let target = readUint64LittleEndian input
           (JOURNAL_V1_PAYLOAD_OFFSET + CLIENT_COMMAND_ID_PAYLOAD_OFFSET + ccidLength) in
     if target = 0 then Inl ZERO_TARGET_ORDER_ID
     else
       case make_ClientCommandId ccid of
         Inl _ \<Rightarrow> Inl INVALID_CLIENT_COMMAND_ID
       | Inr c \<Rightarrow> Inr \<lparr>jc_exchangeRunId = env_exchangeRunId envelope,
           jc_commandSequence = env_commandSequence envelope, jc_behavioralRulesVersion = rulesVersion,
           jc_configurationVersion = cfgVersion, jc_clientId = client, jc_instrumentId = instrument,
           jc_clientCommandId = c, jc_targetOrderId = target\<rparr>))"

section \<open>Layout of the payloads\<close>

definition common_payload ::
  "u32 \<Rightarrow> u32 \<Rightarrow> ClientId \<Rightarrow> InstrumentId \<Rightarrow> u8 list \<Rightarrow> u8 list \<Rightarrow> u8 list" where
  "common_payload rulesVersion cfgVersion client instrument ccid rest =
     le_bytes 4 rulesVersion @ le_bytes 4 cfgVersion @ le_bytes 8 client @ le_bytes 8 instrument @
     of_nat (length ccid) # ccid @ rest"

lemma length_common_payload [simp]:
  "length (common_payload rv cv cl i ccid rest) = 25 + length ccid + length rest"
  by (simp add: common_payload_def)

lemma writeCommonPayload_layout:
  assumes "length pre = 36"
  shows "writeCommonPayload (pre @ replicate (25 + length ccid + m) 0) rv cv cl i ccid =
    (pre @ common_payload rv cv cl i ccid []) @ replicate m 0"
proof -
  have "writeCommonPayload (pre @ replicate (25 + length ccid + m) 0) rv cv cl i ccid =
    ((((((pre @ le_bytes 4 rv) @ le_bytes 4 cv) @ le_bytes 8 cl) @ le_bytes 8 i) @ [of_nat (length ccid)]) @ ccid) @
    replicate m 0"
    using assms
    by (simp add: writeCommonPayload_def Let_def layout writeUint_copy_into copy_into_fresh list_update_fresh
        del: append_assoc replicate.simps)
  then show ?thesis
    by (simp add: common_payload_def)
qed

lemma writeCommandStart:
  "writeCommonPayload (writeEnvelope (replicate (36 + (25 + length ccid + m)) 0) t r s (25 + length ccid + m)) rv cv cl i ccid =
     (command_header t r s (25 + length ccid + m) @ replicate 4 0 @ common_payload rv cv cl i ccid []) @ replicate m 0"
proof -
  have env: "writeEnvelope (replicate (36 + (25 + length ccid + m)) 0) t r s (25 + length ccid + m) =
      (command_header t r s (25 + length ccid + m) @ replicate 4 0) @ replicate (25 + length ccid + m) 0"
    by (simp add: writeEnvelope_header flip: replicate_add)
  show ?thesis
    unfolding env by (subst writeCommonPayload_layout) simp_all
qed

lemma common_payload_append: "common_payload rv cv cl i ccid [] @ xs = common_payload rv cv cl i ccid xs"
  by (simp add: common_payload_def)

lemma encodeCancelV1_layout:
  assumes "validateCommonCommand (jc_exchangeRunId c) (jc_commandSequence c) (jc_behavioralRulesVersion c)
      (jc_configurationVersion c) (jc_clientId c) (jc_instrumentId c) = Inr ()"
    and "jc_targetOrderId c \<noteq> 0"
  defines "ccid \<equiv> ClientCommandId_value (jc_clientCommandId c)"
  shows "encodeCancelV1 c = Inr (command_frame JOURNAL_V1_CANCEL_RECORD_TYPE (jc_exchangeRunId c) (jc_commandSequence c)
    (common_payload (jc_behavioralRulesVersion c) (jc_configurationVersion c) (jc_clientId c) (jc_instrumentId c)
       ccid (le_bytes 8 (jc_targetOrderId c))))"
proof -
  let ?cp = "common_payload (jc_behavioralRulesVersion c) (jc_configurationVersion c) (jc_clientId c) (jc_instrumentId c) ccid"
  let ?h = "command_header JOURNAL_V1_CANCEL_RECORD_TYPE (jc_exchangeRunId c) (jc_commandSequence c) (33 + length ccid)"
  have len: "33 + length ccid = 25 + length ccid + 8" by simp
  have start: "writeCommonPayload (writeEnvelope (replicate (36 + (33 + length ccid)) 0) JOURNAL_V1_CANCEL_RECORD_TYPE
      (jc_exchangeRunId c) (jc_commandSequence c) (33 + length ccid)) (jc_behavioralRulesVersion c)
      (jc_configurationVersion c) (jc_clientId c) (jc_instrumentId c) ccid = (?h @ replicate 4 0 @ ?cp []) @ replicate 8 0"
    unfolding len by (rule writeCommandStart)
  have fields: "writeUint64LittleEndian ((?h @ replicate 4 0 @ ?cp []) @ replicate 8 0) (61 + length ccid) (jc_targetOrderId c) =
      ?h @ replicate 4 0 @ ?cp (le_bytes 8 (jc_targetOrderId c))"
    by (subst writeUint_copy_into, simp, subst copy_into_fresh) (simp_all add: common_payload_append)
  show ?thesis
    using assms(1,2) write_checksum [OF fields]
    by (simp add: encodeCancelV1_def Let_def ccid_def [symmetric] layout start [unfolded layout, simplified])
qed


definition new_order_fields :: "u8 \<Rightarrow> u8 \<Rightarrow> Price \<Rightarrow> Quantity \<Rightarrow> u8 list" where
  "new_order_fields sc tc p q = sc # tc # le_bytes 8 p @ le_bytes 8 q"

lemma encodeNewOrderV1_layout:
  assumes "validateCommonCommand (jn_exchangeRunId c) (jn_commandSequence c) (jn_behavioralRulesVersion c)
      (jn_configurationVersion c) (jn_clientId c) (jn_instrumentId c) = Inr ()"
    and "side_code (jn_side c) = Inr sc" and "tif_code (jn_timeInForce c) = Inr tc"
    and "jn_price c \<noteq> 0" and "jn_quantity c \<noteq> 0"
  defines "ccid \<equiv> ClientCommandId_value (jn_clientCommandId c)"
  shows "encodeNewOrderV1 c = Inr (command_frame JOURNAL_V1_NEW_ORDER_RECORD_TYPE (jn_exchangeRunId c) (jn_commandSequence c)
    (common_payload (jn_behavioralRulesVersion c) (jn_configurationVersion c) (jn_clientId c) (jn_instrumentId c)
       ccid (new_order_fields sc tc (jn_price c) (jn_quantity c))))"
proof -
  let ?cp = "common_payload (jn_behavioralRulesVersion c) (jn_configurationVersion c) (jn_clientId c) (jn_instrumentId c) ccid"
  let ?h = "command_header JOURNAL_V1_NEW_ORDER_RECORD_TYPE (jn_exchangeRunId c) (jn_commandSequence c) (43 + length ccid)"
  have len: "43 + length ccid = 25 + length ccid + 18" by simp
  have start: "writeCommonPayload (writeEnvelope (replicate (36 + (43 + length ccid)) 0) JOURNAL_V1_NEW_ORDER_RECORD_TYPE
      (jn_exchangeRunId c) (jn_commandSequence c) (43 + length ccid)) (jn_behavioralRulesVersion c)
      (jn_configurationVersion c) (jn_clientId c) (jn_instrumentId c) ccid = (?h @ replicate 4 0 @ ?cp []) @ replicate 18 0"
    unfolding len by (rule writeCommandStart)
  define pre where "pre = ?h @ replicate 4 0 @ ?cp []"
  have pre: "length pre = 61 + length ccid" by (simp add: pre_def)
  have "writeUint64LittleEndian (writeUint64LittleEndian
      ((pre @ replicate 18 0)[61 + length ccid := sc, 61 + length ccid + 1 := tc]) (61 + length ccid + 2) (jn_price c))
      (61 + length ccid + 10) (jn_quantity c) = (((pre @ [sc]) @ [tc]) @ le_bytes 8 (jn_price c)) @ le_bytes 8 (jn_quantity c)"
    using pre by (simp add: list_update_fresh writeUint_copy_into copy_into_fresh del: append_assoc replicate.simps)
  then have fields: "writeUint64LittleEndian (writeUint64LittleEndian
      (((?h @ replicate 4 0 @ ?cp []) @ replicate 18 0)[61 + length ccid := sc, 61 + length ccid + 1 := tc])
        (61 + length ccid + 2) (jn_price c)) (61 + length ccid + 10) (jn_quantity c) =
      ?h @ replicate 4 0 @ ?cp (new_order_fields sc tc (jn_price c) (jn_quantity c))"
    unfolding pre_def [symmetric] by (simp add: pre_def new_order_fields_def common_payload_def)
  show ?thesis
    using assms(1-5) write_checksum [OF fields]
    by (simp add: encodeNewOrderV1_def Let_def ccid_def [symmetric] layout start [unfolded layout, simplified]
        new_order_fields_def)
qed

section \<open>Reading a payload\<close>

lemma nth_command_frame: "36 \<le> k \<Longrightarrow> command_frame t r s payload ! k = payload ! (k - 36)"
  by (auto simp: command_frame_def Let_def nth_append)

text \<open>The reads of the decoders on a frame with the common layout.\<close>

lemma read_common_payload:
  fixes rest :: "u8 list"
  assumes "input = command_frame t r s (common_payload rv cv cl i ccid rest)" and "length ccid < 256"
  shows "unat (input ! 60) = length ccid" and "readUint32LittleEndian input 36 = rv"
    and "readUint32LittleEndian input 40 = cv" and "readUint64LittleEndian input 44 = cl"
    and "readUint64LittleEndian input 52 = i" and "take (length ccid) (drop 61 input) = ccid"
    and "drop (61 + length ccid) input = rest"
proof -
  have len: "length input = 61 + length ccid + length rest"
    by (simp add: assms(1))
  show "unat (input ! 60) = length ccid"
    using assms(2) by (simp add: assms(1) nth_command_frame common_payload_def nth_append unat_of_nat)
  have slices: "take 4 (drop 36 input) = le_bytes 4 rv" "take 4 (drop 40 input) = le_bytes 4 cv"
    "take 8 (drop 44 input) = le_bytes 8 cl" "take 8 (drop 52 input) = le_bytes 8 i"
    by (simp_all add: assms(1) drop_command_frame common_payload_def)
  show "readUint32LittleEndian input 36 = rv" "readUint32LittleEndian input 40 = cv"
    "readUint64LittleEndian input 44 = cl" "readUint64LittleEndian input 52 = i"
    using slices len by (auto intro: read_slice)
  show "take (length ccid) (drop 61 input) = ccid" "drop (61 + length ccid) input = rest"
    by (simp_all add: assms(1) drop_command_frame common_payload_def)
qed

text \<open>Conversely a payload is the common layout of what the decoders read.\<close>

lemma split_common_payload:
  assumes "input = command_frame t r s payload" and "k = unat (input ! 60)"
    and "25 + k \<le> length payload"
  shows "payload = common_payload (readUint32LittleEndian input 36) (readUint32LittleEndian input 40)
    (readUint64LittleEndian input 44) (readUint64LittleEndian input 52)
    (take k (drop 61 input)) (drop (61 + k) input)"
proof -
  have len: "length input = 36 + length payload" by (simp add: assms(1))
  have payload: "payload = drop 36 input" by (simp add: assms(1) drop_command_frame)
  have "drop 36 input = take 4 (drop 36 input) @ take 4 (drop 40 input) @ take 8 (drop 44 input) @
      take 8 (drop 52 input) @ drop 60 input"
    by (simp add: bytes_simps)
  also have "drop 60 input = input ! 60 # take k (drop 61 input) @ drop (61 + k) input"
    using assms(3) len by (simp add: bytes_simps Cons_nth_drop_Suc [symmetric])
  finally have "drop 36 input = common_payload (readUint32LittleEndian input 36) (readUint32LittleEndian input 40)
      (readUint64LittleEndian input 44) (readUint64LittleEndian input 52)
      (take k (drop 61 input)) (drop (61 + k) input)"
    using assms(2,3) len by (simp add: common_payload_def slice_read)
  then show ?thesis
    unfolding payload [symmetric] .
qed

section \<open>The decoders invert the encoders\<close>

lemma side_code_iff: "side_code sd = Inr sc \<longleftrightarrow> side_of_code sc = Inr sd"
  by (cases sd) (auto simp: side_code_def side_of_code_def layout)

lemma tif_code_iff: "tif_code ti = Inr tc \<longleftrightarrow> tif_of_code tc = Inr ti"
  by (cases ti) (auto simp: tif_code_def tif_of_code_def layout)

lemma validate_frame:
  assumes "t = 2 \<or> t = 3" and "length payload \<le> 220" and "r \<noteq> 0" and "s \<noteq> 0"
  shows "validateJournalV1CommandEnvelope (command_frame t r s payload) t True = Inr (env_of t r s payload)"
  using assms validate_complete_iff [OF assms(1)] by blast

lemma unat_payload_length: "length payload \<le> 220 \<Longrightarrow> unat (env_payloadLength (env_of t r s payload)) = length payload"
  by (simp add: env_of_def unat_of_nat)

lemma env_of_sel [simp]:
  "env_exchangeRunId (env_of t r s payload) = r" "env_commandSequence (env_of t r s payload) = s"
  by (simp_all add: env_of_def)

lemma encodeCancelV1_Inr:
  assumes "encodeCancelV1 c = Inr f"
  shows "validateCommonCommand (jc_exchangeRunId c) (jc_commandSequence c) (jc_behavioralRulesVersion c)
      (jc_configurationVersion c) (jc_clientId c) (jc_instrumentId c) = Inr ()"
    and "jc_targetOrderId c \<noteq> 0"
  using assms unfolding encodeCancelV1_def Let_def by (simp_all only: result_iff) auto

lemma encodeNewOrderV1_Inr:
  assumes "encodeNewOrderV1 c = Inr f"
  shows "validateCommonCommand (jn_exchangeRunId c) (jn_commandSequence c) (jn_behavioralRulesVersion c)
      (jn_configurationVersion c) (jn_clientId c) (jn_instrumentId c) = Inr ()"
    and "\<exists>sc. side_code (jn_side c) = Inr sc" and "\<exists>tc. tif_code (jn_timeInForce c) = Inr tc"
    and "jn_price c \<noteq> 0" and "jn_quantity c \<noteq> 0"
  using assms unfolding encodeNewOrderV1_def Let_def by (simp_all only: result_iff) auto

lemma validateCommonCommand_ids:
  "validateCommonCommand r s rv cv cl i = Inr () \<Longrightarrow> r \<noteq> 0 \<and> s \<noteq> 0"
  by (auto simp: validateCommonCommand_def split: if_splits)

interpretation cancel_codec: frame_codec encodeCancelV1 decodeCancelV1
  "\<lambda>c. valid_ClientCommandId (jc_clientCommandId c)"
proof
  fix c f
  assume valid: "valid_ClientCommandId (jc_clientCommandId c)" and enc: "encodeCancelV1 c = Inr f"
  note ok = encodeCancelV1_Inr [OF enc]
  define ccid where "ccid = ClientCommandId_value (jc_clientCommandId c)"
  have ccid: "length ccid \<le> 64" "make_ClientCommandId ccid = Inr (jc_clientCommandId c)"
    using valid valid_ClientCommandId_bounds(2) [OF valid] by (simp_all add: ccid_def valid_ClientCommandId_def)
  have f: "f = command_frame 3 (jc_exchangeRunId c) (jc_commandSequence c)
      (common_payload (jc_behavioralRulesVersion c) (jc_configurationVersion c) (jc_clientId c) (jc_instrumentId c)
        ccid (le_bytes 8 (jc_targetOrderId c)))"
    using encodeCancelV1_layout [OF ok] enc by (simp add: ccid_def layout)
  have "length ccid < 256" using ccid(1) by simp
  note reads = read_common_payload [OF f this]
  have "readUint64LittleEndian f (61 + length ccid) = jc_targetOrderId c"
    by (rule read_slice) (simp_all only: reads(7), simp_all add: f)
  moreover have "validateJournalV1CommandEnvelope f 3 True = Inr (env_of 3 (jc_exchangeRunId c) (jc_commandSequence c)
      (common_payload (jc_behavioralRulesVersion c) (jc_configurationVersion c) (jc_clientId c) (jc_instrumentId c)
        ccid (le_bytes 8 (jc_targetOrderId c))))"
    unfolding f using ccid(1) validateCommonCommand_ids [OF ok(1)] by (intro validate_frame) simp_all
  ultimately show "decodeCancelV1 f = Inr c"
    using ok ccid reads by (simp add: decodeCancelV1_def layout unat_payload_length)
next
  fix f c
  assume dec: "decodeCancelV1 f = Inr c"
  then obtain env where env: "validateJournalV1CommandEnvelope f 3 True = Inr env"
    unfolding decodeCancelV1_def by (auto simp only: result_iff layout)
  then obtain r s payload where payload: "length payload \<le> 220" and f: "f = command_frame 3 r s payload"
    and env_of: "env = env_of 3 r s payload"
    using validate_complete_iff by blast
  define k where "k = unat (f ! 60)"
  have facts: "length payload = 33 + k" "jc_exchangeRunId c = r" "jc_commandSequence c = s"
    "jc_behavioralRulesVersion c = readUint32LittleEndian f 36" "jc_configurationVersion c = readUint32LittleEndian f 40"
    "jc_clientId c = readUint64LittleEndian f 44" "jc_instrumentId c = readUint64LittleEndian f 52"
    "make_ClientCommandId (take k (drop 61 f)) = Inr (jc_clientCommandId c)"
    "jc_targetOrderId c = readUint64LittleEndian f (61 + k)" "jc_targetOrderId c \<noteq> 0"
    "validateCommonCommand (jc_exchangeRunId c) (jc_commandSequence c) (jc_behavioralRulesVersion c)
      (jc_configurationVersion c) (jc_clientId c) (jc_instrumentId c) = Inr ()"
    using dec env unfolding decodeCancelV1_def layout env_of
    by (auto simp: result_iff Let_def unat_payload_length [OF payload] k_def split: if_splits)
  have ccid: "ClientCommandId_value (jc_clientCommandId c) = take k (drop 61 f)"
    by (rule ClientCommandId_value_make [OF facts(8)])
  have "drop (61 + k) f = take 8 (drop (61 + k) f)"
    using facts(1) by (simp add: f)
  also have "\<dots> = le_bytes 8 (jc_targetOrderId c)"
    unfolding facts(9) using facts(1) by (intro slice_read) (simp add: f)
  finally have rest: "drop (61 + k) f = le_bytes 8 (jc_targetOrderId c)" .
  have "25 + k \<le> length payload" using facts(1) by simp
  note split = split_common_payload [OF f k_def this, folded facts(4-7), unfolded rest]
  have "encodeCancelV1 c = Inr (command_frame 3 r s payload)"
    unfolding encodeCancelV1_layout [OF facts(11,10)] ccid split [symmetric] facts(2,3) layout ..
  then show "valid_ClientCommandId (jc_clientCommandId c) \<and> encodeCancelV1 c = Inr f"
    using make_ClientCommandId_valid [OF facts(8)] unfolding f by simp
qed


interpretation new_order_codec: frame_codec encodeNewOrderV1 decodeNewOrderV1
  "\<lambda>c. valid_ClientCommandId (jn_clientCommandId c)"
proof
  fix c f
  assume valid: "valid_ClientCommandId (jn_clientCommandId c)" and enc: "encodeNewOrderV1 c = Inr f"
  note ok = encodeNewOrderV1_Inr [OF enc]
  obtain sc tc where codes: "side_code (jn_side c) = Inr sc" "tif_code (jn_timeInForce c) = Inr tc"
    using ok(2,3) by blast
  define ccid where "ccid = ClientCommandId_value (jn_clientCommandId c)"
  have ccid: "length ccid \<le> 64" "make_ClientCommandId ccid = Inr (jn_clientCommandId c)"
    using valid valid_ClientCommandId_bounds(2) [OF valid] by (simp_all add: ccid_def valid_ClientCommandId_def)
  have f: "f = command_frame 2 (jn_exchangeRunId c) (jn_commandSequence c)
      (common_payload (jn_behavioralRulesVersion c) (jn_configurationVersion c) (jn_clientId c) (jn_instrumentId c)
        ccid (new_order_fields sc tc (jn_price c) (jn_quantity c)))"
    using encodeNewOrderV1_layout [OF ok(1) codes ok(4,5)] enc by (simp add: ccid_def layout)
  have "length ccid < 256" using ccid(1) by simp
  note reads = read_common_payload [OF f this]
  have len: "length f = 61 + length ccid + 18" by (simp add: f new_order_fields_def)
  have tail: "drop (61 + length ccid + j) f = drop j (new_order_fields sc tc (jn_price c) (jn_quantity c))" for j
    using arg_cong [OF reads(7), of "drop j"] by (simp add: add.commute)
  have "f ! (61 + length ccid) = sc" "f ! (61 + length ccid + 1) = tc"
    using tail [of 0] tail [of 1] len
    by (auto simp: new_order_fields_def Cons_nth_drop_Suc [symmetric])
  moreover have "readUint64LittleEndian f (61 + length ccid + 2) = jn_price c"
    "readUint64LittleEndian f (61 + length ccid + 10) = jn_quantity c"
    by (rule read_slice, simp add: len, unfold tail, simp add: new_order_fields_def)+
  moreover have "validateJournalV1CommandEnvelope f 2 True = Inr (env_of 2 (jn_exchangeRunId c) (jn_commandSequence c)
      (common_payload (jn_behavioralRulesVersion c) (jn_configurationVersion c) (jn_clientId c) (jn_instrumentId c)
        ccid (new_order_fields sc tc (jn_price c) (jn_quantity c))))"
    unfolding f using ccid(1) validateCommonCommand_ids [OF ok(1)]
    by (intro validate_frame) (simp_all add: new_order_fields_def)
  moreover have "length (new_order_fields sc tc (jn_price c) (jn_quantity c)) = 18"
    by (simp add: new_order_fields_def)
  ultimately show "decodeNewOrderV1 f = Inr c"
    using ok(1,4,5) ccid reads codes [unfolded side_code_iff tif_code_iff]
    by (simp add: decodeNewOrderV1_def layout unat_payload_length)
next
  fix f c
  assume dec: "decodeNewOrderV1 f = Inr c"
  then obtain env where env: "validateJournalV1CommandEnvelope f 2 True = Inr env"
    unfolding decodeNewOrderV1_def by (auto simp only: result_iff layout)
  then obtain r s payload where payload: "length payload \<le> 220" and f: "f = command_frame 2 r s payload"
    and env_of: "env = env_of 2 r s payload"
    using validate_complete_iff by blast
  define k where "k = unat (f ! 60)"
  have facts: "length payload = 43 + k" "jn_exchangeRunId c = r" "jn_commandSequence c = s"
    "jn_behavioralRulesVersion c = readUint32LittleEndian f 36" "jn_configurationVersion c = readUint32LittleEndian f 40"
    "jn_clientId c = readUint64LittleEndian f 44" "jn_instrumentId c = readUint64LittleEndian f 52"
    "make_ClientCommandId (take k (drop 61 f)) = Inr (jn_clientCommandId c)"
    "side_of_code (f ! (61 + k)) = Inr (jn_side c)" "tif_of_code (f ! (61 + k + 1)) = Inr (jn_timeInForce c)"
    "jn_price c = readUint64LittleEndian f (61 + k + 2)" "jn_quantity c = readUint64LittleEndian f (61 + k + 10)"
    "jn_price c \<noteq> 0" "jn_quantity c \<noteq> 0"
    "validateCommonCommand (jn_exchangeRunId c) (jn_commandSequence c) (jn_behavioralRulesVersion c)
      (jn_configurationVersion c) (jn_clientId c) (jn_instrumentId c) = Inr ()"
    using dec env unfolding decodeNewOrderV1_def layout env_of
    by (auto simp: result_iff Let_def unat_payload_length [OF payload] k_def split: if_splits)
  have ccid: "ClientCommandId_value (jn_clientCommandId c) = take k (drop 61 f)"
    by (rule ClientCommandId_value_make [OF facts(8)])
  have len: "length f = 61 + k + 18"
    using facts(1) by (simp add: f)
  have "drop (61 + k) f = f ! (61 + k) # f ! (61 + k + 1) # take 8 (drop (61 + k + 2) f) @ take 8 (drop (61 + k + 10) f)"
    using len by (simp add: Cons_nth_drop_Suc [symmetric] bytes_simps)
  then have rest: "drop (61 + k) f = new_order_fields (f ! (61 + k)) (f ! (61 + k + 1)) (jn_price c) (jn_quantity c)"
    unfolding new_order_fields_def facts(11,12) using len slice_read(3) [of "61 + k + 2" f] slice_read(3) [of "61 + k + 10" f]
    by simp
  have "25 + k \<le> length payload" using facts(1) by simp
  note split = split_common_payload [OF f k_def this, folded facts(4-7), unfolded rest]
  have "encodeNewOrderV1 c = Inr (command_frame 2 r s payload)"
    unfolding encodeNewOrderV1_layout [OF facts(15) facts(9) [folded side_code_iff] facts(10) [folded tif_code_iff]
      facts(13,14)] ccid split [symmetric] facts(2,3) layout ..
  then show "valid_ClientCommandId (jn_clientCommandId c) \<and> encodeNewOrderV1 c = Inr f"
    using make_ClientCommandId_valid [OF facts(8)] unfolding f by simp
qed

end
