(* ===== verification/Run_Header_Codec.thy ===== *)
theory Run_Header_Codec
  imports Journal_Envelope
begin

text \<open>
  \<open>core/storage/src/journal_run_header_codec.cpp\<close>: the first frame of a journal, with the limits of the
  run and its instruments. The 64-bit sums of 32-bit fields in the decoder cannot wrap and are natural
  numbers here.
\<close>

section \<open>Headers\<close>

record RunHeaderInstrumentV1 =
  hi_instrumentId :: InstrumentId
  hi_configurationVersion :: u32

record RunHeaderV1 =
  rh_exchangeRunId :: ExchangeRunId
  rh_behavioralRulesVersion :: u32
  rh_maxEventsPerCommand :: u32
  rh_maxRunCommands :: u64
  rh_maxRunJournalBytes :: u64
  rh_instruments :: "RunHeaderInstrumentV1 list"

datatype RunHeaderCodecError =
    RH_NONE | RH_TRUNCATED_INPUT | RH_FRAME_TOO_LARGE | RH_TRAILING_BYTES | RH_INVALID_MAGIC
  | RH_UNSUPPORTED_FORMAT_VERSION | RH_UNSUPPORTED_RECORD_TYPE | RH_INVALID_TOTAL_LENGTH
  | RH_ZERO_EXCHANGE_RUN_ID | RH_NONZERO_COMMAND_SEQUENCE | RH_INVALID_PAYLOAD_LENGTH
  | RH_CHECKSUM_MISMATCH | RH_UNSUPPORTED_BEHAVIORAL_RULES_VERSION
  | RH_UNSUPPORTED_MAX_EVENTS_PER_COMMAND | RH_ZERO_MAX_RUN_COMMANDS
  | RH_MAX_RUN_JOURNAL_BYTES_TOO_SMALL | RH_ZERO_INSTRUMENT_ID | RH_ZERO_CONFIGURATION_VERSION
  | RH_INSTRUMENTS_NOT_STRICTLY_INCREASING | RH_UNSUPPORTED_GENERATOR_CONFIGURATION
  | RH_ALLOCATION_FAILURE

definition RUN_HEADER_RECORD_TYPE :: u16 where [layout]: "RUN_HEADER_RECORD_TYPE = 1"
definition RH_BEHAVIORAL_RULES_VERSION :: u32 where [layout]: "RH_BEHAVIORAL_RULES_VERSION = 1"
definition RH_MAX_EVENTS_PER_COMMAND :: u32 where [layout]: "RH_MAX_EVENTS_PER_COMMAND = 4096"
definition RUN_HEADER_FIXED_PAYLOAD_SIZE :: nat where [layout]: "RUN_HEADER_FIXED_PAYLOAD_SIZE = 32"
definition INSTRUMENT_ENTRY_SIZE :: nat where [layout]: "INSTRUMENT_ENTRY_SIZE = 12"
definition RUN_HEADER_MAX_FRAME_SIZE :: nat where [layout]: "RUN_HEADER_MAX_FRAME_SIZE = 65536"
definition MAX_EVENTS_OFFSET :: nat where [layout]: "MAX_EVENTS_OFFSET = JOURNAL_V1_PAYLOAD_OFFSET + 4"
definition MAX_RUN_COMMANDS_OFFSET :: nat where [layout]: "MAX_RUN_COMMANDS_OFFSET = JOURNAL_V1_PAYLOAD_OFFSET + 8"
definition MAX_RUN_JOURNAL_BYTES_OFFSET :: nat where
  [layout]: "MAX_RUN_JOURNAL_BYTES_OFFSET = JOURNAL_V1_PAYLOAD_OFFSET + 16"
definition INSTRUMENT_COUNT_OFFSET :: nat where [layout]: "INSTRUMENT_COUNT_OFFSET = JOURNAL_V1_PAYLOAD_OFFSET + 24"
definition GENERATOR_CONFIG_LENGTH_OFFSET :: nat where
  [layout]: "GENERATOR_CONFIG_LENGTH_OFFSET = JOURNAL_V1_PAYLOAD_OFFSET + 28"
definition INSTRUMENTS_OFFSET :: nat where
  [layout]: "INSTRUMENTS_OFFSET = JOURNAL_V1_PAYLOAD_OFFSET + RUN_HEADER_FIXED_PAYLOAD_SIZE"

fun validateInstruments :: "u64 \<Rightarrow> RunHeaderInstrumentV1 list \<Rightarrow> RunHeaderCodecError + unit" where
  "validateInstruments previousInstrumentId [] = Inr ()"
| "validateInstruments previousInstrumentId (instrument # rest) =
     (if hi_instrumentId instrument = 0 then Inl RH_ZERO_INSTRUMENT_ID
      else if hi_configurationVersion instrument = 0 then Inl RH_ZERO_CONFIGURATION_VERSION
      else if hi_instrumentId instrument \<le> previousInstrumentId then Inl RH_INSTRUMENTS_NOT_STRICTLY_INCREASING
      else validateInstruments (hi_instrumentId instrument) rest)"

definition validateHeader :: "RunHeaderV1 \<Rightarrow> RunHeaderCodecError + nat" where
  "validateHeader header =
     (if rh_exchangeRunId header = 0 then Inl RH_ZERO_EXCHANGE_RUN_ID
      else if rh_behavioralRulesVersion header \<noteq> RH_BEHAVIORAL_RULES_VERSION
      then Inl RH_UNSUPPORTED_BEHAVIORAL_RULES_VERSION
      else if rh_maxEventsPerCommand header \<noteq> RH_MAX_EVENTS_PER_COMMAND
      then Inl RH_UNSUPPORTED_MAX_EVENTS_PER_COMMAND
      else if rh_maxRunCommands header = 0 then Inl RH_ZERO_MAX_RUN_COMMANDS
      else
      bind_result (validateInstruments 0 (rh_instruments header)) (\<lambda>_.
      let FIXED_FRAME_SIZE = JOURNAL_V1_ENVELOPE_SIZE + RUN_HEADER_FIXED_PAYLOAD_SIZE;
          MAX_INSTRUMENTS = (RUN_HEADER_MAX_FRAME_SIZE - FIXED_FRAME_SIZE) div INSTRUMENT_ENTRY_SIZE in
      if length (rh_instruments header) > MAX_INSTRUMENTS then Inl RH_FRAME_TOO_LARGE
      else
      let frameSize = FIXED_FRAME_SIZE + length (rh_instruments header) * INSTRUMENT_ENTRY_SIZE in
      if unat (rh_maxRunJournalBytes header) < frameSize then Inl RH_MAX_RUN_JOURNAL_BYTES_TOO_SMALL
      else Inr frameSize))"

fun writeInstruments :: "u8 list \<Rightarrow> nat \<Rightarrow> RunHeaderInstrumentV1 list \<Rightarrow> u8 list" where
  "writeInstruments encoded offset [] = encoded"
| "writeInstruments encoded offset (instrument # rest) =
     (let e1 = writeUint64LittleEndian encoded offset (hi_instrumentId instrument);
          e2 = writeUint32LittleEndian e1 (offset + 8) (hi_configurationVersion instrument)
      in writeInstruments e2 (offset + INSTRUMENT_ENTRY_SIZE) rest)"

definition encodeRunHeaderV1 :: "RunHeaderV1 \<Rightarrow> RunHeaderCodecError + u8 list" where
  "encodeRunHeaderV1 header =
     bind_result (validateHeader header) (\<lambda>frameSize.
     let payloadSize = frameSize - JOURNAL_V1_ENVELOPE_SIZE;
         e0 = copy_into (replicate frameSize 0) 0 JOURNAL_V1_MAGIC;
         e1 = writeUint16LittleEndian e0 JOURNAL_V1_FORMAT_VERSION_OFFSET JOURNAL_V1_FORMAT_VERSION;
         e2 = writeUint16LittleEndian e1 JOURNAL_V1_RECORD_TYPE_OFFSET RUN_HEADER_RECORD_TYPE;
         e3 = writeUint32LittleEndian e2 JOURNAL_V1_TOTAL_LENGTH_OFFSET (of_nat frameSize);
         e4 = writeUint64LittleEndian e3 JOURNAL_V1_EXCHANGE_RUN_ID_OFFSET (rh_exchangeRunId header);
         e5 = writeUint64LittleEndian e4 JOURNAL_V1_COMMAND_SEQUENCE_OFFSET 0;
         e6 = writeUint32LittleEndian e5 JOURNAL_V1_PAYLOAD_LENGTH_OFFSET (of_nat payloadSize);
         e7 = writeUint32LittleEndian e6 JOURNAL_V1_PAYLOAD_OFFSET (rh_behavioralRulesVersion header);
         e8 = writeUint32LittleEndian e7 MAX_EVENTS_OFFSET (rh_maxEventsPerCommand header);
         e9 = writeUint64LittleEndian e8 MAX_RUN_COMMANDS_OFFSET (rh_maxRunCommands header);
         e10 = writeUint64LittleEndian e9 MAX_RUN_JOURNAL_BYTES_OFFSET (rh_maxRunJournalBytes header);
         e11 = writeUint32LittleEndian e10 INSTRUMENT_COUNT_OFFSET (of_nat (length (rh_instruments header)));
         e12 = writeUint32LittleEndian e11 GENERATOR_CONFIG_LENGTH_OFFSET 0;
         e13 = writeInstruments e12 INSTRUMENTS_OFFSET (rh_instruments header)
     in Inr (writeUint32LittleEndian e13 JOURNAL_V1_CHECKSUM_OFFSET (journalV1Checksum e13)))"

fun readInstruments :: "u8 list \<Rightarrow> nat \<Rightarrow> nat \<Rightarrow> RunHeaderInstrumentV1 list" where
  "readInstruments input offset 0 = []"
| "readInstruments input offset (Suc remaining) =
     \<lparr>hi_instrumentId = readUint64LittleEndian input offset,
      hi_configurationVersion = readUint32LittleEndian input (offset + 8)\<rparr> #
     readInstruments input (offset + INSTRUMENT_ENTRY_SIZE) remaining"

definition decodeRunHeaderV1 :: "u8 list \<Rightarrow> RunHeaderCodecError + RunHeaderV1" where
  "decodeRunHeaderV1 input =
     (if length input < JOURNAL_V1_ENVELOPE_SIZE then Inl RH_TRUNCATED_INPUT
      else if length input > RUN_HEADER_MAX_FRAME_SIZE then Inl RH_FRAME_TOO_LARGE
      else if take (length JOURNAL_V1_MAGIC) input \<noteq> JOURNAL_V1_MAGIC then Inl RH_INVALID_MAGIC
      else if readUint16LittleEndian input JOURNAL_V1_FORMAT_VERSION_OFFSET \<noteq> JOURNAL_V1_FORMAT_VERSION
      then Inl RH_UNSUPPORTED_FORMAT_VERSION
      else if readUint16LittleEndian input JOURNAL_V1_RECORD_TYPE_OFFSET \<noteq> RUN_HEADER_RECORD_TYPE
      then Inl RH_UNSUPPORTED_RECORD_TYPE
      else
      let totalLength = unat (readUint32LittleEndian input JOURNAL_V1_TOTAL_LENGTH_OFFSET) in
      if totalLength < JOURNAL_V1_ENVELOPE_SIZE then Inl RH_INVALID_TOTAL_LENGTH
      else if totalLength > RUN_HEADER_MAX_FRAME_SIZE then Inl RH_FRAME_TOO_LARGE
      else if length input < totalLength then Inl RH_TRUNCATED_INPUT
      else if length input > totalLength then Inl RH_TRAILING_BYTES
      else if readUint64LittleEndian input JOURNAL_V1_COMMAND_SEQUENCE_OFFSET \<noteq> 0
      then Inl RH_NONZERO_COMMAND_SEQUENCE
      else
      let payloadLength = unat (readUint32LittleEndian input JOURNAL_V1_PAYLOAD_LENGTH_OFFSET);
          derivedTotalLength = JOURNAL_V1_ENVELOPE_SIZE + payloadLength in
      if derivedTotalLength \<noteq> totalLength \<or> payloadLength < RUN_HEADER_FIXED_PAYLOAD_SIZE
      then Inl RH_INVALID_PAYLOAD_LENGTH
      else if readUint32LittleEndian input JOURNAL_V1_CHECKSUM_OFFSET \<noteq> journalV1Checksum input
      then Inl RH_CHECKSUM_MISMATCH
      else
      let instrumentCount = unat (readUint32LittleEndian input INSTRUMENT_COUNT_OFFSET);
          generatorConfigLength = unat (readUint32LittleEndian input GENERATOR_CONFIG_LENGTH_OFFSET);
          instrumentBytes = instrumentCount * INSTRUMENT_ENTRY_SIZE;
          expectedPayloadLength = RUN_HEADER_FIXED_PAYLOAD_SIZE + instrumentBytes + generatorConfigLength in
      if expectedPayloadLength \<noteq> payloadLength then Inl RH_INVALID_PAYLOAD_LENGTH
      else if generatorConfigLength \<noteq> 0 then Inl RH_UNSUPPORTED_GENERATOR_CONFIGURATION
      else
      let decoded =
            \<lparr>rh_exchangeRunId = readUint64LittleEndian input JOURNAL_V1_EXCHANGE_RUN_ID_OFFSET,
             rh_behavioralRulesVersion = readUint32LittleEndian input JOURNAL_V1_PAYLOAD_OFFSET,
             rh_maxEventsPerCommand = readUint32LittleEndian input MAX_EVENTS_OFFSET,
             rh_maxRunCommands = readUint64LittleEndian input MAX_RUN_COMMANDS_OFFSET,
             rh_maxRunJournalBytes = readUint64LittleEndian input MAX_RUN_JOURNAL_BYTES_OFFSET,
             rh_instruments = readInstruments input INSTRUMENTS_OFFSET instrumentCount\<rparr>
      in bind_result (validateHeader decoded) (\<lambda>_. Inr decoded))"

section \<open>Instruments\<close>

definition instrument_bytes :: "RunHeaderInstrumentV1 \<Rightarrow> u8 list" where
  "instrument_bytes instrument =
     le_bytes 8 (hi_instrumentId instrument) @ le_bytes 4 (hi_configurationVersion instrument)"

definition instruments_bytes :: "RunHeaderInstrumentV1 list \<Rightarrow> u8 list" where
  "instruments_bytes is = concat (map instrument_bytes is)"

lemma instruments_bytes_simps [simp]:
  "instruments_bytes [] = []"
  "instruments_bytes (x # is) = instrument_bytes x @ instruments_bytes is"
  by (simp_all add: instruments_bytes_def)

lemma length_instruments_bytes [simp]: "length (instruments_bytes is) = 12 * length is"
  by (induction "is") (simp_all add: instrument_bytes_def)

lemma writeInstruments_layout:
  "offset = length pre \<Longrightarrow> n = 12 * length is \<Longrightarrow>
     writeInstruments (pre @ replicate n 0) offset is = pre @ instruments_bytes is"
proof (induction "is" arbitrary: pre offset n)
  case (Cons x "is")
  have "writeUint32LittleEndian (writeUint64LittleEndian (pre @ replicate n 0) offset (hi_instrumentId x))
      (offset + 8) (hi_configurationVersion x) = (pre @ instrument_bytes x) @ replicate (12 * length is) 0"
    using Cons.prems
    by (simp add: writeUint_copy_into copy_into_fresh instrument_bytes_def del: append_assoc replicate.simps)
  moreover have "writeInstruments ((pre @ instrument_bytes x) @ replicate (12 * length is) 0) (offset + 12) is =
      (pre @ instrument_bytes x) @ instruments_bytes is"
    using Cons.prems by (intro Cons.IH) (simp_all add: instrument_bytes_def)
  ultimately show ?case
    by (simp add: layout)
qed simp

lemma readInstruments_layout:
  "drop offset input = instruments_bytes is \<Longrightarrow> readInstruments input offset (length is) = is"
proof (induction "is" arbitrary: offset)
  case (Cons x "is")
  have len: "length input \<ge> offset + 12"
    using arg_cong [OF Cons.prems, of length] by (simp add: instrument_bytes_def)
  have "drop (offset + k) input = drop k (drop offset input)" for k
    by (simp add: add.commute)
  then have "take 8 (drop offset input) = le_bytes 8 (hi_instrumentId x)"
    "drop (offset + 8) input = le_bytes 4 (hi_configurationVersion x) @ instruments_bytes is"
    "drop (offset + 12) input = instruments_bytes is"
    using Cons.prems by (simp_all add: instrument_bytes_def)
  then show ?case
    using len Cons.IH [of "offset + 12"]
    by (simp add: layout read_slice(3) [of offset input "hi_instrumentId x"]
        read_slice(2) [of "offset + 8" input "hi_configurationVersion x"])
qed simp

lemma instruments_bytes_read:
  "offset + 12 * n \<le> length input \<Longrightarrow>
     instruments_bytes (readInstruments input offset n) = take (12 * n) (drop offset input)"
proof (induction n arbitrary: offset)
  case (Suc n)
  have "take (12 * Suc n) (drop offset input) =
      take 8 (drop offset input) @ take 4 (drop (offset + 8) input) @ take (12 * n) (drop (offset + 12) input)"
    by (simp add: take_add [of 8 "4 + 12 * n", simplified] take_add [of 4 "12 * n"] add.commute)
  then show ?case
    using Suc by (simp add: layout instrument_bytes_def slice_read)
qed simp

lemma length_readInstruments [simp]: "length (readInstruments input offset n) = n"
  by (induction n arbitrary: offset) simp_all

section \<open>Headers as frames\<close>

definition header_payload :: "RunHeaderV1 \<Rightarrow> u8 list" where
  "header_payload h =
     le_bytes 4 (rh_behavioralRulesVersion h) @ le_bytes 4 (rh_maxEventsPerCommand h) @
     le_bytes 8 (rh_maxRunCommands h) @ le_bytes 8 (rh_maxRunJournalBytes h) @
     le_bytes 4 (of_nat (length (rh_instruments h)) :: u32) @ le_bytes 4 (0 :: u32) @
     instruments_bytes (rh_instruments h)"

lemma length_header_payload [simp]: "length (header_payload h) = 32 + 12 * length (rh_instruments h)"
  by (simp add: header_payload_def)

lemma validateHeader_Inr:
  assumes "validateHeader h = Inr n"
  shows "n = 68 + 12 * length (rh_instruments h)" and "n \<le> 65536"
  using assms by (auto simp: validateHeader_def layout Let_def result_iff split: if_splits)

lemma encodeRunHeaderV1_layout:
  assumes "validateHeader h = Inr n"
  shows "encodeRunHeaderV1 h = Inr (command_frame RUN_HEADER_RECORD_TYPE (rh_exchangeRunId h) 0 (header_payload h))"
proof -
  define k where "k = length (rh_instruments h)"
  have n: "n = 36 + (32 + 12 * k)"
    using validateHeader_Inr(1) [OF assms] by (simp add: k_def)
  let ?env = "writeEnvelope (replicate n 0) RUN_HEADER_RECORD_TYPE (rh_exchangeRunId h) 0 (32 + 12 * k)"
  let ?h = "command_header RUN_HEADER_RECORD_TYPE (rh_exchangeRunId h) 0 (32 + 12 * k)"
  have env: "?env = (?h @ replicate 4 0) @ replicate (32 + 12 * k) 0"
    by (simp add: writeEnvelope_header n flip: replicate_add)
  define pre where "pre = ?h @ replicate 4 0"
  have pre: "length pre = 36" by (simp add: pre_def)
  have fields: "writeUint32LittleEndian (writeUint32LittleEndian (writeUint64LittleEndian (writeUint64LittleEndian
      (writeUint32LittleEndian (writeUint32LittleEndian (pre @ replicate (32 + 12 * k) 0) 36 (rh_behavioralRulesVersion h))
        40 (rh_maxEventsPerCommand h)) 44 (rh_maxRunCommands h)) 52 (rh_maxRunJournalBytes h))
        60 (of_nat k)) 64 0 =
      ((((((pre @ le_bytes 4 (rh_behavioralRulesVersion h)) @ le_bytes 4 (rh_maxEventsPerCommand h)) @
        le_bytes 8 (rh_maxRunCommands h)) @ le_bytes 8 (rh_maxRunJournalBytes h)) @ le_bytes 4 (of_nat k :: u32)) @
        le_bytes 4 (0 :: u32)) @ replicate (12 * k) 0"
    by (simp add: writeUint_copy_into copy_into_fresh pre del: append_assoc replicate.simps)
  have frame: "writeInstruments (writeUint32LittleEndian (writeUint32LittleEndian (writeUint64LittleEndian (writeUint64LittleEndian
      (writeUint32LittleEndian (writeUint32LittleEndian ?env 36 (rh_behavioralRulesVersion h))
        40 (rh_maxEventsPerCommand h)) 44 (rh_maxRunCommands h)) 52 (rh_maxRunJournalBytes h))
        60 (of_nat k)) 64 0) 68 (rh_instruments h) = ?h @ replicate 4 0 @ header_payload h"
    unfolding env pre_def [symmetric] fields
    by (subst writeInstruments_layout) (simp_all add: pre k_def, simp add: pre_def k_def header_payload_def)
  have payload: "length (header_payload h) = 32 + 12 * k"
    by (simp add: k_def)
  show ?thesis
    using write_checksum [OF frame payload] assms
    by (simp add: encodeRunHeaderV1_def writeEnvelope_def Let_def layout n k_def [symmetric])
qed

section \<open>The decoder inverts the encoder\<close>

lemma encodeRunHeaderV1_Inr:
  "encodeRunHeaderV1 h = Inr f \<Longrightarrow> \<exists>n. validateHeader h = Inr n"
  by (auto simp: encodeRunHeaderV1_def result_iff)

lemma header_reads:
  assumes "f = command_frame t r s (header_payload h)" and "length (rh_instruments h) < 2 ^ 32"
  shows "readUint32LittleEndian f 36 = rh_behavioralRulesVersion h"
    and "readUint32LittleEndian f 40 = rh_maxEventsPerCommand h"
    and "readUint64LittleEndian f 44 = rh_maxRunCommands h"
    and "readUint64LittleEndian f 52 = rh_maxRunJournalBytes h"
    and "unat (readUint32LittleEndian f 60) = length (rh_instruments h)"
    and "readUint32LittleEndian f 64 = 0"
    and "readInstruments f 68 (length (rh_instruments h)) = rh_instruments h"
proof -
  have len: "length f \<ge> 68" by (simp add: assms(1))
  have slices: "take 4 (drop 36 f) = le_bytes 4 (rh_behavioralRulesVersion h)"
    "take 4 (drop 40 f) = le_bytes 4 (rh_maxEventsPerCommand h)"
    "take 8 (drop 44 f) = le_bytes 8 (rh_maxRunCommands h)"
    "take 8 (drop 52 f) = le_bytes 8 (rh_maxRunJournalBytes h)"
    "take 4 (drop 60 f) = le_bytes 4 (of_nat (length (rh_instruments h)) :: u32)"
    "take 4 (drop 64 f) = le_bytes 4 (0 :: u32)" "drop 68 f = instruments_bytes (rh_instruments h)"
    by (simp_all add: assms(1) drop_command_frame header_payload_def)
  have "readUint32LittleEndian f 60 = of_nat (length (rh_instruments h))"
    using slices len by (auto intro: read_slice)
  then show "unat (readUint32LittleEndian f 60) = length (rh_instruments h)"
    using assms(2) by (simp add: unat_of_nat)
  show "readUint32LittleEndian f 36 = rh_behavioralRulesVersion h"
    "readUint32LittleEndian f 40 = rh_maxEventsPerCommand h"
    "readUint64LittleEndian f 44 = rh_maxRunCommands h"
    "readUint64LittleEndian f 52 = rh_maxRunJournalBytes h" "readUint32LittleEndian f 64 = 0"
    using slices len by (auto intro: read_slice)
  show "readInstruments f 68 (length (rh_instruments h)) = rh_instruments h"
    by (rule readInstruments_layout [OF slices(7)])
qed

lemma header_payload_read:
  assumes "length f = 68 + 12 * k" and "k = unat (readUint32LittleEndian f 60)"
    and "readUint32LittleEndian f 64 = 0"
    and "rh_behavioralRulesVersion h = readUint32LittleEndian f 36"
    and "rh_maxEventsPerCommand h = readUint32LittleEndian f 40"
    and "rh_maxRunCommands h = readUint64LittleEndian f 44"
    and "rh_maxRunJournalBytes h = readUint64LittleEndian f 52"
    and "rh_instruments h = readInstruments f 68 k"
  shows "header_payload h = drop 36 f"
proof -
  have "drop 36 f = take 4 (drop 36 f) @ take 4 (drop 40 f) @ take 8 (drop 44 f) @ take 8 (drop 52 f) @
      take 4 (drop 60 f) @ take 4 (drop 64 f) @ take (12 * k) (drop 68 f)"
    using assms(1) by (simp add: bytes_simps)
  also have "take (12 * k) (drop 68 f) = instruments_bytes (readInstruments f 68 k)"
    using instruments_bytes_read [of 68 k f] assms(1) by simp
  also have "take 4 (drop 60 f) = le_bytes 4 (of_nat k :: u32)"
    using slice_read(2) [of 60 f] assms(1,2) by simp
  also have "take 4 (drop 64 f) = le_bytes 4 (0 :: u32)"
    using slice_read(2) [of 64 f] assms(1,3) by simp
  finally show ?thesis
    using assms by (simp add: header_payload_def slice_read)
qed

interpretation run_header_codec: frame_codec encodeRunHeaderV1 decodeRunHeaderV1 "\<lambda>_. True"
proof
  fix h f
  assume enc: "encodeRunHeaderV1 h = Inr f"
  obtain n where valid: "validateHeader h = Inr n"
    using encodeRunHeaderV1_Inr [OF enc] by blast
  have f: "f = command_frame 1 (rh_exchangeRunId h) 0 (header_payload h)"
    using encodeRunHeaderV1_layout [OF valid] enc by (simp add: layout)
  have small: "length (rh_instruments h) < 2 ^ 32" "length (header_payload h) < 2 ^ 31" "68 + 12 * length (rh_instruments h) \<le> 65536"
    using validateHeader_Inr [OF valid] by auto
  note reads = command_frame_reads [OF f small(2)] header_reads [OF f small(1)]
  have len: "length f = 68 + 12 * length (rh_instruments h)" by (simp add: f)
  have eta: "\<lparr>rh_exchangeRunId = rh_exchangeRunId h, rh_behavioralRulesVersion = rh_behavioralRulesVersion h,
      rh_maxEventsPerCommand = rh_maxEventsPerCommand h, rh_maxRunCommands = rh_maxRunCommands h,
      rh_maxRunJournalBytes = rh_maxRunJournalBytes h, rh_instruments = rh_instruments h\<rparr> = h"
    by simp
  show "decodeRunHeaderV1 f = Inr h"
    using reads len small(3) valid by (simp add: decodeRunHeaderV1_def layout Let_def eta)
next
  fix f h
  assume dec: "decodeRunHeaderV1 f = Inr h"
  define k where "k = unat (readUint32LittleEndian f 60)"
  have facts: "36 \<le> length f" "take 4 f = JOURNAL_V1_MAGIC" "readUint16LittleEndian f 4 = 1"
    "readUint16LittleEndian f 6 = 1" "unat (readUint32LittleEndian f 8) = length f"
    "readUint64LittleEndian f 20 = 0" "unat (readUint32LittleEndian f 28) = length f - 36"
    "readUint32LittleEndian f 32 = journalV1Checksum f" "length f = 68 + 12 * k"
    "readUint32LittleEndian f 64 = 0"
    "\<exists>n. validateHeader h = Inr n"
    "h = \<lparr>rh_exchangeRunId = readUint64LittleEndian f 12,
         rh_behavioralRulesVersion = readUint32LittleEndian f 36,
         rh_maxEventsPerCommand = readUint32LittleEndian f 40,
         rh_maxRunCommands = readUint64LittleEndian f 44,
         rh_maxRunJournalBytes = readUint64LittleEndian f 52,
         rh_instruments = readInstruments f 68 k\<rparr>"
    using dec unfolding decodeRunHeaderV1_def layout Let_def k_def
    by (auto simp: result_iff unat_eq_zero split: if_splits)
  have "f = command_frame (readUint16LittleEndian f 6) (readUint64LittleEndian f 12) (readUint64LittleEndian f 20) (drop 36 f)"
    by (rule command_frameI [OF facts(2,3,5,7,1,8)])
  moreover have "header_payload h = drop 36 f"
    by (rule header_payload_read [OF facts(9) k_def facts(10)]) (simp_all add: facts(12))
  ultimately have "f = command_frame 1 (rh_exchangeRunId h) 0 (header_payload h)"
    using facts(4,6,12) by simp
  then show "True \<and> encodeRunHeaderV1 h = Inr f"
    using facts(11) encodeRunHeaderV1_layout by (auto simp: layout)
qed

end
