(* ===== verification/Run_Catalog_Codec.thy ===== *)
theory Run_Catalog_Codec
  imports Crc32c Domain
begin

text \<open>
  \<open>core/storage/src/run_catalog_codec.cpp\<close>: the 56-byte catalog that records the last reserved run
  identifier, the active run with its disposition, and the retained stopped run.
\<close>

section \<open>Snapshots\<close>

datatype RunCatalogDisposition =
    DISPOSITION_NONE | OPEN | PAUSED | CAPACITY_REACHED | FAIL_STOPPED | RECOVERY_FAILED
  | RunCatalogDisposition_other u8

record RunCatalogSnapshotV1 =
  rc_generation :: u64
  rc_lastReservedRunId :: "ExchangeRunId option"
  rc_activeRunId :: "ExchangeRunId option"
  rc_activeDisposition :: RunCatalogDisposition
  rc_retainedStoppedRunId :: "ExchangeRunId option"

datatype RunCatalogCodecError =
    RC_NONE | RC_INVALID_SIZE | RC_INVALID_MAGIC | RC_UNSUPPORTED_VERSION | RC_INVALID_TOTAL_LENGTH
  | RC_NONZERO_RESERVED_BYTES | RC_CHECKSUM_MISMATCH | RC_ZERO_GENERATION | RC_UNKNOWN_DISPOSITION
  | RC_ZERO_PRESENT_RUN_ID | RC_ACTIVE_DISPOSITION_MISMATCH | RC_RUN_ID_EXCEEDS_LAST_RESERVED
  | RC_DUPLICATE_ACTIVE_AND_RETAINED_RUN_ID

named_theorems catalog_layout \<open>offsets and sizes of the run catalog\<close>

definition RUN_CATALOG_V1_SIZE :: nat where [catalog_layout]: "RUN_CATALOG_V1_SIZE = 56"
definition CATALOG_MAGIC :: "u8 list" where "CATALOG_MAGIC = [0x46, 0x58, 0x52, 0x43]"
definition CATALOG_VERSION :: u16 where [catalog_layout]: "CATALOG_VERSION = 1"
definition GENERATION_OFFSET :: nat where [catalog_layout]: "GENERATION_OFFSET = 8"
definition LAST_RESERVED_RUN_ID_OFFSET :: nat where [catalog_layout]: "LAST_RESERVED_RUN_ID_OFFSET = 16"
definition ACTIVE_RUN_ID_OFFSET :: nat where [catalog_layout]: "ACTIVE_RUN_ID_OFFSET = 24"
definition ACTIVE_DISPOSITION_OFFSET :: nat where [catalog_layout]: "ACTIVE_DISPOSITION_OFFSET = 32"
definition FIRST_RESERVED_OFFSET :: nat where [catalog_layout]: "FIRST_RESERVED_OFFSET = 33"
definition FIRST_RESERVED_LENGTH :: nat where [catalog_layout]: "FIRST_RESERVED_LENGTH = 7"
definition RETAINED_STOPPED_RUN_ID_OFFSET :: nat where [catalog_layout]: "RETAINED_STOPPED_RUN_ID_OFFSET = 40"
definition CHECKSUM_OFFSET :: nat where [catalog_layout]: "CHECKSUM_OFFSET = 48"
definition FINAL_RESERVED_OFFSET :: nat where [catalog_layout]: "FINAL_RESERVED_OFFSET = 52"
definition FINAL_RESERVED_LENGTH :: nat where [catalog_layout]: "FINAL_RESERVED_LENGTH = 4"

fun disposition_value :: "RunCatalogDisposition \<Rightarrow> u8" where
  "disposition_value DISPOSITION_NONE = 0"
| "disposition_value OPEN = 1"
| "disposition_value PAUSED = 2"
| "disposition_value CAPACITY_REACHED = 3"
| "disposition_value FAIL_STOPPED = 4"
| "disposition_value RECOVERY_FAILED = 5"
| "disposition_value (RunCatalogDisposition_other v) = v"

definition disposition_of_value :: "u8 \<Rightarrow> RunCatalogDisposition" where
  "disposition_of_value v =
     (if v = 0 then DISPOSITION_NONE else if v = 1 then OPEN else if v = 2 then PAUSED
      else if v = 3 then CAPACITY_REACHED else if v = 4 then FAIL_STOPPED
      else if v = 5 then RECOVERY_FAILED else RunCatalogDisposition_other v)"

section \<open>Codec\<close>

definition encodedRunId :: "ExchangeRunId option \<Rightarrow> u64" where
  "encodedRunId runId = (case runId of Some r \<Rightarrow> r | None \<Rightarrow> 0)"

definition decodedRunId :: "u64 \<Rightarrow> ExchangeRunId option" where
  "decodedRunId v = (if v = 0 then None else Some v)"

definition containsNonzeroByte :: "u8 list \<Rightarrow> bool" where
  "containsNonzeroByte bytes \<longleftrightarrow> (\<exists>byte \<in> set bytes. byte \<noteq> 0)"

definition catalogChecksum :: "u8 list \<Rightarrow> u32" where
  "catalogChecksum bytes =
     crc_checksum (crc_update (crc_update init_Crc32cAccumulator (take CHECKSUM_OFFSET bytes))
       (take FINAL_RESERVED_LENGTH (drop FINAL_RESERVED_OFFSET bytes)))"

definition isKnownDispositionValue :: "u8 \<Rightarrow> bool" where
  "isKnownDispositionValue v \<longleftrightarrow> v \<le> disposition_value RECOVERY_FAILED"

definition isPresentZero :: "ExchangeRunId option \<Rightarrow> bool" where
  "isPresentZero runId \<longleftrightarrow> runId = Some 0"

definition exceedsLastReserved :: "ExchangeRunId option \<Rightarrow> ExchangeRunId option \<Rightarrow> bool" where
  "exceedsLastReserved runId lastReserved =
     (case runId of None \<Rightarrow> False
      | Some r \<Rightarrow> (case lastReserved of None \<Rightarrow> True | Some l \<Rightarrow> r > l))"

definition validateSnapshot :: "RunCatalogSnapshotV1 \<Rightarrow> RunCatalogCodecError + unit" where
  "validateSnapshot snap =
     (if rc_generation snap = 0 then Inl RC_ZERO_GENERATION
      else if \<not> isKnownDispositionValue (disposition_value (rc_activeDisposition snap))
      then Inl RC_UNKNOWN_DISPOSITION
      else if isPresentZero (rc_lastReservedRunId snap) \<or> isPresentZero (rc_activeRunId snap) \<or>
        isPresentZero (rc_retainedStoppedRunId snap)
      then Inl RC_ZERO_PRESENT_RUN_ID
      else
      let hasActiveRun = (rc_activeRunId snap \<noteq> None);
          hasActiveDisposition = (rc_activeDisposition snap \<noteq> DISPOSITION_NONE) in
      if hasActiveRun \<noteq> hasActiveDisposition then Inl RC_ACTIVE_DISPOSITION_MISMATCH
      else if rc_activeRunId snap \<noteq> None \<and> rc_retainedStoppedRunId snap \<noteq> None \<and>
        rc_activeRunId snap = rc_retainedStoppedRunId snap
      then Inl RC_DUPLICATE_ACTIVE_AND_RETAINED_RUN_ID
      else if exceedsLastReserved (rc_activeRunId snap) (rc_lastReservedRunId snap)
      then Inl RC_RUN_ID_EXCEEDS_LAST_RESERVED
      else if exceedsLastReserved (rc_retainedStoppedRunId snap) (rc_lastReservedRunId snap)
      then Inl RC_RUN_ID_EXCEEDS_LAST_RESERVED
      else Inr ())"

definition encodeRunCatalogV1 :: "RunCatalogSnapshotV1 \<Rightarrow> RunCatalogCodecError + u8 list" where
  "encodeRunCatalogV1 snap =
     bind_result (validateSnapshot snap) (\<lambda>_.
     let e0 = copy_into (replicate RUN_CATALOG_V1_SIZE 0) 0 CATALOG_MAGIC;
         e1 = writeUint16LittleEndian e0 4 CATALOG_VERSION;
         e2 = writeUint16LittleEndian e1 6 (of_nat RUN_CATALOG_V1_SIZE);
         e3 = writeUint64LittleEndian e2 GENERATION_OFFSET (rc_generation snap);
         e4 = writeUint64LittleEndian e3 LAST_RESERVED_RUN_ID_OFFSET (encodedRunId (rc_lastReservedRunId snap));
         e5 = writeUint64LittleEndian e4 ACTIVE_RUN_ID_OFFSET (encodedRunId (rc_activeRunId snap));
         e6 = e5[ACTIVE_DISPOSITION_OFFSET := disposition_value (rc_activeDisposition snap)];
         e7 = writeUint64LittleEndian e6 RETAINED_STOPPED_RUN_ID_OFFSET
                (encodedRunId (rc_retainedStoppedRunId snap))
     in Inr (writeUint32LittleEndian e7 CHECKSUM_OFFSET (catalogChecksum e7)))"

definition decodeRunCatalogV1 :: "u8 list \<Rightarrow> RunCatalogCodecError + RunCatalogSnapshotV1" where
  "decodeRunCatalogV1 input =
     (if length input \<noteq> RUN_CATALOG_V1_SIZE then Inl RC_INVALID_SIZE
      else if take (length CATALOG_MAGIC) input \<noteq> CATALOG_MAGIC then Inl RC_INVALID_MAGIC
      else if readUint16LittleEndian input 4 \<noteq> CATALOG_VERSION then Inl RC_UNSUPPORTED_VERSION
      else if readUint16LittleEndian input 6 \<noteq> of_nat RUN_CATALOG_V1_SIZE then Inl RC_INVALID_TOTAL_LENGTH
      else if containsNonzeroByte (take FIRST_RESERVED_LENGTH (drop FIRST_RESERVED_OFFSET input)) \<or>
        containsNonzeroByte (take FINAL_RESERVED_LENGTH (drop FINAL_RESERVED_OFFSET input))
      then Inl RC_NONZERO_RESERVED_BYTES
      else if readUint32LittleEndian input CHECKSUM_OFFSET \<noteq> catalogChecksum input
      then Inl RC_CHECKSUM_MISMATCH
      else
      let dispositionValue = input ! ACTIVE_DISPOSITION_OFFSET in
      if \<not> isKnownDispositionValue dispositionValue then Inl RC_UNKNOWN_DISPOSITION
      else
      let decoded =
            \<lparr>rc_generation = readUint64LittleEndian input GENERATION_OFFSET,
             rc_lastReservedRunId = decodedRunId (readUint64LittleEndian input LAST_RESERVED_RUN_ID_OFFSET),
             rc_activeRunId = decodedRunId (readUint64LittleEndian input ACTIVE_RUN_ID_OFFSET),
             rc_activeDisposition = disposition_of_value dispositionValue,
             rc_retainedStoppedRunId =
               decodedRunId (readUint64LittleEndian input RETAINED_STOPPED_RUN_ID_OFFSET)\<rparr>
      in bind_result (validateSnapshot decoded) (\<lambda>_. Inr decoded))"

section \<open>Layout\<close>

definition catalog_front :: "RunCatalogSnapshotV1 \<Rightarrow> u8 list" where
  "catalog_front snap =
     CATALOG_MAGIC @ le_bytes 2 CATALOG_VERSION @ le_bytes 2 (56 :: u16) @ le_bytes 8 (rc_generation snap) @
     le_bytes 8 (encodedRunId (rc_lastReservedRunId snap)) @ le_bytes 8 (encodedRunId (rc_activeRunId snap)) @
     disposition_value (rc_activeDisposition snap) # replicate 7 0 @
     le_bytes 8 (encodedRunId (rc_retainedStoppedRunId snap))"

definition catalog_crc :: "u8 list \<Rightarrow> u32" where
  "catalog_crc front = fold crc_byte (front @ replicate 4 0) 0xFFFFFFFF XOR FINAL_XOR"

definition catalog_bytes :: "RunCatalogSnapshotV1 \<Rightarrow> u8 list" where
  "catalog_bytes snap = catalog_front snap @ le_bytes 4 (catalog_crc (catalog_front snap)) @ replicate 4 0"

lemma length_CATALOG_MAGIC [simp]: "length CATALOG_MAGIC = 4"
  by (simp add: CATALOG_MAGIC_def)

lemma length_catalog_front [simp]: "length (catalog_front snap) = 48"
  by (simp add: catalog_front_def)

lemma catalogChecksum_front:
  "length front = 48 \<Longrightarrow> length c = 4 \<Longrightarrow> catalogChecksum (front @ c @ replicate 4 0) = catalog_crc front"
  by (simp add: catalogChecksum_def catalog_crc_def catalog_layout crc_checksum_def crc_update_def
      init_Crc32cAccumulator_def)


lemma encodeRunCatalogV1_layout:
  assumes "validateSnapshot snap = Inr ()"
  shows "encodeRunCatalogV1 snap = Inr (catalog_bytes snap)"
proof -
  let ?front = "((((((CATALOG_MAGIC @ le_bytes 2 CATALOG_VERSION) @ le_bytes 2 (56 :: u16)) @
      le_bytes 8 (rc_generation snap)) @ le_bytes 8 (encodedRunId (rc_lastReservedRunId snap))) @
      le_bytes 8 (encodedRunId (rc_activeRunId snap))) @ [disposition_value (rc_activeDisposition snap)])"
  have start: "(writeUint64LittleEndian (writeUint64LittleEndian (writeUint64LittleEndian (writeUint16LittleEndian
      (writeUint16LittleEndian (copy_into (replicate 56 0) 0 CATALOG_MAGIC) 4 CATALOG_VERSION) 6 56)
        8 (rc_generation snap)) 16 (encodedRunId (rc_lastReservedRunId snap)))
        24 (encodedRunId (rc_activeRunId snap)))[32 := disposition_value (rc_activeDisposition snap)] =
      ?front @ replicate 23 0"
    by (simp add: copy_into_zero copy_into_fresh writeUint_copy_into list_update_fresh del: append_assoc replicate.simps)
  have "?front @ replicate 23 0 = (?front @ replicate 7 0) @ replicate 16 0"
    by (simp flip: replicate_add)
  then have fields: "writeUint64LittleEndian (?front @ replicate 23 0) 40 (encodedRunId (rc_retainedStoppedRunId snap)) =
      catalog_front snap @ replicate 4 0 @ replicate 4 0"
    by (simp add: writeUint_copy_into copy_into_fresh del: append_assoc replicate.simps)
      (simp add: catalog_front_def flip: replicate_add)
  have "writeUint32LittleEndian (catalog_front snap @ replicate 4 0 @ replicate 4 0) 48
      (catalogChecksum (catalog_front snap @ replicate 4 0 @ replicate 4 0)) = catalog_bytes snap"
    by (simp only: catalogChecksum_front length_catalog_front length_replicate)
      (simp add: writeUint_copy_into copy_into_prefix catalog_bytes_def)
  then show ?thesis
    using assms start fields by (simp add: encodeRunCatalogV1_def catalog_layout Let_def)
qed

section \<open>The decoder inverts the encoder\<close>

definition known_disposition :: "RunCatalogSnapshotV1 \<Rightarrow> bool" where
  "known_disposition snap \<longleftrightarrow> (\<forall>v. rc_activeDisposition snap \<noteq> RunCatalogDisposition_other v)"

lemma disposition_value_inverse:
  "(\<forall>v. d \<noteq> RunCatalogDisposition_other v) \<Longrightarrow> disposition_of_value (disposition_value d) = d"
  by (cases d) (simp_all add: disposition_of_value_def)

lemma disposition_of_value_inverse: "disposition_value (disposition_of_value v) = v"
  by (simp add: disposition_of_value_def)

lemma disposition_of_known_value:
  assumes "isKnownDispositionValue v"
  shows "disposition_of_value v \<noteq> RunCatalogDisposition_other w"
proof -
  have "unat v \<le> 5"
    using assms by (simp add: isKnownDispositionValue_def word_le_nat_alt)
  then have "v \<in> of_nat ` {0 ..< 6}"
    by (intro image_eqI [of _ _ "unat v"]) simp_all
  then have "v \<in> set (map of_nat [0 ..< 6])" by simp
  then show ?thesis
    by (simp add: disposition_of_value_def upt_rec) auto
qed

lemma decodedRunId_inverse: "r \<noteq> Some 0 \<Longrightarrow> decodedRunId (encodedRunId r) = r"
  by (cases r) (auto simp: decodedRunId_def encodedRunId_def)

lemma encodedRunId_inverse: "encodedRunId (decodedRunId v) = v"
  by (simp add: decodedRunId_def encodedRunId_def)

lemma validateSnapshot_Inr:
  assumes "validateSnapshot snap = Inr ()"
  shows "rc_lastReservedRunId snap \<noteq> Some 0" "rc_activeRunId snap \<noteq> Some 0" "rc_retainedStoppedRunId snap \<noteq> Some 0"
    "isKnownDispositionValue (disposition_value (rc_activeDisposition snap))"
  using assms by (auto simp: validateSnapshot_def isPresentZero_def split: if_splits)

lemma not_containsNonzeroByte: "\<not> containsNonzeroByte bytes \<longleftrightarrow> bytes = replicate (length bytes) 0"
  unfolding containsNonzeroByte_def by (metis in_set_replicate replicate_length_same)

lemma catalog_bytes_reads:
  assumes "f = catalog_bytes snap"
  shows "length f = 56" "take 4 f = CATALOG_MAGIC" "readUint16LittleEndian f 4 = 1" "readUint16LittleEndian f 6 = 56"
    "readUint64LittleEndian f 8 = rc_generation snap"
    "readUint64LittleEndian f 16 = encodedRunId (rc_lastReservedRunId snap)"
    "readUint64LittleEndian f 24 = encodedRunId (rc_activeRunId snap)"
    "f ! 32 = disposition_value (rc_activeDisposition snap)"
    "take 7 (drop 33 f) = replicate 7 0" "take 4 (drop 52 f) = replicate 4 0"
    "readUint64LittleEndian f 40 = encodedRunId (rc_retainedStoppedRunId snap)"
    "readUint32LittleEndian f 48 = catalogChecksum f"
proof -
  show len: "length f = 56" by (simp add: assms catalog_bytes_def)
  have crc: "catalogChecksum f = catalog_crc (catalog_front snap)"
    unfolding assms catalog_bytes_def by (simp add: catalogChecksum_front)
  have "take 2 (drop 4 f) = le_bytes 2 (1 :: u16)" "take 2 (drop 6 f) = le_bytes 2 (56 :: u16)"
    "take 8 (drop 8 f) = le_bytes 8 (rc_generation snap)"
    "take 8 (drop 16 f) = le_bytes 8 (encodedRunId (rc_lastReservedRunId snap))"
    "take 8 (drop 24 f) = le_bytes 8 (encodedRunId (rc_activeRunId snap))"
    "take 8 (drop 40 f) = le_bytes 8 (encodedRunId (rc_retainedStoppedRunId snap))"
    "take 4 (drop 48 f) = le_bytes 4 (catalogChecksum f)"
    unfolding crc by (simp_all add: assms catalog_bytes_def catalog_layout)
      (simp_all add: catalog_front_def catalog_layout)
  then show "readUint16LittleEndian f 4 = 1" "readUint16LittleEndian f 6 = 56"
    "readUint64LittleEndian f 8 = rc_generation snap"
    "readUint64LittleEndian f 16 = encodedRunId (rc_lastReservedRunId snap)"
    "readUint64LittleEndian f 24 = encodedRunId (rc_activeRunId snap)"
    "readUint64LittleEndian f 40 = encodedRunId (rc_retainedStoppedRunId snap)"
    "readUint32LittleEndian f 48 = catalogChecksum f"
    using len by (auto intro: read_slice)
  show "take 4 f = CATALOG_MAGIC" "f ! 32 = disposition_value (rc_activeDisposition snap)"
    "take 7 (drop 33 f) = replicate 7 0" "take 4 (drop 52 f) = replicate 4 0"
    by (simp_all add: assms catalog_bytes_def catalog_front_def nth_append)
qed

lemma catalog_bytes_read:
  assumes "length f = 56" "take 4 f = CATALOG_MAGIC" "readUint16LittleEndian f 4 = 1" "readUint16LittleEndian f 6 = 56"
    "take 7 (drop 33 f) = replicate 7 0" "take 4 (drop 52 f) = replicate 4 0"
    "readUint32LittleEndian f 48 = catalogChecksum f"
    and "readUint64LittleEndian f 8 = rc_generation snap"
    "readUint64LittleEndian f 16 = encodedRunId (rc_lastReservedRunId snap)"
    "readUint64LittleEndian f 24 = encodedRunId (rc_activeRunId snap)"
    "f ! 32 = disposition_value (rc_activeDisposition snap)"
    "readUint64LittleEndian f 40 = encodedRunId (rc_retainedStoppedRunId snap)"
  shows "f = catalog_bytes snap"
proof -
  have "f = take 4 f @ take 2 (drop 4 f) @ take 2 (drop 6 f) @ take 8 (drop 8 f) @ take 8 (drop 16 f) @
      take 8 (drop 24 f) @ f ! 32 # take 7 (drop 33 f) @ take 8 (drop 40 f) @ take 4 (drop 48 f) @ take 4 (drop 52 f)"
    using assms(1) Cons_nth_drop_Suc [of 32 f] by (simp add: bytes_simps)
  also have "\<dots> = catalog_front snap @ le_bytes 4 (catalogChecksum f) @ replicate 4 0"
    using assms by (simp add: slice_read catalog_front_def catalog_layout)
  finally have f: "f = catalog_front snap @ le_bytes 4 (catalogChecksum f) @ replicate 4 0" .
  have "catalogChecksum f = catalog_crc (catalog_front snap)"
    by (subst f) (rule catalogChecksum_front; simp)
  then show ?thesis
    using f by (simp add: catalog_bytes_def)
qed

interpretation catalog_codec: frame_codec encodeRunCatalogV1 decodeRunCatalogV1 known_disposition
proof
  fix snap f
  assume known: "known_disposition snap" and enc: "encodeRunCatalogV1 snap = Inr f"
  then have valid: "validateSnapshot snap = Inr ()"
    by (auto simp: encodeRunCatalogV1_def result_iff)
  then have f: "f = catalog_bytes snap"
    using enc encodeRunCatalogV1_layout by simp
  note v = validateSnapshot_Inr [OF valid]
  have eta: "\<lparr>rc_generation = rc_generation snap, rc_lastReservedRunId = rc_lastReservedRunId snap,
      rc_activeRunId = rc_activeRunId snap, rc_activeDisposition = rc_activeDisposition snap,
      rc_retainedStoppedRunId = rc_retainedStoppedRunId snap\<rparr> = snap"
    by simp
  show "decodeRunCatalogV1 f = Inr snap"
    using catalog_bytes_reads [OF f] v valid known
    by (simp add: decodeRunCatalogV1_def catalog_layout Let_def containsNonzeroByte_def decodedRunId_inverse
        disposition_value_inverse known_disposition_def eta)
next
  fix f snap
  assume dec: "decodeRunCatalogV1 f = Inr snap"
  have facts: "length f = 56" "take 4 f = CATALOG_MAGIC" "readUint16LittleEndian f 4 = 1" "readUint16LittleEndian f 6 = 56"
    "\<not> containsNonzeroByte (take 7 (drop 33 f))" "\<not> containsNonzeroByte (take 4 (drop 52 f))"
    "readUint32LittleEndian f 48 = catalogChecksum f" "isKnownDispositionValue (f ! 32)" "validateSnapshot snap = Inr ()"
    "snap = \<lparr>rc_generation = readUint64LittleEndian f 8,
       rc_lastReservedRunId = decodedRunId (readUint64LittleEndian f 16),
       rc_activeRunId = decodedRunId (readUint64LittleEndian f 24),
       rc_activeDisposition = disposition_of_value (f ! 32),
       rc_retainedStoppedRunId = decodedRunId (readUint64LittleEndian f 40)\<rparr>"
    using dec unfolding decodeRunCatalogV1_def catalog_layout Let_def
    by (auto simp: result_iff split: if_splits)
  have "f = catalog_bytes snap"
    using facts(1-7) unfolding not_containsNonzeroByte
    by (intro catalog_bytes_read)
      (simp_all add: facts(10) encodedRunId_inverse disposition_of_value_inverse)
  then show "known_disposition snap \<and> encodeRunCatalogV1 snap = Inr f"
    using encodeRunCatalogV1_layout [OF facts(9)] disposition_of_known_value [OF facts(8)]
    by (simp add: known_disposition_def facts(10))
qed

end
