(* ===== verification/Codec_Properties.thy ===== *)
theory Codec_Properties
  imports Command_Codec Run_Header_Codec Run_Catalog_Codec
begin

text \<open>
  The properties of the journal command codecs, and the detection of corrupted frames.
\<close>

section \<open>Corruption\<close>

lemma bind_result_fails: "(\<forall>y. m \<noteq> Inr y) \<Longrightarrow> \<exists>e. bind_result m f = Inl e"
  by (cases m) simp_all

lemma validate_complete_checksum:
  assumes "validateJournalV1CommandEnvelope f t True = Inr env"
  shows "36 \<le> length f" and "take 4 (drop 32 f) = le_bytes 4 (journalV1Checksum f)"
proof -
  show len: "36 \<le> length f"
    using assms unfolding validateJournalV1CommandEnvelope_def layout by (auto split: if_splits)
  have "readUint32LittleEndian f 32 = journalV1Checksum f"
    using assms unfolding validateJournalV1CommandEnvelope_def layout Let_def by (auto split: if_splits)
  then show "take 4 (drop 32 f) = le_bytes 4 (journalV1Checksum f)"
    using len slice_read(2) [of 32 f] by simp
qed

lemma le_bytes_inject: "le_bytes 4 (v :: u32) = le_bytes 4 w \<longleftrightarrow> v = w"
proof
  assume "le_bytes 4 v = le_bytes 4 w"
  from arg_cong [OF this, of "le_value :: u8 list \<Rightarrow> u32"] show "v = w"
    by (simp add: le_value_le_bytes)
qed simp

lemma journalV1Checksum_fold:
  "journalV1Checksum f = fold crc_byte (take 32 f @ drop 36 f) 0xFFFFFFFF XOR FINAL_XOR"
  by (simp add: journalV1Checksum_def layout crc_checksum_def crc_update_def init_Crc32cAccumulator_def)

lemma journalV1Checksum_window:
  assumes "length xs \<le> 4" and "length ys = length xs"
    and "length pre + length xs \<le> 32 \<or> 36 \<le> length pre"
  shows "journalV1Checksum (pre @ xs @ post) = journalV1Checksum (pre @ ys @ post) \<longleftrightarrow> xs = ys"
proof -
  have "\<exists>a b. take 32 (pre @ zs @ post) @ drop 36 (pre @ zs @ post) = a @ zs @ b \<and>
      (length zs = length xs \<longrightarrow> a = (if 36 \<le> length pre then take 32 pre @ drop 36 pre else pre) \<and>
       b = (if 36 \<le> length pre then post else take (32 - length pre - length xs) post @ drop (36 - length pre - length xs) post))"
    if "length zs = length xs" for zs
    using assms(3) that by (auto simp: take_append drop_append)
  then obtain a b where "take 32 (pre @ zs @ post) @ drop 36 (pre @ zs @ post) = a @ zs @ b"
    if "length zs = length xs" for zs
    by metis
  then show ?thesis
    using assms(1,2) by (simp add: journalV1Checksum_fold xor_cancel fold_crc_byte_window del: fold_append)
qed

text \<open>A frame in which a window of at most four bytes, not crossing the border of the checksum field, is
  replaced by other bytes does not validate any more.\<close>

lemma corrupted_not_validated:
  assumes valid: "validateJournalV1CommandEnvelope (pre @ xs @ post) t True = Inr env"
    and len: "length xs \<le> 4" "length ys = length xs" and diff: "ys \<noteq> xs"
    and window: "length pre + length xs \<le> 32 \<or> 36 \<le> length pre \<or>
      32 \<le> length pre \<and> length pre + length xs \<le> 36"
  shows "validateJournalV1CommandEnvelope (pre @ ys @ post) t' True \<noteq> Inr env'"
proof
  assume valid': "validateJournalV1CommandEnvelope (pre @ ys @ post) t' True = Inr env'"
  note c = validate_complete_checksum [OF valid] and c' = validate_complete_checksum [OF valid']
  show False
  proof (cases "length pre + length xs \<le> 32 \<or> 36 \<le> length pre")
    case True
    then have "take 4 (drop 32 (pre @ xs @ post)) = take 4 (drop 32 (pre @ ys @ post))"
      using len by auto
    then have "journalV1Checksum (pre @ xs @ post) = journalV1Checksum (pre @ ys @ post)"
      unfolding c(2) c'(2) le_bytes_inject .
    then show False
      using journalV1Checksum_window [OF len True] diff by simp
  next
    case False
    then have pre: "32 \<le> length pre" "length pre + length xs \<le> 36"
      using window by auto
    then have "journalV1Checksum (pre @ xs @ post) = journalV1Checksum (pre @ ys @ post)"
      using len by (simp add: journalV1Checksum_fold)
    then have "take 4 (drop 32 (pre @ xs @ post)) = take 4 (drop 32 (pre @ ys @ post))"
      unfolding c(2) c'(2) by simp
    then show False
      using pre len diff by simp
  qed
qed

section \<open>Properties\<close>

text \<open>C7. The command codecs are bijections between commands and frames: \<open>decodeNewOrderV1\<close> accepts exactly
  the bytes that \<open>encodeNewOrderV1\<close> writes for a command with a constructible client command identifier,
  and gives that command back, and so do \<open>decodeCancelV1\<close> and \<open>encodeCancelV1\<close>.\<close>

theorem command_codec_exact:
  "(decodeNewOrderV1 f = Inr c \<longleftrightarrow> valid_ClientCommandId (jn_clientCommandId c) \<and> encodeNewOrderV1 c = Inr f) \<and>
   (decodeCancelV1 f = Inr x \<longleftrightarrow> valid_ClientCommandId (jc_clientCommandId x) \<and> encodeCancelV1 x = Inr f)"
  by (intro conjI new_order_codec.decode_iff cancel_codec.decode_iff)

text \<open>C8. The codecs of the run header and of the run catalog are exact: \<open>decodeRunHeaderV1\<close> accepts exactly what
  \<open>encodeRunHeaderV1\<close> writes, instruments included, and gives it back; \<open>decodeRunCatalogV1\<close> accepts exactly what
  \<open>encodeRunCatalogV1\<close> writes for snapshots with a disposition that is an enumerator.\<close>

theorem run_files_codec_exact:
  "(decodeRunHeaderV1 f = Inr h \<longleftrightarrow> encodeRunHeaderV1 h = Inr f) \<and>
   (decodeRunCatalogV1 g = Inr snap \<longleftrightarrow> known_disposition snap \<and> encodeRunCatalogV1 snap = Inr g)"
  using run_header_codec.decode_iff catalog_codec.decode_iff by blast

text \<open>C9. Corruption is detected: if a complete command frame is accepted and up to four consecutive bytes
  of it (before, inside or after the checksum field, not across its border) are changed, the result is
  rejected by either decoder.\<close>

theorem corrupted_frame_rejected:
  assumes "validateJournalV1CommandEnvelope (pre @ xs @ post) t True = Inr env"
    and "length xs \<le> 4" and "length ys = length xs" and "ys \<noteq> xs"
    and "length pre + length xs \<le> 32 \<or> 36 \<le> length pre \<or> 32 \<le> length pre \<and> length pre + length xs \<le> 36"
  shows "(\<exists>e. decodeNewOrderV1 (pre @ ys @ post) = Inl e) \<and> (\<exists>e. decodeCancelV1 (pre @ ys @ post) = Inl e)"
  unfolding decodeNewOrderV1_def decodeCancelV1_def
  by (intro conjI bind_result_fails allI corrupted_not_validated [OF assms])

theorem corrupted_frame_rejected_witness:
  "\<exists>e. decodeCancelV1 (0x47 # drop 1 (command_frame 3 7 4 (replicate 34 1))) = Inl e"
proof -
  let ?f = "command_frame 3 7 4 (replicate 34 1)"
  have "[0x46] @ drop 1 ?f = ?f"
    by (simp add: command_frame_def command_header_def JOURNAL_V1_MAGIC_def)
  then have "validateJournalV1CommandEnvelope ([] @ [0x46] @ drop 1 ?f) 3 True = Inr (env_of 3 7 4 (replicate 34 1))"
    using validate_frame [of 3 "replicate 34 1" 7 4] by simp
  from corrupted_frame_rejected [OF this, of "[0x47]"] show ?thesis by simp
qed

end
