(* ===== verification/Result_Projection.thy ===== *)
theory Result_Projection
  imports Matching_Runs
begin

text \<open>
  What a client and what the market see of a command result:
  \<open>matching_engine/src/private_result_projection.cpp\<close> and \<open>public_trade_projection.cpp\<close>. The
  authoritative batch names both parties of a trade; the private projection of a recipient holds only
  the legs of that recipient, the public projection names nobody.
  \<open>std::vector::reserve\<close> is a capacity hint and has no counterpart.
\<close>

section \<open>Private results\<close>

datatype TradeRole = MAKER | TAKER

record PrivateTrade =
  pt_eventId :: EventId
  pt_instrumentId :: InstrumentId
  pt_orderId :: OrderId
  pt_side :: Side
  pt_role :: TradeRole
  pt_executionPrice :: Price
  pt_executionQuantity :: Quantity
  pt_remainingQuantity :: Quantity

datatype PrivateEvent =
    PvTrade PrivateTrade
  | PvOrderRested OrderRested
  | PvOrderCancelled OrderCancelled
  | PvCommandRejected CommandRejected

type_synonym PrivateResult = "PrivateEvent list"

record RecipientResult =
  recipient :: ClientId
  rr_correlation :: "CommandResultCorrelation option"
  privateResult :: PrivateResult

type_synonym RecipientResults = "RecipientResult list"

record AffectedRecipients =
  ar_clients :: "ClientId list"
  ar_size :: nat

record RecipientPlan =
  rp_clientId :: ClientId
  projectedEventCount :: nat

definition makerSide :: "Side \<Rightarrow> Side result" where
  "makerSide side =
     (case side of
        Side_BUY \<Rightarrow> Inr Side_SELL
      | Side_SELL \<Rightarrow> Inr Side_BUY
      | Side_other _ \<Rightarrow> Inl (logic_error ''authoritative trade has invalid taker side''))"

definition projectedEventIncrement :: "BusinessEvent \<Rightarrow> ClientId \<Rightarrow> nat" where
  "projectedEventIncrement event client =
     (case event of
        EvTrade e \<Rightarrow> of_bool (makerClientId e = client) + of_bool (takerClientId e = client)
      | EvCommandRejected e \<Rightarrow> if cr_clientId e = client then 1 else 0
      | EvOrderRested e \<Rightarrow> if or_clientId e = client then 1 else 0
      | EvOrderCancelled e \<Rightarrow> if oc_clientId e = client then 1 else 0)"

definition affectedRecipients :: "BusinessEvent \<Rightarrow> AffectedRecipients" where
  "affectedRecipients event =
     (case event of
        EvTrade e \<Rightarrow>
          \<lparr>ar_clients = [makerClientId e, takerClientId e],
           ar_size = (if takerClientId e \<noteq> makerClientId e then 2 else 1)\<rparr>
      | EvCommandRejected e \<Rightarrow> \<lparr>ar_clients = [cr_clientId e, 0], ar_size = 1\<rparr>
      | EvOrderRested e \<Rightarrow> \<lparr>ar_clients = [or_clientId e, 0], ar_size = 1\<rparr>
      | EvOrderCancelled e \<Rightarrow> \<lparr>ar_clients = [oc_clientId e, 0], ar_size = 1\<rparr>)"

definition maker_trade :: "Trade \<Rightarrow> Side \<Rightarrow> PrivateTrade" where
  "maker_trade e side =
     \<lparr>pt_eventId = tr_eventId e, pt_instrumentId = tr_instrumentId e, pt_orderId = makerOrderId e,
      pt_side = side, pt_role = MAKER, pt_executionPrice = executionPrice e,
      pt_executionQuantity = executionQuantity e, pt_remainingQuantity = makerRemainingQuantity e\<rparr>"

definition taker_trade :: "Trade \<Rightarrow> PrivateTrade" where
  "taker_trade e =
     \<lparr>pt_eventId = tr_eventId e, pt_instrumentId = tr_instrumentId e, pt_orderId = takerOrderId e,
      pt_side = takerSide e, pt_role = TAKER, pt_executionPrice = executionPrice e,
      pt_executionQuantity = executionQuantity e, pt_remainingQuantity = takerRemainingQuantity e\<rparr>"

definition appendProjectedEvent :: "PrivateResult \<Rightarrow> BusinessEvent \<Rightarrow> ClientId \<Rightarrow> PrivateResult result" where
  "appendProjectedEvent output event client =
     (case event of
        EvTrade e \<Rightarrow>
          bind_result
            (if makerClientId e = client
             then bind_result (makerSide (takerSide e)) (\<lambda>side. Inr (output @ [PvTrade (maker_trade e side)]))
             else Inr output)
            (\<lambda>output. Inr (if takerClientId e = client then output @ [PvTrade (taker_trade e)] else output))
      | EvCommandRejected e \<Rightarrow>
          Inr (if cr_clientId e = client then output @ [PvCommandRejected e] else output)
      | EvOrderRested e \<Rightarrow>
          Inr (if or_clientId e = client then output @ [PvOrderRested e] else output)
      | EvOrderCancelled e \<Rightarrow>
          Inr (if oc_clientId e = client then output @ [PvOrderCancelled e] else output))"

definition makeRecipientResult :: "CommandResultBatch \<Rightarrow> ClientId \<Rightarrow> nat \<Rightarrow> RecipientResult" where
  "makeRecipientResult batch client eventCount =
     \<lparr>recipient = client,
      rr_correlation = (if client = co_clientId (correlation batch) then Some (correlation batch) else None),
      privateResult = []\<rparr>"

section \<open>Projection for one recipient\<close>

fun countProjected :: "ClientId \<Rightarrow> BusinessEvent list \<Rightarrow> nat \<Rightarrow> nat result" where
  "countProjected client [] projectedCount = Inr projectedCount"
| "countProjected client (event # evs) projectedCount =
     (let increment = projectedEventIncrement event client in
      if increment > SIZE_MAX - projectedCount
      then Inl (length_error ''private result event count overflow'')
      else countProjected client evs (projectedCount + increment))"

fun appendProjected :: "ClientId \<Rightarrow> BusinessEvent list \<Rightarrow> PrivateResult \<Rightarrow> PrivateResult result" where
  "appendProjected client [] output = Inr output"
| "appendProjected client (event # evs) output =
     bind_result (appendProjectedEvent output event client) (appendProjected client evs)"

definition projectPrivateResult ::
  "CommandResultBatch \<Rightarrow> ClientId \<Rightarrow> RecipientResult option result" where
  "projectPrivateResult batch client =
     bind_result (countProjected client (events batch) 0) (\<lambda>projectedCount.
       if projectedCount = 0 then Inr None
       else
         let projected = makeRecipientResult batch client projectedCount in
         bind_result (appendProjected client (events batch) (privateResult projected)) (\<lambda>output.
           Inr (Some (projected\<lparr>privateResult := output\<rparr>))))"

section \<open>Projection for every recipient\<close>

text \<open>\<open>std::find_if\<close>: the index of the first match, \<open>None\<close> for the end iterator.\<close>

fun find_if :: "('a \<Rightarrow> bool) \<Rightarrow> 'a list \<Rightarrow> nat option" where
  "find_if P [] = None"
| "find_if P (x # xs) = (if P x then Some 0 else map_option Suc (find_if P xs))"

definition planRecipient :: "BusinessEvent \<Rightarrow> ClientId \<Rightarrow> RecipientPlan list \<Rightarrow> RecipientPlan list result" where
  "planRecipient event client plans =
     (let eventCount = projectedEventIncrement event client in
      case find_if (\<lambda>plan. rp_clientId plan = client) plans of
        None \<Rightarrow> Inr (plans @ [\<lparr>rp_clientId = client, projectedEventCount = eventCount\<rparr>])
      | Some existing \<Rightarrow>
          let plan = plans ! existing in
          if eventCount > SIZE_MAX - projectedEventCount plan
          then Inl (length_error ''recipient private result event count overflow'')
          else Inr (plans[existing := plan\<lparr>projectedEventCount := projectedEventCount plan + eventCount\<rparr>]))"

definition projectRecipient :: "BusinessEvent \<Rightarrow> ClientId \<Rightarrow> RecipientResults \<Rightarrow> RecipientResults result" where
  "projectRecipient event client projected =
     (case find_if (\<lambda>r. recipient r = client) projected of
        None \<Rightarrow> Inl (logic_error ''recipient plan missing during private result projection'')
      | Some output \<Rightarrow>
          bind_result (appendProjectedEvent (privateResult (projected ! output)) event client) (\<lambda>privateEvents.
            Inr (projected[output := (projected ! output)\<lparr>privateResult := privateEvents\<rparr>])))"

text \<open>The nested loops over the events and over the recipients of each event.\<close>

fun forRecipients :: "('s \<Rightarrow> ClientId \<Rightarrow> 's result) \<Rightarrow> ClientId list \<Rightarrow> 's \<Rightarrow> 's result" where
  "forRecipients f [] s = Inr s"
| "forRecipients f (c # cs) s = bind_result (f s c) (forRecipients f cs)"

fun forEvents :: "(BusinessEvent \<Rightarrow> ClientId \<Rightarrow> 's \<Rightarrow> 's result) \<Rightarrow> BusinessEvent list \<Rightarrow> 's \<Rightarrow> 's result" where
  "forEvents f [] s = Inr s"
| "forEvents f (event # evs) s =
     (let recipients = affectedRecipients event in
      bind_result (forRecipients (\<lambda>s c. f event c s) (take (ar_size recipients) (ar_clients recipients)) s)
        (forEvents f evs))"

definition projectPrivateResults :: "CommandResultBatch \<Rightarrow> RecipientResults result" where
  "projectPrivateResults batch =
     bind_result (forEvents planRecipient (events batch) []) (\<lambda>plans.
       forEvents projectRecipient (events batch)
         (map (\<lambda>plan. makeRecipientResult batch (rp_clientId plan) (projectedEventCount plan)) plans))"

section \<open>Public trades\<close>

record PublicTrade =
  pu_eventId :: EventId
  pu_instrumentId :: InstrumentId
  pu_executionPrice :: Price
  pu_executionQuantity :: Quantity
  aggressorSide :: Side

fun projectTrades :: "BusinessEvent list \<Rightarrow> PublicTrade list \<Rightarrow> PublicTrade list" where
  "projectTrades [] projected = projected"
| "projectTrades (event # evs) projected =
     (case event of
        EvTrade trade \<Rightarrow>
          projectTrades evs (projected @
            [\<lparr>pu_eventId = tr_eventId trade, pu_instrumentId = tr_instrumentId trade,
              pu_executionPrice = executionPrice trade, pu_executionQuantity = executionQuantity trade,
              aggressorSide = takerSide trade\<rparr>])
      | _ \<Rightarrow> projectTrades evs projected)"

definition projectPublicTrades :: "CommandResultBatch \<Rightarrow> PublicTrade list" where
  "projectPublicTrades batch = projectTrades (events batch) []"

section \<open>The views that the projections compute\<close>

text \<open>The legs of an event that a client sees, and the clients that an event concerns.\<close>

definition opposite_side :: "Side \<Rightarrow> Side" where
  "opposite_side s = (if s = Side_BUY then Side_SELL else Side_BUY)"

definition private_view :: "ClientId \<Rightarrow> BusinessEvent \<Rightarrow> PrivateEvent list" where
  "private_view client event =
     (case event of
        EvTrade e \<Rightarrow>
          (if makerClientId e = client then [PvTrade (maker_trade e (opposite_side (takerSide e)))] else []) @
          (if takerClientId e = client then [PvTrade (taker_trade e)] else [])
      | EvCommandRejected e \<Rightarrow> if cr_clientId e = client then [PvCommandRejected e] else []
      | EvOrderRested e \<Rightarrow> if or_clientId e = client then [PvOrderRested e] else []
      | EvOrderCancelled e \<Rightarrow> if oc_clientId e = client then [PvOrderCancelled e] else [])"

definition parties :: "BusinessEvent \<Rightarrow> ClientId list" where
  "parties event = (let r = affectedRecipients event in take (ar_size r) (ar_clients r))"

definition first_seen :: "ClientId list \<Rightarrow> ClientId list" where
  "first_seen cs = rev (remdups (rev cs))"

definition recipients_of :: "BusinessEvent list \<Rightarrow> ClientId list" where
  "recipients_of evs = first_seen (concat (map parties evs))"

definition recipient_view :: "CommandResultBatch \<Rightarrow> BusinessEvent list \<Rightarrow> ClientId \<Rightarrow> RecipientResult" where
  "recipient_view batch evs client =
     \<lparr>recipient = client,
      rr_correlation = (if client = co_clientId (correlation batch) then Some (correlation batch) else None),
      privateResult = concat (map (private_view client) evs)\<rparr>"

definition sided :: "BusinessEvent \<Rightarrow> bool" where
  "sided event = (case event of EvTrade e \<Rightarrow> takerSide e = Side_BUY \<or> takerSide e = Side_SELL | _ \<Rightarrow> True)"

lemma first_seen_simps [simp]:
  "first_seen [] = []"
  "first_seen (cs @ [c]) = (if c \<in> set cs then first_seen cs else first_seen cs @ [c])"
  "set (first_seen cs) = set cs"
  "distinct (first_seen cs)"
  by (simp_all add: first_seen_def)

lemma projectedEventIncrement_view: "projectedEventIncrement event client = length (private_view client event)"
  by (simp add: projectedEventIncrement_def private_view_def split: BusinessEvent.splits)

lemma length_private_view: "length (private_view client event) \<le> 2"
  by (simp add: private_view_def split: BusinessEvent.splits)

lemma private_view_parties: "private_view client event \<noteq> [] \<longleftrightarrow> client \<in> set (parties event)"
  by (auto simp: private_view_def parties_def affectedRecipients_def Let_def split: BusinessEvent.splits)

lemma view_if: "(if client \<in> set (parties event) then private_view client event else []) = private_view client event"
  using private_view_parties [of client event] by auto

lemma view_if_length:
  "(if client \<in> set (parties event) then length (private_view client event) else 0) =
     length (private_view client event)"
  using private_view_parties [of client event] by auto

lemma distinct_parties: "distinct (parties event)"
  by (auto simp: parties_def affectedRecipients_def Let_def split: BusinessEvent.splits)

lemma appendProjectedEvent_view:
  "sided event \<Longrightarrow> appendProjectedEvent output event client = Inr (output @ private_view client event)"
  by (auto simp: appendProjectedEvent_def private_view_def sided_def makerSide_def opposite_side_def
      split: BusinessEvent.splits Side.splits)

lemma length_views: "length (concat (map (private_view client) evs)) \<le> 2 * length evs"
proof (induction evs)
  case (Cons e evs)
  then show ?case
    using length_private_view [of client e] by simp
qed simp

lemma countProjected_view:
  "n + length (concat (map (private_view client) evs)) \<le> SIZE_MAX \<Longrightarrow>
     countProjected client evs n = Inr (n + length (concat (map (private_view client) evs)))"
  by (induction evs arbitrary: n) (auto simp: projectedEventIncrement_view Let_def)

lemma appendProjected_view:
  "\<forall>e \<in> set evs. sided e \<Longrightarrow>
     appendProjected client evs acc = Inr (acc @ concat (map (private_view client) evs))"
  by (induction evs arbitrary: acc) (simp_all add: appendProjectedEvent_view)

lemma projectPrivateResult_view:
  assumes "\<forall>e \<in> set (events batch). sided e" and "2 * length (events batch) \<le> SIZE_MAX"
  shows "projectPrivateResult batch client =
    Inr (if client \<in> set (recipients_of (events batch))
         then Some (recipient_view batch (events batch) client) else None)"
proof -
  have "length (concat (map (private_view client) (events batch))) \<le> SIZE_MAX"
    using length_views [of client "events batch"] assms(2) by linarith
  moreover have "length (concat (map (private_view client) (events batch))) = 0 \<longleftrightarrow>
      client \<notin> set (recipients_of (events batch))"
    using private_view_parties [of client] by (auto simp: recipients_of_def)
  ultimately show ?thesis
    using countProjected_view [of 0 client "events batch"] appendProjected_view [OF assms(1)]
    by (simp add: projectPrivateResult_def makeRecipientResult_def recipient_view_def Let_def del: length_concat)
qed

section \<open>Both projections agree\<close>

text \<open>\<open>find_if\<close> on a list with one entry per client, and the update of that entry.\<close>

lemma find_if_map:
  assumes "\<And>c. key (g c) = c" and "c \<in> set cs"
  shows "\<exists>i < length cs. find_if (\<lambda>x. key x = c) (map g cs) = Some i \<and> cs ! i = c"
  using assms(2) by (induction cs) (auto simp: assms(1))

lemma find_if_map_None:
  "(\<And>c. key (g c) = c) \<Longrightarrow> c \<notin> set cs \<Longrightarrow> find_if (\<lambda>x. key x = c) (map g cs) = None"
  by (induction cs) auto

lemma map_update_distinct:
  "distinct cs \<Longrightarrow> i < length cs \<Longrightarrow> (map g cs)[i := v] = map (g(cs ! i := v)) cs"
  by (auto simp: list_eq_iff_nth_eq nth_list_update nth_eq_iff_index_eq)

text \<open>After the recipients in \<open>done\<close> of the current event, the plans count the earlier events.\<close>

definition plan_for :: "BusinessEvent list \<Rightarrow> BusinessEvent \<Rightarrow> ClientId list \<Rightarrow> ClientId \<Rightarrow> RecipientPlan" where
  "plan_for evs event seen c =
     \<lparr>rp_clientId = c, projectedEventCount =
        length (concat (map (private_view c) evs)) + (if c \<in> set seen then length (private_view c event) else 0)\<rparr>"

lemma planRecipient_view:
  assumes "c \<notin> set seen" and "2 * length evs + 2 \<le> SIZE_MAX" and "cs = first_seen ds"
    and known: "\<forall>c'. c' \<notin> set ds \<longrightarrow> concat (map (private_view c') evs) = []"
  shows "planRecipient event c (map (plan_for evs event seen) cs) =
    Inr (map (plan_for evs event (seen @ [c])) (first_seen (ds @ [c])))"
proof (cases "c \<in> set ds")
  case True
  obtain i where i: "i < length cs" "cs ! i = c"
    "find_if (\<lambda>x. rp_clientId x = c) (map (plan_for evs event seen) cs) = Some i"
    using find_if_map [of rp_clientId "plan_for evs event seen" c cs] True
    by (auto simp: plan_for_def assms(3))
  have "length (concat (map (private_view c) evs)) + length (private_view c event) \<le> SIZE_MAX"
    using length_views [of c evs] length_private_view [of c event] assms(2) by linarith
  then show ?thesis
    using i assms(1) True
    by (auto simp: planRecipient_def projectedEventIncrement_view Let_def map_update_distinct assms(3)
        plan_for_def simp del: length_concat)
next
  case False
  then show ?thesis
    using find_if_map_None [of rp_clientId "plan_for evs event seen" c cs] known assms(1)
    by (auto simp: planRecipient_def projectedEventIncrement_view Let_def assms(3) plan_for_def
        simp del: length_concat)
qed

lemma forRecipients_invariant:
  assumes "\<And>pre c suf s. cs = pre @ c # suf \<Longrightarrow> I pre s \<Longrightarrow> \<exists>s'. f s c = Inr s' \<and> I (pre @ [c]) s'"
    and "I [] s"
  shows "\<exists>s'. forRecipients f cs s = Inr s' \<and> I cs s'"
proof -
  have "cs = pre @ suf \<Longrightarrow> I pre s \<Longrightarrow> \<exists>s'. forRecipients f suf s = Inr s' \<and> I cs s'" for pre suf s
  proof (induction suf arbitrary: pre s)
    case (Cons c suf)
    obtain s' where "f s c = Inr s'" "I (pre @ [c]) s'"
      using assms(1) [OF Cons.prems] by blast
    then show ?case
      using Cons.IH [of "pre @ [c]" s'] Cons.prems(1) by auto
  qed simp
  then show ?thesis
    using assms(2) by force
qed

lemma forEvents_invariant:
  assumes "\<And>pre event suf s. evs = pre @ event # suf \<Longrightarrow> I pre s \<Longrightarrow>
      \<exists>s'. forRecipients (\<lambda>s c. f event c s) (parties event) s = Inr s' \<and> I (pre @ [event]) s'"
    and "I [] s"
  shows "\<exists>s'. forEvents f evs s = Inr s' \<and> I evs s'"
proof -
  have "evs = pre @ suf \<Longrightarrow> I pre s \<Longrightarrow> \<exists>s'. forEvents f suf s = Inr s' \<and> I evs s'" for pre suf s
  proof (induction suf arbitrary: pre s)
    case (Cons e suf)
    obtain s' where "forRecipients (\<lambda>s c. f e c s) (parties e) s = Inr s'" "I (pre @ [e]) s'"
      using assms(1) [OF Cons.prems] by blast
    then show ?case
      using Cons.IH [of "pre @ [e]" s'] Cons.prems(1) by (auto simp: parties_def Let_def)
  qed simp
  then show ?thesis
    using assms(2) by force
qed

lemma views_empty: "c \<notin> set (concat (map parties evs)) \<Longrightarrow> concat (map (private_view c) evs) = []"
  using private_view_parties [of c] by auto

definition counted :: "BusinessEvent list \<Rightarrow> ClientId \<Rightarrow> RecipientPlan" where
  "counted evs c = \<lparr>rp_clientId = c, projectedEventCount = length (concat (map (private_view c) evs))\<rparr>"

lemma planEvents_view:
  assumes "2 * length evs \<le> SIZE_MAX"
  shows "forEvents planRecipient evs [] = Inr (map (counted evs) (recipients_of evs))"
proof -
  have "\<exists>plans. forEvents planRecipient evs [] = Inr plans \<and> plans = map (counted evs) (recipients_of evs)"
  proof (rule forEvents_invariant)
    fix pre event suf plans
    assume evs: "evs = pre @ event # suf" and plans: "plans = map (counted pre) (recipients_of pre)"
    let ?ds = "concat (map parties pre)"
    have "\<exists>plans'. forRecipients (\<lambda>s c. planRecipient event c s) (parties event) plans = Inr plans' \<and>
        plans' = map (plan_for pre event (parties event)) (first_seen (?ds @ parties event))"
    proof (rule forRecipients_invariant)
      fix seen c rest plans
      assume split: "parties event = seen @ c # rest"
        and plans: "plans = map (plan_for pre event seen) (first_seen (?ds @ seen))"
      have "c \<notin> set seen"
        using distinct_parties [of event] split by simp
      then show "\<exists>s'. planRecipient event c plans = Inr s' \<and>
          s' = map (plan_for pre event (seen @ [c])) (first_seen (?ds @ seen @ [c]))"
        using planRecipient_view [of c seen pre _ "?ds @ seen" event] assms evs plans
          views_empty [of _ pre] by simp
    qed (simp add: plans recipients_of_def plan_for_def counted_def)
    moreover have "plan_for pre event (parties event) = counted (pre @ [event])"
      by (rule ext) (simp add: plan_for_def counted_def view_if_length del: length_concat)
    ultimately show "\<exists>s'. forRecipients (\<lambda>s c. planRecipient event c s) (parties event) plans = Inr s' \<and>
        s' = map (counted (pre @ [event])) (recipients_of (pre @ [event]))"
      by (simp add: recipients_of_def)
  qed (simp add: recipients_of_def)
  then show ?thesis by simp
qed

definition projected_for ::
  "CommandResultBatch \<Rightarrow> BusinessEvent list \<Rightarrow> BusinessEvent \<Rightarrow> ClientId list \<Rightarrow> ClientId \<Rightarrow> RecipientResult" where
  "projected_for batch evs event seen c =
     (recipient_view batch evs c)\<lparr>privateResult := concat (map (private_view c) evs) @
        (if c \<in> set seen then private_view c event else [])\<rparr>"

lemma projectRecipient_view:
  assumes "c \<notin> set seen" and "c \<in> set cs" and "distinct cs" and "sided event"
  shows "projectRecipient event c (map (projected_for batch evs event seen) cs) =
    Inr (map (projected_for batch evs event (seen @ [c])) cs)"
proof -
  obtain i where i: "i < length cs" "cs ! i = c"
    "find_if (\<lambda>x. recipient x = c) (map (projected_for batch evs event seen) cs) = Some i"
    using find_if_map [of recipient "projected_for batch evs event seen" c cs] assms(2)
    by (auto simp: projected_for_def recipient_view_def)
  then show ?thesis
    using assms
    by (auto simp: projectRecipient_def appendProjectedEvent_view map_update_distinct projected_for_def
        recipient_view_def)
qed

lemma projectEvents_view:
  assumes "\<forall>e \<in> set evs. sided e"
  shows "forEvents projectRecipient evs (map (recipient_view batch []) (recipients_of evs)) =
    Inr (map (recipient_view batch evs) (recipients_of evs))"
proof -
  let ?cs = "recipients_of evs"
  have "\<exists>rs. forEvents projectRecipient evs (map (recipient_view batch []) ?cs) = Inr rs \<and>
      rs = map (recipient_view batch evs) ?cs"
  proof (rule forEvents_invariant [where I = "\<lambda>pre rs. rs = map (recipient_view batch pre) (recipients_of evs)"])
    fix pre event suf rs
    assume evs: "evs = pre @ event # suf" and rs: "rs = map (recipient_view batch pre) ?cs"
    have known: "set (parties event) \<subseteq> set ?cs"
      by (auto simp: recipients_of_def evs)
    have "\<exists>rs'. forRecipients (\<lambda>s c. projectRecipient event c s) (parties event) rs = Inr rs' \<and>
        rs' = map (projected_for batch pre event (parties event)) ?cs"
    proof (rule forRecipients_invariant)
      fix seen c rest rs
      assume split: "parties event = seen @ c # rest"
        and rs: "rs = map (projected_for batch pre event seen) ?cs"
      have "c \<notin> set seen"
        using distinct_parties [of event] split by simp
      then show "\<exists>s'. projectRecipient event c rs = Inr s' \<and>
          s' = map (projected_for batch pre event (seen @ [c])) ?cs"
        using projectRecipient_view [of c seen ?cs event batch pre] rs known split assms evs
        by (simp add: recipients_of_def)
    qed (simp add: rs projected_for_def recipient_view_def)
    moreover have "projected_for batch pre event (parties event) = recipient_view batch (pre @ [event])"
      by (rule ext) (simp add: projected_for_def recipient_view_def view_if)
    ultimately show "\<exists>s'. forRecipients (\<lambda>s c. projectRecipient event c s) (parties event) rs = Inr s' \<and>
        s' = map (recipient_view batch (pre @ [event])) ?cs"
      by simp
  qed simp
  then show ?thesis by simp
qed

lemma projectPrivateResults_view:
  assumes "\<forall>e \<in> set (events batch). sided e" and "2 * length (events batch) \<le> SIZE_MAX"
  shows "projectPrivateResults batch =
    Inr (map (recipient_view batch (events batch)) (recipients_of (events batch)))"
proof -
  have "(\<lambda>plan. makeRecipientResult batch (rp_clientId plan) (projectedEventCount plan)) \<circ>
      counted (events batch) = recipient_view batch []"
    by (simp add: makeRecipientResult_def counted_def recipient_view_def fun_eq_iff)
  then show ?thesis
    using planEvents_view [OF assms(2)] projectEvents_view [OF assms(1), of batch]
    by (simp add: projectPrivateResults_def)
qed

lemma projectPublicTrades_view:
  "projectPublicTrades batch =
     map (\<lambda>t. \<lparr>pu_eventId = tr_eventId t, pu_instrumentId = tr_instrumentId t,
       pu_executionPrice = executionPrice t, pu_executionQuantity = executionQuantity t,
       aggressorSide = takerSide t\<rparr>) (trades_of (events batch))"
proof -
  have "projectTrades evs acc = acc @
      map (\<lambda>t. \<lparr>pu_eventId = tr_eventId t, pu_instrumentId = tr_instrumentId t,
       pu_executionPrice = executionPrice t, pu_executionQuantity = executionQuantity t,
       aggressorSide = takerSide t\<rparr>) (trades_of evs)" for evs acc
    by (induction evs arbitrary: acc) (auto split: BusinessEvent.splits)
  then show ?thesis
    by (simp add: projectPublicTrades_def)
qed

section \<open>The batches of the engine\<close>

lemma sided_spec_command:
  "\<forall>e \<in> set (snd (snd (spec_command runId message b))). sided e"
proof -
  have "\<forall>e \<in> set (trade_reports runId message n q fs). sided e" for n q fs
    by (induction runId message n q fs rule: trade_reports.induct)
      (auto simp: sided_def trade_report_def domain_side_def)
  then show ?thesis
    by (auto simp: spec_command_def spec_cancel_def spec_order_def Let_def rejection_def cancel_report_def
        remainder_event_def sided_def split: option.splits prod.splits if_splits)
qed

lemma length_spec_command: "length (snd (snd (spec_command runId message b))) \<le> 4096"
  by (auto simp: spec_command_def spec_cancel_def spec_order_def Let_def split: option.splits prod.splits)

lemma spec_batch_projectable:
  "\<forall>e \<in> set (events (spec_batch runId message b)). sided e"
  "2 * length (events (spec_batch runId message b)) \<le> SIZE_MAX"
  using sided_spec_command [of runId message b] length_spec_command [of runId message b]
  by (auto simp: spec_batch_def SIZE_MAX_def)

end
