(* ===== verification/Result_Queues.thy ===== *)
theory Result_Queues
  imports Result_Projection
begin

text \<open>
  The three bounded queues between the components, \<open>command_result_queue.hpp\<close>,
  \<open>private_result_queue.hpp\<close> and \<open>public_trade_queue.hpp\<close> of \<open>matching_engine/include\<close>. Each member
  function holds the queue's mutex for its whole body, so a call is one step and a concurrent use is a
  sequence of calls. The locale \<open>bounded_queue\<close> states what clients rely on: first in, first out, and
  a bounded load. A result \<open>false\<close> of \<open>tryPop\<close> is \<open>None\<close>.
\<close>

section \<open>The queues\<close>

subsection \<open>Command results\<close>

record BoundedCommandResultQueue =
  crq_capacity :: nat
  crq_batches :: "CommandResultBatch list"

definition make_BoundedCommandResultQueue :: "nat \<Rightarrow> BoundedCommandResultQueue result" where
  "make_BoundedCommandResultQueue capacity =
     (if capacity = 0 then Inl (invalid_argument ''command-result queue capacity must be positive'')
      else Inr \<lparr>crq_capacity = capacity, crq_batches = []\<rparr>)"

definition crq_tryPush ::
  "BoundedCommandResultQueue \<Rightarrow> CommandResultBatch option \<Rightarrow> (bool \<times> BoundedCommandResultQueue) result" where
  "crq_tryPush q batch =
     (case batch of
        None \<Rightarrow> Inl (invalid_argument ''command-result queue cannot accept an empty batch pointer'')
      | Some b \<Rightarrow>
          if length (crq_batches q) \<ge> crq_capacity q then Inr (False, q)
          else Inr (True, q\<lparr>crq_batches := crq_batches q @ [b]\<rparr>))"

definition crq_tryPop ::
  "BoundedCommandResultQueue \<Rightarrow> (CommandResultBatch \<times> BoundedCommandResultQueue) option" where
  "crq_tryPop q =
     (case crq_batches q of [] \<Rightarrow> None | b # bs \<Rightarrow> Some (b, q\<lparr>crq_batches := bs\<rparr>))"

definition crq_empty :: "BoundedCommandResultQueue \<Rightarrow> bool" where
  "crq_empty q \<longleftrightarrow> crq_batches q = []"

definition crq_size :: "BoundedCommandResultQueue \<Rightarrow> nat" where
  "crq_size q = length (crq_batches q)"

subsection \<open>Private results\<close>

text \<open>The subtractions on the counter are exact because it never exceeds the capacity and never falls
  below the size of a queued batch: the invariant of \<open>prq\<close> below.\<close>

record BoundedPrivateResultQueue =
  prq_eventCapacity :: nat
  prq_batches :: "RecipientResults list"
  prq_queuedEventCount :: nat

definition make_BoundedPrivateResultQueue :: "nat \<Rightarrow> BoundedPrivateResultQueue result" where
  "make_BoundedPrivateResultQueue eventCapacity =
     (if eventCapacity = 0
      then Inl (invalid_argument ''private-result queue event capacity must be positive'')
      else Inr \<lparr>prq_eventCapacity = eventCapacity, prq_batches = [], prq_queuedEventCount = 0\<rparr>)"

fun batchEventCount :: "RecipientResults \<Rightarrow> nat \<Rightarrow> nat result" where
  "batchEventCount [] n = Inr n"
| "batchEventCount (r # rs) n =
     (if length (privateResult r) > SIZE_MAX - n
      then Inl (length_error ''private-result batch event count overflow'')
      else batchEventCount rs (n + length (privateResult r)))"

definition prq_tryPush ::
  "BoundedPrivateResultQueue \<Rightarrow> RecipientResults \<Rightarrow> (bool \<times> BoundedPrivateResultQueue) result" where
  "prq_tryPush q batch =
     (if batch = [] then Inl (invalid_argument ''private-result queue cannot accept an empty batch'')
      else bind_result (batchEventCount batch 0) (\<lambda>eventCount.
        if eventCount = 0
        then Inl (invalid_argument ''private-result queue cannot accept a batch without events'')
        else if eventCount > prq_eventCapacity q - prq_queuedEventCount q then Inr (False, q)
        else Inr (True, q\<lparr>prq_batches := prq_batches q @ [batch],
                          prq_queuedEventCount := prq_queuedEventCount q + eventCount\<rparr>)))"

definition prq_tryPop ::
  "BoundedPrivateResultQueue \<Rightarrow> (RecipientResults \<times> BoundedPrivateResultQueue) option" where
  "prq_tryPop q =
     (case prq_batches q of
        [] \<Rightarrow> None
      | b # bs \<Rightarrow>
          Some (b, q\<lparr>prq_batches := bs,
                     prq_queuedEventCount :=
                       foldl (\<lambda>n r. n - length (privateResult r)) (prq_queuedEventCount q) b\<rparr>))"

subsection \<open>Public trades\<close>

record BoundedPublicTradeQueue =
  ptq_recordCapacity :: nat
  ptq_batches :: "PublicTrade list list"
  ptq_queuedRecordCount :: nat

definition make_BoundedPublicTradeQueue :: "nat \<Rightarrow> BoundedPublicTradeQueue result" where
  "make_BoundedPublicTradeQueue recordCapacity =
     (if recordCapacity = 0
      then Inl (invalid_argument ''public-trade queue record capacity must be positive'')
      else Inr \<lparr>ptq_recordCapacity = recordCapacity, ptq_batches = [], ptq_queuedRecordCount = 0\<rparr>)"

definition ptq_tryPush ::
  "BoundedPublicTradeQueue \<Rightarrow> PublicTrade list \<Rightarrow> (bool \<times> BoundedPublicTradeQueue) result" where
  "ptq_tryPush q batch =
     (if batch = [] then Inl (invalid_argument ''public-trade queue cannot accept an empty batch'')
      else if length batch > ptq_recordCapacity q - ptq_queuedRecordCount q then Inr (False, q)
      else Inr (True, q\<lparr>ptq_batches := ptq_batches q @ [batch],
                        ptq_queuedRecordCount := ptq_queuedRecordCount q + length batch\<rparr>))"

definition ptq_tryPop :: "BoundedPublicTradeQueue \<Rightarrow> (PublicTrade list \<times> BoundedPublicTradeQueue) option" where
  "ptq_tryPop q =
     (case ptq_batches q of
        [] \<Rightarrow> None
      | b # bs \<Rightarrow>
          Some (b, q\<lparr>ptq_batches := bs, ptq_queuedRecordCount := ptq_queuedRecordCount q - length b\<rparr>))"

section \<open>Sequences of calls\<close>

datatype 'b queue_call = TryPush 'b | TryPop

text \<open>The batches that were accepted and those that were delivered, in the order of the calls.\<close>

fun queue_run ::
  "('q \<Rightarrow> 'b \<Rightarrow> (bool \<times> 'q) result) \<Rightarrow> ('q \<Rightarrow> ('b \<times> 'q) option) \<Rightarrow> 'b queue_call list \<Rightarrow> 'q \<Rightarrow>
     ('b list \<times> 'b list \<times> 'q) result" where
  "queue_run push pop [] q = Inr ([], [], q)"
| "queue_run push pop (TryPush b # calls) q =
     bind_result (push q b) (\<lambda>(ok, q').
       bind_result (queue_run push pop calls q') (\<lambda>(accepted, delivered, q'').
         Inr ((if ok then [b] else []) @ accepted, delivered, q'')))"
| "queue_run push pop (TryPop # calls) q =
     (case pop q of
        None \<Rightarrow> queue_run push pop calls q
      | Some (b, q') \<Rightarrow>
          bind_result (queue_run push pop calls q') (\<lambda>(accepted, delivered, q'').
            Inr (accepted, b # delivered, q'')))"

definition pushed :: "'b queue_call list \<Rightarrow> 'b set" where
  "pushed calls = {b. TryPush b \<in> set calls}"

lemma pushed_simps [simp]:
  "pushed [] = {}" "pushed (TryPop # calls) = pushed calls"
  "pushed (TryPush b # calls) = insert b (pushed calls)"
  by (auto simp: pushed_def)

locale bounded_queue =
  fixes wf :: "'q \<Rightarrow> bool" and contents :: "'q \<Rightarrow> 'b list" and weight :: "'b \<Rightarrow> nat"
    and limit :: "'q \<Rightarrow> nat" and admissible :: "'b \<Rightarrow> bool"
    and push :: "'q \<Rightarrow> 'b \<Rightarrow> (bool \<times> 'q) result" and pop :: "'q \<Rightarrow> ('b \<times> 'q) option"
  assumes wf_load: "wf q \<Longrightarrow> sum_list (map weight (contents q)) \<le> limit q"
    and push_total: "wf q \<Longrightarrow> admissible b \<Longrightarrow> \<exists>r. push q b = Inr r"
    and push_reject: "\<not> admissible b \<Longrightarrow> \<exists>e. push q b = Inl e"
    and push_result: "wf q \<Longrightarrow> push q b = Inr (ok, q') \<Longrightarrow>
      wf q' \<and> limit q' = limit q \<and> contents q' = contents q @ (if ok then [b] else []) \<and>
      (ok \<longleftrightarrow> sum_list (map weight (contents q)) + weight b \<le> limit q)"
    and pop_None: "pop q = None \<longleftrightarrow> contents q = []"
    and pop_result: "wf q \<Longrightarrow> pop q = Some (b, q') \<Longrightarrow>
      wf q' \<and> limit q' = limit q \<and> contents q = b # contents q'"
begin

text \<open>Nothing is lost, duplicated or reordered, and the load stays within the limit.\<close>

lemma run_fifo:
  assumes "wf q" and "queue_run push pop calls q = Inr (accepted, delivered, q')"
  shows "contents q @ accepted = delivered @ contents q' \<and> wf q' \<and> limit q' = limit q"
  using assms
proof (induction calls arbitrary: q accepted delivered)
  case (Cons call calls)
  show ?case
  proof (cases call)
    case (TryPush b)
    obtain ok q1 accepted' where step: "push q b = Inr (ok, q1)"
      "queue_run push pop calls q1 = Inr (accepted', delivered, q')"
      "accepted = (if ok then [b] else []) @ accepted'"
      using Cons.prems(2) by (auto simp: TryPush result_iff)
    show ?thesis
      using Cons.IH [OF _ step(2)] push_result [OF Cons.prems(1) step(1)] by (simp add: step(3))
  next
    case TryPop
    then show ?thesis
      using Cons.IH Cons.prems pop_result [OF Cons.prems(1)]
      by (auto simp: result_iff split: prod.splits option.splits)
  qed
qed simp

lemma run_total:
  "wf q \<Longrightarrow> pushed calls \<subseteq> Collect admissible \<Longrightarrow> \<exists>r. queue_run push pop calls q = Inr r"
proof (induction calls arbitrary: q)
  case (Cons call calls)
  show ?case
  proof (cases call)
    case (TryPush b)
    then obtain ok q' where "push q b = Inr (ok, q')" "wf q'"
      using push_total [OF Cons.prems(1), of b] push_result [OF Cons.prems(1)] Cons.prems(2) by auto
    then show ?thesis
      using Cons.IH [of q'] Cons.prems(2) by (auto simp: TryPush)
  next
    case TryPop
    then show ?thesis
      using Cons.IH Cons.prems pop_result [OF Cons.prems(1)] by (fastforce split: option.splits)
  qed
qed simp

lemma run_refines_fifo:
  assumes "wf q" and "contents q = []" and "pushed calls \<subseteq> Collect admissible"
  shows "\<exists>accepted delivered q'. queue_run push pop calls q = Inr (accepted, delivered, q') \<and>
    accepted = delivered @ contents q' \<and> sum_list (map weight (contents q')) \<le> limit q"
  using run_total [OF assms(1,3)] run_fifo [OF assms(1)] wf_load assms(2) by fastforce

end

section \<open>The queues implement the contract\<close>

definition crq_wf :: "BoundedCommandResultQueue \<Rightarrow> bool" where
  "crq_wf q \<longleftrightarrow> length (crq_batches q) \<le> crq_capacity q"

interpretation crq: bounded_queue crq_wf "\<lambda>q. map Some (crq_batches q)" "\<lambda>_. 1" crq_capacity
  "\<lambda>b. b \<noteq> None" crq_tryPush "\<lambda>q. map_option (map_prod Some id) (crq_tryPop q)"
  by unfold_locales
    (auto simp: crq_wf_def crq_tryPush_def crq_tryPop_def sum_list_triv o_def split: option.splits list.splits if_splits)

definition event_load :: "RecipientResults \<Rightarrow> nat" where
  "event_load batch = sum_list (map (length \<circ> privateResult) batch)"

definition prq_wf :: "BoundedPrivateResultQueue \<Rightarrow> bool" where
  "prq_wf q \<longleftrightarrow> prq_queuedEventCount q = sum_list (map event_load (prq_batches q)) \<and>
     prq_queuedEventCount q \<le> prq_eventCapacity q"

lemma batchEventCount_Inr:
  "n \<le> SIZE_MAX \<Longrightarrow> batchEventCount rs n = (if n + event_load rs \<le> SIZE_MAX then Inr (n + event_load rs)
     else Inl (length_error ''private-result batch event count overflow''))"
  by (induction rs n rule: batchEventCount.induct) (auto simp: event_load_def)

lemma foldl_load: "foldl (\<lambda>n r. n - length (privateResult r)) n rs = n - event_load rs"
  by (induction rs arbitrary: n) (simp_all add: event_load_def)

interpretation prq: bounded_queue prq_wf prq_batches event_load prq_eventCapacity
  "\<lambda>b. 0 < event_load b \<and> event_load b \<le> SIZE_MAX" prq_tryPush prq_tryPop
proof unfold_locales
  fix q b ok q'
  show "\<not> (0 < event_load b \<and> event_load b \<le> SIZE_MAX) \<Longrightarrow> \<exists>e. prq_tryPush q b = Inl e"
    by (auto simp: prq_tryPush_def batchEventCount_Inr)
  assume wf: "prq_wf q"
  then show "sum_list (map event_load (prq_batches q)) \<le> prq_eventCapacity q"
    by (simp add: prq_wf_def)
  show "0 < event_load b \<and> event_load b \<le> SIZE_MAX \<Longrightarrow> \<exists>r. prq_tryPush q b = Inr r"
    by (cases "b = []") (auto simp: prq_tryPush_def batchEventCount_Inr, simp add: event_load_def)
  show "prq_tryPush q b = Inr (ok, q') \<Longrightarrow>
      prq_wf q' \<and> prq_eventCapacity q' = prq_eventCapacity q \<and>
      prq_batches q' = prq_batches q @ (if ok then [b] else []) \<and>
      (ok \<longleftrightarrow> sum_list (map event_load (prq_batches q)) + event_load b \<le> prq_eventCapacity q)"
    using wf by (auto simp: prq_tryPush_def prq_wf_def batchEventCount_Inr split: if_splits)
  show "prq_tryPop q = Some (b, q') \<Longrightarrow>
      prq_wf q' \<and> prq_eventCapacity q' = prq_eventCapacity q \<and> prq_batches q = b # prq_batches q'"
    using wf by (auto simp: prq_tryPop_def prq_wf_def foldl_load split: list.splits)
qed (auto simp: prq_tryPop_def split: list.splits)

definition ptq_wf :: "BoundedPublicTradeQueue \<Rightarrow> bool" where
  "ptq_wf q \<longleftrightarrow> ptq_queuedRecordCount q = sum_list (map length (ptq_batches q)) \<and>
     ptq_queuedRecordCount q \<le> ptq_recordCapacity q"

interpretation ptq: bounded_queue ptq_wf ptq_batches length ptq_recordCapacity
  "\<lambda>b. b \<noteq> []" ptq_tryPush ptq_tryPop
  by unfold_locales
    (auto simp: ptq_tryPush_def ptq_tryPop_def ptq_wf_def split: list.splits if_splits)

end
