(* ===== verification/Bus.thy ===== *)
theory Bus
  imports Domain
begin

text \<open>
  The multicast bus, \<open>core/bus/include/bus.hpp\<close>: a ring buffer with one writer and registered readers
  that own their cursors. A cursor is an address into the store \<open>cursors\<close>, because the bus keeps
  pointers to cursors that the readers advance. The sizes take part in 64-bit arithmetic with the
  cursors, so they are words. Every atomic access is one read or write of the state; the operations
  are run one after the other.
\<close>

section \<open>Operations\<close>

type_synonym cursors = "nat \<Rightarrow> u64"

record Bus =
  bus_size :: u64
  bus_buffer :: "sequenceMessage option list"
  reader_cursors :: "nat option list"
  cached_min_cursor :: u64
  total_writes :: u64

definition make_Bus :: "u64 \<Rightarrow> Bus result" where
  "make_Bus n =
     (if n = 0 then Inl (invalid_argument ''Bus size must be greater than zero'')
      else Inr \<lparr>bus_size = n, bus_buffer = replicate (unat n) None, reader_cursors = [],
                cached_min_cursor = 0, total_writes = 0\<rparr>)"

definition recomputeMinimumCursor :: "Bus \<Rightarrow> cursors \<Rightarrow> u64" where
  "recomputeMinimumCursor bus cursors =
     foldl (\<lambda>minimum_cursor cursor.
       case cursor of None \<Rightarrow> minimum_cursor | Some a \<Rightarrow> min minimum_cursor (cursors a))
       (total_writes bus) (reader_cursors bus)"

definition registerCursor :: "Bus \<Rightarrow> cursors \<Rightarrow> nat \<Rightarrow> Bus" where
  "registerCursor bus cursors cursor =
     (let bus = bus\<lparr>reader_cursors := reader_cursors bus @ [Some cursor]\<rparr>
      in bus\<lparr>cached_min_cursor := recomputeMinimumCursor bus cursors\<rparr>)"

definition bus_publish :: "Bus \<Rightarrow> sequenceMessage \<Rightarrow> Bus" where
  "bus_publish bus message =
     bus\<lparr>bus_buffer := (bus_buffer bus)[unat (total_writes bus mod bus_size bus) := Some message],
         total_writes := total_writes bus + 1\<rparr>"

definition writeImpl :: "Bus \<Rightarrow> cursors \<Rightarrow> sequenceMessage \<Rightarrow> bool \<times> Bus" where
  "writeImpl bus cursors message =
     (let current_write = total_writes bus in
      if reader_cursors bus \<noteq> [] \<and> current_write \<ge> cached_min_cursor bus + bus_size bus
      then
        let cached_min = recomputeMinimumCursor bus cursors;
            bus = bus\<lparr>cached_min_cursor := cached_min\<rparr> in
        if current_write \<ge> cached_min + bus_size bus then (False, bus)
        else (True, bus_publish bus message)
      else (True, bus_publish bus message))"

definition bus_write :: "Bus \<Rightarrow> cursors \<Rightarrow> sequenceMessage \<Rightarrow> bool \<times> Bus" where
  "bus_write bus cursors message = writeImpl bus cursors message"

definition bus_read :: "Bus \<Rightarrow> cursors \<Rightarrow> nat \<Rightarrow> (sequenceMessage \<times> cursors) option" where
  "bus_read bus cursors cursor =
     (let current_cursor = cursors cursor; next_write = total_writes bus in
      if current_cursor \<ge> next_write then None
      else
        let oldest_available = (if next_write > bus_size bus then next_write - bus_size bus else 0) in
        if current_cursor < oldest_available then None
        else
          case bus_buffer bus ! unat (current_cursor mod bus_size bus) of
            None \<Rightarrow> None
          | Some value \<Rightarrow> Some (value, cursors(cursor := current_cursor + 1)))"

section \<open>Runs\<close>

datatype bus_call = BusWrite sequenceMessage | BusRead nat

text \<open>The accepted messages, what each reader received, and the final state.\<close>

fun bus_run ::
  "bus_call list \<Rightarrow> Bus \<Rightarrow> cursors \<Rightarrow>
     sequenceMessage list \<times> (nat \<times> sequenceMessage) list \<times> Bus \<times> cursors" where
  "bus_run [] bus cursors = ([], [], bus, cursors)"
| "bus_run (BusWrite m # calls) bus cursors =
     (let (ok, bus1) = bus_write bus cursors m;
          (written, reads, bus', cursors') = bus_run calls bus1 cursors
      in ((if ok then [m] else []) @ written, reads, bus', cursors'))"
| "bus_run (BusRead a # calls) bus cursors =
     (case bus_read bus cursors a of
        None \<Rightarrow> bus_run calls bus cursors
      | Some (m, cursors1) \<Rightarrow>
          let (written, reads, bus', cursors') = bus_run calls bus cursors1
          in (written, (a, m) # reads, bus', cursors'))"

definition readers :: "Bus \<Rightarrow> nat set" where
  "readers bus = {a. Some a \<in> set (reader_cursors bus)}"

text \<open>The ring holds the last \<open>bus_size\<close> messages of the log, no registered reader is further behind
  than that, and the cached minimum is a lower bound of the registered cursors.\<close>

definition bus_inv :: "sequenceMessage list \<Rightarrow> Bus \<Rightarrow> cursors \<Rightarrow> bool" where
  "bus_inv log bus cursors \<longleftrightarrow>
     bus_size bus \<noteq> 0 \<and> length (bus_buffer bus) = unat (bus_size bus) \<and>
     unat (total_writes bus) = length log \<and>
     (\<forall>i < length log. length log \<le> i + unat (bus_size bus) \<longrightarrow>
        bus_buffer bus ! (i mod unat (bus_size bus)) = Some (log ! i)) \<and>
     (\<forall>a \<in> readers bus. cursors a \<le> total_writes bus \<and>
        length log \<le> unat (cursors a) + unat (bus_size bus) \<and> cached_min_cursor bus \<le> cursors a)"

lemma finite_Some: "finite {a. Some a \<in> set cs}"
  using finite_vimageI [of "set cs" Some] by (simp add: vimage_def)

lemma readers_fold:
  fixes t :: "'a::linorder"
  shows "foldl (\<lambda>m c. case c of None \<Rightarrow> m | Some a \<Rightarrow> min m (f a)) t cs = Min (insert t (f ` {a. Some a \<in> set cs}))"
proof (induction cs arbitrary: t)
  case (Cons c cs)
  have fin: "finite {a. Some a \<in> set cs}"
    by (rule finite_Some)
  show ?case
  proof (cases c)
    case (Some a)
    then have "{x. Some x \<in> set (c # cs)} = insert a {x. Some x \<in> set cs}"
      by auto
    then show ?thesis
      using fin Cons.IH [of "min t (f a)"] by (simp add: Some min.assoc min.left_commute)
        (cases "{x. Some x \<in> set cs} = {}"; simp add: min.assoc)
  qed (use Cons.IH [of t] in simp)
qed simp

lemma finite_readers: "finite (readers bus)"
  by (simp add: readers_def finite_Some)

lemma recompute_Min: "recomputeMinimumCursor bus cursors = Min (insert (total_writes bus) (cursors ` readers bus))"
  by (simp add: recomputeMinimumCursor_def readers_fold readers_def)

lemma recompute_le_total: "recomputeMinimumCursor bus cursors \<le> total_writes bus"
  and recompute_le_cursor: "a \<in> readers bus \<Longrightarrow> recomputeMinimumCursor bus cursors \<le> cursors a"
  using finite_readers [of bus] by (auto simp: recompute_Min simp del: Min_insert intro!: Min_le)

lemma recompute_attained:
  "recomputeMinimumCursor bus cursors \<in> insert (total_writes bus) (cursors ` readers bus)"
  unfolding recompute_Min by (rule Min_in) (simp_all add: finite_readers)

lemma inv_make: "make_Bus n = Inr bus \<Longrightarrow> bus_inv [] bus cursors"
  by (auto simp: make_Bus_def bus_inv_def readers_def split: if_splits)

lemma inv_register:
  assumes "bus_inv [] bus cursors" and "cursors a = 0"
  shows "bus_inv [] (registerCursor bus cursors a) cursors"
    and "readers (registerCursor bus cursors a) = insert a (readers bus)"
proof -
  let ?bus = "bus\<lparr>reader_cursors := reader_cursors bus @ [Some a]\<rparr>"
  have rd: "readers ?bus = insert a (readers bus)"
    by (auto simp: readers_def)
  moreover have "readers (registerCursor bus cursors a) = readers ?bus"
    by (simp add: readers_def registerCursor_def Let_def)
  ultimately show "readers (registerCursor bus cursors a) = insert a (readers bus)"
    by simp
  then show "bus_inv [] (registerCursor bus cursors a) cursors"
    using assms recompute_le_cursor [of _ ?bus cursors]
    by (auto simp: bus_inv_def registerCursor_def Let_def rd)
qed

text \<open>Slots of the last \<open>n\<close> positions are pairwise distinct.\<close>

lemma mod_window: "i < k \<Longrightarrow> k < i + n \<Longrightarrow> i mod n \<noteq> k mod (n::nat)"
  by (metis add_less_cancel_left less_imp_le_nat mod_eq_iff_dvd_symdiff_nat nat_dvd_not_less
      le_add_diff_inverse zero_less_diff mod_eq_dvd_iff_nat)

lemma inv_publish:
  assumes inv: "bus_inv log bus cursors" and bound: "Suc (length log) < 2 ^ 64"
    and room: "\<forall>a \<in> readers bus. length log < unat (cursors a) + unat (bus_size bus)"
  shows "bus_inv (log @ [m]) (bus_publish bus m) cursors"
proof -
  let ?n = "unat (bus_size bus)" and ?k = "length log"
  have n: "0 < ?n" and k: "unat (total_writes bus) = ?k"
    using inv by (auto simp: bus_inv_def unat_gt_0)
  have k': "unat (total_writes bus + 1) = Suc ?k"
    using k bound by (simp add: unat_word_ariths)
  have "bus_buffer (bus_publish bus m) ! (i mod ?n) = Some ((log @ [m]) ! i)"
    if "i < Suc ?k" "Suc ?k \<le> i + ?n" for i
  proof (cases "i = ?k")
    case True
    then show ?thesis
      using inv n by (simp add: bus_publish_def unat_mod k bus_inv_def)
  next
    case False
    then have "i mod ?n \<noteq> ?k mod ?n" "i < ?k"
      using mod_window [of i ?k ?n] that by auto
    then show ?thesis
      using inv that by (auto simp: bus_publish_def unat_mod k bus_inv_def nth_append)
  qed
  moreover have "readers (bus_publish bus m) = readers bus"
    by (simp add: readers_def bus_publish_def)
  moreover have "cursors a \<le> total_writes bus + 1" if "cursors a \<le> total_writes bus" for a
    using that k' k by (simp add: word_le_nat_alt)
  ultimately show ?thesis
    using inv room k' by (auto simp: bus_inv_def bus_publish_def)
qed

text \<open>A write is refused only when some registered reader is a whole ring behind.\<close>

lemma inv_write:
  assumes inv: "bus_inv log bus cursors" and bound: "Suc (length log) + unat (bus_size bus) < 2 ^ 64"
    and wr: "bus_write bus cursors m = (ok, bus')"
  shows "bus_inv (log @ (if ok then [m] else [])) bus' cursors" and "bus_size bus' = bus_size bus"
    and "readers bus' = readers bus"
    and "ok \<longleftrightarrow> (\<forall>a \<in> readers bus. length log < unat (cursors a) + unat (bus_size bus))"
proof -
  let ?min = "recomputeMinimumCursor bus cursors"
  have k: "unat (total_writes bus) = length log"
    using inv by (simp add: bus_inv_def)
  have add: "total_writes bus \<ge> c + bus_size bus \<longleftrightarrow> length log \<ge> unat c + unat (bus_size bus)"
    if "c \<le> total_writes bus" for c
    using that bound k by (simp add: word_le_nat_alt unat_word_ariths)
  have cached: "bus_inv log (bus\<lparr>cached_min_cursor := ?min\<rparr>) cursors"
    using inv recompute_le_cursor [of _ bus cursors] by (simp add: bus_inv_def readers_def)
  have n: "0 < unat (bus_size bus)"
    using inv by (simp add: bus_inv_def unat_gt_0)
  have lag: "length log \<ge> unat ?min + unat (bus_size bus) \<longleftrightarrow>
      (\<exists>a \<in> readers bus. length log \<ge> unat (cursors a) + unat (bus_size bus))"
    using recompute_le_cursor [of _ bus cursors] recompute_attained [of bus cursors] n k by (fastforce simp: word_le_nat_alt)
  have fresh: "length log < unat (cursors a) + unat (bus_size bus)"
    if "a \<in> readers bus" "\<not> total_writes bus \<ge> cached_min_cursor bus + bus_size bus" for a
  proof -
    have "cached_min_cursor bus \<le> cursors a" "cursors a \<le> total_writes bus"
      using inv that(1) by (auto simp: bus_inv_def)
    then show ?thesis
      using that(2) add [of "cached_min_cursor bus"] by (simp add: word_le_nat_alt)
  qed
  have none: "reader_cursors bus = [] \<Longrightarrow> readers bus = {}"
    by (simp add: readers_def)
  let ?slow = "reader_cursors bus \<noteq> [] \<and> total_writes bus \<ge> cached_min_cursor bus + bus_size bus"
  show ok: "ok \<longleftrightarrow> (\<forall>a \<in> readers bus. length log < unat (cursors a) + unat (bus_size bus))"
    using wr fresh none lag add [OF recompute_le_total]
    by (auto simp: bus_write_def writeImpl_def Let_def not_less split: if_splits)
  define bus1 where "bus1 = bus\<lparr>cached_min_cursor := if ?slow then ?min else cached_min_cursor bus\<rparr>"
  have bus1: "bus_inv log bus1 cursors" "bus_size bus1 = bus_size bus" "readers bus1 = readers bus"
    using cached inv by (auto simp: bus1_def readers_def)
  have bus': "bus' = (if ok then bus_publish bus1 m else bus1)"
    using wr by (auto simp: bus_write_def writeImpl_def Let_def bus1_def split: if_splits)
  show "bus_inv (log @ (if ok then [m] else [])) bus' cursors"
    using bus1 inv_publish [OF bus1(1), of m] bound ok by (auto simp: bus')
  show "bus_size bus' = bus_size bus" "readers bus' = readers bus"
    using bus1(2,3) by (auto simp: bus' bus_publish_def readers_def)
qed

text \<open>A registered reader gets the next message of the log, and nothing only when it has read it all.\<close>

lemma inv_read:
  assumes inv: "bus_inv log bus cursors" and a: "a \<in> readers bus"
  shows "bus_read bus cursors a =
      (if unat (cursors a) < length log
       then Some (log ! unat (cursors a), cursors(a := cursors a + 1)) else None)"
    and "unat (cursors a) < length log \<Longrightarrow> bus_inv log bus (cursors(a := cursors a + 1)) \<and>
      unat (cursors a + 1) = Suc (unat (cursors a))"
proof -
  let ?c = "unat (cursors a)" and ?n = "unat (bus_size bus)"
  have k: "unat (total_writes bus) = length log" and lag: "?c \<le> length log" "length log \<le> ?c + ?n"
    using inv a by (auto simp: bus_inv_def word_le_nat_alt)
  have "unat (total_writes bus - bus_size bus) = length log - ?n" if "total_writes bus > bus_size bus"
    using that k by (simp add: unat_sub word_le_nat_alt word_less_nat_alt)
  moreover have "bus_buffer bus ! (?c mod ?n) = Some (log ! ?c)" if "?c < length log"
    using inv lag that by (auto simp: bus_inv_def)
  ultimately show "bus_read bus cursors a =
      (if ?c < length log then Some (log ! ?c, cursors(a := cursors a + 1)) else None)"
    using lag k by (auto simp: bus_read_def Let_def word_le_nat_alt word_less_nat_alt unat_mod)
  assume less: "?c < length log"
  then have "?c + 1 < 2 ^ 64"
    using k unsigned_less [of "total_writes bus", where 'a = nat] by simp
  then have suc: "unat (cursors a + 1) = Suc ?c"
    by (simp add: unat_word_ariths)
  then have "cached_min_cursor bus \<le> cursors a + 1" if "cached_min_cursor bus \<le> cursors a"
    using that by (simp add: word_le_nat_alt)
  then show "bus_inv log bus (cursors(a := cursors a + 1)) \<and> unat (cursors a + 1) = Suc ?c"
    using inv suc less a k by (auto simp: bus_inv_def word_le_nat_alt)
qed

definition received :: "nat \<Rightarrow> (nat \<times> sequenceMessage) list \<Rightarrow> sequenceMessage list" where
  "received a reads = map snd (filter (\<lambda>r. fst r = a) reads)"

lemma run_in_order:
  assumes "bus_inv log bus cursors" and "length log + length calls + unat (bus_size bus) < 2 ^ 64"
    and "\<forall>a. BusRead a \<in> set calls \<longrightarrow> a \<in> readers bus"
    and "bus_run calls bus cursors = (written, reads, bus', cursors')"
  shows "bus_inv (log @ written) bus' cursors' \<and> readers bus' = readers bus \<and> bus_size bus' = bus_size bus \<and>
    (\<forall>a \<in> readers bus. unat (cursors' a) = unat (cursors a) + length (received a reads) \<and>
      received a reads = take (length (received a reads)) (drop (unat (cursors a)) (log @ written)))"
  using assms
proof (induction calls bus cursors arbitrary: log written reads rule: bus_run.induct)
  case (1 bus cursors)
  then show ?case by (simp add: received_def)
next
  case (2 m calls bus cursors)
  obtain ok bus1 where wr: "bus_write bus cursors m = (ok, bus1)"
    by (cases "bus_write bus cursors m")
  obtain written1 where run: "bus_run calls bus1 cursors = (written1, reads, bus', cursors')"
    and written: "written = (if ok then [m] else []) @ written1"
    using "2.prems"(4) by (auto simp: wr split: prod.splits)
  have "Suc (length log) + unat (bus_size bus) < 2 ^ 64"
    using "2.prems"(2) by simp
  note inv1 = inv_write [OF "2.prems"(1) this wr]
  have "bus_inv ((log @ (if ok then [m] else [])) @ written1) bus' cursors' \<and> readers bus' = readers bus1 \<and>
      bus_size bus' = bus_size bus1 \<and>
      (\<forall>a \<in> readers bus1. unat (cursors' a) = unat (cursors a) + length (received a reads) \<and>
        received a reads = take (length (received a reads))
          (drop (unat (cursors a)) ((log @ (if ok then [m] else [])) @ written1)))"
    by (rule "2.IH" [OF wr [symmetric] refl inv1(1) _ _ run]) (use "2.prems"(2,3) inv1 in auto)
  then show ?case
    using inv1 by (simp add: written)
next
  case (3 a calls bus cursors)
  have a: "a \<in> readers bus"
    using "3.prems"(3) by simp
  note rd = inv_read [OF "3.prems"(1) a]
  show ?case
  proof (cases "unat (cursors a) < length log")
    case True
    let ?cs = "cursors(a := cursors a + 1)"
    obtain reads1 where run: "bus_run calls bus ?cs = (written, reads1, bus', cursors')"
      and reads: "reads = (a, log ! unat (cursors a)) # reads1"
      using "3.prems"(4) True by (auto simp: rd(1) split: prod.splits)
    have "bus_inv (log @ written) bus' cursors' \<and> readers bus' = readers bus \<and> bus_size bus' = bus_size bus \<and>
      (\<forall>x \<in> readers bus. unat (cursors' x) = unat (?cs x) + length (received x reads1) \<and>
        received x reads1 = take (length (received x reads1)) (drop (unat (?cs x)) (log @ written)))"
      by (rule "3.IH"(2) [of _ "log ! unat (cursors a)" ?cs, OF _ refl])
        (use True rd(1) rd(2) "3.prems" run in \<open>auto simp: fun_upd_def\<close>)
    moreover have "drop (unat (cursors a)) (log @ written) =
        log ! unat (cursors a) # drop (Suc (unat (cursors a))) (log @ written)"
      using True Cons_nth_drop_Suc [of "unat (cursors a)" "log @ written"] by (simp add: nth_append)
    ultimately show ?thesis
      using rd(2) True by (auto simp: reads received_def)
  next
    case False
    then show ?thesis
      using "3.IH"(1) "3.prems" by (simp add: rd(1))
  qed
qed

end
