(* ===== verification/Shared_Queue.thy ===== *)
theory Shared_Queue
  imports Domain
begin

text \<open>
  \<open>core/shared_queue/include/shared_queue.hpp\<close> wraps \<open>boost::lockfree::queue\<close> with a fixed capacity.
  The Boost queue is not part of the sources: its operations are parameters of the definitions that
  use it, and \<open>lockfree_queue\<close> states what Boost documents and the sources rely on. \<open>items\<close> is the
  content in pop order; \<open>push\<close> and \<open>pop\<close> return \<open>None\<close> where the member function returns \<open>false\<close>.
\<close>

type_synonym ('q, 'a) queue_push = "'q \<Rightarrow> 'a \<Rightarrow> 'q option"
type_synonym ('q, 'a) queue_pop = "'q \<Rightarrow> ('a \<times> 'q) option"

definition SharedQueue_push :: "('q, 'a) queue_push \<Rightarrow> 'q \<Rightarrow> 'a \<Rightarrow> bool \<times> 'q" where
  "SharedQueue_push push q data = (case push q data of None \<Rightarrow> (False, q) | Some q' \<Rightarrow> (True, q'))"

definition SharedQueue_pop :: "('q, 'a) queue_pop \<Rightarrow> 'q \<Rightarrow> 'a \<Rightarrow> bool \<times> 'a \<times> 'q" where
  "SharedQueue_pop pop q buffer =
     (case pop q of None \<Rightarrow> (False, buffer, q) | Some (data, q') \<Rightarrow> (True, data, q'))"

definition lockfree_queue ::
  "('q \<Rightarrow> 'a list) \<Rightarrow> ('q, 'a) queue_push \<Rightarrow> ('q, 'a) queue_pop \<Rightarrow> bool" where
  "lockfree_queue items push pop \<longleftrightarrow>
     (\<forall>q x q'. push q x = Some q' \<longrightarrow> items q' = items q @ [x]) \<and>
     (\<forall>q. pop q = None \<longleftrightarrow> items q = []) \<and>
     (\<forall>q x q'. pop q = Some (x, q') \<longrightarrow> items q = x # items q')"

lemma lockfree_pushD: "lockfree_queue items push pop \<Longrightarrow> SharedQueue_push push q x = (ok, q') \<Longrightarrow>
    items q' = items q @ (if ok then [x] else []) \<and> (\<not> ok \<longrightarrow> q' = q)"
  by (auto simp: lockfree_queue_def SharedQueue_push_def split: option.splits)

lemma lockfree_popD: "lockfree_queue items push pop \<Longrightarrow> SharedQueue_pop pop q b = (ok, x, q') \<Longrightarrow>
    if ok then items q = x # items q' else items q = [] \<and> x = b \<and> q' = q"
  by (auto simp: lockfree_queue_def SharedQueue_pop_def split: option.splits)

text \<open>A list with a capacity is such a queue.\<close>

definition list_push :: "nat \<Rightarrow> ('a list, 'a) queue_push" where
  "list_push capacity q x = (if length q < capacity then Some (q @ [x]) else None)"

definition list_pop :: "('a list, 'a) queue_pop" where
  "list_pop q = (case q of [] \<Rightarrow> None | x # xs \<Rightarrow> Some (x, xs))"

lemma list_lockfree: "lockfree_queue id (list_push capacity) list_pop"
  by (auto simp: lockfree_queue_def list_push_def list_pop_def split: list.splits if_splits)

end
