(* ===== verification/Matching_Worker.thy ===== *)
theory Matching_Worker
  imports Result_Queues Bus Shared_Queue Matching_Runs
begin

text \<open>
  The worker around the matching state: class \<open>MatchingEngine\<close> of \<open>matching_engine.hpp\<close> and
  \<open>matching_engine.cpp\<close>. It takes commands from the sequencer queue, processes each one, forwards it to
  the multicast bus, and hands the result batch to the bounded result queue; a batch that does not fit
  is kept and retried before the next command is taken. The loop in \<open>drainQueue\<close> ends when the queue is
  empty; its model takes fuel, and \<open>None\<close> means that the fuel was too small. The reader cursors of the
  bus do not move during one cycle. A call that throws keeps the state it had reached, except that a book
  that \<open>processCommand\<close> leaves half changed is the book before the command.
\<close>

section \<open>Operations\<close>

record MatchingEngine =
  matchingState :: MatchingState
  multicastBus :: Bus
  commandResultQueue :: BoundedCommandResultQueue
  pendingCommandResult :: "CommandResultBatch option"
  inProgressCommand :: "sequenceMessage option"
  multicastWriteFailures :: u64

definition make_MatchingEngine :: "Bus \<Rightarrow> BoundedCommandResultQueue \<Rightarrow> MatchingState \<Rightarrow> MatchingEngine" where
  "make_MatchingEngine bus results st =
     \<lparr>matchingState = st, multicastBus = bus, commandResultQueue = results, pendingCommandResult = None,
      inProgressCommand = None, multicastWriteFailures = 0\<rparr>"

definition hasPendingResult :: "MatchingEngine \<Rightarrow> bool" where
  "hasPendingResult me \<longleftrightarrow> pendingCommandResult me \<noteq> None"

definition engine_send :: "cursors \<Rightarrow> MatchingEngine \<Rightarrow> sequenceMessage \<Rightarrow> MatchingEngine" where
  "engine_send cursors me message =
     (let (ok, bus) = bus_write (multicastBus me) cursors message;
          me = me\<lparr>multicastBus := bus\<rparr> in
      if \<not> ok then me\<lparr>multicastWriteFailures := multicastWriteFailures me + 1\<rparr> else me)"

definition handoffPendingResult :: "MatchingEngine \<Rightarrow> (bool \<times> MatchingEngine) result" where
  "handoffPendingResult me =
     (if pendingCommandResult me = None then Inr (True, me)
      else bind_result (crq_tryPush (commandResultQueue me) (pendingCommandResult me)) (\<lambda>(ok, results).
        if \<not> ok then Inr (False, me)
        else Inr (True, me\<lparr>commandResultQueue := results, pendingCommandResult := None\<rparr>)))"

fun drainLoop ::
  "('q, sequenceMessage) queue_pop \<Rightarrow> cursors \<Rightarrow> nat \<Rightarrow> 'q \<Rightarrow> sequenceMessage \<Rightarrow> bool \<Rightarrow> MatchingEngine \<Rightarrow>
     (bool result \<times> 'q \<times> MatchingEngine) option" where
  "drainLoop pop cursors 0 q message progressed me = None"
| "drainLoop pop cursors (Suc fuel) q message progressed me =
     (case SharedQueue_pop pop q message of
        (False, _, _) \<Rightarrow> Some (Inr progressed, q, me)
      | (True, message, q) \<Rightarrow>
          let me = me\<lparr>inProgressCommand := Some message\<rparr> in
          case processCommand (matchingState me) message of
            Inl e \<Rightarrow> Some (Inl e, q, me)
          | Inr (st, batch) \<Rightarrow>
              let me = (engine_send cursors (me\<lparr>matchingState := st\<rparr>) message)\<lparr>inProgressCommand := None\<rparr> in
              case crq_tryPush (commandResultQueue me) (Some batch) of
                Inl e \<Rightarrow> Some (Inl e, q, me)
              | Inr (ok, results) \<Rightarrow>
                  if \<not> ok then Some (Inr True, q, me\<lparr>pendingCommandResult := Some batch\<rparr>)
                  else drainLoop pop cursors fuel q message True (me\<lparr>commandResultQueue := results\<rparr>))"

definition drainQueue ::
  "('q, sequenceMessage) queue_pop \<Rightarrow> cursors \<Rightarrow> nat \<Rightarrow> 'q \<Rightarrow> MatchingEngine \<Rightarrow>
     (bool result \<times> 'q \<times> MatchingEngine) option" where
  "drainQueue pop cursors fuel q me =
     (if pendingCommandResult me \<noteq> None
      then case handoffPendingResult me of
             Inl e \<Rightarrow> Some (Inl e, q, me)
           | Inr (ok, me) \<Rightarrow>
               if \<not> ok then Some (Inr False, q, me)
               else drainLoop pop cursors fuel q empty_sequenceMessage True me
      else drainLoop pop cursors fuel q empty_sequenceMessage False me)"

definition engine_advance ::
  "('q, sequenceMessage) queue_pop \<Rightarrow> cursors \<Rightarrow> nat \<Rightarrow> 'q \<Rightarrow> MatchingEngine \<Rightarrow>
     (bool result \<times> 'q \<times> MatchingEngine) option" where
  "engine_advance pop cursors fuel q me = drainQueue pop cursors fuel q me"

section \<open>Commands processed one after the other\<close>

fun run_commands ::
  "MatchingState \<Rightarrow> sequenceMessage list \<Rightarrow> (MatchingState \<times> CommandResultBatch list) result" where
  "run_commands st [] = Inr (st, [])"
| "run_commands st (m # ms) =
     bind_result (processCommand st m) (\<lambda>(st, batch).
       bind_result (run_commands st ms) (\<lambda>(st, batches). Inr (st, batch # batches)))"

lemma run_commands_snoc:
  "run_commands st (ms @ [m]) =
     bind_result (run_commands st ms) (\<lambda>(st, batches).
       bind_result (processCommand st m) (\<lambda>(st, batch). Inr (st, batches @ [batch])))"
  by (induction st ms rule: run_commands.induct)
    (auto simp: bind_result_def split: sum.splits prod.splits)

definition numbered_run :: "sequenceMessage list \<Rightarrow> bool" where
  "numbered_run ms \<longleftrightarrow> length ms < 2 ^ 64 \<and>
     (\<forall>i < length ms. normalized_command (ms ! i) \<and> globalSequenceNumber (ms ! i) = of_nat (Suc i))"

lemma numbered_run_append: "numbered_run (xs @ ys) \<Longrightarrow> numbered_run xs"
  by (auto simp: numbered_run_def) (metis length_append nth_append trans_less_add1)+

lemma run_commands_total:
  "numbered_run ms \<Longrightarrow> \<exists>st batches. run_commands (init_MatchingState runId) ms = Inr (st, batches) \<and>
     length batches = length ms \<and> reachable runId (length ms) st"
proof (induction ms rule: rev_induct)
  case Nil
  then show ?case by (auto intro: reachable.start)
next
  case (snoc m ms)
  obtain st batches where ih: "run_commands (init_MatchingState runId) ms = Inr (st, batches)"
    "length batches = length ms" "reachable runId (length ms) st"
    using snoc numbered_run_append by blast
  have m: "normalized_command m" "globalSequenceNumber m = of_nat (Suc (length ms))" "Suc (length ms) < 2 ^ 64"
    using snoc.prems by (auto simp: numbered_run_def dest: spec [of _ "length ms"])
  obtain st' where "processCommand st m = Inr (st', spec_batch runId m (abs_book st))"
    using processCommand_refines [OF reachable_run_inv [OF ih(3)] m] by blast
  then show ?case
    using ih reachable.step [OF ih(3) m] by (auto simp: run_commands_snoc)
qed

section \<open>Every command once and in order\<close>

text \<open>What was delivered, what the result queue holds and what is pending are together the results of
  the commands taken so far.\<close>

definition results_of :: "MatchingEngine \<Rightarrow> CommandResultBatch list" where
  "results_of me = crq_batches (commandResultQueue me) @
     (case pendingCommandResult me of None \<Rightarrow> [] | Some b \<Rightarrow> [b])"

definition worker_inv ::
  "('q \<Rightarrow> sequenceMessage list) \<Rightarrow> ExchangeRunId \<Rightarrow> sequenceMessage list \<Rightarrow> CommandResultBatch list \<Rightarrow>
     'q \<Rightarrow> MatchingEngine \<Rightarrow> bool" where
  "worker_inv items runId accepted delivered q me \<longleftrightarrow>
     crq_wf (commandResultQueue me) \<and>
     (\<exists>taken. accepted = taken @ items q \<and>
        run_commands (init_MatchingState runId) taken = Inr (matchingState me, delivered @ results_of me))"

definition free_slots :: "MatchingEngine \<Rightarrow> nat" where
  "free_slots me = crq_capacity (commandResultQueue me) - length (crq_batches (commandResultQueue me))"

lemma engine_send_simps [simp]:
  "matchingState (engine_send cursors me m) = matchingState me"
  "commandResultQueue (engine_send cursors me m) = commandResultQueue me"
  "pendingCommandResult (engine_send cursors me m) = pendingCommandResult me"
  by (simp_all add: engine_send_def Let_def split: prod.splits)

lemma crq_push_Some:
  "crq_tryPush q (Some b) =
     Inr (length (crq_batches q) < crq_capacity q,
          if length (crq_batches q) < crq_capacity q then q\<lparr>crq_batches := crq_batches q @ [b]\<rparr> else q)"
  by (simp add: crq_tryPush_def)

lemma drainLoop_correct:
  assumes "lockfree_queue items push pop" and "numbered_run accepted" and "length (items q) < fuel"
    and "worker_inv items runId accepted delivered q me" and "pendingCommandResult me = None"
  shows "\<exists>p q' me'. drainLoop pop cursors fuel q msg prog me = Some (Inr p, q', me') \<and>
    worker_inv items runId accepted delivered q' me' \<and> length (items q') \<le> length (items q) \<and>
    (length (items q) \<le> free_slots me \<longrightarrow> items q' = [] \<and> pendingCommandResult me' = None)"
  using assms(3-)
proof (induction fuel arbitrary: q msg prog me)
  case (Suc fuel)
  obtain taken where taken: "accepted = taken @ items q"
    "run_commands (init_MatchingState runId) taken = Inr (matchingState me, delivered @ results_of me)"
    and wf: "crq_wf (commandResultQueue me)"
    using Suc.prems(2) by (auto simp: worker_inv_def)
  obtain ok m q1 where pop: "SharedQueue_pop pop q msg = (ok, m, q1)"
    by (cases "SharedQueue_pop pop q msg") auto
  note popD = lockfree_popD [OF assms(1) pop]
  show ?case
  proof (cases ok)
    case False
    then show ?thesis
      using Suc.prems popD by (auto simp: pop)
  next
    case True
    then have items: "items q = m # items q1"
      using popD by simp
    have "numbered_run (taken @ [m])"
      using assms(2) numbered_run_append [of "taken @ [m]" "items q1"] by (simp add: taken items)
    then obtain st batch where step: "processCommand (matchingState me) m = Inr (st, batch)"
      using run_commands_total [of "taken @ [m]" runId]
      by (auto simp: run_commands_snoc taken(2) result_iff)
    define me1 where "me1 = (engine_send cursors (me\<lparr>inProgressCommand := Some m, matchingState := st\<rparr>) m)
        \<lparr>inProgressCommand := None\<rparr>"
    let ?room = "length (crq_batches (commandResultQueue me)) < crq_capacity (commandResultQueue me)"
    define me2 where "me2 = (if ?room
        then me1\<lparr>commandResultQueue := (commandResultQueue me)\<lparr>crq_batches :=
               crq_batches (commandResultQueue me) @ [batch]\<rparr>\<rparr>
        else me1\<lparr>pendingCommandResult := Some batch\<rparr>)"
    have me2: "results_of me2 = results_of me @ [batch]" "matchingState me2 = st"
      "crq_wf (commandResultQueue me2)" "?room \<Longrightarrow> pendingCommandResult me2 = None"
      using Suc.prems(3) wf by (auto simp: me2_def me1_def results_of_def crq_wf_def)
    have inv: "worker_inv items runId accepted delivered q1 me2"
      using me2(1-3) taken step
      by (auto simp: worker_inv_def items run_commands_snoc intro!: exI [of _ "taken @ [m]"])
    have loop: "drainLoop pop cursors (Suc fuel) q msg prog me =
        (if ?room then drainLoop pop cursors fuel q1 m True me2 else Some (Inr True, q1, me2))"
      by (simp add: pop True step me1_def me2_def crq_push_Some Let_def)
    show ?thesis
    proof (cases ?room)
      case room: True
      then have "free_slots me2 + 1 = free_slots me"
        by (simp add: free_slots_def me2_def me1_def)
      moreover have "length (items q1) < fuel"
        using Suc.prems(1) items by simp
      ultimately show ?thesis
        using Suc.IH [OF _ inv me2(4), of m True] room loop items by auto
    next
      case False
      then show ?thesis
        using inv loop items by (auto simp: free_slots_def)
    qed
  qed
qed simp

lemma advance_correct:
  assumes "lockfree_queue items push pop" and "numbered_run accepted" and "length (items q) < fuel"
    and inv: "worker_inv items runId accepted delivered q me"
  shows "\<exists>p q' me'. engine_advance pop cursors fuel q me = Some (Inr p, q', me') \<and>
    worker_inv items runId accepted delivered q' me' \<and> length (items q') \<le> length (items q) \<and>
    (length (items q) + of_bool (hasPendingResult me) \<le> free_slots me \<longrightarrow>
       items q' = [] \<and> pendingCommandResult me' = None)"
proof (cases "pendingCommandResult me")
  case None
  then show ?thesis
    using drainLoop_correct [OF assms None]
    by (simp add: engine_advance_def drainQueue_def hasPendingResult_def)
next
  case (Some b)
  let ?rq = "commandResultQueue me"
  show ?thesis
  proof (cases "length (crq_batches ?rq) < crq_capacity ?rq")
    case True
    define me1 where "me1 = me\<lparr>commandResultQueue := ?rq\<lparr>crq_batches := crq_batches ?rq @ [b]\<rparr>,
        pendingCommandResult := None\<rparr>"
    have "worker_inv items runId accepted delivered q me1" "pendingCommandResult me1 = None"
      "free_slots me1 + 1 = free_slots me"
      using inv True Some by (auto simp: worker_inv_def me1_def results_of_def crq_wf_def free_slots_def)
    moreover have "engine_advance pop cursors fuel q me = drainLoop pop cursors fuel q empty_sequenceMessage True me1"
      using True Some
      by (simp add: engine_advance_def drainQueue_def handoffPendingResult_def crq_push_Some me1_def)
    moreover have "hasPendingResult me"
      by (simp add: hasPendingResult_def Some)
    ultimately show ?thesis
      using drainLoop_correct [OF assms(1-3), of runId delivered me1 cursors empty_sequenceMessage True]
      by fastforce
  next
    case False
    then show ?thesis
      using inv Some
      by (auto simp: engine_advance_def drainQueue_def handoffPendingResult_def crq_push_Some
          hasPendingResult_def free_slots_def)
  qed
qed

section \<open>Runs of the worker with its producer and its consumer\<close>

datatype worker_call = Submit sequenceMessage | Advance cursors | TakeResult

datatype worker_outcome = Running | Threw cpp_exception | Out_Of_Fuel

text \<open>\<open>Submit\<close> is the push of the sequencer, \<open>TakeResult\<close> the pop of the event stream. The trace
  collects the accepted commands and the delivered batches and stops at an exception.\<close>

fun worker_run ::
  "('q, sequenceMessage) queue_push \<Rightarrow> ('q, sequenceMessage) queue_pop \<Rightarrow> nat \<Rightarrow> worker_call list \<Rightarrow>
     'q \<Rightarrow> MatchingEngine \<Rightarrow>
     worker_outcome \<times> sequenceMessage list \<times> CommandResultBatch list \<times> 'q \<times> MatchingEngine" where
  "worker_run push pop fuel [] q me = (Running, [], [], q, me)"
| "worker_run push pop fuel (Submit m # calls) q me =
     (let (ok, q) = SharedQueue_push push q m;
          (r, accepted, rest) = worker_run push pop fuel calls q me
      in (r, (if ok then [m] else []) @ accepted, rest))"
| "worker_run push pop fuel (Advance cursors # calls) q me =
     (case engine_advance pop cursors fuel q me of
        None \<Rightarrow> (Out_Of_Fuel, [], [], q, me)
      | Some (Inl e, q, me) \<Rightarrow> (Threw e, [], [], q, me)
      | Some (Inr _, q, me) \<Rightarrow> worker_run push pop fuel calls q me)"
| "worker_run push pop fuel (TakeResult # calls) q me =
     (case crq_tryPop (commandResultQueue me) of
        None \<Rightarrow> worker_run push pop fuel calls q me
      | Some (b, results) \<Rightarrow>
          let (r, accepted, delivered, rest) =
            worker_run push pop fuel calls q (me\<lparr>commandResultQueue := results\<rparr>)
          in (r, accepted, b # delivered, rest))"

lemma worker_run_correct:
  assumes "lockfree_queue items push pop" and "length (items q) + length calls < fuel"
    and "worker_inv items runId accepted0 delivered0 q me"
    and "worker_run push pop fuel calls q me = (r, accepted, delivered, q', me')"
    and "numbered_run (accepted0 @ accepted)"
  shows "r = Running \<and> worker_inv items runId (accepted0 @ accepted) (delivered0 @ delivered) q' me'"
  using assms(2-)
proof (induction calls arbitrary: q me accepted delivered accepted0 delivered0)
  case (Cons call calls)
  show ?case
  proof (cases call)
    case (Submit m)
    obtain ok q1 where push: "SharedQueue_push push q m = (ok, q1)"
      by (cases "SharedQueue_push push q m")
    then have q1: "items q1 = items q @ (if ok then [m] else [])"
      using lockfree_pushD [OF assms(1)] by blast
    obtain accepted1 where run: "worker_run push pop fuel calls q1 me = (r, accepted1, delivered, q', me')"
      and acc: "accepted = (if ok then [m] else []) @ accepted1"
      using Cons.prems(3) by (auto simp: Submit push split: prod.splits)
    have "worker_inv items runId (accepted0 @ (if ok then [m] else [])) delivered0 q1 me"
      using Cons.prems(2) q1 by (auto simp: worker_inv_def)
    then show ?thesis
      using Cons.IH [OF _ _ run, of "accepted0 @ (if ok then [m] else [])" delivered0]
        Cons.prems(1,4) q1 acc by (auto split: if_splits)
  next
    case (Advance cursors)
    have "numbered_run accepted0" "length (items q) < fuel"
      using Cons.prems numbered_run_append by auto
    from advance_correct [OF assms(1) this Cons.prems(2), of cursors]
    obtain p q1 me1 where adv: "engine_advance pop cursors fuel q me = Some (Inr p, q1, me1)"
      "worker_inv items runId accepted0 delivered0 q1 me1" "length (items q1) \<le> length (items q)" by blast
    then show ?thesis
      using Cons.IH [OF _ adv(2)] Cons.prems by (auto simp: Advance adv(1))
  next
    case TakeResult
    show ?thesis
    proof (cases "crq_batches (commandResultQueue me)")
      case Nil
      then show ?thesis
        using Cons.IH [OF _ Cons.prems(2)] Cons.prems(1,3,4) by (simp add: TakeResult crq_tryPop_def)
    next
      case (Cons b bs)
      note batches = this
      let ?me1 = "me\<lparr>commandResultQueue := (commandResultQueue me)\<lparr>crq_batches := bs\<rparr>\<rparr>"
      obtain delivered1 where run: "worker_run push pop fuel calls q ?me1 = (r, accepted, delivered1, q', me')"
        and del: "delivered = b # delivered1"
        using Cons.prems(3) by (auto simp: TakeResult batches crq_tryPop_def split: prod.splits)
      have "worker_inv items runId accepted0 (delivered0 @ [b]) q ?me1"
        using Cons.prems(2) batches by (auto simp: worker_inv_def results_of_def crq_wf_def)
      then show ?thesis
        using Cons.IH [OF _ _ run, of accepted0 "delivered0 @ [b]"] Cons.prems(1,4) del by auto
    qed
  qed
qed simp

end
