(* ===== verification/Adaptive_Idle.thy ===== *)
theory Adaptive_Idle
  imports Prelude
begin

text \<open>
  The back-off of the polling loops, \<open>core/task/include/adaptive_idle.hpp\<close>: after 64 yields a worker
  sleeps, doubling the time up to a millisecond. Durations are microseconds.
\<close>

datatype ActionKind = YIELD | SLEEP

record Action =
  kind :: ActionKind
  action_sleepDuration :: nat

record AdaptiveIdle =
  idleAttempts :: u64
  sleepDuration :: nat

definition YIELD_ATTEMPTS :: u64 where "YIELD_ATTEMPTS = 64"
definition INITIAL_SLEEP :: nat where "INITIAL_SLEEP = 1"
definition MAX_SLEEP :: nat where "MAX_SLEEP = 1000"

definition init_AdaptiveIdle :: AdaptiveIdle where
  "init_AdaptiveIdle = \<lparr>idleAttempts = 0, sleepDuration = 0\<rparr>"

definition nextAction :: "AdaptiveIdle \<Rightarrow> Action \<times> AdaptiveIdle" where
  "nextAction idle =
     (let idle = idle\<lparr>idleAttempts := idleAttempts idle + 1\<rparr> in
      if idleAttempts idle \<le> YIELD_ATTEMPTS then (\<lparr>kind = YIELD, action_sleepDuration = 0\<rparr>, idle)
      else
        let idle = idle\<lparr>sleepDuration :=
              if sleepDuration idle = 0 then INITIAL_SLEEP else min (sleepDuration idle * 2) MAX_SLEEP\<rparr>
        in (\<lparr>kind = SLEEP, action_sleepDuration = sleepDuration idle\<rparr>, idle))"

definition idle_reset :: "AdaptiveIdle \<Rightarrow> AdaptiveIdle" where
  "idle_reset idle = idle\<lparr>idleAttempts := 0, sleepDuration := 0\<rparr>"

text \<open>The actions of \<open>k\<close> successive idle rounds.\<close>

fun idle_actions :: "nat \<Rightarrow> AdaptiveIdle \<Rightarrow> Action list \<times> AdaptiveIdle" where
  "idle_actions 0 idle = ([], idle)"
| "idle_actions (Suc k) idle =
     (let (action, idle1) = nextAction idle; (actions, idle2) = idle_actions k idle1
      in (action # actions, idle2))"

text \<open>The wait that the back-off promises for the \<open>n\<close>-th idle round after a reset.\<close>

definition planned_wait :: "nat \<Rightarrow> nat" where
  "planned_wait n = (if n \<le> 64 then 0 else min (2 ^ (n - 65)) 1000)"

lemma planned_wait_double: "64 < n \<Longrightarrow> planned_wait (Suc n) = min (planned_wait n * 2) 1000"
proof -
  assume "64 < n"
  then obtain k where "n = 65 + k"
    using less_imp_Suc_add [of 64 n] by auto
  then show ?thesis
    by (auto simp: planned_wait_def min_def)
qed

lemma nextAction_planned:
  assumes "idleAttempts idle = of_nat n" and "Suc n < 2 ^ 64" and "sleepDuration idle = planned_wait n"
  shows "nextAction idle =
    (\<lparr>kind = (if n < 64 then YIELD else SLEEP), action_sleepDuration = planned_wait (Suc n)\<rparr>,
     \<lparr>idleAttempts = of_nat (Suc n), sleepDuration = planned_wait (Suc n)\<rparr>)"
proof -
  have "(of_nat (Suc n) :: u64) \<le> 64 \<longleftrightarrow> n < 64"
    using assms(2) by (simp add: word_le_nat_alt unat_of_nat del: of_nat_Suc) arith
  moreover have "n = 64 \<or> 64 < n" if "\<not> n < 64"
    using that by auto
  moreover have "planned_wait n \<noteq> 0" if "64 < n"
    using that by (simp add: planned_wait_def)
  moreover have "idle = \<lparr>idleAttempts = of_nat n, sleepDuration = planned_wait n\<rparr>"
    using assms by (cases idle) simp
  ultimately show ?thesis
    using planned_wait_double [of n]
    by (auto simp: nextAction_def YIELD_ATTEMPTS_def INITIAL_SLEEP_def MAX_SLEEP_def Let_def add.commute)
      (simp_all add: planned_wait_def)
qed

lemma idle_actions_planned:
  assumes "idleAttempts idle = of_nat n" and "n + k < 2 ^ 64" and "sleepDuration idle = planned_wait n"
  shows "map action_sleepDuration (fst (idle_actions k idle)) = map planned_wait [Suc n ..< Suc n + k]"
  using assms
proof (induction k arbitrary: n idle)
  case (Suc k)
  have "Suc n < 2 ^ 64"
    using Suc.prems(2) by simp
  note step = nextAction_planned [OF Suc.prems(1) this Suc.prems(3)]
  show ?case
    using Suc.IH [of "snd (nextAction idle)" "Suc n"] Suc.prems(2)
    by (auto simp: step upt_conv_Cons split: prod.splits simp del: upt_Suc of_nat_Suc)
qed simp

end
