(* ===== verification/Worker_Properties.thy ===== *)
theory Worker_Properties
  imports Matching_Worker Matching_Examples Adaptive_Idle
begin

text \<open>
  The properties of the matching worker and of what leaves it: the projections of a result batch for
  its recipients and for the market, the bounded queues, the multicast bus and the worker's cycle.
\<close>

section \<open>Legs of a trade\<close>

fun is_leg :: "PrivateEvent \<Rightarrow> bool" where
  "is_leg (PvTrade _) = True"
| "is_leg _ = False"

definition leg_count :: "PrivateResult \<Rightarrow> nat" where
  "leg_count r = length (filter is_leg r)"

lemma legs_of_event:
  assumes "distinct cs" and "set (parties e) \<subseteq> set cs"
  shows "sum_list (map (\<lambda>c. leg_count (private_view c e)) cs) = 2 * length (trades_of [e])"
proof (cases e)
  case (EvTrade t)
  have "sum_list (map (\<lambda>c. leg_count (private_view c e)) cs) =
      sum_list (map (\<lambda>c. of_bool (makerClientId t = c) + of_bool (takerClientId t = c)) cs)"
    by (intro arg_cong [of _ _ sum_list] map_cong) (auto simp: private_view_def EvTrade leg_count_def)
  also have "\<dots> = sum (\<lambda>c. of_bool (makerClientId t = c) + of_bool (takerClientId t = c)) (set cs)"
    by (simp add: sum_list_distinct_conv_sum_set assms(1))
  also have "\<dots> = 2"
    using assms(2)
    by (auto simp: sum.distrib of_bool_def sum.delta EvTrade parties_def affectedRecipients_def Let_def
        split: if_splits)
  finally show ?thesis
    by (simp add: EvTrade)
qed (simp_all add: private_view_def leg_count_def sum_list_eq_0_iff)

lemma legs_of_events:
  assumes "distinct cs" and "set (recipients_of evs) \<subseteq> set cs"
  shows "sum_list (map (\<lambda>c. leg_count (concat (map (private_view c) evs))) cs) = 2 * length (trades_of evs)"
  using assms(2)
proof (induction evs)
  case (Cons e evs)
  have "trades_of (e # evs) = trades_of [e] @ trades_of evs"
    using trades_of_append [of "[e]" evs] by simp
  moreover have "set (parties e) \<subseteq> set cs" "set (recipients_of evs) \<subseteq> set cs"
    using Cons.prems by (auto simp: recipients_of_def)
  ultimately show ?case
    using Cons.IH legs_of_event [OF assms(1), of e] by (simp add: leg_count_def sum_list_addf)
qed (simp add: leg_count_def)

lemma find_recipient:
  "distinct cs \<Longrightarrow> find (\<lambda>r. recipient r = c) (map (recipient_view batch evs) cs) =
     (if c \<in> set cs then Some (recipient_view batch evs c) else None)"
  by (induction cs) (auto simp: recipient_view_def)

section \<open>Properties\<close>

text \<open>C10. The batch of every processed command can be projected: the results for all recipients agree
  with the projection for a single client, each recipient appears once, sees exactly the legs of the
  events that concern it, in event order, and only the client that issued the command gets the
  correlation of the command.\<close>

theorem private_results_agree:
  assumes "reachable runId k st" and "normalized_command message"
    and "globalSequenceNumber message = of_nat (Suc k)" and "Suc k < 2 ^ 64"
    and "processCommand st message = Inr (st', batch)"
  shows "\<exists>rs. projectPrivateResults batch = Inr rs \<and> distinct (map recipient rs) \<and>
    (\<forall>client. projectPrivateResult batch client = Inr (find (\<lambda>r. recipient r = client) rs)) \<and>
    (\<forall>r \<in> set rs. privateResult r = concat (map (private_view (recipient r)) (events batch)) \<and>
       privateResult r \<noteq> [] \<and>
       (rr_correlation r \<noteq> None \<longleftrightarrow> recipient r = clientId message))"
proof -
  have batch: "batch = spec_batch runId message (abs_book st)"
    using processCommand_refines [OF reachable_run_inv [OF assms(1)] assms(2-4)] assms(5) by auto
  note ok = spec_batch_projectable [of runId message "abs_book st", folded batch]
  have view: "recipient \<circ> recipient_view batch (events batch) = id"
    by (simp add: recipient_view_def fun_eq_iff)
  have cs: "distinct (recipients_of (events batch))"
    by (simp add: recipients_of_def)
  have "concat (map (private_view c) (events batch)) \<noteq> []" if "c \<in> set (recipients_of (events batch))" for c
    using that private_view_parties [of c] by (auto simp: recipients_of_def)
  moreover have "co_clientId (correlation batch) = clientId message"
    by (simp add: batch spec_batch_def command_correlation_def)
  ultimately show ?thesis
    unfolding projectPrivateResults_view [OF ok] projectPrivateResult_view [OF ok]
    using find_recipient [OF cs] cs by (auto simp: view, auto simp: recipient_view_def split: if_splits)
qed

theorem private_results_agree_witness:
  "\<exists>rs. projectPrivateResults (demo_batch demo_buy APPLIED demo_buy_events) = Inr rs \<and>
     distinct (map recipient rs) \<and>
     projectPrivateResult (demo_batch demo_buy APPLIED demo_buy_events) 13 =
       Inr (find (\<lambda>r. recipient r = 13) rs)"
  using private_results_agree [OF demo_reachable(2) demo_normalized(3) demo_sequence(3) _ demo_step3] by auto

text \<open>The public tape and the private results tell the same story: the tape lists the trades of the
  batch in order with their price, quantity and aggressor side, and the private results hold exactly two
  legs (maker and taker) per published trade.\<close>

lemma public_trades_match_private_legs:
  assumes "reachable runId k st" and "normalized_command message"
    and "globalSequenceNumber message = of_nat (Suc k)" and "Suc k < 2 ^ 64"
    and "processCommand st message = Inr (st', batch)"
  shows "\<exists>rs. projectPrivateResults batch = Inr rs \<and>
    sum_list (map (\<lambda>r. leg_count (privateResult r)) rs) = 2 * length (projectPublicTrades batch) \<and>
    map pu_executionPrice (projectPublicTrades batch) = map executionPrice (trades_of (events batch)) \<and>
    map pu_executionQuantity (projectPublicTrades batch) = map executionQuantity (trades_of (events batch)) \<and>
    map pu_eventId (projectPublicTrades batch) = map tr_eventId (trades_of (events batch)) \<and>
    map aggressorSide (projectPublicTrades batch) = map takerSide (trades_of (events batch))"
proof -
  have batch: "batch = spec_batch runId message (abs_book st)"
    using processCommand_refines [OF reachable_run_inv [OF assms(1)] assms(2-4)] assms(5) by auto
  note ok = spec_batch_projectable [of runId message "abs_book st", folded batch]
  have "distinct (recipients_of (events batch))"
    by (simp add: recipients_of_def)
  then show ?thesis
    using legs_of_events [of "recipients_of (events batch)" "events batch"]
    by (simp add: projectPrivateResults_view [OF ok] projectPublicTrades_view recipient_view_def o_def)
qed

lemma public_trades_match_private_legs_example:
  "length (projectPublicTrades (demo_batch demo_buy APPLIED demo_buy_events)) = 2 \<and>
   (\<exists>rs. projectPrivateResults (demo_batch demo_buy APPLIED demo_buy_events) = Inr rs \<and>
     sum_list (map (\<lambda>r. leg_count (privateResult r)) rs) = 4)"
proof
  show two: "length (projectPublicTrades (demo_batch demo_buy APPLIED demo_buy_events)) = 2"
    by code_simp
  show "\<exists>rs. projectPrivateResults (demo_batch demo_buy APPLIED demo_buy_events) = Inr rs \<and>
     sum_list (map (\<lambda>r. leg_count (privateResult r)) rs) = 4"
    using public_trades_match_private_legs
      [OF demo_reachable(2) demo_normalized(3) demo_sequence(3) _ demo_step3] two by auto
qed

text \<open>C11. The three result queues are bounded first-in first-out queues: whatever the calls, no call
  throws when the pushed batches are admissible, what was accepted is what was delivered followed by what is still
  queued, and the load never exceeds the configured capacity.\<close>

theorem result_queues_fifo:
  assumes "make_BoundedCommandResultQueue n = Inr q1" and "make_BoundedPrivateResultQueue n = Inr q2"
    and "make_BoundedPublicTradeQueue n = Inr q3"
    and "None \<notin> pushed calls1"
    and "\<forall>b \<in> pushed calls2. 0 < event_load b \<and> event_load b \<le> SIZE_MAX"
    and "[] \<notin> pushed calls3"
  shows "(\<exists>acc del q. queue_run crq_tryPush (\<lambda>q. map_option (map_prod Some id) (crq_tryPop q)) calls1 q1 =
        Inr (acc, del, q) \<and>
      acc = del @ map Some (crq_batches q) \<and> length (crq_batches q) \<le> n) \<and>
    (\<exists>acc del q. queue_run prq_tryPush prq_tryPop calls2 q2 = Inr (acc, del, q) \<and>
      acc = del @ prq_batches q \<and> sum_list (map event_load (prq_batches q)) \<le> n) \<and>
    (\<exists>acc del q. queue_run ptq_tryPush ptq_tryPop calls3 q3 = Inr (acc, del, q) \<and>
      acc = del @ ptq_batches q \<and> sum_list (map length (ptq_batches q)) \<le> n)"
proof (intro conjI)
  have q1: "crq_wf q1" "crq_batches q1 = []" "crq_capacity q1 = n"
    using assms(1) by (auto simp: make_BoundedCommandResultQueue_def crq_wf_def split: if_splits)
  have none: "pushed calls1 \<subseteq> {b. b \<noteq> None}"
    using assms(4) by (metis (mono_tags, lifting) mem_Collect_eq subsetI)
  show "\<exists>acc del q. queue_run crq_tryPush (\<lambda>q. map_option (map_prod Some id) (crq_tryPop q)) calls1 q1 =
        Inr (acc, del, q) \<and> acc = del @ map Some (crq_batches q) \<and> length (crq_batches q) \<le> n"
    using crq.run_refines_fifo [OF q1(1), of calls1] q1(2,3) none by (auto simp: sum_list_triv o_def)
  have q2: "prq_wf q2" "prq_batches q2 = []" "prq_eventCapacity q2 = n"
    using assms(2) by (auto simp: make_BoundedPrivateResultQueue_def prq_wf_def split: if_splits)
  show "\<exists>acc del q. queue_run prq_tryPush prq_tryPop calls2 q2 = Inr (acc, del, q) \<and>
      acc = del @ prq_batches q \<and> sum_list (map event_load (prq_batches q)) \<le> n"
    using prq.run_refines_fifo [OF q2(1,2), of calls2] q2(3) assms(5) by auto
  have q3: "ptq_wf q3" "ptq_batches q3 = []" "ptq_recordCapacity q3 = n"
    using assms(3) by (auto simp: make_BoundedPublicTradeQueue_def ptq_wf_def split: if_splits)
  show "\<exists>acc del q. queue_run ptq_tryPush ptq_tryPop calls3 q3 = Inr (acc, del, q) \<and>
      acc = del @ ptq_batches q \<and> sum_list (map length (ptq_batches q)) \<le> n"
    using ptq.run_refines_fifo [OF q3(1,2), of calls3] q3(3) assms(6) by auto
qed

definition demo_public :: PublicTrade where
  "demo_public = \<lparr>pu_eventId = \<lparr>ev_commandSequence = 1, ev_eventIndex = 0, ev_exchangeRunId = 7\<rparr>,
     pu_instrumentId = 1, pu_executionPrice = 100, pu_executionQuantity = 5, aggressorSide = Side_BUY\<rparr>"

theorem result_queues_fifo_witness:
  "\<exists>acc del q. queue_run ptq_tryPush ptq_tryPop
      [TryPush [demo_public], TryPush [demo_public, demo_public], TryPop]
      \<lparr>ptq_recordCapacity = 2, ptq_batches = [], ptq_queuedRecordCount = 0\<rparr> = Inr (acc, del, q) \<and>
     acc = del @ ptq_batches q \<and> acc = [[demo_public]]"
  using result_queues_fifo [of 2 _ _ _ "[]" "[]" "[TryPush [demo_public], TryPush [demo_public, demo_public], TryPop]"]
  by (simp add: make_BoundedCommandResultQueue_def make_BoundedPrivateResultQueue_def
      make_BoundedPublicTradeQueue_def ptq_tryPush_def ptq_tryPop_def)

text \<open>The multicast bus is lossless for the readers registered before the first write: each of them
  receives the accepted messages in order without gap or repetition, is never more than the ring size
  behind, and a write is refused only because of such a reader.\<close>

theorem bus_delivers_in_order:
  assumes "make_Bus n = Inr bus0" and "bus = foldl (\<lambda>b a. registerCursor b cursors a) bus0 as"
    and "\<forall>a \<in> set as. cursors a = 0" and "\<forall>a. BusRead a \<in> set calls \<longrightarrow> a \<in> set as"
    and "length calls + unat n < 2 ^ 64" and "bus_run calls bus cursors = (written, reads, bus', cursors')"
  shows "(\<forall>a \<in> set as. received a reads = take (unat (cursors' a)) written \<and>
      unat (cursors' a) \<le> length written \<and> length written - unat (cursors' a) \<le> unat n) \<and>
    (\<forall>m. length written + 1 + unat n < 2 ^ 64 \<longrightarrow> \<not> fst (bus_write bus' cursors' m) \<longrightarrow>
      (\<exists>a \<in> set as. length written - unat (cursors' a) = unat n))"
proof -
  have reg: "bus_inv [] bus cursors \<and> readers bus = set as \<and> bus_size bus = n"
    using assms(2,3)
  proof (induction as arbitrary: bus rule: rev_induct)
    case Nil
    then show ?case
      using inv_make [OF assms(1)] assms(1) by (auto simp: make_Bus_def readers_def split: if_splits)
  next
    case (snoc a as)
    then show ?case
      using inv_register [of _ cursors a] by (auto simp: registerCursor_def Let_def)
  qed
  have run: "bus_inv written bus' cursors' \<and> readers bus' = set as \<and> bus_size bus' = n \<and>
    (\<forall>a \<in> set as. unat (cursors' a) = length (received a reads) \<and>
      received a reads = take (length (received a reads)) written)"
    using run_in_order [of "[]" bus cursors calls written reads bus' cursors'] reg assms(3-6) by auto
  have lag: "unat (cursors' a) \<le> length written" "length written \<le> unat (cursors' a) + unat n"
    if "a \<in> set as" for a
    using run that by (auto simp: bus_inv_def word_le_nat_alt)
  have "\<exists>a \<in> set as. length written - unat (cursors' a) = unat n"
    if room: "length written + 1 + unat n < 2 ^ 64" and refused: "\<not> fst (bus_write bus' cursors' m)" for m
  proof -
    obtain bus1 where "bus_write bus' cursors' m = (False, bus1)"
      using refused by (cases "bus_write bus' cursors' m") simp
    then obtain a where a: "a \<in> set as" "unat (cursors' a) + unat n \<le> length written"
      using inv_write(4) [of written bus' cursors' m False bus1] run room by (auto simp: not_less)
    then show ?thesis
      using lag [OF a(1)] by (intro bexI [of _ a]) auto
  qed
  moreover have "received a reads = take (unat (cursors' a)) written" if "a \<in> set as" for a
    using run that by metis
  ultimately show ?thesis
    using lag by (metis diff_le_self le_diff_conv add.commute)
qed

theorem bus_delivers_in_order_witness:
  "let calls = [BusWrite demo_sell1, BusWrite demo_sell2, BusRead 0, BusWrite demo_buy, BusRead 0] in
   \<exists>written reads bus' cursors'.
     bus_run calls (registerCursor \<lparr>bus_size = 1, bus_buffer = [None], reader_cursors = [],
        cached_min_cursor = 0, total_writes = 0\<rparr> (\<lambda>_. 0) 0) (\<lambda>_. 0) = (written, reads, bus', cursors') \<and>
     received 0 reads = take (unat (cursors' 0)) written \<and> written = [demo_sell1, demo_buy]"
proof -
  let ?bus0 = "\<lparr>bus_size = 1, bus_buffer = [None], reader_cursors = [],
        cached_min_cursor = 0, total_writes = 0\<rparr>"
  let ?calls = "[BusWrite demo_sell1, BusWrite demo_sell2, BusRead 0, BusWrite demo_buy, BusRead 0]"
  obtain written reads bus' cursors' where
    run: "bus_run ?calls (registerCursor ?bus0 (\<lambda>_. 0) 0) (\<lambda>_. 0) = (written, reads, bus', cursors')"
    by (metis prod_cases4)
  have fst_run: "fst (bus_run ?calls (registerCursor ?bus0 (\<lambda>_. 0) 0) (\<lambda>_. 0)) = [demo_sell1, demo_buy]"
    by code_simp
  have "written = [demo_sell1, demo_buy]"
    using run fst_run by simp
  moreover have "received 0 reads = take (unat (cursors' 0)) written"
    using bus_delivers_in_order [of 1 ?bus0 "registerCursor ?bus0 (\<lambda>_. 0) 0" "\<lambda>_. 0" "[0]" ?calls
        written reads bus' cursors', OF _ _ _ _ _ run]
    by (simp add: make_Bus_def del: bus_run.simps)
  ultimately show ?thesis
    using run by (simp add: Let_def)
qed

text \<open>C12. The worker handles every accepted command exactly once and in order, whatever the interleaving
  of the sequencer's pushes, the worker's cycles and the consumer's pops, and however full the result
  queue is: no cycle throws or fails to end, the commands taken are a prefix of the accepted ones, and
  the delivered batches, the queued ones and the pending one are the results of the taken commands.\<close>

theorem worker_exactly_once:
  assumes "lockfree_queue items push pop" and "items q0 = []" and "make_BoundedCommandResultQueue n = Inr results"
    and "length calls < fuel"
    and "worker_run push pop fuel calls q0 (make_MatchingEngine bus results (init_MatchingState runId)) =
      (outcome, accepted, delivered, q, me)"
    and "numbered_run accepted"
  shows "outcome = Running \<and> length (crq_batches (commandResultQueue me)) \<le> crq_capacity (commandResultQueue me) \<and>
    (\<exists>taken. accepted = taken @ items q \<and>
      run_commands (init_MatchingState runId) taken = Inr (matchingState me, delivered @ results_of me))"
proof -
  have "worker_inv items runId [] [] q0 (make_MatchingEngine bus results (init_MatchingState runId))"
    using assms(2,3)
    by (auto simp: worker_inv_def make_MatchingEngine_def results_of_def crq_wf_def
        make_BoundedCommandResultQueue_def split: if_splits)
  then show ?thesis
    using worker_run_correct [OF assms(1) _ _ assms(5), of runId "[]" "[]"] assms(2,4,6)
    by (auto simp: worker_inv_def crq_wf_def)
qed

definition demo_bus :: Bus where
  "demo_bus = \<lparr>bus_size = 4, bus_buffer = replicate 4 None, reader_cursors = [], cached_min_cursor = 0, total_writes = 0\<rparr>"

definition demo_engine :: MatchingEngine where
  "demo_engine = make_MatchingEngine demo_bus \<lparr>crq_capacity = 1, crq_batches = []\<rparr> (init_MatchingState 7)"

definition demo_calls :: "worker_call list" where
  "demo_calls = [Submit demo_sell1, Submit demo_sell2, Advance (\<lambda>_. 0), TakeResult, Advance (\<lambda>_. 0), Submit demo_buy]"

lemma demo_accepted:
  "fst (snd (worker_run (list_push 8) list_pop 20 demo_calls [] demo_engine)) = [demo_sell1, demo_sell2, demo_buy]"
  by code_simp

lemma demo_numbered: "numbered_run [demo_sell1, demo_sell2, demo_buy]"
  using demo_normalized demo_sequence by (auto simp: numbered_run_def less_Suc_eq nth_Cons split: nat.splits)

theorem worker_exactly_once_witness:
  "\<exists>delivered q me taken. worker_run (list_push 8) list_pop 20 demo_calls [] demo_engine =
      (Running, [demo_sell1, demo_sell2, demo_buy], delivered, q, me) \<and>
    [demo_sell1, demo_sell2, demo_buy] = taken @ q \<and>
    run_commands (init_MatchingState 7) taken = Inr (matchingState me, delivered @ results_of me)"
proof -
  obtain r acc delivered q me where run: "worker_run (list_push 8) list_pop 20 demo_calls [] demo_engine =
      (r, acc, delivered, q, me)"
    by (metis prod_cases5)
  have acc: "acc = [demo_sell1, demo_sell2, demo_buy]"
    using demo_accepted by (simp add: run)
  have "length demo_calls < 20"
    by (simp add: demo_calls_def)
  from worker_exactly_once [OF list_lockfree _ _ this run [unfolded demo_engine_def], of 1]
  show ?thesis
    using run demo_numbered by (auto simp: acc make_BoundedCommandResultQueue_def)
qed

text \<open>The worker makes progress: a cycle that finds room in the result queue for the pending batch
  and the batches of all waiting commands returns with the command queue empty and nothing pending.\<close>

theorem worker_drains:
  assumes "lockfree_queue items push pop" and "worker_inv items runId accepted delivered q me"
    and "numbered_run accepted" and "length (items q) < fuel"
    and "length (items q) + of_bool (hasPendingResult me) \<le> free_slots me"
  shows "\<exists>progressed q' me'. engine_advance pop cursors fuel q me = Some (Inr progressed, q', me') \<and>
    items q' = [] \<and> \<not> hasPendingResult me' \<and>
    run_commands (init_MatchingState runId) accepted = Inr (matchingState me', delivered @ results_of me')"
proof -
  from advance_correct [OF assms(1,3,4,2), of cursors]
  obtain p q' me' where adv: "engine_advance pop cursors fuel q me = Some (Inr p, q', me')"
    "worker_inv items runId accepted delivered q' me'" "items q' = []" "pendingCommandResult me' = None"
    using assms(5) by auto
  then show ?thesis
    by (auto simp: worker_inv_def hasPendingResult_def)
qed

theorem worker_drains_witness:
  "\<exists>progressed q' me'. engine_advance list_pop (\<lambda>_. 0) 5 [demo_sell1] demo_engine = Some (Inr progressed, q', me') \<and>
    q' = [] \<and> \<not> hasPendingResult me' \<and>
    run_commands (init_MatchingState 7) [demo_sell1] = Inr (matchingState me', results_of me')"
proof -
  have "worker_inv id 7 [demo_sell1] [] [demo_sell1] demo_engine"
    by (auto simp: worker_inv_def demo_engine_def make_MatchingEngine_def results_of_def crq_wf_def)
  moreover have "numbered_run [demo_sell1]"
    using numbered_run_append [of "[demo_sell1]" "[demo_sell2, demo_buy]"] demo_numbered by simp
  ultimately show ?thesis
    using worker_drains [OF list_lockfree, of 7 "[demo_sell1]" "[]" "[demo_sell1]" demo_engine 5 "\<lambda>_. 0"]
    by (simp add: free_slots_def hasPendingResult_def demo_engine_def make_MatchingEngine_def del: run_commands.simps)
qed

text \<open>The back-off of the polling loops is bounded: the first 64 idle rounds after a reset do not
  sleep, round 64 + i sleeps 2 to the power i - 1 microseconds, and never more than a millisecond, so a worker
  looks at its queue again within a millisecond.\<close>

lemma idle_backoff_bounded:
  assumes "k < 2 ^ 64"
  shows "map action_sleepDuration (fst (idle_actions k (idle_reset idle))) = map planned_wait [1 ..< Suc k] \<and>
    list_all (\<lambda>a. action_sleepDuration a \<le> MAX_SLEEP) (fst (idle_actions k (idle_reset idle)))"
proof -
  have eq: "map action_sleepDuration (fst (idle_actions k (idle_reset idle))) = map planned_wait [1 ..< Suc k]"
    using idle_actions_planned [of "idle_reset idle" 0 k] assms
    by (simp add: idle_reset_def planned_wait_def del: upt_Suc)
  have "planned_wait n \<le> MAX_SLEEP" for n
    by (simp add: planned_wait_def MAX_SLEEP_def)
  then have "set (map action_sleepDuration (fst (idle_actions k (idle_reset idle)))) \<subseteq> {w. w \<le> MAX_SLEEP}"
    unfolding eq by auto
  then have "list_all (\<lambda>a. action_sleepDuration a \<le> MAX_SLEEP) (fst (idle_actions k (idle_reset idle)))"
    by (auto simp: list_all_iff)
  then show ?thesis
    using eq by (rule conjI [rotated])
qed

lemma idle_backoff_bounded_example:
  "map action_sleepDuration (fst (idle_actions 3 (idle_reset init_AdaptiveIdle))) = [0, 0, 0]"
  using idle_backoff_bounded [of 3 init_AdaptiveIdle] by (simp add: upt_rec planned_wait_def)

end
