(* ===== verification/Admission.thy ===== *)
theory Admission
  imports Shared_Queue
begin

text \<open>
  The command admission index, \<open>core/admission/include/command_admission.hpp\<close> and
  \<open>core/admission/src/command_admission.cpp\<close>: it makes the submission of a command idempotent. A command
  is identified by its client and the client's command identifier; the index remembers what was
  submitted under it, its sequence number and, once known, its result. Every member function holds the
  index's mutex for its whole effect, so a call is one step. \<open>std::map\<close> compares keys only through
  \<open>AdmissionKeyLess\<close>, which reads the client and the bytes of the identifier; entries are stored under that
  view of the key.
\<close>

section \<open>Keys and commands\<close>

record AdmissionKey =
  ak_clientId :: ClientId
  ak_clientCommandId :: ClientCommandId

record NormalizedNewOrder =
  no_instrumentId :: InstrumentId
  no_configurationVersion :: u64
  no_side :: Side
  no_price :: Price
  no_quantity :: Quantity
  no_timeInForce :: TimeInForce

record NormalizedCancel =
  nc_instrumentId :: InstrumentId
  nc_targetOrderId :: TargetOrderId

datatype NormalizedBusinessCommand =
    NewOrderCommand NormalizedNewOrder
  | CancelCommand NormalizedCancel

text \<open>\<open>operator<\<close> of \<open>std::string_view\<close> compares bytes as unsigned values.\<close>

fun bytes_less :: "u8 list \<Rightarrow> u8 list \<Rightarrow> bool" where
  "bytes_less [] ys = (ys \<noteq> [])"
| "bytes_less (x # xs) [] = False"
| "bytes_less (x # xs) (y # ys) = (x < y \<or> x = y \<and> bytes_less xs ys)"

type_synonym key_view = "ClientId \<times> u8 list"

definition key_view :: "AdmissionKey \<Rightarrow> key_view" where
  "key_view key = (ak_clientId key, ClientCommandId_value (ak_clientCommandId key))"

definition AdmissionKeyLess :: "key_view \<Rightarrow> key_view \<Rightarrow> bool" where
  "AdmissionKeyLess left right =
     (if fst left \<noteq> fst right then fst left < fst right else bytes_less (snd left) (snd right))"

definition adm_toDomainSide :: "orderType \<Rightarrow> Side result" where
  "adm_toDomainSide side =
     (if side = BUY then Inr Side_BUY
      else if side = SELL then Inr Side_SELL
      else Inl (invalid_argument ''admission NewOrder must have BUY or SELL side''))"

definition keyFrom :: "sequenceMessage \<Rightarrow> AdmissionKey result" where
  "keyFrom command =
     (case clientCommandId command of
        None \<Rightarrow> Inl (invalid_argument ''admission command is missing exact client identity'')
      | Some ccid \<Rightarrow>
          if clientId command = 0
          then Inl (invalid_argument ''admission command is missing exact client identity'')
          else Inr \<lparr>ak_clientId = clientId command, ak_clientCommandId = ccid\<rparr>)"

definition keyFrom_correlation :: "CommandResultCorrelation \<Rightarrow> AdmissionKey" where
  "keyFrom_correlation correl =
     \<lparr>ak_clientId = co_clientId correl, ak_clientCommandId = co_clientCommandId correl\<rparr>"

definition businessCommandFrom :: "sequenceMessage \<Rightarrow> NormalizedBusinessCommand result" where
  "businessCommandFrom command =
     (if instrumentId command = 0
      then Inl (invalid_argument ''admission command is missing InstrumentId'')
      else if orderType_of command = BUY \<or> orderType_of command = SELL then
        (if configurationVersion command = 0 \<or> price command = 0 \<or> quantity command = 0
         then Inl (invalid_argument ''admission NewOrder is missing normalized business fields'')
         else bind_result (adm_toDomainSide (orderType_of command)) (\<lambda>side.
           Inr (NewOrderCommand
             \<lparr>no_instrumentId = instrumentId command, no_configurationVersion = configurationVersion command,
              no_side = side, no_price = price command, no_quantity = quantity command,
              no_timeInForce = tif command\<rparr>)))
      else if orderType_of command = CANCEL then
        (case targetOrderId command of
           None \<Rightarrow> Inl (invalid_argument ''admission Cancel is missing TargetOrderId'')
         | Some target \<Rightarrow>
             if target = 0 then Inl (invalid_argument ''admission Cancel is missing TargetOrderId'')
             else Inr (CancelCommand
               \<lparr>nc_instrumentId = instrumentId command, nc_targetOrderId = target\<rparr>))
      else Inl (invalid_argument ''unsupported command type reached admission''))"

section \<open>The index\<close>

datatype RecordState = RESERVED | SEQUENCED | COMPLETED

record Record =
  rec_command :: NormalizedBusinessCommand
  rec_state :: RecordState
  rec_commandSequence :: CommandSequence
  rec_result :: "CommandResultBatch option"

record AdmissionStatistics =
  firstSubmissions :: nat
  identicalInFlight :: nat
  identicalCompleted :: nat
  conflictingReuse :: nat
  admissionUnavailable :: nat

record CommandAdmissionIndex =
  adm_capacity :: nat
  adm_exchangeRunId :: ExchangeRunId
  admissionOpen :: bool
  records :: "(key_view \<times> Record) list"
  statistics :: AdmissionStatistics

datatype AdmissionStatus =
  FIRST_SUBMISSION | IDENTICAL_IN_FLIGHT | IDENTICAL_COMPLETED | CONFLICTING_REUSE | ADMISSION_UNAVAILABLE

record AdmissionDecision =
  ad_status :: AdmissionStatus
  rejectionReason :: "AdmissionRejectionReason option"
  originalResult :: "CommandResultBatch option"

datatype MarkSequencedStatus =
    MS_SEQUENCED | MS_IDEMPOTENT | MS_INVALID_SEQUENCE | MS_UNKNOWN_RESERVATION | MS_COMMAND_MISMATCH
  | MS_WRONG_STATE | MS_SEQUENCE_MISMATCH

datatype CompletionStatus =
  CS_COMPLETED | CS_INVALID_BATCH | CS_UNKNOWN_RESERVATION | CS_WRONG_STATE | CS_CORRELATION_MISMATCH

definition no_statistics :: AdmissionStatistics where
  "no_statistics = \<lparr>firstSubmissions = 0, identicalInFlight = 0, identicalCompleted = 0,
     conflictingReuse = 0, admissionUnavailable = 0\<rparr>"

definition make_CommandAdmissionIndex :: "nat \<Rightarrow> CommandAdmissionIndex result" where
  "make_CommandAdmissionIndex capacity =
     (if capacity = 0 then Inl (invalid_argument ''command-admission capacity must be positive'')
      else Inr \<lparr>adm_capacity = capacity, adm_exchangeRunId = 0, admissionOpen = True, records = [],
                statistics = no_statistics\<rparr>)"

definition make_run_bound_CommandAdmissionIndex :: "nat \<Rightarrow> ExchangeRunId \<Rightarrow> CommandAdmissionIndex result" where
  "make_run_bound_CommandAdmissionIndex capacity runId =
     (if capacity = 0 then Inl (invalid_argument ''command-admission capacity must be positive'')
      else if runId = 0
      then Inl (invalid_argument ''run-bound command admission requires a nonzero ExchangeRunId'')
      else Inr \<lparr>adm_capacity = capacity, adm_exchangeRunId = runId, admissionOpen = False, records = [],
                statistics = no_statistics\<rparr>)"

definition unavailable :: "AdmissionRejectionReason option \<Rightarrow> AdmissionDecision" where
  "unavailable reason =
     \<lparr>ad_status = ADMISSION_UNAVAILABLE, rejectionReason = reason, originalResult = None\<rparr>"

definition reserveImpl ::
  "('q, sequenceMessage) queue_push \<Rightarrow> CommandAdmissionIndex \<Rightarrow> sequenceMessage \<Rightarrow> 'q option \<Rightarrow> bool \<Rightarrow>
     (AdmissionDecision \<times> CommandAdmissionIndex \<times> 'q option) result" where
  "reserveImpl push idx command stagingQueue capacityAvailable =
     bind_result (keyFrom command) (\<lambda>key.
     bind_result (businessCommandFrom command) (\<lambda>businessCommand.
     let stats = statistics idx;
         turn_away = (\<lambda>reason.
           (unavailable reason,
            idx\<lparr>statistics := stats\<lparr>admissionUnavailable := admissionUnavailable stats + 1\<rparr>\<rparr>, stagingQueue)) in
     case map_of (records idx) (key_view key) of
       Some existing \<Rightarrow>
         if rec_command existing \<noteq> businessCommand then
           Inr (\<lparr>ad_status = CONFLICTING_REUSE, rejectionReason = Some DUPLICATE_COMMAND_CONFLICT,
                 originalResult = None\<rparr>,
                idx\<lparr>statistics := stats\<lparr>conflictingReuse := conflictingReuse stats + 1\<rparr>\<rparr>, stagingQueue)
         else if rec_state existing \<noteq> COMPLETED then
           Inr (\<lparr>ad_status = IDENTICAL_IN_FLIGHT, rejectionReason = None, originalResult = None\<rparr>,
                idx\<lparr>statistics := stats\<lparr>identicalInFlight := identicalInFlight stats + 1\<rparr>\<rparr>, stagingQueue)
         else
           Inr (\<lparr>ad_status = IDENTICAL_COMPLETED, rejectionReason = None, originalResult = rec_result existing\<rparr>,
                idx\<lparr>statistics := stats\<lparr>identicalCompleted := identicalCompleted stats + 1\<rparr>\<rparr>, stagingQueue)
     | None \<Rightarrow>
         if \<not> capacityAvailable then Inr (turn_away (Some RUN_CAPACITY_REACHED))
         else if \<not> admissionOpen idx \<or> length (records idx) \<ge> adm_capacity idx then
           Inr (turn_away (if admissionOpen idx then None else Some EXCHANGE_RUN_UNAVAILABLE))
         else
           let reserved = om_insert AdmissionKeyLess (key_view key)
                 \<lparr>rec_command = businessCommand, rec_state = RESERVED, rec_commandSequence = 0,
                  rec_result = None\<rparr> (records idx);
               admitted = (\<lambda>q.
                 (\<lparr>ad_status = FIRST_SUBMISSION, rejectionReason = None, originalResult = None\<rparr>,
                  idx\<lparr>records := reserved,
                      statistics := stats\<lparr>firstSubmissions := firstSubmissions stats + 1\<rparr>\<rparr>, q)) in
           case stagingQueue of
             None \<Rightarrow> Inr (admitted None)
           | Some q \<Rightarrow>
               (case SharedQueue_push push q command of
                  (False, _) \<Rightarrow>
                    Inr (unavailable (Some GATEWAY_BUSY),
                         idx\<lparr>records := AList.delete (key_view key) reserved,
                             statistics := stats\<lparr>admissionUnavailable := admissionUnavailable stats + 1\<rparr>\<rparr>,
                         Some q)
                | (True, q) \<Rightarrow> Inr (admitted (Some q)))))"

definition reserve ::
  "CommandAdmissionIndex \<Rightarrow> sequenceMessage \<Rightarrow> (AdmissionDecision \<times> CommandAdmissionIndex) result" where
  "reserve idx command =
     bind_result (reserveImpl (\<lambda>q _. Some q) idx command (None :: unit option) True)
       (\<lambda>(decision, idx, _). Inr (decision, idx))"

definition reserveAndStageForRunCapacity ::
  "('q, sequenceMessage) queue_push \<Rightarrow> CommandAdmissionIndex \<Rightarrow> sequenceMessage \<Rightarrow> 'q \<Rightarrow> bool \<Rightarrow>
     (AdmissionDecision \<times> CommandAdmissionIndex \<times> 'q) result" where
  "reserveAndStageForRunCapacity push idx command stagingQueue capacityAvailable =
     bind_result (reserveImpl push idx command (Some stagingQueue) capacityAvailable)
       (\<lambda>(decision, idx, q). Inr (decision, idx, the q))"

definition reserveAndStage ::
  "('q, sequenceMessage) queue_push \<Rightarrow> CommandAdmissionIndex \<Rightarrow> sequenceMessage \<Rightarrow> 'q \<Rightarrow>
     (AdmissionDecision \<times> CommandAdmissionIndex \<times> 'q) result" where
  "reserveAndStage push idx command stagingQueue =
     reserveAndStageForRunCapacity push idx command stagingQueue True"

definition setAdmissionOpen :: "bool \<Rightarrow> CommandAdmissionIndex \<Rightarrow> CommandAdmissionIndex" where
  "setAdmissionOpen opened idx = idx\<lparr>admissionOpen := opened\<rparr>"

definition markSequenced ::
  "CommandAdmissionIndex \<Rightarrow> sequenceMessage \<Rightarrow> (MarkSequencedStatus \<times> CommandAdmissionIndex) result" where
  "markSequenced idx command =
     (if globalSequenceNumber command = 0 then Inr (MS_INVALID_SEQUENCE, idx)
      else
        bind_result (keyFrom command) (\<lambda>key.
        bind_result (businessCommandFrom command) (\<lambda>businessCommand.
        case map_of (records idx) (key_view key) of
          None \<Rightarrow> Inr (MS_UNKNOWN_RESERVATION, idx)
        | Some existing \<Rightarrow>
            if rec_command existing \<noteq> businessCommand then Inr (MS_COMMAND_MISMATCH, idx)
            else if rec_state existing = RESERVED then
              Inr (MS_SEQUENCED,
                   idx\<lparr>records := om_insert AdmissionKeyLess (key_view key)
                     (existing\<lparr>rec_state := SEQUENCED, rec_commandSequence := globalSequenceNumber command\<rparr>)
                     (records idx)\<rparr>)
            else if rec_state existing = SEQUENCED then
              (if rec_commandSequence existing \<noteq> globalSequenceNumber command
               then Inr (MS_SEQUENCE_MISMATCH, idx) else Inr (MS_IDEMPOTENT, idx))
            else Inr (MS_WRONG_STATE, idx))))"

definition adm_complete ::
  "CommandAdmissionIndex \<Rightarrow> CommandResultBatch option \<Rightarrow> CompletionStatus \<times> CommandAdmissionIndex" where
  "adm_complete idx res =
     (case res of
        None \<Rightarrow> (CS_INVALID_BATCH, idx)
      | Some batch \<Rightarrow>
          let correl = correlation batch in
          if co_clientId correl = 0 \<or> co_commandSequence correl = 0 \<or>
             ClientCommandId_value (co_clientCommandId correl) = [] then (CS_INVALID_BATCH, idx)
          else if co_exchangeRunId correl \<noteq> adm_exchangeRunId idx then (CS_CORRELATION_MISMATCH, idx)
          else
            let key = key_view (keyFrom_correlation correl) in
            case map_of (records idx) key of
              None \<Rightarrow> (CS_UNKNOWN_RESERVATION, idx)
            | Some existing \<Rightarrow>
                if rec_state existing \<noteq> SEQUENCED then (CS_WRONG_STATE, idx)
                else if rec_commandSequence existing \<noteq> co_commandSequence correl
                then (CS_CORRELATION_MISMATCH, idx)
                else (CS_COMPLETED,
                      idx\<lparr>records := om_insert AdmissionKeyLess key
                        (existing\<lparr>rec_state := COMPLETED, rec_result := Some batch\<rparr>) (records idx)\<rparr>))"

definition completedResult ::
  "CommandAdmissionIndex \<Rightarrow> sequenceMessage \<Rightarrow> CommandResultBatch option result" where
  "completedResult idx command =
     bind_result (keyFrom command) (\<lambda>key.
     bind_result (businessCommandFrom command) (\<lambda>businessCommand.
       Inr (case map_of (records idx) (key_view key) of
              None \<Rightarrow> None
            | Some existing \<Rightarrow>
                if rec_state existing \<noteq> COMPLETED \<or> rec_command existing \<noteq> businessCommand then None
                else rec_result existing)))"

definition adm_size :: "CommandAdmissionIndex \<Rightarrow> nat" where
  "adm_size idx = length (records idx)"

section \<open>The order of the keys\<close>

lemma bytes_less_irrefl: "\<not> bytes_less xs xs"
  by (induction xs) auto

lemma bytes_less_trans: "bytes_less xs ys \<Longrightarrow> bytes_less ys zs \<Longrightarrow> bytes_less xs zs"
proof (induction xs ys arbitrary: zs rule: bytes_less.induct)
  case (1 ys)
  then show ?case by (cases ys; cases zs) auto
next
  case (3 x xs y ys)
  then show ?case by (cases zs) (auto intro: less_trans)
qed simp

lemma bytes_less_total: "xs \<noteq> ys \<Longrightarrow> bytes_less xs ys \<or> bytes_less ys xs"
  by (induction xs ys rule: bytes_less.induct) (auto simp: neq_Nil_conv)

interpretation adm: key_order AdmissionKeyLess
proof
  fix a b c :: key_view
  show "\<not> AdmissionKeyLess a a"
    by (simp add: AdmissionKeyLess_def bytes_less_irrefl)
  show "AdmissionKeyLess a b \<Longrightarrow> AdmissionKeyLess b c \<Longrightarrow> AdmissionKeyLess a c"
    by (auto simp: AdmissionKeyLess_def split: if_splits intro: bytes_less_trans less_trans)
  show "a \<noteq> b \<Longrightarrow> AdmissionKeyLess a b \<or> AdmissionKeyLess b a"
    using bytes_less_total [of "snd a" "snd b"] by (auto simp: AdmissionKeyLess_def prod_eq_iff)
qed

end
