(* ===== verification/Admission_Runs.thy ===== *)
theory Admission_Runs
  imports Admission
begin

text \<open>
  The invariant of the admission index, how each operation changes the record of a command, and the
  runs of the index under any sequence of calls by the gateway, the sequencer and the completion
  consumer.
\<close>

section \<open>Invariant\<close>

definition record_ok :: "ExchangeRunId \<Rightarrow> key_view \<Rightarrow> Record \<Rightarrow> bool" where
  "record_ok runId key r \<longleftrightarrow>
     (case rec_state r of
        RESERVED \<Rightarrow> rec_commandSequence r = 0 \<and> rec_result r = None
      | SEQUENCED \<Rightarrow> rec_commandSequence r \<noteq> 0 \<and> rec_result r = None
      | COMPLETED \<Rightarrow> rec_commandSequence r \<noteq> 0 \<and>
          (case rec_result r of
             None \<Rightarrow> False
           | Some b \<Rightarrow> co_commandSequence (correlation b) = rec_commandSequence r \<and>
               co_exchangeRunId (correlation b) = runId \<and>
               key_view (keyFrom_correlation (correlation b)) = key))"

definition index_inv :: "CommandAdmissionIndex \<Rightarrow> bool" where
  "index_inv idx \<longleftrightarrow>
     om_sorted AdmissionKeyLess (records idx) \<and> length (records idx) \<le> adm_capacity idx \<and>
     (\<forall>(key, r) \<in> set (records idx). record_ok (adm_exchangeRunId idx) key r)"

text \<open>How a record may change: its command never, its sequence number once, its result once.\<close>

definition record_progress :: "Record \<Rightarrow> Record \<Rightarrow> bool" where
  "record_progress r r' \<longleftrightarrow>
     rec_command r' = rec_command r \<and>
     (case rec_state r of
        RESERVED \<Rightarrow> True
      | SEQUENCED \<Rightarrow> rec_state r' \<noteq> RESERVED \<and> rec_commandSequence r' = rec_commandSequence r
      | COMPLETED \<Rightarrow> r' = r)"

definition index_progress :: "CommandAdmissionIndex \<Rightarrow> CommandAdmissionIndex \<Rightarrow> bool" where
  "index_progress idx idx' \<longleftrightarrow>
     adm_exchangeRunId idx' = adm_exchangeRunId idx \<and> adm_capacity idx' = adm_capacity idx \<and>
     (\<forall>key r. map_of (records idx) key = Some r \<longrightarrow>
        (\<exists>r'. map_of (records idx') key = Some r' \<and> record_progress r r'))"

lemma record_progress_refl [simp]: "record_progress r r"
  by (simp add: record_progress_def split: RecordState.splits)

lemma record_progress_trans: "record_progress a b \<Longrightarrow> record_progress b c \<Longrightarrow> record_progress a c"
  by (auto simp: record_progress_def split: RecordState.splits)

lemma index_progress_refl [simp]: "index_progress idx idx"
  by (simp add: index_progress_def)

lemma index_progress_trans: "index_progress a b \<Longrightarrow> index_progress b c \<Longrightarrow> index_progress a c"
  unfolding index_progress_def by (fastforce intro: record_progress_trans)

lemma index_invD:
  assumes "index_inv idx"
  shows "om_sorted AdmissionKeyLess (records idx)" and "length (records idx) \<le> adm_capacity idx"
    and "map_of (records idx) key = Some r \<Longrightarrow> record_ok (adm_exchangeRunId idx) key r"
  using assms by (auto simp: index_inv_def dest: map_of_SomeD)

text \<open>Inserting a record and removing it again restores the map.\<close>

lemma delete_om_insert:
  "om_sorted AdmissionKeyLess xs \<Longrightarrow> k \<notin> fst ` set xs \<Longrightarrow> AList.delete k (om_insert AdmissionKeyLess k v xs) = xs"
proof (induction xs)
  case (Cons x xs)
  obtain k' v' where x: "x = (k', v')" by (cases x)
  show ?case
    using Cons by (auto simp: x delete_absent)
qed simp

lemma fst_set_map_of: "k \<in> fst ` set xs \<longleftrightarrow> map_of xs k \<noteq> None"
  by (metis domIff dom_map_of_conv_image_fst)

text \<open>Adding a record and replacing one.\<close>

lemma inv_add_record:
  assumes "index_inv idx" and "map_of (records idx) key = None" and "length (records idx) < adm_capacity idx"
    and "record_ok (adm_exchangeRunId idx) key r"
    and "records idx' = om_insert AdmissionKeyLess key r (records idx)"
    and "adm_exchangeRunId idx' = adm_exchangeRunId idx" and "adm_capacity idx' = adm_capacity idx"
  shows "index_inv idx'" and "index_progress idx idx'" and "length (records idx') = Suc (length (records idx))"
    and "map_of (records idx') = (map_of (records idx))(key \<mapsto> r)"
proof -
  note sorted = index_invD(1) [OF assms(1)]
  have absent: "key \<notin> fst ` set (records idx)"
    using assms(2) by (simp add: fst_set_map_of)
  show len: "length (records idx') = Suc (length (records idx))"
    using adm.om_insert_length_absent [OF absent] assms(5) by simp
  show map: "map_of (records idx') = (map_of (records idx))(key \<mapsto> r)"
    using adm.map_of_om_insert [OF sorted] assms(5) by simp
  show "index_inv idx'"
    using assms(1,3-7) len adm.om_sorted_om_insert [OF sorted]
    by (auto simp: index_inv_def adm.set_om_insert)
  show "index_progress idx idx'"
    using assms(2,6,7) by (auto simp: index_progress_def map)
qed

lemma inv_replace_record:
  assumes "index_inv idx" and "map_of (records idx) key = Some r" and "record_progress r r'"
    and "record_ok (adm_exchangeRunId idx) key r'"
    and "records idx' = om_insert AdmissionKeyLess key r' (records idx)"
    and "adm_exchangeRunId idx' = adm_exchangeRunId idx" and "adm_capacity idx' = adm_capacity idx"
  shows "index_inv idx'" and "index_progress idx idx'" and "length (records idx') = length (records idx)"
    and "map_of (records idx') = (map_of (records idx))(key \<mapsto> r')"
proof -
  note sorted = index_invD(1) [OF assms(1)]
  have "map fst (records idx') = map fst (records idx)"
    unfolding assms(5) by (rule adm.om_insert_present [OF sorted]) (simp add: fst_set_map_of assms(2))
  then show len: "length (records idx') = length (records idx)"
    by (metis length_map)
  show map: "map_of (records idx') = (map_of (records idx))(key \<mapsto> r')"
    using adm.map_of_om_insert [OF sorted] assms(5) by simp
  show "index_inv idx'"
    using assms(1,4-7) len adm.om_sorted_om_insert [OF sorted]
    by (auto simp: index_inv_def adm.set_om_insert)
  show "index_progress idx idx'"
    using assms(2,3,6,7) by (auto simp: index_progress_def map)
qed

section \<open>Operations\<close>

definition command_key :: "sequenceMessage \<Rightarrow> key_view" where
  "command_key command = (clientId command, ClientCommandId_value (the (clientCommandId command)))"

lemma keyFrom_view: "keyFrom command = Inr key \<Longrightarrow> key_view key = command_key command"
  by (auto simp: keyFrom_def key_view_def command_key_def split: option.splits if_splits)

definition new_record :: "NormalizedBusinessCommand \<Rightarrow> Record" where
  "new_record bc = \<lparr>rec_command = bc, rec_state = RESERVED, rec_commandSequence = 0, rec_result = None\<rparr>"

text \<open>What a reservation does, by its outcome.\<close>

lemma reserveImpl_first:
  assumes inv: "index_inv idx" and "reserveImpl push idx command sq cap = Inr (d, idx', sq')"
    and "ad_status d = FIRST_SUBMISSION"
  shows "map_of (records idx) (command_key command) = None \<and> admissionOpen idx \<and> cap \<and>
    index_inv idx' \<and> index_progress idx idx' \<and> length (records idx') = Suc (length (records idx)) \<and>
    firstSubmissions (statistics idx') = Suc (firstSubmissions (statistics idx)) \<and>
    (\<exists>bc. businessCommandFrom command = Inr bc \<and>
      map_of (records idx') = (map_of (records idx))(command_key command \<mapsto> new_record bc)) \<and>
    (case sq of None \<Rightarrow> sq' = None
     | Some q \<Rightarrow> \<exists>q'. SharedQueue_push push q command = (True, q') \<and> sq' = Some q')"
proof -
  obtain key bc where kb: "keyFrom command = Inr key" "businessCommandFrom command = Inr bc"
    using assms(2) by (auto simp: reserveImpl_def result_iff)
  note kv = keyFrom_view [OF kb(1)]
  have none: "map_of (records idx) (command_key command) = None" and open': "admissionOpen idx" "cap"
    and room: "length (records idx) < adm_capacity idx"
    and recs: "records idx' = om_insert AdmissionKeyLess (command_key command) (new_record bc) (records idx)"
    and stats: "firstSubmissions (statistics idx') = Suc (firstSubmissions (statistics idx))"
    and same: "adm_exchangeRunId idx' = adm_exchangeRunId idx" "adm_capacity idx' = adm_capacity idx"
    and queue: "case sq of None \<Rightarrow> sq' = None
     | Some q \<Rightarrow> \<exists>q'. SharedQueue_push push q command = (True, q') \<and> sq' = Some q'"
    using assms(2,3)
    by (auto simp: reserveImpl_def kb kv Let_def unavailable_def new_record_def
        split: option.splits if_splits prod.splits bool.splits)
  have "record_ok (adm_exchangeRunId idx) (command_key command) (new_record bc)"
    by (simp add: record_ok_def new_record_def)
  note post = inv_add_record [OF inv none room this recs same]
  show ?thesis
    by (intro conjI exI [of _ bc] none open' post stats queue kb(2))
qed

lemma reserveImpl_other:
  assumes inv: "index_inv idx" and "reserveImpl push idx command sq cap = Inr (d, idx', sq')"
    and "ad_status d \<noteq> FIRST_SUBMISSION"
  shows "records idx' = records idx \<and> sq' = sq \<and> adm_exchangeRunId idx' = adm_exchangeRunId idx \<and>
    adm_capacity idx' = adm_capacity idx \<and> admissionOpen idx' = admissionOpen idx \<and>
    firstSubmissions (statistics idx') = firstSubmissions (statistics idx)"
proof -
  obtain key bc where kb: "keyFrom command = Inr key" "businessCommandFrom command = Inr bc"
    using assms(2) by (auto simp: reserveImpl_def result_iff)
  have undo: "AList.delete k (om_insert AdmissionKeyLess k v (records idx)) = records idx"
    if "map_of (records idx) k = None" for k v
    by (rule delete_om_insert [OF index_invD(1) [OF inv]]) (simp only: fst_set_map_of that simp_thms)
  show ?thesis
    using assms(2,3)
    by (auto simp: reserveImpl_def kb Let_def unavailable_def undo
        split: option.splits if_splits prod.splits bool.splits)
qed

lemma reserveImpl_existing:
  assumes "keyFrom command = Inr key" and "businessCommandFrom command = Inr bc"
    and "map_of (records idx) (command_key command) = Some r"
  shows "\<exists>idx'. reserveImpl push idx command sq cap =
    Inr (if rec_command r \<noteq> bc
         then \<lparr>ad_status = CONFLICTING_REUSE, rejectionReason = Some DUPLICATE_COMMAND_CONFLICT,
               originalResult = None\<rparr>
         else if rec_state r \<noteq> COMPLETED
         then \<lparr>ad_status = IDENTICAL_IN_FLIGHT, rejectionReason = None, originalResult = None\<rparr>
         else \<lparr>ad_status = IDENTICAL_COMPLETED, rejectionReason = None, originalResult = rec_result r\<rparr>,
         idx', sq) \<and> records idx' = records idx"
  using assms by (auto simp: reserveImpl_def keyFrom_view Let_def)

lemma reserveImpl_inv:
  assumes "index_inv idx" and "reserveImpl push idx command sq cap = Inr (d, idx', sq')"
  shows "index_inv idx' \<and> index_progress idx idx'"
proof (cases "ad_status d = FIRST_SUBMISSION")
  case True
  then show ?thesis
    using reserveImpl_first [OF assms] by blast
next
  case False
  then show ?thesis
    using reserveImpl_other [OF assms] assms(1) by (auto simp: index_inv_def index_progress_def)
qed

lemma markSequenced_inv:
  assumes inv: "index_inv idx" and ms: "markSequenced idx command = Inr (status, idx')"
  shows "index_inv idx' \<and> index_progress idx idx' \<and> length (records idx') = length (records idx) \<and>
    dom (map_of (records idx')) = dom (map_of (records idx)) \<and> statistics idx' = statistics idx"
proof (cases "status = MS_SEQUENCED")
  case False
  then have "idx' = idx"
    using ms by (auto simp: markSequenced_def result_iff split: if_splits option.splits)
  then show ?thesis
    using inv by simp
next
  case True
  obtain r where r: "map_of (records idx) (command_key command) = Some r" "rec_state r = RESERVED"
    and seq: "globalSequenceNumber command \<noteq> 0"
    and idx': "idx' = idx\<lparr>records := om_insert AdmissionKeyLess (command_key command)
      (r\<lparr>rec_state := SEQUENCED, rec_commandSequence := globalSequenceNumber command\<rparr>) (records idx)\<rparr>"
    using ms True
    by (auto simp: markSequenced_def result_iff keyFrom_view split: if_splits option.splits)
  let ?r' = "r\<lparr>rec_state := SEQUENCED, rec_commandSequence := globalSequenceNumber command\<rparr>"
  have "record_progress r ?r'" "record_ok (adm_exchangeRunId idx) (command_key command) ?r'"
    using index_invD(3) [OF inv r(1)] r(2) seq by (auto simp: record_ok_def record_progress_def)
  from inv_replace_record [OF inv r(1) this, of idx'] show ?thesis
    using r(1) by (auto simp: idx')
qed

lemma adm_complete_inv:
  assumes inv: "index_inv idx" and ac: "adm_complete idx res = (status, idx')"
  shows "index_inv idx' \<and> index_progress idx idx' \<and> length (records idx') = length (records idx) \<and>
    dom (map_of (records idx')) = dom (map_of (records idx)) \<and> statistics idx' = statistics idx \<and>
    (status = CS_COMPLETED \<longrightarrow>
      (\<exists>b r. res = Some b \<and>
        map_of (records idx) (key_view (keyFrom_correlation (correlation b))) = Some r \<and>
        map_of (records idx') (key_view (keyFrom_correlation (correlation b))) =
          Some (r\<lparr>rec_state := COMPLETED, rec_result := Some b\<rparr>)))"
proof (cases "status = CS_COMPLETED")
  case False
  then have "idx' = idx"
    using ac by (auto simp: adm_complete_def Let_def split: if_splits option.splits)
  then show ?thesis
    using inv False by simp
next
  case True
  obtain b r where res: "res = Some b"
    and r: "map_of (records idx) (key_view (keyFrom_correlation (correlation b))) = Some r"
      "rec_state r = SEQUENCED"
    and match: "rec_commandSequence r = co_commandSequence (correlation b)"
      "co_exchangeRunId (correlation b) = adm_exchangeRunId idx"
    and idx': "idx' = idx\<lparr>records := om_insert AdmissionKeyLess (key_view (keyFrom_correlation (correlation b)))
      (r\<lparr>rec_state := COMPLETED, rec_result := Some b\<rparr>) (records idx)\<rparr>"
    using ac True by (auto simp: adm_complete_def Let_def split: if_splits option.splits)
  let ?r' = "r\<lparr>rec_state := COMPLETED, rec_result := Some b\<rparr>"
  have "record_progress r ?r'"
    "record_ok (adm_exchangeRunId idx) (key_view (keyFrom_correlation (correlation b))) ?r'"
    using index_invD(3) [OF inv r(1)] r(2) match by (auto simp: record_ok_def record_progress_def)
  from inv_replace_record [OF inv r(1) this, of idx'] show ?thesis
    using r(1) res by (auto simp: idx')
qed

section \<open>Runs\<close>

text \<open>The calls of all clients of the index, in the order in which they take the mutex. A call that
  throws has no effect: the exceptions are raised before the mutex is taken. The log collects the
  commands that were admitted, with a flag for those that were staged, and the commands that the sequencer
  took from the staging queue.\<close>

datatype admission_call =
    ReserveCall sequenceMessage
  | StageCall sequenceMessage bool
  | PopStaged
  | SequenceCall sequenceMessage
  | CompleteCall "CommandResultBatch option"
  | OpenCall bool

record 'q admission_state =
  admitted :: "(sequenceMessage \<times> bool) list"
  taken_staged :: "sequenceMessage list"
  adm_index :: CommandAdmissionIndex
  staging :: 'q

fun admission_step ::
  "('q, sequenceMessage) queue_push \<Rightarrow> ('q, sequenceMessage) queue_pop \<Rightarrow> admission_call \<Rightarrow>
     'q admission_state \<Rightarrow> 'q admission_state" where
  "admission_step push pop (ReserveCall m) s =
     (case reserve (adm_index s) m of
        Inl _ \<Rightarrow> s
      | Inr (d, idx) \<Rightarrow> s\<lparr>adm_index := idx,
          admitted := admitted s @ (if ad_status d = FIRST_SUBMISSION then [(m, False)] else [])\<rparr>)"
| "admission_step push pop (StageCall m cap) s =
     (case reserveAndStageForRunCapacity push (adm_index s) m (staging s) cap of
        Inl _ \<Rightarrow> s
      | Inr (d, idx, q) \<Rightarrow> s\<lparr>adm_index := idx, staging := q,
          admitted := admitted s @ (if ad_status d = FIRST_SUBMISSION then [(m, True)] else [])\<rparr>)"
| "admission_step push pop PopStaged s =
     (case SharedQueue_pop pop (staging s) empty_sequenceMessage of
        (False, _, _) \<Rightarrow> s
      | (True, m, q) \<Rightarrow> s\<lparr>staging := q, taken_staged := taken_staged s @ [m]\<rparr>)"
| "admission_step push pop (SequenceCall m) s =
     (case markSequenced (adm_index s) m of Inl _ \<Rightarrow> s | Inr (_, idx) \<Rightarrow> s\<lparr>adm_index := idx\<rparr>)"
| "admission_step push pop (CompleteCall b) s = s\<lparr>adm_index := snd (adm_complete (adm_index s) b)\<rparr>"
| "admission_step push pop (OpenCall opened) s = s\<lparr>adm_index := setAdmissionOpen opened (adm_index s)\<rparr>"

definition admission_run ::
  "('q, sequenceMessage) queue_push \<Rightarrow> ('q, sequenceMessage) queue_pop \<Rightarrow> admission_call list \<Rightarrow>
     'q admission_state \<Rightarrow> 'q admission_state" where
  "admission_run push pop calls s = foldl (\<lambda>s call. admission_step push pop call s) s calls"

definition run_ok :: "('q \<Rightarrow> sequenceMessage list) \<Rightarrow> 'q admission_state \<Rightarrow> bool" where
  "run_ok items s \<longleftrightarrow>
     index_inv (adm_index s) \<and>
     distinct (map (command_key \<circ> fst) (admitted s)) \<and>
     set (map (command_key \<circ> fst) (admitted s)) = dom (map_of (records (adm_index s))) \<and>
     length (records (adm_index s)) = length (admitted s) \<and>
     firstSubmissions (statistics (adm_index s)) = length (admitted s) \<and>
     taken_staged s @ items (staging s) = map fst (filter snd (admitted s))"

lemma reserve_Inr:
  "reserve idx m = Inr (d, idx') \<longleftrightarrow>
     (\<exists>q. reserveImpl (\<lambda>q _. Some q) idx m (None :: unit option) True = Inr (d, idx', q))"
  by (auto simp: reserve_def result_iff split: prod.splits)

lemma stage_Inr:
  "reserveAndStageForRunCapacity push idx m q cap = Inr (d, idx', q') \<longleftrightarrow>
     (\<exists>sq'. reserveImpl push idx m (Some q) cap = Inr (d, idx', sq') \<and> q' = the sq')"
  by (auto simp: reserveAndStageForRunCapacity_def result_iff split: prod.splits)

lemma reserve_progress:
  "index_inv idx \<Longrightarrow> reserve idx m = Inr (d, idx') \<Longrightarrow> index_progress idx idx'"
  by (auto simp: reserve_Inr dest: reserveImpl_inv)

lemma stage_progress:
  "index_inv idx \<Longrightarrow> reserveAndStageForRunCapacity push idx m q cap = Inr (d, idx', q') \<Longrightarrow> index_progress idx idx'"
  by (auto simp: stage_Inr dest: reserveImpl_inv)

lemma run_ok_reserve:
  assumes ok: "run_ok items s" and "reserve (adm_index s) m = Inr (d, idx)"
  shows "run_ok items (s\<lparr>adm_index := idx,
      admitted := admitted s @ (if ad_status d = FIRST_SUBMISSION then [(m, False)] else [])\<rparr>)"
proof -
  have inv: "index_inv (adm_index s)"
    using ok by (simp add: run_ok_def)
  obtain q where impl: "reserveImpl (\<lambda>q _. Some q) (adm_index s) m (None :: unit option) True = Inr (d, idx, q)"
    using assms(2) by (auto simp: reserve_Inr)
  show ?thesis
    using ok reserveImpl_first [OF inv impl] reserveImpl_other [OF inv impl] reserveImpl_inv [OF inv impl]
    by (cases "ad_status d = FIRST_SUBMISSION") (auto simp: run_ok_def)
qed

lemma run_ok_stage:
  assumes ok: "run_ok items s" and lf: "lockfree_queue items push pop"
    and "reserveAndStageForRunCapacity push (adm_index s) m (staging s) cap = Inr (d, idx, q)"
  shows "run_ok items (s\<lparr>adm_index := idx, staging := q,
      admitted := admitted s @ (if ad_status d = FIRST_SUBMISSION then [(m, True)] else [])\<rparr>)"
proof -
  have inv: "index_inv (adm_index s)"
    using ok by (simp add: run_ok_def)
  obtain sq where impl: "reserveImpl push (adm_index s) m (Some (staging s)) cap = Inr (d, idx, sq)"
    and q: "q = the sq"
    using assms(3) by (auto simp: stage_Inr)
  have "items q = items (staging s) @ [m]" if "ad_status d = FIRST_SUBMISSION"
    using reserveImpl_first [OF inv impl that] lockfree_pushD [OF lf] by (auto simp: q)
  then show ?thesis
    using ok reserveImpl_first [OF inv impl] reserveImpl_other [OF inv impl] reserveImpl_inv [OF inv impl]
    by (cases "ad_status d = FIRST_SUBMISSION") (auto simp: run_ok_def q simp flip: append_assoc)
qed

lemma step_ok:
  assumes ok: "run_ok items s" and lf: "lockfree_queue items push pop"
  shows "run_ok items (admission_step push pop call s)"
    and "index_progress (adm_index s) (adm_index (admission_step push pop call s))"
proof -
  have inv: "index_inv (adm_index s)"
    using ok by (simp add: run_ok_def)
  have "run_ok items (admission_step push pop call s) \<and>
      index_progress (adm_index s) (adm_index (admission_step push pop call s))"
  proof (cases call)
    case (ReserveCall m)
    then show ?thesis
      using ok run_ok_reserve [OF ok, of m] reserve_progress [OF inv]
      by (auto split: sum.splits prod.splits)
  next
    case (StageCall m cap)
    then show ?thesis
      using ok run_ok_stage [OF ok lf, of m cap] stage_progress [OF inv, of push m "staging s" cap]
      by (auto split: sum.splits prod.splits)
  next
    case PopStaged
    then show ?thesis
      using ok lockfree_popD [OF lf, of "staging s" empty_sequenceMessage]
      by (auto simp: run_ok_def split: prod.splits bool.splits)
  next
    case (SequenceCall m)
    then show ?thesis
      using ok markSequenced_inv [OF inv, of m] by (auto simp: run_ok_def split: sum.splits prod.splits)
  next
    case (CompleteCall b)
    then show ?thesis
      using ok adm_complete_inv [OF inv, of b] by (cases "adm_complete (adm_index s) b") (auto simp: run_ok_def)
  next
    case (OpenCall opened)
    then show ?thesis
      using ok by (auto simp: run_ok_def setAdmissionOpen_def index_inv_def index_progress_def)
  qed
  then show "run_ok items (admission_step push pop call s)"
    "index_progress (adm_index s) (adm_index (admission_step push pop call s))" by auto
qed

lemma run_correct:
  assumes "run_ok items s" and "lockfree_queue items push pop"
  shows "run_ok items (admission_run push pop calls s) \<and>
    index_progress (adm_index s) (adm_index (admission_run push pop calls s))"
proof (induction calls rule: rev_induct)
  case Nil
  then show ?case using assms by (simp add: admission_run_def)
next
  case (snoc call calls)
  then show ?case
    using step_ok [OF _ assms(2), of "admission_run push pop calls s" call] index_progress_trans
    by (auto simp: admission_run_def)
qed

definition fresh_run :: "CommandAdmissionIndex \<Rightarrow> 'q \<Rightarrow> 'q admission_state" where
  "fresh_run idx q = \<lparr>admitted = [], taken_staged = [], adm_index = idx, staging = q\<rparr>"

lemma fresh_run_ok:
  assumes "make_CommandAdmissionIndex n = Inr idx \<or> make_run_bound_CommandAdmissionIndex n runId = Inr idx"
    and "items q = []"
  shows "run_ok items (fresh_run idx q)"
  using assms
  by (auto simp: run_ok_def fresh_run_def index_inv_def make_CommandAdmissionIndex_def no_statistics_def
      make_run_bound_CommandAdmissionIndex_def split: if_splits)

end
