(* ===== verification/Completion_Consumer.thy ===== *)
theory Completion_Consumer
  imports Admission_Runs Result_Queues
begin

text \<open>
  The consumer of command results, \<open>core/admission/src/admission_completion_consumer.cpp\<close>: it pops a
  batch, completes its admission record and hands the batch on. It stops for good at the first batch that
  the index does not accept. An exception leaves a changed object behind (\<open>failure_\<close> is set, the batch
  stays pending), so a call returns the outcome and the new state.
\<close>

record AdmissionCompletionConsumer =
  resultQueue :: BoundedCommandResultQueue
  admissionIndex :: CommandAdmissionIndex
  pendingBatch :: "CommandResultBatch option"
  consumer_failure :: "CompletionStatus option"

definition completionStatusName :: "CompletionStatus \<Rightarrow> string" where
  "completionStatusName status =
     (case status of
        CS_COMPLETED \<Rightarrow> ''Completed''
      | CS_INVALID_BATCH \<Rightarrow> ''InvalidBatch''
      | CS_UNKNOWN_RESERVATION \<Rightarrow> ''UnknownReservation''
      | CS_WRONG_STATE \<Rightarrow> ''WrongState''
      | CS_CORRELATION_MISMATCH \<Rightarrow> ''CorrelationMismatch'')"

definition make_AdmissionCompletionConsumer ::
  "BoundedCommandResultQueue \<Rightarrow> CommandAdmissionIndex \<Rightarrow> AdmissionCompletionConsumer" where
  "make_AdmissionCompletionConsumer q idx =
     \<lparr>resultQueue = q, admissionIndex = idx, pendingBatch = None, consumer_failure = None\<rparr>"

definition complete_pending ::
  "AdmissionCompletionConsumer \<Rightarrow> CommandResultBatch option \<Rightarrow>
     CommandResultBatch option result \<times> AdmissionCompletionConsumer" where
  "complete_pending c batch =
     (let (status, idx) = adm_complete (admissionIndex c) batch;
          c = c\<lparr>admissionIndex := idx\<rparr> in
      if status \<noteq> CS_COMPLETED
      then (Inl (logic_error (''admission completion invariant failure: '' @ completionStatusName status)),
            c\<lparr>pendingBatch := batch, consumer_failure := Some status\<rparr>)
      else (Inr batch, c\<lparr>pendingBatch := None\<rparr>))"

text \<open>The result \<open>Inr None\<close> is the return value \<open>false\<close>, \<open>Inr (Some batch)\<close> is \<open>true\<close> with the completed
  batch in the output parameter.\<close>

definition consumer_processNext ::
  "AdmissionCompletionConsumer \<Rightarrow> CommandResultBatch option result \<times> AdmissionCompletionConsumer" where
  "consumer_processNext c =
     (case consumer_failure c of
        Some status \<Rightarrow>
          (Inl (logic_error (''admission completion consumer is fail-stopped after '' @ completionStatusName status)), c)
      | None \<Rightarrow>
          (case pendingBatch c of
             Some batch \<Rightarrow> complete_pending c (Some batch)
           | None \<Rightarrow>
               (case crq_tryPop (resultQueue c) of
                  None \<Rightarrow> (Inr None, c)
                | Some (batch, q) \<Rightarrow> complete_pending (c\<lparr>resultQueue := q\<rparr>) (Some batch))))"

definition hasPendingBatch :: "AdmissionCompletionConsumer \<Rightarrow> bool" where
  "hasPendingBatch c \<longleftrightarrow> pendingBatch c \<noteq> None"

definition consumer_failed :: "AdmissionCompletionConsumer \<Rightarrow> bool" where
  "consumer_failed c \<longleftrightarrow> consumer_failure c \<noteq> None"

section \<open>Runs of the consumer\<close>

text \<open>The outcomes of \<open>n\<close> successive calls.\<close>

fun consumer_run ::
  "nat \<Rightarrow> AdmissionCompletionConsumer \<Rightarrow> CommandResultBatch option result list \<times> AdmissionCompletionConsumer" where
  "consumer_run 0 c = ([], c)"
| "consumer_run (Suc n) c =
     (let (out, c1) = consumer_processNext c; (outs, c2) = consumer_run n c1 in (out # outs, c2))"

fun delivered_of :: "CommandResultBatch option result list \<Rightarrow> CommandResultBatch list" where
  "delivered_of [] = []"
| "delivered_of (Inr (Some b) # outs) = b # delivered_of outs"
| "delivered_of (_ # outs) = delivered_of outs"

definition waiting :: "AdmissionCompletionConsumer \<Rightarrow> CommandResultBatch list" where
  "waiting c = (case pendingBatch c of None \<Rightarrow> [] | Some b \<Rightarrow> [b]) @ crq_batches (resultQueue c)"

definition is_completed :: "CommandAdmissionIndex \<Rightarrow> CommandResultBatch \<Rightarrow> bool" where
  "is_completed idx b \<longleftrightarrow>
     (\<exists>r. map_of (records idx) (key_view (keyFrom_correlation (correlation b))) = Some r \<and>
        rec_state r = COMPLETED \<and> rec_result r = Some b)"

lemma completed_stays:
  "index_progress idx idx' \<Longrightarrow> map_of (records idx) key = Some r \<Longrightarrow> rec_state r = COMPLETED \<Longrightarrow>
     map_of (records idx') key = Some r"
  by (cases key) (fastforce simp: index_progress_def record_progress_def)

lemma is_completed_progress: "index_progress idx idx' \<Longrightarrow> is_completed idx b \<Longrightarrow> is_completed idx' b"
  unfolding is_completed_def using completed_stays by blast

lemma processNext_cases:
  assumes "consumer_failure c = None"
  shows "case waiting c of
      [] \<Rightarrow> consumer_processNext c = (Inr None, c)
    | b # rest \<Rightarrow>
        \<exists>c1. waiting c1 = b # rest \<and> admissionIndex c1 = admissionIndex c \<and> consumer_failure c1 = None \<and>
          crq_batches (resultQueue c1) = rest \<and> consumer_processNext c = complete_pending c1 (Some b)"
proof (cases "pendingBatch c")
  case None
  then show ?thesis
    using assms
    by (cases "crq_batches (resultQueue c)")
      (auto simp: waiting_def consumer_processNext_def crq_tryPop_def complete_pending_def Let_def
        intro!: exI [of _ "c\<lparr>resultQueue := (resultQueue c)\<lparr>crq_batches := tl (crq_batches (resultQueue c))\<rparr>,
          pendingBatch := Some (hd (crq_batches (resultQueue c)))\<rparr>"] split: prod.splits)
next
  case (Some b)
  then show ?thesis
    using assms by (auto simp: waiting_def consumer_processNext_def intro!: exI [of _ c])
qed

text \<open>Nothing is dropped: what was handed on and what still waits are what waited before; what was
  handed on is completed in the index; a failed consumer still holds the offending batch and throws
  forever.\<close>

lemma processNext_correct:
  assumes "index_inv (admissionIndex c)" and "consumer_processNext c = (out, c')"
  shows "index_inv (admissionIndex c') \<and> index_progress (admissionIndex c) (admissionIndex c') \<and>
    waiting c = delivered_of [out] @ waiting c' \<and>
    list_all (is_completed (admissionIndex c')) (delivered_of [out]) \<and>
    (consumer_failed c' \<longleftrightarrow> (\<exists>e. out = Inl e)) \<and> (consumer_failed c \<longrightarrow> c' = c)"
proof (cases "consumer_failure c")
  case (Some s)
  then show ?thesis
    using assms by (auto simp: consumer_processNext_def consumer_failed_def)
next
  case None
  show ?thesis
  proof (cases "waiting c")
    case Nil
    then show ?thesis
      using processNext_cases [OF None] assms None by (auto simp: consumer_failed_def)
  next
    case (Cons b rest)
    obtain c1 where c1: "waiting c1 = b # rest" "admissionIndex c1 = admissionIndex c" "consumer_failure c1 = None"
      "crq_batches (resultQueue c1) = rest" "consumer_processNext c = complete_pending c1 (Some b)"
      using processNext_cases [OF None] Cons by auto
    obtain status idx where ac: "adm_complete (admissionIndex c) (Some b) = (status, idx)"
      by (cases "adm_complete (admissionIndex c) (Some b)")
    have post: "index_inv idx \<and> index_progress (admissionIndex c) idx \<and> (status = CS_COMPLETED \<longrightarrow> is_completed idx b)"
      using adm_complete_inv [OF assms(1) ac] by (auto simp: is_completed_def)
    have "(out, c') = (if status \<noteq> CS_COMPLETED
        then (Inl (logic_error (''admission completion invariant failure: '' @ completionStatusName status)),
              c1\<lparr>admissionIndex := idx, pendingBatch := Some b, consumer_failure := Some status\<rparr>)
        else (Inr (Some b), c1\<lparr>admissionIndex := idx, pendingBatch := None\<rparr>))"
      using assms(2) c1(2,5) ac by (simp add: complete_pending_def Let_def)
    then show ?thesis
      using post c1(3,4) Cons None
      by (cases "status = CS_COMPLETED") (auto simp: waiting_def consumer_failed_def)
  qed
qed

lemma consumer_run_correct:
  assumes "index_inv (admissionIndex c)" and "consumer_run n c = (outs, c')"
  shows "index_inv (admissionIndex c') \<and> index_progress (admissionIndex c) (admissionIndex c') \<and>
    waiting c = delivered_of outs @ waiting c' \<and>
    list_all (is_completed (admissionIndex c')) (delivered_of outs) \<and>
    (consumer_failed c' \<longleftrightarrow> consumer_failed c \<or> (\<exists>e. Inl e \<in> set outs))"
  using assms
proof (induction n arbitrary: c outs)
  case (Suc n)
  obtain out c1 where step: "consumer_processNext c = (out, c1)"
    by (cases "consumer_processNext c")
  obtain outs1 where run: "consumer_run n c1 = (outs1, c')" and outs: "outs = out # outs1"
    using Suc.prems(2) by (auto simp: step split: prod.splits)
  note one = processNext_correct [OF Suc.prems(1) step]
  note rest = Suc.IH [OF conjunct1 [OF one] run]
  have split: "delivered_of (out # outs1) = delivered_of [out] @ delivered_of outs1"
    by (cases out; cases "projr out") (auto split: sum.splits)
  have "list_all (is_completed (admissionIndex c')) (delivered_of [out])"
    using one rest is_completed_progress by (auto simp: list_all_iff)
  moreover have "consumer_failed c' \<longleftrightarrow> consumer_failed c \<or> (\<exists>e. Inl e \<in> set (out # outs1))"
    using one rest by auto
  ultimately show ?case
    unfolding outs split using one rest index_progress_trans by auto
qed auto

end
