(* ===== verification/Admission_Properties.thy ===== *)
theory Admission_Properties
  imports Completion_Consumer Matching_Examples
begin

text \<open>
  The properties of command admission: idempotent submission, the life of a record, and the completion
  of admitted commands with the results of the matching engine.
\<close>

section \<open>A concrete admission run\<close>

definition demo_index :: CommandAdmissionIndex where
  "demo_index = \<lparr>adm_capacity = 4, adm_exchangeRunId = 7, admissionOpen = False, records = [],
     statistics = no_statistics\<rparr>"

definition demo_admission :: "admission_call list" where
  "demo_admission =
     [StageCall demo_sell1 True, OpenCall True, StageCall demo_sell1 True, StageCall demo_sell1 True,
      PopStaged, StageCall demo_sell2 True, SequenceCall demo_sell1]"

lemma demo_index_make: "make_run_bound_CommandAdmissionIndex 4 7 = Inr demo_index"
  by (simp add: make_run_bound_CommandAdmissionIndex_def demo_index_def)

section \<open>Properties\<close>

text \<open>C13. Every command is admitted at most once: under any calls by gateways, sequencer and consumers,
  the admitted commands have pairwise different keys (client and client command identifier), they are
  exactly the commands with a record, as many as counted as first submissions and never more than the
  capacity, and the staging queue received each staged one exactly once, in the order of admission.\<close>

theorem admission_at_most_once:
  fixes q :: 'q
  assumes "lockfree_queue items push pop" and "items q = []"
    and "make_CommandAdmissionIndex n = Inr idx \<or> make_run_bound_CommandAdmissionIndex n runId = Inr idx"
    and "s = admission_run push pop calls (fresh_run idx q)"
  shows "distinct (map (command_key \<circ> fst) (admitted s)) \<and>
    set (map (command_key \<circ> fst) (admitted s)) = dom (map_of (records (adm_index s))) \<and>
    firstSubmissions (statistics (adm_index s)) = length (admitted s) \<and>
    length (admitted s) = adm_size (adm_index s) \<and> length (admitted s) \<le> n \<and>
    taken_staged s @ items (staging s) = map fst (filter snd (admitted s))"
proof -
  have start: "run_ok items (fresh_run idx q)"
    by (rule fresh_run_ok [where items = items, OF assms(3,2)])
  have ok: "run_ok items s" and prog: "index_progress idx (adm_index s)"
    using run_correct [OF start assms(1), of calls] by (auto simp: assms(4) fresh_run_def)
  have "adm_capacity idx = n"
    using assms(3)
    by (auto simp: make_CommandAdmissionIndex_def make_run_bound_CommandAdmissionIndex_def split: if_splits)
  then have "length (records (adm_index s)) \<le> n"
    using ok prog by (auto simp: run_ok_def index_inv_def index_progress_def)
  then show ?thesis
    using ok by (auto simp: run_ok_def adm_size_def)
qed

lemma demo_admitted:
  "admitted (admission_run (list_push 8) list_pop demo_admission (fresh_run demo_index [])) =
     [(demo_sell1, True), (demo_sell2, True)]"
  by code_simp

theorem admission_at_most_once_witness:
  "firstSubmissions (statistics (adm_index
     (admission_run (list_push 8) list_pop demo_admission (fresh_run demo_index [])))) = 2"
  using admission_at_most_once [OF list_lockfree _ disjI2 [OF demo_index_make] refl, of "[]" 8 demo_admission]
  by (simp add: demo_admitted)

text \<open>C14. The life of an admission record: whatever calls follow, a record never disappears, its command
  never changes, its sequence number is fixed once it is assigned, and a completed record keeps its
  result; every completed record holds a batch whose correlation names exactly that command, sequence
  number and run.\<close>

theorem admission_record_lifecycle:
  fixes q :: 'q
  assumes "lockfree_queue items push pop" and "items q = []"
    and "make_run_bound_CommandAdmissionIndex n runId = Inr idx"
    and "s = admission_run push pop calls (fresh_run idx q)"
    and "map_of (records (adm_index s)) key = Some r"
  shows "record_ok runId key r \<and>
    (\<exists>r'. map_of (records (adm_index (admission_run push pop later s))) key = Some r' \<and>
      record_progress r r' \<and> record_ok runId key r')"
proof -
  have start: "run_ok items (fresh_run idx q)"
    by (rule fresh_run_ok [where items = items, OF disjI2 [OF assms(3)] assms(2)])
  have ok: "run_ok items s" and prog: "index_progress idx (adm_index s)"
    using run_correct [OF start assms(1), of calls] by (auto simp: assms(4) fresh_run_def)
  have run: "adm_exchangeRunId (adm_index s) = runId"
    using prog assms(3) by (auto simp: index_progress_def make_run_bound_CommandAdmissionIndex_def split: if_splits)
  let ?s' = "admission_run push pop later s"
  have ok': "run_ok items ?s'" and prog': "index_progress (adm_index s) (adm_index ?s')"
    using run_correct [OF ok assms(1), of later] by auto
  obtain r' where r': "map_of (records (adm_index ?s')) key = Some r'" "record_progress r r'"
    using prog' assms(5) unfolding index_progress_def by blast
  have "adm_exchangeRunId (adm_index ?s') = runId"
    using prog' run by (simp add: index_progress_def)
  then show ?thesis
    using index_invD(3) [of "adm_index s" key r] index_invD(3) [of "adm_index ?s'" key r'] ok ok' assms(5) r' run
    by (auto simp: run_ok_def)
qed

lemma demo_record:
  "map_of (records (adm_index (admission_run (list_push 8) list_pop demo_admission (fresh_run demo_index []))))
     (command_key demo_sell1) =
   Some \<lparr>rec_command = NewOrderCommand \<lparr>no_instrumentId = 1, no_configurationVersion = 1, no_side = Side_SELL,
           no_price = 100, no_quantity = 5, no_timeInForce = GTC\<rparr>,
         rec_state = SEQUENCED, rec_commandSequence = 1, rec_result = None\<rparr>"
  by code_simp

theorem admission_record_lifecycle_witness:
  "\<exists>r'. map_of (records (adm_index (admission_run (list_push 8) list_pop [OpenCall False, StageCall demo_buy True]
      (admission_run (list_push 8) list_pop demo_admission (fresh_run demo_index [])))))
      (command_key demo_sell1) = Some r' \<and> rec_commandSequence r' = 1"
  using admission_record_lifecycle [OF list_lockfree _ demo_index_make refl demo_record,
      of "[OpenCall False, StageCall demo_buy True]"]
  by (auto simp: record_progress_def)

text \<open>C15. Resubmission is idempotent: after a command was completed with a batch, and whatever happened
  since, submitting the same command again returns that very batch, submitting a different command under the same
  key is a conflict, and neither stages anything or changes a record, even while admission is closed
  or at capacity.\<close>

theorem resubmission_returns_original:
  fixes q :: 'q
  assumes "lockfree_queue items push pop" and "items q = []"
    and "make_run_bound_CommandAdmissionIndex n runId = Inr idx"
    and "s = admission_run push pop calls (fresh_run idx q)"
    and "adm_complete (adm_index s) (Some batch) = (CS_COMPLETED, idx1)"
    and "s2 = admission_run push pop later (s\<lparr>adm_index := idx1\<rparr>)"
    and "keyFrom command = Inr key" and "businessCommandFrom command = Inr bc"
    and "key_view key = key_view (keyFrom_correlation (correlation batch))"
  shows "\<exists>r idx3. map_of (records (adm_index s)) (key_view key) = Some r \<and>
    reserveAndStageForRunCapacity push (adm_index s2) command (staging s2) cap =
      Inr (if rec_command r = bc
           then \<lparr>ad_status = IDENTICAL_COMPLETED, rejectionReason = None, originalResult = Some batch\<rparr>
           else \<lparr>ad_status = CONFLICTING_REUSE, rejectionReason = Some DUPLICATE_COMMAND_CONFLICT,
                 originalResult = None\<rparr>, idx3, staging s2) \<and>
    records idx3 = records (adm_index s2)"
proof -
  have start: "run_ok items (fresh_run idx q)"
    by (rule fresh_run_ok [where items = items, OF disjI2 [OF assms(3)] assms(2)])
  have ok: "run_ok items s"
    using run_correct [OF start assms(1), of calls] by (simp add: assms(4))
  then have inv: "index_inv (adm_index s)"
    by (simp add: run_ok_def)
  from adm_complete_inv [OF inv assms(5)] obtain r where
    r: "map_of (records (adm_index s)) (key_view key) = Some r"
      "map_of (records idx1) (key_view key) = Some (r\<lparr>rec_state := COMPLETED, rec_result := Some batch\<rparr>)"
    by (auto simp: assms(9))
  have "run_ok items (s\<lparr>adm_index := idx1\<rparr>)"
    using ok adm_complete_inv [OF inv assms(5)] by (auto simp: run_ok_def)
  then have "index_progress idx1 (adm_index s2)"
    using run_correct [OF _ assms(1), of "s\<lparr>adm_index := idx1\<rparr>" later] by (simp add: assms(6))
  then have "map_of (records (adm_index s2)) (command_key command) =
      Some (r\<lparr>rec_state := COMPLETED, rec_result := Some batch\<rparr>)"
    using completed_stays [OF _ r(2)] keyFrom_view [OF assms(7)] by simp
  from reserveImpl_existing [OF assms(7,8) this, of push "Some (staging s2)" cap] r(1) show ?thesis
    by (auto simp: reserveAndStageForRunCapacity_def split: if_splits)
qed

definition demo_result :: CommandResultBatch where
  "demo_result = demo_batch demo_sell1 APPLIED [demo_rested demo_sell1 0 Side_SELL 5]"

theorem resubmission_returns_original_witness:
  "let s = admission_run (list_push 8) list_pop demo_admission (fresh_run demo_index []);
       idx1 = snd (adm_complete (adm_index s) (Some demo_result));
       s2 = admission_run (list_push 8) list_pop [OpenCall False] (s\<lparr>adm_index := idx1\<rparr>) in
   \<exists>idx3. reserveAndStageForRunCapacity (list_push 8) (adm_index s2) demo_sell1 (staging s2) True =
     Inr (\<lparr>ad_status = IDENTICAL_COMPLETED, rejectionReason = None, originalResult = Some demo_result\<rparr>,
          idx3, staging s2)"
proof -
  define s where "s = admission_run (list_push 8) list_pop demo_admission (fresh_run demo_index [])"
  define idx1 where "idx1 = snd (adm_complete (adm_index s) (Some demo_result))"
  have complete: "adm_complete (adm_index s) (Some demo_result) = (CS_COMPLETED, idx1)"
    unfolding idx1_def s_def by (rule prod_eqI; code_simp)
  have key: "keyFrom demo_sell1 = Inr \<lparr>ak_clientId = 11, ak_clientCommandId = demo_id\<rparr>"
    by (simp add: keyFrom_def demo_sell1_def demo_order_def)
  have bc: "businessCommandFrom demo_sell1 = Inr (NewOrderCommand \<lparr>no_instrumentId = 1,
      no_configurationVersion = 1, no_side = Side_SELL, no_price = 100, no_quantity = 5, no_timeInForce = GTC\<rparr>)"
    by code_simp
  have view: "key_view \<lparr>ak_clientId = 11, ak_clientCommandId = demo_id\<rparr> =
      key_view (keyFrom_correlation (correlation demo_result))"
    by (simp add: key_view_def keyFrom_correlation_def demo_result_def demo_batch_def demo_sell1_def demo_order_def)
  have "command_key demo_sell1 = key_view \<lparr>ak_clientId = 11, ak_clientCommandId = demo_id\<rparr>"
    using keyFrom_view [OF key] by simp
  then show ?thesis
    using resubmission_returns_original [OF list_lockfree _ demo_index_make s_def complete refl key bc view,
        of "[OpenCall False]" True] demo_record
    by (auto simp: Let_def simp flip: s_def idx1_def)
qed

text \<open>The completion consumer hands on the results in queue order, each completed in the index before
  it is handed on; it throws only at a batch that the index refuses, keeps that batch, and from then on only
  throws; nothing is dropped or handed on twice.\<close>

theorem consumer_completes_in_order:
  assumes "index_inv idx" and "consumer_run k (make_AdmissionCompletionConsumer q idx) = (outs, c)"
  shows "crq_batches q = delivered_of outs @ waiting c \<and>
    list_all (is_completed (admissionIndex c)) (delivered_of outs) \<and>
    (consumer_failed c \<longleftrightarrow> (\<exists>e. Inl e \<in> set outs)) \<and>
    (consumer_failed c \<longrightarrow> (\<exists>e. consumer_processNext c = (Inl e, c)))"
proof -
  have "waiting (make_AdmissionCompletionConsumer q idx) = crq_batches q"
    by (simp add: waiting_def make_AdmissionCompletionConsumer_def)
  moreover have "consumer_failed c \<longrightarrow> (\<exists>e. consumer_processNext c = (Inl e, c))"
    by (auto simp: consumer_failed_def consumer_processNext_def)
  ultimately show ?thesis
    using consumer_run_correct [OF _ assms(2)] assms(1)
    by (simp add: make_AdmissionCompletionConsumer_def) (simp add: consumer_failed_def)
qed

theorem consumer_completes_in_order_witness:
  "\<exists>outs c. consumer_run 2 (make_AdmissionCompletionConsumer \<lparr>crq_capacity = 2, crq_batches = [demo_result]\<rparr> demo_index) =
     (outs, c) \<and> [demo_result] = delivered_of outs @ waiting c \<and> consumer_failed c"
proof -
  obtain outs c where run: "consumer_run 2 (make_AdmissionCompletionConsumer
      \<lparr>crq_capacity = 2, crq_batches = [demo_result]\<rparr> demo_index) = (outs, c)"
    by fastforce
  have "consumer_failed (snd (consumer_run 2 (make_AdmissionCompletionConsumer
      \<lparr>crq_capacity = 2, crq_batches = [demo_result]\<rparr> demo_index)))"
    by code_simp
  moreover have "index_inv demo_index"
    by (simp add: index_inv_def demo_index_def)
  ultimately show ?thesis
    using consumer_completes_in_order [OF _ run] run by simp
qed

text \<open>C16. A sequenced command completes: when the record of a command carries its sequence number, the batch that
  the matching engine produces for the command is accepted by the consumer, and afterwards the client
  finds it under its command.\<close>

theorem sequenced_command_completes:
  assumes "reachable runId k st" and "normalized_command message"
    and "globalSequenceNumber message = of_nat (Suc k)" and "Suc k < 2 ^ 64"
    and "processCommand st message = Inr (st', batch)"
    and "index_inv idx" and "adm_exchangeRunId idx = runId"
    and "map_of (records idx) (command_key message) = Some r" and "rec_state r = SEQUENCED"
    and "rec_commandSequence r = globalSequenceNumber message"
    and "businessCommandFrom message = Inr (rec_command r)"
    and "valid_ClientCommandId (the (clientCommandId message))"
  shows "\<exists>c. consumer_processNext (make_AdmissionCompletionConsumer
      \<lparr>crq_capacity = n, crq_batches = batch # rest\<rparr> idx) = (Inr (Some batch), c) \<and>
    crq_batches (resultQueue c) = rest \<and> completedResult (admissionIndex c) message = Inr (Some batch)"
proof -
  have batch: "batch = spec_batch runId message (abs_book st)"
    using processCommand_refines [OF reachable_run_inv [OF assms(1)] assms(2-4)] assms(5) by auto
  obtain ccid where ccid: "clientCommandId message = Some ccid" "ClientCommandId_value ccid \<noteq> []" "clientId message \<noteq> 0"
    "globalSequenceNumber message \<noteq> 0"
    using assms(2,12)
    by (auto simp: normalized_command_def valid_ClientCommandId_def make_ClientCommandId_def split: if_splits)
  let ?key = "command_key message"
  have correl: "correlation batch = command_correlation runId message"
    and kv: "key_view (keyFrom_correlation (correlation batch)) = ?key"
    using ccid by (auto simp: batch spec_batch_def command_correlation_def keyFrom_correlation_def key_view_def
        command_key_def)
  let ?r = "r\<lparr>rec_state := COMPLETED, rec_result := Some batch\<rparr>"
  define idx1 where "idx1 = idx\<lparr>records := om_insert AdmissionKeyLess ?key ?r (records idx)\<rparr>"
  have ac: "adm_complete idx (Some batch) = (CS_COMPLETED, idx1)"
    using assms(7-10) ccid kv
    by (simp add: adm_complete_def correl Let_def command_correlation_def idx1_def)
  have "map_of (records idx1) ?key = Some ?r"
    using adm.map_of_om_insert [OF index_invD(1) [OF assms(6)]] by (simp add: idx1_def)
  moreover have "keyFrom message = Inr \<lparr>ak_clientId = clientId message, ak_clientCommandId = ccid\<rparr>"
    using ccid by (simp add: keyFrom_def)
  ultimately have "completedResult idx1 message = Inr (Some batch)"
    using assms(11) keyFrom_view by (simp add: completedResult_def)
  then show ?thesis
    using ac by (simp add: consumer_processNext_def make_AdmissionCompletionConsumer_def crq_tryPop_def
        complete_pending_def Let_def)
qed

theorem sequenced_command_completes_witness:
  "\<exists>c. consumer_processNext (make_AdmissionCompletionConsumer
      \<lparr>crq_capacity = 1, crq_batches = [demo_result]\<rparr>
      (adm_index (admission_run (list_push 8) list_pop demo_admission (fresh_run demo_index [])))) =
      (Inr (Some demo_result), c) \<and> completedResult (admissionIndex c) demo_sell1 = Inr (Some demo_result)"
proof -
  let ?idx = "adm_index (admission_run (list_push 8) list_pop demo_admission (fresh_run demo_index []))"
  have start: "run_ok id (fresh_run demo_index [])"
    using fresh_run_ok [OF disjI2 [OF demo_index_make], of id "[]"] by simp
  have "index_inv ?idx" and "index_progress demo_index ?idx"
    using run_correct [OF start list_lockfree, of 8 demo_admission] by (auto simp: run_ok_def fresh_run_def)
  moreover have "businessCommandFrom demo_sell1 = Inr (NewOrderCommand \<lparr>no_instrumentId = 1,
      no_configurationVersion = 1, no_side = Side_SELL, no_price = 100, no_quantity = 5, no_timeInForce = GTC\<rparr>)"
    by code_simp
  moreover have valid: "valid_ClientCommandId (the (clientCommandId demo_sell1))"
    by code_simp
  ultimately show ?thesis
    using sequenced_command_completes [OF reachable.start demo_normalized(1) demo_sequence(1) _
        demo_step1 [folded demo_result_def] _ _ demo_record, of 1 "[]"] demo_sequence(1) valid
    by (auto simp: index_progress_def demo_index_def)
qed

end
