(* ===== verification/Journal_Reader.thy ===== *)
theory Journal_Reader
  imports Command_Codec Run_Header_Codec
begin

text \<open>
  Loading a run journal, \<open>core/storage/src/run_journal_reader.cpp\<close>. The file is accessed only through the
  read hook, which stands for \<open>read(2)\<close> and is a parameter: a reply is the bytes that were stored or the
  error number. \<open>readSome\<close> retries while a call is interrupted, which may go on forever, so it takes fuel
  and \<open>None\<close> means that the fuel was too small. The loop over the frames ends because the header limits
  the number of commands. Allocation always succeeds, so the \<open>ENOMEM\<close> branches do not occur.
\<close>

section \<open>Data\<close>

datatype JournalCommandV1 = JournalNewOrder JournalNewOrderV1 | JournalCancel JournalCancelV1

record LoadedRunJournalV1 =
  lj_header :: RunHeaderV1
  lj_commands :: "JournalCommandV1 list"
  validCommittedByteCount :: u64

datatype RunJournalLoadOutcome = LO_VALID | LO_MISSING | LO_IO_FAILURE | LO_CORRUPTION | LO_INCOMPLETE_TAIL

datatype RunJournalLoadError =
    LE_NONE | LE_FILE_BYTE_CAPACITY_EXCEEDED | LE_COMMAND_COUNT_CAPACITY_EXCEEDED
  | LE_EXCHANGE_RUN_ID_MISMATCH | LE_INSTRUMENT_CONFIGURATION_MISMATCH | LE_COMMAND_SEQUENCE_MISMATCH

record RunJournalLoadResult =
  lr_outcome :: RunJournalLoadOutcome
  lr_error :: RunJournalLoadError
  lr_headerCodecError :: RunHeaderCodecError
  lr_commandCodecError :: JournalCommandCodecError
  lr_systemError :: int
  lr_tailOffset :: u64
  lr_tailLength :: u64

datatype read_reply = Bytes "u8 list" | Read_failed int

type_synonym 'f read_hook = "'f \<Rightarrow> nat \<Rightarrow> read_reply \<times> 'f"

record ReadResult =
  rr_bytes :: "u8 list"
  rr_systemError :: int

definition EINTR :: int where "EINTR = 4"
definition EIO :: int where "EIO = 5"
definition ENOENT :: int where "ENOENT = 2"

section \<open>Results\<close>

definition loadResult ::
  "RunJournalLoadOutcome \<Rightarrow> RunJournalLoadError \<Rightarrow> RunHeaderCodecError \<Rightarrow> JournalCommandCodecError \<Rightarrow> int \<Rightarrow>
     u64 \<Rightarrow> u64 \<Rightarrow> RunJournalLoadResult" where
  "loadResult oc err headerError commandError sysError tailOffset tailLength =
     \<lparr>lr_outcome = oc, lr_error = err, lr_headerCodecError = headerError,
      lr_commandCodecError = commandError, lr_systemError = sysError, lr_tailOffset = tailOffset,
      lr_tailLength = tailLength\<rparr>"

definition ioFailure :: "int \<Rightarrow> RunHeaderCodecError \<Rightarrow> RunJournalLoadResult" where
  "ioFailure sysError headerError = loadResult LO_IO_FAILURE LE_NONE headerError NONE sysError 0 0"

definition headerCorruption :: "RunHeaderCodecError \<Rightarrow> RunJournalLoadResult" where
  "headerCorruption codecError = loadResult LO_CORRUPTION LE_NONE codecError NONE 0 0 0"

definition commandCorruption :: "JournalCommandCodecError \<Rightarrow> RunJournalLoadResult" where
  "commandCorruption codecError = loadResult LO_CORRUPTION LE_NONE RH_NONE codecError 0 0 0"

definition corruption :: "RunJournalLoadError \<Rightarrow> RunJournalLoadResult" where
  "corruption err = loadResult LO_CORRUPTION err RH_NONE NONE 0 0 0"

definition incompleteTail :: "u64 \<Rightarrow> nat \<Rightarrow> RunJournalLoadResult" where
  "incompleteTail offset n = loadResult LO_INCOMPLETE_TAIL LE_NONE RH_NONE NONE 0 offset (of_nat n)"

section \<open>Reading\<close>

fun readSome :: "'f read_hook \<Rightarrow> nat \<Rightarrow> 'f \<Rightarrow> nat \<Rightarrow> (ReadResult \<times> 'f) option" where
  "readSome readFile 0 f n = None"
| "readSome readFile (Suc fuel) f n =
     (case readFile f n of
        (Bytes bs, f) \<Rightarrow>
          if bs \<noteq> [] \<and> length bs \<le> n then Some (\<lparr>rr_bytes = bs, rr_systemError = 0\<rparr>, f)
          else if bs = [] then Some (\<lparr>rr_bytes = [], rr_systemError = 0\<rparr>, f)
          else Some (\<lparr>rr_bytes = [], rr_systemError = EIO\<rparr>, f)
      | (Read_failed e, f) \<Rightarrow>
          if e = EINTR then readSome readFile fuel f n
          else Some (\<lparr>rr_bytes = [], rr_systemError = e\<rparr>, f))"

text \<open>\<open>readExact\<close> fills a span of \<open>n\<close> bytes; \<open>done\<close> holds the bytes read so far.\<close>

function readExact_from :: "'f read_hook \<Rightarrow> nat \<Rightarrow> 'f \<Rightarrow> u8 list \<Rightarrow> nat \<Rightarrow> (ReadResult \<times> 'f) option" where
  "readExact_from readFile fuel f got n =
     (if length got < n then
        (case readSome readFile fuel f (n - length got) of
           None \<Rightarrow> None
         | Some (r, f) \<Rightarrow>
             if rr_systemError r \<noteq> 0 then Some (\<lparr>rr_bytes = got, rr_systemError = rr_systemError r\<rparr>, f)
             else if rr_bytes r = [] then Some (\<lparr>rr_bytes = got, rr_systemError = 0\<rparr>, f)
             else readExact_from readFile fuel f (got @ rr_bytes r) n)
      else Some (\<lparr>rr_bytes = got, rr_systemError = 0\<rparr>, f))"
  by pat_completeness auto
termination
  by (relation "measure (\<lambda>(_, _, _, got, n). n - length got)") (auto simp: neq_Nil_conv)

declare readExact_from.simps [simp del]

definition readExact :: "'f read_hook \<Rightarrow> nat \<Rightarrow> 'f \<Rightarrow> nat \<Rightarrow> (ReadResult \<times> 'f) option" where
  "readExact readFile fuel f n = readExact_from readFile fuel f [] n"

section \<open>Context checks\<close>

definition exceedsCapacity :: "u64 \<Rightarrow> nat \<Rightarrow> u64 \<Rightarrow> bool" where
  "exceedsCapacity currentBytes additionalBytes maximumBytes \<longleftrightarrow>
     currentBytes > maximumBytes \<or> additionalBytes > unat (maximumBytes - currentBytes)"

text \<open>\<open>std::lower_bound\<close> over the instruments, which every valid header lists in increasing order.\<close>

definition lower_bound :: "RunHeaderInstrumentV1 list \<Rightarrow> InstrumentId \<Rightarrow> RunHeaderInstrumentV1 option" where
  "lower_bound instruments i =
     (case dropWhile (\<lambda>entry. hi_instrumentId entry < i) instruments of [] \<Rightarrow> None | entry # _ \<Rightarrow> Some entry)"

definition instrument_configured :: "RunHeaderV1 \<Rightarrow> InstrumentId \<Rightarrow> u32 \<Rightarrow> bool" where
  "instrument_configured header i version =
     (case lower_bound (rh_instruments header) i of
        None \<Rightarrow> False
      | Some instrument \<Rightarrow> hi_instrumentId instrument = i \<and> hi_configurationVersion instrument = version)"

definition validateCommandConfiguration :: "RunHeaderV1 \<Rightarrow> InstrumentId \<Rightarrow> u32 \<Rightarrow> RunJournalLoadError" where
  "validateCommandConfiguration header i version =
     (if \<not> instrument_configured header i version then LE_INSTRUMENT_CONFIGURATION_MISMATCH else LE_NONE)"

section \<open>The journal\<close>

text \<open>Decoding a complete command frame by its record type, and the check against the header.\<close>

definition decodeCommand ::
  "RunHeaderV1 \<Rightarrow> u16 \<Rightarrow> u8 list \<Rightarrow> RunJournalLoadResult + JournalCommandV1" where
  "decodeCommand header recordType frame =
     (if recordType = JOURNAL_V1_NEW_ORDER_RECORD_TYPE then
        (case decodeNewOrderV1 frame of
           Inl codecError \<Rightarrow> Inl (commandCorruption codecError)
         | Inr command \<Rightarrow>
             let contextError = validateCommandConfiguration header (jn_instrumentId command)
                   (jn_configurationVersion command) in
             if contextError \<noteq> LE_NONE then Inl (corruption contextError) else Inr (JournalNewOrder command))
      else
        (case decodeCancelV1 frame of
           Inl codecError \<Rightarrow> Inl (commandCorruption codecError)
         | Inr command \<Rightarrow>
             let contextError = validateCommandConfiguration header (jc_instrumentId command)
                   (jc_configurationVersion command) in
             if contextError \<noteq> LE_NONE then Inl (corruption contextError) else Inr (JournalCancel command)))"

text \<open>The part of a turn of the loop after the envelope was read: the payload and the decoded command.\<close>

definition readFrame ::
  "'f read_hook \<Rightarrow> nat \<Rightarrow> LoadedRunJournalV1 \<Rightarrow> u64 \<Rightarrow> u8 list \<Rightarrow> 'f \<Rightarrow>
     ((RunJournalLoadResult + JournalCommandV1 \<times> u32) \<times> 'f) option" where
  "readFrame readFile fuel decoded expectedSequence envelope f =
     (case validateJournalV1CommandEnvelope envelope 0 False of
       Inl envelopeError \<Rightarrow> Some (Inl (commandCorruption envelopeError), f)
     | Inr commandEnvelope \<Rightarrow>
         if env_exchangeRunId commandEnvelope \<noteq> rh_exchangeRunId (lj_header decoded)
         then Some (Inl (corruption LE_EXCHANGE_RUN_ID_MISMATCH), f)
         else if env_commandSequence commandEnvelope \<noteq> expectedSequence
         then Some (Inl (corruption LE_COMMAND_SEQUENCE_MISMATCH), f)
         else if exceedsCapacity (validCommittedByteCount decoded) (unat (env_totalLength commandEnvelope))
                   (rh_maxRunJournalBytes (lj_header decoded))
         then Some (Inl (corruption LE_FILE_BYTE_CAPACITY_EXCEEDED), f)
         else
         let payloadSize = unat (env_totalLength commandEnvelope) - JOURNAL_V1_ENVELOPE_SIZE in
         Option.bind (readExact readFile fuel f payloadSize) (\<lambda>(payload, f).
         if rr_systemError payload \<noteq> 0 then Some (Inl (ioFailure (rr_systemError payload) RH_NONE), f)
         else if length (rr_bytes payload) \<noteq> payloadSize
         then Some (Inl (incompleteTail (validCommittedByteCount decoded)
                (JOURNAL_V1_ENVELOPE_SIZE + length (rr_bytes payload))), f)
         else
         case decodeCommand (lj_header decoded) (env_recordType commandEnvelope) (envelope @ rr_bytes payload) of
           Inl res \<Rightarrow> Some (Inl res, f)
         | Inr command \<Rightarrow> Some (Inr (command, env_totalLength commandEnvelope), f)))"

text \<open>What a turn of the loop finds: the end of loading, or the next command and the length of its frame.\<close>

definition readCommand ::
  "'f read_hook \<Rightarrow> nat \<Rightarrow> LoadedRunJournalV1 \<Rightarrow> u64 \<Rightarrow> 'f \<Rightarrow>
     ((RunJournalLoadResult + JournalCommandV1 \<times> u32) \<times> 'f) option" where
  "readCommand readFile fuel decoded expectedSequence f =
     Option.bind (readSome readFile fuel f JOURNAL_V1_ENVELOPE_SIZE) (\<lambda>(first, f).
     if rr_systemError first \<noteq> 0 then Some (Inl (ioFailure (rr_systemError first) RH_NONE), f)
     else if rr_bytes first = [] then Some (Inl (loadResult LO_VALID LE_NONE RH_NONE NONE 0 0 0), f)
     else if length (lj_commands decoded) \<ge> unat (rh_maxRunCommands (lj_header decoded))
     then Some (Inl (corruption LE_COMMAND_COUNT_CAPACITY_EXCEEDED), f)
     else
     Option.bind (readExact readFile fuel f (JOURNAL_V1_ENVELOPE_SIZE - length (rr_bytes first))) (\<lambda>(remaining, f).
     if rr_systemError remaining \<noteq> 0 then Some (Inl (ioFailure (rr_systemError remaining) RH_NONE), f)
     else
     let envelope = rr_bytes first @ rr_bytes remaining in
     if length envelope < JOURNAL_V1_ENVELOPE_SIZE then
       (if exceedsCapacity (validCommittedByteCount decoded) (length envelope)
             (rh_maxRunJournalBytes (lj_header decoded))
        then Some (Inl (corruption LE_FILE_BYTE_CAPACITY_EXCEEDED), f)
        else Some (Inl (incompleteTail (validCommittedByteCount decoded) (length envelope)), f))
     else readFrame readFile fuel decoded expectedSequence envelope f))"

text \<open>The loop; a command is only returned while there is room for it, which bounds the iterations.\<close>

lemma readCommand_room:
  assumes "readCommand readFile fuel decoded expected f = Some (Inr c, f')"
  shows "length (lj_commands decoded) < unat (rh_maxRunCommands (lj_header decoded))"
  using assms by (auto simp: readCommand_def Let_def bind_eq_Some_conv split: if_splits)

function readCommands ::
  "'f read_hook \<Rightarrow> nat \<Rightarrow> LoadedRunJournalV1 \<Rightarrow> u64 \<Rightarrow> 'f \<Rightarrow>
     (RunJournalLoadResult \<times> LoadedRunJournalV1 \<times> 'f) option" where
  "readCommands readFile fuel decoded expectedSequence f =
     (case readCommand readFile fuel decoded expectedSequence f of
        None \<Rightarrow> None
      | Some (Inl res, f) \<Rightarrow> Some (res, decoded, f)
      | Some (Inr (command, totalLength), f) \<Rightarrow>
          readCommands readFile fuel
            (decoded\<lparr>lj_commands := lj_commands decoded @ [command],
                     validCommittedByteCount := validCommittedByteCount decoded + ucast totalLength\<rparr>)
            (expectedSequence + 1) f)"
  by pat_completeness auto
termination
  by (relation "measure (\<lambda>(_, _, decoded, _, _). unat (rh_maxRunCommands (lj_header decoded)) - length (lj_commands decoded))")
    (auto dest: readCommand_room)

declare readCommands.simps [simp del]

definition readHeader :: "'f read_hook \<Rightarrow> nat \<Rightarrow> 'f \<Rightarrow> ((RunJournalLoadResult + RunHeaderV1 \<times> u32) \<times> 'f) option" where
  "readHeader readFile fuel f =
     Option.bind (readExact readFile fuel f JOURNAL_V1_ENVELOPE_SIZE) (\<lambda>(envelopeRead, f).
     if rr_systemError envelopeRead \<noteq> 0 then Some (Inl (ioFailure (rr_systemError envelopeRead) RH_NONE), f)
     else if length (rr_bytes envelopeRead) \<noteq> JOURNAL_V1_ENVELOPE_SIZE
     then Some (Inl (headerCorruption RH_TRUNCATED_INPUT), f)
     else
     let headerLength = readUint32LittleEndian (rr_bytes envelopeRead) JOURNAL_V1_TOTAL_LENGTH_OFFSET in
     if unat headerLength < JOURNAL_V1_ENVELOPE_SIZE then Some (Inl (headerCorruption RH_INVALID_TOTAL_LENGTH), f)
     else if unat headerLength > RUN_HEADER_MAX_FRAME_SIZE
     then Some (Inl (headerCorruption RH_FRAME_TOO_LARGE), f)
     else
     Option.bind (readExact readFile fuel f (unat headerLength - JOURNAL_V1_ENVELOPE_SIZE)) (\<lambda>(payloadRead, f).
     if rr_systemError payloadRead \<noteq> 0 then Some (Inl (ioFailure (rr_systemError payloadRead) RH_NONE), f)
     else if length (rr_bytes payloadRead) \<noteq> unat headerLength - JOURNAL_V1_ENVELOPE_SIZE
     then Some (Inl (headerCorruption RH_TRUNCATED_INPUT), f)
     else
     case decodeRunHeaderV1 (rr_bytes envelopeRead @ rr_bytes payloadRead) of
       Inl headerError \<Rightarrow> Some (Inl (headerCorruption headerError), f)
     | Inr header \<Rightarrow> Some (Inr (header, headerLength), f)))"

definition readJournal ::
  "'f read_hook \<Rightarrow> nat \<Rightarrow> 'f \<Rightarrow> (RunJournalLoadResult \<times> LoadedRunJournalV1 option \<times> 'f) option" where
  "readJournal readFile fuel f =
     Option.bind (readHeader readFile fuel f) (\<lambda>(res, f).
     case res of
       Inl res \<Rightarrow> Some (res, None, f)
     | Inr (header, headerLength) \<Rightarrow>
         Option.bind
           (readCommands readFile fuel
              \<lparr>lj_header = header, lj_commands = [], validCommittedByteCount = ucast headerLength\<rparr> 1 f)
           (\<lambda>(res, decoded, f). Some (res, Some decoded, f)))"

text \<open>Only a valid journal or one with an incomplete tail replaces the output.\<close>

definition loadRunJournalV1FromDescriptorWithHooks ::
  "'f read_hook \<Rightarrow> nat \<Rightarrow> 'f \<Rightarrow> LoadedRunJournalV1 \<Rightarrow> (RunJournalLoadResult \<times> LoadedRunJournalV1 \<times> 'f) option" where
  "loadRunJournalV1FromDescriptorWithHooks readFile fuel f outp =
     Option.bind (readJournal readFile fuel f) (\<lambda>(res, decoded, f).
       Some (res,
             (if lr_outcome res = LO_VALID \<or> lr_outcome res = LO_INCOMPLETE_TAIL
              then (case decoded of Some d \<Rightarrow> d | None \<Rightarrow> outp) else outp), f))"

definition loadRunJournalV1WithHooks ::
  "int + 'f \<Rightarrow> 'f read_hook \<Rightarrow> nat \<Rightarrow> ('f \<Rightarrow> int) \<Rightarrow> LoadedRunJournalV1 \<Rightarrow>
     (RunJournalLoadResult \<times> LoadedRunJournalV1) option" where
  "loadRunJournalV1WithHooks descriptor readFile fuel closeError outp =
     (case descriptor of
        Inl sysError \<Rightarrow>
          if sysError = ENOENT then Some (loadResult LO_MISSING LE_NONE RH_NONE NONE sysError 0 0, outp)
          else Some (ioFailure sysError RH_NONE, outp)
      | Inr f \<Rightarrow>
          Option.bind (loadRunJournalV1FromDescriptorWithHooks readFile fuel f outp) (\<lambda>(res, decoded, f).
            let loaded = (lr_outcome res = LO_VALID \<or> lr_outcome res = LO_INCOMPLETE_TAIL) in
            if closeError f \<noteq> 0 \<and> loaded then Some (ioFailure (closeError f) RH_NONE, outp)
            else if loaded then Some (res, decoded) else Some (res, outp)))"

end
