(* ===== verification/Journal_Loading.thy ===== *)
theory Journal_Loading
  imports Journal_Reader
begin

text \<open>
  What loading a journal returns. The read hook is assumed to behave like \<open>read(2)\<close> on a file without
  device errors: it may return fewer bytes than asked for and it may be interrupted a bounded number of
  times. Under this assumption the reader computes a function of the remaining bytes of the file.
\<close>

section \<open>The read hook\<close>

definition posix_read :: "('f \<Rightarrow> u8 list) \<Rightarrow> ('f \<Rightarrow> nat) \<Rightarrow> 'f read_hook \<Rightarrow> bool" where
  "posix_read remaining interrupts readFile \<longleftrightarrow>
     (\<forall>f n. 0 < n \<longrightarrow>
        (case readFile f n of
           (Bytes bs, f') \<Rightarrow>
             length bs \<le> n \<and> bs = take (length bs) (remaining f) \<and> (bs = [] \<longrightarrow> remaining f = []) \<and>
             remaining f' = drop (length bs) (remaining f) \<and> interrupts f' \<le> interrupts f
         | (Read_failed e, f') \<Rightarrow>
             e = EINTR \<and> remaining f' = remaining f \<and> interrupts f' < interrupts f))"

text \<open>A file that is a list of bytes and is read in chunks of at most seven bytes.\<close>

definition chunk_read :: "u8 list read_hook" where
  "chunk_read f n = (Bytes (take (min n 7) f), drop (min n 7) f)"

lemma posix_chunk_read: "posix_read id (\<lambda>_. 0) chunk_read"
  by (auto simp: posix_read_def chunk_read_def min_def)

lemma readSome_spec:
  assumes "posix_read remaining interrupts readFile" and "0 < n" and "interrupts f < fuel"
  shows "\<exists>bs f'. readSome readFile fuel f n = Some (\<lparr>rr_bytes = bs, rr_systemError = 0\<rparr>, f') \<and>
    length bs \<le> n \<and> bs = take (length bs) (remaining f) \<and> (bs = [] \<longrightarrow> remaining f = []) \<and>
    remaining f' = drop (length bs) (remaining f) \<and> interrupts f' \<le> interrupts f"
  using assms(3)
proof (induction fuel arbitrary: f)
  case (Suc fuel)
  obtain reply f1 where reply: "readFile f n = (reply, f1)"
    by (cases "readFile f n")
  note hook = assms(1) [unfolded posix_read_def, rule_format, OF assms(2), of f, unfolded reply]
  show ?case
  proof (cases reply)
    case (Bytes bs)
    then show ?thesis
      using hook by (cases "bs = []") (auto simp: reply)
  next
    case (Read_failed e)
    then have "e = EINTR" "remaining f1 = remaining f" "interrupts f1 < interrupts f" "interrupts f1 < fuel"
      using hook Suc.prems by auto
    then show ?thesis
      using Suc.IH [of f1] by (auto simp: reply Read_failed)
  qed
qed simp

lemma readExact_from_spec:
  assumes "posix_read remaining interrupts readFile" and "interrupts f < fuel" and "length got \<le> n"
  shows "\<exists>f'. readExact_from readFile fuel f got n =
      Some (\<lparr>rr_bytes = got @ take (n - length got) (remaining f), rr_systemError = 0\<rparr>, f') \<and>
    remaining f' = drop (n - length got) (remaining f) \<and> interrupts f' \<le> interrupts f"
  using assms(2,3)
proof (induction "n - length got" arbitrary: f got rule: less_induct)
  case less
  show ?case
  proof (cases "length got < n")
    case False
    then show ?thesis
      using less.prems by (simp add: readExact_from.simps)
  next
    case True
    then have pos: "0 < n - length got" by simp
    from readSome_spec [OF assms(1) pos less.prems(1)]
    obtain bs f1 where some: "readSome readFile fuel f (n - length got) = Some (\<lparr>rr_bytes = bs, rr_systemError = 0\<rparr>, f1)"
      and bs: "length bs \<le> n - length got" "bs = take (length bs) (remaining f)" "bs = [] \<longrightarrow> remaining f = []"
        "remaining f1 = drop (length bs) (remaining f)" "interrupts f1 \<le> interrupts f"
      by blast
    show ?thesis
    proof (cases "bs = []")
      case True
      then show ?thesis
        using some bs pos by (auto simp: readExact_from.simps [of readFile fuel f got n])
    next
      case False
      then have "n - length (got @ bs) < n - length got" "length (got @ bs) \<le> n" "interrupts f1 < fuel"
        using bs less.prems pos by (auto simp: neq_Nil_conv)
      from less.hyps [OF this(1,3,2)] obtain f2 where
        rec: "readExact_from readFile fuel f1 (got @ bs) n =
          Some (\<lparr>rr_bytes = (got @ bs) @ take (n - length (got @ bs)) (remaining f1), rr_systemError = 0\<rparr>, f2)"
        "remaining f2 = drop (n - length (got @ bs)) (remaining f1)" "interrupts f2 \<le> interrupts f1"
        by blast
      define k where "k = n - length got - length bs"
      have k: "n - length got = length bs + k" "n - length (got @ bs) = k"
        using bs(1) by (auto simp: k_def)
      have "bs @ take k (drop (length bs) (remaining f)) = take (length bs + k) (remaining f)"
        by (subst (1) bs(2)) (simp add: take_add)
      then show ?thesis
        using rec [unfolded k(2) bs(4)] some True False bs(5)
        unfolding readExact_from.simps [of readFile fuel f got n] k(1)
        by (simp add: add.commute)
    qed
  qed
qed

lemma readExact_spec:
  assumes "posix_read remaining interrupts readFile" and "interrupts f < fuel"
  shows "\<exists>f'. readExact readFile fuel f n = Some (\<lparr>rr_bytes = take n (remaining f), rr_systemError = 0\<rparr>, f') \<and>
    remaining f' = drop n (remaining f) \<and> interrupts f' \<le> interrupts f"
  using readExact_from_spec [OF assms, of "[]" n] by (simp add: readExact_def)

section \<open>Frames of commands\<close>

definition encodeCommand :: "JournalCommandV1 \<Rightarrow> JournalCommandCodecError + u8 list" where
  "encodeCommand c = (case c of JournalNewOrder n \<Rightarrow> encodeNewOrderV1 n | JournalCancel x \<Rightarrow> encodeCancelV1 x)"

definition command_run :: "JournalCommandV1 \<Rightarrow> ExchangeRunId" where
  "command_run c = (case c of JournalNewOrder n \<Rightarrow> jn_exchangeRunId n | JournalCancel x \<Rightarrow> jc_exchangeRunId x)"

definition command_sequence :: "JournalCommandV1 \<Rightarrow> CommandSequence" where
  "command_sequence c = (case c of JournalNewOrder n \<Rightarrow> jn_commandSequence n | JournalCancel x \<Rightarrow> jc_commandSequence x)"

definition command_ccid :: "JournalCommandV1 \<Rightarrow> ClientCommandId" where
  "command_ccid c = (case c of JournalNewOrder n \<Rightarrow> jn_clientCommandId n | JournalCancel x \<Rightarrow> jc_clientCommandId x)"

definition command_configured :: "RunHeaderV1 \<Rightarrow> JournalCommandV1 \<Rightarrow> bool" where
  "command_configured h c =
     (case c of
        JournalNewOrder n \<Rightarrow> instrument_configured h (jn_instrumentId n) (jn_configurationVersion n)
      | JournalCancel x \<Rightarrow> instrument_configured h (jc_instrumentId x) (jc_configurationVersion x))"

definition record_type :: "JournalCommandV1 \<Rightarrow> u16" where
  "record_type c =
     (case c of JournalNewOrder _ \<Rightarrow> JOURNAL_V1_NEW_ORDER_RECORD_TYPE | JournalCancel _ \<Rightarrow> JOURNAL_V1_CANCEL_RECORD_TYPE)"

definition payload_ok :: "u16 \<Rightarrow> nat \<Rightarrow> bool" where
  "payload_ok t n \<longleftrightarrow> (if t = 2 then 44 \<le> n \<and> n \<le> 107 else 34 \<le> n \<and> n \<le> 97)"

lemma valid_id_length:
  assumes "valid_ClientCommandId c"
  shows "1 \<le> length (ClientCommandId_value c)" "length (ClientCommandId_value c) \<le> 64"
  using assms by (auto simp: valid_ClientCommandId_def make_ClientCommandId_def MAX_LENGTH_def Suc_le_eq split: if_splits)

lemma encodeCommand_frame:
  assumes "encodeCommand c = Inr f" and "valid_ClientCommandId (command_ccid c)"
  shows "\<exists>payload. f = command_frame (record_type c) (command_run c) (command_sequence c) payload \<and>
    payload_ok (record_type c) (length payload) \<and> command_run c \<noteq> 0 \<and> command_sequence c \<noteq> 0"
proof (cases c)
  case (JournalNewOrder n)
  have enc: "encodeNewOrderV1 n = Inr f"
    using assms(1) by (simp add: encodeCommand_def JournalNewOrder)
  note inv = encodeNewOrderV1_Inr [OF enc]
  obtain sc tc where codes: "side_code (jn_side n) = Inr sc" "tif_code (jn_timeInForce n) = Inr tc"
    using inv(2,3) by blast
  have "f = command_frame JOURNAL_V1_NEW_ORDER_RECORD_TYPE (jn_exchangeRunId n) (jn_commandSequence n)
    (common_payload (jn_behavioralRulesVersion n) (jn_configurationVersion n) (jn_clientId n) (jn_instrumentId n)
       (ClientCommandId_value (jn_clientCommandId n)) (new_order_fields sc tc (jn_price n) (jn_quantity n)))"
    using encodeNewOrderV1_layout [OF inv(1) codes inv(4,5)] enc by simp
  then show ?thesis
    using valid_id_length [OF assms(2)] validateCommonCommand_ids [OF inv(1)]
    by (auto simp: JournalNewOrder record_type_def command_run_def command_sequence_def command_ccid_def
        payload_ok_def layout new_order_fields_def)
next
  case (JournalCancel x)
  have enc: "encodeCancelV1 x = Inr f"
    using assms(1) by (simp add: encodeCommand_def JournalCancel)
  note inv = encodeCancelV1_Inr [OF enc]
  have "f = command_frame JOURNAL_V1_CANCEL_RECORD_TYPE (jc_exchangeRunId x) (jc_commandSequence x)
    (common_payload (jc_behavioralRulesVersion x) (jc_configurationVersion x) (jc_clientId x) (jc_instrumentId x)
       (ClientCommandId_value (jc_clientCommandId x)) (le_bytes 8 (jc_targetOrderId x)))"
    using encodeCancelV1_layout [OF inv] enc by simp
  then show ?thesis
    using valid_id_length [OF assms(2)] validateCommonCommand_ids [OF inv(1)]
    by (auto simp: JournalCancel record_type_def command_run_def command_sequence_def command_ccid_def
        payload_ok_def layout)
qed

text \<open>The first 36 bytes of a frame validate as an envelope on their own.\<close>

lemma read_take:
  "offset + 2 \<le> n \<Longrightarrow> n \<le> length bytes \<Longrightarrow> readUint16LittleEndian (take n bytes) offset = readUint16LittleEndian bytes offset"
  "offset + 4 \<le> n \<Longrightarrow> n \<le> length bytes \<Longrightarrow> readUint32LittleEndian (take n bytes) offset = readUint32LittleEndian bytes offset"
  "offset + 8 \<le> n \<Longrightarrow> n \<le> length bytes \<Longrightarrow> readUint64LittleEndian (take n bytes) offset = readUint64LittleEndian bytes offset"
  by (simp_all add: readUint_le_value drop_take min_def)

lemma validate_envelope:
  assumes t: "t = 2 \<or> t = 3" and p: "payload_ok t (length payload)" and ids: "r \<noteq> 0" "s \<noteq> 0"
  shows "validateJournalV1CommandEnvelope (take 36 (command_frame t r s payload)) 0 False = Inr (env_of t r s payload)"
proof -
  define input where "input = command_frame t r s payload"
  have len: "length input = 36 + length payload" by (simp add: input_def)
  have small: "length payload < 2 ^ 31" "length payload \<le> 107"
    using p by (auto simp: payload_ok_def split: if_splits)
  note reads = command_frame_reads [OF input_def small(1)]
  have words: "readUint32LittleEndian input 8 = of_nat (36 + length payload)"
    "readUint32LittleEndian input 28 = of_nat (length payload)"
    using reads(4,7) by (metis of_nat_unat ucast_id)+
  have u: "unat (of_nat (36 + length payload) :: u32) = 36 + length payload"
    "unat (of_nat (length payload) :: u32) = length payload"
    using small(2) by (simp_all add: unat_of_nat del: of_nat_add)
  moreover from this have "of_nat 36 + (ucast (of_nat (length payload) :: u32) :: u64) = ucast (of_nat (36 + length payload) :: u32)"
    by (subst total_length_iff) simp_all
  moreover have "min 36 (36 + length payload) = 36" by simp
  ultimately show ?thesis
    using len p t ids reads(1-3,5,6) words
    unfolding validateJournalV1CommandEnvelope_def layout Let_def env_of_def input_def [symmetric] payload_ok_def
    by (auto simp: read_take take_take)
qed

lemma decodeCommand_frame:
  assumes "encodeCommand c = Inr f" and "valid_ClientCommandId (command_ccid c)" and "command_configured h c"
  shows "decodeCommand h (record_type c) f = Inr c"
  using assms
  by (cases c)
    (auto simp: encodeCommand_def command_ccid_def command_configured_def decodeCommand_def record_type_def
      validateCommandConfiguration_def new_order_codec.decode_encode cancel_codec.decode_encode layout)

section \<open>One turn of the loop\<close>

text \<open>The next command of a journal: it belongs to the run, has the expected number, is configured and
  fits into the byte limit.\<close>

definition next_command :: "RunHeaderV1 \<Rightarrow> nat \<Rightarrow> u64 \<Rightarrow> JournalCommandV1 \<Rightarrow> u8 list \<Rightarrow> bool" where
  "next_command h committed expected c frame \<longleftrightarrow>
     encodeCommand c = Inr frame \<and> valid_ClientCommandId (command_ccid c) \<and> command_configured h c \<and>
     command_run c = rh_exchangeRunId h \<and> command_sequence c = expected \<and>
     committed + length frame \<le> unat (rh_maxRunJournalBytes h)"

lemma next_command_frame:
  assumes "next_command h committed expected c frame"
  shows "\<exists>payload. frame = command_frame (record_type c) (rh_exchangeRunId h) expected payload \<and>
    length frame = 36 + length payload \<and> length payload \<le> 107 \<and>
    validateJournalV1CommandEnvelope (take 36 frame) 0 False =
      Inr (env_of (record_type c) (rh_exchangeRunId h) expected payload) \<and>
    decodeCommand h (record_type c) frame = Inr c"
proof -
  note n = assms [unfolded next_command_def]
  obtain payload where p: "frame = command_frame (record_type c) (rh_exchangeRunId h) expected payload"
    "payload_ok (record_type c) (length payload)" "rh_exchangeRunId h \<noteq> 0" "expected \<noteq> 0"
    using encodeCommand_frame [of c frame] n by auto
  have t: "record_type c = 2 \<or> record_type c = 3"
    by (auto simp: record_type_def layout split: JournalCommandV1.splits)
  have "decodeCommand h (record_type c) frame = Inr c"
    using n decodeCommand_frame by blast
  moreover have "length payload \<le> 107"
    using p(2) by (auto simp: payload_ok_def split: if_splits)
  ultimately show ?thesis
    using validate_envelope [OF t p(2-4)] p(1) by auto
qed

lemma exceedsCapacity_of_nat:
  assumes "committed + n \<le> unat maxBytes"
  shows "\<not> exceedsCapacity (of_nat committed) n maxBytes"
proof -
  have "committed < 2 ^ 64"
    using assms unsigned_less [of maxBytes, where 'a = nat] by simp
  then have c: "unat (of_nat committed :: u64) = committed"
    by (simp add: unat_of_nat)
  then show ?thesis
    using assms by (auto simp: exceedsCapacity_def word_less_nat_alt not_less unat_sub word_le_nat_alt)
qed

lemma ucast_of_nat_u64: "n < 2 ^ 32 \<Longrightarrow> (ucast (of_nat n :: u32) :: u64) = of_nat n"
  by (simp add: word_unat_eq_iff unat_ucast_u64 unat_of_nat)

lemma first_rest: "bs = take (length bs) xs \<Longrightarrow> length bs \<le> n \<Longrightarrow> bs @ take (n - length bs) (drop (length bs) xs) = take n xs"
  by (metis append_take_drop_id length_append le_add_diff_inverse take_add)

lemma readCommand_end:
  assumes hook: "posix_read remaining interrupts readFile" and fuel: "interrupts f < fuel"
    and "remaining f = []"
  shows "\<exists>f'. readCommand readFile fuel d expected f = Some (Inl (loadResult LO_VALID LE_NONE RH_NONE NONE 0 0 0), f')"
  using readSome_spec [OF hook _ fuel, of 36] assms(3) by (auto simp: readCommand_def layout)

lemma readCommand_envelope:
  assumes hook: "posix_read remaining interrupts readFile" and fuel: "interrupts f < fuel"
    and more': "remaining f \<noteq> []" and room: "length (lj_commands d) < unat (rh_maxRunCommands (lj_header d))"
  shows "\<exists>f'. readCommand readFile fuel d expected f =
      (if length (remaining f) < 36
       then (if exceedsCapacity (validCommittedByteCount d) (length (remaining f)) (rh_maxRunJournalBytes (lj_header d))
             then Some (Inl (corruption LE_FILE_BYTE_CAPACITY_EXCEEDED), f')
             else Some (Inl (incompleteTail (validCommittedByteCount d) (length (remaining f))), f'))
       else readFrame readFile fuel d expected (take 36 (remaining f)) f') \<and>
    remaining f' = drop 36 (remaining f) \<and> interrupts f' \<le> interrupts f"
proof -
  from readSome_spec [OF hook _ fuel, of 36] obtain bs f1 where
    some: "readSome readFile fuel f 36 = Some (\<lparr>rr_bytes = bs, rr_systemError = 0\<rparr>, f1)"
    and bs: "length bs \<le> 36" "bs = take (length bs) (remaining f)" "bs \<noteq> []"
      "remaining f1 = drop (length bs) (remaining f)" "interrupts f1 \<le> interrupts f"
    using more' by auto
  have fuel1: "interrupts f1 < fuel"
    using bs(5) fuel by simp
  from readExact_spec [OF hook fuel1, of "36 - length bs"] obtain f2 where
    exact: "readExact readFile fuel f1 (36 - length bs) =
      Some (\<lparr>rr_bytes = take (36 - length bs) (drop (length bs) (remaining f)), rr_systemError = 0\<rparr>, f2)"
    and f2: "remaining f2 = drop 36 (remaining f)" "interrupts f2 \<le> interrupts f"
    using bs by auto
  have join: "bs @ take (36 - length bs) (drop (length bs) (remaining f)) = take 36 (remaining f)"
    by (rule first_rest [OF bs(2,1)])
  have joined: "length (take 36 (remaining f)) < 36 \<longleftrightarrow> length (remaining f) < 36"
    "length (remaining f) < 36 \<Longrightarrow> length (take 36 (remaining f)) = length (remaining f)"
    by auto
  show ?thesis
    using room bs(3) f2
    by (intro exI [of _ f2])
      (simp add: readCommand_def layout some exact join Let_def joined del: append_assoc length_take length_append)
qed

lemma readCommand_whole:
  assumes hook: "posix_read remaining interrupts readFile" and fuel: "interrupts f < fuel"
    and room: "length (lj_commands d) < unat (rh_maxRunCommands (lj_header d))"
    and d: "validCommittedByteCount d = of_nat committed"
    and next': "next_command (lj_header d) committed expected c frame" and rem: "remaining f = frame @ rest"
  shows "\<exists>f'. readCommand readFile fuel d expected f = Some (Inr (c, of_nat (length frame)), f') \<and>
        remaining f' = rest \<and> interrupts f' \<le> interrupts f"
proof -
  obtain payload where p: "length frame = 36 + length payload" "length payload \<le> 107"
      "validateJournalV1CommandEnvelope (take 36 frame) 0 False =
        Inr (env_of (record_type c) (rh_exchangeRunId (lj_header d)) expected payload)"
      "decodeCommand (lj_header d) (record_type c) frame = Inr c"
    using next_command_frame [OF next'] by blast
  let ?env = "env_of (record_type c) (rh_exchangeRunId (lj_header d)) expected payload"
  have total: "unat (env_totalLength ?env) = 36 + length payload" "env_totalLength ?env = of_nat (length frame)"
      "env_recordType ?env = record_type c"
    using p(1,2) by (simp_all add: env_of_def unat_of_nat del: of_nat_add)
  have fits: "\<not> exceedsCapacity (of_nat committed) (36 + length payload) (rh_maxRunJournalBytes (lj_header d))"
    using exceedsCapacity_of_nat next' p(1) by (simp add: next_command_def)
  have take: "take 36 (frame @ rest) = take 36 frame"
    using p(1) by simp
  have "remaining f \<noteq> []" "\<not> length (remaining f) < 36"
    using rem p(1) by auto
  with readCommand_envelope [OF hook fuel _ room, of expected] obtain f1 where
    cmd: "readCommand readFile fuel d expected f = readFrame readFile fuel d expected (take 36 frame) f1"
      "remaining f1 = drop 36 frame @ rest" "interrupts f1 \<le> interrupts f"
    using p(1) by (auto simp: rem take)
  from readExact_spec [OF hook, of f1 fuel "length payload"] obtain f2 where
    exact: "readExact readFile fuel f1 (length payload) = Some (\<lparr>rr_bytes = drop 36 frame, rr_systemError = 0\<rparr>, f2)"
      "remaining f2 = rest" "interrupts f2 \<le> interrupts f"
    using cmd fuel p(1) by auto
  show ?thesis
    using exact p total fits d by (auto simp: cmd(1) readFrame_def layout Let_def)
qed

lemma readCommand_torn:
  assumes hook: "posix_read remaining interrupts readFile" and fuel: "interrupts f < fuel"
    and room: "length (lj_commands d) < unat (rh_maxRunCommands (lj_header d))"
    and d: "validCommittedByteCount d = of_nat committed"
    and next': "next_command (lj_header d) committed expected c frame"
    and rem: "remaining f = take k frame" and k: "0 < k" "k < length frame"
  shows "\<exists>f'. readCommand readFile fuel d expected f = Some (Inl (incompleteTail (of_nat committed) k), f')"
proof -
  obtain payload where p: "length frame = 36 + length payload" "length payload \<le> 107"
      "validateJournalV1CommandEnvelope (take 36 frame) 0 False =
        Inr (env_of (record_type c) (rh_exchangeRunId (lj_header d)) expected payload)"
    using next_command_frame [OF next'] by blast
  let ?env = "env_of (record_type c) (rh_exchangeRunId (lj_header d)) expected payload"
  have total: "unat (env_totalLength ?env) = 36 + length payload"
    using p(1,2) by (simp add: env_of_def unat_of_nat del: of_nat_add)
  have fits: "\<not> exceedsCapacity (of_nat committed) n (rh_maxRunJournalBytes (lj_header d))" if "n \<le> length frame" for n
    using exceedsCapacity_of_nat next' that by (simp add: next_command_def)
  have len: "length (remaining f) = k" "remaining f \<noteq> []"
    using rem k by auto
  from readCommand_envelope [OF hook fuel len(2) room, of expected] obtain f1 where
    raw: "readCommand readFile fuel d expected f =
      (if k < 36
       then (if exceedsCapacity (validCommittedByteCount d) k (rh_maxRunJournalBytes (lj_header d))
             then Some (Inl (corruption LE_FILE_BYTE_CAPACITY_EXCEEDED), f1)
             else Some (Inl (incompleteTail (validCommittedByteCount d) k), f1))
       else readFrame readFile fuel d expected (take 36 (remaining f)) f1)"
      "remaining f1 = drop 36 (remaining f)" "interrupts f1 \<le> interrupts f"
    unfolding len(1) by blast
  have cmd: "readCommand readFile fuel d expected f =
      (if k < 36 then Some (Inl (incompleteTail (of_nat committed) k), f1)
       else readFrame readFile fuel d expected (take 36 (take k frame)) f1)"
      "remaining f1 = drop 36 (take k frame)" "interrupts f1 \<le> interrupts f"
    using raw fits [of k] k(2) d rem by simp_all
  show ?thesis
  proof (cases "k < 36")
    case False
    then have env: "take 36 (take k frame) = take 36 frame"
      by (simp add: min_def)
    from readExact_spec [OF hook, of f1 fuel "length payload"] obtain f2 where
      exact: "readExact readFile fuel f1 (length payload) =
        Some (\<lparr>rr_bytes = drop 36 (take k frame), rr_systemError = 0\<rparr>, f2)"
      using cmd(2,3) fuel p(1) k by auto
    show ?thesis
      using exact p total fits [of "length frame"] d k False
      by (auto simp: cmd(1) env readFrame_def layout Let_def)
  qed (use cmd in simp)
qed

section \<open>The whole journal\<close>

text \<open>\<open>next_commands\<close>: a sequence of commands with their frames that may follow in the journal.\<close>

fun next_commands :: "RunHeaderV1 \<Rightarrow> nat \<Rightarrow> u64 \<Rightarrow> (JournalCommandV1 \<times> u8 list) list \<Rightarrow> bool" where
  "next_commands h committed expected [] = True"
| "next_commands h committed expected ((c, frame) # cs) =
     (next_command h committed expected c frame \<and>
      next_commands h (committed + length frame) (expected + 1) cs)"

definition frames_length :: "(JournalCommandV1 \<times> u8 list) list \<Rightarrow> nat" where
  "frames_length cs = length (concat (map snd cs))"

text \<open>The commands whose frames lie completely within the first \<open>k\<close> bytes.\<close>

fun complete_within :: "nat \<Rightarrow> (JournalCommandV1 \<times> u8 list) list \<Rightarrow> (JournalCommandV1 \<times> u8 list) list" where
  "complete_within k [] = []"
| "complete_within k ((c, frame) # cs) =
     (if length frame \<le> k then (c, frame) # complete_within (k - length frame) cs else [])"

lemma frames_length_simps [simp]:
  "frames_length [] = 0" "frames_length ((c, frame) # cs) = length frame + frames_length cs"
  by (simp_all add: frames_length_def)

lemma frames_length_complete: "frames_length (complete_within k cs) \<le> k"
  by (induction k cs rule: complete_within.induct) auto

text \<open>What the loop returns on a journal cut after \<open>k\<close> bytes of frames.\<close>

lemma readCommands_prefix:
  assumes hook: "posix_read remaining interrupts readFile" and fuel: "interrupts f < fuel"
    and d: "validCommittedByteCount d = of_nat committed"
    and cs: "next_commands (lj_header d) committed expected cs"
    and room: "length (lj_commands d) + length cs \<le> unat (rh_maxRunCommands (lj_header d))"
    and rem: "remaining f = take k (concat (map snd cs))" and k: "k \<le> frames_length cs"
  shows "\<exists>f'. readCommands readFile fuel d expected f =
    Some (let n = frames_length (complete_within k cs) in
          if n = k then loadResult LO_VALID LE_NONE RH_NONE NONE 0 0 0
          else incompleteTail (of_nat (committed + n)) (k - n),
          d\<lparr>lj_commands := lj_commands d @ map fst (complete_within k cs),
            validCommittedByteCount := of_nat (committed + frames_length (complete_within k cs))\<rparr>, f')"
  using assms(2-)
proof (induction cs arbitrary: f d committed expected k)
  case Nil
  from readCommand_end [OF hook Nil.prems(1), of d expected] Nil.prems show ?case
    by (auto simp: readCommands.simps [of readFile fuel d])
next
  case (Cons cf cs)
  obtain c frame where cf: "cf = (c, frame)" by (cases cf)
  have next': "next_command (lj_header d) committed expected c frame"
    and rest: "next_commands (lj_header d) (committed + length frame) (expected + 1) cs"
    and room: "length (lj_commands d) < unat (rh_maxRunCommands (lj_header d))"
    using Cons.prems(3,4) by (auto simp: cf)
  show ?case
  proof (cases "length frame \<le> k")
    case True
    then have rem: "remaining f = frame @ take (k - length frame) (concat (map snd cs))"
      using Cons.prems(5) by (simp add: cf)
    from readCommand_whole [OF hook Cons.prems(1) room Cons.prems(2) next' rem] obtain f1 where
      cmd: "readCommand readFile fuel d expected f = Some (Inr (c, of_nat (length frame)), f1)"
        "remaining f1 = take (k - length frame) (concat (map snd cs))" "interrupts f1 \<le> interrupts f"
      by blast
    define d1 where "d1 = d\<lparr>lj_commands := lj_commands d @ [c],
        validCommittedByteCount := validCommittedByteCount d + ucast (of_nat (length frame) :: u32)\<rparr>"
    have "length frame < 2 ^ 32"
      using next_command_frame [OF next'] by auto
    then have count: "validCommittedByteCount d1 = of_nat (committed + length frame)"
      using Cons.prems(2) by (simp add: d1_def ucast_of_nat_u64)
    have hd1: "lj_header d1 = lj_header d" "lj_commands d1 = lj_commands d @ [c]"
      by (simp_all add: d1_def)
    have "interrupts f1 < fuel" "k - length frame \<le> frames_length cs"
      using cmd(3) Cons.prems(1,6) by (auto simp: cf)
    from Cons.IH [OF this(1) count _ _ cmd(2) this(2)] rest Cons.prems(4)
    obtain f2 where "readCommands readFile fuel d1 (expected + 1) f1 =
      Some (let n = frames_length (complete_within (k - length frame) cs) in
          if n = k - length frame then loadResult LO_VALID LE_NONE RH_NONE NONE 0 0 0
          else incompleteTail (of_nat (committed + length frame + n)) (k - length frame - n),
          d1\<lparr>lj_commands := lj_commands d1 @ map fst (complete_within (k - length frame) cs),
            validCommittedByteCount := of_nat (committed + length frame + frames_length (complete_within (k - length frame) cs))\<rparr>, f2)"
      by (auto simp: hd1 cf)
    moreover have "readCommands readFile fuel d expected f = readCommands readFile fuel d1 (expected + 1) f1"
      by (simp add: readCommands.simps [of readFile fuel d] cmd(1) d1_def)
    ultimately show ?thesis
      using True by (auto simp: cf Let_def hd1 d1_def add.assoc)
  next
    case False
    show ?thesis
    proof (cases "k = 0")
      case True
      then have "remaining f = []"
        using Cons.prems(5) by simp
      from readCommand_end [OF hook Cons.prems(1) this, of d expected] False True Cons.prems(2) show ?thesis
        by (auto simp: readCommands.simps [of readFile fuel d] cf)
    next
      case pos: False
      have "remaining f = take k frame"
        using Cons.prems(5) False by (simp add: cf)
      from readCommand_torn [OF hook Cons.prems(1) room Cons.prems(2) next' this] pos False Cons.prems(2) show ?thesis
        by (auto simp: readCommands.simps [of readFile fuel d] cf Let_def)
    qed
  qed
qed

section \<open>The header\<close>

lemma header_frame:
  assumes "encodeRunHeaderV1 h = Inr hf"
  shows "36 \<le> length hf" and "length hf \<le> 65536" and "unat (readUint32LittleEndian hf 8) = length hf"
    and "decodeRunHeaderV1 hf = Inr h"
proof -
  obtain n where n: "validateHeader h = Inr n"
    using encodeRunHeaderV1_Inr [OF assms] by blast
  have hf: "hf = command_frame RUN_HEADER_RECORD_TYPE (rh_exchangeRunId h) 0 (header_payload h)"
    using encodeRunHeaderV1_layout [OF n] assms by simp
  show len: "36 \<le> length hf" "length hf \<le> 65536"
    using validateHeader_Inr [OF n] by (simp_all add: hf)
  have "length (header_payload h) < 2 ^ 31"
    using len(2) by (simp add: hf)
  from command_frame_reads(4) [OF hf this] show "unat (readUint32LittleEndian hf 8) = length hf"
    by (simp add: hf)
  show "decodeRunHeaderV1 hf = Inr h"
    using run_header_codec.decode_iff assms by blast
qed

lemma header_fits:
  assumes "encodeRunHeaderV1 h = Inr hf"
  shows "length hf \<le> unat (rh_maxRunJournalBytes h)"
proof -
  obtain n where "validateHeader h = Inr n"
    using encodeRunHeaderV1_Inr [OF assms] by blast
  then show ?thesis
    using encodeRunHeaderV1_layout [of h n] assms
    by (auto simp: validateHeader_def layout Let_def result_iff not_less split: if_splits)
qed

lemma readHeader_whole:
  assumes hook: "posix_read remaining interrupts readFile" and fuel: "interrupts f < fuel"
    and enc: "encodeRunHeaderV1 h = Inr hf" and rem: "remaining f = hf @ rest"
  shows "\<exists>f'. readHeader readFile fuel f = Some (Inr (h, of_nat (length hf)), f') \<and>
    remaining f' = rest \<and> interrupts f' \<le> interrupts f"
proof -
  note hdr = header_frame [OF enc]
  from readExact_spec [OF hook fuel, of 36] obtain f1 where
    e1: "readExact readFile fuel f 36 = Some (\<lparr>rr_bytes = take 36 hf, rr_systemError = 0\<rparr>, f1)"
      "remaining f1 = drop 36 hf @ rest" "interrupts f1 \<le> interrupts f"
    using rem hdr(1) by auto
  have fuel1: "interrupts f1 < fuel"
    using e1(3) fuel by simp
  from readExact_spec [OF hook fuel1, of "length hf - 36"] obtain f2 where
    e2: "readExact readFile fuel f1 (length hf - 36) = Some (\<lparr>rr_bytes = drop 36 hf, rr_systemError = 0\<rparr>, f2)"
      "remaining f2 = rest" "interrupts f2 \<le> interrupts f1"
    using e1(2) by auto
  have word: "readUint32LittleEndian hf 8 = of_nat (length hf)"
    using hdr(3) by (metis of_nat_unat ucast_id)
  show ?thesis
    using e1 e2 hdr word
    by (intro exI [of _ f2]) (simp add: readHeader_def layout Let_def read_take RUN_HEADER_MAX_FRAME_SIZE_def)
qed

lemma readHeader_torn:
  assumes hook: "posix_read remaining interrupts readFile" and fuel: "interrupts f < fuel"
    and enc: "encodeRunHeaderV1 h = Inr hf" and rem: "remaining f = take k hf" and k: "k < length hf"
  shows "\<exists>f'. readHeader readFile fuel f = Some (Inl (headerCorruption RH_TRUNCATED_INPUT), f')"
proof -
  note hdr = header_frame [OF enc]
  from readExact_spec [OF hook fuel, of 36] obtain f1 where
    e1: "readExact readFile fuel f 36 = Some (\<lparr>rr_bytes = take 36 (take k hf), rr_systemError = 0\<rparr>, f1)"
      "remaining f1 = drop 36 (take k hf)" "interrupts f1 \<le> interrupts f"
    using rem by auto
  show ?thesis
  proof (cases "k < 36")
    case True
    then show ?thesis
      using e1 k by (simp add: readHeader_def layout)
  next
    case False
    have fuel1: "interrupts f1 < fuel"
      using e1(3) fuel by simp
    from readExact_spec [OF hook fuel1, of "length hf - 36"] obtain f2 where
      e2: "readExact readFile fuel f1 (length hf - 36) =
        Some (\<lparr>rr_bytes = drop 36 (take k hf), rr_systemError = 0\<rparr>, f2)"
      using e1(2) k by auto
    have "take 36 (take k hf) = take 36 hf"
      using False by (simp add: min_def)
    then show ?thesis
      using e1 e2 hdr False k
      by (simp add: readHeader_def layout Let_def read_take RUN_HEADER_MAX_FRAME_SIZE_def)
  qed
qed

section \<open>Crash prefixes\<close>

definition journal_of :: "RunHeaderV1 \<Rightarrow> u8 list \<Rightarrow> (JournalCommandV1 \<times> u8 list) list \<Rightarrow> bool" where
  "journal_of h hf cs \<longleftrightarrow>
     encodeRunHeaderV1 h = Inr hf \<and> next_commands h (length hf) 1 cs \<and>
     length cs \<le> unat (rh_maxRunCommands h)"

definition journal_bytes :: "u8 list \<Rightarrow> (JournalCommandV1 \<times> u8 list) list \<Rightarrow> u8 list" where
  "journal_bytes hf cs = hf @ concat (map snd cs)"

lemma load_torn_header:
  assumes "posix_read remaining interrupts readFile" and "interrupts f < fuel"
    and "journal_of h hf cs" and "remaining f = take k (journal_bytes hf cs)" and "k < length hf"
  shows "\<exists>f'. loadRunJournalV1FromDescriptorWithHooks readFile fuel f outp =
    Some (headerCorruption RH_TRUNCATED_INPUT, outp, f')"
proof -
  have "encodeRunHeaderV1 h = Inr hf" "remaining f = take k hf"
    using assms(3-5) by (auto simp: journal_of_def journal_bytes_def)
  from readHeader_torn [OF assms(1,2) this assms(5)] show ?thesis
    by (auto simp: loadRunJournalV1FromDescriptorWithHooks_def readJournal_def headerCorruption_def loadResult_def)
qed

lemma load_prefix:
  assumes hook: "posix_read remaining interrupts readFile" and fuel: "interrupts f < fuel"
    and j: "journal_of h hf cs" and rem: "remaining f = take k (journal_bytes hf cs)"
    and k: "length hf \<le> k" "k \<le> length (journal_bytes hf cs)"
  defines "whole \<equiv> complete_within (k - length hf) cs"
  defines "committed \<equiv> length (journal_bytes hf whole)"
  shows "\<exists>f'. loadRunJournalV1FromDescriptorWithHooks readFile fuel f outp =
    Some (if committed = k then loadResult LO_VALID LE_NONE RH_NONE NONE 0 0 0
          else incompleteTail (of_nat committed) (k - committed),
          \<lparr>lj_header = h, lj_commands = map fst whole, validCommittedByteCount = of_nat committed\<rparr>, f')"
proof -
  have enc: "encodeRunHeaderV1 h = Inr hf" and cs: "next_commands h (length hf) 1 cs"
    and room: "length cs \<le> unat (rh_maxRunCommands h)"
    using j by (auto simp: journal_of_def)
  have "remaining f = hf @ take (k - length hf) (concat (map snd cs))"
    using rem k(1) by (simp add: journal_bytes_def)
  from readHeader_whole [OF hook fuel enc this] obtain f1 where
    hdr: "readHeader readFile fuel f = Some (Inr (h, of_nat (length hf)), f1)"
      "remaining f1 = take (k - length hf) (concat (map snd cs))" "interrupts f1 \<le> interrupts f"
    by blast
  have fuel1: "interrupts f1 < fuel"
    using hdr(3) fuel by simp
  let ?d = "\<lparr>lj_header = h, lj_commands = [], validCommittedByteCount = ucast (of_nat (length hf) :: u32)\<rparr>"
  have count: "validCommittedByteCount ?d = of_nat (length hf)"
    using header_frame(2) [OF enc] by (simp add: ucast_of_nat_u64)
  have len: "committed = length hf + frames_length whole" "k - length hf \<le> frames_length cs"
    using k by (auto simp: committed_def journal_bytes_def frames_length_def)
  from readCommands_prefix [OF hook fuel1 count _ _ hdr(2) len(2), of 1] cs room
  obtain f2 where loop: "readCommands readFile fuel ?d 1 f1 =
    Some (let n = frames_length whole in
          if n = k - length hf then loadResult LO_VALID LE_NONE RH_NONE NONE 0 0 0
          else incompleteTail (of_nat (length hf + n)) (k - length hf - n),
          ?d\<lparr>lj_commands := map fst whole, validCommittedByteCount := of_nat (length hf + frames_length whole)\<rparr>, f2)"
    unfolding whole_def by auto
  have "frames_length whole \<le> k - length hf"
    unfolding whole_def by (rule frames_length_complete)
  then have eq: "frames_length whole = k - length hf \<longleftrightarrow> committed = k" "k - length hf - frames_length whole = k - committed"
    using k(1) len(1) by auto
  show ?thesis
    using hdr(1) loop unfolding eq
    by (simp add: loadRunJournalV1FromDescriptorWithHooks_def readJournal_def Let_def eq len(1) loadResult_def
        incompleteTail_def)
qed

end
