(* ===== verification/Journal_Writer.thy ===== *)
theory Journal_Writer
  imports Journal_Loading
begin

text \<open>
  Appending to a run journal, \<open>core/storage/src/run_journal_writer.cpp\<close>. The file is reached through the
  write and sync hooks, which stand for \<open>write(2)\<close> and \<open>fdatasync(2)\<close> and are parameters. Both loops
  retry interrupted calls, so they take fuel; \<open>None\<close> means that the fuel was too small. Allocation always
  succeeds, so the \<open>ENOMEM\<close> branches do not occur.
\<close>

section \<open>Data\<close>

datatype RunJournalAppendOutcome =
  AO_COMMITTED | AO_INVALID_COMMAND | AO_CAPACITY_REACHED | AO_IO_FAILURE | AO_RECOVERY_REQUIRED

datatype RunJournalAppendError =
    AE_NONE | AE_WRITER_UNUSABLE | AE_UNEXPECTED_COMMAND_SEQUENCE | AE_EXCHANGE_RUN_ID_MISMATCH
  | AE_BEHAVIORAL_RULES_VERSION_MISMATCH | AE_INSTRUMENT_CONFIGURATION_MISMATCH

record RunJournalAppendResult =
  ar_outcome :: RunJournalAppendOutcome
  ar_error :: RunJournalAppendError
  ar_codecError :: JournalCommandCodecError
  ar_systemError :: int

datatype write_reply = Wrote nat | Write_failed int
datatype sync_reply = Synced | Sync_failed int | Sync_unexpected

type_synonym 'f write_hook = "'f \<Rightarrow> u8 list \<Rightarrow> write_reply \<times> 'f"
type_synonym 'f sync_hook = "'f \<Rightarrow> sync_reply \<times> 'f"

record 'f RunJournalWriterV1 =
  w_file :: 'f
  w_header :: RunHeaderV1
  committedCommandCount :: u64
  committedByteCount :: u64
  nextCommandSequence :: CommandSequence
  usable :: bool

definition appendResult ::
  "RunJournalAppendOutcome \<Rightarrow> RunJournalAppendError \<Rightarrow> JournalCommandCodecError \<Rightarrow> int \<Rightarrow> RunJournalAppendResult" where
  "appendResult oc err codecError sysError =
     \<lparr>ar_outcome = oc, ar_error = err, ar_codecError = codecError, ar_systemError = sysError\<rparr>"

definition make_RunJournalWriterV1 :: "'f \<Rightarrow> RunHeaderV1 \<Rightarrow> u64 \<Rightarrow> 'f RunJournalWriterV1" where
  "make_RunJournalWriterV1 f header headerByteCount =
     \<lparr>w_file = f, w_header = header, committedCommandCount = 0, committedByteCount = headerByteCount,
      nextCommandSequence = 1, usable = True\<rparr>"

definition makeRecoveredRunJournalWriterV1 ::
  "'f \<Rightarrow> RunHeaderV1 \<Rightarrow> u64 \<Rightarrow> u64 \<Rightarrow> CommandSequence \<Rightarrow> 'f RunJournalWriterV1" where
  "makeRecoveredRunJournalWriterV1 f header commandCount byteCount nextSequence =
     \<lparr>w_file = f, w_header = header, committedCommandCount = commandCount, committedByteCount = byteCount,
      nextCommandSequence = nextSequence, usable = True\<rparr>"

section \<open>Operations\<close>

definition validateCommandContext ::
  "'f RunJournalWriterV1 \<Rightarrow> ExchangeRunId \<Rightarrow> CommandSequence \<Rightarrow> u32 \<Rightarrow> InstrumentId \<Rightarrow> u32 \<Rightarrow> RunJournalAppendError" where
  "validateCommandContext w runId sequence rulesVersion i version =
     (if sequence \<noteq> nextCommandSequence w then AE_UNEXPECTED_COMMAND_SEQUENCE
      else if runId \<noteq> rh_exchangeRunId (w_header w) then AE_EXCHANGE_RUN_ID_MISMATCH
      else if rulesVersion \<noteq> rh_behavioralRulesVersion (w_header w) then AE_BEHAVIORAL_RULES_VERSION_MISMATCH
      else if \<not> instrument_configured (w_header w) i version then AE_INSTRUMENT_CONFIGURATION_MISMATCH
      else AE_NONE)"

text \<open>The write loop: \<open>Inr\<close> when every byte was written, \<open>Inl\<close> the error number and the bytes written.\<close>

fun writeFrame :: "'f write_hook \<Rightarrow> nat \<Rightarrow> 'f \<Rightarrow> u8 list \<Rightarrow> nat \<Rightarrow> ((int \<times> nat + unit) \<times> 'f) option" where
  "writeFrame writeFile 0 f frame bytesWritten = None"
| "writeFrame writeFile (Suc fuel) f frame bytesWritten =
     (if bytesWritten < length frame then
        (let remaining = length frame - bytesWritten in
         case writeFile f (drop bytesWritten frame) of
           (Wrote n, f) \<Rightarrow>
             if 0 < n \<and> n \<le> remaining then writeFrame writeFile fuel f frame (bytesWritten + n)
             else Some (Inl (EIO, bytesWritten), f)
         | (Write_failed e, f) \<Rightarrow>
             if e = EINTR then writeFrame writeFile fuel f frame bytesWritten
             else Some (Inl (e, bytesWritten), f))
      else Some (Inr (), f))"

fun syncLoop :: "'f sync_hook \<Rightarrow> nat \<Rightarrow> 'f \<Rightarrow> ((int + unit) \<times> 'f) option" where
  "syncLoop syncFile 0 f = None"
| "syncLoop syncFile (Suc fuel) f =
     (case syncFile f of
        (Synced, f) \<Rightarrow> Some (Inr (), f)
      | (Sync_failed e, f) \<Rightarrow> if e = EINTR then syncLoop syncFile fuel f else Some (Inl e, f)
      | (Sync_unexpected, f) \<Rightarrow> Some (Inl EIO, f))"

definition appendEncoded ::
  "'f write_hook \<Rightarrow> 'f sync_hook \<Rightarrow> nat \<Rightarrow> 'f RunJournalWriterV1 \<Rightarrow> u8 list \<Rightarrow>
     (RunJournalAppendResult \<times> 'f RunJournalWriterV1) option" where
  "appendEncoded writeFile syncFile fuel w frame =
     (if committedCommandCount w \<ge> rh_maxRunCommands (w_header w)
      then Some (appendResult AO_CAPACITY_REACHED AE_NONE NONE 0, w)
      else if length frame > unat (rh_maxRunJournalBytes (w_header w) - committedByteCount w)
      then Some (appendResult AO_CAPACITY_REACHED AE_NONE NONE 0, w)
      else
      Option.bind (writeFrame writeFile fuel (w_file w) frame 0) (\<lambda>(written, f).
      case written of
        Inl (sysError, bytesWritten) \<Rightarrow>
          Some (appendResult (if bytesWritten = 0 then AO_IO_FAILURE else AO_RECOVERY_REQUIRED) AE_NONE NONE sysError,
                w\<lparr>w_file := f, usable := False\<rparr>)
      | Inr _ \<Rightarrow>
          Option.bind (syncLoop syncFile fuel f) (\<lambda>(synced, f).
          case synced of
            Inl sysError \<Rightarrow>
              Some (appendResult AO_RECOVERY_REQUIRED AE_NONE NONE sysError, w\<lparr>w_file := f, usable := False\<rparr>)
          | Inr _ \<Rightarrow>
              Some (appendResult AO_COMMITTED AE_NONE NONE 0,
                    w\<lparr>w_file := f, committedCommandCount := committedCommandCount w + 1,
                      committedByteCount := committedByteCount w + of_nat (length frame),
                      nextCommandSequence := nextCommandSequence w + 1\<rparr>))))"

definition append_new_order ::
  "'f write_hook \<Rightarrow> 'f sync_hook \<Rightarrow> nat \<Rightarrow> 'f RunJournalWriterV1 \<Rightarrow> JournalNewOrderV1 \<Rightarrow>
     (RunJournalAppendResult \<times> 'f RunJournalWriterV1) option" where
  "append_new_order writeFile syncFile fuel w command =
     (if \<not> usable w then Some (appendResult AO_RECOVERY_REQUIRED AE_WRITER_UNUSABLE NONE 0, w)
      else
      let contextError = validateCommandContext w (jn_exchangeRunId command) (jn_commandSequence command)
            (jn_behavioralRulesVersion command) (jn_instrumentId command) (jn_configurationVersion command) in
      if contextError \<noteq> AE_NONE then Some (appendResult AO_INVALID_COMMAND contextError NONE 0, w)
      else
      case encodeNewOrderV1 command of
        Inl codecError \<Rightarrow> Some (appendResult AO_INVALID_COMMAND AE_NONE codecError 0, w)
      | Inr frame \<Rightarrow> appendEncoded writeFile syncFile fuel w frame)"

definition append_cancel ::
  "'f write_hook \<Rightarrow> 'f sync_hook \<Rightarrow> nat \<Rightarrow> 'f RunJournalWriterV1 \<Rightarrow> JournalCancelV1 \<Rightarrow>
     (RunJournalAppendResult \<times> 'f RunJournalWriterV1) option" where
  "append_cancel writeFile syncFile fuel w command =
     (if \<not> usable w then Some (appendResult AO_RECOVERY_REQUIRED AE_WRITER_UNUSABLE NONE 0, w)
      else
      let contextError = validateCommandContext w (jc_exchangeRunId command) (jc_commandSequence command)
            (jc_behavioralRulesVersion command) (jc_instrumentId command) (jc_configurationVersion command) in
      if contextError \<noteq> AE_NONE then Some (appendResult AO_INVALID_COMMAND contextError NONE 0, w)
      else
      case encodeCancelV1 command of
        Inl codecError \<Rightarrow> Some (appendResult AO_INVALID_COMMAND AE_NONE codecError 0, w)
      | Inr frame \<Rightarrow> appendEncoded writeFile syncFile fuel w frame)"

definition prospectiveFrameSize_new_order :: "'f RunJournalWriterV1 \<Rightarrow> JournalNewOrderV1 \<Rightarrow> nat option" where
  "prospectiveFrameSize_new_order w command =
     (if \<not> usable w \<or>
         validateCommandContext w (jn_exchangeRunId command) (jn_commandSequence command)
            (jn_behavioralRulesVersion command) (jn_instrumentId command) (jn_configurationVersion command) \<noteq> AE_NONE
      then None
      else case encodeNewOrderV1 command of Inl _ \<Rightarrow> None | Inr frame \<Rightarrow> Some (length frame))"

definition prospectiveFrameSize_cancel :: "'f RunJournalWriterV1 \<Rightarrow> JournalCancelV1 \<Rightarrow> nat option" where
  "prospectiveFrameSize_cancel w command =
     (if \<not> usable w \<or>
         validateCommandContext w (jc_exchangeRunId command) (jc_commandSequence command)
            (jc_behavioralRulesVersion command) (jc_instrumentId command) (jc_configurationVersion command) \<noteq> AE_NONE
      then None
      else case encodeCancelV1 command of Inl _ \<Rightarrow> None | Inr frame \<Rightarrow> Some (length frame))"

text \<open>The overloaded \<open>append\<close> on the variant of commands.\<close>

definition append_command ::
  "'f write_hook \<Rightarrow> 'f sync_hook \<Rightarrow> nat \<Rightarrow> 'f RunJournalWriterV1 \<Rightarrow> JournalCommandV1 \<Rightarrow>
     (RunJournalAppendResult \<times> 'f RunJournalWriterV1) option" where
  "append_command writeFile syncFile fuel w c =
     (case c of
        JournalNewOrder n \<Rightarrow> append_new_order writeFile syncFile fuel w n
      | JournalCancel x \<Rightarrow> append_cancel writeFile syncFile fuel w x)"

section \<open>The hooks\<close>

text \<open>An append-mode file: a write stores a prefix of the bytes or fails without storing any, a sync changes
  nothing, and both are interrupted a bounded number of times. Any call may fail.\<close>

definition posix_append :: "('f \<Rightarrow> u8 list) \<Rightarrow> ('f \<Rightarrow> nat) \<Rightarrow> 'f write_hook \<Rightarrow> 'f sync_hook \<Rightarrow> bool" where
  "posix_append contents interrupts writeFile syncFile \<longleftrightarrow>
     (\<forall>f bs. bs \<noteq> [] \<longrightarrow>
        (case writeFile f bs of
           (Wrote n, f') \<Rightarrow> n \<le> length bs \<and> contents f' = contents f @ take n bs \<and> interrupts f' \<le> interrupts f
         | (Write_failed e, f') \<Rightarrow>
             contents f' = contents f \<and> (if e = EINTR then interrupts f' < interrupts f else interrupts f' \<le> interrupts f))) \<and>
     (\<forall>f. case syncFile f of
        (reply, f') \<Rightarrow>
          contents f' = contents f \<and>
          (if reply = Sync_failed EINTR then interrupts f' < interrupts f else interrupts f' \<le> interrupts f))"

lemma writeFrame_spec:
  assumes hook: "posix_append contents interrupts writeFile syncFile"
    and "interrupts f + (length frame - k) < fuel" and "k \<le> length frame" and "contents f = base @ take k frame"
  shows "\<exists>r f'. writeFrame writeFile fuel f frame k = Some (r, f') \<and> interrupts f' \<le> interrupts f \<and>
    (case r of
       Inr _ \<Rightarrow> contents f' = base @ frame
     | Inl (e, n) \<Rightarrow> n \<le> length frame \<and> contents f' = base @ take n frame)"
  using assms(2-)
proof (induction fuel arbitrary: f k)
  case (Suc fuel)
  show ?case
  proof (cases "k < length frame")
    case False
    then show ?thesis
      using Suc.prems by simp
  next
    case True
    obtain reply f1 where reply: "writeFile f (drop k frame) = (reply, f1)"
      by (cases "writeFile f (drop k frame)")
    have "drop k frame \<noteq> []"
      using True by simp
    note step = conjunct1 [OF hook [unfolded posix_append_def], rule_format, OF this, of f, unfolded reply]
    show ?thesis
    proof (cases reply)
      case (Wrote n)
      then have n: "n \<le> length frame - k" "contents f1 = base @ take (k + n) frame" "interrupts f1 \<le> interrupts f"
        using step Suc.prems(3) by (auto simp: take_add)
      show ?thesis
      proof (cases "n = 0")
        case True
        then show ?thesis
          using n \<open>k < length frame\<close> Suc.prems(2) by (auto simp: reply Wrote)
      next
        case False
        then have "interrupts f1 + (length frame - (k + n)) < fuel" "k + n \<le> length frame"
          using n Suc.prems(1,2) \<open>k < length frame\<close> by auto
        from Suc.IH [OF this n(2)] n(1,3) False \<open>k < length frame\<close> show ?thesis
          by (fastforce simp: reply Wrote)
      qed
    next
      case (Write_failed e)
      then have f1: "contents f1 = base @ take k frame" "interrupts f1 \<le> interrupts f"
        "e = EINTR \<Longrightarrow> interrupts f1 < interrupts f"
        using step Suc.prems(3) by (auto split: if_splits)
      show ?thesis
      proof (cases "e = EINTR")
        case True
        then have "interrupts f1 + (length frame - k) < fuel"
          using f1(3) Suc.prems(1) by simp
        from Suc.IH [OF this Suc.prems(2) f1(1)] f1(2) True \<open>k < length frame\<close> show ?thesis
          by (fastforce simp: reply Write_failed)
      next
        case False
        then show ?thesis
          using f1 Suc.prems(2) \<open>k < length frame\<close> by (auto simp: reply Write_failed)
      qed
    qed
  qed
qed simp

lemma syncLoop_spec:
  assumes hook: "posix_append contents interrupts writeFile syncFile" and "interrupts f < fuel"
  shows "\<exists>r f'. syncLoop syncFile fuel f = Some (r, f') \<and> contents f' = contents f \<and> interrupts f' \<le> interrupts f"
  using assms(2)
proof (induction fuel arbitrary: f)
  case (Suc fuel)
  obtain reply f1 where reply: "syncFile f = (reply, f1)"
    by (cases "syncFile f")
  note step = conjunct2 [OF hook [unfolded posix_append_def], rule_format, of f, unfolded reply]
  show ?case
  proof (cases "reply = Sync_failed EINTR")
    case True
    then have "interrupts f1 < fuel" "contents f1 = contents f" "interrupts f1 \<le> interrupts f"
      using step Suc.prems by auto
    then show ?thesis
      using Suc.IH [of f1] True by (auto simp: reply)
  next
    case False
    then show ?thesis
      using step by (cases reply) (auto simp: reply)
  qed
qed simp

end
