(* ===== verification/Journal_Durability.thy ===== *)
theory Journal_Durability
  imports Journal_Writer
begin

text \<open>
  What the writer leaves in the file, and what the reader makes of it. Whatever writes and syncs fail, the
  file is a journal of the committed commands, followed by at most a part of the frame of the command
  at which the writer became unusable.
\<close>

section \<open>Appending one command\<close>

definition command_context :: "'f RunJournalWriterV1 \<Rightarrow> JournalCommandV1 \<Rightarrow> RunJournalAppendError" where
  "command_context w c =
     (case c of
        JournalNewOrder n \<Rightarrow> validateCommandContext w (jn_exchangeRunId n) (jn_commandSequence n)
            (jn_behavioralRulesVersion n) (jn_instrumentId n) (jn_configurationVersion n)
      | JournalCancel x \<Rightarrow> validateCommandContext w (jc_exchangeRunId x) (jc_commandSequence x)
            (jc_behavioralRulesVersion x) (jc_instrumentId x) (jc_configurationVersion x))"

lemma append_command_cases:
  "append_command writeFile syncFile fuel w c =
     (if \<not> usable w then Some (appendResult AO_RECOVERY_REQUIRED AE_WRITER_UNUSABLE NONE 0, w)
      else if command_context w c \<noteq> AE_NONE
      then Some (appendResult AO_INVALID_COMMAND (command_context w c) NONE 0, w)
      else case encodeCommand c of
             Inl codecError \<Rightarrow> Some (appendResult AO_INVALID_COMMAND AE_NONE codecError 0, w)
           | Inr frame \<Rightarrow> appendEncoded writeFile syncFile fuel w frame)"
  by (simp add: append_command_def append_new_order_def append_cancel_def command_context_def encodeCommand_def
      Let_def split: JournalCommandV1.splits)

lemma command_context_NONE:
  "command_context w c = AE_NONE \<Longrightarrow>
     command_sequence c = nextCommandSequence w \<and> command_run c = rh_exchangeRunId (w_header w) \<and>
     command_configured (w_header w) c"
  by (auto simp: command_context_def validateCommandContext_def command_sequence_def command_run_def
      command_configured_def split: JournalCommandV1.splits if_splits)

definition writer_inv ::
  "('f \<Rightarrow> u8 list) \<Rightarrow> RunHeaderV1 \<Rightarrow> u8 list \<Rightarrow> (JournalCommandV1 \<times> u8 list) list \<Rightarrow> 'f RunJournalWriterV1 \<Rightarrow> bool" where
  "writer_inv contents h hf cs w \<longleftrightarrow>
     journal_of h hf cs \<and> w_header w = h \<and> usable w \<and> contents (w_file w) = journal_bytes hf cs \<and>
     committedCommandCount w = of_nat (length cs) \<and>
     committedByteCount w = of_nat (length (journal_bytes hf cs)) \<and>
     length (journal_bytes hf cs) \<le> unat (rh_maxRunJournalBytes h) \<and>
     nextCommandSequence w = of_nat (length cs) + 1"

definition torn_inv ::
  "('f \<Rightarrow> u8 list) \<Rightarrow> RunHeaderV1 \<Rightarrow> u8 list \<Rightarrow> (JournalCommandV1 \<times> u8 list) list \<Rightarrow> JournalCommandV1 \<Rightarrow>
     'f RunJournalWriterV1 \<Rightarrow> bool" where
  "torn_inv contents h hf cs c w \<longleftrightarrow>
     \<not> usable w \<and> committedByteCount w = of_nat (length (journal_bytes hf cs)) \<and>
     length (journal_bytes hf cs) \<le> unat (rh_maxRunJournalBytes h) \<and>
     (\<exists>frame n. journal_of h hf (cs @ [(c, frame)]) \<and> n \<le> length frame \<and>
        contents (w_file w) = journal_bytes hf cs @ take n frame)"

lemma next_commands_snoc:
  "next_commands h committed expected (cs @ [(c, frame)]) \<longleftrightarrow>
     next_commands h committed expected cs \<and>
     next_command h (committed + frames_length cs) (expected + of_nat (length cs)) c frame"
  by (induction h committed expected cs rule: next_commands.induct) (auto simp: add.assoc)

lemma journal_bytes_snoc: "journal_bytes hf (cs @ [(c, frame)]) = journal_bytes hf cs @ frame"
  by (simp add: journal_bytes_def)

lemma length_journal_bytes: "length (journal_bytes hf cs) = length hf + frames_length cs"
  by (simp add: journal_bytes_def frames_length_def)

lemma fresh_writer_inv:
  assumes "encodeRunHeaderV1 h = Inr hf" and "contents f = hf"
  shows "writer_inv contents h hf [] (make_RunJournalWriterV1 f h (of_nat (length hf)))"
  using assms header_fits [OF assms(1)]
  by (simp add: writer_inv_def make_RunJournalWriterV1_def journal_of_def journal_bytes_def)

text \<open>The capacity checks of the writer are exact on the numbers they stand for.\<close>

lemma capacity_checks:
  assumes inv: "writer_inv contents h hf cs w"
  shows "committedCommandCount w \<ge> rh_maxRunCommands h \<longleftrightarrow> length cs \<ge> unat (rh_maxRunCommands h)"
    and "unat (rh_maxRunJournalBytes h - committedByteCount w) =
      unat (rh_maxRunJournalBytes h) - length (journal_bytes hf cs)"
proof -
  have "length cs \<le> unat (rh_maxRunCommands h)"
    using inv by (auto simp: writer_inv_def journal_of_def)
  also have "\<dots> < 2 ^ 64"
    using unsigned_less [of "rh_maxRunCommands h", where 'a = nat] by simp
  finally have "unat (of_nat (length cs) :: u64) = length cs"
    by (simp add: unat_of_nat)
  then show "committedCommandCount w \<ge> rh_maxRunCommands h \<longleftrightarrow> length cs \<ge> unat (rh_maxRunCommands h)"
    using inv by (simp add: writer_inv_def word_le_nat_alt)
  have "length (journal_bytes hf cs) < 2 ^ 64"
    using inv unsigned_less [of "rh_maxRunJournalBytes h", where 'a = nat] by (simp add: writer_inv_def)
  then have "unat (committedByteCount w) = length (journal_bytes hf cs)"
    using inv by (simp add: writer_inv_def unat_of_nat)
  moreover have "committedByteCount w \<le> rh_maxRunJournalBytes h"
    using inv calculation by (simp add: writer_inv_def word_le_nat_alt)
  ultimately show "unat (rh_maxRunJournalBytes h - committedByteCount w) =
      unat (rh_maxRunJournalBytes h) - length (journal_bytes hf cs)"
    by (simp add: unat_sub)
qed

lemma extend_journal:
  assumes inv: "writer_inv contents h hf cs w" and "command_context w c = AE_NONE"
    and "encodeCommand c = Inr frame" and "valid_ClientCommandId (command_ccid c)"
    and "length cs < unat (rh_maxRunCommands h)"
    and "length (journal_bytes hf cs) + length frame \<le> unat (rh_maxRunJournalBytes h)"
  shows "journal_of h hf (cs @ [(c, frame)])" and "length frame \<le> 143"
proof -
  have "next_command h (length hf + frames_length cs) (1 + of_nat (length cs)) c frame"
    using command_context_NONE [OF assms(2)] inv assms(3,4,6)
    by (simp add: next_command_def writer_inv_def length_journal_bytes add.commute)
  then show "journal_of h hf (cs @ [(c, frame)])" "length frame \<le> 143"
    using inv assms(5) next_command_frame
    by (fastforce simp: writer_inv_def journal_of_def next_commands_snoc)+
qed

lemma append_correct:
  assumes hook: "posix_append contents interrupts writeFile syncFile"
    and fuel: "interrupts (w_file w) + 143 < fuel"
    and inv: "writer_inv contents h hf cs w" and ccid: "valid_ClientCommandId (command_ccid c)"
  shows "\<exists>res w'. append_command writeFile syncFile fuel w c = Some (res, w') \<and>
    interrupts (w_file w') \<le> interrupts (w_file w) \<and>
    (case ar_outcome res of
       AO_COMMITTED \<Rightarrow> \<exists>frame. writer_inv contents h hf (cs @ [(c, frame)]) w'
     | AO_INVALID_COMMAND \<Rightarrow> w' = w
     | AO_CAPACITY_REACHED \<Rightarrow> w' = w
     | _ \<Rightarrow> torn_inv contents h hf cs c w')"
proof -
  note w = inv [unfolded writer_inv_def]
  note app = append_command_cases [of writeFile syncFile fuel w c]
  show ?thesis
  proof (cases "command_context w c = AE_NONE \<and> (\<exists>frame. encodeCommand c = Inr frame \<and>
      length cs < unat (rh_maxRunCommands h) \<and>
      length frame \<le> unat (rh_maxRunJournalBytes h) - length (journal_bytes hf cs))")
    case False
    then show ?thesis
      using w capacity_checks [OF inv]
      by (auto simp: app appendEncoded_def appendResult_def not_less split: sum.splits)
  next
    case True
    then obtain frame where frame: "encodeCommand c = Inr frame" "command_context w c = AE_NONE"
      "length cs < unat (rh_maxRunCommands h)"
      "length frame \<le> unat (rh_maxRunJournalBytes h) - length (journal_bytes hf cs)"
      by blast
    have "length (journal_bytes hf cs) \<le> unat (rh_maxRunJournalBytes h)"
      using w by blast
    then have fits: "length (journal_bytes hf cs) + length frame \<le> unat (rh_maxRunJournalBytes h)"
      using frame(4) by linarith
    note ext = extend_journal [OF inv frame(2,1) ccid frame(3) fits]
    have enc: "append_command writeFile syncFile fuel w c =
      Option.bind (writeFrame writeFile fuel (w_file w) frame 0) (\<lambda>(written, f).
      case written of
        Inl (sysError, bytesWritten) \<Rightarrow>
          Some (appendResult (if bytesWritten = 0 then AO_IO_FAILURE else AO_RECOVERY_REQUIRED) AE_NONE NONE sysError,
                w\<lparr>w_file := f, usable := False\<rparr>)
      | Inr _ \<Rightarrow>
          Option.bind (syncLoop syncFile fuel f) (\<lambda>(synced, f).
          case synced of
            Inl sysError \<Rightarrow>
              Some (appendResult AO_RECOVERY_REQUIRED AE_NONE NONE sysError, w\<lparr>w_file := f, usable := False\<rparr>)
          | Inr _ \<Rightarrow>
              Some (appendResult AO_COMMITTED AE_NONE NONE 0,
                    w\<lparr>w_file := f, committedCommandCount := committedCommandCount w + 1,
                      committedByteCount := committedByteCount w + of_nat (length frame),
                      nextCommandSequence := nextCommandSequence w + 1\<rparr>)))"
      using w frame capacity_checks [OF inv] by (simp add: app appendEncoded_def)
    have "interrupts (w_file w) + (length frame - 0) < fuel" "contents (w_file w) = journal_bytes hf cs @ take 0 frame"
      using fuel ext(2) w by auto
    from writeFrame_spec [OF hook this(1) _ this(2)] obtain r f1 where
      wr: "writeFrame writeFile fuel (w_file w) frame 0 = Some (r, f1)" "interrupts f1 \<le> interrupts (w_file w)"
        "case r of Inr _ \<Rightarrow> contents f1 = journal_bytes hf cs @ frame
         | Inl (e, n) \<Rightarrow> n \<le> length frame \<and> contents f1 = journal_bytes hf cs @ take n frame"
      by auto
    show ?thesis
    proof (cases r)
      case (Inl en)
      then show ?thesis
        using wr ext(1) w by (cases en) (auto simp: enc appendResult_def torn_inv_def)
    next
      case (Inr u)
      have "interrupts f1 < fuel"
        using wr(2) fuel by simp
      from syncLoop_spec [OF hook this] obtain s f2 where
        sy: "syncLoop syncFile fuel f1 = Some (s, f2)" "contents f2 = journal_bytes hf cs @ frame"
          "interrupts f2 \<le> interrupts f1"
        using wr(3) Inr by auto
      show ?thesis
      proof (cases s)
        case s: (Inl e)
        have "torn_inv contents h hf cs c (w\<lparr>w_file := f2, usable := False\<rparr>)"
          using sy(2) ext(1) w by (auto simp: torn_inv_def intro!: exI [of _ frame] exI [of _ "length frame"])
        then show ?thesis
          using wr sy Inr s by (auto simp: enc appendResult_def)
      next
        case s: (Inr _)
        let ?w' = "w\<lparr>w_file := f2, committedCommandCount := committedCommandCount w + 1,
                      committedByteCount := committedByteCount w + of_nat (length frame),
                      nextCommandSequence := nextCommandSequence w + 1\<rparr>"
        have "writer_inv contents h hf (cs @ [(c, frame)]) ?w'"
          using w ext(1) sy(2) fits by (simp add: writer_inv_def journal_bytes_snoc)
        then show ?thesis
          using wr sy Inr s by (auto simp: enc appendResult_def)
      qed
    qed
  qed
qed

section \<open>Sequences of appends\<close>

text \<open>The outcome of each append and the final writer.\<close>

fun writer_run ::
  "'f write_hook \<Rightarrow> 'f sync_hook \<Rightarrow> nat \<Rightarrow> 'f RunJournalWriterV1 \<Rightarrow> JournalCommandV1 list \<Rightarrow>
     (RunJournalAppendOutcome list \<times> 'f RunJournalWriterV1) option" where
  "writer_run writeFile syncFile fuel w [] = Some ([], w)"
| "writer_run writeFile syncFile fuel w (c # cs) =
     Option.bind (append_command writeFile syncFile fuel w c) (\<lambda>(res, w).
       Option.bind (writer_run writeFile syncFile fuel w cs) (\<lambda>(outcomes, w). Some (ar_outcome res # outcomes, w)))"

definition committed_of :: "RunJournalAppendOutcome list \<Rightarrow> JournalCommandV1 list \<Rightarrow> JournalCommandV1 list" where
  "committed_of outcomes cs = map snd (filter (\<lambda>(oc, _). oc = AO_COMMITTED) (zip outcomes cs))"

lemma committed_of_simps [simp]:
  "committed_of [] cs = []"
  "committed_of (oc # outcomes) (c # cs) = (if oc = AO_COMMITTED then [c] else []) @ committed_of outcomes cs"
  by (simp_all add: committed_of_def)

lemma torn_run:
  "\<not> usable w \<Longrightarrow> \<exists>outcomes. writer_run writeFile syncFile fuel w cs = Some (outcomes, w) \<and> committed_of outcomes cs = []"
proof (induction cs)
  case (Cons c cs)
  then show ?case
    by (auto simp: append_command_cases appendResult_def)
qed simp

lemma writer_run_correct:
  assumes hook: "posix_append contents interrupts writeFile syncFile"
    and "interrupts (w_file w) + 143 < fuel"
    and "writer_inv contents h hf cs w" and "\<forall>c \<in> set new. valid_ClientCommandId (command_ccid c)"
  shows "\<exists>outcomes w' cs'. writer_run writeFile syncFile fuel w new = Some (outcomes, w') \<and>
    map fst cs' = map fst cs @ committed_of outcomes new \<and>
    (writer_inv contents h hf cs' w' \<or> (\<exists>c \<in> set new. torn_inv contents h hf cs' c w'))"
  using assms(2-)
proof (induction new arbitrary: w cs)
  case (Cons c new)
  have ccid: "valid_ClientCommandId (command_ccid c)"
    using Cons.prems(3) by simp
  from append_correct [OF hook Cons.prems(1,2) ccid] obtain res w1 where
    app: "append_command writeFile syncFile fuel w c = Some (res, w1)" "interrupts (w_file w1) \<le> interrupts (w_file w)"
      "case ar_outcome res of
         AO_COMMITTED \<Rightarrow> \<exists>frame. writer_inv contents h hf (cs @ [(c, frame)]) w1
       | AO_INVALID_COMMAND \<Rightarrow> w1 = w
       | AO_CAPACITY_REACHED \<Rightarrow> w1 = w
       | _ \<Rightarrow> torn_inv contents h hf cs c w1"
    by blast
  show ?case
  proof (cases "torn_inv contents h hf cs c w1 \<and> ar_outcome res \<noteq> AO_COMMITTED")
    case True
    from torn_run [of w1 writeFile syncFile fuel new] obtain outcomes where
      rest: "writer_run writeFile syncFile fuel w1 new = Some (outcomes, w1)" "committed_of outcomes new = []"
      using True by (auto simp: torn_inv_def)
    show ?thesis
      by (rule exI [of _ "ar_outcome res # outcomes"], rule exI [of _ w1], rule exI [of _ cs])
        (use True rest app(1) in simp)
  next
    case False
    then obtain cs1 where cs1: "writer_inv contents h hf cs1 w1"
      "map fst cs1 = map fst cs @ committed_of [ar_outcome res] [c]"
      using app(3) Cons.prems(2)
      by (cases "ar_outcome res") (fastforce intro: exI [of _ "cs @ [(c, _)]"])+
    have "interrupts (w_file w1) + 143 < fuel" "\<forall>c \<in> set new. valid_ClientCommandId (command_ccid c)"
      using app(2) Cons.prems(1,3) by auto
    from Cons.IH [OF this(1) cs1(1) this(2)] obtain outcomes w' cs' where
      "writer_run writeFile syncFile fuel w1 new = Some (outcomes, w')"
      "map fst cs' = map fst cs1 @ committed_of outcomes new"
      "writer_inv contents h hf cs' w' \<or> (\<exists>c \<in> set new. torn_inv contents h hf cs' c w')"
      by blast
    then show ?thesis
      using app(1) cs1(2)
      by (intro exI [of _ "ar_outcome res # outcomes"] exI [of _ w'] exI [of _ cs']) auto
  qed
qed auto

section \<open>Loading what was written\<close>

lemma complete_within_all: "frames_length cs \<le> k \<Longrightarrow> complete_within k cs = cs"
  by (induction k cs rule: complete_within.induct) auto

lemma complete_within_snoc:
  "frames_length cs \<le> k \<Longrightarrow>
     complete_within k (cs @ [(c, frame)]) = cs @ (if frames_length cs + length frame \<le> k then [(c, frame)] else [])"
  by (induction k cs rule: complete_within.induct) auto

text \<open>A crash may lose bytes that were not synced, so the file that is loaded is any prefix of the
  written one that includes the committed bytes.\<close>

lemma load_written:
  assumes hook: "posix_read remaining interrupts readFile" and fuel: "interrupts g < fuel"
    and rem: "remaining g = take k (contents (w_file w))"
    and k: "unat (committedByteCount w) \<le> k" "k \<le> length (contents (w_file w))"
    and w: "writer_inv contents h hf cs w \<or> torn_inv contents h hf cs c w"
  shows "\<exists>res loaded g'. loadRunJournalV1FromDescriptorWithHooks readFile fuel g outp = Some (res, loaded, g') \<and>
    (lr_outcome res = LO_VALID \<or> lr_outcome res = LO_INCOMPLETE_TAIL) \<and> lj_header loaded = h \<and>
    (lj_commands loaded = map fst cs \<or> lj_commands loaded = map fst cs @ [c])"
proof -
  have "length (journal_bytes hf cs) < 2 ^ 64"
    using w unsigned_less [of "rh_maxRunJournalBytes h", where 'a = nat] by (auto simp: writer_inv_def torn_inv_def)
  then have committed: "length (journal_bytes hf cs) \<le> k"
    using w k(1) by (auto simp: writer_inv_def torn_inv_def unat_of_nat)
  obtain cs' where cs': "journal_of h hf cs'" "remaining g = take k (journal_bytes hf cs')"
    "k \<le> length (journal_bytes hf cs')" "cs' = cs \<or> (\<exists>frame. cs' = cs @ [(c, frame)])"
    using w
  proof
    assume "writer_inv contents h hf cs w"
    then show thesis
      using that [of cs] rem k(2) by (simp add: writer_inv_def)
  next
    assume "torn_inv contents h hf cs c w"
    then obtain frame n where t: "journal_of h hf (cs @ [(c, frame)])" "n \<le> length frame"
      "contents (w_file w) = journal_bytes hf cs @ take n frame"
      by (auto simp: torn_inv_def)
    have "take k (contents (w_file w)) = take k (journal_bytes hf (cs @ [(c, frame)]))"
      using t k(2) by (auto simp: journal_bytes_snoc min_def split: if_splits)
    then show thesis
      using that [of "cs @ [(c, frame)]"] t rem k(2) by (auto simp: journal_bytes_snoc)
  qed
  have hf: "length hf \<le> k" "frames_length cs \<le> k - length hf"
    using committed by (auto simp: length_journal_bytes)
  have "map fst (complete_within (k - length hf) cs') \<in> {map fst cs, map fst cs @ [c]}"
    using cs'(4) complete_within_all [OF hf(2)] complete_within_snoc [OF hf(2)] by auto
  then show ?thesis
    using load_prefix [OF hook fuel cs'(1,2) hf(1) cs'(3), of outp]
    by (auto simp: loadResult_def incompleteTail_def)
qed

end
