(* ===== verification/Journal_Soundness.thy ===== *)
theory Journal_Soundness
  imports Journal_Loading
begin

text \<open>
  Loading an arbitrary file: the reader always returns, and what it accepts is exactly a journal of the
  commands it returns.
\<close>

section \<open>The reader returns\<close>

lemma readFrame_total:
  assumes "posix_read remaining interrupts readFile" and "interrupts f < fuel"
  shows "\<exists>r f'. readFrame readFile fuel d expected envelope f = Some (r, f') \<and> interrupts f' \<le> interrupts f"
proof (cases "validateJournalV1CommandEnvelope envelope 0 False")
  case (Inr env)
  show ?thesis
    using readExact_spec [OF assms, of "unat (env_totalLength env) - 36"]
    by (auto simp: readFrame_def Inr Let_def layout split: sum.splits)
qed (simp add: readFrame_def)

lemma readCommand_total:
  assumes "posix_read remaining interrupts readFile" and "interrupts f < fuel"
  shows "\<exists>r f'. readCommand readFile fuel d expected f = Some (r, f') \<and> interrupts f' \<le> interrupts f"
proof -
  consider "remaining f = []" | "remaining f \<noteq> []" "length (lj_commands d) < unat (rh_maxRunCommands (lj_header d))"
    | "remaining f \<noteq> []" "\<not> length (lj_commands d) < unat (rh_maxRunCommands (lj_header d))"
    by blast
  then show ?thesis
  proof cases
    case 2
    from readCommand_envelope [OF assms 2, of expected] obtain f1 where
      "readCommand readFile fuel d expected f =
        (if length (remaining f) < 36
         then (if exceedsCapacity (validCommittedByteCount d) (length (remaining f)) (rh_maxRunJournalBytes (lj_header d))
             then Some (Inl (corruption LE_FILE_BYTE_CAPACITY_EXCEEDED), f1)
             else Some (Inl (incompleteTail (validCommittedByteCount d) (length (remaining f))), f1))
         else readFrame readFile fuel d expected (take 36 (remaining f)) f1)" "interrupts f1 \<le> interrupts f"
      by blast
    moreover from this(2) have "\<exists>r f'. readFrame readFile fuel d expected (take 36 (remaining f)) f1 = Some (r, f') \<and>
        interrupts f' \<le> interrupts f1"
      by (intro readFrame_total [OF assms(1)]) (use assms(2) in simp)
    ultimately show ?thesis
      by (auto intro: le_trans)
  qed (use readSome_spec [OF assms(1) _ assms(2), of 36] in \<open>auto simp: readCommand_def layout\<close>)
qed

lemma readCommands_total:
  assumes hook: "posix_read remaining interrupts readFile" and "interrupts f < fuel"
  shows "\<exists>res d' f'. readCommands readFile fuel d expected f = Some (res, d', f')"
  using assms(2)
proof (induction "unat (rh_maxRunCommands (lj_header d)) - length (lj_commands d)" arbitrary: d expected f
    rule: less_induct)
  case less
  from readCommand_total [OF hook less.prems, of d expected] obtain r f1 where
    cmd: "readCommand readFile fuel d expected f = Some (r, f1)" "interrupts f1 \<le> interrupts f"
    by blast
  show ?case
  proof (cases r)
    case (Inl res)
    then show ?thesis
      using cmd by (simp add: readCommands.simps [of readFile fuel d])
  next
    case (Inr ct)
    obtain c t where ct: "ct = (c, t)" by (cases ct)
    let ?d = "d\<lparr>lj_commands := lj_commands d @ [c], validCommittedByteCount := validCommittedByteCount d + ucast t\<rparr>"
    have "length (lj_commands d) < unat (rh_maxRunCommands (lj_header d))"
      by (rule readCommand_room [OF cmd(1) [unfolded Inr]])
    then have "\<exists>res d' f'. readCommands readFile fuel ?d (expected + 1) f1 = Some (res, d', f')"
      by (intro less.hyps) (use cmd(2) less.prems in auto)
    then show ?thesis
      using cmd Inr ct by (simp add: readCommands.simps [of readFile fuel d])
  qed
qed

lemma readHeader_total:
  assumes "posix_read remaining interrupts readFile" and "interrupts f < fuel"
  shows "\<exists>r f'. readHeader readFile fuel f = Some (r, f') \<and> interrupts f' \<le> interrupts f"
proof -
  from readExact_spec [OF assms, of 36] obtain f1 where
    e1: "readExact readFile fuel f 36 = Some (\<lparr>rr_bytes = take 36 (remaining f), rr_systemError = 0\<rparr>, f1)"
      "interrupts f1 \<le> interrupts f"
    by blast
  have "interrupts f1 < fuel"
    using e1(2) assms(2) by simp
  from readExact_spec [OF assms(1) this, of "unat (readUint32LittleEndian (take 36 (remaining f)) 8) - 36"]
  obtain f2 where
    "readExact readFile fuel f1 (unat (readUint32LittleEndian (take 36 (remaining f)) 8) - 36) =
      Some (\<lparr>rr_bytes = take (unat (readUint32LittleEndian (take 36 (remaining f)) 8) - 36) (remaining f1),
        rr_systemError = 0\<rparr>, f2)" "interrupts f2 \<le> interrupts f1"
    by blast
  then show ?thesis
    using e1 by (auto simp: readHeader_def layout Let_def split: sum.splits)
qed

section \<open>What is accepted is a journal\<close>

lemma decodeCommand_Inr:
  assumes "decodeCommand h t frame = Inr c"
  shows "encodeCommand c = Inr frame" and "valid_ClientCommandId (command_ccid c)" and "command_configured h c"
  using assms new_order_codec.encode_decode cancel_codec.encode_decode
  by (auto simp: decodeCommand_def validateCommandConfiguration_def Let_def encodeCommand_def command_ccid_def
      command_configured_def split: if_splits sum.splits)

lemma not_exceedsCapacity:
  assumes "\<not> exceedsCapacity (of_nat committed) n maxBytes" and "committed < 2 ^ 64"
  shows "committed + n \<le> unat maxBytes"
proof -
  have "unat (of_nat committed :: u64) = committed"
    using assms(2) by (simp add: unat_of_nat)
  then show ?thesis
    using assms(1) by (auto simp: exceedsCapacity_def not_less unat_sub word_le_nat_alt)
qed

lemma readFrame_sound:
  assumes hook: "posix_read remaining interrupts readFile" and fuel: "interrupts f < fuel"
    and d: "validCommittedByteCount d = of_nat committed" "committed < 2 ^ 64"
    and rf: "readFrame readFile fuel d expected envelope f = Some (Inr (c, t), f')" and len: "length envelope = 36"
  shows "\<exists>frame. next_command (lj_header d) committed expected c frame \<and>
    envelope @ remaining f = frame @ remaining f' \<and> t = of_nat (length frame) \<and> interrupts f' \<le> interrupts f"
proof -
  obtain env where env: "validateJournalV1CommandEnvelope envelope 0 False = Inr env"
    using rf by (cases "validateJournalV1CommandEnvelope envelope 0 False") (auto simp: readFrame_def)
  define n where "n = unat (env_totalLength env) - 36"
  from readExact_spec [OF hook fuel, of n] obtain f1 where
    exact: "readExact readFile fuel f n = Some (\<lparr>rr_bytes = take n (remaining f), rr_systemError = 0\<rparr>, f1)"
      "remaining f1 = drop n (remaining f)" "interrupts f1 \<le> interrupts f"
    by blast
  define frame where "frame = envelope @ take n (remaining f)"
  have ids: "env_exchangeRunId env = rh_exchangeRunId (lj_header d)" "env_commandSequence env = expected"
    and cap: "\<not> exceedsCapacity (of_nat committed) (unat (env_totalLength env)) (rh_maxRunJournalBytes (lj_header d))"
    and t: "t = env_totalLength env"
    and dec: "decodeCommand (lj_header d) (env_recordType env) frame = Inr c" and f': "f' = f1"
    using rf exact(1) env d(1)
    by (auto simp: readFrame_def Let_def layout n_def frame_def split: sum.splits if_splits)
  note enc = decodeCommand_Inr [OF dec]
  obtain payload where p: "frame = command_frame (record_type c) (command_run c) (command_sequence c) payload"
    "payload_ok (record_type c) (length payload)" "command_run c \<noteq> 0" "command_sequence c \<noteq> 0"
    using encodeCommand_frame [OF enc(1,2)] by blast
  have "record_type c = 2 \<or> record_type c = 3"
    by (auto simp: record_type_def layout split: JournalCommandV1.splits)
  from validate_envelope [OF this p(2-4)] have "env = env_of (record_type c) (command_run c) (command_sequence c) payload"
    using env len by (simp add: p(1) [symmetric] frame_def)
  then have total: "env_totalLength env = of_nat (length frame)" "command_run c = env_exchangeRunId env"
      "command_sequence c = env_commandSequence env"
    by (simp_all add: env_of_def p(1))
  have "length frame < 2 ^ 32"
    using p(1,2) by (auto simp: payload_ok_def split: if_splits)
  then have "unat (env_totalLength env) = length frame"
    using total(1) by (simp add: unat_of_nat)
  then have "committed + length frame \<le> unat (rh_maxRunJournalBytes (lj_header d))"
    using not_exceedsCapacity [OF cap d(2)] by simp
  then have "next_command (lj_header d) committed expected c frame"
    using enc total ids by (simp add: next_command_def)
  then show ?thesis
    using exact t total(1) f' by (intro exI [of _ frame]) (simp add: frame_def)
qed

lemma readCommand_sound:
  assumes hook: "posix_read remaining interrupts readFile" and fuel: "interrupts f < fuel"
    and d: "validCommittedByteCount d = of_nat committed" "committed < 2 ^ 64"
  shows "readCommand readFile fuel d expected f = Some (Inr (c, t), f') \<Longrightarrow>
      \<exists>frame. next_command (lj_header d) committed expected c frame \<and>
        remaining f = frame @ remaining f' \<and> t = of_nat (length frame) \<and> interrupts f' \<le> interrupts f"
    and "readCommand readFile fuel d expected f = Some (Inl res, f') \<Longrightarrow> lr_outcome res = LO_VALID \<Longrightarrow>
      remaining f = []"
proof -
  assume cmd: "readCommand readFile fuel d expected f = Some (Inr (c, t), f')"
  note room = readCommand_room [OF cmd]
  have "remaining f \<noteq> []"
    using readCommand_end [OF hook fuel, of d expected] cmd by auto
  from readCommand_envelope [OF hook fuel this room, of expected] obtain f1 where
    f1: "readFrame readFile fuel d expected (take 36 (remaining f)) f1 = Some (Inr (c, t), f')"
      "remaining f1 = drop 36 (remaining f)" "interrupts f1 \<le> interrupts f" "length (take 36 (remaining f)) = 36"
    using cmd by (auto split: if_splits)
  have "interrupts f1 < fuel"
    using f1(3) fuel by simp
  from readFrame_sound [OF hook this d f1(1,4)] f1(2,3) show
    "\<exists>frame. next_command (lj_header d) committed expected c frame \<and>
        remaining f = frame @ remaining f' \<and> t = of_nat (length frame) \<and> interrupts f' \<le> interrupts f"
    by auto
next
  assume cmd: "readCommand readFile fuel d expected f = Some (Inl res, f')" and res: "lr_outcome res = LO_VALID"
  have frame: "lr_outcome res' \<noteq> LO_VALID" if "readFrame readFile fuel d expected e g = Some (Inl res', g')" for e g res' g'
    using that
    by (auto simp: readFrame_def Let_def bind_eq_Some_conv loadResult_def commandCorruption_def corruption_def
        ioFailure_def incompleteTail_def decodeCommand_def split: sum.splits if_splits)
  show "remaining f = []"
  proof (rule ccontr)
    assume more': "remaining f \<noteq> []"
    then show False
      using readSome_spec [OF hook _ fuel, of 36] cmd res frame
      by (auto simp: readCommand_def layout Let_def bind_eq_Some_conv loadResult_def corruption_def ioFailure_def
          incompleteTail_def split: if_splits)
  qed
qed

lemma readCommands_sound:
  assumes hook: "posix_read remaining interrupts readFile" and "interrupts f < fuel"
    and "validCommittedByteCount d = of_nat committed" and "committed \<le> unat (rh_maxRunJournalBytes (lj_header d))"
    and "length (lj_commands d) \<le> unat (rh_maxRunCommands (lj_header d))"
    and "readCommands readFile fuel d expected f = Some (res, d', f')" and "lr_outcome res = LO_VALID"
  shows "\<exists>cs. next_commands (lj_header d) committed expected cs \<and> remaining f = concat (map snd cs) \<and>
    d' = d\<lparr>lj_commands := lj_commands d @ map fst cs, validCommittedByteCount := of_nat (committed + frames_length cs)\<rparr> \<and>
    length (lj_commands d) + length cs \<le> unat (rh_maxRunCommands (lj_header d))"
  using assms(2-)
proof (induction "unat (rh_maxRunCommands (lj_header d)) - length (lj_commands d)" arbitrary: d expected f committed
    rule: less_induct)
  case less
  have small: "committed < 2 ^ 64"
    using less.prems(3) unsigned_less [of "rh_maxRunJournalBytes (lj_header d)", where 'a = nat] by simp
  note sound = readCommand_sound [OF hook less.prems(1,2) small, of expected]
  from readCommand_total [OF hook less.prems(1), of d expected] obtain r f1 where
    cmd: "readCommand readFile fuel d expected f = Some (r, f1)"
    by blast
  show ?case
  proof (cases r)
    case (Inl res')
    then have "res = res'" "d' = d"
      using less.prems(5) cmd by (auto simp: readCommands.simps [of readFile fuel d])
    then show ?thesis
      using sound(2) cmd Inl less.prems(2,4,6) by (intro exI [of _ "[]"]) auto
  next
    case (Inr ct)
    obtain c t where ct: "ct = (c, t)" by (cases ct)
    from sound(1) [OF cmd [unfolded Inr ct]] obtain frame where
      frame: "next_command (lj_header d) committed expected c frame" "remaining f = frame @ remaining f1"
        "t = of_nat (length frame)" "interrupts f1 \<le> interrupts f"
      by blast
    define d1 where "d1 = d\<lparr>lj_commands := lj_commands d @ [c],
        validCommittedByteCount := validCommittedByteCount d + ucast t\<rparr>"
    have room: "length (lj_commands d) < unat (rh_maxRunCommands (lj_header d))"
      by (rule readCommand_room [OF cmd [unfolded Inr]])
    have "length frame < 2 ^ 32"
      using next_command_frame [OF frame(1)] by auto
    then have d1: "validCommittedByteCount d1 = of_nat (committed + length frame)" "lj_header d1 = lj_header d"
        "lj_commands d1 = lj_commands d @ [c]"
      using less.prems(2) by (simp_all add: d1_def frame(3) ucast_of_nat_u64)
    have rec: "readCommands readFile fuel d1 (expected + 1) f1 = Some (res, d', f')"
      using less.prems(5) cmd Inr ct by (simp add: readCommands.simps [of readFile fuel d] d1_def)
    have pre: "unat (rh_maxRunCommands (lj_header d1)) - length (lj_commands d1) <
        unat (rh_maxRunCommands (lj_header d)) - length (lj_commands d)"
      "interrupts f1 < fuel" "committed + length frame \<le> unat (rh_maxRunJournalBytes (lj_header d1))"
      "length (lj_commands d1) \<le> unat (rh_maxRunCommands (lj_header d1))"
      using room frame(1,4) less.prems(1) by (auto simp: d1 next_command_def)
    from less.hyps [OF pre(1,2) d1(1) pre(3,4) rec less.prems(6)] obtain cs where
      cs: "next_commands (lj_header d) (committed + length frame) (expected + 1) cs"
        "remaining f1 = concat (map snd cs)"
        "d' = d1\<lparr>lj_commands := lj_commands d1 @ map fst cs,
          validCommittedByteCount := of_nat (committed + length frame + frames_length cs)\<rparr>"
        "length (lj_commands d1) + length cs \<le> unat (rh_maxRunCommands (lj_header d))"
      by (auto simp: d1)
    show ?thesis
      by (rule exI [of _ "(c, frame) # cs"]) (use cs frame d1 in \<open>auto simp: d1_def add.assoc\<close>)
  qed
qed

lemma readHeader_sound:
  assumes hook: "posix_read remaining interrupts readFile" and fuel: "interrupts f < fuel"
    and rh: "readHeader readFile fuel f = Some (Inr (h, hl), f')"
  shows "\<exists>hf. encodeRunHeaderV1 h = Inr hf \<and> remaining f = hf @ remaining f' \<and> hl = of_nat (length hf) \<and>
    interrupts f' \<le> interrupts f"
proof -
  from readExact_spec [OF hook fuel, of 36] obtain f1 where
    e1: "readExact readFile fuel f 36 = Some (\<lparr>rr_bytes = take 36 (remaining f), rr_systemError = 0\<rparr>, f1)"
      "remaining f1 = drop 36 (remaining f)" "interrupts f1 \<le> interrupts f"
    by blast
  define n where "n = unat (readUint32LittleEndian (take 36 (remaining f)) 8) - 36"
  have fuel1: "interrupts f1 < fuel"
    using e1(3) fuel by simp
  from readExact_spec [OF hook fuel1, of n] obtain f2 where
    e2: "readExact readFile fuel f1 n = Some (\<lparr>rr_bytes = take n (drop 36 (remaining f)), rr_systemError = 0\<rparr>, f2)"
      "remaining f2 = drop n (drop 36 (remaining f))" "interrupts f2 \<le> interrupts f1"
    using e1(2) by auto
  define hf where "hf = take 36 (remaining f) @ take n (drop 36 (remaining f))"
  have dec: "decodeRunHeaderV1 hf = Inr h" and f': "f' = f2"
    and hl: "hl = readUint32LittleEndian (take 36 (remaining f)) 8"
    and len: "length (take 36 (remaining f)) = 36" "length (take n (drop 36 (remaining f))) = n"
      "36 \<le> unat (readUint32LittleEndian (take 36 (remaining f)) 8)"
    using rh e1(1) e2(1)
    by (auto simp: readHeader_def layout Let_def n_def hf_def split: sum.splits if_splits)
  have enc: "encodeRunHeaderV1 h = Inr hf"
    using dec run_header_codec.decode_iff by blast
  have "length hf = unat hl"
    using len by (simp add: hf_def n_def hl)
  then have "hl = of_nat (length hf)"
    by simp
  moreover have "hf = take (36 + n) (remaining f)"
    by (simp add: hf_def take_add)
  then have "remaining f = hf @ remaining f2"
    using e2(2) by (simp add: add.commute)
  ultimately show ?thesis
    using enc e1(3) e2(3) f' by (intro exI [of _ hf]) simp
qed

lemma readHeader_Inl:
  assumes hook: "posix_read remaining interrupts readFile" and fuel: "interrupts f < fuel"
    and rh: "readHeader readFile fuel f = Some (Inl res, f')"
  shows "lr_outcome res \<noteq> LO_VALID"
proof -
  from readExact_spec [OF hook fuel, of 36] obtain f1 where
    e1: "readExact readFile fuel f 36 = Some (\<lparr>rr_bytes = take 36 (remaining f), rr_systemError = 0\<rparr>, f1)"
      "remaining f1 = drop 36 (remaining f)" "interrupts f1 \<le> interrupts f"
    by blast
  define n where "n = unat (readUint32LittleEndian (take 36 (remaining f)) 8) - 36"
  have fuel1: "interrupts f1 < fuel"
    using e1(3) fuel by simp
  from readExact_spec [OF hook fuel1, of n] obtain f2 where
    e2: "readExact readFile fuel f1 n = Some (\<lparr>rr_bytes = take n (drop 36 (remaining f)), rr_systemError = 0\<rparr>, f2)"
    using e1(2) by auto
  show ?thesis
    using rh e1(1) e2
    by (auto simp: readHeader_def layout Let_def n_def loadResult_def headerCorruption_def ioFailure_def
        split: sum.splits if_splits)
qed

lemma load_sound:
  assumes hook: "posix_read remaining interrupts readFile" and fuel: "interrupts f < fuel"
    and load: "loadRunJournalV1FromDescriptorWithHooks readFile fuel f outp = Some (res, d, f')"
    and "lr_outcome res = LO_VALID"
  shows "\<exists>hf cs. journal_of (lj_header d) hf cs \<and> remaining f = journal_bytes hf cs \<and> lj_commands d = map fst cs \<and>
    validCommittedByteCount d = of_nat (length (remaining f))"
proof -
  from readHeader_total [OF hook fuel] obtain r f1 where hdr: "readHeader readFile fuel f = Some (r, f1)"
    by blast
  have bad: "lr_outcome res' \<noteq> LO_VALID" if "readHeader readFile fuel f = Some (Inl res', g)" for res' g
    by (rule readHeader_Inl [OF hook fuel that])
  obtain h hl where r: "r = Inr (h, hl)"
    using hdr load assms(4) bad
    by (cases r) (auto simp: loadRunJournalV1FromDescriptorWithHooks_def readJournal_def)
  from readHeader_sound [OF hook fuel hdr [unfolded r]] obtain hf where
    hf: "encodeRunHeaderV1 h = Inr hf" "remaining f = hf @ remaining f1" "hl = of_nat (length hf)"
      "interrupts f1 \<le> interrupts f"
    by blast
  note len = header_frame [OF hf(1)]
  let ?d = "\<lparr>lj_header = h, lj_commands = [], validCommittedByteCount = ucast hl\<rparr>"
  obtain d' f2 where loop: "readCommands readFile fuel ?d 1 f1 = Some (res, d', f2)" and d: "d = d'"
    using load hdr r assms(4)
    by (auto simp: loadRunJournalV1FromDescriptorWithHooks_def readJournal_def bind_eq_Some_conv)
  have count: "validCommittedByteCount ?d = of_nat (length hf)"
    using len(2) by (simp add: hf(3) ucast_of_nat_u64)
  from readCommands_sound [OF hook _ count _ _ loop assms(4)] header_fits [OF hf(1)] hf(4) fuel obtain cs where
    "next_commands h (length hf) 1 cs" "remaining f1 = concat (map snd cs)" "lj_header d' = h"
      "lj_commands d' = map fst cs" "validCommittedByteCount d' = of_nat (length hf + frames_length cs)"
      "length cs \<le> unat (rh_maxRunCommands h)"
    by auto
  then show ?thesis
    using hf(1,2) unfolding d
    by (intro exI [of _ hf] exI [of _ cs]) (simp add: journal_of_def journal_bytes_def frames_length_def)
qed

end
