(* ===== verification/Journal_Properties.thy ===== *)
theory Journal_Properties
  imports Journal_Durability Journal_Soundness
begin

text \<open>
  The properties of the run journal: what is loaded after a crash, what loading accepts, that loading
  returns, and that committed commands are durable.
\<close>

section \<open>A journal to apply the properties to\<close>

definition sample_header :: RunHeaderV1 where
  "sample_header = \<lparr>rh_exchangeRunId = 5, rh_behavioralRulesVersion = 1, rh_maxEventsPerCommand = 4096,
     rh_maxRunCommands = 10, rh_maxRunJournalBytes = 1000,
     rh_instruments = [\<lparr>hi_instrumentId = 1, hi_configurationVersion = 1\<rparr>]\<rparr>"

definition sample_header_frame :: "u8 list" where
  "sample_header_frame = command_frame RUN_HEADER_RECORD_TYPE 5 0 (header_payload sample_header)"

definition sample_cancel :: JournalCancelV1 where
  "sample_cancel = \<lparr>jc_exchangeRunId = 5, jc_commandSequence = 1, jc_behavioralRulesVersion = 1,
     jc_configurationVersion = 1, jc_clientId = 3, jc_instrumentId = 1,
     jc_clientCommandId = \<lparr>cc_bytes = 65 # replicate 63 0, cc_size = 1\<rparr>, jc_targetOrderId = 9\<rparr>"

definition sample_frame :: "u8 list" where
  "sample_frame = command_frame JOURNAL_V1_CANCEL_RECORD_TYPE 5 1 (common_payload 1 1 3 1 [65] (le_bytes 8 (9 :: u64)))"

definition sample_output :: LoadedRunJournalV1 where
  "sample_output = \<lparr>lj_header = sample_header, lj_commands = [], validCommittedByteCount = 0\<rparr>"

lemma sample_header_encoded: "encodeRunHeaderV1 sample_header = Inr sample_header_frame"
proof -
  have "validateHeader sample_header = Inr 80"
    by (simp add: validateHeader_def sample_header_def layout)
  from encodeRunHeaderV1_layout [OF this] show ?thesis
    by (simp add: sample_header_frame_def) (simp add: sample_header_def)
qed

lemma sample_ccid:
  "ClientCommandId_value (jc_clientCommandId sample_cancel) = [65]"
  "valid_ClientCommandId (jc_clientCommandId sample_cancel)"
  by code_simp+

lemma sample_cancel_encoded: "encodeCancelV1 sample_cancel = Inr sample_frame"
  unfolding sample_frame_def sample_ccid(1) [symmetric]
  by (subst encodeCancelV1_layout) (simp_all add: validateCommonCommand_def sample_cancel_def layout)

lemma sample_lengths: "length sample_header_frame = 80" "length sample_frame = 70"
  by (simp_all add: sample_header_frame_def sample_frame_def sample_header_def)

lemma sample_journal: "journal_of sample_header sample_header_frame [(JournalCancel sample_cancel, sample_frame)]"
proof -
  have "instrument_configured sample_header 1 1"
    by (simp add: instrument_configured_def sample_header_def lower_bound_def)
  moreover have "jc_exchangeRunId sample_cancel = 5" "jc_commandSequence sample_cancel = 1"
    "jc_instrumentId sample_cancel = 1" "jc_configurationVersion sample_cancel = 1"
    "rh_exchangeRunId sample_header = 5" "rh_maxRunCommands sample_header = 10"
    "rh_maxRunJournalBytes sample_header = 1000"
    by (simp_all add: sample_cancel_def sample_header_def)
  ultimately show ?thesis
    by (simp add: journal_of_def next_command_def encodeCommand_def command_ccid_def command_configured_def
        command_run_def command_sequence_def sample_header_encoded sample_cancel_encoded sample_lengths sample_ccid(2))
qed

text \<open>A file that takes at most five bytes per write.\<close>

definition chunk_write :: "u8 list write_hook" where
  "chunk_write f bs = (Wrote (min 5 (length bs)), f @ take 5 bs)"

definition chunk_sync :: "u8 list sync_hook" where
  "chunk_sync f = (Synced, f)"

lemma posix_chunk_write: "posix_append id (\<lambda>_. 0) chunk_write chunk_sync"
  by (simp add: posix_append_def chunk_write_def chunk_sync_def min_def)

section \<open>Properties\<close>

text \<open>C17. Crash recovery: whatever prefix of a journal is left in the file, in whatever chunks it is read and
  however often a read is interrupted, \<open>loadRunJournalV1FromDescriptorWithHooks\<close> returns the header and
  exactly the commands whose frames are complete, reports a torn last frame as an incomplete tail with its
  offset and length, and reports a torn header as corruption without touching the output.\<close>

theorem crash_prefix_loads:
  assumes "posix_read remaining interrupts readFile" and "interrupts f < fuel"
    and "journal_of h hf cs" and "remaining f = take k (journal_bytes hf cs)"
    and "k \<le> length (journal_bytes hf cs)"
  shows "\<exists>f'. loadRunJournalV1FromDescriptorWithHooks readFile fuel f outp =
    Some (if k < length hf then (headerCorruption RH_TRUNCATED_INPUT, outp, f')
          else let whole = complete_within (k - length hf) cs;
                   committed = length (journal_bytes hf whole)
               in (if committed = k then loadResult LO_VALID LE_NONE RH_NONE NONE 0 0 0
                   else incompleteTail (of_nat committed) (k - committed),
                   \<lparr>lj_header = h, lj_commands = map fst whole, validCommittedByteCount = of_nat committed\<rparr>, f'))"
proof (cases "k < length hf")
  case True
  then show ?thesis
    using load_torn_header [OF assms(1-4), of outp] by simp
next
  case False
  then show ?thesis
    using load_prefix [OF assms(1-4) _ assms(5), of outp] by (simp add: Let_def not_less)
qed

theorem crash_prefix_loads_witness:
  "\<exists>f'. loadRunJournalV1FromDescriptorWithHooks chunk_read 1
      (take 100 (journal_bytes sample_header_frame [(JournalCancel sample_cancel, sample_frame)])) sample_output =
    Some (incompleteTail 80 20, \<lparr>lj_header = sample_header, lj_commands = [], validCommittedByteCount = 80\<rparr>, f')"
  using crash_prefix_loads [OF posix_chunk_read _ sample_journal, of
      1 "take 100 (journal_bytes sample_header_frame [(JournalCancel sample_cancel, sample_frame)])" 100 sample_output]
  by (simp add: journal_bytes_def sample_lengths)

text \<open>C18. Loading is sound and complete: the reader reports a file as valid, with the journal \<open>d\<close>, exactly
  if the file is byte for byte the encoding of the header of \<open>d\<close> followed by the encodings of the commands of
  \<open>d\<close>, numbered from one, belonging to the run of the header, configured by it and within its limits.\<close>

theorem load_valid_iff:
  assumes "posix_read remaining interrupts readFile" and "interrupts f < fuel"
  shows "(\<exists>res f'. loadRunJournalV1FromDescriptorWithHooks readFile fuel f outp = Some (res, d, f') \<and>
            lr_outcome res = LO_VALID) \<longleftrightarrow>
    (\<exists>hf cs. journal_of (lj_header d) hf cs \<and> remaining f = journal_bytes hf cs \<and> lj_commands d = map fst cs \<and>
       validCommittedByteCount d = of_nat (length (remaining f)))"
proof
  assume "\<exists>hf cs. journal_of (lj_header d) hf cs \<and> remaining f = journal_bytes hf cs \<and> lj_commands d = map fst cs \<and>
       validCommittedByteCount d = of_nat (length (remaining f))"
  then obtain hf cs where j: "journal_of (lj_header d) hf cs" "remaining f = journal_bytes hf cs"
      "lj_commands d = map fst cs" "validCommittedByteCount d = of_nat (length (remaining f))"
    by blast
  have whole: "complete_within (frames_length cs) cs = cs"
    by (rule complete_within_all) simp
  have d: "d = \<lparr>lj_header = lj_header d, lj_commands = map fst cs,
      validCommittedByteCount = of_nat (length (journal_bytes hf cs))\<rparr>"
    using j(2-4) by simp
  show "\<exists>res f'. loadRunJournalV1FromDescriptorWithHooks readFile fuel f outp = Some (res, d, f') \<and>
      lr_outcome res = LO_VALID"
    using load_prefix [OF assms j(1), of "length (journal_bytes hf cs)" outp] j(2)
    by (subst d) (auto simp: whole length_journal_bytes loadResult_def)
qed (use load_sound [OF assms] in blast)

theorem load_valid_iff_witness:
  "\<exists>res f'. loadRunJournalV1FromDescriptorWithHooks chunk_read 1
      (journal_bytes sample_header_frame [(JournalCancel sample_cancel, sample_frame)]) sample_output =
    Some (res, \<lparr>lj_header = sample_header, lj_commands = [JournalCancel sample_cancel],
                 validCommittedByteCount = 150\<rparr>, f') \<and> lr_outcome res = LO_VALID"
proof (rule load_valid_iff [OF posix_chunk_read, THEN iffD2])
  show "\<exists>hf cs. journal_of (lj_header \<lparr>lj_header = sample_header, lj_commands = [JournalCancel sample_cancel],
          validCommittedByteCount = 150\<rparr>) hf cs \<and>
        id (journal_bytes sample_header_frame [(JournalCancel sample_cancel, sample_frame)]) = journal_bytes hf cs \<and>
        lj_commands \<lparr>lj_header = sample_header, lj_commands = [JournalCancel sample_cancel],
          validCommittedByteCount = 150\<rparr> = map fst cs \<and>
        validCommittedByteCount \<lparr>lj_header = sample_header, lj_commands = [JournalCancel sample_cancel],
          validCommittedByteCount = 150\<rparr> =
        of_nat (length (id (journal_bytes sample_header_frame [(JournalCancel sample_cancel, sample_frame)])))"
    using sample_journal
    by (intro exI [of _ sample_header_frame] exI [of _ "[(JournalCancel sample_cancel, sample_frame)]"])
      (simp add: journal_bytes_def sample_lengths)
qed simp

text \<open>C19. Loading always returns: on any file, whatever bytes it holds, \<open>loadRunJournalV1WithHooks\<close> ends with a
  result, and unless that result is a valid journal or one with an incomplete tail the output is the one
  the caller passed in.\<close>

theorem load_returns:
  assumes "posix_read remaining interrupts readFile" and "interrupts f < fuel"
  shows "\<exists>res d. loadRunJournalV1WithHooks (Inr f) readFile fuel closeError outp = Some (res, d) \<and>
    (lr_outcome res = LO_VALID \<or> lr_outcome res = LO_INCOMPLETE_TAIL \<or> d = outp)"
proof -
  from readHeader_total [OF assms] obtain r f1 where
    hdr: "readHeader readFile fuel f = Some (r, f1)" "interrupts f1 \<le> interrupts f"
    by blast
  have "\<exists>res d f'. loadRunJournalV1FromDescriptorWithHooks readFile fuel f outp = Some (res, d, f')"
  proof (cases r)
    case (Inr x)
    obtain h hl where x: "x = (h, hl)" by (cases x)
    from readCommands_total [OF assms(1), of f1 fuel] hdr(2) assms(2) obtain res d' f' where
      "readCommands readFile fuel \<lparr>lj_header = h, lj_commands = [], validCommittedByteCount = ucast hl\<rparr> 1 f1 =
        Some (res, d', f')"
      by (metis le_less_trans)
    then show ?thesis
      using hdr(1) Inr x by (simp add: loadRunJournalV1FromDescriptorWithHooks_def readJournal_def)
  qed (use hdr(1) in \<open>simp add: loadRunJournalV1FromDescriptorWithHooks_def readJournal_def\<close>)
  then show ?thesis
    by (auto simp: loadRunJournalV1WithHooks_def Let_def)
qed

theorem load_returns_witness:
  "\<exists>res d. loadRunJournalV1WithHooks (Inr [1, 2, 3]) chunk_read 1 (\<lambda>_. 0) sample_output = Some (res, d) \<and>
    (lr_outcome res = LO_VALID \<or> lr_outcome res = LO_INCOMPLETE_TAIL \<or> d = sample_output)"
  by (rule load_returns [OF posix_chunk_read]) simp

text \<open>One append: it always returns, and it either commits the command, so that the file is the journal
  extended by exactly its frame, or rejects it and leaves writer and file as they were, or fails and leaves the
  writer unusable with the file holding the committed journal and a part of the one frame.\<close>

theorem append_outcomes:
  assumes "posix_append contents interrupts writeFile syncFile" and "interrupts (w_file w) + 143 < fuel"
    and "writer_inv contents h hf cs w" and "valid_ClientCommandId (command_ccid c)"
  shows "\<exists>res w'. append_command writeFile syncFile fuel w c = Some (res, w') \<and>
    (case ar_outcome res of
       AO_COMMITTED \<Rightarrow> \<exists>frame. writer_inv contents h hf (cs @ [(c, frame)]) w'
     | AO_INVALID_COMMAND \<Rightarrow> w' = w
     | AO_CAPACITY_REACHED \<Rightarrow> w' = w
     | _ \<Rightarrow> torn_inv contents h hf cs c w')"
  using append_correct [OF assms] by blast

theorem append_outcomes_witness:
  "\<exists>res w'. append_command chunk_write chunk_sync 200
      (make_RunJournalWriterV1 sample_header_frame sample_header 80) (JournalCancel sample_cancel) = Some (res, w') \<and>
    (case ar_outcome res of
       AO_COMMITTED \<Rightarrow>
         \<exists>frame. writer_inv id sample_header sample_header_frame ([] @ [(JournalCancel sample_cancel, frame)]) w'
     | AO_INVALID_COMMAND \<Rightarrow> w' = make_RunJournalWriterV1 sample_header_frame sample_header 80
     | AO_CAPACITY_REACHED \<Rightarrow> w' = make_RunJournalWriterV1 sample_header_frame sample_header 80
     | _ \<Rightarrow> torn_inv id sample_header sample_header_frame [] (JournalCancel sample_cancel) w')"
proof (rule append_outcomes [OF posix_chunk_write])
  show "writer_inv id sample_header sample_header_frame [] (make_RunJournalWriterV1 sample_header_frame sample_header 80)"
    using fresh_writer_inv [OF sample_header_encoded, of id sample_header_frame] by (simp add: sample_lengths)
qed (simp_all add: command_ccid_def sample_ccid(2))



end
