(* ===== verification/Sequencer.thy ===== *)
theory Sequencer
  imports Journal_Durability Admission_Runs
begin

text \<open>
  The sequencer, \<open>sequencer/src/sequencer.cpp\<close>: the single consumer that takes admitted commands from the
  ingress queue, gives each the next sequence number, journals it, binds the number in the admission index and
  hands the command to the matching engine. The queues, the index and the writer belong to the caller and are
  reached through references; they are fields of the state here. A call that throws keeps the state it had
  reached, so an operation returns the exception or its value together with the state. The journal writer's
  loops take fuel, so a step returns \<open>None\<close> when that is too small.
\<close>

section \<open>State\<close>

record ('q, 'f) Sequencer =
  sequencingIngressQueue :: 'q
  matchingEngineQueue :: 'q
  seq_admissionIndex :: "CommandAdmissionIndex option"
  journalWriter :: "'f RunJournalWriterV1 option"
  lastAssignedSequence :: CommandSequence
  pendingCommand :: "sequenceMessage option"
  pendingReadyForMatching :: bool
  journalAppendFailure :: "RunJournalAppendResult option"

definition markSequencedStatusName :: "MarkSequencedStatus \<Rightarrow> string" where
  "markSequencedStatusName status =
     (case status of
        MS_SEQUENCED \<Rightarrow> ''Sequenced''
      | MS_IDEMPOTENT \<Rightarrow> ''Idempotent''
      | MS_INVALID_SEQUENCE \<Rightarrow> ''InvalidSequence''
      | MS_UNKNOWN_RESERVATION \<Rightarrow> ''UnknownReservation''
      | MS_COMMAND_MISMATCH \<Rightarrow> ''CommandMismatch''
      | MS_WRONG_STATE \<Rightarrow> ''WrongState''
      | MS_SEQUENCE_MISMATCH \<Rightarrow> ''SequenceMismatch'')"

text \<open>The constructors: with admission and an in-memory counter, with a journal, and without admission.\<close>

definition make_Sequencer ::
  "'q \<Rightarrow> 'q \<Rightarrow> CommandAdmissionIndex \<Rightarrow> CommandSequence \<Rightarrow> ('q, 'f) Sequencer" where
  "make_Sequencer ingress matching idx lastAssigned =
     \<lparr>sequencingIngressQueue = ingress, matchingEngineQueue = matching, seq_admissionIndex = Some idx,
      journalWriter = None, lastAssignedSequence = lastAssigned, pendingCommand = None,
      pendingReadyForMatching = False, journalAppendFailure = None\<rparr>"

definition make_journal_Sequencer ::
  "'q \<Rightarrow> 'q \<Rightarrow> CommandAdmissionIndex \<Rightarrow> 'f RunJournalWriterV1 \<Rightarrow> ('q, 'f) Sequencer result" where
  "make_journal_Sequencer ingress matching idx w =
     (if adm_exchangeRunId idx \<noteq> rh_exchangeRunId (w_header w)
      then Inl (invalid_argument ''journal-backed sequencer requires admission bound to the writer's run'')
      else Inr \<lparr>sequencingIngressQueue = ingress, matchingEngineQueue = matching, seq_admissionIndex = Some idx,
        journalWriter = Some w, lastAssignedSequence = 0, pendingCommand = None,
        pendingReadyForMatching = False, journalAppendFailure = None\<rparr>)"

definition make_bypass_Sequencer :: "'q \<Rightarrow> 'q \<Rightarrow> CommandSequence \<Rightarrow> ('q, 'f) Sequencer" where
  "make_bypass_Sequencer ingress matching lastAssigned =
     \<lparr>sequencingIngressQueue = ingress, matchingEngineQueue = matching, seq_admissionIndex = None,
      journalWriter = None, lastAssignedSequence = lastAssigned, pendingCommand = None,
      pendingReadyForMatching = False, journalAppendFailure = None\<rparr>"

definition hasPendingSequencedCommand :: "('q, 'f) Sequencer \<Rightarrow> bool" where
  "hasPendingSequencedCommand s \<longleftrightarrow> pendingCommand s \<noteq> None \<and> pendingReadyForMatching s"

section \<open>Operations\<close>

definition seq_nextCommandSequence :: "('q, 'f) Sequencer \<Rightarrow> CommandSequence \<times> ('q, 'f) Sequencer" where
  "seq_nextCommandSequence s =
     (let n = lastAssignedSequence s + 1 in (n, s\<lparr>lastAssignedSequence := n\<rparr>))"

definition handoffPendingCommand ::
  "('q, sequenceMessage) queue_push \<Rightarrow> ('q, 'f) Sequencer \<Rightarrow> bool \<times> ('q, 'f) Sequencer" where
  "handoffPendingCommand push s =
     (case pendingCommand s of
        None \<Rightarrow> (True, s)
      | Some m \<Rightarrow>
          (case SharedQueue_push push (matchingEngineQueue s) m of
             (False, _) \<Rightarrow> (False, s)
           | (True, q) \<Rightarrow>
               (True, s\<lparr>matchingEngineQueue := q, pendingCommand := None, pendingReadyForMatching := False\<rparr>)))"

text \<open>\<open>BUY\<close> and \<open>SELL\<close> become a new order of the journal, \<open>CANCEL\<close> a cancel; other messages are refused before
  the writer is called.\<close>

definition appendCommand ::
  "'f write_hook \<Rightarrow> 'f sync_hook \<Rightarrow> nat \<Rightarrow> 'f RunJournalWriterV1 \<Rightarrow> sequenceMessage \<Rightarrow>
     (RunJournalAppendResult \<times> 'f RunJournalWriterV1) option" where
  "appendCommand writeFile syncFile fuel w message =
     (case clientCommandId message of
        None \<Rightarrow> Some (appendResult AO_INVALID_COMMAND AE_NONE INVALID_CLIENT_COMMAND_ID 0, w)
      | Some ccid \<Rightarrow>
          if unat (configurationVersion message) > UINT32_MAX
          then Some (appendResult AO_INVALID_COMMAND AE_INSTRUMENT_CONFIGURATION_MISMATCH NONE 0, w)
          else
          let header = w_header w in
          if orderType_of message = BUY \<or> orderType_of message = SELL then
            append_new_order writeFile syncFile fuel w
              \<lparr>jn_exchangeRunId = rh_exchangeRunId header, jn_commandSequence = globalSequenceNumber message,
               jn_behavioralRulesVersion = rh_behavioralRulesVersion header,
               jn_configurationVersion = ucast (configurationVersion message), jn_clientId = clientId message,
               jn_instrumentId = instrumentId message, jn_clientCommandId = ccid,
               jn_side = (if orderType_of message = BUY then Side_BUY else Side_SELL),
               jn_timeInForce = tif message, jn_price = price message, jn_quantity = quantity message\<rparr>
          else if orderType_of message \<noteq> CANCEL
          then Some (appendResult AO_INVALID_COMMAND AE_NONE UNSUPPORTED_RECORD_TYPE 0, w)
          else
          case targetOrderId message of
            None \<Rightarrow> Some (appendResult AO_INVALID_COMMAND AE_NONE ZERO_TARGET_ORDER_ID 0, w)
          | Some target \<Rightarrow>
              append_cancel writeFile syncFile fuel w
                \<lparr>jc_exchangeRunId = rh_exchangeRunId header, jc_commandSequence = globalSequenceNumber message,
                 jc_behavioralRulesVersion = rh_behavioralRulesVersion header,
                 jc_configurationVersion = ucast (configurationVersion message), jc_clientId = clientId message,
                 jc_instrumentId = instrumentId message, jc_clientCommandId = ccid,
                 jc_targetOrderId = target\<rparr>)"

text \<open>\<open>processNext\<close> after the command is journaled: the order identifier, the binding in the admission index and
  the first attempt to hand the command over.\<close>

definition bindAndHandoff ::
  "('q, sequenceMessage) queue_push \<Rightarrow> ('q, 'f) Sequencer \<Rightarrow> sequenceMessage \<Rightarrow>
     bool result \<times> ('q, 'f) Sequencer" where
  "bindAndHandoff push s message =
     (let pending = (if orderType_of message = BUY \<or> orderType_of message = SELL
            then message\<lparr>orderId := orderIdFrom_sequence (globalSequenceNumber message)\<rparr> else message);
          s = s\<lparr>pendingCommand := Some pending\<rparr>;
          ready = (\<lambda>s. case handoffPendingCommand push (s\<lparr>pendingReadyForMatching := True\<rparr>) of
            (b, s) \<Rightarrow> (Inr b, s)) in
      case seq_admissionIndex s of
        None \<Rightarrow> ready s
      | Some idx \<Rightarrow>
          (case markSequenced idx pending of
             Inl e \<Rightarrow> (Inl e, s)
           | Inr (status, idx) \<Rightarrow>
               let s = s\<lparr>seq_admissionIndex := Some idx\<rparr> in
               if status \<noteq> MS_SEQUENCED
               then (Inl (logic_error (''sequencer admission binding failed: '' @ markSequencedStatusName status)), s)
               else ready s))"

definition seq_processNext ::
  "('q, sequenceMessage) queue_push \<Rightarrow> ('q, sequenceMessage) queue_pop \<Rightarrow> ('q \<Rightarrow> bool) \<Rightarrow>
     'f write_hook \<Rightarrow> 'f sync_hook \<Rightarrow> nat \<Rightarrow> ('q, 'f) Sequencer \<Rightarrow>
     (bool result \<times> ('q, 'f) Sequencer) option" where
  "seq_processNext push pop isEmpty writeFile syncFile fuel s =
     (if pendingCommand s \<noteq> None then
        Some (if pendingReadyForMatching s then (case handoffPendingCommand push s of (b, s) \<Rightarrow> (Inr b, s))
              else (Inr False, s))
      else if journalWriter s = None \<and> lastAssignedSequence s = -1 then
        Some (if isEmpty (sequencingIngressQueue s) then (Inr False, s)
              else (Inl (overflow_error ''CommandSequence exhausted''), s))
      else
      case SharedQueue_pop pop (sequencingIngressQueue s) empty_sequenceMessage of
        (False, _, _) \<Rightarrow> Some (Inr False, s)
      | (True, message, q) \<Rightarrow>
          let s = s\<lparr>sequencingIngressQueue := q\<rparr> in
          case journalWriter s of
            None \<Rightarrow>
              (case seq_nextCommandSequence s of
                 (n, s) \<Rightarrow> Some (bindAndHandoff push s (message\<lparr>globalSequenceNumber := n\<rparr>)))
          | Some w \<Rightarrow>
              let pending = message\<lparr>globalSequenceNumber := nextCommandSequence w\<rparr>;
                  s = s\<lparr>pendingCommand := Some pending\<rparr> in
              Option.bind (appendCommand writeFile syncFile fuel w pending) (\<lambda>(res, w).
              let s = s\<lparr>journalWriter := Some w\<rparr> in
              if ar_outcome res \<noteq> AO_COMMITTED
              then Some (Inr False, s\<lparr>journalAppendFailure := Some res\<rparr>)
              else Some (bindAndHandoff push s pending)))"

text \<open>The drain loop takes its own fuel: it returns as soon as the ingress queue is empty.\<close>

fun drainAvailable ::
  "('q, sequenceMessage) queue_push \<Rightarrow> ('q, sequenceMessage) queue_pop \<Rightarrow> ('q \<Rightarrow> bool) \<Rightarrow>
     'f write_hook \<Rightarrow> 'f sync_hook \<Rightarrow> nat \<Rightarrow> nat \<Rightarrow> bool \<Rightarrow> ('q, 'f) Sequencer \<Rightarrow>
     (bool result \<times> ('q, 'f) Sequencer) option" where
  "drainAvailable push pop isEmpty writeFile syncFile fuel 0 progressed s = None"
| "drainAvailable push pop isEmpty writeFile syncFile fuel (Suc n) progressed s =
     Option.bind (seq_processNext push pop isEmpty writeFile syncFile fuel s) (\<lambda>(r, s).
       case r of
         Inl e \<Rightarrow> Some (Inl e, s)
       | Inr True \<Rightarrow> drainAvailable push pop isEmpty writeFile syncFile fuel n True s
       | Inr False \<Rightarrow> Some (Inr progressed, s))"

definition seq_advance ::
  "('q, sequenceMessage) queue_push \<Rightarrow> ('q, sequenceMessage) queue_pop \<Rightarrow> ('q \<Rightarrow> bool) \<Rightarrow>
     'f write_hook \<Rightarrow> 'f sync_hook \<Rightarrow> nat \<Rightarrow> nat \<Rightarrow> ('q, 'f) Sequencer \<Rightarrow>
     (bool result \<times> ('q, 'f) Sequencer) option" where
  "seq_advance push pop isEmpty writeFile syncFile fuel n s =
     drainAvailable push pop isEmpty writeFile syncFile fuel n False s"

end
