(* ===== verification/Sequencer_Runs.thy ===== *)
theory Sequencer_Runs
  imports Sequencer
begin

text \<open>
  Runs of the journal-backed sequencer: a command reaches the matching engine only after it is committed to
  the journal, in journal order and with the number it has there.
\<close>

section \<open>The journal record of a message\<close>

definition journal_command :: "RunHeaderV1 \<Rightarrow> sequenceMessage \<Rightarrow> JournalCommandV1 option" where
  "journal_command header message =
     (case clientCommandId message of
        None \<Rightarrow> None
      | Some ccid \<Rightarrow>
          if unat (configurationVersion message) > UINT32_MAX then None
          else if orderType_of message = BUY \<or> orderType_of message = SELL then
            Some (JournalNewOrder
              \<lparr>jn_exchangeRunId = rh_exchangeRunId header, jn_commandSequence = globalSequenceNumber message,
               jn_behavioralRulesVersion = rh_behavioralRulesVersion header,
               jn_configurationVersion = ucast (configurationVersion message), jn_clientId = clientId message,
               jn_instrumentId = instrumentId message, jn_clientCommandId = ccid,
               jn_side = (if orderType_of message = BUY then Side_BUY else Side_SELL),
               jn_timeInForce = tif message, jn_price = price message, jn_quantity = quantity message\<rparr>)
          else if orderType_of message \<noteq> CANCEL then None
          else
          case targetOrderId message of
            None \<Rightarrow> None
          | Some target \<Rightarrow>
              Some (JournalCancel
                \<lparr>jc_exchangeRunId = rh_exchangeRunId header, jc_commandSequence = globalSequenceNumber message,
                 jc_behavioralRulesVersion = rh_behavioralRulesVersion header,
                 jc_configurationVersion = ucast (configurationVersion message), jc_clientId = clientId message,
                 jc_instrumentId = instrumentId message, jc_clientCommandId = ccid,
                 jc_targetOrderId = target\<rparr>))"

lemma appendCommand_record:
  "journal_command (w_header w) message = Some c \<Longrightarrow>
     appendCommand writeFile syncFile fuel w message = append_command writeFile syncFile fuel w c"
  "journal_command (w_header w) message = None \<Longrightarrow>
     \<exists>res. appendCommand writeFile syncFile fuel w message = Some (res, w) \<and> ar_outcome res = AO_INVALID_COMMAND"
  by (auto simp: journal_command_def appendCommand_def append_command_def Let_def appendResult_def
      split: option.splits if_splits)

lemma journal_command_fields:
  assumes "journal_command h message = Some c"
  shows "clientCommandId message = Some (command_ccid c)" and "command_sequence c = globalSequenceNumber message"
  using assms
  by (auto simp: journal_command_def command_ccid_def command_sequence_def split: option.splits if_splits)

lemma journal_command_orderId: "journal_command h (message\<lparr>orderId := i\<rparr>) = journal_command h message"
  by (simp add: journal_command_def split: option.split)

text \<open>The order identifier that \<open>processNext\<close> sets.\<close>

definition with_orderId :: "sequenceMessage \<Rightarrow> sequenceMessage" where
  "with_orderId message =
     (if orderType_of message = BUY \<or> orderType_of message = SELL
      then message\<lparr>orderId := orderIdFrom_sequence (globalSequenceNumber message)\<rparr> else message)"

definition identified :: "sequenceMessage \<Rightarrow> bool" where
  "identified message \<longleftrightarrow>
     (if orderType_of message = BUY \<or> orderType_of message = SELL
      then orderId message = orderIdFrom_sequence (globalSequenceNumber message) else orderId message = 0)"

lemma with_orderId_simps [simp]:
  "journal_command h (with_orderId message) = journal_command h message"
  by (simp add: with_orderId_def journal_command_orderId)

text \<open>What the gateway puts into the ingress queue: the identifier of the command was constructed, and a cancel
  has no order identifier of its own.\<close>

definition ingress_ok :: "sequenceMessage \<Rightarrow> bool" where
  "ingress_ok message \<longleftrightarrow>
     (case clientCommandId message of None \<Rightarrow> True | Some ccid \<Rightarrow> valid_ClientCommandId ccid) \<and>
     (if orderType_of message = BUY \<or> orderType_of message = SELL then True else orderId message = 0)"

lemma identified_with_orderId: "ingress_ok message \<Longrightarrow> identified (with_orderId (message\<lparr>globalSequenceNumber := n\<rparr>))"
  by (auto simp: ingress_ok_def identified_def with_orderId_def)

section \<open>Invariant\<close>

text \<open>The commands in \<open>cs\<close> are what the matching engine has taken, what waits for it and what is about to be
  handed over. Once the sequencer stops with a command it could not finish, the file may hold one more.\<close>

definition ready_command :: "('q, 'f) Sequencer \<Rightarrow> sequenceMessage list" where
  "ready_command s =
     (if pendingReadyForMatching s then (case pendingCommand s of None \<Rightarrow> [] | Some m \<Rightarrow> [m]) else [])"

definition sequenced ::
  "('q \<Rightarrow> sequenceMessage list) \<Rightarrow> sequenceMessage list \<Rightarrow> ('q, 'f) Sequencer \<Rightarrow> sequenceMessage list" where
  "sequenced items taken s = taken @ items (matchingEngineQueue s) @ ready_command s"

definition journal_covers ::
  "('f \<Rightarrow> u8 list) \<Rightarrow> RunHeaderV1 \<Rightarrow> u8 list \<Rightarrow> (JournalCommandV1 \<times> u8 list) list \<Rightarrow> 'f RunJournalWriterV1 \<Rightarrow> bool" where
  "journal_covers contents h hf cs w \<longleftrightarrow>
     (\<exists>extra. writer_inv contents h hf (cs @ extra) w) \<or> (\<exists>c. torn_inv contents h hf cs c w)"

definition seq_inv ::
  "('q \<Rightarrow> sequenceMessage list) \<Rightarrow> ('f \<Rightarrow> u8 list) \<Rightarrow> ('f \<Rightarrow> nat) \<Rightarrow> nat \<Rightarrow> RunHeaderV1 \<Rightarrow> u8 list \<Rightarrow>
     sequenceMessage list \<Rightarrow> ('q, 'f) Sequencer \<Rightarrow> bool" where
  "seq_inv items contents interrupts fuel h hf taken s \<longleftrightarrow>
     list_all ingress_ok (items (sequencingIngressQueue s)) \<and>
     list_all identified (sequenced items taken s) \<and>
     (pendingReadyForMatching s \<longrightarrow> pendingCommand s \<noteq> None) \<and>
     (\<exists>w cs. journalWriter s = Some w \<and> interrupts (w_file w) + 143 < fuel \<and>
        map (journal_command h) (sequenced items taken s) = map (Some \<circ> fst) cs \<and>
        journal_covers contents h hf cs w \<and>
        (pendingCommand s = None \<or> pendingReadyForMatching s \<longrightarrow> writer_inv contents h hf cs w))"

lemma journal_coversI:
  "writer_inv contents h hf (cs @ extra) w \<Longrightarrow> journal_covers contents h hf cs w"
  "writer_inv contents h hf cs w \<Longrightarrow> journal_covers contents h hf cs w"
  "torn_inv contents h hf cs c w \<Longrightarrow> journal_covers contents h hf cs w"
  by (auto simp: journal_covers_def) (metis append_Nil2)

lemma handoff_keeps:
  assumes "lockfree_queue items push pop" and "handoffPendingCommand push s = (b, s')"
    and "pendingReadyForMatching s"
  shows "sequenced items taken s' = sequenced items taken s"
    and "journalWriter s' = journalWriter s" and "sequencingIngressQueue s' = sequencingIngressQueue s"
    and "pendingCommand s' = None \<or> pendingReadyForMatching s'"
    and "pendingReadyForMatching s' \<Longrightarrow> pendingCommand s \<noteq> None \<Longrightarrow> pendingCommand s' \<noteq> None"
    and "b \<Longrightarrow> pendingCommand s' = None" and "pendingCommand s' = None \<or> pendingCommand s' = pendingCommand s"
  using assms lockfree_pushD [OF assms(1), of "matchingEngineQueue s"]
  by (auto simp: handoffPendingCommand_def sequenced_def ready_command_def
      split: option.splits prod.splits bool.splits)

lemma seq_inv_handoff:
  assumes lf: "lockfree_queue items push pop" and inv: "seq_inv items contents interrupts fuel h hf taken s"
    and hand: "handoffPendingCommand push s = (b, s')" and ready: "pendingReadyForMatching s"
  shows "seq_inv items contents interrupts fuel h hf taken s'"
  using inv ready handoff_keeps [OF lf hand ready] by (auto simp: seq_inv_def)

text \<open>A new command after its journal record was committed.\<close>

lemma bindAndHandoff_keeps:
  assumes lf: "lockfree_queue items push pop"
    and ingress: "list_all ingress_ok (items (sequencingIngressQueue s))"
    and ids: "list_all identified (taken @ items (matchingEngineQueue s))" "identified (with_orderId m)"
    and w: "journalWriter s = Some w" "interrupts (w_file w) + 143 < fuel"
    and cs: "map (journal_command h) (taken @ items (matchingEngineQueue s)) = map (Some \<circ> fst) cs"
      "journal_command h m = Some c" "writer_inv contents h hf (cs @ [(c, frame)]) w"
    and idle: "\<not> pendingReadyForMatching s" and res: "bindAndHandoff push s m = (r, s')"
  shows "seq_inv items contents interrupts fuel h hf taken s' \<and>
    sequencingIngressQueue s' = sequencingIngressQueue s \<and> (r = Inr True \<longrightarrow> pendingCommand s' = None)"
proof -
  let ?s = "s\<lparr>pendingCommand := Some (with_orderId m)\<rparr>"
  have stop: "seq_inv items contents interrupts fuel h hf taken (?s\<lparr>seq_admissionIndex := i\<rparr>)" for i
    using ingress ids w cs idle journal_coversI(1) [OF cs(3)]
    by (auto simp: seq_inv_def sequenced_def ready_command_def)
  have go: "seq_inv items contents interrupts fuel h hf taken
      (?s\<lparr>seq_admissionIndex := i, pendingReadyForMatching := True\<rparr>)" for i
    using ingress ids w cs journal_coversI(2) [OF cs(3)]
    by (auto simp: seq_inv_def sequenced_def ready_command_def intro!: exI [of _ "cs @ [(c, frame)]"])
  have hand: "seq_inv items contents interrupts fuel h hf taken s2 \<and>
      sequencingIngressQueue s2 = sequencingIngressQueue s \<and> (b \<longrightarrow> pendingCommand s2 = None)"
    if "handoffPendingCommand push (?s\<lparr>seq_admissionIndex := i, pendingReadyForMatching := True\<rparr>) = (b, s2)" for i b s2
    using seq_inv_handoff [OF lf go that] handoff_keeps(3,6) [OF lf that] by simp
  have same: "?s\<lparr>seq_admissionIndex := seq_admissionIndex s\<rparr> = ?s" "?s\<lparr>pendingReadyForMatching := True\<rparr> =
      ?s\<lparr>seq_admissionIndex := seq_admissionIndex s, pendingReadyForMatching := True\<rparr>"
    by simp_all
  show ?thesis
    using res stop [of "seq_admissionIndex s", unfolded same(1)] stop hand
    by (auto simp: bindAndHandoff_def Let_def same(2) simp flip: with_orderId_def
        split: option.splits sum.splits prod.splits if_splits)
qed

text \<open>\<open>waiting\<close> bounds the successful steps of a drain.\<close>

definition waiting :: "('q \<Rightarrow> sequenceMessage list) \<Rightarrow> ('q, 'f) Sequencer \<Rightarrow> nat" where
  "waiting items s = length (items (sequencingIngressQueue s)) + of_bool (pendingCommand s \<noteq> None)"

lemma appendCommand_correct:
  assumes hook: "posix_append contents interrupts writeFile syncFile" and fuel: "interrupts (w_file w) + 143 < fuel"
    and inv: "writer_inv contents h hf cs w" and m: "ingress_ok m"
  shows "\<exists>res w'. appendCommand writeFile syncFile fuel w (m\<lparr>globalSequenceNumber := n\<rparr>) = Some (res, w') \<and>
    interrupts (w_file w') + 143 < fuel \<and>
    (if ar_outcome res = AO_COMMITTED
     then \<exists>c frame. journal_command h (m\<lparr>globalSequenceNumber := n\<rparr>) = Some c \<and> writer_inv contents h hf (cs @ [(c, frame)]) w'
     else journal_covers contents h hf cs w')"
proof -
  have h: "w_header w = h"
    using inv by (simp add: writer_inv_def)
  show ?thesis
  proof (cases "journal_command h (m\<lparr>globalSequenceNumber := n\<rparr>)")
    case None
    obtain res where "appendCommand writeFile syncFile fuel w (m\<lparr>globalSequenceNumber := n\<rparr>) = Some (res, w)"
        "ar_outcome res = AO_INVALID_COMMAND"
      using appendCommand_record(2) [of w, unfolded h, OF None, of writeFile syncFile fuel] by blast
    then show ?thesis
      using fuel journal_coversI(2) [OF inv] by (intro exI [of _ res] exI [of _ w]) simp
  next
    case (Some c)
    have "valid_ClientCommandId (command_ccid c)"
      using m journal_command_fields(1) [OF Some] by (simp add: ingress_ok_def)
    from append_correct [OF hook fuel inv this] obtain res w' where
      app: "append_command writeFile syncFile fuel w c = Some (res, w')" "interrupts (w_file w') \<le> interrupts (w_file w)"
        "case ar_outcome res of
           AO_COMMITTED \<Rightarrow> \<exists>frame. writer_inv contents h hf (cs @ [(c, frame)]) w'
         | AO_INVALID_COMMAND \<Rightarrow> w' = w
         | AO_CAPACITY_REACHED \<Rightarrow> w' = w
         | _ \<Rightarrow> torn_inv contents h hf cs c w'"
      by blast
    show ?thesis
      using appendCommand_record(1) [of w, unfolded h, OF Some, of writeFile syncFile fuel] app fuel Some
        journal_coversI(2) [OF inv] journal_coversI(3)
      by (auto split: RunJournalAppendOutcome.splits)
  qed
qed

lemma seq_processNext_correct:
  assumes lf: "lockfree_queue items push pop" and hook: "posix_append contents interrupts writeFile syncFile"
    and inv: "seq_inv items contents interrupts fuel h hf taken s"
  shows "\<exists>r s'. seq_processNext push pop isEmpty writeFile syncFile fuel s = Some (r, s') \<and>
    seq_inv items contents interrupts fuel h hf taken s' \<and> waiting items s' \<le> waiting items s \<and>
    (r = Inr True \<longrightarrow> waiting items s' < waiting items s)"
proof (cases "pendingCommand s")
  case (Some m)
  show ?thesis
  proof (cases "pendingReadyForMatching s")
    case True
    obtain b s' where hand: "handoffPendingCommand push s = (b, s')"
      by (cases "handoffPendingCommand push s")
    then show ?thesis
      using Some True seq_inv_handoff [OF lf inv hand True] handoff_keeps(3,6,7) [OF lf hand True]
      by (auto simp: seq_processNext_def waiting_def)
  qed (use Some inv in \<open>simp add: seq_processNext_def\<close>)
next
  case None
  from inv None obtain w cs where w: "journalWriter s = Some w" "interrupts (w_file w) + 143 < fuel"
    and cs: "map (journal_command h) (taken @ items (matchingEngineQueue s)) = map (Some \<circ> fst) cs"
      "writer_inv contents h hf cs w"
    and ids: "list_all identified (taken @ items (matchingEngineQueue s))"
    and ingress: "list_all ingress_ok (items (sequencingIngressQueue s))" and idle: "\<not> pendingReadyForMatching s"
    by (auto simp: seq_inv_def sequenced_def ready_command_def)
  obtain ok m q where pop: "SharedQueue_pop pop (sequencingIngressQueue s) empty_sequenceMessage = (ok, m, q)"
    by (cases "SharedQueue_pop pop (sequencingIngressQueue s) empty_sequenceMessage") auto
  note popD = lockfree_popD [OF lf pop]
  show ?thesis
  proof (cases ok)
    case False
    then show ?thesis
      using inv None w(1) pop by (simp add: seq_processNext_def)
  next
    case True
    then have items: "items (sequencingIngressQueue s) = m # items q"
      using popD by simp
    then have m: "ingress_ok m" "list_all ingress_ok (items q)"
      using ingress by simp_all
    let ?m = "m\<lparr>globalSequenceNumber := nextCommandSequence w\<rparr>"
    from appendCommand_correct [OF hook w(2) cs(2) m(1), of "nextCommandSequence w"] obtain res w' where
      app: "appendCommand writeFile syncFile fuel w ?m = Some (res, w')" "interrupts (w_file w') + 143 < fuel"
        "if ar_outcome res = AO_COMMITTED
         then \<exists>c frame. journal_command h ?m = Some c \<and> writer_inv contents h hf (cs @ [(c, frame)]) w'
         else journal_covers contents h hf cs w'"
      by blast
    let ?s = "s\<lparr>sequencingIngressQueue := q, pendingCommand := Some ?m, journalWriter := Some w'\<rparr>"
    show ?thesis
    proof (cases "ar_outcome res = AO_COMMITTED")
      case False
      have "seq_inv items contents interrupts fuel h hf taken (?s\<lparr>journalAppendFailure := Some res\<rparr>)"
        using idle m(2) ids cs(1) app(2,3) False by (auto simp: seq_inv_def sequenced_def ready_command_def)
      then show ?thesis
        using False None w(1) pop True app(1) items by (simp add: seq_processNext_def Let_def waiting_def)
    next
      case committed: True
      then obtain c frame where c: "journal_command h ?m = Some c" "writer_inv contents h hf (cs @ [(c, frame)]) w'"
        using app(3) by auto
      obtain r s' where bind: "bindAndHandoff push ?s ?m = (r, s')"
        by (cases "bindAndHandoff push ?s ?m")
      from bindAndHandoff_keeps [where interrupts = interrupts and w = w' and taken = taken,
          OF lf _ _ identified_with_orderId [OF m(1)] _ app(2) _ c _ bind]
      have "seq_inv items contents interrupts fuel h hf taken s' \<and> sequencingIngressQueue s' = q \<and>
          (r = Inr True \<longrightarrow> pendingCommand s' = None)"
        using m(2) ids cs(1) idle by simp
      then show ?thesis
        using committed None w(1) pop True app(1) items bind by (auto simp: seq_processNext_def Let_def waiting_def)
    qed
  qed
qed

lemma drainAvailable_correct:
  assumes lf: "lockfree_queue items push pop" and hook: "posix_append contents interrupts writeFile syncFile"
    and "seq_inv items contents interrupts fuel h hf taken s" and "waiting items s < n"
  shows "\<exists>r s'. drainAvailable push pop isEmpty writeFile syncFile fuel n progressed s = Some (r, s') \<and>
    seq_inv items contents interrupts fuel h hf taken s' \<and> waiting items s' \<le> waiting items s"
  using assms(3,4)
proof (induction n arbitrary: s progressed)
  case (Suc n)
  from seq_processNext_correct [OF lf hook Suc.prems(1), of isEmpty] obtain r s1 where
    step: "seq_processNext push pop isEmpty writeFile syncFile fuel s = Some (r, s1)"
      "seq_inv items contents interrupts fuel h hf taken s1" "waiting items s1 \<le> waiting items s"
      "r = Inr True \<longrightarrow> waiting items s1 < waiting items s"
    by blast
  show ?case
  proof (cases "r = Inr True")
    case True
    then have "waiting items s1 < n"
      using step(4) Suc.prems(2) by simp
    from Suc.IH [OF step(2) this, of True] show ?thesis
      using step(1,3) True by auto
  next
    case False
    then show ?thesis
      using step by (auto split: sum.splits bool.splits)
  qed
qed simp

section \<open>Runs\<close>

text \<open>\<open>Ingest\<close> is the push of the gateway, \<open>Cycle\<close> one call of \<open>advance\<close>, \<open>Take\<close> the pop of the matching engine;
  other threads may change the admission index between the calls. Commands taken by the matching engine are
  collected.\<close>

datatype sequencer_call = Ingest sequenceMessage | Cycle | Take | Index_changed CommandAdmissionIndex

fun sequencer_run ::
  "('q, sequenceMessage) queue_push \<Rightarrow> ('q, sequenceMessage) queue_pop \<Rightarrow> ('q \<Rightarrow> bool) \<Rightarrow>
     'f write_hook \<Rightarrow> 'f sync_hook \<Rightarrow> nat \<Rightarrow> nat \<Rightarrow> sequencer_call list \<Rightarrow> ('q, 'f) Sequencer \<Rightarrow>
     (sequenceMessage list \<times> ('q, 'f) Sequencer) option" where
  "sequencer_run push pop isEmpty writeFile syncFile fuel n [] s = Some ([], s)"
| "sequencer_run push pop isEmpty writeFile syncFile fuel n (Ingest m # calls) s =
     sequencer_run push pop isEmpty writeFile syncFile fuel n calls
       (s\<lparr>sequencingIngressQueue := snd (SharedQueue_push push (sequencingIngressQueue s) m)\<rparr>)"
| "sequencer_run push pop isEmpty writeFile syncFile fuel n (Cycle # calls) s =
     Option.bind (seq_advance push pop isEmpty writeFile syncFile fuel n s) (\<lambda>(_, s).
       sequencer_run push pop isEmpty writeFile syncFile fuel n calls s)"
| "sequencer_run push pop isEmpty writeFile syncFile fuel n (Take # calls) s =
     (case SharedQueue_pop pop (matchingEngineQueue s) empty_sequenceMessage of
        (False, _, _) \<Rightarrow> sequencer_run push pop isEmpty writeFile syncFile fuel n calls s
      | (True, m, q) \<Rightarrow>
          Option.bind (sequencer_run push pop isEmpty writeFile syncFile fuel n calls (s\<lparr>matchingEngineQueue := q\<rparr>))
            (\<lambda>(taken, s). Some (m # taken, s)))"
| "sequencer_run push pop isEmpty writeFile syncFile fuel n (Index_changed idx # calls) s =
     sequencer_run push pop isEmpty writeFile syncFile fuel n calls (s\<lparr>seq_admissionIndex := Some idx\<rparr>)"

definition call_ok :: "sequencer_call \<Rightarrow> bool" where
  "call_ok call = (case call of Ingest m \<Rightarrow> ingress_ok m | _ \<Rightarrow> True)"

lemma sequencer_run_correct:
  assumes lf: "lockfree_queue items push pop" and hook: "posix_append contents interrupts writeFile syncFile"
    and "seq_inv items contents interrupts fuel h hf taken0 s" and "list_all call_ok calls"
    and "waiting items s + length calls < n"
  shows "\<exists>taken s'. sequencer_run push pop isEmpty writeFile syncFile fuel n calls s = Some (taken, s') \<and>
    seq_inv items contents interrupts fuel h hf (taken0 @ taken) s'"
  using assms(3-)
proof (induction calls arbitrary: s taken0)
  case (Cons call calls)
  show ?case
  proof (cases call)
    case (Ingest m)
    obtain ok q where push: "SharedQueue_push push (sequencingIngressQueue s) m = (ok, q)"
      by (cases "SharedQueue_push push (sequencingIngressQueue s) m")
    have q: "items q = items (sequencingIngressQueue s) @ (if ok then [m] else [])"
      using lockfree_pushD [OF lf push] by simp
    have "sequenced items taken0 (s\<lparr>sequencingIngressQueue := q\<rparr>) = sequenced items taken0 s"
      by (simp add: sequenced_def ready_command_def)
    then have "seq_inv items contents interrupts fuel h hf taken0 (s\<lparr>sequencingIngressQueue := q\<rparr>)"
      using Cons.prems(1,2) Ingest q by (simp add: seq_inv_def call_ok_def)
    from Cons.IH [OF this] show ?thesis
      using Cons.prems(2,3) Ingest push q by (simp add: waiting_def split: if_splits)
  next
    case Cycle
    have "waiting items s < n"
      using Cons.prems(3) by simp
    from drainAvailable_correct [OF lf hook Cons.prems(1) this, of isEmpty False] obtain r s1 where
      "seq_advance push pop isEmpty writeFile syncFile fuel n s = Some (r, s1)"
      "seq_inv items contents interrupts fuel h hf taken0 s1" "waiting items s1 \<le> waiting items s"
      by (auto simp: seq_advance_def)
    then show ?thesis
      using Cons.IH [of taken0 s1] Cons.prems(2,3) Cycle by auto
  next
    case Take
    obtain ok m q where pop: "SharedQueue_pop pop (matchingEngineQueue s) empty_sequenceMessage = (ok, m, q)"
      by (cases "SharedQueue_pop pop (matchingEngineQueue s) empty_sequenceMessage") auto
    show ?thesis
    proof (cases ok)
      case False
      then show ?thesis
        using Cons.IH [OF Cons.prems(1)] Cons.prems(2,3) Take pop by simp
    next
      case True
      then have "items (matchingEngineQueue s) = m # items q"
        using lockfree_popD [OF lf pop] by simp
      then have "sequenced items (taken0 @ [m]) (s\<lparr>matchingEngineQueue := q\<rparr>) = sequenced items taken0 s"
        by (simp add: sequenced_def ready_command_def)
      then have "seq_inv items contents interrupts fuel h hf (taken0 @ [m]) (s\<lparr>matchingEngineQueue := q\<rparr>)"
        using Cons.prems(1) by (simp add: seq_inv_def)
      from Cons.IH [OF this] show ?thesis
        using Cons.prems(2,3) Take pop True by (auto simp: waiting_def)
    qed
  next
    case (Index_changed idx)
    have "sequenced items taken0 (s\<lparr>seq_admissionIndex := Some idx\<rparr>) = sequenced items taken0 s"
      by (simp add: sequenced_def ready_command_def)
    then have "seq_inv items contents interrupts fuel h hf taken0 (s\<lparr>seq_admissionIndex := Some idx\<rparr>)"
      using Cons.prems(1) by (simp add: seq_inv_def)
    from Cons.IH [OF this] show ?thesis
      using Cons.prems(2,3) Index_changed by (simp add: waiting_def)
  qed
qed simp

lemma fresh_sequencer_inv:
  assumes "encodeRunHeaderV1 h = Inr hf" and "contents f = hf" and "interrupts f + 143 < fuel"
    and "items ingress = []" and "items matching = []"
    and "make_journal_Sequencer ingress matching idx (make_RunJournalWriterV1 f h (of_nat (length hf))) = Inr s"
  shows "seq_inv items contents interrupts fuel h hf [] s" and "waiting items s = 0"
proof -
  have "writer_inv contents h hf [] (make_RunJournalWriterV1 f h (of_nat (length hf)))"
    by (rule fresh_writer_inv [where contents = contents, OF assms(1,2)])
  then show "seq_inv items contents interrupts fuel h hf [] s" and "waiting items s = 0"
    using assms(3-6) journal_coversI(2)
    by (auto simp: make_journal_Sequencer_def seq_inv_def sequenced_def ready_command_def waiting_def
        make_RunJournalWriterV1_def split: if_splits)
qed

end
