(* ===== verification/Journal_Replay.thy ===== *)
theory Journal_Replay
  imports Matching_Worker Matching_Selfcheck Journal_Loading
begin

text \<open>
  Replaying a loaded journal into a fresh matching state, \<open>matching_engine/src/run_journal_replay.cpp\<close>, and why
  the results are those of the live run. Allocation always succeeds, so \<open>INTERNAL_FAILURE\<close> does not occur.
\<close>

section \<open>Data\<close>

datatype RunJournalReplayOutcome = RO_REPLAYED | RO_INVALID_JOURNAL | RO_INVARIANT_FAILURE | RO_INTERNAL_FAILURE

datatype RunJournalReplayError =
    RE_NONE | RE_HEADER_CONTEXT_MISMATCH | RE_COMMAND_COUNT_EXCEEDED | RE_COMMAND_SEQUENCE_MISMATCH
  | RE_EXCHANGE_RUN_ID_MISMATCH | RE_BEHAVIORAL_RULES_VERSION_MISMATCH | RE_INSTRUMENT_CONFIGURATION_MISMATCH
  | RE_MATCHING_INVARIANT_FAILURE

record RunJournalReplayResult =
  rp_outcome :: RunJournalReplayOutcome
  rp_error :: RunJournalReplayError

record ReplayedRunJournalV1 =
  commandResults :: "CommandResultBatch list"
  replayedState :: "MatchingState option"

definition replayResult :: "RunJournalReplayOutcome \<Rightarrow> RunJournalReplayError \<Rightarrow> RunJournalReplayResult" where
  "replayResult oc err = \<lparr>rp_outcome = oc, rp_error = err\<rparr>"

section \<open>Operations\<close>

definition validateConfiguration :: "RunHeaderV1 \<Rightarrow> InstrumentId \<Rightarrow> u32 \<Rightarrow> RunJournalReplayError" where
  "validateConfiguration header i version =
     (case lower_bound (rh_instruments header) i of
        None \<Rightarrow> RE_INSTRUMENT_CONFIGURATION_MISMATCH
      | Some instrument \<Rightarrow>
          if hi_instrumentId instrument \<noteq> i \<or> hi_configurationVersion instrument \<noteq> version
          then RE_INSTRUMENT_CONFIGURATION_MISMATCH else RE_NONE)"

definition matchingMessageFrom_new_order :: "JournalNewOrderV1 \<Rightarrow> sequenceMessage" where
  "matchingMessageFrom_new_order command = empty_sequenceMessage
     \<lparr>orderId := orderIdFrom_sequence (jn_commandSequence command),
      globalSequenceNumber := jn_commandSequence command, clientId := jn_clientId command,
      clientCommandId := Some (jn_clientCommandId command), instrumentId := jn_instrumentId command,
      configurationVersion := ucast (jn_configurationVersion command), price := jn_price command,
      quantity := jn_quantity command, orderType_of := (if jn_side command = Side_BUY then BUY else SELL),
      tif := jn_timeInForce command\<rparr>"

definition matchingMessageFrom_cancel :: "JournalCancelV1 \<Rightarrow> sequenceMessage" where
  "matchingMessageFrom_cancel command = empty_sequenceMessage
     \<lparr>targetOrderId := Some (jc_targetOrderId command), globalSequenceNumber := jc_commandSequence command,
      clientId := jc_clientId command, clientCommandId := Some (jc_clientCommandId command),
      instrumentId := jc_instrumentId command, configurationVersion := ucast (jc_configurationVersion command),
      orderType_of := CANCEL\<rparr>"

definition matchingMessageFrom :: "JournalCommandV1 \<Rightarrow> sequenceMessage" where
  "matchingMessageFrom c =
     (case c of JournalNewOrder n \<Rightarrow> matchingMessageFrom_new_order n | JournalCancel x \<Rightarrow> matchingMessageFrom_cancel x)"

definition replay_validateCommandContext ::
  "RunHeaderV1 \<Rightarrow> JournalCommandV1 \<Rightarrow> CommandSequence \<Rightarrow> RunJournalReplayError" where
  "replay_validateCommandContext header c expectedSequence =
     (let (runId, sequence, rulesVersion, i, version) =
        (case c of
           JournalNewOrder n \<Rightarrow> (jn_exchangeRunId n, jn_commandSequence n, jn_behavioralRulesVersion n,
             jn_instrumentId n, jn_configurationVersion n)
         | JournalCancel x \<Rightarrow> (jc_exchangeRunId x, jc_commandSequence x, jc_behavioralRulesVersion x,
             jc_instrumentId x, jc_configurationVersion x)) in
      if sequence \<noteq> expectedSequence then RE_COMMAND_SEQUENCE_MISMATCH
      else if runId \<noteq> rh_exchangeRunId header then RE_EXCHANGE_RUN_ID_MISMATCH
      else if rulesVersion \<noteq> rh_behavioralRulesVersion header then RE_BEHAVIORAL_RULES_VERSION_MISMATCH
      else validateConfiguration header i version)"

text \<open>The loop; an exception of the matching engine is caught and becomes an invariant failure.\<close>

fun replayLoop ::
  "RunHeaderV1 \<Rightarrow> MatchingState \<Rightarrow> CommandResultBatch list \<Rightarrow> u64 \<Rightarrow> JournalCommandV1 list \<Rightarrow>
     RunJournalReplayResult + MatchingState \<times> CommandResultBatch list" where
  "replayLoop header st results expectedSequence [] = Inr (st, results)"
| "replayLoop header st results expectedSequence (c # cs) =
     (let contextError = replay_validateCommandContext header c expectedSequence in
      if contextError \<noteq> RE_NONE then Inl (replayResult RO_INVALID_JOURNAL contextError)
      else case processCommand st (matchingMessageFrom c) of
             Inl _ \<Rightarrow> Inl (replayResult RO_INVARIANT_FAILURE RE_MATCHING_INVARIANT_FAILURE)
           | Inr (st, batch) \<Rightarrow> replayLoop header st (results @ [batch]) (expectedSequence + 1) cs)"

definition replayPreparedRunJournalV1 ::
  "LoadedRunJournalV1 \<Rightarrow> ReplayedRunJournalV1 \<Rightarrow> RunJournalReplayResult \<times> ReplayedRunJournalV1" where
  "replayPreparedRunJournalV1 journal outp =
     (case encodeRunHeaderV1 (lj_header journal) of
        Inl _ \<Rightarrow> (replayResult RO_INVALID_JOURNAL RE_HEADER_CONTEXT_MISMATCH, outp)
      | Inr _ \<Rightarrow>
          if length (lj_commands journal) > unat (rh_maxRunCommands (lj_header journal))
          then (replayResult RO_INVALID_JOURNAL RE_COMMAND_COUNT_EXCEEDED, outp)
          else
          case replayLoop (lj_header journal) (init_MatchingState (rh_exchangeRunId (lj_header journal))) [] 1
                 (lj_commands journal) of
            Inl res \<Rightarrow> (res, outp)
          | Inr (st, results) \<Rightarrow>
              if \<not> invariantsHold st then (replayResult RO_INVARIANT_FAILURE RE_MATCHING_INVARIANT_FAILURE, outp)
              else (replayResult RO_REPLAYED RE_NONE,
                    \<lparr>commandResults = results, replayedState = Some st\<rparr>))"

section \<open>Messages that ask for the same\<close>

text \<open>The fields of a message that the matching engine reads.\<close>

definition same_command :: "sequenceMessage \<Rightarrow> sequenceMessage \<Rightarrow> bool" where
  "same_command m m' \<longleftrightarrow>
     orderId m = orderId m' \<and> globalSequenceNumber m = globalSequenceNumber m' \<and> clientId m = clientId m' \<and>
     clientCommandId m = clientCommandId m' \<and> instrumentId m = instrumentId m' \<and>
     configurationVersion m = configurationVersion m' \<and> orderType_of m = orderType_of m' \<and>
     (if orderType_of m = CANCEL then targetOrderId m = targetOrderId m'
      else price m = price m' \<and> quantity m = quantity m' \<and> tif m = tif m')"

lemma same_command_refl [simp]: "same_command m m"
  by (simp add: same_command_def)

lemma event_id_same: "same_command m m' \<Longrightarrow> event_id runId m = event_id runId m'"
  by (auto simp: same_command_def event_id_def fun_eq_iff)

lemma trade_reports_same:
  "same_command m m' \<Longrightarrow> trade_reports runId m idx q fs = trade_reports runId m' idx q fs"
  by (induction runId m idx q fs rule: trade_reports.induct)
    (auto simp: trade_report_def event_id_def same_command_def)

lemma reports_same:
  assumes "same_command m m'"
  shows "rejection runId m = rejection runId m'" and "cancel_report runId m = cancel_report runId m'"
    and "orderType_of m \<noteq> CANCEL \<Longrightarrow> own_resting m = own_resting m'"
    and "orderType_of m \<noteq> CANCEL \<Longrightarrow> remainder_event runId m = remainder_event runId m'"
  using event_id_same [OF assms, of runId] assms
  by (auto simp: fun_eq_iff rejection_def cancel_report_def own_resting_def remainder_event_def same_command_def)

lemma spec_command_same:
  assumes "same_command m m'"
  shows "spec_command runId m b = spec_command runId m' b"
proof (cases "orderType_of m = CANCEL")
  case True
  then have "spec_cancel runId m b = spec_cancel runId m' b"
    using assms reports_same(1,2) [OF assms]
    by (simp add: spec_cancel_def same_command_def Let_def split: option.split)
  then show ?thesis
    using True assms by (simp add: spec_command_def same_command_def)
next
  case False
  then have "spec_order runId m b = spec_order runId m' b"
    using assms reports_same [OF assms] trade_reports_same [OF assms]
    by (auto simp: spec_order_def same_command_def Let_def split: prod.split)
  then show ?thesis
    using False assms by (simp add: spec_command_def same_command_def)
qed

lemma spec_batch_same: "same_command m m' \<Longrightarrow> spec_batch runId m b = spec_batch runId m' b"
  using spec_command_same [of m m' runId b]
  by (simp add: spec_batch_def command_correlation_def) (simp add: same_command_def)

lemma normalized_same: "same_command m m' \<Longrightarrow> normalized_command m \<Longrightarrow> normalized_command m'"
  by (cases "orderType_of m = CANCEL"; simp add: same_command_def normalized_command_def)

lemma numbered_run_snoc: "numbered_run (ms @ [m]) \<Longrightarrow>
    numbered_run ms \<and> normalized_command m \<and> globalSequenceNumber m = of_nat (Suc (length ms)) \<and> Suc (length ms) < 2 ^ 64"
  using numbered_run_append [of ms "[m]"] by (auto simp: numbered_run_def dest: spec [of _ "length ms"])

text \<open>Two runs of messages that ask for the same give the same results and the same book.\<close>

lemma run_commands_same:
  assumes "list_all2 same_command ms ms'" and "numbered_run ms"
  shows "\<exists>st st' batches. run_commands (init_MatchingState runId) ms = Inr (st, batches) \<and>
    run_commands (init_MatchingState runId) ms' = Inr (st', batches) \<and> length batches = length ms \<and>
    abs_book st = abs_book st' \<and> run_inv runId (length ms) st \<and> run_inv runId (length ms) st'"
  using assms
proof (induction ms arbitrary: ms' rule: rev_induct)
  case Nil
  then show ?case by (simp add: run_inv_init)
next
  case (snoc m ms)
  from snoc.prems(1) obtain ms1 m1 where ms': "ms' = ms1 @ [m1]" and eq: "list_all2 same_command ms ms1" "same_command m m1"
    by (auto simp: list_all2_append1 list_all2_Cons1)
  note m = numbered_run_snoc [OF snoc.prems(2)]
  from snoc.IH [OF eq(1)] m obtain st st' batches where
    ih: "run_commands (init_MatchingState runId) ms = Inr (st, batches)"
      "run_commands (init_MatchingState runId) ms1 = Inr (st', batches)" "length batches = length ms"
      "abs_book st = abs_book st'" "run_inv runId (length ms) st" "run_inv runId (length ms) st'"
    by blast
  have m1: "normalized_command m1" "globalSequenceNumber m1 = of_nat (Suc (length ms))"
    using normalized_same [OF eq(2)] m eq(2) by (auto simp: same_command_def)
  from processCommand_refines [OF ih(5)] m obtain u where
    u: "processCommand st m = Inr (u, spec_batch runId m (abs_book st))"
      "abs_book u = fst (spec_command runId m (abs_book st))" "run_inv runId (Suc (length ms)) u"
    by blast
  from processCommand_refines [OF ih(6) m1] m obtain v where
    v: "processCommand st' m1 = Inr (v, spec_batch runId m1 (abs_book st'))"
      "abs_book v = fst (spec_command runId m1 (abs_book st'))" "run_inv runId (Suc (length ms)) v"
    by blast
  show ?case
    using ih u v spec_batch_same [OF eq(2), of runId "abs_book st"] spec_command_same [OF eq(2), of runId "abs_book st"]
    by (simp add: ms' run_commands_snoc)
qed

section \<open>Replaying a journal\<close>

text \<open>The instruments of a header that lists the one configured instrument.\<close>

definition spy_header :: "RunHeaderV1 \<Rightarrow> bool" where
  "spy_header h \<longleftrightarrow>
     rh_instruments h = [\<lparr>hi_instrumentId = ic_instrumentId SPY_V1,
                          hi_configurationVersion = ucast (ic_configurationVersion SPY_V1)\<rparr>]"

lemma next_command_replays:
  assumes next': "next_command h committed expected c frame" and spy: "spy_header h"
    and enc: "encodeRunHeaderV1 h = Inr hf"
  shows "normalized_command (matchingMessageFrom c)" and "globalSequenceNumber (matchingMessageFrom c) = expected"
    and "replay_validateCommandContext h c expected = RE_NONE"
proof -
  obtain n where "validateHeader h = Inr n"
    using encodeRunHeaderV1_Inr [OF enc] by blast
  then have rules: "rh_behavioralRulesVersion h = 1"
    by (auto simp: validateHeader_def layout split: if_splits)
  show "globalSequenceNumber (matchingMessageFrom c) = expected"
    using next'
    by (auto simp: next_command_def matchingMessageFrom_def matchingMessageFrom_new_order_def command_sequence_def
        matchingMessageFrom_cancel_def split: JournalCommandV1.splits)
  have "normalized_command (matchingMessageFrom c) \<and> replay_validateCommandContext h c expected = RE_NONE"
  proof (cases c)
    case (JournalNewOrder o')
    note v = encodeNewOrderV1_Inr [of o' frame]
    have "encodeNewOrderV1 o' = Inr frame" "instrument_configured h (jn_instrumentId o') (jn_configurationVersion o')"
      "jn_exchangeRunId o' = rh_exchangeRunId h" "jn_commandSequence o' = expected"
      using next' JournalNewOrder
      by (simp_all add: next_command_def encodeCommand_def command_configured_def command_run_def command_sequence_def)
    then show ?thesis
      using v spy rules JournalNewOrder
      by (auto simp: normalized_command_def matchingMessageFrom_def matchingMessageFrom_new_order_def SPY_V1_def
          spy_header_def instrument_configured_def lower_bound_def validateCommonCommand_def tif_code_def
          replay_validateCommandContext_def validateConfiguration_def layout
          split: if_splits TimeInForce.splits option.splits)
  next
    case (JournalCancel x)
    note v = encodeCancelV1_Inr [of x frame]
    have "encodeCancelV1 x = Inr frame" "instrument_configured h (jc_instrumentId x) (jc_configurationVersion x)"
      "jc_exchangeRunId x = rh_exchangeRunId h" "jc_commandSequence x = expected"
      using next' JournalCancel
      by (simp_all add: next_command_def encodeCommand_def command_configured_def command_run_def command_sequence_def)
    then show ?thesis
      using v spy rules JournalCancel
      by (auto simp: normalized_command_def matchingMessageFrom_def matchingMessageFrom_cancel_def SPY_V1_def
          spy_header_def instrument_configured_def lower_bound_def validateCommonCommand_def empty_sequenceMessage_def
          replay_validateCommandContext_def validateConfiguration_def layout split: if_splits option.splits)
  qed
  then show "normalized_command (matchingMessageFrom c)" "replay_validateCommandContext h c expected = RE_NONE"
    by simp_all
qed

lemma replayLoop_run_commands:
  assumes "next_commands h committed expected cs" and "spy_header h" and "encodeRunHeaderV1 h = Inr hf"
  shows "replayLoop h st results expected (map fst cs) =
    (case run_commands st (map (matchingMessageFrom \<circ> fst) cs) of
       Inl _ \<Rightarrow> Inl (replayResult RO_INVARIANT_FAILURE RE_MATCHING_INVARIANT_FAILURE)
     | Inr (st, batches) \<Rightarrow> Inr (st, results @ batches))"
  using assms(1)
proof (induction cs arbitrary: committed expected st results)
  case (Cons x cs)
  obtain c frame where x: "x = (c, frame)" by (cases x)
  have "replay_validateCommandContext h c expected = RE_NONE"
    using next_command_replays(3) [OF _ assms(2,3)] Cons.prems x by auto
  then show ?case
    using Cons.IH [of "committed + length frame" "expected + 1"] Cons.prems x
    by (auto simp: bind_result_def comp_def split: sum.splits prod.splits)
qed simp

lemma journal_numbered:
  assumes "next_commands h committed expected cs" and "spy_header h" and "encodeRunHeaderV1 h = Inr hf"
  shows "i < length cs \<Longrightarrow> normalized_command (matchingMessageFrom (fst (cs ! i))) \<and>
    globalSequenceNumber (matchingMessageFrom (fst (cs ! i))) = expected + of_nat i"
  using assms(1)
proof (induction cs arbitrary: committed expected i)
  case (Cons x cs)
  obtain c frame where x: "x = (c, frame)" by (cases x)
  have "normalized_command (matchingMessageFrom c) \<and> globalSequenceNumber (matchingMessageFrom c) = expected"
    using next_command_replays(1,2) [OF _ assms(2,3)] Cons.prems x by auto
  then show ?case
    using Cons.IH [of _ "committed + length frame" "expected + 1"] Cons.prems x by (cases i) (auto simp: add.commute)
qed simp

lemma journal_numbered_run:
  assumes "journal_of h hf cs" and "spy_header h"
  shows "numbered_run (map (matchingMessageFrom \<circ> fst) cs)"
proof -
  have "length cs < 2 ^ 64"
    using assms(1) unsigned_less [of "rh_maxRunCommands h", where 'a = nat] by (simp add: journal_of_def)
  then show ?thesis
    using assms journal_numbered [of h "length hf" 1 cs hf]
    by (auto simp: journal_of_def numbered_run_def add.commute)
qed

lemma replay_journal:
  assumes j: "journal_of h hf cs" and spy: "spy_header h"
  shows "\<exists>st batches. run_commands (init_MatchingState (rh_exchangeRunId h)) (map (matchingMessageFrom \<circ> fst) cs) =
      Inr (st, batches) \<and> length batches = length cs \<and> reachable (rh_exchangeRunId h) (length cs) st \<and>
    replayPreparedRunJournalV1 \<lparr>lj_header = h, lj_commands = map fst cs, validCommittedByteCount = n\<rparr> outp =
      (replayResult RO_REPLAYED RE_NONE, \<lparr>commandResults = batches, replayedState = Some st\<rparr>)"
proof -
  from run_commands_total [OF journal_numbered_run [OF assms], of "rh_exchangeRunId h"] obtain st batches where
    run: "run_commands (init_MatchingState (rh_exchangeRunId h)) (map (matchingMessageFrom \<circ> fst) cs) = Inr (st, batches)"
      "length batches = length cs" "reachable (rh_exchangeRunId h) (length cs) st"
    by auto
  have "invariantsHold st"
    using reachable_run_inv [OF run(3)] by (simp add: run_inv_def wf_invariantsHold)
  then show ?thesis
    using run j replayLoop_run_commands [of h "length hf" 1 cs hf "init_MatchingState (rh_exchangeRunId h)" "[]"] spy
    by (auto simp: replayPreparedRunJournalV1_def journal_of_def)
qed

end
