(* ===== verification/Crash_Recovery.thy ===== *)
theory Crash_Recovery
  imports Sequencer_Runs Journal_Replay
begin

text \<open>
  The components together: what the sequencer journals, the reader loads after a crash and the replay runs again
  is what the matching engine was given.
\<close>

section \<open>Loading the journal of a sequencer\<close>

lemma next_commands_append:
  "next_commands h committed expected (xs @ ys) \<longleftrightarrow>
     next_commands h committed expected xs \<and>
     next_commands h (committed + frames_length xs) (expected + of_nat (length xs)) ys"
  by (induction h committed expected xs rule: next_commands.induct) (simp_all add: add_ac)

lemma journal_of_prefix: "journal_of h hf (cs @ rest) \<Longrightarrow> journal_of h hf cs"
  by (simp add: journal_of_def next_commands_append)

lemma journal_sequence:
  assumes "next_commands h committed expected cs"
  shows "i < length cs \<Longrightarrow> command_sequence (fst (cs ! i)) = expected + of_nat i"
  using assms
proof (induction h committed expected cs arbitrary: i rule: next_commands.induct)
  case (2 h committed expected c frame cs)
  then show ?case
    by (cases i) (auto simp: next_command_def add.commute)
qed simp

lemma journal_covers_journal: "journal_covers contents h hf cs w \<Longrightarrow> journal_of h hf cs"
  by (auto simp: journal_covers_def writer_inv_def torn_inv_def dest: journal_of_prefix)

lemma load_covered:
  assumes hook: "posix_read remaining interrupts readFile" and fuel: "interrupts g < fuel"
    and rem: "remaining g = take k (contents (w_file w))"
    and k: "unat (committedByteCount w) \<le> k" "k \<le> length (contents (w_file w))"
    and w: "journal_covers contents h hf cs w"
  shows "\<exists>res cs' n g'. loadRunJournalV1FromDescriptorWithHooks readFile fuel g outp =
      Some (res, \<lparr>lj_header = h, lj_commands = map fst (cs @ cs'), validCommittedByteCount = n\<rparr>, g') \<and>
    journal_of h hf (cs @ cs')"
  using w unfolding journal_covers_def
proof
  assume "\<exists>extra. writer_inv contents h hf (cs @ extra) w"
  then obtain extra where inv: "writer_inv contents h hf (cs @ extra) w" by blast
  then have "unat (committedByteCount w) = length (journal_bytes hf (cs @ extra))"
    using unsigned_less [of "rh_maxRunJournalBytes h", where 'a = nat] by (simp add: writer_inv_def unat_of_nat)
  then have "journal_of h hf (cs @ extra)" "k = length (journal_bytes hf (cs @ extra))"
      "remaining g = take k (journal_bytes hf (cs @ extra))"
    using inv k rem by (simp_all add: writer_inv_def)
  then show ?thesis
    using load_prefix [OF hook fuel, of h hf "cs @ extra" k outp]
      complete_within_all [of "cs @ extra" "frames_length (cs @ extra)"]
    by (simp add: length_journal_bytes) blast
next
  assume "\<exists>c. torn_inv contents h hf cs c w"
  then obtain c frame n where t: "journal_of h hf (cs @ [(c, frame)])" "n \<le> length frame"
      "contents (w_file w) = journal_bytes hf cs @ take n frame"
      "unat (committedByteCount w) = length (journal_bytes hf cs)"
    using unsigned_less [of "rh_maxRunJournalBytes h", where 'a = nat] by (auto simp: torn_inv_def unat_of_nat)
  have k': "length hf \<le> k" "frames_length cs \<le> k - length hf" "k \<le> length (journal_bytes hf (cs @ [(c, frame)]))"
    using k t(2-4) by (simp_all add: length_journal_bytes journal_bytes_snoc)
  have "remaining g = take k (journal_bytes hf (cs @ [(c, frame)]))"
    using rem k(2) t(2,3) by (auto simp: journal_bytes_snoc min_def split: if_splits)
  note load = load_prefix [OF hook fuel t(1) this k'(1,3), of outp, unfolded complete_within_snoc [OF k'(2)]]
  define cs' where "cs' = (if frames_length cs + length frame \<le> k - length hf then [(c, frame)] else [])"
  have "journal_of h hf (cs @ cs')"
    using t(1) journal_of_prefix [OF t(1)] by (simp add: cs'_def)
  then show ?thesis
    using load [folded cs'_def] by blast
qed

section \<open>Replaying what was sequenced\<close>

lemma ucast_ucast_u32:
  fixes v :: u64
  assumes "unat v \<le> UINT32_MAX"
  shows "ucast (ucast v :: u32) = v"
proof -
  have "take_bit 32 (unat v) = unat v"
    by (rule take_bit_nat_eq_self) (use assms in \<open>simp add: UINT32_MAX_def\<close>)
  then show ?thesis
    by (simp add: word_unat_eq_iff unsigned_ucast_eq unsigned_take_bit_eq)
qed

lemma journaled_message_same:
  assumes "journal_command h m = Some c" and "identified m"
  shows "same_command (matchingMessageFrom c) m"
  using assms ucast_ucast_u32 [of "configurationVersion m"]
  by (auto simp: journal_command_def identified_def same_command_def matchingMessageFrom_def
      matchingMessageFrom_new_order_def matchingMessageFrom_cancel_def empty_sequenceMessage_def
      split: option.splits if_splits)

lemma run_commands_append:
  "run_commands st (xs @ ys) =
     bind_result (run_commands st xs) (\<lambda>(st, bs). bind_result (run_commands st ys) (\<lambda>(st, bs'). Inr (st, bs @ bs')))"
  by (induction st xs rule: run_commands.induct) (auto simp: bind_result_def split: sum.splits prod.splits)

lemma replay_extends:
  assumes j: "journal_of h hf (cs @ cs')" and spy: "spy_header h"
    and same: "map (journal_command h) ms = map (Some \<circ> fst) cs" and ids: "list_all identified ms"
    and live: "run_commands (init_MatchingState (rh_exchangeRunId h)) ms = Inr (st, batches)"
  shows "\<exists>replayed extra. replayPreparedRunJournalV1
      \<lparr>lj_header = h, lj_commands = map fst (cs @ cs'), validCommittedByteCount = n\<rparr> outp =
        (replayResult RO_REPLAYED RE_NONE, replayed) \<and> commandResults replayed = batches @ extra"
proof -
  let ?init = "init_MatchingState (rh_exchangeRunId h)"
  have len: "length ms = length cs"
    using arg_cong [OF same, of length] by simp
  have "same_command (matchingMessageFrom (fst (cs ! i))) (ms ! i)" if "i < length cs" for i
    using that len arg_cong [OF same, of "\<lambda>xs. xs ! i"] ids
    by (intro journaled_message_same [of h]) (simp_all add: list_all_length)
  then have "list_all2 same_command (map (matchingMessageFrom \<circ> fst) cs) ms"
    by (simp add: list_all2_conv_all_nth len)
  moreover have "numbered_run (map (matchingMessageFrom \<circ> fst) cs)"
    using numbered_run_append [of _ "map (matchingMessageFrom \<circ> fst) cs'"] journal_numbered_run [OF j spy] by simp
  ultimately obtain st' where prefix: "run_commands ?init (map (matchingMessageFrom \<circ> fst) cs) = Inr (st', batches)"
    using run_commands_same [of _ ms "rh_exchangeRunId h"] live by fastforce
  from replay_journal [OF j spy, of n outp] obtain st2 bs where
    "run_commands ?init (map (matchingMessageFrom \<circ> fst) (cs @ cs')) = Inr (st2, bs)"
    "replayPreparedRunJournalV1 \<lparr>lj_header = h, lj_commands = map fst (cs @ cs'), validCommittedByteCount = n\<rparr> outp =
      (replayResult RO_REPLAYED RE_NONE, \<lparr>commandResults = bs, replayedState = Some st2\<rparr>)"
    by blast
  then show ?thesis
    using prefix by (auto simp: run_commands_append result_iff)
qed

end
