(* ===== verification/Admission_Recovery.thy ===== *)
theory Admission_Recovery
  imports Admission_Runs Journal_Replay
begin

text \<open>
  Rebuilding the admission index from a loaded journal and the replayed results,
  \<open>core/admission/src/command_admission_recovery.cpp\<close>. An element of the result vector is a pointer and may be
  null. Allocation always succeeds, so \<open>ALLOCATION_FAILURE\<close> does not occur.
\<close>

section \<open>Data\<close>

datatype CommandAdmissionRecoveryOutcome =
  CR_RECONSTRUCTED | CR_INVALID_INPUT | CR_CAPACITY_ERROR | CR_INVARIANT_FAILURE | CR_INTERNAL_FAILURE

datatype CommandAdmissionRecoveryError =
    CE_NONE | CE_INVALID_RUN_ID | CE_COMMAND_RESULT_COUNT_MISMATCH | CE_COMMAND_COUNT_CAPACITY_EXCEEDED
  | CE_CAPACITY_UNREPRESENTABLE | CE_COMMAND_SEQUENCE_MISMATCH | CE_COMMAND_CONTEXT_MISMATCH
  | CE_RESULT_CORRELATION_MISMATCH | CE_RESULT_EVENT_IDENTITY_MISMATCH | CE_INVALID_NORMALIZED_COMMAND
  | CE_DUPLICATE_COMMAND_KEY | CE_ALLOCATION_FAILURE

record CommandAdmissionRecoveryResult =
  ca_outcome :: CommandAdmissionRecoveryOutcome
  ca_error :: CommandAdmissionRecoveryError

definition recoveryResult ::
  "CommandAdmissionRecoveryOutcome \<Rightarrow> CommandAdmissionRecoveryError \<Rightarrow> CommandAdmissionRecoveryResult" where
  "recoveryResult oc err = \<lparr>ca_outcome = oc, ca_error = err\<rparr>"

section \<open>Operations\<close>

definition admissionKeyFrom :: "JournalCommandV1 \<Rightarrow> AdmissionKey result" where
  "admissionKeyFrom c =
     (let (client, ccid) =
        (case c of
           JournalNewOrder n \<Rightarrow> (jn_clientId n, jn_clientCommandId n)
         | JournalCancel x \<Rightarrow> (jc_clientId x, jc_clientCommandId x)) in
      if client = 0 then Inl (invalid_argument ''recovered command has invalid client identity'')
      else Inr \<lparr>ak_clientId = client, ak_clientCommandId = ccid\<rparr>)"

definition normalizedCommandFrom_new_order :: "JournalNewOrderV1 \<Rightarrow> NormalizedBusinessCommand result" where
  "normalizedCommandFrom_new_order command =
     (if jn_side command \<noteq> Side_BUY \<and> jn_side command \<noteq> Side_SELL
      then Inl (invalid_argument ''recovered NewOrder has invalid side'')
      else if jn_instrumentId command = 0 \<or> jn_configurationVersion command = 0 \<or> jn_price command = 0 \<or>
              jn_quantity command = 0
      then Inl (invalid_argument ''recovered NewOrder has invalid normalized fields'')
      else Inr (NewOrderCommand
        \<lparr>no_instrumentId = jn_instrumentId command,
         no_configurationVersion = ucast (jn_configurationVersion command), no_side = jn_side command,
         no_price = jn_price command, no_quantity = jn_quantity command,
         no_timeInForce = jn_timeInForce command\<rparr>))"

definition normalizedCommandFrom_cancel :: "JournalCancelV1 \<Rightarrow> NormalizedBusinessCommand result" where
  "normalizedCommandFrom_cancel command =
     (if jc_instrumentId command = 0 \<or> jc_targetOrderId command = 0
      then Inl (invalid_argument ''recovered Cancel has invalid normalized fields'')
      else Inr (CancelCommand
        \<lparr>nc_instrumentId = jc_instrumentId command, nc_targetOrderId = jc_targetOrderId command\<rparr>))"

definition normalizedCommandFrom :: "JournalCommandV1 \<Rightarrow> NormalizedBusinessCommand result" where
  "normalizedCommandFrom c =
     (case c of
        JournalNewOrder n \<Rightarrow> normalizedCommandFrom_new_order n
      | JournalCancel x \<Rightarrow> normalizedCommandFrom_cancel x)"

definition hasConfiguration :: "RunHeaderV1 \<Rightarrow> InstrumentId \<Rightarrow> u32 \<Rightarrow> bool" where
  "hasConfiguration header i version =
     (case lower_bound (rh_instruments header) i of
        None \<Rightarrow> False
      | Some instrument \<Rightarrow> hi_instrumentId instrument = i \<and> hi_configurationVersion instrument = version)"

definition recovery_validateCommandContext ::
  "RunHeaderV1 \<Rightarrow> JournalCommandV1 \<Rightarrow> CommandSequence \<Rightarrow> CommandAdmissionRecoveryError" where
  "recovery_validateCommandContext header c expectedSequence =
     (let (runId, sequence, rulesVersion, i, version) =
        (case c of
           JournalNewOrder n \<Rightarrow> (jn_exchangeRunId n, jn_commandSequence n, jn_behavioralRulesVersion n,
             jn_instrumentId n, jn_configurationVersion n)
         | JournalCancel x \<Rightarrow> (jc_exchangeRunId x, jc_commandSequence x, jc_behavioralRulesVersion x,
             jc_instrumentId x, jc_configurationVersion x)) in
      if sequence \<noteq> expectedSequence then CE_COMMAND_SEQUENCE_MISMATCH
      else if runId \<noteq> rh_exchangeRunId header \<or> rulesVersion \<noteq> rh_behavioralRulesVersion header \<or>
              \<not> hasConfiguration header i version
      then CE_COMMAND_CONTEXT_MISMATCH
      else CE_NONE)"

fun checkEvents :: "nat \<Rightarrow> BusinessEvent list \<Rightarrow> bool" where
  "checkEvents eventIndex [] = True"
| "checkEvents eventIndex (event # rest) =
     (if eventIndex > UINT32_MAX \<or> ev_eventIndex (eventId_of event) \<noteq> of_nat eventIndex then False
      else checkEvents (Suc eventIndex) rest)"

definition validateResult ::
  "AdmissionKey \<Rightarrow> CommandResultBatch option \<Rightarrow> ExchangeRunId \<Rightarrow> CommandSequence \<Rightarrow>
     CommandAdmissionRecoveryError" where
  "validateResult key res runId expectedSequence =
     (case res of
        None \<Rightarrow> CE_RESULT_CORRELATION_MISMATCH
      | Some batch \<Rightarrow>
          let correl = correlation batch in
          if co_clientId correl \<noteq> ak_clientId key \<or> co_clientCommandId correl \<noteq> ak_clientCommandId key \<or>
             co_commandSequence correl \<noteq> expectedSequence \<or> co_exchangeRunId correl \<noteq> runId
          then CE_RESULT_CORRELATION_MISMATCH
          else if events batch = [] then CE_RESULT_EVENT_IDENTITY_MISMATCH
          else if \<not> checkEvents 0 (events batch) then CE_RESULT_EVENT_IDENTITY_MISMATCH
          else CE_NONE)"

text \<open>The loop over the journal; \<open>std::invalid_argument\<close> is caught.\<close>

fun recoverRecords ::
  "RunHeaderV1 \<Rightarrow> CommandAdmissionIndex \<Rightarrow> u64 \<Rightarrow> (JournalCommandV1 \<times> CommandResultBatch option) list \<Rightarrow>
     CommandAdmissionRecoveryResult + CommandAdmissionIndex" where
  "recoverRecords header idx expectedSequence [] = Inr idx"
| "recoverRecords header idx expectedSequence ((c, res) # rest) =
     (let contextError = recovery_validateCommandContext header c expectedSequence in
      if contextError \<noteq> CE_NONE then Inl (recoveryResult CR_INVALID_INPUT contextError)
      else
      case bind_result (admissionKeyFrom c) (\<lambda>key. bind_result (normalizedCommandFrom c) (\<lambda>nc. Inr (key, nc))) of
        Inl _ \<Rightarrow> Inl (recoveryResult CR_INVALID_INPUT CE_INVALID_NORMALIZED_COMMAND)
      | Inr (key, normalizedCommand) \<Rightarrow>
          let resultError = validateResult key res (rh_exchangeRunId header) expectedSequence in
          if resultError \<noteq> CE_NONE then Inl (recoveryResult CR_INVALID_INPUT resultError)
          else if map_of (records idx) (key_view key) \<noteq> None
          then Inl (recoveryResult CR_INVALID_INPUT CE_DUPLICATE_COMMAND_KEY)
          else recoverRecords header
                 (idx\<lparr>records := om_insert AdmissionKeyLess (key_view key)
                    \<lparr>rec_command = normalizedCommand, rec_state = COMPLETED,
                     rec_commandSequence = expectedSequence, rec_result = res\<rparr> (records idx)\<rparr>)
                 (expectedSequence + 1) rest)"

definition reconstructCommandAdmissionIndex ::
  "LoadedRunJournalV1 \<Rightarrow> CommandResultBatch option list \<Rightarrow> CommandAdmissionIndex option \<Rightarrow>
     CommandAdmissionRecoveryResult \<times> CommandAdmissionIndex option" where
  "reconstructCommandAdmissionIndex journal results outp =
     (let header = lj_header journal in
      if rh_exchangeRunId header = 0 then (recoveryResult CR_INVALID_INPUT CE_INVALID_RUN_ID, outp)
      else if length (lj_commands journal) \<noteq> length results
      then (recoveryResult CR_INVALID_INPUT CE_COMMAND_RESULT_COUNT_MISMATCH, outp)
      else if length (lj_commands journal) > unat (rh_maxRunCommands header)
      then (recoveryResult CR_CAPACITY_ERROR CE_COMMAND_COUNT_CAPACITY_EXCEEDED, outp)
      else if rh_maxRunCommands header = 0 \<or> unat (rh_maxRunCommands header) > SIZE_MAX
      then (recoveryResult CR_CAPACITY_ERROR CE_CAPACITY_UNREPRESENTABLE, outp)
      else
      case make_run_bound_CommandAdmissionIndex (unat (rh_maxRunCommands header)) (rh_exchangeRunId header) of
        Inl _ \<Rightarrow> (recoveryResult CR_INVALID_INPUT CE_INVALID_NORMALIZED_COMMAND, outp)
      | Inr recovered \<Rightarrow>
          (case recoverRecords header recovered 1 (zip (lj_commands journal) results) of
             Inl res \<Rightarrow> (res, outp)
           | Inr idx \<Rightarrow> (recoveryResult CR_RECONSTRUCTED CE_NONE, Some idx)))"

section \<open>Results of a replay pass the checks\<close>

lemma checkEvents_numbered:
  "map eventId_of evs = map (event_id runId m) [k ..< k + length evs] \<Longrightarrow> k + length evs \<le> UINT32_MAX \<Longrightarrow> checkEvents k evs"
proof (induction evs arbitrary: k)
  case (Cons e evs)
  have "[k ..< k + length (e # evs)] = k # [Suc k ..< Suc k + length evs]"
    using upt_conv_Cons [of k "k + length (e # evs)"] by simp
  then show ?case
    using Cons by (simp add: event_id_def)
qed simp

lemma spec_batch_events:
  assumes "normalized_command m" and "orderType_of m \<noteq> CANCEL \<Longrightarrow> quantity m \<noteq> 0"
  shows "events (spec_batch runId m b) \<noteq> []" and "checkEvents 0 (events (spec_batch runId m b))"
proof -
  let ?evs = "snd (snd (spec_command runId m b))"
  have "?evs \<noteq> [] \<and> length ?evs \<le> 4096"
  proof (cases "orderType_of m = CANCEL")
    case False
    obtain fs rest queue where mq: "match_queue (acceptable (orderType_of m) (price m)) (quantity m)
        (book_side (other_side (orderType_of m)) b) = (fs, rest, queue)"
      by (metis prod_cases3)
    have "fs = [] \<Longrightarrow> rest \<noteq> 0"
      using match_queue_conserves [OF mq] assms(2) [OF False] by (auto simp flip: unat_gt_0)
    moreover have "trade_reports runId m 0 (quantity m) fs = [] \<longleftrightarrow> fs = []"
      by (metis length_trade_reports length_0_conv)
    ultimately show ?thesis
      using False mq by (simp add: spec_command_def spec_order_def Let_def word_gt_0)
  qed (auto simp: spec_command_def spec_cancel_def Let_def split: option.split)
  then show "events (spec_batch runId m b) \<noteq> []" "checkEvents 0 (events (spec_batch runId m b))"
    using checkEvents_numbered [of ?evs runId m 0] eventIds_spec_command [of runId m b]
    by (simp_all add: spec_batch_def UINT32_MAX_def)
qed

lemma run_commands_batches:
  "numbered_run ms \<Longrightarrow> run_commands (init_MatchingState runId) ms = Inr (st, batches) \<Longrightarrow>
     list_all2 (\<lambda>m bt. \<exists>b. bt = spec_batch runId m b) ms batches \<and> run_inv runId (length ms) st"
proof (induction ms arbitrary: st batches rule: rev_induct)
  case Nil
  then show ?case by (auto simp: run_inv_init)
next
  case (snoc m ms)
  note m = numbered_run_snoc [OF snoc.prems(1)]
  from snoc.prems(2) obtain st0 bs bt where run: "run_commands (init_MatchingState runId) ms = Inr (st0, bs)"
    "processCommand st0 m = Inr (st, bt)" "batches = bs @ [bt]"
    by (auto simp: run_commands_snoc result_iff)
  have ih: "list_all2 (\<lambda>m bt. \<exists>b. bt = spec_batch runId m b) ms bs" "run_inv runId (length ms) st0"
    using snoc.IH [OF _ run(1)] m by auto
  obtain u where "processCommand st0 m = Inr (u, spec_batch runId m (abs_book st0))" "run_inv runId (Suc (length ms)) u"
    using processCommand_refines [OF ih(2)] m by blast
  then show ?case
    using run(2,3) ih(1) by (auto intro: list_all2_appendI)
qed

section \<open>The recovered records\<close>

definition recovered_record :: "JournalCommandV1 \<Rightarrow> CommandResultBatch \<Rightarrow> Record" where
  "recovered_record c bt =
     \<lparr>rec_command = projr (normalizedCommandFrom c), rec_state = COMPLETED,
      rec_commandSequence = command_sequence c, rec_result = Some bt\<rparr>"

abbreviation journal_key :: "JournalCommandV1 \<Rightarrow> key_view" where
  "journal_key c \<equiv> command_key (matchingMessageFrom c)"

lemma journaled_command:
  assumes next': "next_command h committed expected c frame" and spy: "spy_header h"
    and enc: "encodeRunHeaderV1 h = Inr hf"
  shows "\<exists>key nc. admissionKeyFrom c = Inr key \<and> keyFrom (matchingMessageFrom c) = Inr key \<and>
      normalizedCommandFrom c = Inr nc \<and> businessCommandFrom (matchingMessageFrom c) = Inr nc \<and>
      ak_clientId key = clientId (matchingMessageFrom c) \<and>
      clientCommandId (matchingMessageFrom c) = Some (ak_clientCommandId key)"
    and "recovery_validateCommandContext h c expected = CE_NONE"
    and "orderType_of (matchingMessageFrom c) \<noteq> CANCEL \<Longrightarrow> quantity (matchingMessageFrom c) \<noteq> 0"
    and "expected \<noteq> 0" and "command_sequence c = expected"
proof -
  note norm = next_command_replays [OF assms]
  have "(\<exists>key nc. admissionKeyFrom c = Inr key \<and> keyFrom (matchingMessageFrom c) = Inr key \<and>
      normalizedCommandFrom c = Inr nc \<and> businessCommandFrom (matchingMessageFrom c) = Inr nc \<and>
      ak_clientId key = clientId (matchingMessageFrom c) \<and>
      clientCommandId (matchingMessageFrom c) = Some (ak_clientCommandId key)) \<and>
      (orderType_of (matchingMessageFrom c) \<noteq> CANCEL \<longrightarrow> quantity (matchingMessageFrom c) \<noteq> 0)"
  proof (cases c)
    case (JournalNewOrder n)
    then have "encodeNewOrderV1 n = Inr frame"
      using next' by (simp add: next_command_def encodeCommand_def)
    then show ?thesis
      using encodeNewOrderV1_Inr [of n frame] norm(1) JournalNewOrder
      by (auto simp: admissionKeyFrom_def keyFrom_def matchingMessageFrom_def SPY_V1_def
          matchingMessageFrom_new_order_def normalized_command_def normalizedCommandFrom_def
          normalizedCommandFrom_new_order_def businessCommandFrom_def adm_toDomainSide_def
          validateCommonCommand_def side_code_def split: if_splits Side.splits)
  next
    case (JournalCancel x)
    then have "encodeCancelV1 x = Inr frame"
      using next' by (simp add: next_command_def encodeCommand_def)
    then show ?thesis
      using encodeCancelV1_Inr [of x frame] norm(1) JournalCancel
      by (auto simp: admissionKeyFrom_def keyFrom_def matchingMessageFrom_def SPY_V1_def
          matchingMessageFrom_cancel_def normalized_command_def normalizedCommandFrom_def
          normalizedCommandFrom_cancel_def businessCommandFrom_def validateCommonCommand_def split: if_splits)
  qed
  then show "\<exists>key nc. admissionKeyFrom c = Inr key \<and> keyFrom (matchingMessageFrom c) = Inr key \<and>
      normalizedCommandFrom c = Inr nc \<and> businessCommandFrom (matchingMessageFrom c) = Inr nc \<and>
      ak_clientId key = clientId (matchingMessageFrom c) \<and>
      clientCommandId (matchingMessageFrom c) = Some (ak_clientCommandId key)"
    and "orderType_of (matchingMessageFrom c) \<noteq> CANCEL \<Longrightarrow> quantity (matchingMessageFrom c) \<noteq> 0"
    by blast+
  show "recovery_validateCommandContext h c expected = CE_NONE"
    using norm(3)
    by (auto simp: replay_validateCommandContext_def recovery_validateCommandContext_def validateConfiguration_def
        hasConfiguration_def split: JournalCommandV1.splits if_splits option.splits)
  show "command_sequence c = expected"
    using next' by (simp add: next_command_def)
  show "expected \<noteq> 0"
    using norm(1,2) by (auto simp: normalized_command_def)
qed

lemma recoverRecords_step:
  assumes next': "next_command h committed expected c frame" and spy: "spy_header h"
    and enc: "encodeRunHeaderV1 h = Inr hf" and bt: "bt = spec_batch (rh_exchangeRunId h) (matchingMessageFrom c) b"
    and absent: "map_of (records idx) (journal_key c) = None"
  shows "recoverRecords h idx expected ((c, Some bt) # rest) =
      recoverRecords h (idx\<lparr>records := om_insert AdmissionKeyLess (journal_key c) (recovered_record c bt) (records idx)\<rparr>)
        (expected + 1) rest"
    and "record_ok (rh_exchangeRunId h) (journal_key c) (recovered_record c bt)"
proof -
  note facts = journaled_command [OF assms(1-3)]
  from facts(1) obtain key nc where
    key: "admissionKeyFrom c = Inr key" "keyFrom (matchingMessageFrom c) = Inr key"
      "normalizedCommandFrom c = Inr nc" "ak_clientId key = clientId (matchingMessageFrom c)"
      "clientCommandId (matchingMessageFrom c) = Some (ak_clientCommandId key)"
    by blast
  have view: "key_view key = journal_key c"
    by (rule keyFrom_view [OF key(2)])
  have seq: "globalSequenceNumber (matchingMessageFrom c) = expected"
    by (rule next_command_replays(2) [OF assms(1-3)])
  have "validateResult key (Some bt) (rh_exchangeRunId h) expected = CE_NONE"
    using spec_batch_events [OF next_command_replays(1) [OF assms(1-3)] facts(3)] key(4,5) seq
    by (simp add: validateResult_def bt) (simp add: spec_batch_def command_correlation_def)
  then show "recoverRecords h idx expected ((c, Some bt) # rest) =
      recoverRecords h (idx\<lparr>records := om_insert AdmissionKeyLess (journal_key c) (recovered_record c bt) (records idx)\<rparr>)
        (expected + 1) rest"
    using facts(2,5) key(1,3) view absent by (simp add: recovered_record_def)
  show "record_ok (rh_exchangeRunId h) (journal_key c) (recovered_record c bt)"
    using facts(4,5) key(4,5) seq
    by (simp add: record_ok_def recovered_record_def bt spec_batch_def command_correlation_def keyFrom_correlation_def
        key_view_def command_key_def)
qed

lemma recoverRecords_correct:
  assumes spy: "spy_header h" and enc: "encodeRunHeaderV1 h = Inr hf"
    and "next_commands h committed expected cs"
    and "list_all2 (\<lambda>x bt. \<exists>b. bt = spec_batch (rh_exchangeRunId h) (matchingMessageFrom (fst x)) b) cs batches"
    and "index_inv idx" and "adm_exchangeRunId idx = rh_exchangeRunId h"
    and "length (records idx) + length cs \<le> adm_capacity idx"
    and "distinct (map (journal_key \<circ> fst) cs)" and "\<forall>x \<in> set cs. map_of (records idx) (journal_key (fst x)) = None"
  shows "\<exists>idx'. recoverRecords h idx expected (zip (map fst cs) (map Some batches)) = Inr idx' \<and>
    index_inv idx' \<and> adm_exchangeRunId idx' = rh_exchangeRunId h \<and> adm_capacity idx' = adm_capacity idx \<and>
    admissionOpen idx' = admissionOpen idx \<and> length (records idx') = length (records idx) + length cs \<and>
    map_of (records idx') =
      map_of (records idx) ++ map_of (map2 (\<lambda>x bt. (journal_key (fst x), recovered_record (fst x) bt)) cs batches)"
  using assms(3-)
proof (induction cs arbitrary: committed expected batches idx)
  case (Cons x cs)
  obtain c frame where x: "x = (c, frame)" by (cases x)
  obtain bt bts b where batches: "batches = bt # bts" and bt: "bt = spec_batch (rh_exchangeRunId h) (matchingMessageFrom c) b"
    and bts: "list_all2 (\<lambda>x bt. \<exists>b. bt = spec_batch (rh_exchangeRunId h) (matchingMessageFrom (fst x)) b) cs bts"
    using Cons.prems(2) x by (auto simp: list_all2_Cons1)
  have nc: "next_command h committed expected c frame" "next_commands h (committed + length frame) (expected + 1) cs"
    using Cons.prems(1) x by simp_all
  have absent: "map_of (records idx) (journal_key c) = None"
    using Cons.prems(7) x by simp
  define idx1 where "idx1 = idx\<lparr>records := om_insert AdmissionKeyLess (journal_key c) (recovered_record c bt) (records idx)\<rparr>"
  note step = recoverRecords_step [OF nc(1) spy enc bt absent]
  have room: "length (records idx) < adm_capacity idx"
    using Cons.prems(5) by simp
  note post = inv_add_record [of idx "journal_key c" "recovered_record c bt" idx1, OF Cons.prems(3) absent room
      step(2) [folded Cons.prems(4)]]
  have idx1: "index_inv idx1" "length (records idx1) = Suc (length (records idx))"
      "map_of (records idx1) = (map_of (records idx))(journal_key c \<mapsto> recovered_record c bt)"
    using post by (simp_all add: idx1_def)
  have "\<forall>y \<in> set cs. map_of (records idx1) (journal_key (fst y)) = None"
    using Cons.prems(6,7) x by (force simp: idx1(3))
  then obtain idx' where
    ih: "recoverRecords h idx1 (expected + 1) (zip (map fst cs) (map Some bts)) = Inr idx'"
      "index_inv idx'" "adm_exchangeRunId idx' = rh_exchangeRunId h" "adm_capacity idx' = adm_capacity idx1"
      "admissionOpen idx' = admissionOpen idx1" "length (records idx') = length (records idx1) + length cs"
      "map_of (records idx') =
        map_of (records idx1) ++ map_of (map2 (\<lambda>x bt. (journal_key (fst x), recovered_record (fst x) bt)) cs bts)"
    using Cons.IH [OF nc(2) bts idx1(1)] Cons.prems(4-6) x idx1(2) by (auto simp: idx1_def)
  have fresh: "journal_key c \<notin> dom (map_of (map2 (\<lambda>x bt. (journal_key (fst x), recovered_record (fst x) bt)) cs bts))"
    using Cons.prems(6) x by (auto simp: dom_map_of_conv_image_fst image_iff dest!: set_zip_leftD)
  let ?rest = "map_of (map2 (\<lambda>x bt. (journal_key (fst x), recovered_record (fst x) bt)) cs bts)"
  have cons: "map_of (map2 (\<lambda>x bt. (journal_key (fst x), recovered_record (fst x) bt)) (x # cs) batches) =
      ?rest(journal_key c \<mapsto> recovered_record c bt)"
    by (simp add: batches x fun_eq_iff)
  have "map_of (records idx') = map_of (records idx) ++
      map_of (map2 (\<lambda>x bt. (journal_key (fst x), recovered_record (fst x) bt)) (x # cs) batches)"
    unfolding ih(7) idx1(3) cons using map_add_upd_left [OF fresh] by simp
  moreover have "recoverRecords h idx expected (zip (map fst (x # cs)) (map Some batches)) = Inr idx'"
    using step(1) ih(1) by (simp add: batches x idx1_def del: recoverRecords.simps)
  moreover have "adm_capacity idx' = adm_capacity idx" "admissionOpen idx' = admissionOpen idx"
      "length (records idx') = length (records idx) + length (x # cs)"
    using ih(4-6) idx1(2) by (simp_all add: idx1_def)
  ultimately show ?case
    using ih(2,3) by blast
qed simp

lemma next_commands_nth:
  "next_commands h committed expected cs \<Longrightarrow> i < length cs \<Longrightarrow>
     \<exists>k. next_command h k (expected + of_nat i) (fst (cs ! i)) (snd (cs ! i))"
proof (induction cs arbitrary: committed expected i)
  case (Cons x cs)
  obtain c frame where x: "x = (c, frame)" by (cases x)
  show ?case
  proof (cases i)
    case 0
    then show ?thesis using Cons.prems x by auto
  next
    case (Suc j)
    then show ?thesis
      using Cons.IH [of "committed + length frame" "expected + 1" j] Cons.prems x by (simp add: add.assoc)
  qed
qed simp

lemma reconstruct_answers:
  fixes push :: "('q, sequenceMessage) queue_push"
  assumes j: "journal_of h hf cs" and spy: "spy_header h" and keys: "distinct (map (journal_key \<circ> fst) cs)"
    and replay: "replayPreparedRunJournalV1 \<lparr>lj_header = h, lj_commands = map fst cs, validCommittedByteCount = n\<rparr> routp =
      (replayResult RO_REPLAYED RE_NONE, replayed)"
  shows "\<exists>idx. reconstructCommandAdmissionIndex
        \<lparr>lj_header = h, lj_commands = map fst cs, validCommittedByteCount = n\<rparr>
        (map Some (commandResults replayed)) outp = (recoveryResult CR_RECONSTRUCTED CE_NONE, Some idx) \<and>
    index_inv idx \<and> adm_exchangeRunId idx = rh_exchangeRunId h \<and> \<not> admissionOpen idx \<and> adm_size idx = length cs \<and>
    (\<forall>i < length cs. \<forall>q cap. \<exists>idx'.
       reserveAndStageForRunCapacity push idx (matchingMessageFrom (fst (cs ! i))) q cap =
         Inr (\<lparr>ad_status = IDENTICAL_COMPLETED, rejectionReason = None,
               originalResult = Some (commandResults replayed ! i)\<rparr>, idx', q) \<and>
       records idx' = records idx)"
proof -
  let ?batches = "commandResults replayed"
  from replay_journal [OF j spy, of n routp] replay obtain st where
    run: "run_commands (init_MatchingState (rh_exchangeRunId h)) (map (matchingMessageFrom \<circ> fst) cs) = Inr (st, ?batches)"
      "length ?batches = length cs"
    by auto
  have enc: "encodeRunHeaderV1 h = Inr hf" and next': "next_commands h (length hf) 1 cs"
    and room: "length cs \<le> unat (rh_maxRunCommands h)"
    using j by (simp_all add: journal_of_def)
  obtain m where "validateHeader h = Inr m"
    using encodeRunHeaderV1_Inr [OF enc] by blast
  then have header: "rh_exchangeRunId h \<noteq> 0" "rh_maxRunCommands h \<noteq> 0"
    by (auto simp: validateHeader_def split: if_splits)
  define idx0 where "idx0 = \<lparr>adm_capacity = unat (rh_maxRunCommands h), adm_exchangeRunId = rh_exchangeRunId h,
      admissionOpen = False, records = [], statistics = no_statistics\<rparr>"
  have made: "make_run_bound_CommandAdmissionIndex (unat (rh_maxRunCommands h)) (rh_exchangeRunId h) = Inr idx0"
    using header unat_gt_0 [of "rh_maxRunCommands h"] by (simp add: make_run_bound_CommandAdmissionIndex_def idx0_def)
  have "list_all2 (\<lambda>x bt. \<exists>b. bt = spec_batch (rh_exchangeRunId h) (matchingMessageFrom (fst x)) b) cs ?batches"
    using run_commands_batches [OF journal_numbered_run [OF j spy] run(1)] by (simp add: list_all2_map1)
  from recoverRecords_correct [OF spy enc next' this, of idx0] keys room obtain idx where
    rec: "recoverRecords h idx0 1 (zip (map fst cs) (map Some ?batches)) = Inr idx" "index_inv idx"
      "adm_exchangeRunId idx = rh_exchangeRunId h" "\<not> admissionOpen idx" "length (records idx) = length cs"
      "map_of (records idx) = map_of (map2 (\<lambda>x bt. (journal_key (fst x), recovered_record (fst x) bt)) cs ?batches)"
    by (auto simp: idx0_def index_inv_def)
  have size: "unat (rh_maxRunCommands h) \<le> SIZE_MAX"
    using unsigned_less [of "rh_maxRunCommands h", where 'a = nat] by (simp add: SIZE_MAX_def)
  have "reconstructCommandAdmissionIndex \<lparr>lj_header = h, lj_commands = map fst cs, validCommittedByteCount = n\<rparr>
      (map Some ?batches) outp = (recoveryResult CR_RECONSTRUCTED CE_NONE, Some idx)"
    using header run(2) room size made rec(1) by (simp add: reconstructCommandAdmissionIndex_def Let_def)
  moreover have "\<exists>idx'. reserveAndStageForRunCapacity push idx (matchingMessageFrom (fst (cs ! i))) q cap =
      Inr (\<lparr>ad_status = IDENTICAL_COMPLETED, rejectionReason = None, originalResult = Some (?batches ! i)\<rparr>, idx', q) \<and>
      records idx' = records idx" if i: "i < length cs" for i q cap
  proof -
    let ?c = "fst (cs ! i)"
    obtain k where "next_command h k (1 + of_nat i) ?c (snd (cs ! i))"
      using next_commands_nth [OF next' i] by blast
    from journaled_command(1) [OF this spy enc] obtain key nc where
      key: "keyFrom (matchingMessageFrom ?c) = Inr key" "normalizedCommandFrom ?c = Inr nc"
        "businessCommandFrom (matchingMessageFrom ?c) = Inr nc"
      by blast
    have "(journal_key ?c, recovered_record ?c (?batches ! i)) \<in>
        set (map2 (\<lambda>x bt. (journal_key (fst x), recovered_record (fst x) bt)) cs ?batches)"
      using i run(2) by (auto simp: set_zip intro!: image_eqI [of _ _ "(cs ! i, ?batches ! i)"])
    moreover have "map fst (map2 (\<lambda>x bt. (journal_key (fst x), recovered_record (fst x) bt)) cs ?batches) =
        map (journal_key \<circ> fst) cs"
      using run(2) by (intro nth_equalityI) simp_all
    then have "distinct (map fst (map2 (\<lambda>x bt. (journal_key (fst x), recovered_record (fst x) bt)) cs ?batches))"
      using keys by simp
    ultimately have "map_of (records idx) (journal_key ?c) = Some (recovered_record ?c (?batches ! i))"
      unfolding rec(6) by (rule map_of_is_SomeI [rotated])
    from reserveImpl_existing [OF key(1,3) this, of push "Some q" cap] key(2) show ?thesis
      by (auto simp: recovered_record_def stage_Inr)
  qed
  ultimately show ?thesis
    using rec(2-5) by (auto simp: adm_size_def)
qed

end
