(* ===== verification/Recovery_Properties.thy ===== *)
theory Recovery_Properties
  imports Crash_Recovery Admission_Recovery Journal_Properties
begin

text \<open>
  The properties of the sequencer and of recovery: nothing reaches the matching engine before it is journaled,
  and replay reproduces the results.
\<close>

section \<open>A sequencer to apply the properties to\<close>

definition sample_index :: CommandAdmissionIndex where
  "sample_index = \<lparr>adm_capacity = 10, adm_exchangeRunId = 5, admissionOpen = True,
     records = [((3, [65]), \<lparr>rec_command = CancelCommand \<lparr>nc_instrumentId = 1, nc_targetOrderId = 9\<rparr>,
       rec_state = RESERVED, rec_commandSequence = 0, rec_result = None\<rparr>)],
     statistics = no_statistics\<rparr>"

text \<open>A file that takes every write at once.\<close>

definition whole_write :: "u8 list write_hook" where
  "whole_write f bs = (Wrote (length bs), f @ bs)"

lemma posix_whole_write: "posix_append id (\<lambda>_. 0) whole_write chunk_sync"
  by (simp add: posix_append_def whole_write_def chunk_sync_def)

definition sample_writer :: "u8 list RunJournalWriterV1" where
  "sample_writer = make_RunJournalWriterV1 sample_header_frame sample_header 80"

definition sample_sequencer :: "(sequenceMessage list, u8 list) Sequencer" where
  "sample_sequencer = \<lparr>sequencingIngressQueue = [], matchingEngineQueue = [], seq_admissionIndex = Some sample_index,
     journalWriter = Some sample_writer, lastAssignedSequence = 0, pendingCommand = None,
     pendingReadyForMatching = False, journalAppendFailure = None\<rparr>"

definition sample_message :: sequenceMessage where
  "sample_message = empty_sequenceMessage\<lparr>targetOrderId := Some 9, clientId := 3,
     clientCommandId := Some (jc_clientCommandId sample_cancel), instrumentId := 1, configurationVersion := 1,
     orderType_of := CANCEL\<rparr>"

lemma sample_sequencer_made:
  "make_journal_Sequencer [] [] sample_index
     (make_RunJournalWriterV1 sample_header_frame sample_header (of_nat (length sample_header_frame))) = Inr sample_sequencer"
  by (simp add: make_journal_Sequencer_def sample_sequencer_def sample_writer_def sample_index_def sample_lengths
      make_RunJournalWriterV1_def sample_header_def)

lemma sample_calls: "list_all call_ok [Ingest sample_message, Cycle, Take]"
  using sample_ccid(2) by (simp add: call_ok_def ingress_ok_def sample_message_def empty_sequenceMessage_def)


text \<open>The run: the command is journaled, bound and handed over, and the matching engine takes it.\<close>

definition sample_sequenced :: sequenceMessage where
  "sample_sequenced = sample_message\<lparr>globalSequenceNumber := 1\<rparr>"

definition sample_file :: "u8 list" where
  "sample_file = sample_header_frame @ sample_frame"

definition sample_writer' :: "u8 list RunJournalWriterV1" where
  "sample_writer' = sample_writer\<lparr>w_file := sample_file, committedCommandCount := 1, committedByteCount := 150,
     nextCommandSequence := 2\<rparr>"

lemma sample_append:
  "append_cancel whole_write chunk_sync 200 sample_writer sample_cancel =
     Some (appendResult AO_COMMITTED AE_NONE NONE 0, sample_writer')"
proof -
  have "validateCommandContext sample_writer 5 1 1 1 1 = AE_NONE"
    by (simp add: validateCommandContext_def sample_writer_def make_RunJournalWriterV1_def sample_header_def
        instrument_configured_def lower_bound_def)
  moreover have "jc_exchangeRunId sample_cancel = 5" "jc_commandSequence sample_cancel = 1"
      "jc_behavioralRulesVersion sample_cancel = 1" "jc_instrumentId sample_cancel = 1"
      "jc_configurationVersion sample_cancel = 1"
    by (simp_all add: sample_cancel_def)
  moreover have "rh_maxRunCommands sample_header = 10" "rh_maxRunJournalBytes sample_header = 1000"
    by (simp_all add: sample_header_def)
  moreover have "writeFrame whole_write 200 sample_header_frame sample_frame 0 = Some (Inr (), sample_file)"
    by (simp add: numeral_eq_Suc whole_write_def sample_lengths sample_file_def flip: length_greater_0_conv)
  moreover have "syncLoop chunk_sync 200 sample_file = Some (Inr (), sample_file)"
    by (simp add: numeral_eq_Suc chunk_sync_def)
  ultimately show ?thesis
    by (simp add: append_cancel_def sample_cancel_encoded appendEncoded_def sample_lengths sample_writer_def
        sample_writer'_def make_RunJournalWriterV1_def)
qed

lemma sample_appendCommand:
  "appendCommand whole_write chunk_sync 200 sample_writer sample_sequenced =
     Some (appendResult AO_COMMITTED AE_NONE NONE 0, sample_writer')"
proof -
  have "w_header sample_writer = sample_header" "rh_exchangeRunId sample_header = 5"
      "rh_behavioralRulesVersion sample_header = 1"
    by (simp_all add: sample_writer_def make_RunJournalWriterV1_def sample_header_def)
  then have "appendCommand whole_write chunk_sync 200 sample_writer sample_sequenced =
      append_cancel whole_write chunk_sync 200 sample_writer sample_cancel"
    by (simp add: appendCommand_def sample_sequenced_def sample_message_def sample_cancel_def empty_sequenceMessage_def
        UINT32_MAX_def)
  then show ?thesis
    using sample_append by simp
qed

definition sample_index' :: CommandAdmissionIndex where
  "sample_index' = sample_index\<lparr>records := [((3, [65]),
     \<lparr>rec_command = CancelCommand \<lparr>nc_instrumentId = 1, nc_targetOrderId = 9\<rparr>,
      rec_state = SEQUENCED, rec_commandSequence = 1, rec_result = None\<rparr>)]\<rparr>"

lemma sample_marked: "markSequenced sample_index sample_sequenced = Inr (MS_SEQUENCED, sample_index')"
  by code_simp

definition sample_done :: "(sequenceMessage list, u8 list) Sequencer" where
  "sample_done = sample_sequencer\<lparr>seq_admissionIndex := Some sample_index', journalWriter := Some sample_writer'\<rparr>"

lemma sample_run:
  "sequencer_run (list_push 8) list_pop (\<lambda>q. q = []) whole_write chunk_sync 200 10
     [Ingest sample_message, Cycle, Take] sample_sequencer = Some ([sample_sequenced], sample_done)"
proof -
  let ?s = "sample_sequencer\<lparr>sequencingIngressQueue := [sample_message]\<rparr>"
  let ?next = "seq_processNext (list_push 8) list_pop (\<lambda>q. q = []) whole_write chunk_sync 200"
  let ?t = "sample_done\<lparr>matchingEngineQueue := [sample_sequenced]\<rparr>"
  have type: "orderType_of sample_sequenced = CANCEL" "nextCommandSequence sample_writer = 1"
    by (simp_all add: sample_sequenced_def sample_message_def sample_writer_def make_RunJournalWriterV1_def)
  have "?next ?s = Some (Inr True, ?t)"
    using sample_appendCommand sample_marked type
    by (simp add: seq_processNext_def sample_sequencer_def SharedQueue_pop_def list_pop_def Let_def
        sample_sequenced_def [symmetric] appendResult_def bindAndHandoff_def handoffPendingCommand_def
        SharedQueue_push_def list_push_def sample_done_def)
  moreover have "?next ?t = Some (Inr False, ?t)"
    by (simp add: seq_processNext_def sample_done_def sample_sequencer_def SharedQueue_pop_def list_pop_def)
  ultimately have "seq_advance (list_push 8) list_pop (\<lambda>q. q = []) whole_write chunk_sync 200 10 ?s = Some (Inr True, ?t)"
    by (simp add: seq_advance_def numeral_eq_Suc)
  moreover have "SharedQueue_push (list_push 8) [] sample_message = (True, [sample_message])"
    by (simp add: SharedQueue_push_def list_push_def)
  ultimately show ?thesis
    by (simp add: SharedQueue_pop_def list_pop_def sample_done_def sample_sequencer_def)
qed

section \<open>Properties\<close>

text \<open>C21. Write-ahead: from a new journal, whatever commands arrive, however the calls of the gateway, the
  sequencer, the matching engine and the users of the admission index interleave, and whatever writes and syncs
  fail, every command that the matching engine took, that waits for it or that is about to be handed over is
  in the journal file, in the same order, numbered 1, 2, 3, ..., and an order carries its number as its order
  identifier. The run always returns.\<close>

theorem journaled_before_matching:
  assumes "lockfree_queue items push pop" and "posix_append contents interrupts writeFile syncFile"
    and "encodeRunHeaderV1 h = Inr hf" and "contents f = hf" and "interrupts f + 143 < fuel"
    and "items ingress = []" and "items matching = []"
    and "make_journal_Sequencer ingress matching idx (make_RunJournalWriterV1 f h (of_nat (length hf))) = Inr s"
    and "list_all call_ok calls" and "length calls < n"
  shows "\<exists>taken s' w cs. sequencer_run push pop isEmpty writeFile syncFile fuel n calls s = Some (taken, s') \<and>
    journalWriter s' = Some w \<and> journal_covers contents h hf cs w \<and>
    map (journal_command h) (sequenced items taken s') = map (Some \<circ> fst) cs \<and>
    map globalSequenceNumber (sequenced items taken s') = map (\<lambda>i. of_nat (Suc i)) [0 ..< length cs] \<and>
    list_all identified (sequenced items taken s')"
proof -
  note fresh = fresh_sequencer_inv [where items = items and contents = contents and interrupts = interrupts,
      OF assms(3-8)]
  have "waiting items s + length calls < n"
    using fresh(2) assms(10) by simp
  from sequencer_run_correct [OF assms(1,2) fresh(1) assms(9) this, of isEmpty] obtain taken s' where
    run: "sequencer_run push pop isEmpty writeFile syncFile fuel n calls s = Some (taken, s')"
      "seq_inv items contents interrupts fuel h hf taken s'"
    by auto
  let ?ms = "sequenced items taken s'"
  from run(2) obtain w cs where w: "journalWriter s' = Some w" "journal_covers contents h hf cs w"
      "map (journal_command h) ?ms = map (Some \<circ> fst) cs" "list_all identified ?ms"
    by (auto simp: seq_inv_def)
  have len: "length ?ms = length cs"
    using arg_cong [OF w(3), of length] by simp
  have "globalSequenceNumber (?ms ! i) = of_nat (Suc i)" if "i < length cs" for i
  proof -
    have "journal_command h (?ms ! i) = Some (fst (cs ! i))"
      using arg_cong [OF w(3), of "\<lambda>xs. xs ! i"] that len by simp
    then show ?thesis
      using journal_sequence [of h "length hf" 1 cs i] journal_covers_journal [OF w(2)] that
        journal_command_fields(2) by (auto simp: journal_of_def)
  qed
  then have "map globalSequenceNumber ?ms = map (\<lambda>i. of_nat (Suc i)) [0 ..< length cs]"
    using len by (intro nth_equalityI) simp_all
  then show ?thesis
    using run(1) w by blast
qed

theorem journaled_before_matching_witness:
  "\<exists>w cs. journalWriter sample_done = Some w \<and> journal_covers id sample_header sample_header_frame cs w \<and>
    [journal_command sample_header sample_sequenced] = map (Some \<circ> fst) cs"
proof -
  have "sequenced id [sample_sequenced] sample_done = [sample_sequenced]"
    by (simp add: sequenced_def ready_command_def sample_done_def sample_sequencer_def)
  moreover from journaled_before_matching [OF list_lockfree posix_whole_write sample_header_encoded _ _ _ _
      sample_sequencer_made sample_calls, of 200 10 8 "\<lambda>q. q = []", unfolded sample_run]
  obtain w cs where "journalWriter sample_done = Some w" "journal_covers id sample_header sample_header_frame cs w"
      "map (journal_command sample_header) (sequenced id [sample_sequenced] sample_done) = map (Some \<circ> fst) cs"
    by auto
  ultimately show ?thesis
    by auto
qed




end
