(* ===== verification/Fix_Decimal.thy ===== *)
theory Fix_Decimal
  imports Domain
begin

text \<open>
  The exact decimal arithmetic of \<open>core/fix/src/fix_parser.cpp\<close>: a FIX price or quantity is read digit by digit
  into 64-bit words and compared with the limits of the instrument, so that no binary floating point and no
  rounding is involved. Every loop of the source is a recursion over the characters it visits.
\<close>

section \<open>Errors of the FIX boundary\<close>

text \<open>\<open>FieldNotFound\<close> and \<open>IncorrectDataFormat\<close> are the exceptions of QuickFIX, \<open>FixValidationError\<close> is the
  parser's own, and \<open>fix_exception_other\<close> holds every other exception of the sources.\<close>

datatype fix_exception =
    FieldNotFound nat
  | IncorrectDataFormat nat
  | FixValidationError string
  | fix_exception_other cpp_exception

section \<open>Digits\<close>

definition is_digit :: "char \<Rightarrow> bool" where
  "is_digit character \<longleftrightarrow> 48 \<le> (of_char character :: nat) \<and> (of_char character :: nat) \<le> 57"

definition digit_of :: "char \<Rightarrow> nat" where
  "digit_of character = of_char character - 48"

definition UINT64_MAX :: u64 where
  "UINT64_MAX = - 1"

fun powerOfTen_loop :: "nat \<Rightarrow> u64 \<Rightarrow> fix_exception + u64" where
  "powerOfTen_loop 0 v = Inr v"
| "powerOfTen_loop (Suc n) v =
     (if v > UINT64_MAX div 10
      then Inl (fix_exception_other (logic_error ''instrument price scale is too large''))
      else powerOfTen_loop n (v * 10))"

definition powerOfTen :: "u32 \<Rightarrow> fix_exception + u64" where
  "powerOfTen exponent = powerOfTen_loop (unat exponent) 1"

fun parseUnsignedWhole_loop :: "u64 \<Rightarrow> string \<Rightarrow> u64 \<Rightarrow> string \<Rightarrow> fix_exception + u64" where
  "parseUnsignedWhole_loop maximum fieldName v [] = Inr v"
| "parseUnsignedWhole_loop maximum fieldName v (character # rest) =
     (if \<not> is_digit character
      then Inl (FixValidationError (fieldName @ '' must be an unsigned decimal''))
      else
      let digit = of_nat (digit_of character) in
      if v > maximum div 10 \<or> v = maximum div 10 \<and> digit > maximum mod 10
      then Inl (FixValidationError (fieldName @ '' exceeds the configured maximum''))
      else parseUnsignedWhole_loop maximum fieldName (v * 10 + digit) rest)"

definition parseUnsignedWhole :: "string \<Rightarrow> u64 \<Rightarrow> string \<Rightarrow> fix_exception + u64" where
  "parseUnsignedWhole txt maximum fieldName =
     (if txt = [] then Inl (FixValidationError (fieldName @ '' must not be empty''))
      else parseUnsignedWhole_loop maximum fieldName 0 txt)"

section \<open>Prices\<close>

text \<open>\<open>std::string_view::find\<close> of one character and the two parts around the position it returns.\<close>

fun find_char :: "char \<Rightarrow> string \<Rightarrow> nat option" where
  "find_char c [] = None"
| "find_char c (x # xs) = (if x = c then Some 0 else map_option Suc (find_char c xs))"

definition second_point :: "string \<Rightarrow> nat option \<Rightarrow> bool" where
  "second_point txt decimalPoint =
     (case decimalPoint of None \<Rightarrow> False | Some p \<Rightarrow> find_char CHR ''.'' (drop (p + 1) txt) \<noteq> None)"

definition whole_text :: "string \<Rightarrow> nat option \<Rightarrow> string" where
  "whole_text txt decimalPoint = (case decimalPoint of None \<Rightarrow> txt | Some p \<Rightarrow> take p txt)"

definition fractional_text :: "string \<Rightarrow> nat option \<Rightarrow> string" where
  "fractional_text txt decimalPoint = (case decimalPoint of None \<Rightarrow> [] | Some p \<Rightarrow> drop (p + 1) txt)"

text \<open>The three loops over the fractional digits: the retained ones, the zeros that fill up the scale and the
  digits beyond the scale, which have to be zero.\<close>

fun retained_loop :: "string \<Rightarrow> u64 \<Rightarrow> fix_exception + u64" where
  "retained_loop [] fractional = Inr fractional"
| "retained_loop (character # rest) fractional =
     (if \<not> is_digit character then Inl (FixValidationError ''Price must be an unsigned decimal'')
      else retained_loop rest (fractional * 10 + of_nat (digit_of character)))"

fun fill_loop :: "nat \<Rightarrow> u64 \<Rightarrow> u64" where
  "fill_loop 0 fractional = fractional"
| "fill_loop (Suc n) fractional = fill_loop n (fractional * 10)"

fun excess_loop :: "string \<Rightarrow> fix_exception + unit" where
  "excess_loop [] = Inr ()"
| "excess_loop (character # rest) =
     (if \<not> is_digit character then Inl (FixValidationError ''Price must be an unsigned decimal'')
      else if character \<noteq> CHR ''0'' then Inl (FixValidationError ''Price violates the configured tick size'')
      else excess_loop rest)"

definition parsePriceTicks :: "string \<Rightarrow> InstrumentConfiguration \<Rightarrow> fix_exception + Price" where
  "parsePriceTicks txt configuration =
     (let decimalPoint = find_char CHR ''.'' txt;
          wholeText = whole_text txt decimalPoint;
          fractionalText = fractional_text txt decimalPoint in
      if second_point txt decimalPoint
      then Inl (FixValidationError ''Price must contain at most one decimal point'')
      else if wholeText = [] \<or> decimalPoint \<noteq> None \<and> fractionalText = []
      then Inl (FixValidationError ''Price must be a positive decimal'')
      else if tickSizeMantissa configuration = 0 \<or>
        maxPrice configuration > UINT64_MAX div tickSizeMantissa configuration
      then Inl (fix_exception_other (logic_error ''invalid instrument tick configuration''))
      else
      let maxScaledPrice = maxPrice configuration * tickSizeMantissa configuration;
          scale = unat (priceScale configuration) in
      bind_result (powerOfTen (priceScale configuration)) (\<lambda>scaleFactor.
      bind_result (parseUnsignedWhole wholeText (maxScaledPrice div scaleFactor) ''Price'') (\<lambda>whole.
      let retainedDigits = min (length fractionalText) scale in
      bind_result (retained_loop (take retainedDigits fractionalText) 0) (\<lambda>retained.
      let fractional = fill_loop (scale - retainedDigits) retained in
      bind_result (excess_loop (drop retainedDigits fractionalText)) (\<lambda>_.
      let scaledWhole = whole * scaleFactor in
      if fractional > maxScaledPrice - scaledWhole
      then Inl (FixValidationError ''Price is outside the configured range'')
      else
      let scaledPrice = scaledWhole + fractional in
      if scaledPrice = 0 then Inl (FixValidationError ''Price is outside the configured range'')
      else if scaledPrice mod tickSizeMantissa configuration \<noteq> 0
      then Inl (FixValidationError ''Price violates the configured tick size'')
      else Inr (scaledPrice div tickSizeMantissa configuration))))))"

section \<open>Quantities\<close>

fun zeros_loop :: "string \<Rightarrow> fix_exception + unit" where
  "zeros_loop [] = Inr ()"
| "zeros_loop (character # rest) =
     (if character \<noteq> CHR ''0'' then Inl (FixValidationError ''OrderQty violates the configured lot size'')
      else zeros_loop rest)"

definition parseQuantityUnits :: "string \<Rightarrow> InstrumentConfiguration \<Rightarrow> fix_exception + Quantity" where
  "parseQuantityUnits txt configuration =
     (let decimalPoint = find_char CHR ''.'' txt;
          wholeText = whole_text txt decimalPoint;
          fractionalText = fractional_text txt decimalPoint in
      if second_point txt decimalPoint
      then Inl (FixValidationError ''OrderQty must contain at most one decimal point'')
      else if wholeText = [] \<or> decimalPoint \<noteq> None \<and> fractionalText = []
      then Inl (FixValidationError ''OrderQty must be a positive whole number'')
      else
      bind_result (zeros_loop fractionalText) (\<lambda>_.
      bind_result (parseUnsignedWhole wholeText (maxOrderQuantity configuration) ''OrderQty'') (\<lambda>qty.
      if qty = 0 \<or> lotSize configuration = 0 \<or> qty mod lotSize configuration \<noteq> 0
      then Inl (FixValidationError ''OrderQty violates the configured lot size'')
      else Inr qty)))"

section \<open>The number a text denotes\<close>

definition decimal_from :: "nat \<Rightarrow> string \<Rightarrow> nat" where
  "decimal_from n txt = foldl (\<lambda>v character. v * 10 + digit_of character) n txt"

abbreviation decimal_value :: "string \<Rightarrow> nat" where
  "decimal_value \<equiv> decimal_from 0"

text \<open>A decimal text is a nonempty whole part of digits, alone or followed by a point and a nonempty
  fractional part of digits.\<close>

definition decimal_text :: "string \<Rightarrow> string \<Rightarrow> string \<Rightarrow> bool" where
  "decimal_text whole frac txt \<longleftrightarrow>
     whole \<noteq> [] \<and> list_all is_digit (whole @ frac) \<and>
     txt = whole @ (if frac = [] then [] else CHR ''.'' # frac)"

lemma decimal_from_simps [simp]:
  "decimal_from n [] = n"
  "decimal_from n (c # cs) = decimal_from (n * 10 + digit_of c) cs"
  by (simp_all add: decimal_from_def)

lemma decimal_from_append: "decimal_from n (xs @ ys) = decimal_from (decimal_from n xs) ys"
  by (simp add: decimal_from_def)

lemma decimal_from_shift: "decimal_from n cs = n * 10 ^ length cs + decimal_value cs"
proof (induction cs arbitrary: n)
  case (Cons c cs)
  show ?case
    using Cons [of "n * 10 + digit_of c"] Cons [of "digit_of c"] by (simp add: algebra_simps)
qed simp

lemma digit_of_le: "is_digit c \<Longrightarrow> digit_of c \<le> 9"
  unfolding is_digit_def digit_of_def by linarith

lemma decimal_value_less: "list_all is_digit cs \<Longrightarrow> decimal_value cs < 10 ^ length cs"
proof (induction cs)
  case (Cons c cs)
  have "digit_of c * 10 ^ length cs \<le> 9 * 10 ^ length cs"
    using Cons.prems digit_of_le by (intro mult_le_mono1) simp
  moreover have "decimal_value cs < 10 ^ length cs"
    using Cons by simp
  ultimately have "digit_of c * 10 ^ length cs + decimal_value cs < 10 * 10 ^ length cs"
    by linarith
  then show ?case
    using decimal_from_shift [of "digit_of c" cs] by simp
qed simp

lemma decimal_from_ge: "n \<le> decimal_from n cs"
proof -
  have "n * 1 \<le> n * 10 ^ length cs"
    by (intro mult_le_mono2) simp
  then show ?thesis
    using decimal_from_shift [of n cs] by linarith
qed

lemma of_char_inject_nat: "(of_char c :: nat) = of_char d \<Longrightarrow> c = d"
  by simp

lemma zero_digit: "is_digit c \<and> digit_of c = 0 \<longleftrightarrow> c = CHR ''0''"
proof
  assume "is_digit c \<and> digit_of c = 0"
  then have "(of_char c :: nat) = of_char (CHR ''0'')"
    by (auto simp: is_digit_def digit_of_def)
  then show "c = CHR ''0''" by (rule of_char_inject_nat)
qed (simp add: is_digit_def digit_of_def)

lemma point_not_digit: "\<not> is_digit CHR ''.''"
  by (simp add: is_digit_def)

lemma decimal_value_zero:
  "list_all is_digit cs \<and> decimal_value cs = 0 \<longleftrightarrow> list_all (\<lambda>c. c = CHR ''0'') cs"
proof (induction cs)
  case (Cons c cs)
  have "decimal_value (c # cs) = digit_of c * 10 ^ length cs + decimal_value cs"
    using decimal_from_shift [of "digit_of c" cs] by simp
  then show ?case
    using Cons zero_digit [of c] by auto
qed simp

section \<open>The loops are exact\<close>

lemma unat_u64_less: "unat (v :: u64) < 2 ^ 64"
  using unsigned_less [of v, where ?'a = nat] by simp

lemma unat_UINT64_MAX: "unat UINT64_MAX = 2 ^ 64 - 1"
  by (simp add: UINT64_MAX_def unsigned_minus_1_eq_mask mask_eq_exp_minus_1)

lemma overflow_check:
  fixes n m d :: nat
  assumes "d \<le> 9"
  shows "n > m div 10 \<or> n = m div 10 \<and> d > m mod 10 \<longleftrightarrow> n * 10 + d > m"
proof -
  have "m mod 10 < 10" and "m = 10 * (m div 10) + m mod 10"
    by simp_all
  then show ?thesis
    using assms by linarith
qed

lemma powerOfTen_loop_exact:
  assumes "v \<noteq> 0"
  shows "powerOfTen_loop n v = Inr r \<longleftrightarrow> unat v * 10 ^ n < 2 ^ 64 \<and> r = of_nat (unat v * 10 ^ n)"
  using assms
proof (induction n arbitrary: v)
  case 0
  then show ?case using unat_u64_less [of v] by auto
next
  case (Suc n)
  have guard: "v > UINT64_MAX div 10 \<longleftrightarrow> unat v * 10 \<ge> 2 ^ 64"
    by (auto simp: word_less_nat_alt unat_div unat_UINT64_MAX)
  show ?case
  proof (cases "unat v * 10 < 2 ^ 64")
    case True
    then have u: "unat (v * 10) = unat v * 10"
      by (simp add: unat_mult_lem [THEN iffD1])
    moreover have "v * 10 \<noteq> 0"
      using u Suc.prems by (metis unat_eq_zero mult_is_0 numeral_eq_one_iff zero_neq_numeral)
    ultimately show ?thesis
      using Suc.IH [of "v * 10"] True guard by (simp add: algebra_simps)
  next
    case False
    have "unat v * 10 * 1 \<le> unat v * 10 * 10 ^ n"
      by (intro mult_le_mono2) simp
    then show ?thesis
      using False guard by (auto simp only: powerOfTen_loop.simps if_True power_Suc sum.distinct mult.assoc not_less)
  qed
qed

lemma powerOfTen_exact:
  "powerOfTen e = Inr r \<longleftrightarrow> 10 ^ unat e < (2 ^ 64 :: nat) \<and> r = of_nat (10 ^ unat e)"
  unfolding powerOfTen_def by (subst powerOfTen_loop_exact) auto

lemma parseUnsignedWhole_loop_exact:
  assumes "v \<le> maximum"
  shows "parseUnsignedWhole_loop maximum f v cs = Inr r \<longleftrightarrow>
    list_all is_digit cs \<and> decimal_from (unat v) cs \<le> unat maximum \<and> r = of_nat (decimal_from (unat v) cs)"
  using assms
proof (induction cs arbitrary: v)
  case Nil
  then show ?case by (auto simp: word_le_nat_alt)
next
  case (Cons c cs)
  show ?case
  proof (cases "is_digit c")
    case True
    have d: "unat (of_nat (digit_of c) :: u64) = digit_of c" "digit_of c \<le> 9"
      using digit_of_le [OF True] by (simp_all add: unat_of_nat)
    have guard: "v > maximum div 10 \<or> v = maximum div 10 \<and> of_nat (digit_of c) > maximum mod 10 \<longleftrightarrow>
        unat v * 10 + digit_of c > unat maximum"
      using overflow_check [OF d(2), of "unat maximum" "unat v"]
      by (simp add: word_less_nat_alt unat_div unat_mod d(1) word_unat_eq_iff)
    show ?thesis
    proof (cases "unat v * 10 + digit_of c \<le> unat maximum")
      case fits: True
      have "unat v * 10 + digit_of c < 2 ^ 64"
        using fits unat_u64_less [of maximum] by simp
      then have u: "unat (v * 10 + of_nat (digit_of c)) = unat v * 10 + digit_of c"
        using d(1) by (simp add: unat_word_ariths)
      then show ?thesis
        using Cons.IH [of "v * 10 + of_nat (digit_of c)"] fits guard True
        by (auto simp: word_le_nat_alt Let_def)
    next
      case False
      then have "decimal_from (unat v) (c # cs) > unat maximum"
        using decimal_from_ge [of "unat v * 10 + digit_of c" cs] by simp
      then show ?thesis
        using False guard True by (simp add: Let_def)
    qed
  qed simp
qed

lemma parseUnsignedWhole_exact:
  "parseUnsignedWhole cs maximum f = Inr r \<longleftrightarrow>
     cs \<noteq> [] \<and> list_all is_digit cs \<and> decimal_value cs \<le> unat maximum \<and> r = of_nat (decimal_value cs)"
  using parseUnsignedWhole_loop_exact [of 0 maximum f cs r] by (auto simp: parseUnsignedWhole_def)

lemma retained_loop_exact:
  "retained_loop cs (of_nat n) = Inr r \<longleftrightarrow> list_all is_digit cs \<and> r = of_nat (decimal_from n cs)"
proof (induction cs arbitrary: n)
  case (Cons c cs)
  have "(of_nat n * 10 + of_nat (digit_of c) :: u64) = of_nat (n * 10 + digit_of c)"
    by simp
  then show ?case
    using Cons.IH [of "n * 10 + digit_of c"] by auto
qed auto

lemma fill_loop_exact: "fill_loop k (of_nat n) = of_nat (n * 10 ^ k)"
proof (induction k arbitrary: n)
  case (Suc k)
  have "(of_nat n * 10 :: u64) = of_nat (n * 10)"
    by simp
  then show ?case
    using Suc.IH [of "n * 10"] by (simp add: algebra_simps)
qed simp

lemma excess_loop_exact: "excess_loop cs = Inr u \<longleftrightarrow> list_all (\<lambda>c. c = CHR ''0'') cs"
  using zero_digit by (induction cs) auto

lemma zeros_loop_exact: "zeros_loop cs = Inr u \<longleftrightarrow> list_all (\<lambda>c. c = CHR ''0'') cs"
  by (induction cs) auto

section \<open>Splitting a text at its point\<close>

lemma find_char_None: "find_char c xs = None \<longleftrightarrow> c \<notin> set xs"
  by (induction xs) auto

lemma find_char_point: "c \<notin> set w \<Longrightarrow> find_char c (w @ c # f) = Some (length w)"
  by (induction w) auto

lemma find_char_Some: "find_char c xs = Some p \<Longrightarrow> p < length xs \<and> xs ! p = c"
  by (induction xs arbitrary: p) (auto split: if_splits)

lemma decimal_text_iff:
  "decimal_text w f txt \<longleftrightarrow>
     w = whole_text txt (find_char CHR ''.'' txt) \<and> f = fractional_text txt (find_char CHR ''.'' txt) \<and>
     \<not> second_point txt (find_char CHR ''.'' txt) \<and> w \<noteq> [] \<and> (find_char CHR ''.'' txt = None \<or> f \<noteq> []) \<and>
     list_all is_digit w \<and> list_all is_digit f" (is "?L \<longleftrightarrow> ?R")
proof
  assume L: ?L
  then have dig: "list_all is_digit w" "list_all is_digit f" "CHR ''.'' \<notin> set w" "CHR ''.'' \<notin> set f"
    using point_not_digit by (auto simp: decimal_text_def list_all_iff)
  show ?R
  proof (cases "f = []")
    case True
    then show ?thesis
      using L dig find_char_None [of "CHR ''.''" w]
      by (auto simp: decimal_text_def whole_text_def fractional_text_def second_point_def)
  next
    case False
    then have "txt = w @ CHR ''.'' # f"
      using L by (simp add: decimal_text_def)
    then show ?thesis
      using L False dig find_char_point [OF dig(3), of f]
      by (auto simp: decimal_text_def whole_text_def fractional_text_def second_point_def find_char_None)
  qed
next
  assume R: ?R
  show ?L
  proof (cases "find_char CHR ''.'' txt")
    case None
    then show ?thesis
      using R by (auto simp: decimal_text_def whole_text_def fractional_text_def)
  next
    case (Some p)
    then have "txt = take p txt @ CHR ''.'' # drop (p + 1) txt"
      using find_char_Some [OF Some] id_take_nth_drop [of p "txt"] by simp
    moreover have parts: "w = take p txt" "f = drop (p + 1) txt"
      using R Some by (simp_all add: whole_text_def fractional_text_def)
    ultimately show ?thesis
      using R Some unfolding decimal_text_def by (metis list_all_append option.distinct(1))
  qed
qed

lemma decimal_text_ex:
  fixes "txt" :: string
  defines "p \<equiv> find_char CHR ''.'' txt"
  defines "w \<equiv> whole_text txt p" and "f \<equiv> fractional_text txt p"
  shows "(\<exists>w f. decimal_text w f txt \<and> Q w f) \<longleftrightarrow>
    \<not> second_point txt p \<and> w \<noteq> [] \<and> (p = None \<or> f \<noteq> []) \<and> list_all is_digit w \<and> list_all is_digit f \<and> Q w f"
  unfolding decimal_text_iff p_def w_def f_def by blast

section \<open>Prices and quantities are exact\<close>

lemma decimal_value_append: "decimal_value (xs @ ys) = decimal_value xs * 10 ^ length ys + decimal_value ys"
  using decimal_from_shift [of "decimal_value xs" ys] by (simp add: decimal_from_append)

lemma remainder_split:
  fixes a b n k :: nat
  assumes "b < k"
  shows "a * k + b = n * k \<longleftrightarrow> a = n \<and> b = 0"
proof
  assume eq: "a * k + b = n * k"
  have "(a * k + b) div k = a" "(a * k + b) mod k = b"
    using assms by simp_all
  then show "a = n \<and> b = 0"
    using eq assms by simp
qed simp

text \<open>Comparing a decimal number with a multiple of the unit \<open>10 ^ -s\<close>: the digits up to the scale give the
  multiple and the digits beyond it are zero.\<close>

lemma scaled_value:
  fixes s :: nat
  assumes "list_all is_digit frac"
  defines "r \<equiv> min (length frac) s"
  shows "decimal_value (whole @ frac) * 10 ^ s = n * 10 ^ length frac \<longleftrightarrow>
    list_all (\<lambda>c. c = CHR ''0'') (drop r frac) \<and>
    decimal_value whole * 10 ^ s + decimal_value (take r frac) * 10 ^ (s - r) = n"
proof (cases "length frac \<le> s")
  case True
  then have "(10::nat) ^ s = 10 ^ (s - length frac) * 10 ^ length frac"
    by (simp flip: power_add)
  then have "decimal_value (whole @ frac) * 10 ^ s =
      (decimal_value whole * 10 ^ s + decimal_value frac * 10 ^ (s - length frac)) * 10 ^ length frac"
    by (simp add: decimal_value_append algebra_simps)
  then show ?thesis
    using True by (simp add: r_def)
next
  case False
  let ?f = "take s frac" and ?e = "drop s frac"
  have dig: "list_all is_digit ?e"
    using assms(1) by (auto simp: list_all_iff dest: in_set_dropD)
  have len: "length ?f = s" "length frac = s + length ?e"
    using False by simp_all
  have "decimal_value (whole @ ?f @ ?e) =
      (decimal_value whole * 10 ^ s + decimal_value ?f) * 10 ^ length ?e + decimal_value ?e"
    using len by (simp only: decimal_value_append [of "whole @ ?f" ?e] decimal_value_append [of whole ?f]
        flip: append_assoc)
  moreover have "(n * 10 ^ length frac :: nat) = n * 10 ^ length ?e * 10 ^ s"
    by (subst len(2)) (simp only: power_add mult_ac)
  moreover have "a * 10 ^ s = b * 10 ^ s \<longleftrightarrow> a = b" for a b :: nat
    by simp
  ultimately have "decimal_value (whole @ frac) * 10 ^ s = n * 10 ^ length frac \<longleftrightarrow>
      (decimal_value whole * 10 ^ s + decimal_value ?f) * 10 ^ length ?e + decimal_value ?e = n * 10 ^ length ?e"
    by (simp only: append_take_drop_id)
  also have "\<dots> \<longleftrightarrow> decimal_value whole * 10 ^ s + decimal_value ?f = n \<and> decimal_value ?e = 0"
    by (rule remainder_split [OF decimal_value_less [OF dig]])
  finally show ?thesis
    using False decimal_value_zero [of ?e] dig by (auto simp: r_def)
qed

lemma word_of_nat_le: "q = of_nat n \<and> n \<le> unat m \<longleftrightarrow> unat q = n \<and> q \<le> m" for q m :: u64
  using unat_u64_less [of m] by (auto simp: word_le_nat_alt unat_of_nat)

lemma word_mod_zero: "(q :: u64) mod l = 0 \<longleftrightarrow> unat l dvd unat q"
  by (simp add: word_unat_eq_iff unat_mod dvd_eq_mod_eq_0)

lemma parseQuantityUnits_exact:
  assumes "lotSize cfg \<noteq> 0"
  shows "parseQuantityUnits txt cfg = Inr q \<longleftrightarrow>
    (\<exists>whole frac. decimal_text whole frac txt \<and> decimal_value (whole @ frac) = unat q * 10 ^ length frac \<and>
       q \<noteq> 0 \<and> q \<le> maxOrderQuantity cfg \<and> unat (lotSize cfg) dvd unat q)"
proof -
  let ?p = "find_char CHR ''.'' txt"
  let ?w = "whole_text txt ?p" and ?f = "fractional_text txt ?p"
  have value_iff: "decimal_value (?w @ ?f) = unat q * 10 ^ length ?f \<longleftrightarrow>
      list_all (\<lambda>c. c = CHR ''0'') ?f \<and> unat q = decimal_value ?w" if "list_all is_digit ?f"
    using scaled_value [OF that, of ?w 0 "unat q"] by auto
  have zeros: "list_all is_digit ?f" if "list_all (\<lambda>c. c = CHR ''0'') ?f"
    using decimal_value_zero [of ?f] that by blast
  have code: "parseQuantityUnits txt cfg = Inr q \<longleftrightarrow>
      \<not> second_point txt ?p \<and> ?w \<noteq> [] \<and> (?p = None \<or> ?f \<noteq> []) \<and> list_all (\<lambda>c. c = CHR ''0'') ?f \<and>
      list_all is_digit ?w \<and> (q = of_nat (decimal_value ?w) \<and> decimal_value ?w \<le> unat (maxOrderQuantity cfg)) \<and>
      q \<noteq> 0 \<and> q mod lotSize cfg = 0"
    unfolding parseQuantityUnits_def Let_def
    using assms by (simp add: result_iff zeros_loop_exact parseUnsignedWhole_exact not_le del: word_mod_zero) metis
  show ?thesis
    unfolding code decimal_text_ex word_of_nat_le word_mod_zero
    using value_iff zeros by blast
qed

text \<open>The last steps of \<open>parsePriceTicks\<close> on words, read as natural numbers: the range check cannot wrap and the
  result is the number of ticks.\<close>

lemma scaled_sum:
  fixes M F :: u64
  assumes F: "unat F = 10 ^ s" and X: "X < 10 ^ s" and s: "(10 ^ s :: nat) < 2 ^ 64"
  shows "W \<le> unat (M div F) \<and> \<not> of_nat X > M - of_nat W * F \<longleftrightarrow> W * 10 ^ s + X \<le> unat M"
proof (cases "W * 10 ^ s \<le> unat M")
  case True
  have F': "F = of_nat (10 ^ s)"
    by (simp flip: F)
  have "W * 10 ^ s < 2 ^ 64"
    using True unat_u64_less [of M] by simp
  then have WF: "unat (of_nat W * F) = W * 10 ^ s"
    unfolding F' of_nat_mult [symmetric] by (simp only: unat_of_nat) simp
  have "unat (M - of_nat W * F) = unat M - W * 10 ^ s"
    using True WF by (simp add: unat_sub word_le_nat_alt)
  moreover have "unat (of_nat X :: u64) = X"
    using X s by (simp add: unat_of_nat)
  moreover have "W \<le> unat M div 10 ^ s"
    using True by (simp add: less_eq_div_iff_mult_less_eq)
  ultimately show ?thesis
    using True by (auto simp: word_less_nat_alt unat_div F)
next
  case False
  then show ?thesis
    by (auto simp: unat_div F less_eq_div_iff_mult_less_eq)
qed

lemma ticks_exact:
  fixes M tick p maxp :: u64
  assumes M: "unat M = unat maxp * unat tick" and tick: "tick \<noteq> 0"
  shows "n \<le> unat M \<and> of_nat n \<noteq> (0 :: u64) \<and> of_nat n mod tick = 0 \<and> p = of_nat n div tick \<longleftrightarrow>
    n = unat p * unat tick \<and> p \<noteq> 0 \<and> p \<le> maxp" (is "?L \<longleftrightarrow> ?R")
proof -
  have t: "0 < unat tick"
    using tick by (simp add: unat_gt_0)
  have le: "unat p * unat tick \<le> unat M \<longleftrightarrow> p \<le> maxp"
    using t by (simp add: M word_le_nat_alt)
  show ?thesis
  proof (cases "n \<le> unat M")
    case True
    then have n: "unat (of_nat n :: u64) = n"
      using unat_u64_less [of M] by (simp add: unat_of_nat)
    have "?L \<longleftrightarrow> n \<noteq> 0 \<and> unat tick dvd n \<and> unat p = n div unat tick"
      using True n by (auto simp: word_unat_eq_iff unat_div unat_mod dvd_eq_mod_eq_0)
    also have "\<dots> \<longleftrightarrow> n = unat p * unat tick \<and> p \<noteq> 0"
      using t by (auto simp: word_unat_eq_iff)
    finally show ?thesis
      using True le by auto
  next
    case False
    then show ?thesis using le by auto
  qed
qed

definition valid_ticks :: "InstrumentConfiguration \<Rightarrow> bool" where
  "valid_ticks cfg \<longleftrightarrow> tickSizeMantissa cfg \<noteq> 0 \<and>
     unat (maxPrice cfg) * unat (tickSizeMantissa cfg) < 2 ^ 64 \<and> 10 ^ unat (priceScale cfg) < (2 ^ 64 :: nat)"

lemma valid_ticksD:
  assumes "valid_ticks cfg"
  shows "tickSizeMantissa cfg \<noteq> 0" and "10 ^ unat (priceScale cfg) < (2 ^ 64 :: nat)"
    and "unat (maxPrice cfg * tickSizeMantissa cfg) = unat (maxPrice cfg) * unat (tickSizeMantissa cfg)"
    and "\<not> maxPrice cfg > UINT64_MAX div tickSizeMantissa cfg"
proof -
  have "unat (maxPrice cfg) * unat (tickSizeMantissa cfg) \<le> 2 ^ 64 - 1"
    using assms by (simp add: valid_ticks_def)
  then show "\<not> maxPrice cfg > UINT64_MAX div tickSizeMantissa cfg"
    using assms by (simp add: valid_ticks_def word_less_nat_alt unat_div unat_UINT64_MAX not_less
        less_eq_div_iff_mult_less_eq unat_gt_0)
qed (use assms in \<open>auto simp: valid_ticks_def unat_mult_lem [THEN iffD1]\<close>)

lemma bind_exact:
  assumes "\<And>v. m = Inr v \<longleftrightarrow> C \<and> v = e"
  shows "bind_result m f = Inr y \<longleftrightarrow> C \<and> f e = Inr y"
  using assms by (auto simp: bind_result_Inr_iff)

lemma filled_less:
  assumes "list_all is_digit (take (min (length f) s) f)"
  shows "decimal_value (take (min (length f) s) f) * 10 ^ (s - min (length f) s) < 10 ^ s"
proof -
  let ?r = "min (length f) s"
  have "decimal_value (take ?r f) * 10 ^ (s - ?r) < 10 ^ length (take ?r f) * 10 ^ (s - ?r)"
    using decimal_value_less [OF assms] by simp
  also have "\<dots> = 10 ^ s"
    by (simp flip: power_add)
  finally show ?thesis .
qed

lemma parsePriceTicks_exact:
  assumes "valid_ticks cfg"
  shows "parsePriceTicks txt cfg = Inr t \<longleftrightarrow>
    (\<exists>whole frac. decimal_text whole frac txt \<and>
       decimal_value (whole @ frac) * 10 ^ unat (priceScale cfg) =
         unat t * unat (tickSizeMantissa cfg) * 10 ^ length frac \<and>
       t \<noteq> 0 \<and> t \<le> maxPrice cfg)"
proof -
  let ?p = "find_char CHR ''.'' txt" and ?s = "unat (priceScale cfg)" and ?tick = "tickSizeMantissa cfg"
  let ?w = "whole_text txt ?p" and ?f = "fractional_text txt ?p" and ?M = "maxPrice cfg * tickSizeMantissa cfg"
  let ?r = "min (length ?f) ?s"
  define F where "F = (of_nat (10 ^ ?s) :: u64)"
  define W where "W = decimal_value ?w"
  define X where "X = decimal_value (take ?r ?f) * 10 ^ (?s - ?r)"
  have tick: "?tick \<noteq> 0" and s: "(10 ^ ?s :: nat) < 2 ^ 64" and M: "unat ?M = unat (maxPrice cfg) * unat ?tick"
    and config: "\<not> maxPrice cfg > UINT64_MAX div ?tick"
    using valid_ticksD [OF assms] by auto
  have F: "unat F = 10 ^ ?s"
    using s unfolding F_def by (simp only: unat_of_nat) simp
  have steps: "powerOfTen (priceScale cfg) = Inr F"
    "parseUnsignedWhole ?w (?M div F) ''Price'' = Inr v \<longleftrightarrow>
       (?w \<noteq> [] \<and> list_all is_digit ?w \<and> W \<le> unat (?M div F)) \<and> v = of_nat W"
    "retained_loop (take ?r ?f) 0 = Inr u \<longleftrightarrow>
       list_all is_digit (take ?r ?f) \<and> u = of_nat (decimal_value (take ?r ?f))"
    "fill_loop (?s - ?r) (of_nat (decimal_value (take ?r ?f))) = of_nat X" for v u
    using s retained_loop_exact [of _ 0] unfolding F_def W_def X_def
    by (simp_all add: powerOfTen_exact parseUnsignedWhole_exact fill_loop_exact)
  have excess_exact: "excess_loop cs = Inr u \<longleftrightarrow> list_all (\<lambda>c. c = CHR ''0'') cs \<and> u = ()" for cs u
    by (simp add: excess_loop_exact)
  have sum: "of_nat W * F + of_nat X = (of_nat (W * 10 ^ ?s + X) :: u64)"
    unfolding F_def by simp
  have code: "parsePriceTicks txt cfg = Inr t \<longleftrightarrow>
      \<not> second_point txt ?p \<and> ?w \<noteq> [] \<and> (?p = None \<or> ?f \<noteq> []) \<and> list_all is_digit ?w \<and>
      list_all is_digit (take ?r ?f) \<and> list_all (\<lambda>c. c = CHR ''0'') (drop ?r ?f) \<and>
      (W \<le> unat (?M div F) \<and> \<not> of_nat X > ?M - of_nat W * F) \<and>
      of_nat W * F + of_nat X \<noteq> 0 \<and> (of_nat W * F + of_nat X) mod ?tick = 0 \<and>
      t = (of_nat W * F + of_nat X) div ?tick"
    unfolding parsePriceTicks_def Let_def steps(1)
    by (simp only: if_Inl_Inr_iff bind_result_simps bind_exact [OF steps(2)] bind_exact [OF steps(3)] steps(4)
        bind_exact [OF excess_exact] config tick sum.inject eq_commute [of _ t] simp_thms de_Morgan_disj de_Morgan_conj)
      (intro iffI; elim conjE; intro conjI; assumption)
  have X: "X < 10 ^ ?s" if "list_all is_digit (take ?r ?f)"
    using filled_less [OF that] by (simp add: X_def)
  have digits: "list_all is_digit ?f \<longleftrightarrow> list_all is_digit (take ?r ?f) \<and> list_all is_digit (drop ?r ?f)"
    by (metis append_take_drop_id list_all_append)
  have zeros: "list_all is_digit ?f \<longleftrightarrow> list_all is_digit (take ?r ?f)"
    if "list_all (\<lambda>c. c = CHR ''0'') (drop ?r ?f)"
    using digits decimal_value_zero [of "drop ?r ?f"] that by blast
  note scaled = scaled_value [of ?f ?w ?s "unat t * unat ?tick", folded W_def X_def]
  show ?thesis
  proof (cases "list_all is_digit ?f")
    case True
    then have taken: "list_all is_digit (take ?r ?f)"
      using digits by blast
    have number: "(W \<le> unat (?M div F) \<and> \<not> of_nat X > ?M - of_nat W * F) \<and>
        of_nat (W * 10 ^ ?s + X) \<noteq> (0 :: u64) \<and> of_nat (W * 10 ^ ?s + X) mod ?tick = 0 \<and>
        t = of_nat (W * 10 ^ ?s + X) div ?tick \<longleftrightarrow>
        W * 10 ^ ?s + X = unat t * unat ?tick \<and> t \<noteq> 0 \<and> t \<le> maxPrice cfg"
      unfolding scaled_sum [OF F X [OF taken] s] ticks_exact [OF M tick] by (rule refl)
    show ?thesis
      unfolding code decimal_text_ex sum number scaled [OF True] using True taken by (simp only: simp_thms conj_ac)
  next
    case False
    then show ?thesis
      unfolding code decimal_text_ex using zeros by (simp only: simp_thms) blast
  qed
qed

end
