(* ===== verification/Fix_Parser.thy ===== *)
theory Fix_Parser
  imports Fix_Decimal Admission
begin

text \<open>
  The FIX boundary: \<open>core/fix/src/client_identity.cpp\<close>, which maps configured FIX sessions to client identifiers,
  and \<open>parseFixMessage\<close> of \<open>core/fix/src/fix_parser.cpp\<close>, which turns a FIX message into a normalized command.

  QuickFIX is not part of the sources. The record \<open>QuickFix\<close> holds what the parser calls of it, for a type \<open>'m\<close>
  of messages: the fields of the header and of the body by tag (\<open>None\<close> where \<open>isSetField\<close> is false and \<open>getField\<close>
  throws \<open>FieldNotFound\<close>) and the conversion of the text of a character field (\<open>None\<close> where \<open>getValue\<close> throws
  \<open>IncorrectDataFormat\<close>). Session identifiers are a type \<open>'s\<close> with QuickFIX's \<open>toString\<close> as a parameter.
\<close>

record 'm QuickFix =
  header_field :: "'m \<Rightarrow> nat \<Rightarrow> string option"
  body_field :: "'m \<Rightarrow> nat \<Rightarrow> string option"
  char_value :: "string \<Rightarrow> char option"

section \<open>Client identities\<close>

definition FIX_CLIENT_ID_SETTING :: string where
  "FIX_CLIENT_ID_SETTING = ''ExchangeClientId''"

fun parseConfiguredClientId_loop :: "string \<Rightarrow> u64 \<Rightarrow> string \<Rightarrow> u64 result" where
  "parseConfiguredClientId_loop session v [] = Inr v"
| "parseConfiguredClientId_loop session v (character # rest) =
     (if \<not> is_digit character
      then Inl (invalid_argument (FIX_CLIENT_ID_SETTING @ '' must be an unsigned decimal for FIX session '' @ session))
      else
      let digit = of_nat (digit_of character) in
      if v > UINT64_MAX div 10 \<or> v = UINT64_MAX div 10 \<and> digit > UINT64_MAX mod 10
      then Inl (invalid_argument (FIX_CLIENT_ID_SETTING @ '' overflows uint64 for FIX session '' @ session))
      else parseConfiguredClientId_loop session (v * 10 + digit) rest)"

definition parseConfiguredClientId :: "string \<Rightarrow> string \<Rightarrow> ClientId result" where
  "parseConfiguredClientId txt session =
     (if txt = [] then Inl (invalid_argument (''empty '' @ FIX_CLIENT_ID_SETTING @ '' for FIX session '' @ session))
      else
      bind_result (parseConfiguredClientId_loop session 0 txt) (\<lambda>v.
      if v = 0
      then Inl (invalid_argument (FIX_CLIENT_ID_SETTING @ '' must be nonzero for FIX session '' @ session))
      else Inr v))"

text \<open>\<open>mappings_\<close> is a \<open>std::map\<close> that is searched and extended but never iterated: the list of its entries.\<close>

type_synonym 's ClientIdentityResolver = "('s \<times> ClientId) list"

definition resolve :: "'s ClientIdentityResolver \<Rightarrow> 's \<Rightarrow> ClientId option" where
  "resolve mappings sessionId = map_of mappings sessionId"

definition addMapping ::
  "('s \<Rightarrow> string) \<Rightarrow> 's ClientIdentityResolver \<Rightarrow> 's \<Rightarrow> ClientId \<Rightarrow> 's ClientIdentityResolver result" where
  "addMapping toString mappings sessionId client =
     (if client = 0 then Inl (invalid_argument ''configured FIX ClientId must be nonzero'')
      else if map_of mappings sessionId \<noteq> None
      then Inl (invalid_argument (''duplicate configured FIX session identity: '' @ toString sessionId))
      else Inr ((sessionId, client) # mappings))"

definition check_nonempty :: "'s ClientIdentityResolver \<Rightarrow> 's ClientIdentityResolver result" where
  "check_nonempty mappings =
     (if mappings = []
      then Inl (invalid_argument ''FIX client identity configuration must not be empty'') else Inr mappings)"

fun addMappings ::
  "('s \<Rightarrow> string) \<Rightarrow> ('s \<times> ClientId) list \<Rightarrow> 's ClientIdentityResolver \<Rightarrow> 's ClientIdentityResolver result" where
  "addMappings toString [] mappings = Inr mappings"
| "addMappings toString ((sessionId, client) # rest) mappings =
     bind_result (addMapping toString mappings sessionId client) (addMappings toString rest)"

definition make_ClientIdentityResolver ::
  "('s \<Rightarrow> string) \<Rightarrow> ('s \<times> ClientId) list \<Rightarrow> 's ClientIdentityResolver result" where
  "make_ClientIdentityResolver toString mappings =
     bind_result (addMappings toString mappings []) check_nonempty"

text \<open>The constructor from QuickFIX settings: the configured sessions, each with the text of its client
  identifier when that setting is present.\<close>

fun addConfiguredSessions ::
  "('s \<Rightarrow> string) \<Rightarrow> ('s \<times> string option) list \<Rightarrow> 's ClientIdentityResolver \<Rightarrow> 's ClientIdentityResolver result" where
  "addConfiguredSessions toString [] mappings = Inr mappings"
| "addConfiguredSessions toString ((sessionId, setting) # rest) mappings =
     (case setting of
        None \<Rightarrow> Inl (invalid_argument
          (''missing '' @ FIX_CLIENT_ID_SETTING @ '' for FIX session '' @ toString sessionId))
      | Some configured \<Rightarrow>
          bind_result (parseConfiguredClientId configured (toString sessionId)) (\<lambda>client.
          bind_result (addMapping toString mappings sessionId client) (addConfiguredSessions toString rest)))"

definition make_ClientIdentityResolver_settings ::
  "('s \<Rightarrow> string) \<Rightarrow> ('s \<times> string option) list \<Rightarrow> 's ClientIdentityResolver result" where
  "make_ClientIdentityResolver_settings toString sessions =
     bind_result (addConfiguredSessions toString sessions []) check_nonempty"

section \<open>Fields of a message\<close>

definition FIELD_ClOrdID :: nat where "FIELD_ClOrdID = 11"
definition FIELD_MsgType :: nat where "FIELD_MsgType = 35"
definition FIELD_OrderID :: nat where "FIELD_OrderID = 37"
definition FIELD_OrderQty :: nat where "FIELD_OrderQty = 38"
definition FIELD_OrdType :: nat where "FIELD_OrdType = 40"
definition FIELD_Price :: nat where "FIELD_Price = 44"
definition FIELD_Side :: nat where "FIELD_Side = 54"
definition FIELD_Symbol :: nat where "FIELD_Symbol = 55"
definition FIELD_TimeInForce :: nat where "FIELD_TimeInForce = 59"
definition FIELD_ExpireTime :: nat where "FIELD_ExpireTime = 126"

definition get_field :: "'m QuickFix \<Rightarrow> 'm \<Rightarrow> nat \<Rightarrow> fix_exception + string" where
  "get_field qf fixMessage tag = get_or_throw (body_field qf fixMessage tag) (FieldNotFound tag)"

definition get_char :: "'m QuickFix \<Rightarrow> 'm \<Rightarrow> nat \<Rightarrow> fix_exception + char" where
  "get_char qf fixMessage tag =
     bind_result (get_field qf fixMessage tag)
       (\<lambda>txt. get_or_throw (char_value qf txt) (IncorrectDataFormat tag))"

text \<open>\<open>static_cast<TimeInForce>\<close> of the character; \<open>char\<close> is signed.\<close>

definition timeInForce_of_char :: "char \<Rightarrow> TimeInForce" where
  "timeInForce_of_char c =
     (if c = CHR ''0'' then DAY else if c = CHR ''1'' then GTC else if c = CHR ''3'' then IOC
      else if c = CHR ''4'' then FOK else if c = CHR ''5'' then GTX else if c = CHR ''7'' then ATC
      else if c = CHR ''6'' then GTD else TimeInForce_other (sint (of_char c :: u8)))"

definition extractTimeInForce :: "'m QuickFix \<Rightarrow> 'm \<Rightarrow> fix_exception + TimeInForce" where
  "extractTimeInForce qf fixMessage =
     bind_result (get_char qf fixMessage FIELD_TimeInForce) (\<lambda>c.
     let v = timeInForce_of_char c in
     if v \<noteq> GTC \<and> v \<noteq> IOC then Inl (FixValidationError ''unsupported TimeInForce'') else Inr v)"

text \<open>The result is the default time point.\<close>

definition validateExpiry :: "'m QuickFix \<Rightarrow> 'm \<Rightarrow> fix_exception + int" where
  "validateExpiry qf fixMessage =
     (if body_field qf fixMessage FIELD_ExpireTime \<noteq> None
      then Inl (FixValidationError ''ExpireTime is not supported for GTC or IOC orders'') else Inr 0)"

definition validateNewOrderType :: "'m QuickFix \<Rightarrow> 'm \<Rightarrow> fix_exception + unit" where
  "validateNewOrderType qf fixMessage =
     bind_result (get_char qf fixMessage FIELD_OrdType) (\<lambda>c.
     throw_if (c \<noteq> CHR ''2'') (FixValidationError ''only limit NewOrderSingle messages are supported''))"

definition extractSide :: "'m QuickFix \<Rightarrow> 'm \<Rightarrow> fix_exception + orderType" where
  "extractSide qf fixMessage =
     bind_result (get_char qf fixMessage FIELD_Side) (\<lambda>c.
     if c = CHR ''1'' then Inr BUY
     else if c = CHR ''2'' then Inr SELL
     else Inl (FixValidationError ''unsupported Side''))"

definition extractOrderQty ::
  "'m QuickFix \<Rightarrow> 'm \<Rightarrow> InstrumentConfiguration \<Rightarrow> fix_exception + Quantity" where
  "extractOrderQty qf fixMessage configuration =
     bind_result (get_field qf fixMessage FIELD_OrderQty) (\<lambda>txt. parseQuantityUnits txt configuration)"

definition extractLimitPrice ::
  "'m QuickFix \<Rightarrow> 'm \<Rightarrow> InstrumentConfiguration \<Rightarrow> fix_exception + Price" where
  "extractLimitPrice qf fixMessage configuration =
     bind_result (get_field qf fixMessage FIELD_Price) (\<lambda>txt. parsePriceTicks txt configuration)"

definition extractTargetOrderId :: "'m QuickFix \<Rightarrow> 'm \<Rightarrow> fix_exception + TargetOrderId" where
  "extractTargetOrderId qf fixMessage =
     bind_result (get_field qf fixMessage FIELD_OrderID) (\<lambda>txt.
     bind_result (parseUnsignedWhole txt UINT64_MAX ''OrderID'') (\<lambda>target.
     if target = 0 then Inl (FixValidationError ''OrderID must be positive'') else Inr target))"

section \<open>The parser\<close>

definition isProcessableMessageType :: "string \<Rightarrow> bool" where
  "isProcessableMessageType msgType \<longleftrightarrow> msgType = ''D'' \<or> msgType = ''F''"

text \<open>\<open>std::strncpy\<close> into the ten bytes of \<open>symbol\<close>, the last of which is set to zero.\<close>

definition copy_symbol :: "string \<Rightarrow> u8 list" where
  "copy_symbol s =
     (let bytes = take 9 (takeWhile (\<lambda>b. b \<noteq> 0) (map of_char s)) in bytes @ replicate (10 - length bytes) 0)"

text \<open>The exceptions of the \<open>ClientCommandId\<close> constructor are rethrown as validation errors.\<close>

definition clientCommandId_of :: "string \<Rightarrow> fix_exception + ClientCommandId" where
  "clientCommandId_of s =
     (case make_ClientCommandId (map of_char s) of
        Inl (invalid_argument what) \<Rightarrow> Inl (FixValidationError what)
      | Inl e \<Rightarrow> Inl (fix_exception_other e)
      | Inr c \<Rightarrow> Inr c)"

definition message_kind :: "'m QuickFix \<Rightarrow> 'm \<Rightarrow> string \<Rightarrow> fix_exception + orderType" where
  "message_kind qf fixMessage msgType =
     (if msgType = ''F'' then Inr CANCEL
      else if msgType = ''D''
      then bind_result (validateNewOrderType qf fixMessage) (\<lambda>_. extractSide qf fixMessage)
      else Inr (orderType_of empty_sequenceMessage))"

definition parseFixMessage ::
  "'m QuickFix \<Rightarrow> 's ClientIdentityResolver \<Rightarrow> 'm \<Rightarrow> 's \<Rightarrow> fix_exception + sequenceMessage" where
  "parseFixMessage qf clientIdentityResolver fixMessage sessionID =
     bind_result (get_or_throw (header_field qf fixMessage FIELD_MsgType) (FieldNotFound FIELD_MsgType)) (\<lambda>msgType.
     bind_result (get_or_throw (resolve clientIdentityResolver sessionID)
       (FixValidationError ''unknown or unauthorized FIX session identity'')) (\<lambda>client.
     bind_result (message_kind qf fixMessage msgType) (\<lambda>type.
     bind_result (get_field qf fixMessage FIELD_Symbol) (\<lambda>sym.
     bind_result (get_or_throw (findBySymbol sym) (FixValidationError ''unknown or inactive instrument''))
       (\<lambda>configuration.
     let seqMsg = empty_sequenceMessage
           \<lparr>clientId := client, orderType_of := type, symbol := copy_symbol sym,
            instrumentId := ic_instrumentId configuration,
            configurationVersion := ic_configurationVersion configuration\<rparr> in
     bind_result (if type \<noteq> CANCEL then extractOrderQty qf fixMessage configuration else Inr (quantity seqMsg))
       (\<lambda>qty.
     bind_result (if type \<noteq> CANCEL then extractLimitPrice qf fixMessage configuration else Inr (price seqMsg))
       (\<lambda>limit.
     bind_result (get_field qf fixMessage FIELD_ClOrdID) (\<lambda>clOrdID.
     bind_result (clientCommandId_of clOrdID) (\<lambda>ccid.
     let seqMsg = seqMsg\<lparr>quantity := qty, price := limit, clientCommandId := Some ccid\<rparr> in
     if type = CANCEL then
       bind_result (extractTargetOrderId qf fixMessage) (\<lambda>target. Inr (seqMsg\<lparr>targetOrderId := Some target\<rparr>))
     else
       bind_result (extractTimeInForce qf fixMessage) (\<lambda>inForce.
       bind_result (validateExpiry qf fixMessage) (\<lambda>expires.
       Inr (seqMsg\<lparr>tif := inForce, expiry := expires\<rparr>))))))))))))"

section \<open>Resolved identities\<close>

lemma parseConfiguredClientId_loop_exact:
  "parseConfiguredClientId_loop session v cs = Inr r \<longleftrightarrow> parseUnsignedWhole_loop UINT64_MAX f v cs = Inr r"
  by (induction cs arbitrary: v) (simp_all add: Let_def)

lemma parseConfiguredClientId_exact:
  "parseConfiguredClientId cs session = Inr r \<longleftrightarrow>
     cs \<noteq> [] \<and> list_all is_digit cs \<and> unat r = decimal_value cs \<and> r \<noteq> 0"
  using parseUnsignedWhole_exact [of cs UINT64_MAX "[]" r] word_of_nat_le [of r "decimal_value cs" UINT64_MAX]
    parseConfiguredClientId_loop_exact [of session 0 cs _ "[]"]
  by (auto simp: parseConfiguredClientId_def parseUnsignedWhole_def result_iff UINT64_MAX_def)

text \<open>A constructed resolver gives every configured session its own nonzero client, and knows no other.\<close>

definition resolver_ok :: "'s ClientIdentityResolver \<Rightarrow> bool" where
  "resolver_ok m \<longleftrightarrow> distinct (map fst m) \<and> 0 \<notin> snd ` set m"

lemma addMapping_ok:
  "addMapping toString m s c = Inr m' \<Longrightarrow> resolver_ok m \<Longrightarrow> resolver_ok m' \<and> m' = (s, c) # m"
  by (auto simp: addMapping_def resolver_ok_def map_of_eq_None_iff split: if_splits)

lemma addMappings_ok:
  "addMappings toString xs m = Inr m' \<Longrightarrow> resolver_ok m \<Longrightarrow> resolver_ok m' \<and> m' = rev xs @ m"
  by (induction toString xs m rule: addMappings.induct) (auto simp: result_iff dest: addMapping_ok)

lemma addConfiguredSessions_ok:
  "addConfiguredSessions toString xs m = Inr m' \<Longrightarrow> resolver_ok m \<Longrightarrow>
     resolver_ok m' \<and> map fst m' = rev (map fst xs) @ map fst m"
proof (induction toString xs m rule: addConfiguredSessions.induct)
  case (2 toString sessionId setting rest m)
  then obtain configured client m1 where
    step: "setting = Some configured" "parseConfiguredClientId configured (toString sessionId) = Inr client"
      "addMapping toString m sessionId client = Inr m1" "addConfiguredSessions toString rest m1 = Inr m'"
    by (auto simp: result_iff split: option.splits)
  note added = addMapping_ok [OF step(3) 2(3)]
  show ?case
    using "2.IH" [OF step conjunct1 [OF added]] added by simp
qed simp

lemma make_resolver_ok:
  "make_ClientIdentityResolver toString xs = Inr m \<Longrightarrow> resolver_ok m"
  "make_ClientIdentityResolver_settings toString ys = Inr m \<Longrightarrow> resolver_ok m"
  by (auto simp: make_ClientIdentityResolver_def make_ClientIdentityResolver_settings_def check_nonempty_def result_iff
      resolver_ok_def [of "[]"] dest!: addMappings_ok addConfiguredSessions_ok split: if_splits)

lemma resolve_nonzero: "resolver_ok m \<Longrightarrow> resolve m s = Some c \<Longrightarrow> c \<noteq> 0"
  by (force simp: resolver_ok_def resolve_def dest: map_of_SomeD)

section \<open>What a parsed message contains\<close>

text \<open>The well-formed output of the parser: a client, a valid client command identifier, the configured
  instrument, no sequence number or order identifier yet, and either a limit order of a permitted time in force
  within the limits of the instrument or a cancel with a target.\<close>

definition parsed_command :: "sequenceMessage \<Rightarrow> bool" where
  "parsed_command m \<longleftrightarrow>
     clientId m \<noteq> 0 \<and> (\<exists>c. clientCommandId m = Some c \<and> valid_ClientCommandId c) \<and>
     instrumentId m = ic_instrumentId SPY_V1 \<and> configurationVersion m = ic_configurationVersion SPY_V1 \<and>
     orderId m = 0 \<and> globalSequenceNumber m = 0 \<and> symbol m = copy_symbol ''SPY'' \<and>
     ((orderType_of m = BUY \<or> orderType_of m = SELL) \<and> (tif m = GTC \<or> tif m = IOC) \<and>
        price m \<noteq> 0 \<and> price m \<le> maxPrice SPY_V1 \<and>
        quantity m \<noteq> 0 \<and> quantity m \<le> maxOrderQuantity SPY_V1 \<and> targetOrderId m = None \<or>
      orderType_of m = CANCEL \<and> (\<exists>t. t \<noteq> 0 \<and> targetOrderId m = Some t))"

lemma clientCommandId_of_Inr [result_iff]:
  "clientCommandId_of s = Inr c \<longleftrightarrow> make_ClientCommandId (map of_char s) = Inr c"
  by (auto simp: clientCommandId_of_def split: sum.splits cpp_exception.splits)

lemma findBySymbol_Some [result_iff]: "findBySymbol s = Some c \<longleftrightarrow> s = ''SPY'' \<and> c = SPY_V1"
  by (auto simp: findBySymbol_def SPY_V1_def)

lemma SPY_V1_valid: "valid_ticks SPY_V1" "lotSize SPY_V1 \<noteq> 0"
  by (simp_all add: valid_ticks_def SPY_V1_def)

lemma extract_limits:
  "extractLimitPrice qf m SPY_V1 = Inr t \<Longrightarrow> t \<noteq> 0 \<and> t \<le> maxPrice SPY_V1"
  "extractOrderQty qf m SPY_V1 = Inr q \<Longrightarrow> q \<noteq> 0 \<and> q \<le> maxOrderQuantity SPY_V1"
  by (auto simp: extractLimitPrice_def extractOrderQty_def result_iff parsePriceTicks_exact [OF SPY_V1_valid(1)]
      parseQuantityUnits_exact [OF SPY_V1_valid(2)])

lemma extractSide_kind: "extractSide qf m = Inr side \<Longrightarrow> side = BUY \<or> side = SELL"
  by (auto simp: extractSide_def result_iff split: if_splits)

lemma extractTimeInForce_kind: "extractTimeInForce qf m = Inr f \<Longrightarrow> f = GTC \<or> f = IOC"
  by (auto simp: extractTimeInForce_def Let_def result_iff)

text \<open>The messages the parser accepts and the commands it makes of them.\<close>

definition parsed_message :: "ClientId \<Rightarrow> ClientCommandId \<Rightarrow> orderType \<Rightarrow> sequenceMessage" where
  "parsed_message client ccid type = empty_sequenceMessage
     \<lparr>clientId := client, orderType_of := type, symbol := copy_symbol ''SPY'',
      instrumentId := ic_instrumentId SPY_V1, configurationVersion := ic_configurationVersion SPY_V1,
      clientCommandId := Some ccid\<rparr>"

lemma parse_new_order_iff:
  assumes "header_field qf m FIELD_MsgType = Some ''D''"
  shows "parseFixMessage qf res m s = Inr msg \<longleftrightarrow>
    (\<exists>client side qty limit cl ccid f.
       resolve res s = Some client \<and> get_char qf m FIELD_OrdType = Inr CHR ''2'' \<and> extractSide qf m = Inr side \<and>
       get_field qf m FIELD_Symbol = Inr ''SPY'' \<and> extractOrderQty qf m SPY_V1 = Inr qty \<and>
       extractLimitPrice qf m SPY_V1 = Inr limit \<and> get_field qf m FIELD_ClOrdID = Inr cl \<and>
       make_ClientCommandId (map of_char cl) = Inr ccid \<and> extractTimeInForce qf m = Inr f \<and>
       body_field qf m FIELD_ExpireTime = None \<and>
       msg = parsed_message client ccid side\<lparr>quantity := qty, price := limit, tif := f\<rparr>)" (is "?L \<longleftrightarrow> ?R")
proof -
  have kind: "message_kind qf m ''D'' = Inr type \<longleftrightarrow>
      get_char qf m FIELD_OrdType = Inr CHR ''2'' \<and> extractSide qf m = Inr type" for type
    by (auto simp: message_kind_def validateNewOrderType_def result_iff)
  have expiry: "validateExpiry qf m = Inr e \<longleftrightarrow> body_field qf m FIELD_ExpireTime = None \<and> e = 0" for e
    by (auto simp: validateExpiry_def)
  have built: "parsed_message client ccid side\<lparr>quantity := qty, price := limit, tif := f\<rparr> =
      empty_sequenceMessage\<lparr>clientId := client, orderType_of := side, symbol := copy_symbol ''SPY'',
        instrumentId := ic_instrumentId SPY_V1, configurationVersion := ic_configurationVersion SPY_V1,
        quantity := qty, price := limit, clientCommandId := Some ccid, tif := f, expiry := 0\<rparr>"
    for client ccid side qty limit f
    by (simp add: parsed_message_def empty_sequenceMessage_def)
  have side: "extractSide qf m = Inr side \<Longrightarrow> side \<noteq> CANCEL" for side
    using extractSide_kind [of qf m side] by auto
  show ?thesis
    unfolding parseFixMessage_def Let_def built assms get_or_throw_simps bind_result_simps
    using side by (auto simp: result_iff kind expiry)
qed

lemma parse_cancel_iff:
  assumes "header_field qf m FIELD_MsgType = Some ''F''"
  shows "parseFixMessage qf res m s = Inr msg \<longleftrightarrow>
    (\<exists>client cl ccid target.
       resolve res s = Some client \<and> get_field qf m FIELD_Symbol = Inr ''SPY'' \<and>
       get_field qf m FIELD_ClOrdID = Inr cl \<and> make_ClientCommandId (map of_char cl) = Inr ccid \<and>
       extractTargetOrderId qf m = Inr target \<and>
       msg = parsed_message client ccid CANCEL\<lparr>targetOrderId := Some target\<rparr>)"
proof -
  have built: "parsed_message client ccid CANCEL\<lparr>targetOrderId := Some target\<rparr> =
      empty_sequenceMessage\<lparr>clientId := client, orderType_of := CANCEL, symbol := copy_symbol ''SPY'',
        instrumentId := ic_instrumentId SPY_V1, configurationVersion := ic_configurationVersion SPY_V1,
        quantity := 0, price := 0, clientCommandId := Some ccid, targetOrderId := Some target\<rparr>"
    for client ccid target
    by (simp add: parsed_message_def empty_sequenceMessage_def)
  show ?thesis
    unfolding parseFixMessage_def Let_def built assms get_or_throw_simps bind_result_simps
    by (auto simp: result_iff message_kind_def empty_sequenceMessage_def)
qed

lemma parseFixMessage_parsed:
  assumes "parseFixMessage qf res m s = Inr msg" and "resolver_ok res"
    and "header_field qf m FIELD_MsgType = Some ty" and "isProcessableMessageType ty"
  shows "parsed_command msg \<and> resolve res s = Some (clientId msg)"
proof (cases "ty = ''D''")
  case True
  then show ?thesis
    using assms(1,3)
    by (auto simp: parse_new_order_iff parsed_command_def parsed_message_def empty_sequenceMessage_def
        dest: resolve_nonzero [OF assms(2)] make_ClientCommandId_valid extractSide_kind extractTimeInForce_kind
        extract_limits)
next
  case False
  then have "ty = ''F''"
    using assms(4) by (simp add: isProcessableMessageType_def)
  then show ?thesis
    using assms(1,3) resolve_nonzero [OF assms(2)] make_ClientCommandId_valid
    by (auto simp: parse_cancel_iff parsed_command_def parsed_message_def empty_sequenceMessage_def
        extractTargetOrderId_def result_iff)
qed

end
