(* ===== verification/Fix_Gateway.thy ===== *)
theory Fix_Gateway
  imports Fix_Parser Admission_Runs Bus Adaptive_Idle
begin

text \<open>
  The gateway task, \<open>core/fix/src/fix_task.cpp\<close>: QuickFIX session threads call \<open>fromApp\<close>, which parses a message,
  reserves its key in the admission index and stages the command; the task's worker moves staged commands to the
  ingress queue of the sequencer and keeps its cursor on the bus moving. The admission index, the ingress queue,
  the bus and the store of cursors belong to the composition root and are passed explicitly.
\<close>

section \<open>The task\<close>

record 'q FixTask =
  ft_stagingQueue :: 'q
  pendingStagedCommand :: "sequenceMessage option"
  normalizationRejections :: u64
  internalFailures :: u64
  stagingQueueSaturations :: u64
  fix_cursor :: nat

definition make_FixTask :: "'q \<Rightarrow> nat \<Rightarrow> Bus \<Rightarrow> cursors \<Rightarrow> 'q FixTask \<times> Bus \<times> cursors" where
  "make_FixTask queue cursor bus cursors =
     (let cursors = cursors(cursor := 0) in
      (\<lparr>ft_stagingQueue = queue, pendingStagedCommand = None, normalizationRejections = 0, internalFailures = 0,
        stagingQueueSaturations = 0, fix_cursor = cursor\<rparr>,
       registerCursor bus cursors cursor, cursors))"

definition fix_normalize ::
  "'m QuickFix \<Rightarrow> 's ClientIdentityResolver \<Rightarrow> 'm \<Rightarrow> 's \<Rightarrow> fix_exception + sequenceMessage option" where
  "fix_normalize qf resolver message sessionID =
     bind_result (get_or_throw (header_field qf message FIELD_MsgType) (FieldNotFound FIELD_MsgType)) (\<lambda>msgType.
     if \<not> isProcessableMessageType msgType then Inr None
     else bind_result (parseFixMessage qf resolver message sessionID) (\<lambda>m. Inr (Some m)))"

definition fromApp ::
  "('q, sequenceMessage) queue_push \<Rightarrow> 'm QuickFix \<Rightarrow> 's ClientIdentityResolver \<Rightarrow> 'q FixTask \<Rightarrow>
     CommandAdmissionIndex \<Rightarrow> 'm \<Rightarrow> 's \<Rightarrow> 'q FixTask \<times> CommandAdmissionIndex" where
  "fromApp push qf resolver task commandAdmissionIndex message sessionID =
     (case fix_normalize qf resolver message sessionID of
        Inl (FieldNotFound _) \<Rightarrow>
          (task\<lparr>normalizationRejections := normalizationRejections task + 1\<rparr>, commandAdmissionIndex)
      | Inl (FixValidationError _) \<Rightarrow>
          (task\<lparr>normalizationRejections := normalizationRejections task + 1\<rparr>, commandAdmissionIndex)
      | Inl _ \<Rightarrow> (task\<lparr>internalFailures := internalFailures task + 1\<rparr>, commandAdmissionIndex)
      | Inr None \<Rightarrow> (task, commandAdmissionIndex)
      | Inr (Some normalized) \<Rightarrow>
          (case reserveAndStage push commandAdmissionIndex normalized (ft_stagingQueue task) of
             Inl _ \<Rightarrow> (task\<lparr>internalFailures := internalFailures task + 1\<rparr>, commandAdmissionIndex)
           | Inr (decision, idx, q) \<Rightarrow>
               let task = task\<lparr>ft_stagingQueue := q\<rparr> in
               if rejectionReason decision = Some GATEWAY_BUSY
               then (task\<lparr>stagingQueueSaturations := stagingQueueSaturations task + 1\<rparr>, idx)
               else (task, idx)))"

definition processNextStagedCommand ::
  "('q, sequenceMessage) queue_push \<Rightarrow> ('q, sequenceMessage) queue_pop \<Rightarrow> 'q FixTask \<Rightarrow> 'q \<Rightarrow>
     bool \<times> 'q FixTask \<times> 'q" where
  "processNextStagedCommand push pop task ingress =
     (let (found, task) =
        (case pendingStagedCommand task of
           Some _ \<Rightarrow> (True, task)
         | None \<Rightarrow>
             (case SharedQueue_pop pop (ft_stagingQueue task) empty_sequenceMessage of
                (False, _, q) \<Rightarrow> (False, task\<lparr>ft_stagingQueue := q\<rparr>)
              | (True, command, q) \<Rightarrow> (True, task\<lparr>ft_stagingQueue := q, pendingStagedCommand := Some command\<rparr>))) in
      if \<not> found then (False, task, ingress)
      else
        case SharedQueue_push push ingress (the (pendingStagedCommand task)) of
          (False, ingress) \<Rightarrow> (False, task, ingress)
        | (True, ingress) \<Rightarrow> (True, task\<lparr>pendingStagedCommand := None\<rparr>, ingress))"

section \<open>One round of the worker\<close>

definition EXT_BURST_MESSAGES :: nat where "EXT_BURST_MESSAGES = 64"
definition INT_BURST_MESSAGES :: nat where "INT_BURST_MESSAGES = 32"

fun staged_burst ::
  "('q, sequenceMessage) queue_push \<Rightarrow> ('q, sequenceMessage) queue_pop \<Rightarrow> nat \<Rightarrow> bool \<Rightarrow> 'q FixTask \<Rightarrow> 'q \<Rightarrow>
     bool \<times> 'q FixTask \<times> 'q" where
  "staged_burst push pop 0 progressed task ingress = (progressed, task, ingress)"
| "staged_burst push pop (Suc n) progressed task ingress =
     (case processNextStagedCommand push pop task ingress of
        (False, task, ingress) \<Rightarrow> (progressed, task, ingress)
      | (True, task, ingress) \<Rightarrow> staged_burst push pop n True task ingress)"

fun internal_burst :: "nat \<Rightarrow> bool \<Rightarrow> Bus \<Rightarrow> nat \<Rightarrow> cursors \<Rightarrow> bool \<times> cursors" where
  "internal_burst 0 progressed bus cursor cursors = (progressed, cursors)"
| "internal_burst (Suc n) progressed bus cursor cursors =
     (case bus_read bus cursors cursor of
        None \<Rightarrow> (progressed, cursors)
      | Some (_, cursors) \<Rightarrow> internal_burst n True bus cursor cursors)"

text \<open>The body of the endless loop of \<open>run\<close>, with the idle state that the round leaves.\<close>

definition fix_run_round ::
  "('q, sequenceMessage) queue_push \<Rightarrow> ('q, sequenceMessage) queue_pop \<Rightarrow> Bus \<Rightarrow> AdaptiveIdle \<Rightarrow> 'q FixTask \<Rightarrow>
     'q \<Rightarrow> cursors \<Rightarrow> AdaptiveIdle \<times> 'q FixTask \<times> 'q \<times> cursors" where
  "fix_run_round push pop bus idle task ingress cursors =
     (let (progressed, task, ingress) = staged_burst push pop EXT_BURST_MESSAGES False task ingress;
          (progressed, cursors) = internal_burst INT_BURST_MESSAGES progressed bus (fix_cursor task) cursors
      in (if progressed then idle_reset idle else snd (nextAction idle), task, ingress, cursors))"

section \<open>Which errors the parser raises\<close>

text \<open>With the compiled instrument configuration every failure of the parser is one of the message: none of the
  internal exceptions is raised.\<close>

definition message_errors :: "fix_exception + 'a \<Rightarrow> bool" where
  "message_errors r \<longleftrightarrow> (\<forall>e. r \<noteq> Inl (fix_exception_other e))"

named_theorems message_errors

lemma message_errors_simps [simp]:
  "message_errors (Inr x)" "message_errors (Inl (FieldNotFound t))" "message_errors (Inl (IncorrectDataFormat t))"
  "message_errors (Inl (FixValidationError w))"
  by (simp_all add: message_errors_def)

lemma message_errors_bind [message_errors]:
  "message_errors m \<Longrightarrow> (\<And>x. m = Inr x \<Longrightarrow> message_errors (f x)) \<Longrightarrow> message_errors (bind_result m f)"
  by (cases m) (auto simp: message_errors_def)

lemma message_errors_if [message_errors]:
  "(b \<Longrightarrow> message_errors m) \<Longrightarrow> (\<not> b \<Longrightarrow> message_errors n) \<Longrightarrow> message_errors (if b then m else n)"
  by simp

lemma message_errors_lookup [message_errors]:
  "message_errors (Inl e :: fix_exception + 'a) \<Longrightarrow> message_errors (get_or_throw x e :: fix_exception + 'a)"
  "message_errors (Inl e :: fix_exception + unit) \<Longrightarrow> message_errors (throw_if b e)"
  by (cases x) (auto simp: throw_if_def)

lemma message_errors_loops [message_errors]:
  "message_errors (parseUnsignedWhole_loop mx f v cs)"
  "message_errors (retained_loop cs u)"
  "message_errors (excess_loop cs)"
  "message_errors (zeros_loop cs)"
  by (induction cs arbitrary: v u) (auto simp: Let_def)

lemma message_errors_whole [message_errors]: "message_errors (parseUnsignedWhole cs mx f)"
  by (simp add: parseUnsignedWhole_def message_errors_loops)

lemma SPY_scale: "powerOfTen (priceScale SPY_V1) = Inr 10000"
  by (simp add: powerOfTen_exact SPY_V1_def)

lemma message_errors_price [message_errors]: "message_errors (parsePriceTicks cs SPY_V1)"
proof -
  have "\<not> (tickSizeMantissa SPY_V1 = 0 \<or> maxPrice SPY_V1 > UINT64_MAX div tickSizeMantissa SPY_V1)"
    using valid_ticksD(1,4) [OF SPY_V1_valid(1)] by simp
  then show ?thesis
    unfolding parsePriceTicks_def Let_def SPY_scale
    by (auto intro!: message_errors)
qed

lemma message_errors_quantity [message_errors]: "message_errors (parseQuantityUnits cs cfg)"
  unfolding parseQuantityUnits_def Let_def by (auto intro!: message_errors)

lemma message_errors_fields [message_errors]:
  "message_errors (get_field qf m t)" "message_errors (get_char qf m t)"
  by (auto simp: get_field_def get_char_def intro!: message_errors)

lemma message_errors_extract [message_errors]:
  "message_errors (extractTimeInForce qf m)" "message_errors (validateExpiry qf m)"
  "message_errors (validateNewOrderType qf m)" "message_errors (extractSide qf m)"
  "message_errors (extractOrderQty qf m cfg)" "message_errors (extractLimitPrice qf m SPY_V1)"
  "message_errors (extractTargetOrderId qf m)"
  unfolding extractTimeInForce_def validateExpiry_def validateNewOrderType_def extractSide_def extractOrderQty_def
    extractLimitPrice_def extractTargetOrderId_def Let_def
  by (auto intro!: message_errors)

lemma message_errors_ccid [message_errors]: "message_errors (clientCommandId_of s)"
  by (auto simp: clientCommandId_of_def make_ClientCommandId_def)

lemma message_errors_kind [message_errors]: "message_errors (message_kind qf m ty)"
  by (auto simp: message_kind_def intro!: message_errors)

lemma parse_message_errors: "message_errors (parseFixMessage qf res m s)"
  unfolding parseFixMessage_def Let_def
  by (auto simp: result_iff intro!: message_errors)

section \<open>Parsed commands are admissible\<close>

lemma parsed_admissible:
  assumes "parsed_command m"
  shows "\<exists>key. keyFrom m = Inr key" and "\<exists>bc. businessCommandFrom m = Inr bc"
  using assms
  by (auto simp: parsed_command_def keyFrom_def businessCommandFrom_def SPY_V1_def adm_toDomainSide_def)

lemma reserve_parsed:
  assumes "parsed_command m"
  shows "\<exists>d idx' q'. reserveAndStage push idx m q = Inr (d, idx', q')"
proof -
  obtain key bc where "keyFrom m = Inr key" "businessCommandFrom m = Inr bc"
    using parsed_admissible [OF assms] by blast
  then show ?thesis
    by (auto simp: reserveAndStage_def reserveAndStageForRunCapacity_def reserveImpl_def Let_def
        split: option.splits prod.splits bool.splits)
qed

text \<open>The outcomes of a normalization.\<close>

lemma fix_normalize_cases:
  assumes "resolver_ok res"
  obtains (ignored) "fix_normalize qf res m s = Inr None"
    | (rejected) e where "fix_normalize qf res m s = Inl e" "\<And>x. e \<noteq> fix_exception_other x"
    | (parsed) msg where "fix_normalize qf res m s = Inr (Some msg)" "parsed_command msg"
        "resolve res s = Some (clientId msg)"
proof (cases "header_field qf m FIELD_MsgType")
  case None
  then show ?thesis using rejected by (simp add: fix_normalize_def)
next
  case (Some ty)
  show ?thesis
  proof (cases "isProcessableMessageType ty")
    case True
    show ?thesis
    proof (cases "parseFixMessage qf res m s")
      case (Inl e)
      then show ?thesis
        using rejected [of e] parse_message_errors [of qf res m s] Some True
        by (auto simp: fix_normalize_def message_errors_def)
    next
      case (Inr msg)
      then show ?thesis
        using parsed [of msg] parseFixMessage_parsed [OF Inr assms Some True] Some True
        by (simp add: fix_normalize_def)
    qed
  next
    case False
    then show ?thesis using ignored Some by (simp add: fix_normalize_def)
  qed
qed

section \<open>Runs of the gateway\<close>

text \<open>The steps of the threads that meet in the gateway, in the order in which they take effect: a session thread
  delivers a message, the worker makes a round, the sequencer takes a command from its ingress queue, and the other
  clients of the admission index call it.\<close>

datatype ('m, 's) gateway_event =
    Inbound 'm 's
  | Round Bus
  | TakeIngress
  | IndexSequenced sequenceMessage
  | IndexCompleted "CommandResultBatch option"
  | IndexOpen bool

record 'q gateway =
  gw_task :: "'q FixTask"
  gw_idle :: AdaptiveIdle
  gw_cursors :: cursors
  gw_index :: CommandAdmissionIndex
  gw_ingress :: 'q
  gw_taken :: "sequenceMessage list"

fun gateway_step ::
  "('q, sequenceMessage) queue_push \<Rightarrow> ('q, sequenceMessage) queue_pop \<Rightarrow> 'm QuickFix \<Rightarrow> 's ClientIdentityResolver \<Rightarrow>
     ('m, 's) gateway_event \<Rightarrow> 'q gateway \<Rightarrow> 'q gateway" where
  "gateway_step push pop qf res (Inbound m s) g =
     (case fromApp push qf res (gw_task g) (gw_index g) m s of (task, idx) \<Rightarrow> g\<lparr>gw_task := task, gw_index := idx\<rparr>)"
| "gateway_step push pop qf res (Round bus) g =
     (case fix_run_round push pop bus (gw_idle g) (gw_task g) (gw_ingress g) (gw_cursors g) of
        (idle, task, ingress, cs) \<Rightarrow>
          g\<lparr>gw_idle := idle, gw_task := task, gw_ingress := ingress, gw_cursors := cs\<rparr>)"
| "gateway_step push pop qf res TakeIngress g =
     (case SharedQueue_pop pop (gw_ingress g) empty_sequenceMessage of
        (False, _, _) \<Rightarrow> g
      | (True, m, q) \<Rightarrow> g\<lparr>gw_ingress := q, gw_taken := gw_taken g @ [m]\<rparr>)"
| "gateway_step push pop qf res (IndexSequenced m) g =
     (case markSequenced (gw_index g) m of Inl _ \<Rightarrow> g | Inr (_, idx) \<Rightarrow> g\<lparr>gw_index := idx\<rparr>)"
| "gateway_step push pop qf res (IndexCompleted b) g = g\<lparr>gw_index := snd (adm_complete (gw_index g) b)\<rparr>"
| "gateway_step push pop qf res (IndexOpen opened) g = g\<lparr>gw_index := setAdmissionOpen opened (gw_index g)\<rparr>"

definition gateway_run ::
  "('q, sequenceMessage) queue_push \<Rightarrow> ('q, sequenceMessage) queue_pop \<Rightarrow> 'm QuickFix \<Rightarrow> 's ClientIdentityResolver \<Rightarrow>
     ('m, 's) gateway_event list \<Rightarrow> 'q gateway \<Rightarrow> 'q gateway" where
  "gateway_run push pop qf res es g = foldl (\<lambda>g e. gateway_step push pop qf res e g) g es"

definition pending_list :: "'q FixTask \<Rightarrow> sequenceMessage list" where
  "pending_list task = (case pendingStagedCommand task of None \<Rightarrow> [] | Some m \<Rightarrow> [m])"

text \<open>All admitted commands, in the order in which the sequencer gets them.\<close>

definition gateway_commands :: "('q \<Rightarrow> sequenceMessage list) \<Rightarrow> 'q gateway \<Rightarrow> sequenceMessage list" where
  "gateway_commands items g =
     gw_taken g @ items (gw_ingress g) @ pending_list (gw_task g) @ items (ft_stagingQueue (gw_task g))"

text \<open>The gateway as a state of the admission runs.\<close>

definition admission_view :: "('q \<Rightarrow> sequenceMessage list) \<Rightarrow> 'q gateway \<Rightarrow> 'q admission_state" where
  "admission_view items g =
     \<lparr>admitted = map (\<lambda>m. (m, True)) (gateway_commands items g),
      taken_staged = gw_taken g @ items (gw_ingress g) @ pending_list (gw_task g),
      adm_index = gw_index g, staging = ft_stagingQueue (gw_task g)\<rparr>"

definition gateway_inv :: "('q \<Rightarrow> sequenceMessage list) \<Rightarrow> 'q gateway \<Rightarrow> bool" where
  "gateway_inv items g \<longleftrightarrow>
     run_ok items (admission_view items g) \<and> list_all parsed_command (gateway_commands items g)"

lemma processNext_moves:
  assumes lf: "lockfree_queue items push pop"
    and "processNextStagedCommand push pop task ingress = (r, task', ingress')"
  shows "items ingress' @ pending_list task' @ items (ft_stagingQueue task') =
    items ingress @ pending_list task @ items (ft_stagingQueue task)"
  using assms(2) lockfree_popD [OF lf, of "ft_stagingQueue task" empty_sequenceMessage]
    lockfree_pushD [OF lf, of ingress]
  by (cases "pendingStagedCommand task")
    (auto simp: processNextStagedCommand_def pending_list_def Let_def split: prod.splits bool.splits)

lemma staged_burst_moves:
  assumes lf: "lockfree_queue items push pop"
    and "staged_burst push pop n b task ingress = (r, task', ingress')"
  shows "items ingress' @ pending_list task' @ items (ft_stagingQueue task') =
    items ingress @ pending_list task @ items (ft_stagingQueue task)"
  using assms(2)
proof (induction n arbitrary: b task ingress)
  case (Suc n)
  obtain ok t1 i1 where step: "processNextStagedCommand push pop task ingress = (ok, t1, i1)"
    by (cases "processNextStagedCommand push pop task ingress") auto
  then show ?case
    using Suc processNext_moves [OF lf step] by (cases ok) auto
qed simp

lemma run_round_moves:
  assumes "lockfree_queue items push pop"
    and "fix_run_round push pop bus idle task ingress cs = (idle', task', ingress', cs')"
  shows "items ingress' @ pending_list task' @ items (ft_stagingQueue task') =
    items ingress @ pending_list task @ items (ft_stagingQueue task)"
  using assms(2) staged_burst_moves [OF assms(1)]
  by (auto simp: fix_run_round_def Let_def split: prod.splits)

text \<open>A view with the same index and the same commands keeps the invariant, however the commands are spread over
  the queues.\<close>

lemma run_ok_spread:
  assumes "run_ok items (admission_view items g)" and "gw_index g' = gw_index g"
    and "gateway_commands items g' = gateway_commands items g"
  shows "run_ok items (admission_view items g')"
  using assms by (simp add: run_ok_def admission_view_def gateway_commands_def o_def)

lemma inbound_keeps:
  assumes lf: "lockfree_queue items push pop" and res: "resolver_ok res" and inv: "gateway_inv items g"
    and app: "fromApp push qf res (gw_task g) (gw_index g) m s = (task, idx)"
  shows "gateway_inv items (g\<lparr>gw_task := task, gw_index := idx\<rparr>)"
  using res
proof (cases rule: fix_normalize_cases [where qf = qf and m = m and s = s])
  case ignored
  then show ?thesis
    using app inv by (auto simp: fromApp_def)
next
  case (rejected e)
  then have "pendingStagedCommand task = pendingStagedCommand (gw_task g)" "idx = gw_index g"
    "ft_stagingQueue task = ft_stagingQueue (gw_task g)"
    using app by (auto simp: fromApp_def split: fix_exception.splits)
  then show ?thesis
    using inv by (simp add: gateway_inv_def admission_view_def gateway_commands_def pending_list_def)
next
  case (parsed msg)
  obtain d q where stage: "reserveAndStage push (gw_index g) msg (ft_stagingQueue (gw_task g)) = Inr (d, idx, q)"
    and task: "ft_stagingQueue task = q" "pendingStagedCommand task = pendingStagedCommand (gw_task g)"
    using reserve_parsed [OF parsed(2), of push "gw_index g" "ft_stagingQueue (gw_task g)"] app parsed(1)
    by (auto simp: fromApp_def Let_def split: if_splits)
  let ?a = "admission_view items g" and ?g = "g\<lparr>gw_task := task, gw_index := idx\<rparr>"
  have ok: "run_ok items ?a"
    using inv by (simp add: gateway_inv_def)
  let ?new = "if ad_status d = FIRST_SUBMISSION then [(msg, True)] else []"
  have "run_ok items (?a\<lparr>adm_index := idx, staging := q, admitted := admitted ?a @ ?new\<rparr>)"
    using run_ok_stage [OF ok lf, of msg True d idx q] stage
    by (simp add: reserveAndStage_def admission_view_def)
  moreover from this have cmds: "gateway_commands items ?g = gateway_commands items g @ map fst ?new"
    using task by (auto simp: run_ok_def admission_view_def gateway_commands_def pending_list_def o_def)
  moreover have "?a\<lparr>adm_index := idx, staging := q, admitted := admitted ?a @ ?new\<rparr> = admission_view items ?g"
    using cmds task by (auto simp: admission_view_def pending_list_def)
  ultimately show ?thesis
    using inv parsed(2) by (auto simp: gateway_inv_def)
qed

text \<open>The other clients of the index, as calls of the admission runs.\<close>

lemma index_call_keeps:
  assumes lf: "lockfree_queue items push pop" and inv: "gateway_inv items g"
    and call: "admission_step push pop call (admission_view items g) = (admission_view items g)\<lparr>adm_index := idx\<rparr>"
  shows "gateway_inv items (g\<lparr>gw_index := idx\<rparr>)"
proof -
  have "admission_view items (g\<lparr>gw_index := idx\<rparr>) = (admission_view items g)\<lparr>adm_index := idx\<rparr>"
    by (simp add: admission_view_def gateway_commands_def)
  moreover have "run_ok items ((admission_view items g)\<lparr>adm_index := idx\<rparr>)"
    using step_ok(1) [OF _ lf, of "admission_view items g" call] inv call by (simp add: gateway_inv_def)
  moreover have "gateway_commands items (g\<lparr>gw_index := idx\<rparr>) = gateway_commands items g"
    by (simp add: gateway_commands_def)
  ultimately show ?thesis
    using inv by (simp only: gateway_inv_def)
qed

lemma gateway_step_keeps:
  assumes lf: "lockfree_queue items push pop" and res: "resolver_ok res" and inv: "gateway_inv items g"
  shows "gateway_inv items (gateway_step push pop qf res e g)"
proof (cases e)
  case (Inbound m s)
  then show ?thesis
    using inbound_keeps [OF lf res inv] by (auto split: prod.splits)
next
  case (Round bus)
  obtain idle task ingress cs where
    round: "fix_run_round push pop bus (gw_idle g) (gw_task g) (gw_ingress g) (gw_cursors g) = (idle, task, ingress, cs)"
    by (metis prod_cases4)
  then have "gateway_commands items (gateway_step push pop qf res e g) = gateway_commands items g"
    using run_round_moves [OF lf round] Round by (simp add: gateway_commands_def)
  then show ?thesis
    using inv run_ok_spread [of items g "gateway_step push pop qf res e g"] round Round
    by (simp add: gateway_inv_def)
next
  case TakeIngress
  then have "gateway_commands items (gateway_step push pop qf res e g) = gateway_commands items g"
    "gw_index (gateway_step push pop qf res e g) = gw_index g"
    using lockfree_popD [OF lf, of "gw_ingress g" empty_sequenceMessage]
    by (auto simp: gateway_commands_def split: prod.splits bool.splits)
  then show ?thesis
    using inv run_ok_spread [of items g "gateway_step push pop qf res e g"] by (simp add: gateway_inv_def)
next
  case (IndexSequenced m)
  then show ?thesis
    using inv index_call_keeps [OF lf inv, of "SequenceCall m"]
    by (auto simp: admission_view_def split: sum.splits prod.splits)
next
  case (IndexCompleted b)
  then show ?thesis
    using index_call_keeps [OF lf inv, of "CompleteCall b"] by (simp add: admission_view_def)
next
  case (IndexOpen b)
  then show ?thesis
    using index_call_keeps [OF lf inv, of "OpenCall b"] by (simp add: admission_view_def)
qed

lemma gateway_run_keeps:
  assumes "lockfree_queue items push pop" and "resolver_ok res" and "gateway_inv items g"
  shows "gateway_inv items (gateway_run push pop qf res es g)"
  by (induction es rule: rev_induct) (simp_all add: gateway_run_def assms(3) gateway_step_keeps [OF assms(1,2)])

definition fresh_gateway :: "CommandAdmissionIndex \<Rightarrow> 'q \<Rightarrow> 'q \<Rightarrow> nat \<Rightarrow> Bus \<Rightarrow> cursors \<Rightarrow> 'q gateway" where
  "fresh_gateway idx queue ingress cursor bus cursors =
     (case make_FixTask queue cursor bus cursors of (task, bus', cursors) \<Rightarrow>
        \<lparr>gw_task = task, gw_idle = init_AdaptiveIdle, gw_cursors = cursors, gw_index = idx, gw_ingress = ingress,
         gw_taken = []\<rparr>)"

lemma fresh_gateway_inv:
  assumes "make_CommandAdmissionIndex n = Inr idx \<or> make_run_bound_CommandAdmissionIndex n runId = Inr idx"
    and "items queue = []" and "items ingress = []"
  shows "gateway_inv items (fresh_gateway idx queue ingress cursor bus cursors)"
  using fresh_run_ok [where items = items, OF assms(1,2)] assms(2,3)
  by (simp add: gateway_inv_def fresh_gateway_def make_FixTask_def admission_view_def gateway_commands_def
      pending_list_def fresh_run_def Let_def)

section \<open>The worker forwards what the ingress queue takes\<close>

lemma processNext_forwards:
  assumes lf: "lockfree_queue items push pop" and room: "\<And>q x. length (items q) < n \<Longrightarrow> push q x \<noteq> None"
    and "length (items ingress) < n" and "pending_list task @ items (ft_stagingQueue task) = c # rest"
  shows "\<exists>task' ingress'. processNextStagedCommand push pop task ingress = (True, task', ingress') \<and>
    items ingress' = items ingress @ [c] \<and> pending_list task' @ items (ft_stagingQueue task') = rest"
proof -
  obtain i' where push: "SharedQueue_push push ingress c = (True, i')"
    using room [OF assms(3), of c] by (auto simp: SharedQueue_push_def)
  obtain ok x q where pop: "SharedQueue_pop pop (ft_stagingQueue task) empty_sequenceMessage = (ok, x, q)"
    by (cases "SharedQueue_pop pop (ft_stagingQueue task) empty_sequenceMessage") auto
  show ?thesis
  proof (cases "pendingStagedCommand task")
    case None
    then have "ok" "x = c" "items q = rest"
      using lockfree_popD [OF lf pop] assms(4) by (auto simp: pending_list_def split: if_splits)
    then show ?thesis
      using None pop push lockfree_pushD [OF lf push]
      by (auto simp: processNextStagedCommand_def pending_list_def)
  next
    case (Some m)
    then show ?thesis
      using push assms(4) lockfree_pushD [OF lf push]
      by (auto simp: processNextStagedCommand_def pending_list_def)
  qed
qed

lemma staged_burst_forwards:
  assumes lf: "lockfree_queue items push pop" and room: "\<And>q x. length (items q) < n \<Longrightarrow> push q x \<noteq> None"
    and "length (items ingress) + k \<le> n" and "k \<le> length (pending_list task @ items (ft_stagingQueue task))"
    and "staged_burst push pop k b task ingress = (r, task', ingress')"
  shows "items ingress' = items ingress @ take k (pending_list task @ items (ft_stagingQueue task)) \<and> (0 < k \<longrightarrow> r)"
  using assms(3-5)
proof (induction k arbitrary: b task ingress)
  case (Suc k)
  obtain c rest where cr: "pending_list task @ items (ft_stagingQueue task) = c # rest"
    using Suc.prems(2) by (cases "pending_list task @ items (ft_stagingQueue task)") auto
  obtain t1 i1 where step: "processNextStagedCommand push pop task ingress = (True, t1, i1)"
    "items i1 = items ingress @ [c]" "pending_list t1 @ items (ft_stagingQueue t1) = rest"
    using processNext_forwards [where n = n and ingress = ingress, OF lf room _ cr] Suc.prems(1) by auto
  have again: "staged_burst push pop k True t1 i1 = (r, task', ingress')"
    using Suc.prems(3) step(1) by simp
  have "items ingress' = items i1 @ take k rest \<and> (0 < k \<longrightarrow> r)"
    using Suc.IH [of i1 t1 True] again Suc.prems(1,2) step cr by simp
  moreover have "k = 0 \<Longrightarrow> r"
    using again by simp
  ultimately show ?case
    using step cr by auto
qed simp

end
