(* ===== verification/Fix_Properties.thy ===== *)
theory Fix_Properties
  imports Fix_Gateway Sequencer_Runs Matching_Handlers
begin

text \<open>
  Properties of the FIX gateway: decimal fields are read exactly, what the parser accepts is a command that
  admission, sequencer and matching engine accept, every inbound message has one of a few outcomes, and each
  admitted command reaches the sequencer once, in the order of admission.
\<close>

section \<open>Example\<close>

text \<open>Messages as lists of tagged fields, and one session.\<close>

definition demo_fix :: "(nat \<times> string) list QuickFix" where
  "demo_fix = \<lparr>header_field = map_of, body_field = map_of,
     char_value = (\<lambda>s. case s of [c] \<Rightarrow> Some c | _ \<Rightarrow> None)\<rparr>"

definition demo_resolver :: "string ClientIdentityResolver" where
  "demo_resolver = [(''ALPHA'', 42)]"

definition demo_D :: "(nat \<times> string) list" where
  "demo_D = [(35, ''D''), (40, ''2''), (54, ''1''), (55, ''SPY''), (38, ''12''), (44, ''100.250''), (11, ''A1''),
     (59, ''3'')]"

definition demo_F :: "(nat \<times> string) list" where
  "demo_F = [(35, ''F''), (55, ''SPY''), (11, ''A2''), (37, ''17'')]"

lemma demo_resolver_make:
  "make_ClientIdentityResolver_settings id [(''ALPHA'', Some ''42'')] = Inr demo_resolver"
  by code_simp

definition demo_D_message :: sequenceMessage where
  "demo_D_message = parsed_message 42
     \<lparr>cc_bytes = 65 # 49 # replicate 62 0, cc_size = 2\<rparr> BUY\<lparr>quantity := 12, price := 1002500, tif := IOC\<rparr>"

lemma demo_parse: "parseFixMessage demo_fix demo_resolver demo_D ''ALPHA'' = Inr demo_D_message"
  by code_simp

section \<open>Properties\<close>

text \<open>C23. Prices and quantities are read exactly: the parser accepts a text exactly when it is a decimal number
  that is a positive multiple of the tick (0.0001) or of the lot within the configured range, and then returns that
  multiple; no text is rounded, truncated or wrapped around.\<close>

theorem fix_numbers_exact:
  "(parsePriceTicks txt SPY_V1 = Inr t \<longleftrightarrow>
      (\<exists>whole frac. decimal_text whole frac txt \<and>
         decimal_value (whole @ frac) * 10 ^ 4 = unat t * 10 ^ length frac \<and> t \<noteq> 0 \<and> t \<le> maxPrice SPY_V1)) \<and>
   (parseQuantityUnits txt SPY_V1 = Inr q \<longleftrightarrow>
      (\<exists>whole frac. decimal_text whole frac txt \<and>
         decimal_value (whole @ frac) = unat q * 10 ^ length frac \<and> q \<noteq> 0 \<and> q \<le> maxOrderQuantity SPY_V1))"
proof -
  have "unat (priceScale SPY_V1) = 4" "unat (tickSizeMantissa SPY_V1) = 1" "unat (lotSize SPY_V1) = 1"
    by (simp_all add: SPY_V1_def)
  then show ?thesis
    by (simp add: parsePriceTicks_exact [OF SPY_V1_valid(1)] parseQuantityUnits_exact [OF SPY_V1_valid(2)])
qed

text \<open>C24. A message that the parser accepts is a well-formed command of the session's client: its key and business
  content are accepted by the admission index, the sequencer can journal it, and with any sequence number it is a
  normalized command of the matching engine.\<close>

theorem parsed_message_well_typed:
  assumes "make_ClientIdentityResolver_settings toString sessions = Inr resolver"
    and "header_field qf m FIELD_MsgType = Some msgType" and "isProcessableMessageType msgType"
    and "parseFixMessage qf resolver m sessionID = Inr message" and "n \<noteq> 0"
  shows "parsed_command message \<and> resolve resolver sessionID = Some (clientId message) \<and>
    (\<exists>key bc. keyFrom message = Inr key \<and> businessCommandFrom message = Inr bc) \<and> ingress_ok message \<and>
    normalized_command (with_orderId (message\<lparr>globalSequenceNumber := n\<rparr>))"
proof -
  have parsed: "parsed_command message \<and> resolve resolver sessionID = Some (clientId message)"
    by (rule parseFixMessage_parsed [OF assms(4) make_resolver_ok(2) [OF assms(1)] assms(2,3)])
  then have "ingress_ok message" "normalized_command (with_orderId (message\<lparr>globalSequenceNumber := n\<rparr>))"
    using assms(5) by (auto simp: parsed_command_def ingress_ok_def normalized_command_def with_orderId_def)
  then show ?thesis
    using parsed parsed_admissible by blast
qed

theorem parsed_message_well_typed_witness:
  "clientId demo_D_message = 42 \<and> ingress_ok demo_D_message \<and>
    normalized_command (with_orderId (demo_D_message\<lparr>globalSequenceNumber := 9\<rparr>))"
proof -
  have "header_field demo_fix demo_D FIELD_MsgType = Some ''D''" "isProcessableMessageType ''D''"
    by code_simp+
  from parsed_message_well_typed [OF demo_resolver_make this demo_parse, of 9] show ?thesis
    by (simp add: demo_D_message_def parsed_message_def)
qed

text \<open>C25. Every inbound application message has one of four outcomes: a message of another type is ignored; a
  message the parser refuses is counted once, as a rejection or, when QuickFIX cannot convert a field, as an internal
  failure, and changes nothing else; and a parsed message gets an admission decision, whose index and staging queue
  are kept and which counts as saturation exactly when the gateway was busy. The parser raises no internal error and
  the admission index none at all.\<close>

theorem inbound_message_outcomes:
  fixes push :: "('q, sequenceMessage) queue_push" and qf :: "'m QuickFix" and task :: "'q FixTask"
    and idx :: CommandAdmissionIndex and m :: 'm and sessionID :: 's
  assumes "make_ClientIdentityResolver_settings toString sessions = Inr resolver"
  defines "out \<equiv> fromApp push qf resolver task idx m sessionID"
  shows "case fix_normalize qf resolver m sessionID of
      Inl (IncorrectDataFormat tag) \<Rightarrow> out = (task\<lparr>internalFailures := internalFailures task + 1\<rparr>, idx)
    | Inl (fix_exception_other e) \<Rightarrow> False
    | Inl e \<Rightarrow> out = (task\<lparr>normalizationRejections := normalizationRejections task + 1\<rparr>, idx)
    | Inr None \<Rightarrow> out = (task, idx)
    | Inr (Some message) \<Rightarrow> parsed_command message \<and>
        (\<exists>d idx' q. reserveAndStage push idx message (ft_stagingQueue task) = Inr (d, idx', q) \<and>
          out = (task\<lparr>ft_stagingQueue := q, stagingQueueSaturations := stagingQueueSaturations task +
                   (if rejectionReason d = Some GATEWAY_BUSY then 1 else 0)\<rparr>, idx'))"
  using make_resolver_ok(2) [OF assms(1)]
proof (cases rule: fix_normalize_cases [where qf = qf and m = m and s = sessionID])
  case ignored
  then show ?thesis by (simp add: out_def fromApp_def)
next
  case (rejected e)
  then show ?thesis by (cases e) (auto simp: out_def fromApp_def)
next
  case (parsed message)
  then show ?thesis
    using reserve_parsed [OF parsed(2), of push idx "ft_stagingQueue task"] by (auto simp: out_def fromApp_def Let_def)
qed

definition demo_index4 :: CommandAdmissionIndex where
  "demo_index4 = \<lparr>adm_capacity = 4, adm_exchangeRunId = 0, admissionOpen = True, records = [],
     statistics = no_statistics\<rparr>"

definition demo_task :: "sequenceMessage list FixTask" where
  "demo_task = \<lparr>ft_stagingQueue = [], pendingStagedCommand = None, normalizationRejections = 0,
     internalFailures = 0, stagingQueueSaturations = 0, fix_cursor = 0\<rparr>"

theorem inbound_message_outcomes_witness:
  "normalizationRejections (fst (fromApp (list_push 8) demo_fix demo_resolver demo_task demo_index4 [] ''ALPHA'')) = 1"
  using inbound_message_outcomes [OF demo_resolver_make, of "list_push 8" demo_fix demo_task demo_index4 "[]" "''ALPHA''"]
  by (simp add: fix_normalize_def demo_fix_def demo_task_def)

text \<open>C26. The gateway delivers every admitted command once: whatever the session threads, the worker, the sequencer
  and the other clients of the index do, the commands the sequencer took, those in the ingress queue, the one the
  worker holds and the staged ones are, in this order, parsed commands with pairwise different keys, exactly the
  commands with a record in the index, and as many as were counted as first submissions.\<close>

theorem gateway_delivers_once:
  fixes qf :: "'m QuickFix" and es :: "('m, 's) gateway_event list" and cursor :: nat and bus :: Bus
    and cursors :: cursors
  assumes "lockfree_queue items push pop" and "items queue = []" and "items ingress = []"
    and "make_ClientIdentityResolver_settings toString sessions = Inr resolver"
    and "make_CommandAdmissionIndex n = Inr idx \<or> make_run_bound_CommandAdmissionIndex n runId = Inr idx"
  defines "g \<equiv> gateway_run push pop qf resolver es (fresh_gateway idx queue ingress cursor bus cursors)"
  defines "cs \<equiv> gw_taken g @ items (gw_ingress g) @ pending_list (gw_task g) @ items (ft_stagingQueue (gw_task g))"
  shows "list_all parsed_command cs \<and> distinct (map command_key cs) \<and>
    set (map command_key cs) = dom (map_of (records (gw_index g))) \<and>
    firstSubmissions (statistics (gw_index g)) = length cs"
proof -
  have "gateway_inv items g"
    unfolding g_def
    by (rule gateway_run_keeps [where items = items, OF assms(1) make_resolver_ok(2) [OF assms(4)]
          fresh_gateway_inv [where items = items, OF assms(5,2,3)]])
  then show ?thesis
    by (auto simp: gateway_inv_def run_ok_def admission_view_def gateway_commands_def cs_def o_def)
qed

definition demo_bus :: Bus where
  "demo_bus = \<lparr>bus_size = 4, bus_buffer = replicate 4 None, reader_cursors = [], cached_min_cursor = 0,
     total_writes = 0\<rparr>"

definition demo_gateway :: "sequenceMessage list gateway" where
  "demo_gateway = gateway_run (list_push 8) list_pop demo_fix demo_resolver
     [Inbound demo_D ''ALPHA'', Round demo_bus, Inbound demo_D ''ALPHA'', TakeIngress, Inbound demo_F ''ALPHA'']
     (fresh_gateway demo_index4 [] [] 0 demo_bus (\<lambda>_. 0))"

lemma demo_gateway_contents:
  "gw_taken demo_gateway = [demo_D_message]" "length (ft_stagingQueue (gw_task demo_gateway)) = 1"
  "gw_ingress demo_gateway = []" "pending_list (gw_task demo_gateway) = []"
  by code_simp+

theorem gateway_delivers_once_witness:
  "firstSubmissions (statistics (gw_index demo_gateway)) = 2 \<and>
    distinct (map command_key (demo_D_message # ft_stagingQueue (gw_task demo_gateway)))"
proof -
  have make: "make_CommandAdmissionIndex 4 = Inr demo_index4 \<or> make_run_bound_CommandAdmissionIndex 4 0 = Inr demo_index4"
    by (simp add: make_CommandAdmissionIndex_def demo_index4_def)
  show ?thesis
    using gateway_delivers_once [where qf = demo_fix and cursor = 0 and bus = demo_bus and cursors = "\<lambda>_. 0"
        and es = "[Inbound demo_D ''ALPHA'', Round demo_bus, Inbound demo_D ''ALPHA'', TakeIngress,
          Inbound demo_F ''ALPHA'']" and queue = "[]" and ingress = "[]",
        OF list_lockfree [of 8] _ _ demo_resolver_make make]
    by (simp add: demo_gateway_contents flip: demo_gateway_def)
qed

end
