(* ===== verification/Catalog_Storage.thy ===== *)
theory Catalog_Storage
  imports Run_Catalog_Codec Journal_Writer
begin

text \<open>
  The file of the run catalog, \<open>core/storage/src/run_catalog_storage.cpp\<close>: it is read as a whole and replaced by
  writing a temporary file, syncing it, renaming it over the catalog and syncing the directory. The operating
  system is the record \<open>CatalogFiles\<close> of its calls, over a type \<open>'w\<close> for the state of the file system and a type
  \<open>'f\<close> for open files; errors are error numbers, and zero is success. Opening and creating retry while interrupted
  and are one step each. The other loops take fuel.
\<close>

section \<open>Data\<close>

datatype RunCatalogLoadOutcome = CL_LOADED | CL_MISSING | CL_INVALID | CL_IO_FAILURE

record RunCatalogLoadResult =
  cl_outcome :: RunCatalogLoadOutcome
  cl_codecError :: RunCatalogCodecError
  cl_systemError :: int

datatype RunCatalogReplaceOutcome =
    CR_COMMITTED | CR_INVALID_SNAPSHOT | CR_INVALID_EXISTING_CATALOG | CR_GENERATION_CONFLICT
  | CR_NOT_COMMITTED_IO_FAILURE | CR_UNCERTAIN

record RunCatalogReplaceResult =
  cp_outcome :: RunCatalogReplaceOutcome
  cp_codecError :: RunCatalogCodecError
  cp_systemError :: int
  observedSnapshot :: "RunCatalogSnapshotV1 option"

record ('w, 'f) CatalogFiles =
  cf_open :: "'w \<Rightarrow> int + 'f"
  cf_read :: "'f read_hook"
  cf_close :: "'f \<Rightarrow> int"
  cf_mkstemp :: "'w \<Rightarrow> (int + 'f) \<times> 'w"
  cf_write :: "'f write_hook"
  cf_sync :: "'f sync_hook"
  cf_rename :: "'w \<Rightarrow> 'f \<Rightarrow> int \<times> 'w"
  cf_unlink :: "'w \<Rightarrow> 'f \<Rightarrow> 'w"
  cf_openDirectory :: "'w \<Rightarrow> int + 'f"
  cf_errno :: "'f \<Rightarrow> int"

definition CATALOG_READ_BUFFER_SIZE :: nat where
  "CATALOG_READ_BUFFER_SIZE = RUN_CATALOG_V1_SIZE + 1"

definition empty_RunCatalogSnapshotV1 :: RunCatalogSnapshotV1 where
  "empty_RunCatalogSnapshotV1 =
     \<lparr>rc_generation = 0, rc_lastReservedRunId = None, rc_activeRunId = None,
      rc_activeDisposition = DISPOSITION_NONE, rc_retainedStoppedRunId = None\<rparr>"

definition catalogLoadResult :: "RunCatalogLoadOutcome \<Rightarrow> RunCatalogCodecError \<Rightarrow> int \<Rightarrow> RunCatalogLoadResult" where
  "catalogLoadResult oc codecError sysError =
     \<lparr>cl_outcome = oc, cl_codecError = codecError, cl_systemError = sysError\<rparr>"

definition ioLoadFailure :: "int \<Rightarrow> RunCatalogLoadResult" where
  "ioLoadFailure sysError = catalogLoadResult CL_IO_FAILURE RC_NONE sysError"

definition replaceResult :: "RunCatalogReplaceOutcome \<Rightarrow> RunCatalogCodecError \<Rightarrow> int \<Rightarrow> RunCatalogReplaceResult" where
  "replaceResult oc codecError sysError =
     \<lparr>cp_outcome = oc, cp_codecError = codecError, cp_systemError = sysError, observedSnapshot = None\<rparr>"

section \<open>Loading\<close>

fun catalogReadLoop :: "'f read_hook \<Rightarrow> nat \<Rightarrow> 'f \<Rightarrow> u8 list \<Rightarrow> ((int + u8 list) \<times> 'f) option" where
  "catalogReadLoop readFile 0 f bytes = None"
| "catalogReadLoop readFile (Suc fuel) f bytes =
     (if length bytes < CATALOG_READ_BUFFER_SIZE then
        (case readFile f (CATALOG_READ_BUFFER_SIZE - length bytes) of
           (Bytes bs, f) \<Rightarrow> if bs \<noteq> [] then catalogReadLoop readFile fuel f (bytes @ bs) else Some (Inr bytes, f)
         | (Read_failed e, f) \<Rightarrow> if e = EINTR then catalogReadLoop readFile fuel f bytes else Some (Inl e, f))
      else Some (Inr bytes, f))"

definition loadRunCatalogV1 ::
  "('w, 'f) CatalogFiles \<Rightarrow> nat \<Rightarrow> 'w \<Rightarrow> RunCatalogSnapshotV1 \<Rightarrow>
     (RunCatalogLoadResult \<times> RunCatalogSnapshotV1) option" where
  "loadRunCatalogV1 files fuel w outp =
     (case cf_open files w of
        Inl e \<Rightarrow>
          Some (if e = ENOENT then catalogLoadResult CL_MISSING RC_NONE e else ioLoadFailure e, outp)
      | Inr f \<Rightarrow>
          Option.bind (catalogReadLoop (cf_read files) fuel f []) (\<lambda>(r, f).
          case r of
            Inl e \<Rightarrow> Some (ioLoadFailure e, outp)
          | Inr bytes \<Rightarrow>
              if cf_close files f \<noteq> 0 then Some (ioLoadFailure (cf_close files f), outp)
              else
              case decodeRunCatalogV1 bytes of
                Inl codecError \<Rightarrow> Some (catalogLoadResult CL_INVALID codecError 0, outp)
              | Inr decoded \<Rightarrow> Some (catalogLoadResult CL_LOADED RC_NONE 0, decoded)))"

section \<open>Replacing\<close>

fun storageSyncLoop :: "('w, 'f) CatalogFiles \<Rightarrow> nat \<Rightarrow> 'f \<Rightarrow> ((int + unit) \<times> 'f) option" where
  "storageSyncLoop files 0 f = None"
| "storageSyncLoop files (Suc fuel) f =
     (case cf_sync files f of
        (Synced, f) \<Rightarrow> Some (Inr (), f)
      | (Sync_failed e, f) \<Rightarrow> if e = EINTR then storageSyncLoop files fuel f else Some (Inl e, f)
      | (Sync_unexpected, f) \<Rightarrow> Some (Inl (cf_errno files f), f))"

fun catalogWriteLoop :: "'f write_hook \<Rightarrow> nat \<Rightarrow> 'f \<Rightarrow> u8 list \<Rightarrow> nat \<Rightarrow> ((int + unit) \<times> 'f) option" where
  "catalogWriteLoop writeFile 0 f encoded bytesWritten = None"
| "catalogWriteLoop writeFile (Suc fuel) f encoded bytesWritten =
     (if bytesWritten < length encoded then
        (case writeFile f (drop bytesWritten encoded) of
           (Wrote n, f) \<Rightarrow>
             if n > 0 then catalogWriteLoop writeFile fuel f encoded (bytesWritten + n) else Some (Inl EIO, f)
         | (Write_failed e, f) \<Rightarrow>
             if e = EINTR then catalogWriteLoop writeFile fuel f encoded bytesWritten else Some (Inl e, f))
      else Some (Inr (), f))"

definition uncertainResult ::
  "('w, 'f) CatalogFiles \<Rightarrow> nat \<Rightarrow> 'w \<Rightarrow> int \<Rightarrow> RunCatalogReplaceResult option" where
  "uncertainResult files fuel w sysError =
     Option.bind (loadRunCatalogV1 files fuel w empty_RunCatalogSnapshotV1) (\<lambda>(load, observed).
     Some ((replaceResult CR_UNCERTAIN RC_NONE sysError)
       \<lparr>observedSnapshot := if cl_outcome load = CL_LOADED then Some observed else None\<rparr>))"

text \<open>The check against the catalog that exists.\<close>

definition generationCheck ::
  "RunCatalogLoadResult \<Rightarrow> RunCatalogSnapshotV1 \<Rightarrow> RunCatalogSnapshotV1 \<Rightarrow> RunCatalogReplaceResult option" where
  "generationCheck currentResult currentSnapshot nextSnapshot =
     (case cl_outcome currentResult of
        CL_INVALID \<Rightarrow> Some (replaceResult CR_INVALID_EXISTING_CATALOG (cl_codecError currentResult) 0)
      | CL_IO_FAILURE \<Rightarrow> Some (replaceResult CR_NOT_COMMITTED_IO_FAILURE RC_NONE (cl_systemError currentResult))
      | CL_MISSING \<Rightarrow>
          if rc_generation nextSnapshot \<noteq> 1 then Some (replaceResult CR_GENERATION_CONFLICT RC_NONE 0) else None
      | CL_LOADED \<Rightarrow>
          if rc_generation currentSnapshot = - 1 \<or> rc_generation nextSnapshot \<noteq> rc_generation currentSnapshot + 1
          then Some (replaceResult CR_GENERATION_CONFLICT RC_NONE 0) else None)"

text \<open>Writing the temporary file; a failure removes it.\<close>

definition writeTemporary ::
  "('w, 'f) CatalogFiles \<Rightarrow> nat \<Rightarrow> 'w \<Rightarrow> u8 list \<Rightarrow> ((int + 'f) \<times> 'w) option" where
  "writeTemporary files fuel w encoded =
     (case cf_mkstemp files w of
        (Inl e, w) \<Rightarrow> Some (Inl e, w)
      | (Inr f, w) \<Rightarrow>
          Option.bind (catalogWriteLoop (cf_write files) fuel f encoded 0) (\<lambda>(written, f).
          case written of
            Inl e \<Rightarrow> Some (Inl e, cf_unlink files w f)
          | Inr _ \<Rightarrow>
              Option.bind (storageSyncLoop files fuel f) (\<lambda>(synced, f).
              case synced of
                Inl e \<Rightarrow> Some (Inl e, cf_unlink files w f)
              | Inr _ \<Rightarrow>
                  if cf_close files f \<noteq> 0 then Some (Inl (cf_close files f), cf_unlink files w f)
                  else Some (Inr f, w))))"

definition syncDirectory ::
  "('w, 'f) CatalogFiles \<Rightarrow> nat \<Rightarrow> 'w \<Rightarrow> (int + unit) option" where
  "syncDirectory files fuel w =
     (case cf_openDirectory files w of
        Inl e \<Rightarrow> Some (Inl e)
      | Inr d \<Rightarrow>
          Option.bind (storageSyncLoop files fuel d) (\<lambda>(synced, d).
          case synced of
            Inl e \<Rightarrow> Some (Inl e)
          | Inr _ \<Rightarrow> if cf_close files d \<noteq> 0 then Some (Inl (cf_close files d)) else Some (Inr ())))"

definition replaceRunCatalogV1WithHooks ::
  "('w, 'f) CatalogFiles \<Rightarrow> nat \<Rightarrow> 'w \<Rightarrow> RunCatalogSnapshotV1 \<Rightarrow> (RunCatalogReplaceResult \<times> 'w) option" where
  "replaceRunCatalogV1WithHooks files fuel w nextSnapshot =
     (case encodeRunCatalogV1 nextSnapshot of
        Inl encodeError \<Rightarrow> Some (replaceResult CR_INVALID_SNAPSHOT encodeError 0, w)
      | Inr encoded \<Rightarrow>
          Option.bind (loadRunCatalogV1 files fuel w empty_RunCatalogSnapshotV1) (\<lambda>(currentResult, currentSnapshot).
          case generationCheck currentResult currentSnapshot nextSnapshot of
            Some refusal \<Rightarrow> Some (refusal, w)
          | None \<Rightarrow>
              Option.bind (writeTemporary files fuel w encoded) (\<lambda>(temporary, w).
              case temporary of
                Inl e \<Rightarrow> Some (replaceResult CR_NOT_COMMITTED_IO_FAILURE RC_NONE e, w)
              | Inr f \<Rightarrow>
                  (case cf_rename files w f of
                     (e, w) \<Rightarrow>
                       if e \<noteq> 0 then
                         (if e = EINTR
                          then map_option (\<lambda>r. (r, w)) (uncertainResult files fuel w e)
                          else Some (replaceResult CR_NOT_COMMITTED_IO_FAILURE RC_NONE e, cf_unlink files w f))
                       else
                         Option.bind (syncDirectory files fuel w) (\<lambda>synced.
                         case synced of
                           Inl e \<Rightarrow> map_option (\<lambda>r. (r, w)) (uncertainResult files fuel w e)
                         | Inr _ \<Rightarrow> Some (replaceResult CR_COMMITTED RC_NONE 0, w))))))"

section \<open>The file system\<close>

text \<open>What POSIX documents, for the contents \<open>catalog w\<close> of the file at the catalog's path (\<open>None\<close> when there is
  none), the bytes \<open>remaining f\<close> that reads of an open file still return and the bytes \<open>written f\<close> to a temporary
  file: opening an existing file reads its contents, and only a missing file is reported as missing; a temporary
  file starts empty and does not touch the catalog; a rename puts the temporary file in the place of the catalog,
  or fails without effect, or is interrupted with either effect. Every call may fail; interrupts are bounded.\<close>

definition posix_catalog ::
  "('w \<Rightarrow> u8 list option) \<Rightarrow> ('f \<Rightarrow> u8 list) \<Rightarrow> ('f \<Rightarrow> u8 list) \<Rightarrow> ('f \<Rightarrow> nat) \<Rightarrow> nat \<Rightarrow> ('w, 'f) CatalogFiles \<Rightarrow> bool" where
  "posix_catalog catalog remaining written interrupts bound files \<longleftrightarrow>
     (\<forall>w f. cf_open files w = Inr f \<longrightarrow> catalog w = Some (remaining f) \<and> interrupts f \<le> bound) \<and>
     (\<forall>w. cf_open files w = Inl ENOENT \<longrightarrow> catalog w = None) \<and>
     (\<forall>f n bs f'. cf_read files f n = (Bytes bs, f') \<longrightarrow> 0 < n \<longrightarrow>
        length bs \<le> n \<and> remaining f = bs @ remaining f' \<and> (bs = [] \<longrightarrow> remaining f = []) \<and> interrupts f' \<le> interrupts f) \<and>
     (\<forall>f n f'. cf_read files f n = (Read_failed EINTR, f') \<longrightarrow> remaining f' = remaining f \<and> interrupts f' < interrupts f) \<and>
     (\<forall>w r w'. cf_mkstemp files w = (r, w') \<longrightarrow> catalog w' = catalog w) \<and>
     (\<forall>w f w'. cf_mkstemp files w = (Inr f, w') \<longrightarrow> written f = [] \<and> interrupts f \<le> bound) \<and>
     posix_append written interrupts (cf_write files) (cf_sync files) \<and>
     (\<forall>w f e w'. cf_rename files w f = (e, w') \<longrightarrow>
        (if e = 0 then catalog w' = Some (written f)
         else if e = EINTR then catalog w' = catalog w \<or> catalog w' = Some (written f)
         else catalog w' = catalog w)) \<and>
     (\<forall>w f. catalog (cf_unlink files w f) = catalog w) \<and>
     (\<forall>w d. cf_openDirectory files w = Inr d \<longrightarrow> interrupts d \<le> bound)"

lemma posix_catalogD:
  assumes "posix_catalog catalog remaining written interrupts bound files"
  shows "cf_open files w = Inr f \<Longrightarrow> catalog w = Some (remaining f) \<and> interrupts f \<le> bound"
    and "cf_open files w = Inl ENOENT \<Longrightarrow> catalog w = None"
    and "cf_read files f n = (Bytes bs, f') \<Longrightarrow> 0 < n \<Longrightarrow>
        length bs \<le> n \<and> remaining f = bs @ remaining f' \<and> (bs = [] \<longrightarrow> remaining f = []) \<and> interrupts f' \<le> interrupts f"
    and "cf_read files f n = (Read_failed EINTR, f') \<Longrightarrow> remaining f' = remaining f \<and> interrupts f' < interrupts f"
    and "cf_mkstemp files w = (r, w') \<Longrightarrow> catalog w' = catalog w"
    and "cf_mkstemp files w = (Inr f, w') \<Longrightarrow> written f = [] \<and> interrupts f \<le> bound"
    and "posix_append written interrupts (cf_write files) (cf_sync files)"
    and "cf_rename files w f = (e, w') \<Longrightarrow>
        (if e = 0 then catalog w' = Some (written f)
         else if e = EINTR then catalog w' = catalog w \<or> catalog w' = Some (written f)
         else catalog w' = catalog w)"
    and "catalog (cf_unlink files w f) = catalog w"
    and "cf_openDirectory files w = Inr d \<Longrightarrow> interrupts d \<le> bound"
proof -
  note p = assms [unfolded posix_catalog_def]
  show "cf_open files w = Inr f \<Longrightarrow> catalog w = Some (remaining f) \<and> interrupts f \<le> bound"
    using conjunct1 [OF p] by blast
  note p = conjunct2 [OF p]
  show "cf_open files w = Inl ENOENT \<Longrightarrow> catalog w = None"
    using conjunct1 [OF p] by blast
  note p = conjunct2 [OF p]
  show "cf_read files f n = (Bytes bs, f') \<Longrightarrow> 0 < n \<Longrightarrow>
        length bs \<le> n \<and> remaining f = bs @ remaining f' \<and> (bs = [] \<longrightarrow> remaining f = []) \<and> interrupts f' \<le> interrupts f"
    using conjunct1 [OF p] by blast
  note p = conjunct2 [OF p]
  show "cf_read files f n = (Read_failed EINTR, f') \<Longrightarrow> remaining f' = remaining f \<and> interrupts f' < interrupts f"
    using conjunct1 [OF p] by blast
  note p = conjunct2 [OF p]
  show "cf_mkstemp files w = (r, w') \<Longrightarrow> catalog w' = catalog w"
    using conjunct1 [OF p] by blast
  note p = conjunct2 [OF p]
  show "cf_mkstemp files w = (Inr f, w') \<Longrightarrow> written f = [] \<and> interrupts f \<le> bound"
    using conjunct1 [OF p] by blast
  note p = conjunct2 [OF p]
  show "posix_append written interrupts (cf_write files) (cf_sync files)"
    by (rule conjunct1 [OF p])
  note p = conjunct2 [OF p]
  show "cf_rename files w f = (e, w') \<Longrightarrow>
        (if e = 0 then catalog w' = Some (written f)
         else if e = EINTR then catalog w' = catalog w \<or> catalog w' = Some (written f)
         else catalog w' = catalog w)"
    using conjunct1 [OF p] by blast
  note p = conjunct2 [OF p]
  show "catalog (cf_unlink files w f) = catalog w"
    using conjunct1 [OF p] by blast
  note p = conjunct2 [OF p]
  show "cf_openDirectory files w = Inr d \<Longrightarrow> interrupts d \<le> bound"
    using p by blast
qed

section \<open>Loading returns the contents of the file\<close>

lemma catalogReadLoop_spec:
  assumes posix: "posix_catalog catalog remaining written interrupts bound files"
    and "interrupts f + (57 - length bytes) < fuel"
  shows "\<exists>r f'. catalogReadLoop (cf_read files) fuel f bytes = Some (r, f') \<and>
    (case r of Inl _ \<Rightarrow> True | Inr bs \<Rightarrow> bs = bytes @ take (57 - length bytes) (remaining f))"
  using assms(2)
proof (induction fuel arbitrary: f bytes)
  case (Suc fuel)
  show ?case
  proof (cases "length bytes < 57")
    case True
    then have m: "0 < 57 - length bytes" by simp
    obtain reply f1 where reply: "cf_read files f (57 - length bytes) = (reply, f1)"
      by (cases "cf_read files f (57 - length bytes)")
    show ?thesis
    proof (cases reply)
      case (Bytes bs)
      note step = posix_catalogD(3) [OF posix reply [unfolded Bytes] m]
      show ?thesis
      proof (cases "bs = []")
        case True
        then show ?thesis
          using step reply Bytes m by (auto simp: CATALOG_READ_BUFFER_SIZE_def catalog_layout)
      next
        case False
        have "0 < length bs"
          using False by simp
        then have "interrupts f1 + (57 - length (bytes @ bs)) < fuel"
          using step Suc.prems m by (simp only: length_append) linarith
        from Suc.IH [OF this] show ?thesis
          using step reply Bytes m False
          by (auto simp: CATALOG_READ_BUFFER_SIZE_def catalog_layout split: sum.splits)
      qed
    next
      case (Read_failed e)
      show ?thesis
      proof (cases "e = EINTR")
        case True
        note step = posix_catalogD(4) [OF posix reply [unfolded Read_failed True]]
        then have "interrupts f1 + (57 - length bytes) < fuel"
          using Suc.prems by linarith
        from Suc.IH [OF this, unfolded conjunct1 [OF step]] show ?thesis
          using reply Read_failed True m by (simp add: CATALOG_READ_BUFFER_SIZE_def catalog_layout)
      next
        case False
        then show ?thesis
          using reply Read_failed m by (simp add: CATALOG_READ_BUFFER_SIZE_def catalog_layout)
      qed
    qed
  next
    case False
    then show ?thesis
      by (simp add: CATALOG_READ_BUFFER_SIZE_def catalog_layout)
  qed
qed simp

lemma decode_whole_file:
  assumes "decodeRunCatalogV1 (take 57 bytes) = Inr snap"
  shows "decodeRunCatalogV1 bytes = Inr snap"
proof -
  have "length (take 57 bytes) = 56"
    using assms by (auto simp: decodeRunCatalogV1_def catalog_layout result_iff split: if_splits)
  then show ?thesis
    using assms by (simp add: min_def split: if_splits)
qed

lemma loadRunCatalogV1_spec:
  assumes posix: "posix_catalog catalog remaining written interrupts bound files" and fuel: "bound + 57 < fuel"
  shows "\<exists>res snap. loadRunCatalogV1 files fuel w outp = Some (res, snap) \<and>
    (case cl_outcome res of
       CL_LOADED \<Rightarrow> \<exists>bytes. catalog w = Some bytes \<and> decodeRunCatalogV1 bytes = Inr snap
     | CL_MISSING \<Rightarrow> catalog w = None \<and> snap = outp
     | _ \<Rightarrow> snap = outp)"
proof (cases "cf_open files w")
  case (Inl e)
  then show ?thesis
    using posix_catalogD(2) [OF posix, of w]
    by (auto simp: loadRunCatalogV1_def ioLoadFailure_def catalogLoadResult_def)
next
  case (Inr f)
  note opened = posix_catalogD(1) [OF posix Inr]
  have "interrupts f + (57 - length ([] :: u8 list)) < fuel"
    using opened fuel by simp
  from catalogReadLoop_spec [OF posix this] obtain r f' where
    read: "catalogReadLoop (cf_read files) fuel f [] = Some (r, f')"
      "case r of Inl _ \<Rightarrow> True | Inr bs \<Rightarrow> bs = take 57 (remaining f)"
    by (auto simp only: append_Nil list.size diff_zero)
  show ?thesis
  proof (cases r)
    case (Inl e)
    then show ?thesis
      using Inr read by (simp add: loadRunCatalogV1_def ioLoadFailure_def catalogLoadResult_def)
  next
    case Inr2: (Inr bs)
    then show ?thesis
      using Inr read opened decode_whole_file [of "remaining f"]
      by (cases "decodeRunCatalogV1 bs") (auto simp: loadRunCatalogV1_def ioLoadFailure_def catalogLoadResult_def)
  qed
qed

section \<open>Replacing is atomic\<close>

lemma storageSyncLoop_spec:
  assumes posix: "posix_append contents interrupts writeFile (cf_sync files)" and "interrupts f < fuel"
  shows "\<exists>r f'. storageSyncLoop files fuel f = Some (r, f') \<and> contents f' = contents f"
  using assms(2)
proof (induction fuel arbitrary: f)
  case (Suc fuel)
  obtain reply f1 where reply: "cf_sync files f = (reply, f1)"
    by (cases "cf_sync files f")
  have step: "contents f1 = contents f" "reply = Sync_failed EINTR \<Longrightarrow> interrupts f1 < interrupts f"
    using conjunct2 [OF posix [unfolded posix_append_def], THEN spec [of _ f]] reply by (auto split: if_splits)
  show ?case
  proof (cases "reply = Sync_failed EINTR")
    case True
    then show ?thesis
      using step Suc.IH [of f1] Suc.prems reply by auto
  next
    case False
    then show ?thesis
      using step reply by (cases reply) auto
  qed
qed simp

lemma catalogWriteLoop_spec:
  assumes posix: "posix_append contents interrupts writeFile syncFile"
    and "interrupts f + (length encoded - k) < fuel" and "contents f = take k encoded" and "k \<le> length encoded"
  shows "\<exists>r f'. catalogWriteLoop writeFile fuel f encoded k = Some (r, f') \<and> interrupts f' \<le> interrupts f \<and>
    (r = Inr () \<longrightarrow> contents f' = encoded)"
  using assms(2-)
proof (induction fuel arbitrary: f k)
  case (Suc fuel)
  show ?case
  proof (cases "k < length encoded")
    case True
    obtain reply f1 where reply: "writeFile f (drop k encoded) = (reply, f1)"
      by (cases "writeFile f (drop k encoded)")
    have "drop k encoded \<noteq> []"
      using True by simp
    note step = conjunct1 [OF posix [unfolded posix_append_def], rule_format, OF this, of f, unfolded reply]
    show ?thesis
    proof (cases reply)
      case (Wrote n)
      then have n: "n \<le> length encoded - k" "contents f1 = take (k + n) encoded" "interrupts f1 \<le> interrupts f"
        using step Suc.prems(2) by (auto simp: take_add)
      show ?thesis
      proof (cases "n = 0")
        case True
        then show ?thesis
          using n reply Wrote \<open>k < length encoded\<close> by simp
      next
        case False
        then have "interrupts f1 + (length encoded - (k + n)) < fuel" "k + n \<le> length encoded"
          using n Suc.prems(1) \<open>k < length encoded\<close> by auto
        from Suc.IH [OF this(1) n(2) this(2)] show ?thesis
          using n(3) False reply Wrote \<open>k < length encoded\<close> by fastforce
      qed
    next
      case (Write_failed e)
      then have f1: "contents f1 = take k encoded" "interrupts f1 \<le> interrupts f"
        "e = EINTR \<Longrightarrow> interrupts f1 < interrupts f"
        using step Suc.prems(2) by (auto split: if_splits)
      show ?thesis
      proof (cases "e = EINTR")
        case True
        then have "interrupts f1 + (length encoded - k) < fuel"
          using f1(3) Suc.prems(1) by linarith
        from Suc.IH [OF this f1(1) Suc.prems(3)] show ?thesis
          using f1(2) True reply Write_failed \<open>k < length encoded\<close> by fastforce
      next
        case False
        then show ?thesis
          using f1 reply Write_failed \<open>k < length encoded\<close> by simp
      qed
    qed
  next
    case False
    then show ?thesis
      using Suc.prems by simp
  qed
qed simp

lemma length_encodeRunCatalogV1: "encodeRunCatalogV1 snap = Inr bytes \<Longrightarrow> length bytes = 56"
proof -
  assume enc: "encodeRunCatalogV1 snap = Inr bytes"
  then have "validateSnapshot snap = Inr ()"
    by (auto simp: encodeRunCatalogV1_def result_iff)
  from encodeRunCatalogV1_layout [OF this] show ?thesis
    using enc by (simp add: catalog_bytes_def)
qed

lemma writeTemporary_spec:
  assumes posix: "posix_catalog catalog remaining written interrupts bound files" and fuel: "bound + 57 < fuel"
    and len: "length encoded = 56"
  shows "\<exists>r w'. writeTemporary files fuel w encoded = Some (r, w') \<and> catalog w' = catalog w \<and>
    (\<forall>f. r = Inr f \<longrightarrow> written f = encoded)"
proof -
  note append = posix_catalogD(7) [OF posix] and unlink = posix_catalogD(9) [OF posix]
  obtain r w1 where mk: "cf_mkstemp files w = (r, w1)"
    by (cases "cf_mkstemp files w")
  note w1 = posix_catalogD(5) [OF posix mk]
  show ?thesis
  proof (cases r)
    case (Inl e)
    then show ?thesis
      using mk w1 by (simp add: writeTemporary_def)
  next
    case (Inr f)
    have f: "written f = take 0 encoded" "interrupts f + (length encoded - 0) < fuel"
      using posix_catalogD(6) [OF posix mk [unfolded Inr]] fuel len by simp_all
    obtain r2 f2 where wr: "catalogWriteLoop (cf_write files) fuel f encoded 0 = Some (r2, f2)"
      "interrupts f2 \<le> interrupts f" "r2 = Inr () \<longrightarrow> written f2 = encoded"
      using catalogWriteLoop_spec [where contents = written, OF append f(2,1)] by auto
    obtain r3 f3 where sy: "storageSyncLoop files fuel f2 = Some (r3, f3)" "written f3 = written f2"
      using storageSyncLoop_spec [where contents = written, OF append, of f2 fuel] wr(2) f(2) by auto
    show ?thesis
      using mk w1 wr sy unlink Inr by (cases r2; cases r3) (auto simp: writeTemporary_def)
  qed
qed

lemma syncDirectory_total:
  assumes posix: "posix_catalog catalog remaining written interrupts bound files" and fuel: "bound + 57 < fuel"
  shows "\<exists>r. syncDirectory files fuel w = Some r"
proof (cases "cf_openDirectory files w")
  case (Inl e)
  then show ?thesis by (simp add: syncDirectory_def)
next
  case (Inr d)
  have "interrupts d < fuel"
    using posix_catalogD(10) [OF posix Inr] fuel by simp
  then obtain r d' where "storageSyncLoop files fuel d = Some (r, d')"
    using storageSyncLoop_spec [where contents = written, OF posix_catalogD(7) [OF posix], of d fuel] by auto
  then show ?thesis
    using Inr by (cases r) (auto simp: syncDirectory_def)
qed

definition observes :: "u8 list option \<Rightarrow> RunCatalogSnapshotV1 option \<Rightarrow> bool" where
  "observes file observed \<longleftrightarrow>
     (case observed of None \<Rightarrow> True | Some snap \<Rightarrow> \<exists>bytes. file = Some bytes \<and> decodeRunCatalogV1 bytes = Inr snap)"

lemma uncertainResult_spec:
  assumes "posix_catalog catalog remaining written interrupts bound files" and "bound + 57 < fuel"
  shows "\<exists>r. uncertainResult files fuel w e = Some r \<and> cp_outcome r = CR_UNCERTAIN \<and>
    observes (catalog w) (observedSnapshot r)"
proof -
  obtain res snap where load: "loadRunCatalogV1 files fuel w empty_RunCatalogSnapshotV1 = Some (res, snap)"
    "case cl_outcome res of
       CL_LOADED \<Rightarrow> \<exists>bytes. catalog w = Some bytes \<and> decodeRunCatalogV1 bytes = Inr snap
     | CL_MISSING \<Rightarrow> catalog w = None \<and> snap = empty_RunCatalogSnapshotV1
     | _ \<Rightarrow> snap = empty_RunCatalogSnapshotV1"
    using loadRunCatalogV1_spec [OF assms, of w empty_RunCatalogSnapshotV1] by blast
  then show ?thesis
    by (cases "cl_outcome res = CL_LOADED") (auto simp: uncertainResult_def replaceResult_def observes_def)
qed

text \<open>The catalogs that a snapshot may follow: none for the first generation, else the one before.\<close>

definition follows :: "u8 list option \<Rightarrow> RunCatalogSnapshotV1 \<Rightarrow> bool" where
  "follows file snap \<longleftrightarrow>
     (case file of
        None \<Rightarrow> rc_generation snap = 1
      | Some bytes \<Rightarrow> \<exists>current. decodeRunCatalogV1 bytes = Inr current \<and>
          unat (rc_generation snap) = Suc (unat (rc_generation current)))"

lemma unat_Suc_word: "(x :: u64) \<noteq> - 1 \<Longrightarrow> unat (x + 1) = Suc (unat x)"
proof -
  assume "x \<noteq> - 1"
  then have "1 + x \<noteq> 0"
    by (metis add.commute eq_neg_iff_add_eq_0)
  from unatSuc [OF this] show ?thesis by (simp add: add.commute)
qed

lemma generationCheck_None:
  assumes "generationCheck res current snap = None"
    and "case cl_outcome res of
       CL_LOADED \<Rightarrow> \<exists>bytes. file = Some bytes \<and> decodeRunCatalogV1 bytes = Inr current
     | CL_MISSING \<Rightarrow> file = None \<and> current = outp
     | _ \<Rightarrow> current = outp"
  shows "follows file snap"
  using assms unat_Suc_word
  by (auto simp: generationCheck_def follows_def split: RunCatalogLoadOutcome.splits if_splits)

lemma generationCheck_Some:
  "generationCheck res current snap = Some r \<Longrightarrow>
     cp_outcome r \<noteq> CR_COMMITTED \<and> cp_outcome r \<noteq> CR_UNCERTAIN"
  by (auto simp: generationCheck_def replaceResult_def split: RunCatalogLoadOutcome.splits if_splits)

lemma replace_spec:
  assumes posix: "posix_catalog catalog remaining written interrupts bound files" and fuel: "bound + 57 < fuel"
  shows "\<exists>res w'. replaceRunCatalogV1WithHooks files fuel w snap = Some (res, w') \<and>
    (case cp_outcome res of
       CR_COMMITTED \<Rightarrow> \<exists>bytes. encodeRunCatalogV1 snap = Inr bytes \<and> catalog w' = Some bytes \<and> follows (catalog w) snap
     | CR_UNCERTAIN \<Rightarrow> \<exists>bytes. encodeRunCatalogV1 snap = Inr bytes \<and> follows (catalog w) snap \<and>
         (catalog w' = catalog w \<or> catalog w' = Some bytes) \<and> observes (catalog w') (observedSnapshot res)
     | _ \<Rightarrow> catalog w' = catalog w)"
proof (cases "encodeRunCatalogV1 snap")
  case (Inl e)
  then show ?thesis
    by (simp add: replaceRunCatalogV1WithHooks_def replaceResult_def)
next
  case (Inr encoded)
  obtain res current where load: "loadRunCatalogV1 files fuel w empty_RunCatalogSnapshotV1 = Some (res, current)"
    "case cl_outcome res of
       CL_LOADED \<Rightarrow> \<exists>bytes. catalog w = Some bytes \<and> decodeRunCatalogV1 bytes = Inr current
     | CL_MISSING \<Rightarrow> catalog w = None \<and> current = empty_RunCatalogSnapshotV1
     | _ \<Rightarrow> current = empty_RunCatalogSnapshotV1"
    using loadRunCatalogV1_spec [OF posix fuel, of w empty_RunCatalogSnapshotV1] by blast
  show ?thesis
  proof (cases "generationCheck res current snap")
    case (Some r)
    then have "replaceRunCatalogV1WithHooks files fuel w snap = Some (r, w)"
      using Inr load(1) by (simp add: replaceRunCatalogV1WithHooks_def)
    then show ?thesis
      using generationCheck_Some [OF Some] by (auto split: RunCatalogReplaceOutcome.splits)
  next
    case None
    have follows: "follows (catalog w) snap"
      by (rule generationCheck_None [OF None load(2)])
    obtain t w1 where tmp: "writeTemporary files fuel w encoded = Some (t, w1)" "catalog w1 = catalog w"
      "\<forall>f. t = Inr f \<longrightarrow> written f = encoded"
      using writeTemporary_spec [OF posix fuel length_encodeRunCatalogV1 [OF Inr]] by blast
    show ?thesis
    proof (cases t)
      case (Inl e)
      then show ?thesis
        using Inr load(1) None tmp by (simp add: replaceRunCatalogV1WithHooks_def replaceResult_def)
    next
      case t: (Inr f)
      obtain e w2 where ren: "cf_rename files w1 f = (e, w2)"
        by (cases "cf_rename files w1 f")
      note moved = posix_catalogD(8) [OF posix ren]
      have wf: "written f = encoded"
        using tmp(3) t by simp
      obtain u where unc: "uncertainResult files fuel w2 e' = Some (u e')" "cp_outcome (u e') = CR_UNCERTAIN"
        "observes (catalog w2) (observedSnapshot (u e'))" for e'
        using uncertainResult_spec [OF posix fuel, of w2] by metis
      obtain d where dir: "syncDirectory files fuel w2 = Some d"
        using syncDirectory_total [OF posix fuel] by blast
      note code = replaceRunCatalogV1WithHooks_def [of files fuel w snap] Inr load(1) None tmp(1) t ren
      consider "e \<noteq> 0" "e \<noteq> EINTR" | "e = EINTR" | x where "e = 0" "d = Inl x" | "e = 0" "d = Inr ()"
        by (cases d) auto
      then show ?thesis
      proof cases
        case 1
        then show ?thesis
          using moved tmp(2) posix_catalogD(9) [OF posix] by (simp add: code replaceResult_def)
      next
        case 2
        then have "e \<noteq> 0"
          by (simp add: EINTR_def)
        then show ?thesis
          using 2 moved tmp(2) unc follows wf by (auto simp: code)
      next
        case 3
        then show ?thesis
          using moved unc dir follows wf by (auto simp: code)
      next
        case 4
        then show ?thesis
          using moved dir follows wf by (auto simp: code replaceResult_def)
      qed
    qed
  qed
qed

end
