(* ===== verification/Run_Reservation.thy ===== *)
theory Run_Reservation
  imports Catalog_Storage Fix_Decimal
begin

text \<open>
  Run identifiers: their reservation in the catalog, \<open>core/storage/src/exchange_run_id_reservation.cpp\<close>, the
  canonical path of a run's journal and the activation of a prepared run, \<open>new_run_journal.cpp\<close> and
  \<open>new_run_activation.cpp\<close>. The data directory adds two calls to the file system: listing the directory (an error,
  or the names with the error that ended the listing, zero at the end) and creating a file that must not exist. Paths
  are strings in canonical form, so that equality of paths is equality of strings.
\<close>

section \<open>Reservation\<close>

record ('w, 'f) DataDirectory =
  dd_files :: "('w, 'f) CatalogFiles"
  dd_list :: "'w \<Rightarrow> int + string list \<times> int"
  dd_create :: "'w \<Rightarrow> string \<Rightarrow> (int + 'f) \<times> 'w"

datatype ExchangeRunIdReservationOutcome =
    RV_RESERVED | RV_CATALOG_LOAD_FAILED | RV_JOURNAL_PRESENT_WITHOUT_CATALOG | RV_DATA_DIRECTORY_IO_FAILURE
  | RV_EXHAUSTED | RV_CATALOG_REPLACE_FAILED

record ExchangeRunIdReservationResult =
  rv_outcome :: ExchangeRunIdReservationOutcome
  rv_catalogLoad :: RunCatalogLoadResult
  rv_catalogReplacement :: "RunCatalogReplaceResult option"
  rv_systemError :: int

definition reservationResult ::
  "ExchangeRunIdReservationOutcome \<Rightarrow> RunCatalogLoadResult \<Rightarrow> RunCatalogReplaceResult option \<Rightarrow> int \<Rightarrow>
     ExchangeRunIdReservationResult" where
  "reservationResult oc load replacement sysError =
     \<lparr>rv_outcome = oc, rv_catalogLoad = load, rv_catalogReplacement = replacement, rv_systemError = sysError\<rparr>"

definition starts_with :: "string \<Rightarrow> string \<Rightarrow> bool" where
  "starts_with s p \<longleftrightarrow> take (length p) s = p"

definition ends_with :: "string \<Rightarrow> string \<Rightarrow> bool" where
  "ends_with s p \<longleftrightarrow> length p \<le> length s \<and> drop (length s - length p) s = p"

fun scanEntries :: "string list \<Rightarrow> int \<Rightarrow> int + bool" where
  "scanEntries [] err = (if err \<noteq> 0 then Inl err else Inr False)"
| "scanEntries (filename # rest) err =
     (if starts_with filename ''run-'' \<and> ends_with filename ''.fxjr'' then Inr True else scanEntries rest err)"

definition hasJournalLikeEntry :: "('w, 'f) DataDirectory \<Rightarrow> 'w \<Rightarrow> int + bool" where
  "hasJournalLikeEntry dir w = (case dd_list dir w of Inl e \<Rightarrow> Inl e | Inr (names, err) \<Rightarrow> scanEntries names err)"

text \<open>The snapshot that a reservation proposes, or the outcome that refuses it.\<close>

definition proposeNext ::
  "('w, 'f) DataDirectory \<Rightarrow> 'w \<Rightarrow> RunCatalogLoadResult \<Rightarrow> RunCatalogSnapshotV1 \<Rightarrow>
     ExchangeRunIdReservationResult + ExchangeRunId \<times> RunCatalogSnapshotV1" where
  "proposeNext dir w load current =
     (if cl_outcome load = CL_MISSING then
        (case hasJournalLikeEntry dir w of
           Inl e \<Rightarrow> Inl (reservationResult RV_DATA_DIRECTORY_IO_FAILURE load None e)
         | Inr True \<Rightarrow> Inl (reservationResult RV_JOURNAL_PRESENT_WITHOUT_CATALOG load None 0)
         | Inr False \<Rightarrow>
             Inr (1, \<lparr>rc_generation = 1, rc_lastReservedRunId = Some 1, rc_activeRunId = None,
                     rc_activeDisposition = DISPOSITION_NONE, rc_retainedStoppedRunId = None\<rparr>))
      else if rc_generation current = - 1 \<or> rc_lastReservedRunId current = Some (- 1)
      then Inl (reservationResult RV_EXHAUSTED load None 0)
      else
        let nextRunId = (case rc_lastReservedRunId current of Some r \<Rightarrow> r + 1 | None \<Rightarrow> 1)
        in Inr (nextRunId, current\<lparr>rc_generation := rc_generation current + 1, rc_lastReservedRunId := Some nextRunId\<rparr>))"

definition reserveNextExchangeRunIdWithHooks ::
  "('w, 'f) DataDirectory \<Rightarrow> nat \<Rightarrow> 'w \<Rightarrow> ExchangeRunId \<Rightarrow>
     (ExchangeRunIdReservationResult \<times> ExchangeRunId \<times> 'w) option" where
  "reserveNextExchangeRunIdWithHooks dir fuel w outp =
     Option.bind (loadRunCatalogV1 (dd_files dir) fuel w empty_RunCatalogSnapshotV1) (\<lambda>(load, current).
     if cl_outcome load = CL_INVALID \<or> cl_outcome load = CL_IO_FAILURE
     then Some (reservationResult RV_CATALOG_LOAD_FAILED load None 0, outp, w)
     else
     case proposeNext dir w load current of
       Inl refusal \<Rightarrow> Some (refusal, outp, w)
     | Inr (proposedRunId, nextSnapshot) \<Rightarrow>
         Option.bind (replaceRunCatalogV1WithHooks (dd_files dir) fuel w nextSnapshot) (\<lambda>(replacement, w).
         if cp_outcome replacement \<noteq> CR_COMMITTED
         then Some (reservationResult RV_CATALOG_REPLACE_FAILED load (Some replacement) 0, outp, w)
         else Some (reservationResult RV_RESERVED load (Some replacement) 0, proposedRunId, w)))"

section \<open>Journal paths\<close>

text \<open>\<open>std::to_string\<close> of an unsigned number.\<close>

fun to_string :: "nat \<Rightarrow> string" where
  "to_string n = (if n < 10 then [char_of (48 + n)] else to_string (n div 10) @ [char_of (48 + n mod 10)])"

declare to_string.simps [simp del]

lemma digit_char: "k < 10 \<Longrightarrow> is_digit (char_of (48 + k))" "k < 10 \<Longrightarrow> digit_of (char_of (48 + k)) = k"
  by (simp_all add: is_digit_def digit_of_def)

lemma to_string_not_Nil [simp]: "to_string n \<noteq> []"
  by (subst to_string.simps) simp

lemma to_string_digits: "list_all is_digit (to_string n)"
proof (induction n rule: to_string.induct)
  case (1 n)
  then show ?case
    by (subst to_string.simps) (simp add: digit_char)
qed

lemma decimal_value_to_string: "decimal_value (to_string n) = n"
proof (induction n rule: to_string.induct)
  case (1 n)
  then show ?case
    by (subst to_string.simps) (simp add: decimal_from_append digit_char)
qed

lemma length_to_string: "n < 10 ^ Suc k \<Longrightarrow> length (to_string n) \<le> Suc k"
proof (induction k arbitrary: n)
  case 0
  then show ?case
    by (subst to_string.simps) simp
next
  case (Suc k)
  have "length (to_string (n div 10)) \<le> Suc k"
    using Suc.prems by (intro Suc.IH) (simp add: less_mult_imp_div_less)
  then show ?case
    by (subst to_string.simps) simp
qed

text \<open>\<open>parent_path\<close> and \<open>operator/\<close> of \<open>std::filesystem::path\<close> with the separator \<open>/\<close>.\<close>

definition parent_path :: "string \<Rightarrow> string" where
  "parent_path path =
     (let directory = dropWhile (\<lambda>c. c \<noteq> CHR ''/'') (rev path);
          stripped = dropWhile (\<lambda>c. c = CHR ''/'') directory
      in if directory \<noteq> [] \<and> stripped = [] then ''/'' else rev stripped)"

definition path_join :: "string \<Rightarrow> string \<Rightarrow> string" where
  "path_join directory name =
     (if directory = [] \<or> last directory = CHR ''/'' then directory @ name else directory @ ''/'' @ name)"

definition deriveCanonicalRunJournalPathV1 :: "string \<Rightarrow> ExchangeRunId \<Rightarrow> string" where
  "deriveCanonicalRunJournalPathV1 canonicalCatalogPath runId =
     path_join (parent_path canonicalCatalogPath) (''run-'' @ to_string (unat runId) @ ''.fxjr'')"

section \<open>Activation\<close>

record 'f PreparedNewRunJournalV1 =
  pn_header :: RunHeaderV1
  canonicalJournalPath :: string
  pn_writer :: "'f RunJournalWriterV1 option"

datatype NewRunActivationOutcome =
    NA_ACTIVATED | NA_MISSING_WRITER | NA_ZERO_EXCHANGE_RUN_ID | NA_NONCANONICAL_JOURNAL_PATH
  | NA_CATALOG_LOAD_FAILED | NA_LAST_RESERVED_RUN_ID_MISMATCH | NA_ACTIVE_RUN_EXISTS | NA_GENERATION_EXHAUSTED
  | NA_CATALOG_REPLACE_FAILED

record NewRunActivationResult =
  na_outcome :: NewRunActivationOutcome
  na_catalogLoad :: "RunCatalogLoadResult option"
  na_catalogReplacement :: "RunCatalogReplaceResult option"

definition activationResult ::
  "NewRunActivationOutcome \<Rightarrow> RunCatalogLoadResult option \<Rightarrow> RunCatalogReplaceResult option \<Rightarrow>
     NewRunActivationResult" where
  "activationResult oc load replacement =
     \<lparr>na_outcome = oc, na_catalogLoad = load, na_catalogReplacement = replacement\<rparr>"

definition activatePreparedNewRunV1WithHooks ::
  "('w, 'f) CatalogFiles \<Rightarrow> nat \<Rightarrow> string \<Rightarrow> 'f PreparedNewRunJournalV1 \<Rightarrow> 'w \<Rightarrow>
     (NewRunActivationResult \<times> 'w) option" where
  "activatePreparedNewRunV1WithHooks files fuel canonicalCatalogPath prepared w =
     (let runId = rh_exchangeRunId (pn_header prepared) in
      if pn_writer prepared = None then Some (activationResult NA_MISSING_WRITER None None, w)
      else if runId = 0 then Some (activationResult NA_ZERO_EXCHANGE_RUN_ID None None, w)
      else if canonicalJournalPath prepared \<noteq> deriveCanonicalRunJournalPathV1 canonicalCatalogPath runId
      then Some (activationResult NA_NONCANONICAL_JOURNAL_PATH None None, w)
      else
      Option.bind (loadRunCatalogV1 files fuel w empty_RunCatalogSnapshotV1) (\<lambda>(load, current).
      if cl_outcome load \<noteq> CL_LOADED then Some (activationResult NA_CATALOG_LOAD_FAILED (Some load) None, w)
      else if rc_lastReservedRunId current \<noteq> Some runId
      then Some (activationResult NA_LAST_RESERVED_RUN_ID_MISMATCH (Some load) None, w)
      else if rc_activeRunId current \<noteq> None then Some (activationResult NA_ACTIVE_RUN_EXISTS (Some load) None, w)
      else if rc_generation current = - 1 then Some (activationResult NA_GENERATION_EXHAUSTED (Some load) None, w)
      else
      let nextSnapshot = current\<lparr>rc_generation := rc_generation current + 1, rc_activeRunId := Some runId,
            rc_activeDisposition := OPEN\<rparr> in
      Option.bind (replaceRunCatalogV1WithHooks files fuel w nextSnapshot) (\<lambda>(replacement, w).
      if cp_outcome replacement \<noteq> CR_COMMITTED
      then Some (activationResult NA_CATALOG_REPLACE_FAILED (Some load) (Some replacement), w)
      else Some (activationResult NA_ACTIVATED (Some load) (Some replacement), w))))"

section \<open>Identifiers are never reused\<close>

text \<open>The last identifier that a catalog file records as reserved.\<close>

definition last_reserved :: "u8 list option \<Rightarrow> nat" where
  "last_reserved file =
     (case file of
        None \<Rightarrow> 0
      | Some bytes \<Rightarrow>
          (case decodeRunCatalogV1 bytes of
             Inl _ \<Rightarrow> 0
           | Inr snap \<Rightarrow> (case rc_lastReservedRunId snap of None \<Rightarrow> 0 | Some r \<Rightarrow> unat r)))"

lemma last_reserved_encoded:
  assumes "encodeRunCatalogV1 snap = Inr bytes" and "known_disposition snap"
  shows "last_reserved (Some bytes) = (case rc_lastReservedRunId snap of None \<Rightarrow> 0 | Some r \<Rightarrow> unat r)"
proof -
  have "decodeRunCatalogV1 bytes = Inr snap"
    using catalog_codec.decode_iff assms by blast
  then show ?thesis by (simp add: last_reserved_def)
qed

lemma decoded_known: "decodeRunCatalogV1 bytes = Inr snap \<Longrightarrow> known_disposition snap"
  using catalog_codec.decode_iff by blast

text \<open>A replacement leaves either file, so what holds of both holds afterwards.\<close>

lemma replace_cases:
  assumes "posix_catalog catalog remaining written interrupts bound files" and "bound + 57 < fuel"
  shows "\<exists>res w'. replaceRunCatalogV1WithHooks files fuel w snap = Some (res, w') \<and>
    (cp_outcome res = CR_COMMITTED \<longrightarrow> (\<exists>bytes. encodeRunCatalogV1 snap = Inr bytes \<and> catalog w' = Some bytes)) \<and>
    (catalog w' = catalog w \<or> (\<exists>bytes. encodeRunCatalogV1 snap = Inr bytes \<and> catalog w' = Some bytes))"
proof -
  obtain res w' where rep: "replaceRunCatalogV1WithHooks files fuel w snap = Some (res, w')"
    and spec: "case cp_outcome res of
       CR_COMMITTED \<Rightarrow> \<exists>bytes. encodeRunCatalogV1 snap = Inr bytes \<and> catalog w' = Some bytes \<and> follows (catalog w) snap
     | CR_UNCERTAIN \<Rightarrow> \<exists>bytes. encodeRunCatalogV1 snap = Inr bytes \<and> follows (catalog w) snap \<and>
         (catalog w' = catalog w \<or> catalog w' = Some bytes) \<and> observes (catalog w') (observedSnapshot res)
     | _ \<Rightarrow> catalog w' = catalog w"
    using replace_spec [OF assms, of w snap] by blast
  then show ?thesis
    by (cases "cp_outcome res") auto
qed

lemma reserve_run_spec:
  assumes posix: "posix_catalog catalog remaining written interrupts bound (dd_files dir)" and fuel: "bound + 57 < fuel"
  shows "\<exists>res runId w'. reserveNextExchangeRunIdWithHooks dir fuel w outp = Some (res, runId, w') \<and>
    last_reserved (catalog w) \<le> last_reserved (catalog w') \<and>
    (if rv_outcome res = RV_RESERVED
     then unat runId = Suc (last_reserved (catalog w)) \<and> last_reserved (catalog w') = unat runId
     else runId = outp)"
proof -
  obtain load current where load: "loadRunCatalogV1 (dd_files dir) fuel w empty_RunCatalogSnapshotV1 = Some (load, current)"
    "case cl_outcome load of
       CL_LOADED \<Rightarrow> \<exists>bytes. catalog w = Some bytes \<and> decodeRunCatalogV1 bytes = Inr current
     | CL_MISSING \<Rightarrow> catalog w = None \<and> current = empty_RunCatalogSnapshotV1
     | _ \<Rightarrow> current = empty_RunCatalogSnapshotV1"
    using loadRunCatalogV1_spec [OF posix fuel, of w empty_RunCatalogSnapshotV1] by blast
  show ?thesis
  proof (cases "cl_outcome load = CL_INVALID \<or> cl_outcome load = CL_IO_FAILURE")
    case True
    then show ?thesis
      using load(1) by (auto simp: reserveNextExchangeRunIdWithHooks_def reservationResult_def)
  next
    case usable: False
    show ?thesis
    proof (cases "proposeNext dir w load current")
      case (Inl refusal)
      then have "rv_outcome refusal \<noteq> RV_RESERVED"
        by (auto simp: proposeNext_def reservationResult_def Let_def split: if_splits sum.splits bool.splits)
      then show ?thesis
        using load(1) usable Inl by (auto simp: reserveNextExchangeRunIdWithHooks_def)
    next
      case (Inr p)
      obtain runId snap where p: "p = (runId, snap)" by (cases p)
      have new: "unat runId = Suc (last_reserved (catalog w)) \<and> rc_lastReservedRunId snap = Some runId \<and>
          known_disposition snap"
      proof (cases "cl_outcome load = CL_MISSING")
        case True
        then have "catalog w = None" "runId = 1" "rc_lastReservedRunId snap = Some 1" "known_disposition snap"
          using load(2) Inr p
          by (auto simp: proposeNext_def known_disposition_def split: sum.splits bool.splits)
        then show ?thesis by (simp add: last_reserved_def)
      next
        case False
        then obtain bytes where cur: "catalog w = Some bytes" "decodeRunCatalogV1 bytes = Inr current"
          using load(2) usable by (auto split: RunCatalogLoadOutcome.splits)
        then show ?thesis
          using False Inr p decoded_known [OF cur(2)] unat_Suc_word
          by (auto simp: proposeNext_def last_reserved_def known_disposition_def Let_def split: if_splits option.splits)
      qed
      obtain res w' where rep: "replaceRunCatalogV1WithHooks (dd_files dir) fuel w snap = Some (res, w')"
        "cp_outcome res = CR_COMMITTED \<longrightarrow> (\<exists>bytes. encodeRunCatalogV1 snap = Inr bytes \<and> catalog w' = Some bytes)"
        "catalog w' = catalog w \<or> (\<exists>bytes. encodeRunCatalogV1 snap = Inr bytes \<and> catalog w' = Some bytes)"
        using replace_cases [OF posix fuel] by blast
      have last: "last_reserved (Some bytes) = unat runId" if "encodeRunCatalogV1 snap = Inr bytes" for bytes
        using last_reserved_encoded [OF that] new by simp
      have mono: "last_reserved (catalog w) \<le> last_reserved (catalog w')"
        using rep(3) last new by auto
      show ?thesis
      proof (cases "cp_outcome res = CR_COMMITTED")
        case True
        then show ?thesis
          using load(1) usable Inr p rep(1,2) last new
          by (auto simp: reserveNextExchangeRunIdWithHooks_def reservationResult_def)
      next
        case False
        then show ?thesis
          using load(1) usable Inr p rep(1) mono
          by (auto simp: reserveNextExchangeRunIdWithHooks_def reservationResult_def)
      qed
    qed
  qed
qed

end
