(* ===== verification/Journal_Creation.thy ===== *)
theory Journal_Creation
  imports Run_Reservation Journal_Durability
begin

text \<open>
  Creating the journal of a new run, \<open>core/storage/src/run_journal_storage.cpp\<close>, the writer on it,
  \<open>run_journal_writer.cpp\<close>, and the preparation of a new run, \<open>new_run_journal.cpp\<close>. A journal is created
  exclusively, its header is written and synced, and the directory is synced. The descriptor of the new file stays
  open for the writer, or is closed when only the file is wanted. Allocation always succeeds, so the \<open>ENOMEM\<close>
  branches do not occur.
\<close>

section \<open>Data\<close>

datatype RunJournalCreateOutcome =
  JC_CREATED | JC_INVALID_HEADER | JC_PATH_ALREADY_EXISTS | JC_IO_FAILURE | JC_UNCERTAIN

record RunJournalCreateResult =
  jx_outcome :: RunJournalCreateOutcome
  jx_codecError :: RunHeaderCodecError
  jx_systemError :: int

record NewRunConfigurationV1 =
  nc_behavioralRulesVersion :: u32
  nc_maxEventsPerCommand :: u32
  nc_maxRunCommands :: u64
  nc_maxRunJournalBytes :: u64
  nc_instruments :: "RunHeaderInstrumentV1 list"

datatype NewRunJournalPreparationOutcome =
  NP_PREPARED | NP_HEADER_VALIDATION_FAILED | NP_RESERVATION_FAILED | NP_JOURNAL_CREATION_FAILED

record NewRunJournalPreparationResult =
  np_outcome :: NewRunJournalPreparationOutcome
  np_headerValidation :: RunHeaderCodecError
  np_reservation :: "ExchangeRunIdReservationResult option"
  np_journalCreation :: "RunJournalCreateResult option"

definition EEXIST :: int where "EEXIST = 17"

definition createResult :: "RunJournalCreateOutcome \<Rightarrow> RunHeaderCodecError \<Rightarrow> int \<Rightarrow> RunJournalCreateResult" where
  "createResult oc codecError sysError =
     \<lparr>jx_outcome = oc, jx_codecError = codecError, jx_systemError = sysError\<rparr>"

section \<open>The file\<close>

text \<open>\<open>retain\<close> says whether the caller passes a place for the descriptor; the second result is what is stored there.\<close>

definition createEncodedRunJournalV1 ::
  "('w, 'f) DataDirectory \<Rightarrow> nat \<Rightarrow> string \<Rightarrow> u8 list \<Rightarrow> bool \<Rightarrow> 'w \<Rightarrow>
     (RunJournalCreateResult \<times> 'f option \<times> 'w) option" where
  "createEncodedRunJournalV1 dir fuel canonicalPath encodedHeader retain w =
     (let files = dd_files dir; uncertain = (\<lambda>e. createResult JC_UNCERTAIN RH_NONE e) in
      case dd_create dir w canonicalPath of
        (Inl e, w) \<Rightarrow>
          Some (createResult (if e = EEXIST then JC_PATH_ALREADY_EXISTS else JC_IO_FAILURE) RH_NONE e, None, w)
      | (Inr f, w) \<Rightarrow>
          Option.bind (writeFrame (cf_write files) fuel f encodedHeader 0) (\<lambda>(written, f).
          case written of
            Inl (e, _) \<Rightarrow> Some (createResult JC_IO_FAILURE RH_NONE e, None, w)
          | Inr _ \<Rightarrow>
              Option.bind (storageSyncLoop files fuel f) (\<lambda>(synced, f).
              case synced of
                Inl e \<Rightarrow> Some (uncertain e, None, w)
              | Inr _ \<Rightarrow>
                  if \<not> retain \<and> cf_close files f \<noteq> 0 then Some (uncertain (cf_close files f), None, w)
                  else
                  Option.bind (syncDirectory files fuel w) (\<lambda>directorySynced.
                  case directorySynced of
                    Inl e \<Rightarrow> Some (uncertain e, None, w)
                  | Inr _ \<Rightarrow> Some (createResult JC_CREATED RH_NONE 0, if retain then Some f else None, w)))))"

definition createRunJournalV1WithHooks ::
  "('w, 'f) DataDirectory \<Rightarrow> nat \<Rightarrow> string \<Rightarrow> RunHeaderV1 \<Rightarrow> 'w \<Rightarrow> (RunJournalCreateResult \<times> 'w) option" where
  "createRunJournalV1WithHooks dir fuel canonicalPath header w =
     (case encodeRunHeaderV1 header of
        Inl codecError \<Rightarrow> Some (createResult JC_INVALID_HEADER codecError 0, w)
      | Inr encoded \<Rightarrow>
          map_option (\<lambda>(res, _, w). (res, w)) (createEncodedRunJournalV1 dir fuel canonicalPath encoded False w))"

definition createEncodedRunJournalV1AndRetainDescriptor ::
  "('w, 'f) DataDirectory \<Rightarrow> nat \<Rightarrow> string \<Rightarrow> u8 list \<Rightarrow> 'w \<Rightarrow>
     (RunJournalCreateResult \<times> 'f option \<times> 'w) option" where
  "createEncodedRunJournalV1AndRetainDescriptor dir fuel canonicalPath encodedHeader w =
     createEncodedRunJournalV1 dir fuel canonicalPath encodedHeader True w"

text \<open>Only a created journal replaces the output.\<close>

definition createRunJournalWriterV1WithHooks ::
  "('w, 'f) DataDirectory \<Rightarrow> nat \<Rightarrow> string \<Rightarrow> RunHeaderV1 \<Rightarrow> 'f RunJournalWriterV1 option \<Rightarrow> 'w \<Rightarrow>
     (RunJournalCreateResult \<times> 'f RunJournalWriterV1 option \<times> 'w) option" where
  "createRunJournalWriterV1WithHooks dir fuel canonicalPath header outp w =
     (case encodeRunHeaderV1 header of
        Inl codecError \<Rightarrow> Some (createResult JC_INVALID_HEADER codecError 0, outp, w)
      | Inr encodedHeader \<Rightarrow>
          Option.bind (createEncodedRunJournalV1AndRetainDescriptor dir fuel canonicalPath encodedHeader w)
            (\<lambda>(res, descriptor, w).
          case descriptor of
            Some f \<Rightarrow>
              if jx_outcome res \<noteq> JC_CREATED then Some (res, outp, w)
              else Some (res, Some (make_RunJournalWriterV1 f header (of_nat (length encodedHeader))), w)
          | None \<Rightarrow> Some (res, outp, w)))"

section \<open>Preparing a new run\<close>

text \<open>The hook that creates the writer is a parameter of the preparation.\<close>

type_synonym ('w, 'f) create_writer =
  "string \<Rightarrow> RunHeaderV1 \<Rightarrow> 'f RunJournalWriterV1 option \<Rightarrow> 'w \<Rightarrow>
     (RunJournalCreateResult \<times> 'f RunJournalWriterV1 option \<times> 'w) option"

definition preparationResult ::
  "NewRunJournalPreparationOutcome \<Rightarrow> RunHeaderCodecError \<Rightarrow> ExchangeRunIdReservationResult option \<Rightarrow>
     RunJournalCreateResult option \<Rightarrow> NewRunJournalPreparationResult" where
  "preparationResult oc validation reservation creation =
     \<lparr>np_outcome = oc, np_headerValidation = validation, np_reservation = reservation, np_journalCreation = creation\<rparr>"

definition configured_header :: "NewRunConfigurationV1 \<Rightarrow> ExchangeRunId \<Rightarrow> RunHeaderV1" where
  "configured_header configuration runId =
     \<lparr>rh_exchangeRunId = runId,
      rh_behavioralRulesVersion = nc_behavioralRulesVersion configuration,
      rh_maxEventsPerCommand = nc_maxEventsPerCommand configuration,
      rh_maxRunCommands = nc_maxRunCommands configuration,
      rh_maxRunJournalBytes = nc_maxRunJournalBytes configuration,
      rh_instruments = nc_instruments configuration\<rparr>"

definition prepareNewRunJournalV1WithHooks ::
  "('w, 'f) DataDirectory \<Rightarrow> nat \<Rightarrow> ('w, 'f) create_writer \<Rightarrow> string \<Rightarrow> NewRunConfigurationV1 \<Rightarrow>
     'f PreparedNewRunJournalV1 \<Rightarrow> 'w \<Rightarrow>
     (NewRunJournalPreparationResult \<times> 'f PreparedNewRunJournalV1 \<times> 'w) option" where
  "prepareNewRunJournalV1WithHooks dir fuel createWriter canonicalCatalogPath configuration outp w =
     (let header = configured_header configuration 1 in
      case encodeRunHeaderV1 header of
        Inl validation \<Rightarrow> Some (preparationResult NP_HEADER_VALIDATION_FAILED validation None None, outp, w)
      | Inr _ \<Rightarrow>
          Option.bind (reserveNextExchangeRunIdWithHooks dir fuel w 0) (\<lambda>(reservation, reservedRunId, w).
          if rv_outcome reservation \<noteq> RV_RESERVED
          then Some (preparationResult NP_RESERVATION_FAILED RH_NONE (Some reservation) None, outp, w)
          else
          let header = header\<lparr>rh_exchangeRunId := reservedRunId\<rparr>;
              journalPath = deriveCanonicalRunJournalPathV1 canonicalCatalogPath reservedRunId in
          Option.bind (createWriter journalPath header None w) (\<lambda>(creation, writer, w).
          if jx_outcome creation \<noteq> JC_CREATED
          then Some (preparationResult NP_JOURNAL_CREATION_FAILED RH_NONE (Some reservation) (Some creation), outp, w)
          else Some (preparationResult NP_PREPARED RH_NONE (Some reservation) (Some creation),
                     \<lparr>pn_header = header, canonicalJournalPath = journalPath, pn_writer = writer\<rparr>, w))))"

definition prepareNewRunJournalV1 ::
  "('w, 'f) DataDirectory \<Rightarrow> nat \<Rightarrow> string \<Rightarrow> NewRunConfigurationV1 \<Rightarrow> 'f PreparedNewRunJournalV1 \<Rightarrow> 'w \<Rightarrow>
     (NewRunJournalPreparationResult \<times> 'f PreparedNewRunJournalV1 \<times> 'w) option" where
  "prepareNewRunJournalV1 dir fuel =
     prepareNewRunJournalV1WithHooks dir fuel (createRunJournalWriterV1WithHooks dir fuel)"

section \<open>A created journal holds its header\<close>

text \<open>The data directory: the catalog behaves as before, exclusive creation gives an empty file and leaves a
  catalog that exists.\<close>

definition posix_directory ::
  "('w \<Rightarrow> u8 list option) \<Rightarrow> ('f \<Rightarrow> u8 list) \<Rightarrow> ('f \<Rightarrow> u8 list) \<Rightarrow> ('f \<Rightarrow> nat) \<Rightarrow> nat \<Rightarrow> ('w, 'f) DataDirectory \<Rightarrow> bool" where
  "posix_directory catalog remaining written interrupts bound dir \<longleftrightarrow>
     posix_catalog catalog remaining written interrupts bound (dd_files dir) \<and>
     (\<forall>w p f w'. dd_create dir w p = (Inr f, w') \<longrightarrow> written f = [] \<and> interrupts f \<le> bound) \<and>
     (\<forall>w p r w'. dd_create dir w p = (r, w') \<longrightarrow> catalog w \<noteq> None \<longrightarrow> catalog w' = catalog w)"

lemma posix_directoryD:
  assumes "posix_directory catalog remaining written interrupts bound dir"
  shows "posix_catalog catalog remaining written interrupts bound (dd_files dir)"
    and "dd_create dir w p = (Inr f, w') \<Longrightarrow> written f = [] \<and> interrupts f \<le> bound"
    and "dd_create dir w p = (r, w') \<Longrightarrow> catalog w \<noteq> None \<Longrightarrow> catalog w' = catalog w"
  using assms unfolding posix_directory_def by blast+

lemma createEncoded_spec:
  assumes posix: "posix_directory catalog remaining written interrupts bound dir"
    and fuel: "bound + 57 < fuel" "bound + length encoded < fuel" and existing: "catalog w \<noteq> None"
  shows "\<exists>res d w'. createEncodedRunJournalV1 dir fuel path encoded True w = Some (res, d, w') \<and>
    catalog w' = catalog w \<and>
    (if jx_outcome res = JC_CREATED then \<exists>f. d = Some f \<and> written f = encoded else d = None)"
proof -
  note cat = posix_directoryD(1) [OF posix]
  note append = posix_catalogD(7) [OF cat]
  obtain r w1 where new: "dd_create dir w path = (r, w1)"
    by (cases "dd_create dir w path")
  have keep: "catalog w1 = catalog w"
    by (rule posix_directoryD(3) [OF posix new existing])
  show ?thesis
  proof (cases r)
    case (Inl e)
    then show ?thesis
      using new keep by (auto simp: createEncodedRunJournalV1_def createResult_def)
  next
    case (Inr f)
    then have f: "written f = [] @ take 0 encoded" "interrupts f \<le> bound"
      using posix_directoryD(2) [OF posix, of w path f w1] new by auto
    have "interrupts f + (length encoded - 0) < fuel"
      using f(2) fuel by simp
    then obtain wr f1 where
      wrote: "writeFrame (cf_write (dd_files dir)) fuel f encoded 0 = Some (wr, f1)" "interrupts f1 \<le> interrupts f"
        "case wr of Inr _ \<Rightarrow> written f1 = [] @ encoded | Inl (e, n) \<Rightarrow> n \<le> length encoded \<and> written f1 = [] @ take n encoded"
      using writeFrame_spec [OF append _ _ f(1)] by blast
    obtain s f2 where sync: "storageSyncLoop (dd_files dir) fuel f1 = Some (s, f2)" "written f2 = written f1"
      using storageSyncLoop_spec [OF append, of f1 fuel] wrote(2) f(2) fuel by auto
    obtain ds where "syncDirectory (dd_files dir) fuel w1 = Some ds"
      using syncDirectory_total [OF cat fuel(1)] by blast
    then show ?thesis
      using new keep Inr wrote sync
      by (cases wr; cases s; cases ds) (auto simp: createEncodedRunJournalV1_def createResult_def split: prod.splits split del: if_split)
  qed
qed

lemma createWriter_spec:
  assumes posix: "posix_directory catalog remaining written interrupts bound dir"
    and fuel: "bound + 57 < fuel" "bound + unat (rh_maxRunJournalBytes h) < fuel" and existing: "catalog w \<noteq> None"
  shows "\<exists>res wr w'. createRunJournalWriterV1WithHooks dir fuel path h None w = Some (res, wr, w') \<and>
    catalog w' = catalog w \<and>
    (if jx_outcome res = JC_CREATED then \<exists>hf x. wr = Some x \<and> writer_inv written h hf [] x else wr = None)"
proof (cases "encodeRunHeaderV1 h")
  case (Inl e)
  then show ?thesis
    by (simp add: createRunJournalWriterV1WithHooks_def createResult_def)
next
  case (Inr hf)
  have "bound + length hf < fuel"
    using fuel(2) header_fits [OF Inr] by linarith
  from createEncoded_spec [OF posix fuel(1) this existing, of path] obtain res d w' where
    new: "createEncodedRunJournalV1 dir fuel path hf True w = Some (res, d, w')" "catalog w' = catalog w"
      "if jx_outcome res = JC_CREATED then \<exists>f. d = Some f \<and> written f = hf else d = None"
    by blast
  show ?thesis
  proof (cases "jx_outcome res = JC_CREATED")
    case True
    then obtain f where f: "d = Some f" "written f = hf"
      using new(3) by auto
    then show ?thesis
      using new True Inr fresh_writer_inv [OF Inr, of written f]
      by (auto simp: createRunJournalWriterV1WithHooks_def createEncodedRunJournalV1AndRetainDescriptor_def)
  next
    case False
    then show ?thesis
      using new Inr by (simp add: createRunJournalWriterV1WithHooks_def createEncodedRunJournalV1AndRetainDescriptor_def)
  qed
qed

text \<open>A prepared run: its identifier is the next one, its header has the configuration, and its writer stands behind
  the header in an otherwise empty journal at the canonical path.\<close>

definition prepared_run ::
  "('f \<Rightarrow> u8 list) \<Rightarrow> string \<Rightarrow> NewRunConfigurationV1 \<Rightarrow> nat \<Rightarrow> 'f PreparedNewRunJournalV1 \<Rightarrow> bool" where
  "prepared_run written catalogPath configuration n prepared \<longleftrightarrow>
     (let h = pn_header prepared in
      unat (rh_exchangeRunId h) = n \<and> h = configured_header configuration (rh_exchangeRunId h) \<and>
      canonicalJournalPath prepared = deriveCanonicalRunJournalPathV1 catalogPath (rh_exchangeRunId h) \<and>
      (\<exists>hf x. pn_writer prepared = Some x \<and> writer_inv written h hf [] x))"

lemma prepareNewRun_spec:
  assumes posix: "posix_directory catalog remaining written interrupts bound dir"
    and fuel: "bound + 57 < fuel" "bound + unat (nc_maxRunJournalBytes cfg) < fuel"
  shows "\<exists>res outp' w'. prepareNewRunJournalV1 dir fuel path cfg outp w = Some (res, outp', w') \<and>
    last_reserved (catalog w) \<le> last_reserved (catalog w') \<and>
    (if np_outcome res = NP_PREPARED
     then prepared_run written path cfg (Suc (last_reserved (catalog w))) outp' \<and>
       last_reserved (catalog w') = Suc (last_reserved (catalog w))
     else outp' = outp)"
proof (cases "encodeRunHeaderV1 (configured_header cfg 1)")
  case (Inl e)
  then show ?thesis
    by (simp add: prepareNewRunJournalV1_def prepareNewRunJournalV1WithHooks_def preparationResult_def)
next
  case (Inr hf)
  obtain rv runId w1 where rv: "reserveNextExchangeRunIdWithHooks dir fuel w 0 = Some (rv, runId, w1)"
    "last_reserved (catalog w) \<le> last_reserved (catalog w1)"
    "if rv_outcome rv = RV_RESERVED
     then unat runId = Suc (last_reserved (catalog w)) \<and> last_reserved (catalog w1) = unat runId else runId = 0"
    using reserve_run_spec [OF posix_directoryD(1) [OF posix] fuel(1), of w 0] by blast
  show ?thesis
  proof (cases "rv_outcome rv = RV_RESERVED")
    case False
    then show ?thesis
      using Inr rv by (simp add: prepareNewRunJournalV1_def prepareNewRunJournalV1WithHooks_def preparationResult_def)
  next
    case True
    then have ids: "unat runId = Suc (last_reserved (catalog w))" "last_reserved (catalog w1) = unat runId"
      using rv(3) by auto
    have existing: "catalog w1 \<noteq> None"
      using ids by (cases "catalog w1") (auto simp: last_reserved_def [of None])
    let ?h = "configured_header cfg runId"
    have "unat (rh_maxRunJournalBytes ?h) = unat (nc_maxRunJournalBytes cfg)"
      by (simp add: configured_header_def)
    then have "bound + unat (rh_maxRunJournalBytes ?h) < fuel"
      using fuel(2) by simp
    then obtain res wr w' where new:
      "createRunJournalWriterV1WithHooks dir fuel (deriveCanonicalRunJournalPathV1 path runId) ?h None w1 = Some (res, wr, w')"
      "catalog w' = catalog w1"
      "if jx_outcome res = JC_CREATED then \<exists>hf x. wr = Some x \<and> writer_inv written ?h hf [] x else wr = None"
      using createWriter_spec [OF posix fuel(1) _ existing] by blast
    have header: "(configured_header cfg 1)\<lparr>rh_exchangeRunId := runId\<rparr> = ?h" "rh_exchangeRunId ?h = runId"
      by (simp_all add: configured_header_def)
    show ?thesis
      using Inr rv(1,2) True new ids
      by (auto simp: prepareNewRunJournalV1_def prepareNewRunJournalV1WithHooks_def preparationResult_def header
          prepared_run_def Let_def)
  qed
qed

end
