(* ===== verification/Journal_Recovery.thy ===== *)
theory Journal_Recovery
  imports Crash_Recovery
begin

text \<open>
  Preparing a run journal for recovery, \<open>core/storage/src/run_journal_recovery.cpp\<close>: the journal is loaded, the
  bytes of an incomplete last frame are kept aside and cut off the file, and a writer is placed behind the last
  complete command. All file operations go through hooks, which are parameters; \<open>close\<close> reports an error number
  or zero. The loops retry interrupted calls and take fuel. Opening the file is an input: an error number or the
  descriptor. Allocation always succeeds, so the \<open>ENOMEM\<close> branches do not occur.
\<close>

section \<open>Data\<close>

datatype RunJournalRecoveryOutcome = RO_PREPARED | RO_MISSING | RO_IO_FAILURE | RO_CORRUPTION | RO_RECOVERY_REQUIRED

datatype RunJournalRecoveryError =
    JR_NONE | JR_TAIL_PRESERVATION_FAILED | JR_TRUNCATE_FAILED | JR_SEEK_FAILED | JR_SYNC_FAILED | JR_CLOSE_FAILED

record RunJournalRecoveryResult =
  jr_outcome :: RunJournalRecoveryOutcome
  jr_error :: RunJournalRecoveryError
  jr_validation :: RunJournalLoadResult
  jr_systemError :: int
  preservedTailBytes :: "u8 list"

record 'f PreparedRunJournalV1 =
  pj_journal :: LoadedRunJournalV1
  pj_writer :: "'f RunJournalWriterV1 option"

datatype seek_reply = Seeked nat | Seek_failed int
datatype truncate_reply = Truncated | Truncate_failed int

record 'f RunJournalRecoveryHooks =
  hk_readFile :: "'f read_hook"
  hk_seekFile :: "'f \<Rightarrow> nat \<Rightarrow> seek_reply \<times> 'f"
  hk_truncateFile :: "'f \<Rightarrow> nat \<Rightarrow> truncate_reply \<times> 'f"
  hk_syncFile :: "'f sync_hook"
  hk_closeFile :: "'f \<Rightarrow> int"

definition EOVERFLOW :: int where "EOVERFLOW = 75"

text \<open>The largest \<open>off_t\<close>.\<close>

definition OFF_MAX :: nat where "OFF_MAX = 2 ^ 63 - 1"

text \<open>\<open>LoadedRunJournalV1 loaded;\<close> and \<open>RunJournalLoadResult\<close> with their default members.\<close>

definition empty_LoadedRunJournalV1 :: LoadedRunJournalV1 where
  "empty_LoadedRunJournalV1 =
     \<lparr>lj_header = \<lparr>rh_exchangeRunId = 0, rh_behavioralRulesVersion = 0, rh_maxEventsPerCommand = 0,
                  rh_maxRunCommands = 0, rh_maxRunJournalBytes = 0, rh_instruments = []\<rparr>,
      lj_commands = [], validCommittedByteCount = 0\<rparr>"

definition journalRecoveryResult ::
  "RunJournalRecoveryOutcome \<Rightarrow> RunJournalRecoveryError \<Rightarrow> RunJournalLoadResult \<Rightarrow> int \<Rightarrow> u8 list \<Rightarrow>
     RunJournalRecoveryResult" where
  "journalRecoveryResult oc err validation sysError tail =
     \<lparr>jr_outcome = oc, jr_error = err, jr_validation = validation, jr_systemError = sysError,
      preservedTailBytes = tail\<rparr>"

section \<open>Operations on the descriptor\<close>

text \<open>\<open>Inl\<close> is the error number of a failed call.\<close>

fun seekDescriptor :: "'f RunJournalRecoveryHooks \<Rightarrow> nat \<Rightarrow> 'f \<Rightarrow> nat \<Rightarrow> ((int + unit) \<times> 'f) option" where
  "seekDescriptor hooks 0 f offset = None"
| "seekDescriptor hooks (Suc fuel) f offset =
     (case hk_seekFile hooks f offset of
        (Seeked r, f) \<Rightarrow> Some (if r \<noteq> offset then Inl EIO else Inr (), f)
      | (Seek_failed e, f) \<Rightarrow> if e = EINTR then seekDescriptor hooks fuel f offset else Some (Inl e, f))"

fun recovery_readExact ::
  "'f RunJournalRecoveryHooks \<Rightarrow> nat \<Rightarrow> 'f \<Rightarrow> u8 list \<Rightarrow> nat \<Rightarrow> ((int + u8 list) \<times> 'f) option" where
  "recovery_readExact hooks 0 f got n = None"
| "recovery_readExact hooks (Suc fuel) f got n =
     (if length got < n then
        (case hk_readFile hooks f (n - length got) of
           (Bytes bs, f) \<Rightarrow>
             if bs \<noteq> [] \<and> length bs \<le> n - length got then recovery_readExact hooks fuel f (got @ bs) n
             else Some (Inl EIO, f)
         | (Read_failed e, f) \<Rightarrow>
             if e = EINTR then recovery_readExact hooks fuel f got n else Some (Inl e, f))
      else Some (Inr got, f))"

definition syncDescriptor :: "'f RunJournalRecoveryHooks \<Rightarrow> nat \<Rightarrow> 'f \<Rightarrow> ((int + unit) \<times> 'f) option" where
  "syncDescriptor hooks fuel f = syncLoop (hk_syncFile hooks) fuel f"

definition closeAfterFailure ::
  "'f RunJournalRecoveryHooks \<Rightarrow> 'f \<Rightarrow> bool \<Rightarrow> RunJournalRecoveryError \<Rightarrow> RunJournalLoadResult \<Rightarrow> int \<Rightarrow> u8 list \<Rightarrow>
     RunJournalRecoveryResult" where
  "closeAfterFailure hooks f truncationBegan err validation sysError tail =
     (let oc = (if truncationBegan then RO_RECOVERY_REQUIRED else RO_IO_FAILURE) in
      if hk_closeFile hooks f \<noteq> 0 then journalRecoveryResult oc JR_CLOSE_FAILED validation (hk_closeFile hooks f) tail
      else journalRecoveryResult oc err validation sysError tail)"

section \<open>Preparing a journal\<close>

text \<open>The load with the check of the expected run.\<close>

definition checkExpectedRun ::
  "ExchangeRunId option \<Rightarrow> LoadedRunJournalV1 \<Rightarrow> RunJournalLoadResult \<Rightarrow> RunJournalLoadResult" where
  "checkExpectedRun expectedRunId loaded validation =
     (if (lr_outcome validation = LO_VALID \<or> lr_outcome validation = LO_INCOMPLETE_TAIL) \<and>
         (case expectedRunId of None \<Rightarrow> False | Some runId \<Rightarrow> rh_exchangeRunId (lj_header loaded) \<noteq> runId)
      then loadResult LO_CORRUPTION LE_EXCHANGE_RUN_ID_MISMATCH RH_NONE NONE 0 0 0 else validation)"

text \<open>Preserving and cutting off an incomplete tail: the failure, or the preserved bytes.\<close>

definition repairTail ::
  "'f RunJournalRecoveryHooks \<Rightarrow> nat \<Rightarrow> 'f \<Rightarrow> RunJournalLoadResult \<Rightarrow> nat \<Rightarrow>
     ((RunJournalRecoveryResult + u8 list) \<times> 'f) option" where
  "repairTail hooks fuel f validation committedEnd =
     Option.bind (seekDescriptor hooks fuel f committedEnd) (\<lambda>(seeked, f).
     case seeked of
       Inl e \<Rightarrow> Some (Inl (closeAfterFailure hooks f False JR_TAIL_PRESERVATION_FAILED validation e []), f)
     | Inr _ \<Rightarrow>
         Option.bind (recovery_readExact hooks fuel f [] (unat (lr_tailLength validation))) (\<lambda>(tailRead, f).
         case tailRead of
           Inl e \<Rightarrow> Some (Inl (closeAfterFailure hooks f False JR_TAIL_PRESERVATION_FAILED validation e []), f)
         | Inr tail \<Rightarrow>
             (case hk_truncateFile hooks f committedEnd of
                (Truncate_failed e, f) \<Rightarrow>
                  Some (Inl (closeAfterFailure hooks f True JR_TRUNCATE_FAILED validation e tail), f)
              | (Truncated, f) \<Rightarrow>
                  Option.bind (syncDescriptor hooks fuel f) (\<lambda>(synced, f).
                  case synced of
                    Inl e \<Rightarrow> Some (Inl (closeAfterFailure hooks f True JR_SYNC_FAILED validation e tail), f)
                  | Inr _ \<Rightarrow> Some (Inr tail, f)))))"

text \<open>The last component is the file as the call leaves it.\<close>

definition prepareLoaded ::
  "'f RunJournalRecoveryHooks \<Rightarrow> nat \<Rightarrow> 'f \<Rightarrow> LoadedRunJournalV1 \<Rightarrow> RunJournalLoadResult \<Rightarrow>
     'f PreparedRunJournalV1 \<Rightarrow> (RunJournalRecoveryResult \<times> 'f PreparedRunJournalV1 \<times> 'f) option" where
  "prepareLoaded hooks fuel f loaded validation outp =
     (if unat (validCommittedByteCount loaded) > OFF_MAX
      then Some (closeAfterFailure hooks f False JR_SEEK_FAILED validation EOVERFLOW [], outp, f)
      else
      let committedEnd = unat (validCommittedByteCount loaded);
          incomplete = (lr_outcome validation = LO_INCOMPLETE_TAIL) in
      Option.bind (if incomplete then repairTail hooks fuel f validation committedEnd else Some (Inr [], f))
        (\<lambda>(repaired, f).
      case repaired of
        Inl failure \<Rightarrow> Some (failure, outp, f)
      | Inr tail \<Rightarrow>
          Option.bind (seekDescriptor hooks fuel f committedEnd) (\<lambda>(seeked, f).
          case seeked of
            Inl e \<Rightarrow> Some (closeAfterFailure hooks f incomplete JR_SEEK_FAILED validation e tail, outp, f)
          | Inr _ \<Rightarrow>
              let writer = makeRecoveredRunJournalWriterV1 f (lj_header loaded) (of_nat (length (lj_commands loaded)))
                    (validCommittedByteCount loaded) (of_nat (length (lj_commands loaded)) + 1) in
              Some (journalRecoveryResult RO_PREPARED JR_NONE validation 0 tail,
                    \<lparr>pj_journal = loaded, pj_writer = Some writer\<rparr>, f))))"

definition prepareRunJournalV1WithHooks ::
  "int + 'f \<Rightarrow> 'f RunJournalRecoveryHooks \<Rightarrow> nat \<Rightarrow> 'f PreparedRunJournalV1 \<Rightarrow> ExchangeRunId option \<Rightarrow>
     (RunJournalRecoveryResult \<times> 'f PreparedRunJournalV1 \<times> 'f option) option" where
  "prepareRunJournalV1WithHooks descriptor hooks fuel outp expectedRunId =
     (case descriptor of
        Inl e \<Rightarrow>
          if e = ENOENT
          then Some (journalRecoveryResult RO_MISSING JR_NONE (loadResult LO_MISSING LE_NONE RH_NONE NONE e 0 0) e [],
                     outp, None)
          else Some (journalRecoveryResult RO_IO_FAILURE JR_NONE (loadResult LO_IO_FAILURE LE_NONE RH_NONE NONE 0 0 0) e [],
                     outp, None)
      | Inr f \<Rightarrow>
          Option.bind (loadRunJournalV1FromDescriptorWithHooks (hk_readFile hooks) fuel f empty_LoadedRunJournalV1)
            (\<lambda>(validation, loaded, f).
          let validation = checkExpectedRun expectedRunId loaded validation in
          if lr_outcome validation \<noteq> LO_VALID \<and> lr_outcome validation \<noteq> LO_INCOMPLETE_TAIL then
            (if hk_closeFile hooks f \<noteq> 0
             then Some (journalRecoveryResult RO_IO_FAILURE JR_CLOSE_FAILED validation (hk_closeFile hooks f) [], outp, Some f)
             else Some (journalRecoveryResult
                    (if lr_outcome validation = LO_CORRUPTION then RO_CORRUPTION else RO_IO_FAILURE) JR_NONE validation
                    (lr_systemError validation) [], outp, Some f))
          else
            Option.bind (prepareLoaded hooks fuel f loaded validation outp)
              (\<lambda>(res, outp, f). Some (res, outp, Some f))))"

section \<open>Files\<close>

text \<open>What POSIX documents of the calls: a file has contents and a position; reads continue at the position and are
  only ever interrupted, which happens a bounded number of times; a seek moves the position, a truncation to a
  shorter length cuts the contents and a sync changes nothing; each of these may fail and then leaves the contents.\<close>

definition posix_file ::
  "('f \<Rightarrow> u8 list) \<Rightarrow> ('f \<Rightarrow> nat) \<Rightarrow> ('f \<Rightarrow> nat) \<Rightarrow> 'f RunJournalRecoveryHooks \<Rightarrow> bool" where
  "posix_file contents position interrupts hooks \<longleftrightarrow>
     posix_read (\<lambda>f. drop (position f) (contents f)) interrupts (hk_readFile hooks) \<and>
     (\<forall>f n. contents (snd (hk_readFile hooks f n)) = contents f \<and>
        interrupts (snd (hk_readFile hooks f n)) \<le> interrupts f) \<and>
     (\<forall>f n. case hk_seekFile hooks f n of
        (Seeked r, f') \<Rightarrow> r = n \<and> position f' = n \<and> contents f' = contents f \<and> interrupts f' \<le> interrupts f
      | (Seek_failed e, f') \<Rightarrow>
          contents f' = contents f \<and> (if e = EINTR then interrupts f' < interrupts f else interrupts f' \<le> interrupts f)) \<and>
     (\<forall>f n. n \<le> length (contents f) \<longrightarrow>
        (case hk_truncateFile hooks f n of
           (Truncated, f') \<Rightarrow> contents f' = take n (contents f) \<and> interrupts f' \<le> interrupts f
         | (Truncate_failed e, f') \<Rightarrow> contents f' = contents f \<and> interrupts f' \<le> interrupts f)) \<and>
     (\<forall>f. case hk_syncFile hooks f of
        (reply, f') \<Rightarrow>
          contents f' = contents f \<and>
          (if reply = Sync_failed EINTR then interrupts f' < interrupts f else interrupts f' \<le> interrupts f))"

text \<open>Hooks that fail only by being interrupted.\<close>

definition reliable :: "'f RunJournalRecoveryHooks \<Rightarrow> bool" where
  "reliable hooks \<longleftrightarrow>
     (\<forall>f n e f'. hk_seekFile hooks f n = (Seek_failed e, f') \<longrightarrow> e = EINTR) \<and>
     (\<forall>f n e f'. hk_truncateFile hooks f n \<noteq> (Truncate_failed e, f')) \<and>
     (\<forall>f reply f'. hk_syncFile hooks f = (reply, f') \<longrightarrow> reply = Synced \<or> reply = Sync_failed EINTR)"

lemma posix_fileD:
  assumes "posix_file contents position interrupts hooks"
  shows "posix_read (\<lambda>f. drop (position f) (contents f)) interrupts (hk_readFile hooks)"
    and "contents (snd (hk_readFile hooks f n)) = contents f \<and> interrupts (snd (hk_readFile hooks f n)) \<le> interrupts f"
    and "hk_seekFile hooks f n = (Seeked r, f') \<Longrightarrow>
      r = n \<and> position f' = n \<and> contents f' = contents f \<and> interrupts f' \<le> interrupts f"
    and "hk_seekFile hooks f n = (Seek_failed e, f') \<Longrightarrow>
      contents f' = contents f \<and> interrupts f' \<le> interrupts f \<and> (e = EINTR \<longrightarrow> interrupts f' < interrupts f)"
    and "n \<le> length (contents f) \<Longrightarrow> hk_truncateFile hooks f n = (Truncated, f') \<Longrightarrow>
      contents f' = take n (contents f) \<and> interrupts f' \<le> interrupts f"
    and "n \<le> length (contents f) \<Longrightarrow> hk_truncateFile hooks f n = (Truncate_failed e, f') \<Longrightarrow>
      contents f' = contents f \<and> interrupts f' \<le> interrupts f"
    and "hk_syncFile hooks f = (reply, f') \<Longrightarrow>
      contents f' = contents f \<and> interrupts f' \<le> interrupts f \<and>
      (reply = Sync_failed EINTR \<longrightarrow> interrupts f' < interrupts f)"
proof -
  note parts = assms [unfolded posix_file_def]
  show "posix_read (\<lambda>f. drop (position f) (contents f)) interrupts (hk_readFile hooks)"
    by (rule conjunct1 [OF parts])
  note parts = conjunct2 [OF parts]
  show "contents (snd (hk_readFile hooks f n)) = contents f \<and> interrupts (snd (hk_readFile hooks f n)) \<le> interrupts f"
    by (rule conjunct1 [OF parts, rule_format])
  note parts = conjunct2 [OF parts]
  note seek = conjunct1 [OF parts, THEN spec [of _ f], THEN spec [of _ n]]
  show "hk_seekFile hooks f n = (Seeked r, f') \<Longrightarrow>
      r = n \<and> position f' = n \<and> contents f' = contents f \<and> interrupts f' \<le> interrupts f"
    "hk_seekFile hooks f n = (Seek_failed e, f') \<Longrightarrow>
      contents f' = contents f \<and> interrupts f' \<le> interrupts f \<and> (e = EINTR \<longrightarrow> interrupts f' < interrupts f)"
    using seek by (auto split: if_splits)
  note parts = conjunct2 [OF parts]
  note truncate = conjunct1 [OF parts, THEN spec [of _ f], THEN spec [of _ n]]
  show "n \<le> length (contents f) \<Longrightarrow> hk_truncateFile hooks f n = (Truncated, f') \<Longrightarrow>
      contents f' = take n (contents f) \<and> interrupts f' \<le> interrupts f"
    "n \<le> length (contents f) \<Longrightarrow> hk_truncateFile hooks f n = (Truncate_failed e, f') \<Longrightarrow>
      contents f' = contents f \<and> interrupts f' \<le> interrupts f"
    using truncate by auto
  show "hk_syncFile hooks f = (reply, f') \<Longrightarrow>
      contents f' = contents f \<and> interrupts f' \<le> interrupts f \<and>
      (reply = Sync_failed EINTR \<longrightarrow> interrupts f' < interrupts f)"
    using conjunct2 [OF parts, rule_format, of f] by (auto split: if_splits)
qed

text \<open>Loading only reads, so it keeps whatever a read keeps.\<close>

definition keeps :: "('f \<Rightarrow> bool) \<Rightarrow> ('a \<times> 'f) option \<Rightarrow> bool" where
  "keeps P m \<longleftrightarrow> (\<forall>x f. m = Some (x, f) \<longrightarrow> P f)"

named_theorems keeps

lemma keeps_simps [simp]: "keeps P None" "keeps P (Some (x, f)) \<longleftrightarrow> P f"
  by (auto simp: keeps_def)

lemma keeps_bind [keeps]:
  "keeps P m \<Longrightarrow> (\<And>x f. P f \<Longrightarrow> keeps Q (k (x, f))) \<Longrightarrow> keeps Q (Option.bind m k)"
  by (cases m) (auto simp: keeps_def)

lemma keeps_readSome [keeps]:
  assumes "\<And>f n. P f \<Longrightarrow> P (snd (readFile f n))"
  shows "P f \<Longrightarrow> keeps P (readSome readFile fuel f n)"
proof (induction fuel arbitrary: f)
  case (Suc fuel)
  have "P (snd (readFile f n))"
    using assms Suc.prems by blast
  then show ?case
    using Suc by (cases "readFile f n") (auto split: read_reply.splits)
qed simp

lemma keeps_readExact [keeps]:
  assumes keep: "\<And>f n. P f \<Longrightarrow> P (snd (readFile f n))" and "P f"
  shows "keeps P (readExact readFile fuel f n)"
proof -
  have "P f \<Longrightarrow> keeps P (readExact_from readFile fuel f got n)" for f got
  proof (induction "n - length got" arbitrary: f got rule: less_induct)
    case less
    have some: "P f1" if "readSome readFile fuel f (n - length got) = Some (r1, f1)" for r1 f1
      using keeps_readSome [where P = P, OF keep less.prems] that by (simp add: keeps_def)
    show ?case
      using less.hyps less.prems some
      by (subst readExact_from.simps) (auto split: option.splits simp: neq_Nil_conv)
  qed
  then show ?thesis
    using assms(2) by (simp add: readExact_def)
qed

lemma keeps_readCommand [keeps]:
  assumes keep: "\<And>f n. P f \<Longrightarrow> P (snd (readFile f n))" and "P f"
  shows "keeps P (readCommand readFile fuel d expected f)"
proof -
  have "keeps P (readFrame readFile fuel d expected envelope f)" if "P f" for f envelope
    unfolding readFrame_def Let_def
    using that by (auto split: sum.splits intro!: keeps_bind [OF keeps_readExact [where P = P, OF keep]])
  then show ?thesis
    unfolding readCommand_def Let_def using assms(2)
    by (auto intro!: keeps_bind [OF keeps_readSome [where P = P, OF keep]]
        keeps_bind [OF keeps_readExact [where P = P, OF keep]])
qed

lemma keeps_readCommands:
  assumes keep: "\<And>f n. P f \<Longrightarrow> P (snd (readFile f n))"
  shows "P f \<Longrightarrow> keeps (P \<circ> snd) (readCommands readFile fuel d expected f)"
proof (induction "unat (rh_maxRunCommands (lj_header d)) - length (lj_commands d)" arbitrary: d expected f
    rule: less_induct)
  case less
  show ?case
  proof (cases "readCommand readFile fuel d expected f")
    case None
    then show ?thesis by (simp add: readCommands.simps)
  next
    case (Some x)
    obtain r f1 where x: "x = (r, f1)" by (cases x)
    have f1: "P f1"
      using keeps_readCommand [where P = P and readFile = readFile, OF keep less.prems, where fuel = fuel and d = d and expected = expected] Some
      by (simp add: x)
    show ?thesis
    proof (cases r)
      case (Inl y)
      then show ?thesis
        using Some f1 by (subst readCommands.simps) (simp add: x)
    next
      case (Inr c)
      have "length (lj_commands d) < unat (rh_maxRunCommands (lj_header d))"
        using Some unfolding x Inr by (rule readCommand_room)
      then show ?thesis
        using Some f1 Inr less.hyps [OF _ f1]
        by (subst readCommands.simps) (auto simp: x split: prod.splits)
    qed
  qed
qed

lemma load_keeps:
  assumes keep: "\<And>f n. P f \<Longrightarrow> P (snd (readFile f n))" and "P f"
    and load: "loadRunJournalV1FromDescriptorWithHooks readFile fuel f outp = Some (res, d, f')"
  shows "P f'"
proof -
  have header: "keeps P (readHeader readFile fuel f)"
    unfolding readHeader_def Let_def using assms(2)
    by (auto split: sum.splits intro!: keeps_bind [OF keeps_readExact [where P = P, OF keep]])
  have "keeps (P \<circ> snd) (loadRunJournalV1FromDescriptorWithHooks readFile fuel f outp)"
    unfolding loadRunJournalV1FromDescriptorWithHooks_def readJournal_def
    by (auto split: sum.splits intro!: keeps_bind [where P = "P \<circ> snd"] keeps_bind [OF header]
        keeps_readCommands [where P = P, OF keep])
  then show ?thesis
    using load by simp
qed

section \<open>The steps of the repair\<close>

lemma seekDescriptor_spec:
  assumes "posix_file contents position interrupts hooks" and "interrupts f < fuel"
  shows "\<exists>r f'. seekDescriptor hooks fuel f n = Some (r, f') \<and> contents f' = contents f \<and> interrupts f' \<le> interrupts f \<and>
    (r = Inr () \<longrightarrow> position f' = n) \<and> (reliable hooks \<longrightarrow> r = Inr ())"
  using assms(2)
proof (induction fuel arbitrary: f)
  case (Suc fuel)
  obtain reply f1 where reply: "hk_seekFile hooks f n = (reply, f1)"
    by (cases "hk_seekFile hooks f n")
  show ?case
  proof (cases reply)
    case (Seeked r)
    then show ?thesis
      using reply posix_fileD(3) [OF assms(1), of f n r f1] by simp
  next
    case (Seek_failed e)
    then show ?thesis
      using reply posix_fileD(4) [OF assms(1), of f n e f1] Suc.IH [of f1] Suc.prems by (fastforce simp: reliable_def)
  qed
qed simp

lemma recovery_readExact_spec:
  assumes "posix_file contents position interrupts hooks" and "interrupts f + (n - length got) < fuel"
    and "length got \<le> n" and "n - length got \<le> length (drop (position f) (contents f))"
  shows "\<exists>f'. recovery_readExact hooks fuel f got n =
      Some (Inr (got @ take (n - length got) (drop (position f) (contents f))), f') \<and>
    contents f' = contents f \<and> interrupts f' \<le> interrupts f"
  using assms(2-)
proof (induction fuel arbitrary: f got)
  case (Suc fuel)
  let ?rem = "\<lambda>f. drop (position f) (contents f)"
  show ?case
  proof (cases "length got < n")
    case True
    let ?m = "n - length got"
    have m: "0 < ?m" using True by simp
    obtain reply f1 where reply: "hk_readFile hooks f ?m = (reply, f1)"
      by (cases "hk_readFile hooks f ?m")
    have keep: "contents f1 = contents f"
      using posix_fileD(2) [OF assms(1), of f ?m] reply by simp
    note step = posix_fileD(1) [OF assms(1), unfolded posix_read_def, rule_format, OF m, of f, unfolded reply]
    show ?thesis
    proof (cases reply)
      case (Bytes bs)
      then have bs: "length bs \<le> ?m" "bs = take (length bs) (?rem f)" "bs \<noteq> []"
          "?rem f1 = drop (length bs) (?rem f)" "interrupts f1 \<le> interrupts f"
        using step Suc.prems(3) m by auto
      have "0 < length bs"
        using bs(3) by simp
      then have "\<exists>f'. recovery_readExact hooks fuel f1 (got @ bs) n =
          Some (Inr ((got @ bs) @ take (n - length (got @ bs)) (?rem f1)), f') \<and>
          contents f' = contents f1 \<and> interrupts f' \<le> interrupts f1"
        using Suc.prems(1-3) bs(1,5) m arg_cong [OF bs(4), of length]
        by (intro Suc.IH; simp only: length_append length_drop; linarith)
      moreover have "bs @ take (n - length (got @ bs)) (?rem f1) = take ?m (?rem f)"
        using first_rest [OF bs(2,1)] bs(4) by simp
      ultimately show ?thesis
        using True reply Bytes bs keep by auto
    next
      case (Read_failed e)
      then have "e = EINTR" "?rem f1 = ?rem f" "interrupts f1 < interrupts f"
        using step by auto
      then show ?thesis
        using Suc.IH [of f1 got] Suc.prems True reply Read_failed keep by fastforce
    qed
  next
    case False
    then show ?thesis
      using Suc.prems by simp
  qed
qed simp

lemma syncDescriptor_spec:
  assumes "posix_file contents position interrupts hooks" and "interrupts f < fuel"
  shows "\<exists>r f'. syncDescriptor hooks fuel f = Some (r, f') \<and> contents f' = contents f \<and> interrupts f' \<le> interrupts f \<and>
    (reliable hooks \<longrightarrow> r = Inr ())"
  unfolding syncDescriptor_def using assms(2)
proof (induction fuel arbitrary: f)
  case (Suc fuel)
  obtain reply f1 where reply: "hk_syncFile hooks f = (reply, f1)"
    by (cases "hk_syncFile hooks f")
  note step = posix_fileD(7) [OF assms(1) reply]
  have ok: "reliable hooks \<longrightarrow> reply = Synced \<or> reply = Sync_failed EINTR"
    using reply unfolding reliable_def by blast
  show ?case
  proof (cases "reply = Sync_failed EINTR")
    case True
    then show ?thesis
      using step Suc.IH [of f1] Suc.prems reply by fastforce
  next
    case False
    then show ?thesis
      using step ok reply by (cases reply) auto
  qed
qed simp

lemma repairTail_spec:
  assumes posix: "posix_file contents position interrupts hooks"
    and fuel: "interrupts f + unat (lr_tailLength v) < fuel"
    and n: "n \<le> length (contents f)" "unat (lr_tailLength v) = length (contents f) - n"
  shows "\<exists>r f'. repairTail hooks fuel f v n = Some (r, f') \<and> interrupts f' \<le> interrupts f \<and>
    (case r of
       Inr tail \<Rightarrow> tail = drop n (contents f) \<and> contents f' = take n (contents f)
     | Inl res \<Rightarrow>
         jr_outcome res = RO_IO_FAILURE \<and> contents f' = contents f \<or>
         jr_outcome res = RO_RECOVERY_REQUIRED \<and> preservedTailBytes res = drop n (contents f) \<and>
           (contents f' = contents f \<or> contents f' = take n (contents f))) \<and>
    (reliable hooks \<longrightarrow> (\<exists>tail. r = Inr tail))"
proof -
  let ?len = "unat (lr_tailLength v)"
  have close: "jr_outcome (closeAfterFailure hooks g b err v e t) = (if b then RO_RECOVERY_REQUIRED else RO_IO_FAILURE)"
    "preservedTailBytes (closeAfterFailure hooks g b err v e t) = t" for g b err e t
    by (simp_all add: closeAfterFailure_def journalRecoveryResult_def Let_def)
  obtain r f1 where seek: "seekDescriptor hooks fuel f n = Some (r, f1)" "contents f1 = contents f"
    "interrupts f1 \<le> interrupts f" "r = Inr () \<longrightarrow> position f1 = n" "reliable hooks \<longrightarrow> r = Inr ()"
    using seekDescriptor_spec [OF posix, of f fuel n] fuel by auto
  show ?thesis
  proof (cases r)
    case (Inl e)
    then show ?thesis
      using seek by (auto simp: repairTail_def close)
  next
    case (Inr u)
    have pos: "position f1 = n"
      using seek(4) Inr by simp
    have fuel1: "interrupts f1 + (?len - length []) < fuel"
      using fuel seek(3) by simp
    obtain f2 where read: "recovery_readExact hooks fuel f1 [] ?len = Some (Inr (drop n (contents f)), f2)"
      "contents f2 = contents f" "interrupts f2 \<le> interrupts f"
      using recovery_readExact_spec [OF posix fuel1] seek(2,3) pos n by auto
    obtain reply f3 where trunc: "hk_truncateFile hooks f2 n = (reply, f3)"
      by (cases "hk_truncateFile hooks f2 n")
    show ?thesis
    proof (cases reply)
      case (Truncate_failed e)
      then show ?thesis
        using posix_fileD(6) [OF posix, of n f2 e f3] n seek read trunc Inr
        by (auto simp: repairTail_def close reliable_def)
    next
      case Truncated
      then have f3: "contents f3 = take n (contents f)" "interrupts f3 \<le> interrupts f"
        using posix_fileD(5) [OF posix, of n f2 f3] n read trunc by auto
      obtain r4 f4 where sync: "syncDescriptor hooks fuel f3 = Some (r4, f4)" "contents f4 = contents f3"
        "interrupts f4 \<le> interrupts f3" "reliable hooks \<longrightarrow> r4 = Inr ()"
        using syncDescriptor_spec [OF posix, of f3 fuel] fuel f3 by auto
      show ?thesis
        using seek read trunc Truncated f3 sync Inr by (cases r4) (auto simp: repairTail_def close)
    qed
  qed
qed

section \<open>The prepared journal\<close>

lemma journal_fits: "journal_of h hf cs \<Longrightarrow> length (journal_bytes hf cs) \<le> unat (rh_maxRunJournalBytes h)"
proof (cases cs rule: rev_cases)
  case Nil
  moreover assume "journal_of h hf cs"
  ultimately show ?thesis
    using header_fits by (simp add: journal_of_def journal_bytes_def)
next
  case (snoc ys y)
  moreover assume "journal_of h hf cs"
  ultimately show ?thesis
    by (cases y) (auto simp: journal_of_def next_commands_snoc next_command_def length_journal_bytes frames_length_def)
qed

lemma complete_within_prefix: "\<exists>rest. cs = complete_within k cs @ rest"
  by (induction k cs rule: complete_within.induct) auto

lemma recovered_writer_inv:
  assumes "journal_of h hf cs" and "contents f = journal_bytes hf cs"
  shows "writer_inv contents h hf cs (makeRecoveredRunJournalWriterV1 f h (of_nat (length cs))
    (of_nat (length (journal_bytes hf cs))) (of_nat (length cs) + 1))"
  using assms journal_fits [OF assms(1)] by (simp add: writer_inv_def makeRecoveredRunJournalWriterV1_def)

lemma take_journal_bytes:
  assumes "length hf \<le> k"
  shows "take (length (journal_bytes hf (complete_within (k - length hf) cs))) (take k (journal_bytes hf cs)) =
    journal_bytes hf (complete_within (k - length hf) cs)"
proof -
  let ?w = "complete_within (k - length hf) cs"
  obtain rest where "cs = ?w @ rest"
    using complete_within_prefix by blast
  then have "journal_bytes hf cs = journal_bytes hf ?w @ concat (map snd rest)"
    by (metis append.assoc concat_append journal_bytes_def map_append)
  moreover have "length (journal_bytes hf ?w) \<le> k"
    using frames_length_complete [of "k - length hf" cs] assms by (simp add: length_journal_bytes)
  ultimately show ?thesis
    by simp
qed

definition prepared_ok ::
  "('f \<Rightarrow> u8 list) \<Rightarrow> ('f \<Rightarrow> nat) \<Rightarrow> RunHeaderV1 \<Rightarrow> u8 list \<Rightarrow> (JournalCommandV1 \<times> u8 list) list \<Rightarrow>
     'f PreparedRunJournalV1 \<Rightarrow> bool" where
  "prepared_ok contents position h hf cs prepared \<longleftrightarrow>
     pj_journal prepared =
       \<lparr>lj_header = h, lj_commands = map fst cs, validCommittedByteCount = of_nat (length (journal_bytes hf cs))\<rparr> \<and>
     (\<exists>w. pj_writer prepared = Some w \<and> writer_inv contents h hf cs w \<and>
        position (w_file w) = length (contents (w_file w)))"

lemma prepareLoaded_spec:
  assumes posix: "posix_file contents position interrupts hooks"
    and fuel: "interrupts f + length (contents f) < fuel" and j: "journal_of h hf cs"
    and c: "take n (contents f) = journal_bytes hf cs" and n: "n \<le> length (contents f)"
      "n = length (journal_bytes hf cs)" "n \<le> OFF_MAX"
    and v: "v = (if n = length (contents f) then loadResult LO_VALID LE_NONE RH_NONE NONE 0 0 0
                 else incompleteTail (of_nat n) (length (contents f) - n))"
    and big: "length (contents f) < 2 ^ 64"
  shows "\<exists>res outp' f'. prepareLoaded hooks fuel f
      \<lparr>lj_header = h, lj_commands = map fst cs, validCommittedByteCount = of_nat n\<rparr> v outp = Some (res, outp', f') \<and>
    (case jr_outcome res of
       RO_PREPARED \<Rightarrow> prepared_ok contents position h hf cs outp' \<and> preservedTailBytes res = drop n (contents f)
     | RO_IO_FAILURE \<Rightarrow> outp' = outp \<and> contents f' = contents f
     | RO_RECOVERY_REQUIRED \<Rightarrow> outp' = outp \<and> preservedTailBytes res = drop n (contents f) \<and>
         (contents f' = contents f \<or> contents f' = take n (contents f))
     | _ \<Rightarrow> False) \<and>
    (reliable hooks \<longrightarrow> jr_outcome res = RO_PREPARED)"
proof -
  let ?loaded = "\<lparr>lj_header = h, lj_commands = map fst cs, validCommittedByteCount = of_nat n :: u64\<rparr>"
  have un: "unat (of_nat n :: u64) = n"
    using n big by (simp add: unat_of_nat)
  have close: "jr_outcome (closeAfterFailure hooks g b err v e t) = (if b then RO_RECOVERY_REQUIRED else RO_IO_FAILURE)"
    "preservedTailBytes (closeAfterFailure hooks g b err v e t) = t" for g b err e t
    by (simp_all add: closeAfterFailure_def journalRecoveryResult_def Let_def)
  define incomplete where "incomplete = (lr_outcome v = LO_INCOMPLETE_TAIL)"
  have inc: "incomplete \<longleftrightarrow> n \<noteq> length (contents f)"
    by (simp add: incomplete_def v loadResult_def incompleteTail_def)
  obtain r f1 where rep: "(if incomplete then repairTail hooks fuel f v n else Some (Inr [], f)) = Some (r, f1)"
    "interrupts f1 \<le> interrupts f"
    "case r of
       Inr tail \<Rightarrow> tail = drop n (contents f) \<and> contents f1 = take n (contents f)
     | Inl res \<Rightarrow>
         jr_outcome res = RO_IO_FAILURE \<and> contents f1 = contents f \<or>
         jr_outcome res = RO_RECOVERY_REQUIRED \<and> preservedTailBytes res = drop n (contents f) \<and>
           (contents f1 = contents f \<or> contents f1 = take n (contents f))"
    "reliable hooks \<longrightarrow> (\<exists>tail. r = Inr tail)"
  proof (cases incomplete)
    case True
    then have len: "unat (lr_tailLength v) = length (contents f) - n"
      using inc big by (simp add: v incompleteTail_def loadResult_def unat_of_nat)
    then have "interrupts f + unat (lr_tailLength v) < fuel"
      using fuel by linarith
    from repairTail_spec [OF posix this n(1) len] show thesis
      using that True by auto
  next
    case False
    then show thesis
      using that inc by auto
  qed
  show ?thesis
  proof (cases r)
    case (Inl res)
    have "prepareLoaded hooks fuel f ?loaded v outp = Some (res, outp, f1)"
      using n(3) Inl by (simp add: prepareLoaded_def Let_def un rep(1) flip: incomplete_def)
    then show ?thesis
      using rep(3,4) Inl by auto
  next
    case (Inr tail)
    then have tail: "tail = drop n (contents f)" "contents f1 = journal_bytes hf cs"
      using rep(3) c by auto
    obtain s f2 where seek: "seekDescriptor hooks fuel f1 n = Some (s, f2)" "contents f2 = contents f1"
      "s = Inr () \<longrightarrow> position f2 = n" "reliable hooks \<longrightarrow> s = Inr ()"
      using seekDescriptor_spec [OF posix, of f1 fuel n] fuel rep(2) by auto
    show ?thesis
    proof (cases s)
      case Inl2: (Inl e)
      have "contents f = take n (contents f)" if "\<not> incomplete"
        using that inc by simp
      moreover have "prepareLoaded hooks fuel f ?loaded v outp =
          Some (closeAfterFailure hooks f2 incomplete JR_SEEK_FAILED v e tail, outp, f2)"
        using n(3) Inr Inl2 seek(1) by (simp add: prepareLoaded_def Let_def un rep(1) flip: incomplete_def)
      ultimately show ?thesis
        using seek(2,4) Inl2 tail c by (cases incomplete) (auto simp: close)
    next
      case (Inr u)
      then have "prepared_ok contents position h hf cs \<lparr>pj_journal = ?loaded,
          pj_writer = Some (makeRecoveredRunJournalWriterV1 f2 h (of_nat (length cs)) (of_nat n) (of_nat (length cs) + 1))\<rparr>"
        using recovered_writer_inv [OF j, of contents f2] seek tail n(2)
        by (simp add: prepared_ok_def makeRecoveredRunJournalWriterV1_def)
      moreover have "prepareLoaded hooks fuel f ?loaded v outp =
          Some (journalRecoveryResult RO_PREPARED JR_NONE v 0 tail, \<lparr>pj_journal = ?loaded, pj_writer =
            Some (makeRecoveredRunJournalWriterV1 f2 h (of_nat (length cs)) (of_nat n) (of_nat (length cs) + 1))\<rparr>, f2)"
        using n(3) \<open>r = Inr tail\<close> Inr seek(1)
        by (simp add: prepareLoaded_def Let_def un rep(1) flip: incomplete_def)
      ultimately show ?thesis
        using tail by (auto simp: journalRecoveryResult_def)
    qed
  qed
qed

lemma prepare_spec:
  assumes posix: "posix_file contents position interrupts hooks" and pos: "position f = 0"
    and fuel: "interrupts f + length (contents f) < fuel" and j: "journal_of h hf cs"
    and c: "contents f = take k (journal_bytes hf cs)" and k: "length hf \<le> k" "k \<le> length (journal_bytes hf cs)"
    and small: "length (contents f) \<le> OFF_MAX"
    and expected: "expectedRunId = None \<or> expectedRunId = Some (rh_exchangeRunId h)"
  defines "whole \<equiv> complete_within (k - length hf) cs"
  defines "n \<equiv> length (journal_bytes hf whole)"
  shows "\<exists>res outp' f'.
    prepareRunJournalV1WithHooks (Inr f) hooks fuel outp expectedRunId = Some (res, outp', Some f') \<and>
    (case jr_outcome res of
       RO_PREPARED \<Rightarrow> prepared_ok contents position h hf whole outp' \<and> preservedTailBytes res = drop n (contents f)
     | RO_IO_FAILURE \<Rightarrow> outp' = outp \<and> contents f' = contents f
     | RO_RECOVERY_REQUIRED \<Rightarrow> outp' = outp \<and> preservedTailBytes res = drop n (contents f) \<and>
         (contents f' = contents f \<or> contents f' = take n (contents f))
     | _ \<Rightarrow> False) \<and>
    (reliable hooks \<longrightarrow> jr_outcome res = RO_PREPARED)"
proof -
  have len: "length (contents f) = k"
    using c k by simp
  have n: "n \<le> k"
    using frames_length_complete [of "k - length hf" cs] k(1) unfolding n_def whole_def by (simp add: length_journal_bytes)
  have rem: "drop (position f) (contents f) = take k (journal_bytes hf cs)"
    using pos c by simp
  define v where "v = (if n = k then loadResult LO_VALID LE_NONE RH_NONE NONE 0 0 0 else incompleteTail (of_nat n) (k - n))"
  let ?d = "\<lparr>lj_header = h, lj_commands = map fst whole, validCommittedByteCount = of_nat n :: u64\<rparr>"
  obtain f1 where load: "loadRunJournalV1FromDescriptorWithHooks (hk_readFile hooks) fuel f empty_LoadedRunJournalV1 =
      Some (v, ?d, f1)"
    using load_prefix [OF posix_fileD(1) [OF posix] _ j rem k, of fuel empty_LoadedRunJournalV1] fuel
    unfolding v_def n_def whole_def by auto
  have keep: "contents f1 = contents f \<and> interrupts f1 \<le> interrupts f"
    by (rule load_keeps [where P = "\<lambda>g. contents g = contents f \<and> interrupts g \<le> interrupts f", OF _ _ load])
      (use posix_fileD(2) [OF posix] in \<open>auto intro: le_trans\<close>)
  have prefix: "journal_of h hf whole"
    using complete_within_prefix [of cs "k - length hf"] j journal_of_prefix unfolding whole_def by metis
  have run: "checkExpectedRun expectedRunId ?d v = v" "lr_outcome v = LO_VALID \<or> lr_outcome v = LO_INCOMPLETE_TAIL"
    using expected by (auto simp: v_def checkExpectedRun_def loadResult_def incompleteTail_def)
  have big: "length (contents f1) < 2 ^ 64" "n \<le> OFF_MAX"
    using small keep n len by (auto simp: OFF_MAX_def)
  have fuel1: "interrupts f1 + length (contents f1) < fuel"
    using fuel keep by simp
  have taken: "take n (contents f1) = journal_bytes hf whole" "n \<le> length (contents f1)"
    using keep c k take_journal_bytes [OF k(1), of cs] n unfolding n_def whole_def by auto
  have v_eq: "v = (if n = length (contents f1) then loadResult LO_VALID LE_NONE RH_NONE NONE 0 0 0
      else incompleteTail (of_nat n) (length (contents f1) - n))"
    using keep len by (simp add: v_def)
  obtain res outp' f' where p: "prepareLoaded hooks fuel f1 ?d v outp = Some (res, outp', f')"
    "case jr_outcome res of
       RO_PREPARED \<Rightarrow> prepared_ok contents position h hf whole outp' \<and> preservedTailBytes res = drop n (contents f1)
     | RO_IO_FAILURE \<Rightarrow> outp' = outp \<and> contents f' = contents f1
     | RO_RECOVERY_REQUIRED \<Rightarrow> outp' = outp \<and> preservedTailBytes res = drop n (contents f1) \<and>
         (contents f' = contents f1 \<or> contents f' = take n (contents f1))
     | _ \<Rightarrow> False"
    "reliable hooks \<longrightarrow> jr_outcome res = RO_PREPARED"
    using prepareLoaded_spec [where contents = contents and f = f1 and outp = outp, OF posix fuel1 prefix taken
        n_def [THEN meta_eq_to_obj_eq] big(2) v_eq big(1)] by blast
  have "prepareRunJournalV1WithHooks (Inr f) hooks fuel outp expectedRunId = Some (res, outp', Some f')"
    using load p(1) run by (auto simp: prepareRunJournalV1WithHooks_def)
  then show ?thesis
    using p(2,3) unfolding conjunct1 [OF keep] by blast
qed

end
