(* ===== verification/Run_State.thy ===== *)
theory Run_State
  imports Journal_Creation Journal_Recovery Admission_Recovery
begin

text \<open>
  The state that one run owns, \<open>core/recovery/include/run_state.hpp\<close>, and its two sources: a new run,
  \<open>core/recovery/src/start_new_run.cpp\<close>, and the recovery of a run from its journal, \<open>recovered_run.cpp\<close>. The
  hooks of both are parameters of the functions \<open>\<dots>WithHooks\<close>. Allocation always succeeds.
\<close>

section \<open>Data\<close>

record 'f RunStateV1 =
  rs_journalWriter :: "'f RunJournalWriterV1 option"
  rs_matchingState :: "MatchingState option"
  rs_admissionIndex :: "CommandAdmissionIndex option"

definition empty_RunStateV1 :: "'f RunStateV1" where
  "empty_RunStateV1 = \<lparr>rs_journalWriter = None, rs_matchingState = None, rs_admissionIndex = None\<rparr>"

datatype StartNewRunOutcome =
    SN_STARTED | SN_PREPARATION_FAILED | SN_CAPACITY_UNREPRESENTABLE | SN_ALLOCATION_FAILURE
  | SN_STATE_CONSTRUCTION_FAILED | SN_ACTIVATION_FAILED

record StartNewRunResult =
  sn_outcome :: StartNewRunOutcome
  sn_preparation :: NewRunJournalPreparationResult
  sn_activation :: "NewRunActivationResult option"

datatype RecoveredRunOutcome = RR_RECOVERED | RR_PREPARATION_FAILED | RR_REPLAY_FAILED | RR_ADMISSION_FAILED

text \<open>The results of the steps that were not reached keep their defaults; they are \<open>None\<close> here.\<close>

record RecoveredRunResult =
  rr_outcome :: RecoveredRunOutcome
  rr_preparation :: RunJournalRecoveryResult
  rr_replay :: "RunJournalReplayResult option"
  rr_admission :: "CommandAdmissionRecoveryResult option"

section \<open>Starting a new run\<close>

text \<open>\<open>Inl\<close> is the outcome that a failed construction reports.\<close>

definition constructEmptyRunStateV1 ::
  "ExchangeRunId \<Rightarrow> u64 \<Rightarrow> StartNewRunOutcome + MatchingState \<times> CommandAdmissionIndex" where
  "constructEmptyRunStateV1 runId maxRunCommands =
     (if unat maxRunCommands > SIZE_MAX then Inl SN_CAPACITY_UNREPRESENTABLE
      else
      case make_run_bound_CommandAdmissionIndex (unat maxRunCommands) runId of
        Inl _ \<Rightarrow> Inl SN_STATE_CONSTRUCTION_FAILED
      | Inr admissionIndex \<Rightarrow> Inr (init_MatchingState runId, admissionIndex))"

definition empty_PreparedNewRunJournalV1 :: "'f PreparedNewRunJournalV1" where
  "empty_PreparedNewRunJournalV1 =
     \<lparr>pn_header = lj_header empty_LoadedRunJournalV1, canonicalJournalPath = [], pn_writer = None\<rparr>"

definition startNewRunV1WithHooks ::
  "(string \<Rightarrow> NewRunConfigurationV1 \<Rightarrow> 'f PreparedNewRunJournalV1 \<Rightarrow> 'w \<Rightarrow>
      (NewRunJournalPreparationResult \<times> 'f PreparedNewRunJournalV1 \<times> 'w) option) \<Rightarrow>
   (ExchangeRunId \<Rightarrow> u64 \<Rightarrow> StartNewRunOutcome + MatchingState \<times> CommandAdmissionIndex) \<Rightarrow>
   (string \<Rightarrow> 'f PreparedNewRunJournalV1 \<Rightarrow> 'w \<Rightarrow> (NewRunActivationResult \<times> 'w) option) \<Rightarrow>
   string \<Rightarrow> NewRunConfigurationV1 \<Rightarrow> 'f RunStateV1 \<Rightarrow> 'w \<Rightarrow>
   (StartNewRunResult \<times> 'f RunStateV1 \<times> 'w) option" where
  "startNewRunV1WithHooks prepare constructState activate canonicalCatalogPath configuration outp w =
     Option.bind (prepare canonicalCatalogPath configuration empty_PreparedNewRunJournalV1 w)
       (\<lambda>(preparation, prepared, w).
     if np_outcome preparation \<noteq> NP_PREPARED
     then Some (\<lparr>sn_outcome = SN_PREPARATION_FAILED, sn_preparation = preparation, sn_activation = None\<rparr>, outp, w)
     else
     case constructState (rh_exchangeRunId (pn_header prepared)) (rh_maxRunCommands (pn_header prepared)) of
       Inl failure \<Rightarrow> Some (\<lparr>sn_outcome = failure, sn_preparation = preparation, sn_activation = None\<rparr>, outp, w)
     | Inr (state, admissionIndex) \<Rightarrow>
         Option.bind (activate canonicalCatalogPath prepared w) (\<lambda>(activation, w).
         if na_outcome activation \<noteq> NA_ACTIVATED
         then Some (\<lparr>sn_outcome = SN_ACTIVATION_FAILED, sn_preparation = preparation,
                      sn_activation = Some activation\<rparr>, outp, w)
         else Some (\<lparr>sn_outcome = SN_STARTED, sn_preparation = preparation, sn_activation = Some activation\<rparr>,
                    \<lparr>rs_journalWriter = pn_writer prepared, rs_matchingState = Some state,
                     rs_admissionIndex = Some admissionIndex\<rparr>, w)))"

definition startNewRunV1 ::
  "('w, 'f) DataDirectory \<Rightarrow> nat \<Rightarrow> string \<Rightarrow> NewRunConfigurationV1 \<Rightarrow> 'f RunStateV1 \<Rightarrow> 'w \<Rightarrow>
     (StartNewRunResult \<times> 'f RunStateV1 \<times> 'w) option" where
  "startNewRunV1 dir fuel =
     startNewRunV1WithHooks (prepareNewRunJournalV1 dir fuel) constructEmptyRunStateV1
       (activatePreparedNewRunV1WithHooks (dd_files dir) fuel)"

section \<open>Recovering a run\<close>

text \<open>The answer of opening the journal is an input of the preparation; the last component is the file as the
  preparation leaves it.\<close>

definition empty_PreparedRunJournalV1 :: "'f PreparedRunJournalV1" where
  "empty_PreparedRunJournalV1 = \<lparr>pj_journal = empty_LoadedRunJournalV1, pj_writer = None\<rparr>"

definition empty_ReplayedRunJournalV1 :: ReplayedRunJournalV1 where
  "empty_ReplayedRunJournalV1 = \<lparr>commandResults = [], replayedState = None\<rparr>"

definition recoverRunV1WithHooks ::
  "('f PreparedRunJournalV1 \<Rightarrow> ExchangeRunId option \<Rightarrow>
      (RunJournalRecoveryResult \<times> 'f PreparedRunJournalV1 \<times> 'f option) option) \<Rightarrow>
   (LoadedRunJournalV1 \<Rightarrow> ReplayedRunJournalV1 \<Rightarrow> RunJournalReplayResult \<times> ReplayedRunJournalV1) \<Rightarrow>
   (LoadedRunJournalV1 \<Rightarrow> CommandResultBatch option list \<Rightarrow> CommandAdmissionIndex option \<Rightarrow>
      CommandAdmissionRecoveryResult \<times> CommandAdmissionIndex option) \<Rightarrow>
   'f RunStateV1 \<Rightarrow> ExchangeRunId option \<Rightarrow> (RecoveredRunResult \<times> 'f RunStateV1 \<times> 'f option) option" where
  "recoverRunV1WithHooks prepare replay reconstructAdmission outp expectedRunId =
     Option.bind (prepare empty_PreparedRunJournalV1 expectedRunId) (\<lambda>(preparation, prepared, f).
     if jr_outcome preparation \<noteq> RO_PREPARED
     then Some (\<lparr>rr_outcome = RR_PREPARATION_FAILED, rr_preparation = preparation, rr_replay = None,
                  rr_admission = None\<rparr>, outp, f)
     else
     case replay (pj_journal prepared) empty_ReplayedRunJournalV1 of
       (replayed, output) \<Rightarrow>
         if rp_outcome replayed \<noteq> RO_REPLAYED
         then Some (\<lparr>rr_outcome = RR_REPLAY_FAILED, rr_preparation = preparation, rr_replay = Some replayed,
                      rr_admission = None\<rparr>, outp, f)
         else
         case reconstructAdmission (pj_journal prepared) (map Some (commandResults output)) None of
           (admission, admissionIndex) \<Rightarrow>
             if ca_outcome admission \<noteq> CR_RECONSTRUCTED
             then Some (\<lparr>rr_outcome = RR_ADMISSION_FAILED, rr_preparation = preparation, rr_replay = Some replayed,
                          rr_admission = Some admission\<rparr>, outp, f)
             else Some (\<lparr>rr_outcome = RR_RECOVERED, rr_preparation = preparation, rr_replay = Some replayed,
                          rr_admission = Some admission\<rparr>,
                        \<lparr>rs_journalWriter = pj_writer prepared, rs_matchingState = replayedState output,
                         rs_admissionIndex = admissionIndex\<rparr>, f))"

definition recoverRunV1 ::
  "int + 'f \<Rightarrow> 'f RunJournalRecoveryHooks \<Rightarrow> nat \<Rightarrow> 'f RunStateV1 \<Rightarrow> ExchangeRunId option \<Rightarrow>
     (RecoveredRunResult \<times> 'f RunStateV1 \<times> 'f option) option" where
  "recoverRunV1 descriptor hooks fuel =
     recoverRunV1WithHooks (prepareRunJournalV1WithHooks descriptor hooks fuel) replayPreparedRunJournalV1
       reconstructCommandAdmissionIndex"

section \<open>A started run\<close>

text \<open>The snapshot that a catalog file holds.\<close>

definition catalog_snapshot :: "u8 list option \<Rightarrow> RunCatalogSnapshotV1 option" where
  "catalog_snapshot file =
     (case file of
        None \<Rightarrow> None
      | Some bytes \<Rightarrow> (case decodeRunCatalogV1 bytes of Inl _ \<Rightarrow> None | Inr snap \<Rightarrow> Some snap))"

lemma last_reserved_snapshot:
  "last_reserved file =
     (case catalog_snapshot file of
        None \<Rightarrow> 0 | Some snap \<Rightarrow> (case rc_lastReservedRunId snap of None \<Rightarrow> 0 | Some r \<Rightarrow> unat r))"
  by (simp add: last_reserved_def catalog_snapshot_def split: option.split sum.split)

lemma catalog_snapshot_encoded:
  assumes "encodeRunCatalogV1 snap = Inr bytes" and "known_disposition snap"
  shows "catalog_snapshot (Some bytes) = Some snap"
proof -
  have "decodeRunCatalogV1 bytes = Inr snap"
    using catalog_codec.decode_iff assms by blast
  then show ?thesis by (simp add: catalog_snapshot_def)
qed

text \<open>A replacement in terms of snapshots.\<close>

lemma replace_snapshot:
  assumes "posix_catalog catalog remaining written interrupts bound files" and "bound + 57 < fuel"
    and "known_disposition snap"
  shows "\<exists>res w'. replaceRunCatalogV1WithHooks files fuel w snap = Some (res, w') \<and>
    (cp_outcome res = CR_COMMITTED \<longrightarrow> catalog_snapshot (catalog w') = Some snap) \<and>
    (catalog w' = catalog w \<or> catalog_snapshot (catalog w') = Some snap)"
  using replace_cases [OF assms(1,2), of w snap] catalog_snapshot_encoded [OF _ assms(3)] by fastforce

lemma load_snapshot:
  assumes "posix_catalog catalog remaining written interrupts bound files" and "bound + 57 < fuel"
  shows "\<exists>load current. loadRunCatalogV1 files fuel w empty_RunCatalogSnapshotV1 = Some (load, current) \<and>
    (cl_outcome load = CL_LOADED \<longrightarrow> catalog_snapshot (catalog w) = Some current \<and> known_disposition current)"
proof -
  obtain load current where "loadRunCatalogV1 files fuel w empty_RunCatalogSnapshotV1 = Some (load, current)"
    "case cl_outcome load of
       CL_LOADED \<Rightarrow> \<exists>bytes. catalog w = Some bytes \<and> decodeRunCatalogV1 bytes = Inr current
     | CL_MISSING \<Rightarrow> catalog w = None \<and> current = empty_RunCatalogSnapshotV1
     | _ \<Rightarrow> current = empty_RunCatalogSnapshotV1"
    using loadRunCatalogV1_spec [OF assms, of w empty_RunCatalogSnapshotV1] by blast
  then show ?thesis
    by (cases "cl_outcome load") (auto simp: catalog_snapshot_def dest: decoded_known)
qed

lemma activate_spec:
  assumes posix: "posix_catalog catalog remaining written interrupts bound files" and fuel: "bound + 57 < fuel"
  shows "\<exists>res w'. activatePreparedNewRunV1WithHooks files fuel path prepared w = Some (res, w') \<and>
    last_reserved (catalog w') = last_reserved (catalog w) \<and>
    (na_outcome res = NA_ACTIVATED \<longrightarrow>
       (\<exists>snap. catalog_snapshot (catalog w') = Some snap \<and>
          rc_activeRunId snap = Some (rh_exchangeRunId (pn_header prepared)) \<and>
          rc_lastReservedRunId snap = rc_activeRunId snap \<and> rc_activeDisposition snap = OPEN))"
proof -
  let ?id = "rh_exchangeRunId (pn_header prepared)"
  obtain load current where load: "loadRunCatalogV1 files fuel w empty_RunCatalogSnapshotV1 = Some (load, current)"
    "cl_outcome load = CL_LOADED \<longrightarrow> catalog_snapshot (catalog w) = Some current \<and> known_disposition current"
    using load_snapshot [OF posix fuel] by blast
  show ?thesis
  proof (cases "pn_writer prepared = None \<or> ?id = 0 \<or>
      canonicalJournalPath prepared \<noteq> deriveCanonicalRunJournalPathV1 path ?id \<or> cl_outcome load \<noteq> CL_LOADED \<or>
      rc_lastReservedRunId current \<noteq> Some ?id \<or> rc_activeRunId current \<noteq> None \<or> rc_generation current = - 1")
    case True
    then show ?thesis
      using load(1) by (auto simp: activatePreparedNewRunV1WithHooks_def Let_def activationResult_def)
  next
    case False
    let ?next = "current\<lparr>rc_generation := rc_generation current + 1, rc_activeRunId := Some ?id,
            rc_activeDisposition := OPEN\<rparr>"
    have "known_disposition ?next"
      by (simp add: known_disposition_def)
    from replace_snapshot [OF posix fuel this, of w] obtain res w' where
      rep: "replaceRunCatalogV1WithHooks files fuel w ?next = Some (res, w')"
        "cp_outcome res = CR_COMMITTED \<longrightarrow> catalog_snapshot (catalog w') = Some ?next"
        "catalog w' = catalog w \<or> catalog_snapshot (catalog w') = Some ?next"
      by blast
    have same: "last_reserved (catalog w') = last_reserved (catalog w)"
      using rep(3) load(2) False by (auto simp: last_reserved_snapshot)
    show ?thesis
      using False load(1) rep(1,2) same
      by (cases "cp_outcome res = CR_COMMITTED") (auto simp: activatePreparedNewRunV1WithHooks_def Let_def activationResult_def)
  qed
qed

text \<open>A run that has just started: the writer stands behind the header of an empty journal, the book is empty, and
  the admission index is empty and closed; all three name the run.\<close>

definition started_run ::
  "('f \<Rightarrow> u8 list) \<Rightarrow> NewRunConfigurationV1 \<Rightarrow> ExchangeRunId \<Rightarrow> 'f RunStateV1 \<Rightarrow> bool" where
  "started_run written configuration runId st \<longleftrightarrow>
     (\<exists>hf x. rs_journalWriter st = Some x \<and> writer_inv written (configured_header configuration runId) hf [] x) \<and>
     rs_matchingState st = Some (init_MatchingState runId) \<and>
     rs_admissionIndex st = Some \<lparr>adm_capacity = unat (nc_maxRunCommands configuration), adm_exchangeRunId = runId,
       admissionOpen = False, records = [], statistics = no_statistics\<rparr>"

definition active_run :: "u8 list option \<Rightarrow> RunCatalogDisposition \<Rightarrow> ExchangeRunId \<Rightarrow> bool" where
  "active_run file disposition runId \<longleftrightarrow>
     (case catalog_snapshot file of
        None \<Rightarrow> False | Some snap \<Rightarrow> rc_activeRunId snap = Some runId \<and> rc_activeDisposition snap = disposition)"

lemma startNewRun_spec:
  assumes posix: "posix_directory catalog remaining written interrupts bound dir"
    and fuel: "bound + 57 < fuel" "bound + unat (nc_maxRunJournalBytes cfg) < fuel"
  shows "\<exists>res outp' w'. startNewRunV1 dir fuel path cfg outp w = Some (res, outp', w') \<and>
    last_reserved (catalog w) \<le> last_reserved (catalog w') \<and>
    (if sn_outcome res = SN_STARTED
     then last_reserved (catalog w') = Suc (last_reserved (catalog w)) \<and>
       started_run written cfg (of_nat (last_reserved (catalog w'))) outp' \<and>
       active_run (catalog w') OPEN (of_nat (last_reserved (catalog w')))
     else outp' = outp)"
proof -
  obtain pr prepared w1 where prep:
    "prepareNewRunJournalV1 dir fuel path cfg empty_PreparedNewRunJournalV1 w = Some (pr, prepared, w1)"
    "last_reserved (catalog w) \<le> last_reserved (catalog w1)"
    "if np_outcome pr = NP_PREPARED
     then prepared_run written path cfg (Suc (last_reserved (catalog w))) prepared \<and>
       last_reserved (catalog w1) = Suc (last_reserved (catalog w))
     else prepared = empty_PreparedNewRunJournalV1"
    using prepareNewRun_spec [OF posix fuel] by blast
  let ?id = "rh_exchangeRunId (pn_header prepared)"
  let ?new = "constructEmptyRunStateV1 ?id (rh_maxRunCommands (pn_header prepared))"
  have failed: "\<forall>e. ?new = Inl e \<longrightarrow> e \<noteq> SN_STARTED"
    by (auto simp: constructEmptyRunStateV1_def split: sum.splits)
  obtain ac w2 where act: "activatePreparedNewRunV1WithHooks (dd_files dir) fuel path prepared w1 = Some (ac, w2)"
    "last_reserved (catalog w2) = last_reserved (catalog w1)"
    "na_outcome ac = NA_ACTIVATED \<longrightarrow>
       (\<exists>snap. catalog_snapshot (catalog w2) = Some snap \<and> rc_activeRunId snap = Some ?id \<and>
          rc_lastReservedRunId snap = rc_activeRunId snap \<and> rc_activeDisposition snap = OPEN)"
    using activate_spec [OF posix_directoryD(1) [OF posix] fuel(1)] by blast
  show ?thesis
  proof (cases "np_outcome pr = NP_PREPARED \<and> (\<exists>s. ?new = Inr s) \<and> na_outcome ac = NA_ACTIVATED")
    case False
    then show ?thesis
      using prep(1,2) act(1,2) failed
      by (cases ?new) (auto simp: startNewRunV1_def startNewRunV1WithHooks_def)
  next
    case True
    then have run: "unat ?id = last_reserved (catalog w2)" "pn_header prepared = configured_header cfg ?id"
      "\<exists>hf x. pn_writer prepared = Some x \<and> writer_inv written (pn_header prepared) hf [] x"
      "last_reserved (catalog w2) = Suc (last_reserved (catalog w))"
      using prep(3) act(2) by (auto simp: prepared_run_def Let_def)
    have id: "of_nat (last_reserved (catalog w2)) = ?id"
      unfolding run(1) [symmetric] by simp
    obtain idx where new: "?new = Inr (init_MatchingState ?id, idx)"
      "idx = \<lparr>adm_capacity = unat (nc_maxRunCommands cfg), adm_exchangeRunId = ?id,
          admissionOpen = False, records = [], statistics = no_statistics\<rparr>"
      using True arg_cong [OF run(2), of rh_maxRunCommands]
      by (auto simp: constructEmptyRunStateV1_def make_run_bound_CommandAdmissionIndex_def configured_header_def
          split: if_splits)
    have "startNewRunV1 dir fuel path cfg outp w = Some (\<lparr>sn_outcome = SN_STARTED, sn_preparation = pr, sn_activation = Some ac\<rparr>,
        \<lparr>rs_journalWriter = pn_writer prepared, rs_matchingState = Some (init_MatchingState ?id), rs_admissionIndex = Some idx\<rparr>, w2)"
      using True prep(1) act(1) new(1) by (simp add: startNewRunV1_def startNewRunV1WithHooks_def)
    moreover have "active_run (catalog w2) OPEN ?id"
      using True act(3) by (auto simp: active_run_def)
    moreover have "\<exists>hf x. pn_writer prepared = Some x \<and> writer_inv written (configured_header cfg ?id) hf [] x"
      using run(2,3) by simp
    ultimately show ?thesis
      using run(4) new(2) id [unfolded run(4)] by (simp add: started_run_def)
  qed
qed

section \<open>A recovered run\<close>

text \<open>A run recovered from a journal of the commands \<open>cs\<close>: the writer stands behind the last of them, the book is
  what processing them in order gives, and the admission index is closed and answers each of them again with its
  original result.\<close>

definition recovered_run ::
  "('f \<Rightarrow> u8 list) \<Rightarrow> RunHeaderV1 \<Rightarrow> u8 list \<Rightarrow> (JournalCommandV1 \<times> u8 list) list \<Rightarrow>
     ('q, sequenceMessage) queue_push \<Rightarrow> 'f RunStateV1 \<Rightarrow> bool" where
  "recovered_run contents h hf cs push st \<longleftrightarrow>
     (\<exists>w book batches idx.
        rs_journalWriter st = Some w \<and> writer_inv contents h hf cs w \<and> rs_matchingState st = Some book \<and>
        run_commands (init_MatchingState (rh_exchangeRunId h)) (map (matchingMessageFrom \<circ> fst) cs) = Inr (book, batches) \<and>
        rs_admissionIndex st = Some idx \<and> index_inv idx \<and> adm_exchangeRunId idx = rh_exchangeRunId h \<and>
        \<not> admissionOpen idx \<and> adm_size idx = length cs \<and>
        (\<forall>i < length cs. \<forall>q cap. \<exists>idx'.
           reserveAndStageForRunCapacity push idx (matchingMessageFrom (fst (cs ! i))) q cap =
             Inr (\<lparr>ad_status = IDENTICAL_COMPLETED, rejectionReason = None, originalResult = Some (batches ! i)\<rparr>, idx', q) \<and>
           records idx' = records idx))"

lemma replay_and_reconstruct:
  fixes push :: "('q, sequenceMessage) queue_push"
  assumes j: "journal_of h hf cs" and spy: "spy_header h" and keys: "distinct (map (journal_key \<circ> fst) cs)"
    and ok: "prepared_ok contents position h hf cs prepared"
  shows "\<exists>out idx. replayPreparedRunJournalV1 (pj_journal prepared) empty_ReplayedRunJournalV1 =
      (replayResult RO_REPLAYED RE_NONE, out) \<and>
    reconstructCommandAdmissionIndex (pj_journal prepared) (map Some (commandResults out)) None =
      (recoveryResult CR_RECONSTRUCTED CE_NONE, Some idx) \<and>
    recovered_run contents h hf cs push
      \<lparr>rs_journalWriter = pj_writer prepared, rs_matchingState = replayedState out, rs_admissionIndex = Some idx\<rparr>"
proof -
  let ?n = "of_nat (length (journal_bytes hf cs)) :: u64"
  let ?j = "\<lparr>lj_header = h, lj_commands = map fst cs, validCommittedByteCount = ?n\<rparr>"
  from ok obtain w where w: "pj_journal prepared = ?j" "pj_writer prepared = Some w" "writer_inv contents h hf cs w"
    by (auto simp: prepared_ok_def)
  obtain st out where replay: "replayPreparedRunJournalV1 ?j empty_ReplayedRunJournalV1 = (replayResult RO_REPLAYED RE_NONE, out)"
    "replayedState out = Some st"
    "run_commands (init_MatchingState (rh_exchangeRunId h)) (map (matchingMessageFrom \<circ> fst) cs) = Inr (st, commandResults out)"
    using replay_journal [OF j spy, of ?n empty_ReplayedRunJournalV1]
    by (metis ReplayedRunJournalV1.select_convs(1,2))
  show ?thesis
    using reconstruct_answers [OF j spy keys replay(1), of None push] w replay
    by (auto simp: recovered_run_def)
qed

lemma recoverRun_spec:
  fixes push :: "('q, sequenceMessage) queue_push"
  assumes posix: "posix_file contents position interrupts hooks" and pos: "position f = 0"
    and fuel: "interrupts f + length (contents f) < fuel" and j: "journal_of h hf cs" and spy: "spy_header h"
    and keys: "distinct (map (journal_key \<circ> fst) cs)"
    and c: "contents f = take k (journal_bytes hf cs)" and k: "length hf \<le> k" "k \<le> length (journal_bytes hf cs)"
    and small: "length (contents f) \<le> OFF_MAX"
    and expected: "expectedRunId = None \<or> expectedRunId = Some (rh_exchangeRunId h)"
  shows "\<exists>res st f'. recoverRunV1 (Inr f) hooks fuel outp expectedRunId = Some (res, st, Some f') \<and>
    (if rr_outcome res = RR_RECOVERED then recovered_run contents h hf (complete_within (k - length hf) cs) push st
     else rr_outcome res = RR_PREPARATION_FAILED \<and> st = outp) \<and>
    (reliable hooks \<longrightarrow> rr_outcome res = RR_RECOVERED)"
proof -
  let ?whole = "complete_within (k - length hf) cs"
  obtain res prepared f' where
    prep: "prepareRunJournalV1WithHooks (Inr f) hooks fuel empty_PreparedRunJournalV1 expectedRunId = Some (res, prepared, Some f')"
      "jr_outcome res = RO_PREPARED \<longrightarrow> prepared_ok contents position h hf ?whole prepared"
      "reliable hooks \<longrightarrow> jr_outcome res = RO_PREPARED"
    using prepare_spec [OF posix pos fuel j c k small expected, of empty_PreparedRunJournalV1] by fastforce
  show ?thesis
  proof (cases "jr_outcome res = RO_PREPARED")
    case False
    then show ?thesis
      using prep by (auto simp: recoverRunV1_def recoverRunV1WithHooks_def)
  next
    case True
    obtain rest where rest: "cs = ?whole @ rest"
      using complete_within_prefix by blast
    have "journal_of h hf ?whole"
      using j rest journal_of_prefix by metis
    moreover have "distinct (map (journal_key \<circ> fst) (?whole @ rest))"
      using keys by (simp only: rest [symmetric])
    then have "distinct (map (journal_key \<circ> fst) ?whole)"
      by simp
    ultimately obtain out idx where
      "replayPreparedRunJournalV1 (pj_journal prepared) empty_ReplayedRunJournalV1 = (replayResult RO_REPLAYED RE_NONE, out)"
      "reconstructCommandAdmissionIndex (pj_journal prepared) (map Some (commandResults out)) None =
         (recoveryResult CR_RECONSTRUCTED CE_NONE, Some idx)"
      "recovered_run contents h hf ?whole push
         \<lparr>rs_journalWriter = pj_writer prepared, rs_matchingState = replayedState out, rs_admissionIndex = Some idx\<rparr>"
      using replay_and_reconstruct [OF _ spy, of hf ?whole contents position prepared push] prep(2) True by blast
    then show ?thesis
      using prep(1) True by (simp add: recoverRunV1_def recoverRunV1WithHooks_def replayResult_def recoveryResult_def)
  qed
qed

end
