(* ===== verification/Run_Controller.thy ===== *)
theory Run_Controller
  imports Run_State Result_Projection
begin

text \<open>
  The run controller, \<open>core/recovery/src/exchange_run_controller.cpp\<close> and its header: starting a new run, taking
  over an existing one, resuming it, and looking up results of the active and the retained run. The operating system
  is the record \<open>RunEnvironment\<close>: the current directory, the data directory at a catalog's path, the opening of a
  journal and the hooks on its descriptor, and the state of the file system once the file at a path was changed
  through its descriptor. The command-processing path is the type \<open>'p\<close>; the operations here do not use it. \<open>None\<close>
  is the result of too little fuel or of following a null pointer; in a result record it stands for a step that was
  not reached.
\<close>

section \<open>Paths\<close>

text \<open>\<open>std::filesystem::absolute\<close> with the current directory, \<open>None\<close> when it throws.\<close>

definition absolute :: "string option \<Rightarrow> string \<Rightarrow> string option" where
  "absolute currentPath path =
     (if path = [] then None
      else if hd path = CHR ''/'' then Some path
      else map_option (\<lambda>directory. path_join directory path) currentPath)"

fun split_path :: "string \<Rightarrow> string list" where
  "split_path [] = [[]]"
| "split_path (c # cs) =
     (if c = CHR ''/'' then [] # split_path cs
      else case split_path cs of [] \<Rightarrow> [[c]] | name # names \<Rightarrow> (c # name) # names)"

text \<open>\<open>lexically_normal\<close>: dots and doubled separators go, a name followed by two dots goes with them, and a trailing
  separator stays unless two dots precede it. The names are collected in reverse.\<close>

fun normal_names :: "bool \<Rightarrow> string list \<Rightarrow> string list \<Rightarrow> string list" where
  "normal_names rooted acc [] = acc"
| "normal_names rooted acc (name # names) =
     (if name = [] \<or> name = ''.'' then normal_names rooted acc names
      else if name = ''..'' then
        (if acc \<noteq> [] \<and> hd acc \<noteq> ''..'' then normal_names rooted (tl acc) names
         else if rooted then normal_names rooted acc names
         else normal_names rooted (name # acc) names)
      else normal_names rooted (name # acc) names)"

fun join_names :: "string list \<Rightarrow> string" where
  "join_names [] = []"
| "join_names [name] = name"
| "join_names (name # names) = name @ ''/'' @ join_names names"

definition lexically_normal :: "string \<Rightarrow> string" where
  "lexically_normal path =
     (if path = [] then []
      else
      let rooted = (hd path = CHR ''/''); parts = split_path path; names = normal_names rooted [] parts;
          trailing = (last parts = [] \<or> last parts = ''.'' \<or> last parts = ''..'') \<and> names \<noteq> [] \<and> hd names \<noteq> ''..'';
          normal = (if rooted then ''/'' else []) @ join_names (rev names) @ (if trailing then ''/'' else []) in
      if normal = [] then ''.'' else normal)"

section \<open>Data\<close>

datatype ExistingRunStartupOutcome =
    XS_PAUSED | XS_CATALOG_LOAD_FAILED | XS_CATALOG_PATH_FAILED | XS_NO_ACTIVE_RUN | XS_EXPLICIT_OPERATION_REQUIRED
  | XS_GENERATION_EXHAUSTED | XS_JOURNAL_PATH_FAILED | XS_RECOVERY_FAILED | XS_CATALOG_REPLACE_FAILED

record ExistingRunStartupResult =
  xs_outcome :: ExistingRunStartupOutcome
  xs_catalogLoad :: "RunCatalogLoadResult option"
  xs_recovery :: "RecoveredRunResult option"
  xs_catalogReplacement :: "RunCatalogReplaceResult option"

datatype ExchangeRunStartupState =
  ES_UNAVAILABLE | ES_READY | ES_PAUSED | ES_CAPACITY_REACHED | ES_STOPPED | ES_FAIL_STOPPED | ES_RECOVERY_FAILED

datatype NewRunStartupOutcome =
  NS_READY | NS_RUN_ALREADY_OWNED | NS_ACTIVE_RUN_EXISTS | NS_START_FAILED | NS_CATALOG_PATH_FAILED

record NewRunStartupResult =
  ns_outcome :: NewRunStartupOutcome
  ns_catalogLoad :: "RunCatalogLoadResult option"
  ns_startup :: "StartNewRunResult option"

datatype RunResumeOutcome =
    RS_READY | RS_NOT_PAUSED | RS_CATALOG_LOAD_FAILED | RS_ACTIVE_RUN_ID_MISMATCH | RS_CATALOG_NOT_PAUSED
  | RS_CAPACITY_REACHED | RS_GENERATION_EXHAUSTED | RS_CATALOG_REPLACE_FAILED

record RunResumeResult =
  rz_outcome :: RunResumeOutcome
  rz_catalogLoad :: "RunCatalogLoadResult option"
  rz_catalogReplacement :: "RunCatalogReplaceResult option"

datatype CompletedResultLookupOutcome =
    LK_FOUND | LK_NOT_FOUND | LK_CATALOG_PATH_FAILED | LK_CATALOG_BINDING_MISMATCH | LK_CATALOG_LOAD_FAILED
  | LK_ACTIVE_RUN_NOT_OWNED | LK_RUN_NOT_RETAINED | LK_JOURNAL_PATH_FAILED | LK_RECOVERY_FAILED | LK_INVARIANT_FAILURE

record CompletedResultLookupResult =
  lk_outcome :: CompletedResultLookupOutcome
  lk_completedResult :: "CommandResultBatch option"
  lk_catalogLoad :: "RunCatalogLoadResult option"
  lk_recovery :: "RecoveredRunResult option"

record PrivateResultLookupResult =
  pl_outcome :: CompletedResultLookupOutcome
  pl_privateResult :: "RecipientResult option"
  pl_catalogLoad :: "RunCatalogLoadResult option"
  pl_recovery :: "RecoveredRunResult option"

record RetainedStoppedRunView =
  rv_canonicalCatalogPath :: string
  rv_exchangeRunId :: ExchangeRunId
  rv_matchingState :: "MatchingState option"
  rv_admissionIndex :: "CommandAdmissionIndex option"

record ('f, 'p) ExchangeRunController =
  ctl_state :: ExchangeRunStartupState
  ctl_run :: "'f RunStateV1"
  ctl_canonicalCatalogPath :: string
  ctl_retainedStoppedRunView :: "RetainedStoppedRunView option"
  ctl_commandProcessing :: "'p option"

definition make_ExchangeRunController :: "('f, 'p) ExchangeRunController" where
  "make_ExchangeRunController =
     \<lparr>ctl_state = ES_UNAVAILABLE, ctl_run = empty_RunStateV1, ctl_canonicalCatalogPath = [],
      ctl_retainedStoppedRunView = None, ctl_commandProcessing = None\<rparr>"

record ('w, 'f) RunEnvironment =
  env_currentPath :: "string option"
  env_directory :: "string \<Rightarrow> ('w, 'f) DataDirectory"
  env_openJournal :: "'w \<Rightarrow> string \<Rightarrow> int + 'f"
  env_recoveryHooks :: "'f RunJournalRecoveryHooks"
  env_update :: "'w \<Rightarrow> string \<Rightarrow> 'f option \<Rightarrow> 'w"

section \<open>Admission\<close>

definition openAdmission :: "('f, 'p) ExchangeRunController \<Rightarrow> ('f, 'p) ExchangeRunController" where
  "openAdmission ctl = ctl\<lparr>ctl_run := (ctl_run ctl)\<lparr>rs_admissionIndex :=
     map_option (setAdmissionOpen True) (rs_admissionIndex (ctl_run ctl))\<rparr>\<rparr>"

definition closeAdmission :: "('f, 'p) ExchangeRunController \<Rightarrow> ('f, 'p) ExchangeRunController" where
  "closeAdmission ctl = ctl\<lparr>ctl_run := (ctl_run ctl)\<lparr>rs_admissionIndex :=
     map_option (setAdmissionOpen False) (rs_admissionIndex (ctl_run ctl))\<rparr>\<rparr>"

section \<open>Starting a new run\<close>

definition startupNewRunV1WithHooks ::
  "('w, 'f) RunEnvironment \<Rightarrow> nat \<Rightarrow>
   (string \<Rightarrow> NewRunConfigurationV1 \<Rightarrow> 'f RunStateV1 \<Rightarrow> 'w \<Rightarrow> (StartNewRunResult \<times> 'f RunStateV1 \<times> 'w) option) \<Rightarrow>
   string \<Rightarrow> NewRunConfigurationV1 \<Rightarrow> ('f, 'p) ExchangeRunController \<Rightarrow> 'w \<Rightarrow>
   (NewRunStartupResult \<times> ('f, 'p) ExchangeRunController \<times> 'w) option" where
  "startupNewRunV1WithHooks env fuel start canonicalCatalogPath configuration ctl w =
     (if rs_journalWriter (ctl_run ctl) \<noteq> None
      then Some (\<lparr>ns_outcome = NS_RUN_ALREADY_OWNED, ns_catalogLoad = None, ns_startup = None\<rparr>, ctl, w)
      else
      case absolute (env_currentPath env) canonicalCatalogPath of
        None \<Rightarrow> Some (\<lparr>ns_outcome = NS_CATALOG_PATH_FAILED, ns_catalogLoad = None, ns_startup = None\<rparr>, ctl, w)
      | Some catalogBinding \<Rightarrow>
          Option.bind (loadRunCatalogV1 (dd_files (env_directory env catalogBinding)) fuel w empty_RunCatalogSnapshotV1)
            (\<lambda>(load, catalog).
          if cl_outcome load = CL_INVALID \<or> cl_outcome load = CL_IO_FAILURE
          then Some (\<lparr>ns_outcome = NS_START_FAILED, ns_catalogLoad = Some load, ns_startup = None\<rparr>, ctl, w)
          else if cl_outcome load = CL_LOADED \<and> rc_activeRunId catalog \<noteq> None
          then Some (\<lparr>ns_outcome = NS_ACTIVE_RUN_EXISTS, ns_catalogLoad = Some load, ns_startup = None\<rparr>, ctl, w)
          else
          Option.bind (start catalogBinding configuration empty_RunStateV1 w) (\<lambda>(startup, started, w).
          if sn_outcome startup \<noteq> SN_STARTED
          then Some (\<lparr>ns_outcome = NS_START_FAILED, ns_catalogLoad = Some load, ns_startup = Some startup\<rparr>, ctl, w)
          else Some (\<lparr>ns_outcome = NS_READY, ns_catalogLoad = Some load, ns_startup = Some startup\<rparr>,
                     (openAdmission (ctl\<lparr>ctl_run := started, ctl_canonicalCatalogPath := catalogBinding\<rparr>))
                       \<lparr>ctl_state := ES_READY\<rparr>, w))))"

definition startupNewRunV1 ::
  "('w, 'f) RunEnvironment \<Rightarrow> nat \<Rightarrow> string \<Rightarrow> NewRunConfigurationV1 \<Rightarrow> ('f, 'p) ExchangeRunController \<Rightarrow> 'w \<Rightarrow>
     (NewRunStartupResult \<times> ('f, 'p) ExchangeRunController \<times> 'w) option" where
  "startupNewRunV1 env fuel canonicalCatalogPath configuration ctl w =
     startupNewRunV1WithHooks env fuel (\<lambda>path. startNewRunV1 (env_directory env path) fuel path)
       canonicalCatalogPath configuration ctl w"

section \<open>Taking over an existing run\<close>

definition existingResult ::
  "ExistingRunStartupOutcome \<Rightarrow> RunCatalogLoadResult option \<Rightarrow> RecoveredRunResult option \<Rightarrow>
     RunCatalogReplaceResult option \<Rightarrow> ExistingRunStartupResult" where
  "existingResult oc load recovery replacement =
     \<lparr>xs_outcome = oc, xs_catalogLoad = load, xs_recovery = recovery, xs_catalogReplacement = replacement\<rparr>"

text \<open>Recovery of the journal at a path; the file system afterwards has the file as the recovery left it.\<close>

definition recoverRunAt ::
  "('w, 'f) RunEnvironment \<Rightarrow> nat \<Rightarrow> string \<Rightarrow> ExchangeRunId option \<Rightarrow> 'w \<Rightarrow>
     (RecoveredRunResult \<times> 'f RunStateV1 \<times> 'w) option" where
  "recoverRunAt env fuel journalPath expectedRunId w =
     Option.bind (recoverRunV1 (env_openJournal env w journalPath) (env_recoveryHooks env) fuel empty_RunStateV1 expectedRunId)
       (\<lambda>(recovery, recovered, f). Some (recovery, recovered, env_update env w journalPath f))"

definition startupExistingRunV1WithHooks ::
  "('w, 'f) RunEnvironment \<Rightarrow> nat \<Rightarrow> string \<Rightarrow> ('f, 'p) ExchangeRunController \<Rightarrow> 'w \<Rightarrow>
     (ExistingRunStartupResult \<times> ('f, 'p) ExchangeRunController \<times> 'w) option" where
  "startupExistingRunV1WithHooks env fuel canonicalCatalogPath ctl w =
     (if rs_journalWriter (ctl_run ctl) \<noteq> None
      then Some (existingResult XS_EXPLICIT_OPERATION_REQUIRED None None None, ctl, w)
      else
      let ctl = ctl\<lparr>ctl_state := ES_UNAVAILABLE, ctl_run := empty_RunStateV1\<rparr> in
      case absolute (env_currentPath env) canonicalCatalogPath of
        None \<Rightarrow> Some (existingResult XS_CATALOG_PATH_FAILED None None None, ctl, w)
      | Some catalogBinding \<Rightarrow>
          let files = dd_files (env_directory env catalogBinding) in
          Option.bind (loadRunCatalogV1 files fuel w empty_RunCatalogSnapshotV1) (\<lambda>(load, catalog).
          if cl_outcome load \<noteq> CL_LOADED
          then Some (existingResult XS_CATALOG_LOAD_FAILED (Some load) None None, ctl, w)
          else
          case rc_activeRunId catalog of
            None \<Rightarrow> Some (existingResult XS_NO_ACTIVE_RUN (Some load) None None, ctl, w)
          | Some activeRunId \<Rightarrow>
              if rc_activeDisposition catalog \<noteq> OPEN \<and> rc_activeDisposition catalog \<noteq> PAUSED
              then Some (existingResult XS_EXPLICIT_OPERATION_REQUIRED (Some load) None None, ctl, w)
              else if rc_generation catalog = - 1
              then Some (existingResult XS_GENERATION_EXHAUSTED (Some load) None None, ctl, w)
              else
              Option.bind (recoverRunAt env fuel (deriveCanonicalRunJournalPathV1 catalogBinding activeRunId) (Some activeRunId) w)
                (\<lambda>(recovery, recovered, w).
              if rr_outcome recovery \<noteq> RR_RECOVERED
              then Some (existingResult XS_RECOVERY_FAILED (Some load) (Some recovery) None,
                         ctl\<lparr>ctl_state := ES_RECOVERY_FAILED\<rparr>, w)
              else
              let catalog = catalog\<lparr>rc_generation := rc_generation catalog + 1, rc_activeDisposition := PAUSED\<rparr> in
              Option.bind (replaceRunCatalogV1WithHooks files fuel w catalog) (\<lambda>(replacement, w).
              if cp_outcome replacement \<noteq> CR_COMMITTED
              then Some (existingResult XS_CATALOG_REPLACE_FAILED (Some load) (Some recovery) (Some replacement), ctl, w)
              else Some (existingResult XS_PAUSED (Some load) (Some recovery) (Some replacement),
                         ctl\<lparr>ctl_run := recovered, ctl_canonicalCatalogPath := catalogBinding,
                             ctl_state := ES_PAUSED\<rparr>, w)))))"

section \<open>Resuming\<close>

definition resumeResult ::
  "RunResumeOutcome \<Rightarrow> RunCatalogLoadResult option \<Rightarrow> RunCatalogReplaceResult option \<Rightarrow> RunResumeResult" where
  "resumeResult oc load replacement = \<lparr>rz_outcome = oc, rz_catalogLoad = load, rz_catalogReplacement = replacement\<rparr>"

definition resumeRunV1WithHooks ::
  "('w, 'f) RunEnvironment \<Rightarrow> nat \<Rightarrow> ('f, 'p) ExchangeRunController \<Rightarrow> 'w \<Rightarrow>
     (RunResumeResult \<times> ('f, 'p) ExchangeRunController \<times> 'w) option" where
  "resumeRunV1WithHooks env fuel ctl w =
     (if ctl_state ctl \<noteq> ES_PAUSED then Some (resumeResult RS_NOT_PAUSED None None, ctl, w)
      else
      let files = dd_files (env_directory env (ctl_canonicalCatalogPath ctl)) in
      Option.bind (loadRunCatalogV1 files fuel w empty_RunCatalogSnapshotV1) (\<lambda>(load, catalog).
      if cl_outcome load \<noteq> CL_LOADED then Some (resumeResult RS_CATALOG_LOAD_FAILED (Some load) None, ctl, w)
      else
      Option.bind (rs_journalWriter (ctl_run ctl)) (\<lambda>writer.
      let header = w_header writer in
      if rc_activeRunId catalog \<noteq> Some (rh_exchangeRunId header)
      then Some (resumeResult RS_ACTIVE_RUN_ID_MISMATCH (Some load) None, ctl, w)
      else if rc_activeDisposition catalog \<noteq> PAUSED
      then Some (resumeResult RS_CATALOG_NOT_PAUSED (Some load) None, ctl, w)
      else if committedCommandCount writer \<ge> rh_maxRunCommands header \<or>
        committedByteCount writer \<ge> rh_maxRunJournalBytes header
      then Some (resumeResult RS_CAPACITY_REACHED (Some load) None, ctl, w)
      else if rc_generation catalog = - 1
      then Some (resumeResult RS_GENERATION_EXHAUSTED (Some load) None, ctl, w)
      else
      let catalog = catalog\<lparr>rc_generation := rc_generation catalog + 1, rc_activeDisposition := OPEN\<rparr> in
      Option.bind (replaceRunCatalogV1WithHooks files fuel w catalog) (\<lambda>(replacement, w).
      if cp_outcome replacement \<noteq> CR_COMMITTED
      then Some (resumeResult RS_CATALOG_REPLACE_FAILED (Some load) (Some replacement), ctl, w)
      else Some (resumeResult RS_READY (Some load) (Some replacement), (openAdmission ctl)\<lparr>ctl_state := ES_READY\<rparr>, w)))))"

section \<open>Looking up results\<close>

text \<open>The lookups are not \<open>noexcept\<close>: \<open>Inl\<close> is an exception of the admission index or of the projection, after which
  the controller keeps the changes made before it.\<close>

definition lookupResult ::
  "CompletedResultLookupOutcome \<Rightarrow> RunCatalogLoadResult option \<Rightarrow> RecoveredRunResult option \<Rightarrow>
     CompletedResultLookupResult" where
  "lookupResult oc load recovery =
     \<lparr>lk_outcome = oc, lk_completedResult = None, lk_catalogLoad = load, lk_recovery = recovery\<rparr>"

definition lookupIn ::
  "CommandAdmissionIndex \<Rightarrow> sequenceMessage \<Rightarrow> RunCatalogLoadResult option \<Rightarrow> RecoveredRunResult option \<Rightarrow>
     CompletedResultLookupResult result" where
  "lookupIn idx command load recovery =
     bind_result (completedResult idx command) (\<lambda>completed.
       Inr ((lookupResult (if completed = None then LK_NOT_FOUND else LK_FOUND) load recovery)
              \<lparr>lk_completedResult := completed\<rparr>))"

text \<open>The admission index of the active run, when it is the run asked for, and the cached view of the retained run.\<close>

definition ownedIndex :: "('f, 'p) ExchangeRunController \<Rightarrow> ExchangeRunId \<Rightarrow> CommandAdmissionIndex option" where
  "ownedIndex ctl runId =
     (case rs_admissionIndex (ctl_run ctl) of
        Some idx \<Rightarrow> if adm_exchangeRunId idx = runId then Some idx else None
      | None \<Rightarrow> None)"

definition cachedView ::
  "('f, 'p) ExchangeRunController \<Rightarrow> string \<Rightarrow> ExchangeRunId \<Rightarrow> RetainedStoppedRunView option" where
  "cachedView ctl catalogBinding runId =
     (case ctl_retainedStoppedRunView ctl of
        Some view \<Rightarrow>
          if rv_canonicalCatalogPath view = catalogBinding \<and> rv_exchangeRunId view = runId then Some view else None
      | None \<Rightarrow> None)"

text \<open>The reconstruction of the retained run, whose writer is released.\<close>

definition reconstructRetained ::
  "('w, 'f) RunEnvironment \<Rightarrow> nat \<Rightarrow> string \<Rightarrow> ExchangeRunId \<Rightarrow> sequenceMessage \<Rightarrow> RunCatalogLoadResult \<Rightarrow>
     ('f, 'p) ExchangeRunController \<Rightarrow> 'w \<Rightarrow>
     (CompletedResultLookupResult result \<times> ('f, 'p) ExchangeRunController \<times> 'w) option" where
  "reconstructRetained env fuel catalogBinding runId command load ctl w =
     Option.bind (recoverRunAt env fuel (deriveCanonicalRunJournalPathV1 catalogBinding runId) (Some runId) w)
       (\<lambda>(recovery, reconstructed, w).
     if rr_outcome recovery \<noteq> RR_RECOVERED
     then Some (Inr (lookupResult LK_RECOVERY_FAILED (Some load) (Some recovery)), ctl, w)
     else
     let view = \<lparr>rv_canonicalCatalogPath = catalogBinding, rv_exchangeRunId = runId,
                 rv_matchingState = rs_matchingState reconstructed,
                 rv_admissionIndex = rs_admissionIndex reconstructed\<rparr>;
         ctl = ctl\<lparr>ctl_retainedStoppedRunView := Some view\<rparr> in
     map_option (\<lambda>idx. (lookupIn idx command (Some load) (Some recovery), ctl, w)) (rv_admissionIndex view))"

definition lookupCompletedResultV1 ::
  "('w, 'f) RunEnvironment \<Rightarrow> nat \<Rightarrow> string \<Rightarrow> ExchangeRunId \<Rightarrow> sequenceMessage \<Rightarrow>
     ('f, 'p) ExchangeRunController \<Rightarrow> 'w \<Rightarrow>
     (CompletedResultLookupResult result \<times> ('f, 'p) ExchangeRunController \<times> 'w) option" where
  "lookupCompletedResultV1 env fuel canonicalCatalogPath runId command ctl w =
     (case map_option lexically_normal (absolute (env_currentPath env) canonicalCatalogPath) of
        None \<Rightarrow> Some (Inr (lookupResult LK_CATALOG_PATH_FAILED None None), ctl, w)
      | Some catalogBinding \<Rightarrow>
          let boundCatalog = lexically_normal (ctl_canonicalCatalogPath ctl) in
          if boundCatalog \<noteq> [] \<and> catalogBinding \<noteq> boundCatalog
          then Some (Inr (lookupResult LK_CATALOG_BINDING_MISMATCH None None), ctl, w)
          else
          case ownedIndex ctl runId of
            Some idx \<Rightarrow> Some (lookupIn idx command None None, ctl, w)
          | None \<Rightarrow>
              Option.bind (loadRunCatalogV1 (dd_files (env_directory env catalogBinding)) fuel w empty_RunCatalogSnapshotV1)
                (\<lambda>(load, catalog).
              if cl_outcome load \<noteq> CL_LOADED
              then Some (Inr (lookupResult LK_CATALOG_LOAD_FAILED (Some load) None), ctl, w)
              else if rc_activeRunId catalog = Some runId
              then Some (Inr (lookupResult LK_ACTIVE_RUN_NOT_OWNED (Some load) None), ctl, w)
              else if rc_retainedStoppedRunId catalog \<noteq> Some runId
              then Some (Inr (lookupResult LK_RUN_NOT_RETAINED (Some load) None), ctl, w)
              else
              case cachedView ctl catalogBinding runId of
                Some view \<Rightarrow>
                  map_option (\<lambda>idx. (lookupIn idx command (Some load) None, ctl, w)) (rv_admissionIndex view)
              | None \<Rightarrow> reconstructRetained env fuel catalogBinding runId command load ctl w))"

text \<open>The participant's view of an authoritative result.\<close>

definition privateLookup ::
  "ExchangeRunId \<Rightarrow> sequenceMessage \<Rightarrow> CompletedResultLookupResult \<Rightarrow> PrivateResultLookupResult result" where
  "privateLookup runId command authoritative =
     (let res = \<lparr>pl_outcome = lk_outcome authoritative, pl_privateResult = None,
                 pl_catalogLoad = lk_catalogLoad authoritative, pl_recovery = lk_recovery authoritative\<rparr> in
      if lk_outcome authoritative \<noteq> LK_FOUND then Inr res
      else
      case (lk_completedResult authoritative, clientCommandId command) of
        (Some batch, Some commandId) \<Rightarrow>
          if co_exchangeRunId (correlation batch) \<noteq> runId \<or> co_clientId (correlation batch) \<noteq> clientId command \<or>
             co_clientCommandId (correlation batch) \<noteq> commandId
          then Inr (res\<lparr>pl_outcome := LK_INVARIANT_FAILURE\<rparr>)
          else
          bind_result (projectPrivateResult batch (clientId command)) (\<lambda>projected.
            Inr (if projected = None then res\<lparr>pl_outcome := LK_INVARIANT_FAILURE\<rparr>
                 else res\<lparr>pl_privateResult := projected\<rparr>))
      | _ \<Rightarrow> Inr (res\<lparr>pl_outcome := LK_INVARIANT_FAILURE\<rparr>))"

definition lookupPrivateResultV1 ::
  "('w, 'f) RunEnvironment \<Rightarrow> nat \<Rightarrow> string \<Rightarrow> ExchangeRunId \<Rightarrow> sequenceMessage \<Rightarrow>
     ('f, 'p) ExchangeRunController \<Rightarrow> 'w \<Rightarrow>
     (PrivateResultLookupResult result \<times> ('f, 'p) ExchangeRunController \<times> 'w) option" where
  "lookupPrivateResultV1 env fuel canonicalCatalogPath runId command ctl w =
     map_option (\<lambda>(authoritative, ctl, w). (bind_result authoritative (privateLookup runId command), ctl, w))
       (lookupCompletedResultV1 env fuel canonicalCatalogPath runId command ctl w)"

end
