(* ===== verification/Command_Path.thy ===== *)
theory Command_Path
  imports Run_Controller Sequencer Completion_Consumer
begin

text \<open>
  The command-processing path of the run controller, \<open>core/recovery/src/controller_command_processing.cpp\<close>: the
  queues between the sequencer, the matching engine, the admission completion consumer and the result dispatcher, the
  submission of commands and the cycle that drives the four. The workers hold references to the queues of the path and
  to the objects of the run. Here the path and the run own them, and a worker's record is given the current ones before
  a call (\<open>borrow\<close>) and handed back after it. A call that throws keeps the state it had reached. \<open>None\<close> is the result
  of too little fuel or of following a null pointer.
\<close>

definition bind_state :: "('e + 'a) \<times> 's \<Rightarrow> ('a \<Rightarrow> 's \<Rightarrow> ('e + 'b) \<times> 's) \<Rightarrow> ('e + 'b) \<times> 's" where
  "bind_state r f = (case r of (Inl e, s) \<Rightarrow> (Inl e, s) | (Inr x, s) \<Rightarrow> f x s)"

lemma bind_state_simps [simp]:
  "bind_state (Inl e, s) f = (Inl e, s)"
  "bind_state (Inr x, s) f = f x s"
  by (simp_all add: bind_state_def)

section \<open>The result dispatcher\<close>

record CommandResultDispatcher =
  rd_completion :: AdmissionCompletionConsumer
  rd_privateHandoff :: BoundedPrivateResultQueue
  rd_publicHandoff :: BoundedPublicTradeQueue
  rd_pendingResult :: "CommandResultBatch option"
  rd_pendingPrivateResults :: RecipientResults
  rd_pendingPublicTrades :: "PublicTrade list"
  rd_projectionsReady :: bool

definition make_CommandResultDispatcher ::
  "AdmissionCompletionConsumer \<Rightarrow> BoundedPrivateResultQueue \<Rightarrow> BoundedPublicTradeQueue \<Rightarrow> CommandResultDispatcher" where
  "make_CommandResultDispatcher completion privateHandoff publicHandoff =
     \<lparr>rd_completion = completion, rd_privateHandoff = privateHandoff, rd_publicHandoff = publicHandoff,
      rd_pendingResult = None, rd_pendingPrivateResults = [], rd_pendingPublicTrades = [], rd_projectionsReady = False\<rparr>"

definition clearPending :: "CommandResultDispatcher \<Rightarrow> CommandResultDispatcher" where
  "clearPending d = d\<lparr>rd_projectionsReady := False, rd_pendingPrivateResults := [], rd_pendingPublicTrades := [],
     rd_pendingResult := None\<rparr>"

text \<open>The parts of \<open>advance\<close>: taking the next completed result (\<open>None\<close> when there is none), projecting it, and the two
  handoffs, each of which empties what it hands over. The flag says whether the part made progress.\<close>

definition takeCompleted :: "CommandResultDispatcher \<Rightarrow> bool option result \<times> CommandResultDispatcher" where
  "takeCompleted d =
     (if rd_pendingResult d \<noteq> None then (Inr (Some False), d)
      else
      case consumer_processNext (rd_completion d) of
        (Inl e, completion) \<Rightarrow> (Inl e, d\<lparr>rd_completion := completion\<rparr>)
      | (Inr None, completion) \<Rightarrow> (Inr None, d\<lparr>rd_completion := completion\<rparr>)
      | (Inr (Some batch), completion) \<Rightarrow>
          (Inr (Some True), d\<lparr>rd_completion := completion, rd_pendingResult := Some batch\<rparr>))"

definition projectPending :: "CommandResultDispatcher \<Rightarrow> bool result \<times> CommandResultDispatcher" where
  "projectPending d =
     (case rd_pendingResult d of
        None \<Rightarrow> (Inl (undefined_behaviour ''null command result''), d)
      | Some batch \<Rightarrow>
          if rd_projectionsReady d then (Inr False, d)
          else
          case projectPrivateResults batch of
            Inl e \<Rightarrow> (Inl e, d)
          | Inr private \<Rightarrow>
              (Inr True, d\<lparr>rd_pendingPrivateResults := private, rd_pendingPublicTrades := projectPublicTrades batch,
                           rd_projectionsReady := True\<rparr>))"

definition handoffPrivate :: "CommandResultDispatcher \<Rightarrow> bool result \<times> CommandResultDispatcher" where
  "handoffPrivate d =
     (if rd_pendingPrivateResults d = [] then (Inr False, d)
      else
      case prq_tryPush (rd_privateHandoff d) (rd_pendingPrivateResults d) of
        Inl e \<Rightarrow> (Inl e, d)
      | Inr (False, _) \<Rightarrow> (Inr False, d)
      | Inr (True, q) \<Rightarrow> (Inr True, d\<lparr>rd_privateHandoff := q, rd_pendingPrivateResults := []\<rparr>))"

definition handoffPublic :: "CommandResultDispatcher \<Rightarrow> bool result \<times> CommandResultDispatcher" where
  "handoffPublic d =
     (if rd_pendingPublicTrades d = [] then (Inr False, d)
      else
      case ptq_tryPush (rd_publicHandoff d) (rd_pendingPublicTrades d) of
        Inl e \<Rightarrow> (Inl e, d)
      | Inr (False, _) \<Rightarrow> (Inr False, d)
      | Inr (True, q) \<Rightarrow> (Inr True, d\<lparr>rd_publicHandoff := q, rd_pendingPublicTrades := []\<rparr>))"

definition dispatcher_advance :: "CommandResultDispatcher \<Rightarrow> bool result \<times> CommandResultDispatcher" where
  "dispatcher_advance d =
     bind_state (takeCompleted d) (\<lambda>taken d.
     case taken of
       None \<Rightarrow> (Inr False, d)
     | Some progressed \<Rightarrow>
         bind_state (projectPending d) (\<lambda>projected d.
         bind_state (handoffPrivate d) (\<lambda>private d.
         bind_state (handoffPublic d) (\<lambda>public d.
           (Inr (progressed \<or> projected \<or> private \<or> public),
            if rd_pendingPrivateResults d = [] \<and> rd_pendingPublicTrades d = [] then clearPending d else d)))))"

definition dispatcher_hasPendingResult :: "CommandResultDispatcher \<Rightarrow> bool" where
  "dispatcher_hasPendingResult d \<longleftrightarrow> rd_pendingResult d \<noteq> None"

definition projectionPending :: "CommandResultDispatcher \<Rightarrow> bool" where
  "projectionPending d \<longleftrightarrow> rd_pendingResult d \<noteq> None \<and> \<not> rd_projectionsReady d"

definition privateHandoffPending :: "CommandResultDispatcher \<Rightarrow> bool" where
  "privateHandoffPending d \<longleftrightarrow> rd_pendingPrivateResults d \<noteq> []"

definition publicHandoffPending :: "CommandResultDispatcher \<Rightarrow> bool" where
  "publicHandoffPending d \<longleftrightarrow> rd_pendingPublicTrades d \<noteq> []"

definition pendingPrivateEventCount :: "CommandResultDispatcher \<Rightarrow> nat" where
  "pendingPrivateEventCount d = foldl (\<lambda>count r. count + length (privateResult r)) 0 (rd_pendingPrivateResults d)"

definition pendingTradeCount :: "CommandResultDispatcher \<Rightarrow> nat" where
  "pendingTradeCount d = length (rd_pendingPublicTrades d)"

section \<open>The path\<close>

datatype FailStopCatalogPreconditionFailure =
  FP_NONE | FP_ACTIVE_RUN_ID_MISMATCH | FP_CATALOG_NOT_OPEN | FP_GENERATION_EXHAUSTED

record ('q, 'f) CommandProcessingPath =
  cp_ingress :: 'q
  cp_matching :: 'q
  cp_results :: BoundedCommandResultQueue
  cp_privateResults :: BoundedPrivateResultQueue
  cp_publicTrades :: BoundedPublicTradeQueue
  cp_bus :: Bus
  cp_sequencer :: "('q, 'f) Sequencer"
  cp_matcher :: MatchingEngine
  cp_completion :: AdmissionCompletionConsumer
  cp_resultDispatcher :: CommandResultDispatcher
  cp_internalFailure :: "cpp_exception option"
  acceptedNotAppendedCommands :: u64
  acceptedNotAppendedBytes :: u64
  capacityTransitionPending :: bool
  capacityCatalogLoad :: "RunCatalogLoadResult option"
  capacityCatalogReplacement :: "RunCatalogReplaceResult option"
  failStopCatalogPreconditionFailure :: FailStopCatalogPreconditionFailure
  failStopCatalogLoad :: "RunCatalogLoadResult option"
  failStopCatalogReplacement :: "RunCatalogReplaceResult option"

text \<open>The operating system and the Boost queue: the environment of the run, the operations of
  \<open>boost::lockfree::queue\<close>, the calls on the open journal, and those that remove the journal of a replaced run.\<close>

record ('w, 'f, 'q) ProcessingEnvironment =
  pe_run :: "('w, 'f) RunEnvironment"
  pe_makeQueue :: "nat \<Rightarrow> 'q"
  pe_push :: "('q, sequenceMessage) queue_push"
  pe_pop :: "('q, sequenceMessage) queue_pop"
  pe_empty :: "'q \<Rightarrow> bool"
  pe_writeFile :: "'f write_hook"
  pe_syncFile :: "'f sync_hook"
  pe_removeFile :: "'w \<Rightarrow> string \<Rightarrow> int \<times> 'w"
  pe_openDirectory :: "'w \<Rightarrow> string \<Rightarrow> int + 'f"

type_synonym ('f, 'q) controller = "('f, ('q, 'f) CommandProcessingPath) ExchangeRunController"

definition checkedCommandCapacity :: "nat \<Rightarrow> nat result" where
  "checkedCommandCapacity capacity =
     (if capacity = 0 \<or> capacity \<ge> 65535
      then Inl (invalid_argument ''controller command queue capacity must be between 1 and 65534'')
      else Inr capacity)"

definition checkedPublicTradeCapacity :: "nat \<Rightarrow> 'f RunJournalWriterV1 \<Rightarrow> nat result" where
  "checkedPublicTradeCapacity capacity writer =
     (let maximumBatch = (ucast (rh_maxEventsPerCommand (w_header writer)) :: u64) in
      if unat maximumBatch > SIZE_MAX \<or> capacity < unat maximumBatch
      then Inl (invalid_argument ''controller public-trade record capacity must hold one maximum command result'')
      else Inr capacity)"

definition checkedPrivateEventCapacity :: "nat \<Rightarrow> 'f RunJournalWriterV1 \<Rightarrow> nat result" where
  "checkedPrivateEventCapacity capacity writer =
     (let maximumEvents = (ucast (rh_maxEventsPerCommand (w_header writer)) :: u64) in
      if capacity < unat (2 * maximumEvents)
      then Inl (invalid_argument ''controller private-event capacity must hold one worst-case projection'')
      else Inr capacity)"

text \<open>The constructor initialises the members in their order; each may throw. A null owner of the run is undefined
  behaviour there.\<close>

definition make_CommandProcessingPath ::
  "('w, 'f, 'q) ProcessingEnvironment \<Rightarrow> 'f RunStateV1 \<Rightarrow> nat \<Rightarrow> nat \<Rightarrow> nat \<Rightarrow> nat \<Rightarrow> nat \<Rightarrow>
     ('q, 'f) CommandProcessingPath result" where
  "make_CommandProcessingPath env run submissionCapacity matchingCapacity resultCapacity privateEventCapacity
       publicTradeRecordCapacity =
     bind_result (map_sum id (pe_makeQueue env) (checkedCommandCapacity submissionCapacity)) (\<lambda>ingress.
     bind_result (map_sum id (pe_makeQueue env) (checkedCommandCapacity matchingCapacity)) (\<lambda>matching.
     bind_result (make_BoundedCommandResultQueue resultCapacity) (\<lambda>results.
     bind_result (get_or_throw (rs_journalWriter run) (undefined_behaviour ''null journal writer'')) (\<lambda>writer.
     bind_result (bind_result (checkedPrivateEventCapacity privateEventCapacity writer) make_BoundedPrivateResultQueue) (\<lambda>private.
     bind_result (bind_result (checkedPublicTradeCapacity publicTradeRecordCapacity writer) make_BoundedPublicTradeQueue) (\<lambda>public.
     bind_result (make_Bus 1) (\<lambda>bus.
     bind_result (get_or_throw (rs_admissionIndex run) (undefined_behaviour ''null admission index'')) (\<lambda>idx.
     bind_result (make_journal_Sequencer ingress matching idx writer) (\<lambda>sequencer.
     bind_result (get_or_throw (rs_matchingState run) (undefined_behaviour ''null matching state'')) (\<lambda>book.
     let completion = make_AdmissionCompletionConsumer results idx in
     Inr \<lparr>cp_ingress = ingress, cp_matching = matching, cp_results = results, cp_privateResults = private,
          cp_publicTrades = public, cp_bus = bus, cp_sequencer = sequencer,
          cp_matcher = make_MatchingEngine bus results book, cp_completion = completion,
          cp_resultDispatcher = make_CommandResultDispatcher completion private public,
          cp_internalFailure = None, acceptedNotAppendedCommands = 0, acceptedNotAppendedBytes = 0,
          capacityTransitionPending = False, capacityCatalogLoad = None, capacityCatalogReplacement = None,
          failStopCatalogPreconditionFailure = FP_NONE, failStopCatalogLoad = None,
          failStopCatalogReplacement = None\<rparr>))))))))))"

definition processingDrained :: "('w, 'f, 'q) ProcessingEnvironment \<Rightarrow> ('q, 'f) CommandProcessingPath \<Rightarrow> bool" where
  "processingDrained env path \<longleftrightarrow>
     pe_empty env (cp_ingress path) \<and> pe_empty env (cp_matching path) \<and> crq_size (cp_results path) = 0 \<and>
     pendingCommand (cp_sequencer path) = None \<and> \<not> hasPendingResult (cp_matcher path) \<and>
     inProgressCommand (cp_matcher path) = None \<and> \<not> hasPendingBatch (cp_completion path) \<and>
     \<not> dispatcher_hasPendingResult (cp_resultDispatcher path)"

definition resultHandoffsDrained :: "('q, 'f) CommandProcessingPath \<Rightarrow> bool" where
  "resultHandoffsDrained path \<longleftrightarrow>
     prq_batches (cp_privateResults path) = [] \<and> ptq_batches (cp_publicTrades path) = [] \<and>
     \<not> privateHandoffPending (cp_resultDispatcher path) \<and> \<not> publicHandoffPending (cp_resultDispatcher path)"

section \<open>Installation\<close>

definition installCommandProcessingV1 ::
  "('w, 'f, 'q) ProcessingEnvironment \<Rightarrow> nat \<Rightarrow> nat \<Rightarrow> nat \<Rightarrow> nat \<Rightarrow> nat \<Rightarrow> ('f, 'q) controller \<Rightarrow>
     bool result \<times> ('f, 'q) controller" where
  "installCommandProcessingV1 env submissionCapacity matchingCapacity resultCapacity privateEventCapacity
       publicTradeRecordCapacity ctl =
     (if ctl_commandProcessing ctl \<noteq> None \<or> rs_journalWriter (ctl_run ctl) = None \<or>
         (ctl_state ctl \<noteq> ES_READY \<and> ctl_state ctl \<noteq> ES_PAUSED)
      then (Inr False, ctl)
      else
      case make_CommandProcessingPath env (ctl_run ctl) submissionCapacity matchingCapacity resultCapacity
             privateEventCapacity publicTradeRecordCapacity of
        Inl e \<Rightarrow> (Inl e, ctl)
      | Inr path \<Rightarrow> (Inr True, ctl\<lparr>ctl_commandProcessing := Some path\<rparr>))"

section \<open>Submission\<close>

definition prospectiveFrameSize :: "sequenceMessage \<Rightarrow> 'f RunJournalWriterV1 \<Rightarrow> nat option" where
  "prospectiveFrameSize command writer =
     (case clientCommandId command of
        None \<Rightarrow> None
      | Some ccid \<Rightarrow>
          if unat (configurationVersion command) > UINT32_MAX then None
          else
          let header = w_header writer; version = ucast (configurationVersion command) in
          if orderType_of command = BUY \<or> orderType_of command = SELL
          then prospectiveFrameSize_new_order writer
            \<lparr>jn_exchangeRunId = rh_exchangeRunId header, jn_commandSequence = nextCommandSequence writer,
             jn_behavioralRulesVersion = rh_behavioralRulesVersion header, jn_configurationVersion = version,
             jn_clientId = clientId command, jn_instrumentId = instrumentId command, jn_clientCommandId = ccid,
             jn_side = (if orderType_of command = BUY then Side_BUY else Side_SELL),
             jn_timeInForce = tif command, jn_price = price command, jn_quantity = quantity command\<rparr>
          else
          case targetOrderId command of
            None \<Rightarrow> None
          | Some target \<Rightarrow>
              if orderType_of command \<noteq> CANCEL then None
              else prospectiveFrameSize_cancel writer
                \<lparr>jc_exchangeRunId = rh_exchangeRunId header, jc_commandSequence = nextCommandSequence writer,
                 jc_behavioralRulesVersion = rh_behavioralRulesVersion header, jc_configurationVersion = version,
                 jc_clientId = clientId command, jc_instrumentId = instrumentId command, jc_clientCommandId = ccid,
                 jc_targetOrderId = target\<rparr>)"

text \<open>Whether the command still fits into the run, and whether it is the last that does.\<close>

definition runCapacity ::
  "'f RunJournalWriterV1 \<Rightarrow> ('q, 'f) CommandProcessingPath \<Rightarrow> nat option \<Rightarrow> bool \<times> bool" where
  "runCapacity writer path frameSize =
     (case frameSize of
        None \<Rightarrow> (True, False)
      | Some bytes \<Rightarrow>
          let header = w_header writer;
              committedCommands = committedCommandCount writer; committedBytes = committedByteCount writer;
              frameBytes = of_nat bytes;
              capacityAvailable =
                acceptedNotAppendedCommands path < rh_maxRunCommands header - committedCommands \<and>
                acceptedNotAppendedBytes path \<le> rh_maxRunJournalBytes header - committedBytes \<and>
                frameBytes \<le> rh_maxRunJournalBytes header - committedBytes - acceptedNotAppendedBytes path in
          (capacityAvailable,
           capacityAvailable \<and>
           (committedCommands + acceptedNotAppendedCommands path + 1 = rh_maxRunCommands header \<or>
            committedBytes + acceptedNotAppendedBytes path + frameBytes = rh_maxRunJournalBytes header)))"

text \<open>A call of the admission index with the ingress queue of the path; \<open>reserveAndStage\<close> is the call with capacity
  available.\<close>

definition stageCommand ::
  "('w, 'f, 'q) ProcessingEnvironment \<Rightarrow> sequenceMessage \<Rightarrow> bool \<Rightarrow> ('q, 'f) CommandProcessingPath \<Rightarrow>
     ('f, 'q) controller \<Rightarrow> (AdmissionDecision result \<times> ('f, 'q) controller) option" where
  "stageCommand env command capacityAvailable path ctl =
     map_option (\<lambda>idx.
       case reserveAndStageForRunCapacity (pe_push env) idx command (cp_ingress path) capacityAvailable of
         Inl e \<Rightarrow> (Inl e, ctl)
       | Inr (decision, idx, q) \<Rightarrow>
           (Inr decision,
            ctl\<lparr>ctl_run := (ctl_run ctl)\<lparr>rs_admissionIndex := Some idx\<rparr>,
                ctl_commandProcessing := Some (path\<lparr>cp_ingress := q\<rparr>)\<rparr>))
       (rs_admissionIndex (ctl_run ctl))"

definition updatePath ::
  "(('q, 'f) CommandProcessingPath \<Rightarrow> ('q, 'f) CommandProcessingPath) \<Rightarrow> ('f, 'q) controller \<Rightarrow> ('f, 'q) controller" where
  "updatePath f ctl = ctl\<lparr>ctl_commandProcessing := map_option f (ctl_commandProcessing ctl)\<rparr>"

definition accountSubmission ::
  "nat option \<Rightarrow> bool \<Rightarrow> AdmissionDecision \<Rightarrow> ('f, 'q) controller \<Rightarrow> ('f, 'q) controller" where
  "accountSubmission frameSize exhaustsCapacity decision ctl =
     (if ad_status decision = FIRST_SUBMISSION then
        let ctl = updatePath (\<lambda>path. path\<lparr>
              acceptedNotAppendedCommands := acceptedNotAppendedCommands path + 1,
              acceptedNotAppendedBytes := acceptedNotAppendedBytes path +
                (case frameSize of None \<Rightarrow> 0 | Some bytes \<Rightarrow> of_nat bytes)\<rparr>) ctl in
        if exhaustsCapacity then closeAdmission (updatePath (\<lambda>path. path\<lparr>capacityTransitionPending := True\<rparr>) ctl)
        else ctl
      else if rejectionReason decision = Some RUN_CAPACITY_REACHED
      then closeAdmission (updatePath (\<lambda>path. path\<lparr>capacityTransitionPending := True\<rparr>) ctl)
      else ctl)"

definition submitCommandV1 ::
  "('w, 'f, 'q) ProcessingEnvironment \<Rightarrow> ExchangeRunId \<Rightarrow> sequenceMessage \<Rightarrow> ('f, 'q) controller \<Rightarrow>
     (AdmissionDecision result \<times> ('f, 'q) controller) option" where
  "submitCommandV1 env runId command ctl =
     (case ctl_commandProcessing ctl of
        None \<Rightarrow> Some (Inr (unavailable (Some EXCHANGE_RUN_UNAVAILABLE)), ctl)
      | Some path \<Rightarrow>
          Option.bind (rs_journalWriter (ctl_run ctl)) (\<lambda>writer.
          if runId \<noteq> rh_exchangeRunId (w_header writer)
          then Some (Inr (unavailable (Some EXCHANGE_RUN_UNAVAILABLE)), ctl)
          else if ctl_state ctl = ES_CAPACITY_REACHED \<or> (ctl_state ctl = ES_READY \<and> capacityTransitionPending path)
          then stageCommand env command False path ctl
          else if ctl_state ctl \<noteq> ES_READY then stageCommand env command True path ctl
          else
          let frameSize = prospectiveFrameSize command writer;
              (capacityAvailable, exhaustsCapacity) = runCapacity writer path frameSize in
          map_option (\<lambda>(decision, ctl).
            (decision,
             case decision of Inl _ \<Rightarrow> ctl | Inr d \<Rightarrow> accountSubmission frameSize exhaustsCapacity d ctl))
            (stageCommand env command capacityAvailable path ctl)))"

section \<open>The workers\<close>

definition sequenceStep ::
  "('w, 'f, 'q) ProcessingEnvironment \<Rightarrow> nat \<Rightarrow> ('q, 'f) CommandProcessingPath \<Rightarrow> 'f RunStateV1 \<Rightarrow>
     (bool result \<times> ('q, 'f) CommandProcessingPath \<times> 'f RunStateV1) option" where
  "sequenceStep env fuel path run =
     (let borrow = (cp_sequencer path)\<lparr>sequencingIngressQueue := cp_ingress path, matchingEngineQueue := cp_matching path,
            seq_admissionIndex := rs_admissionIndex run, journalWriter := rs_journalWriter run\<rparr> in
      map_option (\<lambda>(r, s).
        (r, path\<lparr>cp_sequencer := s, cp_ingress := sequencingIngressQueue s, cp_matching := matchingEngineQueue s\<rparr>,
         run\<lparr>rs_admissionIndex := seq_admissionIndex s, rs_journalWriter := journalWriter s\<rparr>))
        (seq_advance (pe_push env) (pe_pop env) (pe_empty env) (pe_writeFile env) (pe_syncFile env) fuel fuel borrow))"

text \<open>No reader is registered with the bus of the path.\<close>

definition matchStep ::
  "('w, 'f, 'q) ProcessingEnvironment \<Rightarrow> nat \<Rightarrow> ('q, 'f) CommandProcessingPath \<Rightarrow> 'f RunStateV1 \<Rightarrow>
     (bool result \<times> ('q, 'f) CommandProcessingPath \<times> 'f RunStateV1) option" where
  "matchStep env fuel path run =
     Option.bind (rs_matchingState run) (\<lambda>book.
     let borrow = (cp_matcher path)\<lparr>matchingState := book, multicastBus := cp_bus path, commandResultQueue := cp_results path\<rparr> in
     map_option (\<lambda>(r, q, me).
       (r, path\<lparr>cp_matcher := me, cp_matching := q, cp_bus := multicastBus me, cp_results := commandResultQueue me\<rparr>,
        run\<lparr>rs_matchingState := Some (matchingState me)\<rparr>))
       (engine_advance (pe_pop env) (\<lambda>_. 0) fuel (cp_matching path) borrow))"

definition dispatchStep ::
  "('q, 'f) CommandProcessingPath \<Rightarrow> 'f RunStateV1 \<Rightarrow>
     (bool result \<times> ('q, 'f) CommandProcessingPath \<times> 'f RunStateV1) option" where
  "dispatchStep path run =
     map_option (\<lambda>idx.
       let borrow = (cp_resultDispatcher path)\<lparr>
             rd_completion := (cp_completion path)\<lparr>resultQueue := cp_results path, admissionIndex := idx\<rparr>,
             rd_privateHandoff := cp_privateResults path, rd_publicHandoff := cp_publicTrades path\<rparr>;
           (r, d) = dispatcher_advance borrow;
           completion = rd_completion d in
       (r, path\<lparr>cp_resultDispatcher := d, cp_completion := completion, cp_results := resultQueue completion,
                cp_privateResults := rd_privateHandoff d, cp_publicTrades := rd_publicHandoff d\<rparr>,
        run\<lparr>rs_admissionIndex := Some (admissionIndex completion)\<rparr>))
       (rs_admissionIndex run)"

section \<open>The cycle\<close>

definition accountJournalProgress ::
  "u64 \<Rightarrow> u64 \<Rightarrow> 'f RunJournalWriterV1 \<Rightarrow> ('q, 'f) CommandProcessingPath \<Rightarrow>
     bool \<times> ('q, 'f) CommandProcessingPath" where
  "accountJournalProgress beforeCommands beforeBytes writer path =
     (let appendedCommands = committedCommandCount writer - beforeCommands;
          appendedBytes = committedByteCount writer - beforeBytes in
      if appendedCommands > acceptedNotAppendedCommands path \<or> appendedBytes > acceptedNotAppendedBytes path
      then (False, path)
      else (True, path\<lparr>acceptedNotAppendedCommands := acceptedNotAppendedCommands path - appendedCommands,
                       acceptedNotAppendedBytes := acceptedNotAppendedBytes path - appendedBytes\<rparr>))"

text \<open>The part of the \<open>try\<close> block that moves commands: \<open>Inr None\<close> when the journal refused a command, otherwise
  whether anything moved.\<close>

definition processingCycle ::
  "('w, 'f, 'q) ProcessingEnvironment \<Rightarrow> nat \<Rightarrow> u64 \<Rightarrow> u64 \<Rightarrow> ('q, 'f) CommandProcessingPath \<Rightarrow> 'f RunStateV1 \<Rightarrow>
     (bool option result \<times> ('q, 'f) CommandProcessingPath \<times> 'f RunStateV1) option" where
  "processingCycle env fuel beforeCommands beforeBytes path run =
     Option.bind (sequenceStep env fuel path run) (\<lambda>(r1, path, run).
     case r1 of
       Inl e \<Rightarrow> Some (Inl e, path, run)
     | Inr progress1 \<Rightarrow>
         Option.bind (rs_journalWriter run) (\<lambda>writer.
         case accountJournalProgress beforeCommands beforeBytes writer path of
           (False, path) \<Rightarrow>
             Some (Inl (logic_error ''controller capacity accounting diverged from journal progress''), path, run)
         | (True, path) \<Rightarrow>
             if journalAppendFailure (cp_sequencer path) \<noteq> None then Some (Inr None, path, run)
             else
             Option.bind (matchStep env fuel path run) (\<lambda>(r2, path, run).
             case r2 of
               Inl e \<Rightarrow> Some (Inl e, path, run)
             | Inr progress2 \<Rightarrow>
                 map_option (\<lambda>(r3, path, run).
                   (case r3 of
                      Inl e \<Rightarrow> Inl e
                    | Inr progress3 \<Rightarrow> Inr (Some (progress1 \<or> progress2 \<or> progress3)), path, run))
                   (dispatchStep path run))))"

definition publishFailStopped ::
  "('w, 'f, 'q) ProcessingEnvironment \<Rightarrow> nat \<Rightarrow> ('f, 'q) controller \<Rightarrow> 'w \<Rightarrow> (('f, 'q) controller \<times> 'w) option" where
  "publishFailStopped env fuel ctl w =
     (let ctl = ctl\<lparr>ctl_state := ES_UNAVAILABLE\<rparr>;
          files = dd_files (env_directory (pe_run env) (ctl_canonicalCatalogPath ctl)) in
      Option.bind (rs_journalWriter (ctl_run ctl)) (\<lambda>writer.
      Option.bind (loadRunCatalogV1 files fuel w empty_RunCatalogSnapshotV1) (\<lambda>(load, catalog).
      let ctl = updatePath (\<lambda>path. path\<lparr>failStopCatalogLoad := Some load\<rparr>) ctl;
          refuse = (\<lambda>reason. Some (updatePath (\<lambda>path. path\<lparr>failStopCatalogPreconditionFailure := reason\<rparr>) ctl, w)) in
      if cl_outcome load \<noteq> CL_LOADED then Some (ctl, w)
      else if rc_activeRunId catalog \<noteq> Some (rh_exchangeRunId (w_header writer)) then refuse FP_ACTIVE_RUN_ID_MISMATCH
      else if rc_activeDisposition catalog \<noteq> OPEN then refuse FP_CATALOG_NOT_OPEN
      else if rc_generation catalog = - 1 then refuse FP_GENERATION_EXHAUSTED
      else
      let catalog = catalog\<lparr>rc_generation := rc_generation catalog + 1, rc_activeDisposition := FAIL_STOPPED\<rparr> in
      Option.bind (replaceRunCatalogV1WithHooks files fuel w catalog) (\<lambda>(replacement, w).
      let ctl = updatePath (\<lambda>path. path\<lparr>failStopCatalogReplacement := Some replacement\<rparr>) ctl in
      if cp_outcome replacement \<noteq> CR_COMMITTED then Some (ctl, w)
      else Some (ctl\<lparr>ctl_state := ES_FAIL_STOPPED\<rparr>, w)))))"

definition publishCapacityReached ::
  "('w, 'f, 'q) ProcessingEnvironment \<Rightarrow> nat \<Rightarrow> ('f, 'q) controller \<Rightarrow> 'w \<Rightarrow>
     (bool \<times> ('f, 'q) controller \<times> 'w) option" where
  "publishCapacityReached env fuel ctl w =
     (let files = dd_files (env_directory (pe_run env) (ctl_canonicalCatalogPath ctl)) in
      Option.bind (rs_journalWriter (ctl_run ctl)) (\<lambda>writer.
      Option.bind (loadRunCatalogV1 files fuel w empty_RunCatalogSnapshotV1) (\<lambda>(load, catalog).
      let ctl = updatePath (\<lambda>path. path\<lparr>capacityCatalogLoad := Some load\<rparr>) ctl in
      if cl_outcome load \<noteq> CL_LOADED then Some (False, ctl\<lparr>ctl_state := ES_UNAVAILABLE\<rparr>, w)
      else if rc_activeRunId catalog \<noteq> Some (rh_exchangeRunId (w_header writer)) \<or>
        rc_activeDisposition catalog \<noteq> OPEN \<or> rc_generation catalog = - 1
      then Some (False, ctl\<lparr>ctl_state := ES_UNAVAILABLE\<rparr>, w)
      else
      let catalog = catalog\<lparr>rc_generation := rc_generation catalog + 1, rc_activeDisposition := CAPACITY_REACHED\<rparr> in
      Option.bind (replaceRunCatalogV1WithHooks files fuel w catalog) (\<lambda>(replacement, w).
      let ctl = updatePath (\<lambda>path. path\<lparr>capacityCatalogReplacement := Some replacement\<rparr>) ctl in
      if cp_outcome replacement \<noteq> CR_COMMITTED then Some (False, ctl\<lparr>ctl_state := ES_UNAVAILABLE\<rparr>, w)
      else Some (True, ctl\<lparr>ctl_state := ES_CAPACITY_REACHED\<rparr>, w)))))"

definition advanceCommandProcessingV1WithHooks ::
  "('w, 'f, 'q) ProcessingEnvironment \<Rightarrow> nat \<Rightarrow> ('f, 'q) controller \<Rightarrow> 'w \<Rightarrow>
     (bool \<times> ('f, 'q) controller \<times> 'w) option" where
  "advanceCommandProcessingV1WithHooks env fuel ctl w =
     (case ctl_commandProcessing ctl of
        None \<Rightarrow> Some (False, ctl, w)
      | Some path \<Rightarrow>
          if ctl_state ctl \<noteq> ES_READY then Some (False, ctl, w)
          else
          Option.bind (rs_journalWriter (ctl_run ctl)) (\<lambda>writer.
          let beforeCommands = committedCommandCount writer; beforeBytes = committedByteCount writer in
          Option.bind (processingCycle env fuel beforeCommands beforeBytes path (ctl_run ctl)) (\<lambda>(r, path, run).
          let ctl = ctl\<lparr>ctl_commandProcessing := Some path, ctl_run := run\<rparr>;
              failed = (\<lambda>ctl. map_option (\<lambda>(ctl, w). (False, ctl, w)) (publishFailStopped env fuel (closeAdmission ctl) w)) in
          case r of
            Inl e \<Rightarrow>
              Option.bind (rs_journalWriter run) (\<lambda>writer.
                failed (updatePath (\<lambda>path.
                  (snd (accountJournalProgress beforeCommands beforeBytes writer path))\<lparr>cp_internalFailure := Some e\<rparr>) ctl))
          | Inr None \<Rightarrow> failed ctl
          | Inr (Some progressed) \<Rightarrow>
              if \<not> capacityTransitionPending path \<or> \<not> processingDrained env path then Some (progressed, ctl, w)
              else publishCapacityReached env fuel ctl w)))"

section \<open>Inspection and the handoffs\<close>

record CommandProcessingInspection =
  ci_installed :: bool
  ci_ingressEmpty :: bool
  ci_matchingEmpty :: bool
  ci_queuedResults :: nat
  ci_pendingMatchingResult :: bool
  ci_inProgressMatchingCommand :: "sequenceMessage option"
  ci_pendingCompletion :: bool
  ci_pendingResultProjection :: bool
  ci_pendingPrivateEventRecords :: nat
  ci_queuedPrivateEventRecords :: nat
  ci_pendingPublicTradeRecords :: nat
  ci_queuedPublicTradeRecords :: nat
  ci_pendingCommand :: "sequenceMessage option"
  ci_appendFailure :: "RunJournalAppendResult option"
  ci_internalFailure :: "cpp_exception option"
  ci_capacityTransitionPending :: bool
  ci_capacityCatalogLoad :: "RunCatalogLoadResult option"
  ci_capacityCatalogReplacement :: "RunCatalogReplaceResult option"
  ci_failStopCatalogPreconditionFailure :: FailStopCatalogPreconditionFailure
  ci_failStopCatalogLoad :: "RunCatalogLoadResult option"
  ci_failStopCatalogReplacement :: "RunCatalogReplaceResult option"

definition inspectCommandProcessingV1 ::
  "('w, 'f, 'q) ProcessingEnvironment \<Rightarrow> ('f, 'q) controller \<Rightarrow> CommandProcessingInspection" where
  "inspectCommandProcessingV1 env ctl =
     (case ctl_commandProcessing ctl of
        None \<Rightarrow>
          \<lparr>ci_installed = False, ci_ingressEmpty = True, ci_matchingEmpty = True, ci_queuedResults = 0,
           ci_pendingMatchingResult = False, ci_inProgressMatchingCommand = None, ci_pendingCompletion = False,
           ci_pendingResultProjection = False, ci_pendingPrivateEventRecords = 0, ci_queuedPrivateEventRecords = 0,
           ci_pendingPublicTradeRecords = 0, ci_queuedPublicTradeRecords = 0, ci_pendingCommand = None,
           ci_appendFailure = None, ci_internalFailure = None, ci_capacityTransitionPending = False,
           ci_capacityCatalogLoad = None, ci_capacityCatalogReplacement = None,
           ci_failStopCatalogPreconditionFailure = FP_NONE, ci_failStopCatalogLoad = None,
           ci_failStopCatalogReplacement = None\<rparr>
      | Some path \<Rightarrow>
          \<lparr>ci_installed = True, ci_ingressEmpty = pe_empty env (cp_ingress path),
           ci_matchingEmpty = pe_empty env (cp_matching path), ci_queuedResults = crq_size (cp_results path),
           ci_pendingMatchingResult = hasPendingResult (cp_matcher path),
           ci_inProgressMatchingCommand = inProgressCommand (cp_matcher path),
           ci_pendingCompletion = hasPendingBatch (cp_completion path),
           ci_pendingResultProjection = projectionPending (cp_resultDispatcher path),
           ci_pendingPrivateEventRecords = pendingPrivateEventCount (cp_resultDispatcher path),
           ci_queuedPrivateEventRecords = prq_queuedEventCount (cp_privateResults path),
           ci_pendingPublicTradeRecords = pendingTradeCount (cp_resultDispatcher path),
           ci_queuedPublicTradeRecords = ptq_queuedRecordCount (cp_publicTrades path),
           ci_pendingCommand = pendingCommand (cp_sequencer path),
           ci_appendFailure = journalAppendFailure (cp_sequencer path),
           ci_internalFailure = cp_internalFailure path,
           ci_capacityTransitionPending = capacityTransitionPending path,
           ci_capacityCatalogLoad = capacityCatalogLoad path,
           ci_capacityCatalogReplacement = capacityCatalogReplacement path,
           ci_failStopCatalogPreconditionFailure = failStopCatalogPreconditionFailure path,
           ci_failStopCatalogLoad = failStopCatalogLoad path,
           ci_failStopCatalogReplacement = failStopCatalogReplacement path\<rparr>)"

definition tryPopPrivateResultBatchV1 :: "('f, 'q) controller \<Rightarrow> (RecipientResults \<times> ('f, 'q) controller) option" where
  "tryPopPrivateResultBatchV1 ctl =
     (case ctl_commandProcessing ctl of
        None \<Rightarrow> None
      | Some path \<Rightarrow>
          map_option (\<lambda>(batch, q). (batch, ctl\<lparr>ctl_commandProcessing := Some (path\<lparr>cp_privateResults := q\<rparr>)\<rparr>))
            (prq_tryPop (cp_privateResults path)))"

definition tryPopPublicTradeBatchV1 :: "('f, 'q) controller \<Rightarrow> (PublicTrade list \<times> ('f, 'q) controller) option" where
  "tryPopPublicTradeBatchV1 ctl =
     (case ctl_commandProcessing ctl of
        None \<Rightarrow> None
      | Some path \<Rightarrow>
          map_option (\<lambda>(batch, q). (batch, ctl\<lparr>ctl_commandProcessing := Some (path\<lparr>cp_publicTrades := q\<rparr>)\<rparr>))
            (ptq_tryPop (cp_publicTrades path)))"

end
