(* ===== verification/Run_Lifecycle.thy ===== *)
theory Run_Lifecycle
  imports Command_Path
begin

text \<open>
  Pausing, stopping and recovering a run, the rest of \<open>core/recovery/src/controller_command_processing.cpp\<close>. The drain
  loop of a pause takes fuel. When the controller releases its run, the journal at its path is as the writer left it
  (\<open>releaseRun\<close>).
\<close>

section \<open>Data\<close>

datatype FailedRunRecoveryOutcome =
    FR_PAUSED | FR_NOT_RECOVERABLE | FR_CATALOG_PATH_FAILED | FR_CATALOG_LOAD_FAILED | FR_NO_ACTIVE_RUN
  | FR_CATALOG_BINDING_MISMATCH | FR_ACTIVE_RUN_ID_MISMATCH | FR_CATALOG_NOT_FAILED | FR_GENERATION_EXHAUSTED
  | FR_JOURNAL_PATH_FAILED | FR_RESULT_HANDOFF_BACKPRESSURE | FR_RECOVERY_FAILED | FR_CATALOG_REPLACE_FAILED

record FailedRunRecoveryResult =
  fr_outcome :: FailedRunRecoveryOutcome
  fr_originalProcessingInspection :: "CommandProcessingInspection option"
  fr_catalogLoad :: "RunCatalogLoadResult option"
  fr_recovery :: "RecoveredRunResult option"
  fr_catalogReplacement :: "RunCatalogReplaceResult option"

datatype RunPauseOutcome =
    RP_PAUSED | RP_NOT_READY | RP_PATH_NOT_INSTALLED | RP_PROCESSING_FAILED | RP_DRAIN_STALLED
  | RP_RESULT_HANDOFF_BACKPRESSURE | RP_CATALOG_LOAD_FAILED | RP_ACTIVE_RUN_ID_MISMATCH | RP_CATALOG_NOT_OPEN
  | RP_GENERATION_EXHAUSTED | RP_CATALOG_REPLACE_FAILED

record RunPauseResult =
  pz_outcome :: RunPauseOutcome
  pz_catalogLoad :: "RunCatalogLoadResult option"
  pz_catalogReplacement :: "RunCatalogReplaceResult option"

datatype StoppedRunCleanupOutcome =
    SC_NOT_REQUIRED | SC_COMMITTED | SC_REMOVE_FAILED | SC_DIRECTORY_OPEN_FAILED | SC_DIRECTORY_SYNC_FAILED
  | SC_DIRECTORY_CLOSE_FAILED

record StoppedRunCleanupResult =
  sc_outcome :: StoppedRunCleanupOutcome
  sc_replacedRunId :: "ExchangeRunId option"
  sc_systemError :: int

datatype RunStopOutcome =
    ST_STOPPED | ST_STOPPED_CLEANUP_FAILED | ST_NOT_STOPPABLE | ST_PAUSE_FAILED | ST_RESULT_HANDOFF_BACKPRESSURE
  | ST_CATALOG_LOAD_FAILED | ST_ACTIVE_RUN_ID_MISMATCH | ST_CATALOG_DISPOSITION_MISMATCH | ST_GENERATION_EXHAUSTED
  | ST_RETAINED_RUN_CONFIRMATION_REQUIRED | ST_RETAINED_RUN_CONFIRMATION_MISMATCH | ST_JOURNAL_PATH_FAILED
  | ST_CATALOG_REPLACE_FAILED

record RunStopResult =
  st_outcome :: RunStopOutcome
  st_pause :: "RunPauseResult option"
  st_catalogLoad :: "RunCatalogLoadResult option"
  st_catalogReplacement :: "RunCatalogReplaceResult option"
  st_cleanup :: StoppedRunCleanupResult

section \<open>Releasing a run\<close>

definition releaseRun ::
  "('w, 'f, 'q) ProcessingEnvironment \<Rightarrow> string \<Rightarrow> 'f RunJournalWriterV1 \<Rightarrow> 'w \<Rightarrow> 'w" where
  "releaseRun env catalogPath writer w =
     env_update (pe_run env) w (deriveCanonicalRunJournalPathV1 catalogPath (rh_exchangeRunId (w_header writer)))
       (Some (w_file writer))"

text \<open>Removing the journal of a replaced run: the removal is repeated while interrupted, then the directory is synced.\<close>

fun removeLoop ::
  "('w, 'f, 'q) ProcessingEnvironment \<Rightarrow> nat \<Rightarrow> string \<Rightarrow> 'w \<Rightarrow> (int \<times> 'w) option" where
  "removeLoop env 0 journalPath w = None"
| "removeLoop env (Suc fuel) journalPath w =
     (case pe_removeFile env w journalPath of
        (e, w) \<Rightarrow> if e = EINTR then removeLoop env fuel journalPath w else Some (e, w))"

definition removeStoppedJournal ::
  "('w, 'f, 'q) ProcessingEnvironment \<Rightarrow> ('w, 'f) CatalogFiles \<Rightarrow> nat \<Rightarrow> string \<Rightarrow> string \<Rightarrow> ExchangeRunId \<Rightarrow> 'w \<Rightarrow>
     (StoppedRunCleanupResult \<times> 'w) option" where
  "removeStoppedJournal env files fuel journalPath journalDirectory replacedRunId w =
     (let res = (\<lambda>oc e. \<lparr>sc_outcome = oc, sc_replacedRunId = Some replacedRunId, sc_systemError = e\<rparr>) in
      Option.bind (removeLoop env fuel journalPath w) (\<lambda>(e, w).
      if e \<noteq> 0 then Some (res SC_REMOVE_FAILED e, w)
      else
      case pe_openDirectory env w journalDirectory of
        Inl e \<Rightarrow> Some (res SC_DIRECTORY_OPEN_FAILED e, w)
      | Inr d \<Rightarrow>
          Option.bind (storageSyncLoop files fuel d) (\<lambda>(synced, d).
          case synced of
            Inl e \<Rightarrow> Some (res SC_DIRECTORY_SYNC_FAILED e, w)
          | Inr _ \<Rightarrow>
              if cf_close files d \<noteq> 0 then Some (res SC_DIRECTORY_CLOSE_FAILED (cf_close files d), w)
              else Some (res SC_COMMITTED 0, w))))"

section \<open>Recovery of a failed run\<close>

definition failedResult :: "FailedRunRecoveryOutcome \<Rightarrow> FailedRunRecoveryResult" where
  "failedResult oc =
     \<lparr>fr_outcome = oc, fr_originalProcessingInspection = None, fr_catalogLoad = None, fr_recovery = None,
      fr_catalogReplacement = None\<rparr>"

text \<open>The part after the checks: the run and its path are released, the journal is recovered, and the catalog is told.\<close>

definition recoverReleased ::
  "('w, 'f, 'q) ProcessingEnvironment \<Rightarrow> nat \<Rightarrow> string \<Rightarrow> RunCatalogSnapshotV1 \<Rightarrow> ExchangeRunId \<Rightarrow>
     FailedRunRecoveryResult \<Rightarrow> ('f, 'q) controller \<Rightarrow> 'w \<Rightarrow>
     (FailedRunRecoveryResult \<times> ('f, 'q) controller \<times> 'w) option" where
  "recoverReleased env fuel catalogBinding catalog runId res ctl w =
     (let ctl = ctl\<lparr>ctl_state := ES_UNAVAILABLE\<rparr> in
      Option.bind (recoverRunAt (pe_run env) fuel (deriveCanonicalRunJournalPathV1 catalogBinding runId) (Some runId) w)
        (\<lambda>(recovery, recovered, w).
      let res = res\<lparr>fr_recovery := Some recovery\<rparr>; recoveredSuccessfully = (rr_outcome recovery = RR_RECOVERED) in
      if \<not> recoveredSuccessfully \<and> rc_activeDisposition catalog = RECOVERY_FAILED
      then Some (res\<lparr>fr_outcome := FR_RECOVERY_FAILED\<rparr>, ctl\<lparr>ctl_state := ES_RECOVERY_FAILED\<rparr>, w)
      else
      let catalog = catalog\<lparr>rc_generation := rc_generation catalog + 1,
            rc_activeDisposition := if recoveredSuccessfully then PAUSED else RECOVERY_FAILED\<rparr> in
      Option.bind (replaceRunCatalogV1WithHooks (dd_files (env_directory (pe_run env) catalogBinding)) fuel w catalog)
        (\<lambda>(replacement, w).
      let res = res\<lparr>fr_catalogReplacement := Some replacement\<rparr> in
      if cp_outcome replacement \<noteq> CR_COMMITTED then Some (res\<lparr>fr_outcome := FR_CATALOG_REPLACE_FAILED\<rparr>, ctl, w)
      else if \<not> recoveredSuccessfully
      then Some (res\<lparr>fr_outcome := FR_RECOVERY_FAILED\<rparr>, ctl\<lparr>ctl_state := ES_RECOVERY_FAILED\<rparr>, w)
      else Some (res\<lparr>fr_outcome := FR_PAUSED\<rparr>,
                 ctl\<lparr>ctl_run := recovered, ctl_canonicalCatalogPath := catalogBinding, ctl_state := ES_PAUSED\<rparr>, w))))"

definition recoverFailedRunV1WithHooks ::
  "('w, 'f, 'q) ProcessingEnvironment \<Rightarrow> nat \<Rightarrow> string \<Rightarrow> ('f, 'q) controller \<Rightarrow> 'w \<Rightarrow>
     (FailedRunRecoveryResult \<times> ('f, 'q) controller \<times> 'w) option" where
  "recoverFailedRunV1WithHooks env fuel canonicalCatalogPath ctl w =
     (let installedFailStopped = (ctl_state ctl = ES_FAIL_STOPPED) in
      if \<not> installedFailStopped \<and> ctl_state ctl \<noteq> ES_UNAVAILABLE \<and> ctl_state ctl \<noteq> ES_RECOVERY_FAILED
      then Some (failedResult FR_NOT_RECOVERABLE, ctl, w)
      else if \<not> installedFailStopped \<and> ctl_commandProcessing ctl \<noteq> None
      then Some (failedResult FR_NOT_RECOVERABLE, ctl, w)
      else
      let res = (failedResult FR_CATALOG_LOAD_FAILED)
            \<lparr>fr_originalProcessingInspection :=
               if installedFailStopped then Some (inspectCommandProcessingV1 env ctl) else None\<rparr> in
      case map_option lexically_normal (absolute (env_currentPath (pe_run env)) canonicalCatalogPath) of
        None \<Rightarrow> Some (res\<lparr>fr_outcome := FR_CATALOG_PATH_FAILED\<rparr>, ctl, w)
      | Some catalogBinding \<Rightarrow>
          if installedFailStopped \<and> catalogBinding \<noteq> lexically_normal (ctl_canonicalCatalogPath ctl)
          then Some (res\<lparr>fr_outcome := FR_CATALOG_BINDING_MISMATCH\<rparr>, ctl, w)
          else
          Option.bind (loadRunCatalogV1 (dd_files (env_directory (pe_run env) catalogBinding)) fuel w empty_RunCatalogSnapshotV1)
            (\<lambda>(load, catalog).
          let res = res\<lparr>fr_catalogLoad := Some load\<rparr> in
          if cl_outcome load \<noteq> CL_LOADED then Some (res, ctl, w)
          else
          case rc_activeRunId catalog of
            None \<Rightarrow> Some (res\<lparr>fr_outcome := FR_NO_ACTIVE_RUN\<rparr>, ctl, w)
          | Some runId \<Rightarrow>
              let proceed =
                (if rc_activeDisposition catalog \<noteq> FAIL_STOPPED \<and> rc_activeDisposition catalog \<noteq> RECOVERY_FAILED
                 then Inl FR_CATALOG_NOT_FAILED
                 else if installedFailStopped \<and> rc_activeDisposition catalog \<noteq> FAIL_STOPPED
                 then Inl FR_CATALOG_NOT_FAILED
                 else if rc_generation catalog = - 1 then Inl FR_GENERATION_EXHAUSTED
                 else Inr ()) in
              if \<not> installedFailStopped then
                (case proceed of
                   Inl oc \<Rightarrow> Some (res\<lparr>fr_outcome := oc\<rparr>, ctl, w)
                 | Inr _ \<Rightarrow> recoverReleased env fuel catalogBinding catalog runId res ctl w)
              else
              Option.bind (rs_journalWriter (ctl_run ctl)) (\<lambda>writer.
              if rh_exchangeRunId (w_header writer) \<noteq> runId
              then Some (res\<lparr>fr_outcome := FR_ACTIVE_RUN_ID_MISMATCH\<rparr>, ctl, w)
              else
              case proceed of
                Inl oc \<Rightarrow> Some (res\<lparr>fr_outcome := oc\<rparr>, ctl, w)
              | Inr _ \<Rightarrow>
                  Option.bind (ctl_commandProcessing ctl) (\<lambda>path.
                  if prq_batches (cp_privateResults path) \<noteq> [] \<or> ptq_batches (cp_publicTrades path) \<noteq> []
                  then Some (res\<lparr>fr_outcome := FR_RESULT_HANDOFF_BACKPRESSURE\<rparr>, ctl, w)
                  else recoverReleased env fuel catalogBinding catalog runId res
                    (ctl\<lparr>ctl_commandProcessing := None, ctl_run := empty_RunStateV1\<rparr>)
                    (releaseRun env (ctl_canonicalCatalogPath ctl) writer w)))))"

section \<open>Pausing\<close>

definition pauseResult ::
  "RunPauseOutcome \<Rightarrow> RunCatalogLoadResult option \<Rightarrow> RunCatalogReplaceResult option \<Rightarrow> RunPauseResult" where
  "pauseResult oc load replacement = \<lparr>pz_outcome = oc, pz_catalogLoad = load, pz_catalogReplacement = replacement\<rparr>"

text \<open>The loop that drains the path: \<open>None\<close> when it is drained, otherwise why the pause ends.\<close>

fun pauseDrain ::
  "('w, 'f, 'q) ProcessingEnvironment \<Rightarrow> nat \<Rightarrow> nat \<Rightarrow> ('f, 'q) controller \<Rightarrow> 'w \<Rightarrow>
     (RunPauseOutcome option \<times> ('f, 'q) controller \<times> 'w) option" where
  "pauseDrain env fuel 0 ctl w = None"
| "pauseDrain env fuel (Suc n) ctl w =
     Option.bind (ctl_commandProcessing ctl) (\<lambda>path.
     if processingDrained env path then
       Some (if \<not> resultHandoffsDrained path then Some RP_RESULT_HANDOFF_BACKPRESSURE else None, ctl, w)
     else
     Option.bind (advanceCommandProcessingV1WithHooks env fuel ctl w) (\<lambda>(progressed, ctl, w).
     if progressed then pauseDrain env fuel n ctl w
     else
     Option.bind (ctl_commandProcessing ctl) (\<lambda>path.
     if journalAppendFailure (cp_sequencer path) \<noteq> None \<or> cp_internalFailure path \<noteq> None \<or>
       ctl_state ctl = ES_FAIL_STOPPED
     then Some (Some RP_PROCESSING_FAILED, ctl, w)
     else if privateHandoffPending (cp_resultDispatcher path) \<or> publicHandoffPending (cp_resultDispatcher path) \<or>
       prq_batches (cp_privateResults path) \<noteq> [] \<or> ptq_batches (cp_publicTrades path) \<noteq> []
     then Some (Some RP_RESULT_HANDOFF_BACKPRESSURE, ctl, w)
     else Some (Some RP_DRAIN_STALLED, ctl\<lparr>ctl_state := ES_UNAVAILABLE\<rparr>, w))))"

definition publishPaused ::
  "('w, 'f, 'q) ProcessingEnvironment \<Rightarrow> nat \<Rightarrow> ('f, 'q) controller \<Rightarrow> 'w \<Rightarrow>
     (RunPauseResult \<times> ('f, 'q) controller \<times> 'w) option" where
  "publishPaused env fuel ctl w =
     (let files = dd_files (env_directory (pe_run env) (ctl_canonicalCatalogPath ctl)); lost = ctl\<lparr>ctl_state := ES_UNAVAILABLE\<rparr> in
      Option.bind (loadRunCatalogV1 files fuel w empty_RunCatalogSnapshotV1) (\<lambda>(load, catalog).
      if cl_outcome load \<noteq> CL_LOADED then Some (pauseResult RP_CATALOG_LOAD_FAILED (Some load) None, lost, w)
      else
      Option.bind (rs_journalWriter (ctl_run ctl)) (\<lambda>writer.
      if rc_activeRunId catalog \<noteq> Some (rh_exchangeRunId (w_header writer))
      then Some (pauseResult RP_ACTIVE_RUN_ID_MISMATCH (Some load) None, lost, w)
      else if rc_activeDisposition catalog \<noteq> OPEN then Some (pauseResult RP_CATALOG_NOT_OPEN (Some load) None, lost, w)
      else if rc_generation catalog = - 1 then Some (pauseResult RP_GENERATION_EXHAUSTED (Some load) None, lost, w)
      else
      let catalog = catalog\<lparr>rc_generation := rc_generation catalog + 1, rc_activeDisposition := PAUSED\<rparr> in
      Option.bind (replaceRunCatalogV1WithHooks files fuel w catalog) (\<lambda>(replacement, w).
      if cp_outcome replacement \<noteq> CR_COMMITTED
      then Some (pauseResult RP_CATALOG_REPLACE_FAILED (Some load) (Some replacement), lost, w)
      else Some (pauseResult RP_PAUSED (Some load) (Some replacement), ctl\<lparr>ctl_state := ES_PAUSED\<rparr>, w)))))"

definition pauseRunV1WithHooks ::
  "('w, 'f, 'q) ProcessingEnvironment \<Rightarrow> nat \<Rightarrow> ('f, 'q) controller \<Rightarrow> 'w \<Rightarrow>
     (RunPauseResult \<times> ('f, 'q) controller \<times> 'w) option" where
  "pauseRunV1WithHooks env fuel ctl w =
     (if ctl_state ctl \<noteq> ES_READY then Some (pauseResult RP_NOT_READY None None, ctl, w)
      else
      case ctl_commandProcessing ctl of
        None \<Rightarrow> Some (pauseResult RP_PATH_NOT_INSTALLED None None, ctl, w)
      | Some path \<Rightarrow>
          if capacityTransitionPending path then Some (pauseResult RP_NOT_READY None None, ctl, w)
          else
          Option.bind (pauseDrain env fuel fuel (closeAdmission ctl) w) (\<lambda>(early, ctl, w).
          case early of
            Some oc \<Rightarrow> Some (pauseResult oc None None, ctl, w)
          | None \<Rightarrow> publishPaused env fuel ctl w))"

section \<open>Stopping\<close>

text \<open>The checks before anything changes: the replaced run, if one is retained.\<close>

definition stopChecks ::
  "ExchangeRunStartupState \<Rightarrow> ExchangeRunId \<Rightarrow> ExchangeRunId option \<Rightarrow> RunCatalogSnapshotV1 \<Rightarrow>
     RunStopOutcome + ExchangeRunId option" where
  "stopChecks initialState activeRunId replacedRunConfirmation catalog =
     (let requiredDisposition =
            (if initialState = ES_READY then OPEN else if initialState = ES_PAUSED then PAUSED else CAPACITY_REACHED);
          requiredGenerations = (if initialState = ES_READY then 2 else 1) in
      if rc_activeRunId catalog \<noteq> Some activeRunId then Inl ST_ACTIVE_RUN_ID_MISMATCH
      else if rc_activeDisposition catalog \<noteq> requiredDisposition then Inl ST_CATALOG_DISPOSITION_MISMATCH
      else if - 1 - rc_generation catalog < requiredGenerations then Inl ST_GENERATION_EXHAUSTED
      else if rc_retainedStoppedRunId catalog = None then Inr None
      else if replacedRunConfirmation = None then Inl ST_RETAINED_RUN_CONFIRMATION_REQUIRED
      else if replacedRunConfirmation \<noteq> rc_retainedStoppedRunId catalog then Inl ST_RETAINED_RUN_CONFIRMATION_MISMATCH
      else Inr (rc_retainedStoppedRunId catalog))"

definition no_cleanup :: "ExchangeRunId option \<Rightarrow> StoppedRunCleanupResult" where
  "no_cleanup replaced = \<lparr>sc_outcome = SC_NOT_REQUIRED, sc_replacedRunId = replaced, sc_systemError = 0\<rparr>"

text \<open>The commit: the catalog names no active run and retains the stopped one, and the controller lets go of it.\<close>

definition commitStop ::
  "('w, 'f, 'q) ProcessingEnvironment \<Rightarrow> nat \<Rightarrow> RunCatalogSnapshotV1 \<Rightarrow> 'f RunJournalWriterV1 \<Rightarrow> ExchangeRunId option \<Rightarrow>
     RunStopResult \<Rightarrow> ('f, 'q) controller \<Rightarrow> 'w \<Rightarrow> (RunStopResult \<times> ('f, 'q) controller \<times> 'w) option" where
  "commitStop env fuel catalog writer replaced res ctl w =
     (let path = ctl_canonicalCatalogPath ctl; files = dd_files (env_directory (pe_run env) path);
          catalog = catalog\<lparr>rc_generation := rc_generation catalog + 1, rc_activeRunId := None,
            rc_activeDisposition := DISPOSITION_NONE, rc_retainedStoppedRunId := Some (rh_exchangeRunId (w_header writer))\<rparr> in
      Option.bind (replaceRunCatalogV1WithHooks files fuel w catalog) (\<lambda>(replacement, w).
      let res = res\<lparr>st_catalogReplacement := Some replacement\<rparr> in
      if cp_outcome replacement \<noteq> CR_COMMITTED
      then Some (res\<lparr>st_outcome := ST_CATALOG_REPLACE_FAILED\<rparr>, ctl\<lparr>ctl_state := ES_UNAVAILABLE\<rparr>, w)
      else
      let ctl = ctl\<lparr>ctl_state := ES_STOPPED, ctl_retainedStoppedRunView := None, ctl_commandProcessing := None,
            ctl_run := empty_RunStateV1\<rparr>;
          w = releaseRun env path writer w in
      case replaced of
        None \<Rightarrow> Some (res\<lparr>st_outcome := ST_STOPPED\<rparr>, ctl, w)
      | Some replacedRunId \<Rightarrow>
          let journalPath = deriveCanonicalRunJournalPathV1 path replacedRunId in
          map_option (\<lambda>(cleanup, w).
            (res\<lparr>st_cleanup := cleanup,
                 st_outcome := if sc_outcome cleanup = SC_COMMITTED then ST_STOPPED else ST_STOPPED_CLEANUP_FAILED\<rparr>, ctl, w))
            (removeStoppedJournal env files fuel journalPath (parent_path journalPath) replacedRunId w)))"

definition stopRunV1WithHooks ::
  "('w, 'f, 'q) ProcessingEnvironment \<Rightarrow> nat \<Rightarrow> ExchangeRunId option \<Rightarrow> ('f, 'q) controller \<Rightarrow> 'w \<Rightarrow>
     (RunStopResult \<times> ('f, 'q) controller \<times> 'w) option" where
  "stopRunV1WithHooks env fuel replacedRunConfirmation ctl w =
     (let initialState = ctl_state ctl;
          res = (\<lambda>oc load cleanup. \<lparr>st_outcome = oc, st_pause = None, st_catalogLoad = load, st_catalogReplacement = None,
            st_cleanup = cleanup\<rparr>) in
      if initialState \<noteq> ES_READY \<and> initialState \<noteq> ES_PAUSED \<and> initialState \<noteq> ES_CAPACITY_REACHED
      then Some (res ST_NOT_STOPPABLE None (no_cleanup None), ctl, w)
      else
      Option.bind (loadRunCatalogV1 (dd_files (env_directory (pe_run env) (ctl_canonicalCatalogPath ctl))) fuel w
          empty_RunCatalogSnapshotV1) (\<lambda>(load, catalog).
      if cl_outcome load \<noteq> CL_LOADED then Some (res ST_CATALOG_LOAD_FAILED (Some load) (no_cleanup None), ctl, w)
      else
      Option.bind (rs_journalWriter (ctl_run ctl)) (\<lambda>writer.
      case stopChecks initialState (rh_exchangeRunId (w_header writer)) replacedRunConfirmation catalog of
        Inl oc \<Rightarrow>
          Some (res oc (Some load)
            (no_cleanup (if oc = ST_RETAINED_RUN_CONFIRMATION_REQUIRED \<or> oc = ST_RETAINED_RUN_CONFIRMATION_MISMATCH
              then rc_retainedStoppedRunId catalog else None)), ctl, w)
      | Inr replaced \<Rightarrow>
          let res = res ST_CATALOG_LOAD_FAILED (Some load) (no_cleanup replaced) in
          if initialState = ES_READY then
            Option.bind (pauseRunV1WithHooks env fuel ctl w) (\<lambda>(pause, ctl, w).
            let res = res\<lparr>st_pause := Some pause\<rparr> in
            if pz_outcome pause \<noteq> RP_PAUSED
            then Some (res\<lparr>st_outcome := if pz_outcome pause = RP_RESULT_HANDOFF_BACKPRESSURE
                then ST_RESULT_HANDOFF_BACKPRESSURE else ST_PAUSE_FAILED\<rparr>, ctl, w)
            else
            Option.bind (rs_journalWriter (ctl_run ctl)) (\<lambda>writer.
              commitStop env fuel (catalog\<lparr>rc_generation := rc_generation catalog + 1, rc_activeDisposition := PAUSED\<rparr>)
                writer replaced res ctl w))
          else
          let ctl = closeAdmission ctl in
          if (case ctl_commandProcessing ctl of None \<Rightarrow> False | Some path \<Rightarrow> \<not> resultHandoffsDrained path)
          then Some (res\<lparr>st_outcome := ST_RESULT_HANDOFF_BACKPRESSURE\<rparr>, ctl, w)
          else commitStop env fuel catalog writer replaced res ctl w)))"

end
