(* ===== verification/Controller_Runs.thy ===== *)
theory Controller_Runs
  imports Run_Controller
begin

text \<open>
  Sequences of controller operations on one catalog. A controller that is ready or paused owns a whole run, whose
  writer and admission index name the same identifier; a ready controller's run is the catalog's active run with the
  disposition \<open>OPEN\<close>; and admission is open in no other state.
\<close>

section \<open>Identifiers of a recovered run\<close>

lemma prepared_expected:
  assumes "prepareRunJournalV1WithHooks d hooks fuel outp (Some runId) = Some (res, p, f)"
    and "jr_outcome res = RO_PREPARED"
  shows "rh_exchangeRunId (lj_header (pj_journal p)) = runId \<and>
    (\<exists>x. pj_writer p = Some x \<and> w_header x = lj_header (pj_journal p))"
proof -
  from assms obtain g validation loaded g1 where
    load: "loadRunJournalV1FromDescriptorWithHooks (hk_readFile hooks) fuel g empty_LoadedRunJournalV1 = Some (validation, loaded, g1)"
      "lr_outcome (checkExpectedRun (Some runId) loaded validation) = LO_VALID \<or>
       lr_outcome (checkExpectedRun (Some runId) loaded validation) = LO_INCOMPLETE_TAIL"
      "\<exists>f'. prepareLoaded hooks fuel g1 loaded (checkExpectedRun (Some runId) loaded validation) outp = Some (res, p, f')"
    by (auto simp: prepareRunJournalV1WithHooks_def journalRecoveryResult_def Let_def
        split: sum.splits if_splits Option.bind_splits)
  have "rh_exchangeRunId (lj_header loaded) = runId"
    using load(2) by (auto simp: checkExpectedRun_def loadResult_def split: if_splits)
  moreover have close: "jr_outcome (closeAfterFailure hooks h b err v e t) \<noteq> RO_PREPARED" for h b err v e t
    by (simp add: closeAfterFailure_def journalRecoveryResult_def Let_def)
  have "repairTail hooks fuel g1 v n = Some (Inl failure, h) \<Longrightarrow> jr_outcome failure \<noteq> RO_PREPARED" for v n failure h
    by (auto simp: repairTail_def close split: sum.splits prod.splits truncate_reply.splits Option.bind_splits)
  then have "pj_journal p = loaded \<and> (\<exists>x. pj_writer p = Some x \<and> w_header x = lj_header loaded)"
    using load(3) assms(2)
    by (auto simp: prepareLoaded_def Let_def close makeRecoveredRunJournalWriterV1_def
        split: if_splits sum.splits Option.bind_splits)
  ultimately show ?thesis by simp
qed

lemma recoverRecords_keeps:
  "recoverRecords h idx expected rest = Inr idx' \<Longrightarrow>
     adm_exchangeRunId idx' = adm_exchangeRunId idx \<and> admissionOpen idx' = admissionOpen idx"
proof (induction rest arbitrary: idx expected)
  case (Cons x rest)
  obtain c res where "x = (c, res)" by (cases x)
  with Cons.prems show ?case
    by (auto simp: Let_def split: if_splits sum.splits dest!: Cons.IH)
qed simp

lemma recoverRecords_failed: "recoverRecords h idx expected rest = Inl res \<Longrightarrow> ca_outcome res \<noteq> CR_RECONSTRUCTED"
proof (induction rest arbitrary: idx expected)
  case (Cons x rest)
  obtain c res where "x = (c, res)" by (cases x)
  with Cons.prems show ?case
    by (auto simp: Let_def recoveryResult_def split: if_splits sum.splits dest!: Cons.IH)
qed simp

lemma reconstructed_index:
  assumes "reconstructCommandAdmissionIndex journal results None = (res, out)" and "ca_outcome res = CR_RECONSTRUCTED"
  shows "\<exists>idx. out = Some idx \<and> adm_exchangeRunId idx = rh_exchangeRunId (lj_header journal) \<and> \<not> admissionOpen idx"
  using assms
  by (auto simp: reconstructCommandAdmissionIndex_def recoveryResult_def make_run_bound_CommandAdmissionIndex_def Let_def
      split: if_splits sum.splits dest: recoverRecords_keeps recoverRecords_failed)

text \<open>A run that its controller can work with.\<close>

definition owned_run :: "'f RunStateV1 \<Rightarrow> ExchangeRunId \<Rightarrow> bool \<Rightarrow> bool" where
  "owned_run st runId opened \<longleftrightarrow>
     (\<exists>x book idx. rs_journalWriter st = Some x \<and> rh_exchangeRunId (w_header x) = runId \<and>
        rs_matchingState st = Some book \<and>
        rs_admissionIndex st = Some idx \<and> adm_exchangeRunId idx = runId \<and> admissionOpen idx = opened)"

lemma replayLoop_failed: "replayLoop h st results expected cs = Inl res \<Longrightarrow> rp_outcome res \<noteq> RO_REPLAYED"
  by (induction cs arbitrary: st results expected)
    (auto simp: Let_def replayResult_def split: if_splits sum.splits)

lemma recovered_owned:
  assumes "recoverRunAt env fuel path (Some runId) w = Some (res, st, w')" and "rr_outcome res = RR_RECOVERED"
  shows "owned_run st runId False" and "\<exists>f. w' = env_update env w path f"
proof -
  obtain pr p f where prep: "prepareRunJournalV1WithHooks (env_openJournal env w path) (env_recoveryHooks env) fuel
        empty_PreparedRunJournalV1 (Some runId) = Some (pr, p, f)" "jr_outcome pr = RO_PREPARED"
    and st: "\<exists>rp out ca idx. replayPreparedRunJournalV1 (pj_journal p) empty_ReplayedRunJournalV1 = (rp, out) \<and>
        rp_outcome rp = RO_REPLAYED \<and>
        reconstructCommandAdmissionIndex (pj_journal p) (map Some (commandResults out)) None = (ca, idx) \<and>
        ca_outcome ca = CR_RECONSTRUCTED \<and>
        st = \<lparr>rs_journalWriter = pj_writer p, rs_matchingState = replayedState out, rs_admissionIndex = idx\<rparr>"
    and "w' = env_update env w path f"
    using assms
    by (auto simp: recoverRunAt_def recoverRunV1_def recoverRunV1WithHooks_def
        split: if_splits prod.splits Option.bind_splits)
  then show "\<exists>f. w' = env_update env w path f" by blast
  from st obtain rp out ca idx where s:
    "replayPreparedRunJournalV1 (pj_journal p) empty_ReplayedRunJournalV1 = (rp, out)" "rp_outcome rp = RO_REPLAYED"
    "reconstructCommandAdmissionIndex (pj_journal p) (map Some (commandResults out)) None = (ca, idx)"
    "ca_outcome ca = CR_RECONSTRUCTED"
    "st = \<lparr>rs_journalWriter = pj_writer p, rs_matchingState = replayedState out, rs_admissionIndex = idx\<rparr>"
    by blast
  have "\<exists>book. replayedState out = Some book"
    using s(1,2) replayLoop_failed
    by (auto simp: replayPreparedRunJournalV1_def replayResult_def split: sum.splits if_splits)
  then show "owned_run st runId False"
    using reconstructed_index [OF s(3,4)] prepared_expected [OF prep] s(5) by (auto simp: owned_run_def)
qed

section \<open>What the operations do to a controller\<close>

text \<open>The environment of a controller: the directory of its catalog behaves as documented, its catalog path is found,
  and changing a journal leaves the catalog.\<close>

definition posix_environment ::
  "('w \<Rightarrow> u8 list option) \<Rightarrow> ('f \<Rightarrow> u8 list) \<Rightarrow> ('f \<Rightarrow> u8 list) \<Rightarrow> ('f \<Rightarrow> nat) \<Rightarrow> nat \<Rightarrow>
     ('w, 'f) RunEnvironment \<Rightarrow> string \<Rightarrow> string \<Rightarrow> bool" where
  "posix_environment catalog remaining written interrupts bound env path binding \<longleftrightarrow>
     absolute (env_currentPath env) path = Some binding \<and>
     posix_directory catalog remaining written interrupts bound (env_directory env binding) \<and>
     (\<forall>w p runId f. catalog (env_update env w (deriveCanonicalRunJournalPathV1 p runId) f) = catalog w)"

lemma posix_environmentD:
  assumes "posix_environment catalog remaining written interrupts bound env path binding"
  shows "absolute (env_currentPath env) path = Some binding"
    and "posix_directory catalog remaining written interrupts bound (env_directory env binding)"
    and "posix_catalog catalog remaining written interrupts bound (dd_files (env_directory env binding))"
    and "catalog (env_update env w (deriveCanonicalRunJournalPathV1 p runId) f) = catalog w"
  using assms posix_directoryD(1) unfolding posix_environment_def by blast+

lemma owned_open: "owned_run st runId b \<Longrightarrow>
    owned_run (st\<lparr>rs_admissionIndex := map_option (setAdmissionOpen c) (rs_admissionIndex st)\<rparr>) runId c"
  by (auto simp: owned_run_def setAdmissionOpen_def)

lemma started_owned: "started_run written cfg runId st \<Longrightarrow> owned_run st runId False"
  by (auto simp: started_run_def owned_run_def writer_inv_def configured_header_def)

lemma startupNew_effect:
  assumes posix: "posix_environment catalog remaining written interrupts bound env path binding"
    and fuel: "bound + 2 ^ 64 \<le> fuel"
  shows "\<exists>res ctl' w'. startupNewRunV1 env fuel path cfg ctl w = Some (res, ctl', w') \<and>
    (if rs_journalWriter (ctl_run ctl) \<noteq> None then ctl' = ctl \<and> w' = w
     else ctl' = ctl \<or>
       ctl_state ctl' = ES_READY \<and> ctl_canonicalCatalogPath ctl' = binding \<and>
       ctl_commandProcessing ctl' = ctl_commandProcessing ctl \<and>
       (\<exists>runId. owned_run (ctl_run ctl') runId True \<and> active_run (catalog w') OPEN runId))"
proof (cases "rs_journalWriter (ctl_run ctl) = None")
  case False
  then show ?thesis
    by (simp add: startupNewRunV1_def startupNewRunV1WithHooks_def)
next
  case True
  note env = posix_environmentD [OF posix]
  have f: "bound + 57 < fuel" "bound + unat (nc_maxRunJournalBytes cfg) < fuel"
    using fuel unsigned_less [of "nc_maxRunJournalBytes cfg", where 'a = nat] by simp_all
  obtain load current where load: "loadRunCatalogV1 (dd_files (env_directory env binding)) fuel w empty_RunCatalogSnapshotV1 = Some (load, current)"
    using load_snapshot [OF env(3) f(1)] by blast
  obtain sn st w1 where start: "startNewRunV1 (env_directory env binding) fuel binding cfg empty_RunStateV1 w = Some (sn, st, w1)"
    "sn_outcome sn = SN_STARTED \<longrightarrow> (\<exists>runId. started_run written cfg runId st \<and> active_run (catalog w1) OPEN runId)"
    using startNewRun_spec [OF env(2) f, of binding empty_RunStateV1 w] by metis
  consider (failed) "cl_outcome load = CL_INVALID \<or> cl_outcome load = CL_IO_FAILURE \<or>
      (cl_outcome load = CL_LOADED \<and> rc_activeRunId current \<noteq> None) \<or> sn_outcome sn \<noteq> SN_STARTED"
    | (started) "sn_outcome sn = SN_STARTED" "cl_outcome load \<noteq> CL_INVALID" "cl_outcome load \<noteq> CL_IO_FAILURE"
      "cl_outcome load \<noteq> CL_LOADED \<or> rc_activeRunId current = None"
    by blast
  then show ?thesis
  proof cases
    case failed
    then show ?thesis
      using True env(1) load start(1) by (auto simp: startupNewRunV1_def startupNewRunV1WithHooks_def)
  next
    case started
    then obtain runId where run: "started_run written cfg runId st" "active_run (catalog w1) OPEN runId"
      using start(2) by blast
    then show ?thesis
      using True env(1) load start(1) started owned_open [OF started_owned [OF run(1)], of True]
      by (auto simp: startupNewRunV1_def startupNewRunV1WithHooks_def openAdmission_def)
  qed
qed

lemma startupExisting_effect:
  assumes posix: "posix_environment catalog remaining written interrupts bound env path binding"
    and step: "startupExistingRunV1WithHooks env fuel path ctl w = Some (res, ctl', w')"
  shows "if rs_journalWriter (ctl_run ctl) \<noteq> None then ctl' = ctl \<and> w' = w
    else ctl_commandProcessing ctl' = ctl_commandProcessing ctl \<and>
      (ctl_state ctl' = ES_PAUSED \<and> ctl_canonicalCatalogPath ctl' = binding \<and> (\<exists>rid. owned_run (ctl_run ctl') rid False) \<or>
       ctl_run ctl' = empty_RunStateV1 \<and> (ctl_state ctl' = ES_UNAVAILABLE \<or> ctl_state ctl' = ES_RECOVERY_FAILED))"
  using step posix_environmentD(1) [OF posix]
  by (auto simp: startupExistingRunV1WithHooks_def Let_def
      split: option.splits if_splits Option.bind_splits) (metis recovered_owned(1))+

lemma resume_effect:
  assumes posix: "posix_environment catalog remaining written interrupts bound env path binding"
    and fuel: "bound + 2 ^ 64 \<le> fuel"
    and own: "ctl_state ctl = ES_PAUSED \<Longrightarrow> owned_run (ctl_run ctl) runId False \<and> ctl_canonicalCatalogPath ctl = binding"
  shows "\<exists>res ctl' w'. resumeRunV1WithHooks env fuel ctl w = Some (res, ctl', w') \<and>
    (if ctl_state ctl \<noteq> ES_PAUSED then ctl' = ctl \<and> w' = w
     else ctl' = ctl \<or>
       ctl_state ctl' = ES_READY \<and> ctl_canonicalCatalogPath ctl' = binding \<and>
       ctl_commandProcessing ctl' = ctl_commandProcessing ctl \<and>
       owned_run (ctl_run ctl') runId True \<and> active_run (catalog w') OPEN runId)"
proof (cases "ctl_state ctl = ES_PAUSED")
  case False
  then show ?thesis
    by (simp add: resumeRunV1WithHooks_def)
next
  case True
  note env = posix_environmentD [OF posix]
  note own = own [OF True]
  let ?files = "dd_files (env_directory env binding)"
  have f: "bound + 57 < fuel"
    using fuel by simp
  from own obtain x where x: "rs_journalWriter (ctl_run ctl) = Some x" "rh_exchangeRunId (w_header x) = runId"
    by (auto simp: owned_run_def)
  obtain load current where load: "loadRunCatalogV1 ?files fuel w empty_RunCatalogSnapshotV1 = Some (load, current)"
    using load_snapshot [OF env(3) f] by blast
  let ?next = "current\<lparr>rc_generation := rc_generation current + 1, rc_activeDisposition := OPEN\<rparr>"
  obtain rep w1 where rep: "replaceRunCatalogV1WithHooks ?files fuel w ?next = Some (rep, w1)"
    "cp_outcome rep = CR_COMMITTED \<longrightarrow> catalog_snapshot (catalog w1) = Some ?next"
    using replace_snapshot [OF env(3) f, of ?next w] by (auto simp: known_disposition_def)
  show ?thesis
  proof (cases "cl_outcome load \<noteq> CL_LOADED \<or> rc_activeRunId current \<noteq> Some runId \<or> rc_activeDisposition current \<noteq> PAUSED \<or>
      committedCommandCount x \<ge> rh_maxRunCommands (w_header x) \<or> committedByteCount x \<ge> rh_maxRunJournalBytes (w_header x) \<or>
      rc_generation current = - 1 \<or> cp_outcome rep \<noteq> CR_COMMITTED")
    case True
    then show ?thesis
      using load rep(1) own x \<open>ctl_state ctl = ES_PAUSED\<close>
      by (auto simp: resumeRunV1WithHooks_def Let_def resumeResult_def)
  next
    case False
    then have "active_run (catalog w1) OPEN runId"
      using rep(2) by (simp add: active_run_def)
    then show ?thesis
      using False load rep(1) own x \<open>ctl_state ctl = ES_PAUSED\<close> owned_open [of "ctl_run ctl" runId False True]
      by (auto simp: resumeRunV1WithHooks_def Let_def resumeResult_def openAdmission_def)
  qed
qed

lemma reconstruct_effect:
  assumes "reconstructRetained env fuel q runId command load ctl w = Some (res, ctl', w')"
  shows "ctl_state ctl' = ctl_state ctl \<and> ctl_run ctl' = ctl_run ctl \<and>
    ctl_commandProcessing ctl' = ctl_commandProcessing ctl \<and> ctl_canonicalCatalogPath ctl' = ctl_canonicalCatalogPath ctl \<and>
    (\<exists>f. w' = env_update env w (deriveCanonicalRunJournalPathV1 q runId) f)"
  using assms
  by (auto simp: reconstructRetained_def recoverRunAt_def Let_def split: if_splits Option.bind_splits)

lemma lookup_effect:
  assumes "lookupCompletedResultV1 env fuel p runId command ctl w = Some (res, ctl', w')"
  shows "ctl_state ctl' = ctl_state ctl \<and> ctl_run ctl' = ctl_run ctl \<and>
    ctl_commandProcessing ctl' = ctl_commandProcessing ctl \<and> ctl_canonicalCatalogPath ctl' = ctl_canonicalCatalogPath ctl \<and>
    (w' = w \<or> (\<exists>q f. w' = env_update env w (deriveCanonicalRunJournalPathV1 q runId) f))"
  using assms
  by (auto simp: lookupCompletedResultV1_def Let_def split: option.splits if_splits Option.bind_splits
      dest!: reconstruct_effect) blast+

end
