(* ===== verification/Lifecycle_Runs.thy ===== *)
theory Lifecycle_Runs
  imports Run_Lifecycle Controller_Runs
begin

text \<open>
  Runs of the whole controller: what every operation keeps of the run it owns, and the invariant that ties the state of
  the controller, the admission gate and the catalog file together.
\<close>

section \<open>What the workers keep of a run\<close>

definition same_gate :: "CommandAdmissionIndex \<Rightarrow> CommandAdmissionIndex \<Rightarrow> bool" where
  "same_gate idx idx' \<longleftrightarrow> adm_exchangeRunId idx' = adm_exchangeRunId idx \<and> admissionOpen idx' = admissionOpen idx"

lemma same_gate_refl [simp]: "same_gate idx idx"
  by (simp add: same_gate_def)

lemma same_gate_trans: "same_gate a b \<Longrightarrow> same_gate b c \<Longrightarrow> same_gate a c"
  by (simp add: same_gate_def)

lemma reserveImpl_gate:
  assumes "reserveImpl push idx command sq cap = Inr (d, idx', sq')"
  shows "same_gate idx idx'"
proof -
  obtain key bc where kb: "keyFrom command = Inr key" "businessCommandFrom command = Inr bc"
    using assms by (auto simp: reserveImpl_def result_iff)
  show ?thesis
    using assms
    by (auto simp: reserveImpl_def kb Let_def same_gate_def split: option.splits if_splits prod.splits bool.splits)
qed

lemma stage_gate:
  "reserveAndStageForRunCapacity push idx command q capacity = Inr (decision, idx', q') \<Longrightarrow> same_gate idx idx'"
  by (auto simp: stage_Inr dest: reserveImpl_gate)

lemma markSequenced_gate:
  assumes "markSequenced idx m = Inr (status, idx')"
  shows "same_gate idx idx'"
proof (cases "globalSequenceNumber m = 0")
  case True
  then show ?thesis
    using assms by (simp add: markSequenced_def)
next
  case False
  then obtain key bc where kb: "keyFrom m = Inr key" "businessCommandFrom m = Inr bc"
    using assms by (auto simp: markSequenced_def bind_result_Inr_iff)
  show ?thesis
    using assms False by (auto simp: markSequenced_def kb same_gate_def split: option.splits if_splits)
qed

lemma adm_complete_gate: "adm_complete idx b = (status, idx') \<Longrightarrow> same_gate idx idx'"
  by (auto simp: adm_complete_def same_gate_def Let_def split: option.splits if_splits)

lemma appendEncoded_header:
  "appendEncoded writeFile syncFile fuel w frame = Some (res, w') \<Longrightarrow> w_header w' = w_header w"
  by (auto simp: appendEncoded_def split: if_splits Option.bind_splits sum.splits)

lemma appendCommand_header:
  "appendCommand writeFile syncFile fuel w m = Some (res, w') \<Longrightarrow> w_header w' = w_header w"
  by (auto simp: appendCommand_def append_new_order_def append_cancel_def Let_def
      split: option.splits if_splits sum.splits dest: appendEncoded_header)

text \<open>The sequencer works on the index and the writer it was given.\<close>

definition seq_keeps :: "('q, 'f) Sequencer \<Rightarrow> ('q, 'f) Sequencer \<Rightarrow> bool" where
  "seq_keeps s s' \<longleftrightarrow>
     rel_option same_gate (seq_admissionIndex s) (seq_admissionIndex s') \<and>
     rel_option (\<lambda>w w'. w_header w' = w_header w) (journalWriter s) (journalWriter s')"

lemma seq_keeps_refl [simp]: "seq_keeps s s"
  by (simp add: seq_keeps_def option.rel_refl)

lemma seq_keeps_trans:
  assumes "seq_keeps a b" and "seq_keeps b c"
  shows "seq_keeps a c"
proof -
  have "rel_option same_gate (seq_admissionIndex a) (seq_admissionIndex c)"
    using assms by (cases "seq_admissionIndex a"; cases "seq_admissionIndex b"; cases "seq_admissionIndex c")
      (auto simp: seq_keeps_def intro: same_gate_trans)
  moreover have "rel_option (\<lambda>w w'. w_header w' = w_header w) (journalWriter a) (journalWriter c)"
    using assms by (cases "journalWriter a"; cases "journalWriter b"; cases "journalWriter c") (auto simp: seq_keeps_def)
  ultimately show ?thesis
    by (simp add: seq_keeps_def)
qed

lemma handoff_seq_keeps: "handoffPendingCommand push s = (b, s') \<Longrightarrow> seq_keeps s s'"
  by (auto simp: handoffPendingCommand_def seq_keeps_def option.rel_refl split: option.splits prod.splits bool.splits)

lemma bindAndHandoff_seq_keeps:
  assumes "bindAndHandoff push s m = (r, s')"
  shows "seq_keeps s s'"
proof -
  have same: "seq_keeps s (s\<lparr>pendingCommand := p\<rparr>)" "seq_keeps s (s\<lparr>pendingCommand := p, pendingReadyForMatching := b\<rparr>)" for p b
    by (simp_all add: seq_keeps_def option.rel_refl)
  have index: "seq_keeps s (s\<lparr>pendingCommand := p, seq_admissionIndex := Some idx'\<rparr>)"
      "seq_keeps s (s\<lparr>pendingCommand := p, seq_admissionIndex := Some idx', pendingReadyForMatching := b\<rparr>)"
    if "seq_admissionIndex s = Some idx" "markSequenced idx m' = Inr (status, idx')" for p idx idx' m' status b
    using that markSequenced_gate by (auto simp: seq_keeps_def option.rel_refl)
  show ?thesis
    using assms
    by (auto simp: bindAndHandoff_def Let_def split: option.splits sum.splits if_splits prod.splits
        dest!: handoff_seq_keeps intro: same index seq_keeps_trans [OF same(2)] seq_keeps_trans [OF index(2)])
qed

lemma seq_processNext_keeps:
  assumes "seq_processNext push pop isEmpty writeFile syncFile fuel s = Some (r, s')"
  shows "seq_keeps s s'"
proof -
  have q: "seq_keeps s (s\<lparr>sequencingIngressQueue := q\<rparr>)"
      "seq_keeps s (s\<lparr>sequencingIngressQueue := q, lastAssignedSequence := n\<rparr>)" for q n
    by (simp_all add: seq_keeps_def option.rel_refl)
  have w: "seq_keeps s (s\<lparr>sequencingIngressQueue := q, pendingCommand := p, journalWriter := Some w'\<rparr>)"
      "seq_keeps s (s\<lparr>sequencingIngressQueue := q, pendingCommand := p, journalWriter := Some w', journalAppendFailure := j\<rparr>)"
    if "journalWriter s = Some w" "appendCommand writeFile syncFile fuel w m = Some (res, w')" for q p w w' m res j
    using that appendCommand_header by (auto simp: seq_keeps_def option.rel_refl)
  show ?thesis
    using assms
    by (auto simp: seq_processNext_def Let_def seq_nextCommandSequence_def
        split: if_splits prod.splits bool.splits option.splits Option.bind_splits
        dest!: handoff_seq_keeps bindAndHandoff_seq_keeps intro: q w seq_keeps_trans [OF q(2)] seq_keeps_trans [OF w(1)])
qed

lemma drainAvailable_keeps:
  "drainAvailable push pop isEmpty writeFile syncFile fuel n progressed s = Some (r, s') \<Longrightarrow> seq_keeps s s'"
proof (induction n arbitrary: progressed s)
  case (Suc n)
  then show ?case
    by (auto split: Option.bind_splits sum.splits bool.splits dest: seq_processNext_keeps intro: seq_keeps_trans)
qed simp

lemma consumer_gate:
  "consumer_processNext c = (r, c') \<Longrightarrow> same_gate (admissionIndex c) (admissionIndex c')"
  by (auto simp: consumer_processNext_def complete_pending_def Let_def
      split: option.splits prod.splits if_splits dest: adm_complete_gate)

lemma dispatcher_gate:
  assumes "dispatcher_advance d = (r, d')"
  shows "same_gate (admissionIndex (rd_completion d)) (admissionIndex (rd_completion d'))"
proof -
  have taken: "takeCompleted d = (t, d1) \<Longrightarrow> same_gate (admissionIndex (rd_completion d)) (admissionIndex (rd_completion d1))" for t d1
    by (auto simp: takeCompleted_def split: if_splits prod.splits sum.splits option.splits dest: consumer_gate)
  have rest: "projectPending x = (a, y) \<Longrightarrow> rd_completion y = rd_completion x"
      "handoffPrivate x = (a, y) \<Longrightarrow> rd_completion y = rd_completion x"
      "handoffPublic x = (a, y) \<Longrightarrow> rd_completion y = rd_completion x" for a x y
    by (auto simp: projectPending_def handoffPrivate_def handoffPublic_def
        split: option.splits if_splits sum.splits prod.splits bool.splits)
  show ?thesis
    using assms taken
    by (auto simp: dispatcher_advance_def bind_state_def clearPending_def rest
        split: prod.splits sum.splits option.splits if_splits)
qed

text \<open>So a cycle keeps the run, whatever it moves.\<close>

lemma sequenceStep_keeps:
  assumes "sequenceStep env fuel path run = Some (r, path', run')" and "owned_run run runId opened"
  shows "owned_run run' runId opened" and "capacityTransitionPending path' = capacityTransitionPending path"
proof -
  let ?s = "(cp_sequencer path)\<lparr>sequencingIngressQueue := cp_ingress path, matchingEngineQueue := cp_matching path,
      seq_admissionIndex := rs_admissionIndex run, journalWriter := rs_journalWriter run\<rparr>"
  obtain s' where s': "seq_advance (pe_push env) (pe_pop env) (pe_empty env) (pe_writeFile env) (pe_syncFile env) fuel fuel ?s =
      Some (r, s')"
    "path' = path\<lparr>cp_sequencer := s', cp_ingress := sequencingIngressQueue s', cp_matching := matchingEngineQueue s'\<rparr>"
    "run' = run\<lparr>rs_admissionIndex := seq_admissionIndex s', rs_journalWriter := journalWriter s'\<rparr>"
    using assms(1) by (auto simp: sequenceStep_def)
  have "seq_keeps ?s s'"
    using drainAvailable_keeps s'(1) by (simp add: seq_advance_def)
  then show "owned_run run' runId opened" "capacityTransitionPending path' = capacityTransitionPending path"
    using assms(2) s'(2,3)
    by (auto simp: owned_run_def seq_keeps_def same_gate_def option_rel_Some1)
qed

lemma matchStep_keeps:
  assumes "matchStep env fuel path run = Some (r, path', run')" and "owned_run run runId opened"
  shows "owned_run run' runId opened" and "capacityTransitionPending path' = capacityTransitionPending path"
  using assms by (auto simp: matchStep_def owned_run_def Let_def)

lemma dispatchStep_keeps:
  assumes "dispatchStep path run = Some (r, path', run')" and "owned_run run runId opened"
  shows "owned_run run' runId opened" and "capacityTransitionPending path' = capacityTransitionPending path"
proof -
  obtain idx where idx: "rs_admissionIndex run = Some idx"
    using assms(2) by (auto simp: owned_run_def)
  let ?d = "(cp_resultDispatcher path)\<lparr>
      rd_completion := (cp_completion path)\<lparr>resultQueue := cp_results path, admissionIndex := idx\<rparr>,
      rd_privateHandoff := cp_privateResults path, rd_publicHandoff := cp_publicTrades path\<rparr>"
  obtain d' where d': "dispatcher_advance ?d = (r, d')"
    "capacityTransitionPending path' = capacityTransitionPending path"
    "run' = run\<lparr>rs_admissionIndex := Some (admissionIndex (rd_completion d'))\<rparr>"
    using assms(1) by (cases "dispatcher_advance ?d") (auto simp: dispatchStep_def idx Let_def)
  then show "owned_run run' runId opened" "capacityTransitionPending path' = capacityTransitionPending path"
    using assms(2) dispatcher_gate [OF d'(1)] idx by (auto simp: owned_run_def same_gate_def)
qed

lemma accountJournalProgress_keeps:
  "accountJournalProgress n m writer path = (ok, path') \<Longrightarrow>
     capacityTransitionPending path' = capacityTransitionPending path \<and> cp_sequencer path' = cp_sequencer path"
  by (auto simp: accountJournalProgress_def Let_def split: if_splits)

lemma processingCycle_keeps:
  assumes "processingCycle env fuel n m path run = Some (r, path', run')" and own: "owned_run run runId opened"
  shows "owned_run run' runId opened \<and> capacityTransitionPending path' = capacityTransitionPending path"
proof -
  obtain r1 p1 run1 where s1: "sequenceStep env fuel path run = Some (r1, p1, run1)"
    using assms(1) by (auto simp: processingCycle_def split: Option.bind_splits)
  note k1 = sequenceStep_keeps [OF s1 own]
  show ?thesis
  proof (cases r1)
    case (Inl e)
    then show ?thesis
      using assms(1) s1 k1 by (simp add: processingCycle_def)
  next
    case (Inr b1)
    obtain writer where writer: "rs_journalWriter run1 = Some writer"
      using k1(1) by (auto simp: owned_run_def)
    obtain ok p2 where acc: "accountJournalProgress n m writer p1 = (ok, p2)"
      by (cases "accountJournalProgress n m writer p1")
    note k2 = accountJournalProgress_keeps [OF acc]
    show ?thesis
    proof (cases "\<not> ok \<or> journalAppendFailure (cp_sequencer p2) \<noteq> None")
      case True
      then show ?thesis
        using assms(1) s1 k1 k2 Inr writer acc by (cases ok) (auto simp: processingCycle_def)
    next
      case False
      then have rest: "Option.bind (matchStep env fuel p2 run1) (\<lambda>(r2, p, run).
          case r2 of
            Inl e \<Rightarrow> Some (Inl e, p, run)
          | Inr b2 \<Rightarrow> map_option (\<lambda>(r3, p, run).
              (case r3 of Inl e \<Rightarrow> Inl e | Inr b3 \<Rightarrow> Inr (Some (b1 \<or> b2 \<or> b3)), p, run)) (dispatchStep p run)) =
          Some (r, path', run')"
        using assms(1) s1 Inr writer acc by (simp add: processingCycle_def)
      then obtain r2 p3 run2 where s2: "matchStep env fuel p2 run1 = Some (r2, p3, run2)"
        by (auto split: Option.bind_splits)
      note k3 = matchStep_keeps [OF s2 k1(1)]
      have "path' = p3 \<and> run' = run2 \<or> (\<exists>r3. dispatchStep p3 run2 = Some (r3, path', run'))"
        using rest s2 by (cases r2) auto
      then show ?thesis
        using k1 k2 k3 dispatchStep_keeps [OF _ k3(1)] by metis
    qed
  qed
qed

section \<open>The invariant\<close>

definition transition_pending :: "('f, 'q) controller \<Rightarrow> bool" where
  "transition_pending ctl = (case ctl_commandProcessing ctl of None \<Rightarrow> False | Some path \<Rightarrow> capacityTransitionPending path)"

definition lifecycle_inv ::
  "('w \<Rightarrow> u8 list option) \<Rightarrow> string \<Rightarrow> ('f, 'q) controller \<Rightarrow> 'w \<Rightarrow> bool" where
  "lifecycle_inv catalog binding ctl w \<longleftrightarrow>
     (case ctl_state ctl of
        ES_READY \<Rightarrow> ctl_canonicalCatalogPath ctl = binding \<and>
          (\<exists>runId opened. owned_run (ctl_run ctl) runId opened \<and> active_run (catalog w) OPEN runId \<and>
             (transition_pending ctl \<longrightarrow> \<not> opened))
      | ES_PAUSED \<Rightarrow> ctl_canonicalCatalogPath ctl = binding \<and> \<not> transition_pending ctl \<and>
          (\<exists>runId. owned_run (ctl_run ctl) runId False)
      | ES_CAPACITY_REACHED \<Rightarrow> ctl_canonicalCatalogPath ctl = binding \<and>
          (\<exists>runId. owned_run (ctl_run ctl) runId False \<and> active_run (catalog w) CAPACITY_REACHED runId)
      | ES_FAIL_STOPPED \<Rightarrow> ctl_canonicalCatalogPath ctl = binding \<and> ctl_commandProcessing ctl \<noteq> None \<and>
          (\<exists>runId. owned_run (ctl_run ctl) runId False \<and> active_run (catalog w) FAIL_STOPPED runId)
      | ES_STOPPED \<Rightarrow> ctl_run ctl = empty_RunStateV1 \<and> ctl_commandProcessing ctl = None
      | _ \<Rightarrow> ctl_run ctl = empty_RunStateV1 \<and> ctl_commandProcessing ctl = None \<or>
          (\<exists>runId. owned_run (ctl_run ctl) runId False))"

definition posix_processing ::
  "('w \<Rightarrow> u8 list option) \<Rightarrow> ('f \<Rightarrow> u8 list) \<Rightarrow> ('f \<Rightarrow> u8 list) \<Rightarrow> ('f \<Rightarrow> nat) \<Rightarrow> nat \<Rightarrow>
     ('w, 'f, 'q) ProcessingEnvironment \<Rightarrow> string \<Rightarrow> string \<Rightarrow> bool" where
  "posix_processing catalog remaining written interrupts bound env path binding \<longleftrightarrow>
     posix_environment catalog remaining written interrupts bound (pe_run env) path binding \<and>
     lexically_normal binding = binding \<and>
     (\<forall>w p runId e w'. pe_removeFile env w (deriveCanonicalRunJournalPathV1 p runId) = (e, w') \<longrightarrow> catalog w' = catalog w)"

lemma posix_processingD:
  assumes "posix_processing catalog remaining written interrupts bound env path binding"
  shows "posix_environment catalog remaining written interrupts bound (pe_run env) path binding"
    and "posix_catalog catalog remaining written interrupts bound (dd_files (env_directory (pe_run env) binding))"
    and "absolute (env_currentPath (pe_run env)) path = Some binding" and "lexically_normal binding = binding"
    and "catalog (env_update (pe_run env) w (deriveCanonicalRunJournalPathV1 p runId) f) = catalog w"
    and "pe_removeFile env w (deriveCanonicalRunJournalPathV1 p runId) = (e, w') \<Longrightarrow> catalog w' = catalog w"
proof -
  show env: "posix_environment catalog remaining written interrupts bound (pe_run env) path binding"
    using assms by (simp add: posix_processing_def)
  show "lexically_normal binding = binding"
    "pe_removeFile env w (deriveCanonicalRunJournalPathV1 p runId) = (e, w') \<Longrightarrow> catalog w' = catalog w"
    using assms unfolding posix_processing_def by blast+
  show "posix_catalog catalog remaining written interrupts bound (dd_files (env_directory (pe_run env) binding))"
    "absolute (env_currentPath (pe_run env)) path = Some binding"
    "catalog (env_update (pe_run env) w (deriveCanonicalRunJournalPathV1 p runId) f) = catalog w"
    by (rule posix_environmentD [OF env])+
qed

lemma updatePath_simps [simp]:
  "ctl_state (updatePath f ctl) = ctl_state ctl"
  "ctl_run (updatePath f ctl) = ctl_run ctl"
  "ctl_canonicalCatalogPath (updatePath f ctl) = ctl_canonicalCatalogPath ctl"
  "ctl_commandProcessing (updatePath f ctl) = map_option f (ctl_commandProcessing ctl)"
  by (simp_all add: updatePath_def)

lemma closeAdmission_simps [simp]:
  "ctl_state (closeAdmission ctl) = ctl_state ctl"
  "ctl_canonicalCatalogPath (closeAdmission ctl) = ctl_canonicalCatalogPath ctl"
  "ctl_commandProcessing (closeAdmission ctl) = ctl_commandProcessing ctl"
  by (simp_all add: closeAdmission_def)

lemma closeAdmission_owned: "owned_run (ctl_run ctl) runId opened \<Longrightarrow> owned_run (ctl_run (closeAdmission ctl)) runId False"
  using owned_open [of "ctl_run ctl" runId opened False] by (simp add: closeAdmission_def)

lemma publishFailStopped_spec:
  assumes posix: "posix_catalog catalog remaining written interrupts bound (dd_files (env_directory (pe_run env) binding))"
    and fuel: "bound + 57 < fuel" and own: "owned_run (ctl_run ctl) runId False" and path: "ctl_canonicalCatalogPath ctl = binding"
  shows "\<exists>ctl' w'. publishFailStopped env fuel ctl w = Some (ctl', w') \<and>
    ctl_run ctl' = ctl_run ctl \<and> ctl_canonicalCatalogPath ctl' = binding \<and>
    (ctl_commandProcessing ctl' = None \<longleftrightarrow> ctl_commandProcessing ctl = None) \<and>
    (ctl_state ctl' = ES_UNAVAILABLE \<or> ctl_state ctl' = ES_FAIL_STOPPED \<and> active_run (catalog w') FAIL_STOPPED runId)"
proof -
  let ?files = "dd_files (env_directory (pe_run env) binding)"
  obtain x where x: "rs_journalWriter (ctl_run ctl) = Some x" "rh_exchangeRunId (w_header x) = runId"
    using own by (auto simp: owned_run_def)
  obtain load current where load: "loadRunCatalogV1 ?files fuel w empty_RunCatalogSnapshotV1 = Some (load, current)"
    using load_snapshot [OF posix fuel] by blast
  let ?next = "current\<lparr>rc_generation := rc_generation current + 1, rc_activeDisposition := FAIL_STOPPED\<rparr>"
  obtain rep w1 where rep: "replaceRunCatalogV1WithHooks ?files fuel w ?next = Some (rep, w1)"
    "cp_outcome rep = CR_COMMITTED \<longrightarrow> catalog_snapshot (catalog w1) = Some ?next"
    using replace_snapshot [OF posix fuel, of ?next w] by (auto simp: known_disposition_def)
  show ?thesis
  proof (cases "cl_outcome load \<noteq> CL_LOADED \<or> rc_activeRunId current \<noteq> Some runId \<or> rc_activeDisposition current \<noteq> OPEN \<or>
      rc_generation current = - 1 \<or> cp_outcome rep \<noteq> CR_COMMITTED")
    case True
    then show ?thesis
      using x load rep path by (auto simp: publishFailStopped_def Let_def)
  next
    case False
    then show ?thesis
      using x load rep path by (auto simp: publishFailStopped_def Let_def active_run_def)
  qed
qed

lemma publishCapacityReached_spec:
  assumes posix: "posix_catalog catalog remaining written interrupts bound (dd_files (env_directory (pe_run env) binding))"
    and fuel: "bound + 57 < fuel" and own: "owned_run (ctl_run ctl) runId False" and path: "ctl_canonicalCatalogPath ctl = binding"
  shows "\<exists>b ctl' w'. publishCapacityReached env fuel ctl w = Some (b, ctl', w') \<and>
    ctl_run ctl' = ctl_run ctl \<and> ctl_canonicalCatalogPath ctl' = binding \<and>
    (ctl_state ctl' = ES_UNAVAILABLE \<or> ctl_state ctl' = ES_CAPACITY_REACHED \<and> active_run (catalog w') CAPACITY_REACHED runId)"
proof -
  let ?files = "dd_files (env_directory (pe_run env) binding)"
  obtain x where x: "rs_journalWriter (ctl_run ctl) = Some x" "rh_exchangeRunId (w_header x) = runId"
    using own by (auto simp: owned_run_def)
  obtain load current where load: "loadRunCatalogV1 ?files fuel w empty_RunCatalogSnapshotV1 = Some (load, current)"
    using load_snapshot [OF posix fuel] by blast
  let ?next = "current\<lparr>rc_generation := rc_generation current + 1, rc_activeDisposition := CAPACITY_REACHED\<rparr>"
  obtain rep w1 where rep: "replaceRunCatalogV1WithHooks ?files fuel w ?next = Some (rep, w1)"
    "cp_outcome rep = CR_COMMITTED \<longrightarrow> catalog_snapshot (catalog w1) = Some ?next"
    using replace_snapshot [OF posix fuel, of ?next w] by (auto simp: known_disposition_def)
  show ?thesis
  proof (cases "cl_outcome load \<noteq> CL_LOADED \<or> rc_activeRunId current \<noteq> Some runId \<or> rc_activeDisposition current \<noteq> OPEN \<or>
      rc_generation current = - 1 \<or> cp_outcome rep \<noteq> CR_COMMITTED")
    case True
    then show ?thesis
      using x load rep path by (auto simp: publishCapacityReached_def Let_def)
  next
    case False
    then show ?thesis
      using x load rep path by (auto simp: publishCapacityReached_def Let_def active_run_def)
  qed
qed

lemma stage_effect:
  assumes "stageCommand env command b p ctl = Some (d, c)" and "ctl_commandProcessing ctl = Some p"
    and own: "owned_run (ctl_run ctl) runId opened"
  shows "ctl_state c = ctl_state ctl \<and> ctl_canonicalCatalogPath c = ctl_canonicalCatalogPath ctl \<and>
    ctl_commandProcessing c \<noteq> None \<and> owned_run (ctl_run c) runId opened \<and> transition_pending c = capacityTransitionPending p"
proof -
  obtain idx where idx: "rs_admissionIndex (ctl_run ctl) = Some idx"
    using own by (auto simp: owned_run_def)
  show ?thesis
  proof (cases "reserveAndStageForRunCapacity (pe_push env) idx command (cp_ingress p) b")
    case (Inl e)
    then show ?thesis
      using assms idx by (auto simp: stageCommand_def transition_pending_def)
  next
    case (Inr t)
    then obtain d' idx' q where t: "reserveAndStageForRunCapacity (pe_push env) idx command (cp_ingress p) b = Inr (d', idx', q)"
      by (cases t) auto
    then show ?thesis
      using assms idx stage_gate [OF t]
      by (auto simp: stageCommand_def transition_pending_def owned_run_def same_gate_def)
  qed
qed

lemma accountSubmission_effect:
  assumes own: "owned_run (ctl_run c) runId opened" and c': "c' = accountSubmission z x d c"
  shows "ctl_state c' = ctl_state c \<and> ctl_canonicalCatalogPath c' = ctl_canonicalCatalogPath c \<and>
    (ctl_commandProcessing c' = None \<longleftrightarrow> ctl_commandProcessing c = None) \<and>
    (owned_run (ctl_run c') runId opened \<and> transition_pending c' = transition_pending c \<or> owned_run (ctl_run c') runId False)"
proof -
  have closed: "owned_run (ctl_run (closeAdmission (updatePath f c1))) runId False" if "ctl_run c1 = ctl_run c" for f c1
    using closeAdmission_owned [of "updatePath f c1" runId opened] own that by simp
  show ?thesis
    using own closed by (auto simp: c' accountSubmission_def Let_def transition_pending_def split: option.splits)
qed

lemma submit_effect:
  assumes "submitCommandV1 env rid command ctl = Some (r, ctl')" and "owned_run (ctl_run ctl) runId opened"
  shows "ctl_state ctl' = ctl_state ctl \<and> ctl_canonicalCatalogPath ctl' = ctl_canonicalCatalogPath ctl \<and>
    (ctl_commandProcessing ctl' = None \<longleftrightarrow> ctl_commandProcessing ctl = None) \<and>
    (owned_run (ctl_run ctl') runId opened \<and> transition_pending ctl' = transition_pending ctl \<or>
     owned_run (ctl_run ctl') runId False \<and> ctl_state ctl = ES_READY)"
proof -
  show ?thesis
  proof (cases "ctl_commandProcessing ctl")
    case None
    then show ?thesis
      using assms by (simp add: submitCommandV1_def)
  next
    case (Some p)
    obtain x where x: "rs_journalWriter (ctl_run ctl) = Some x"
      using assms(2) by (auto simp: owned_run_def)
    have tp: "transition_pending ctl = capacityTransitionPending p"
      by (simp add: transition_pending_def Some)
    consider (same) "ctl' = ctl" | (staged) b where "stageCommand env command b p ctl = Some (r, ctl')"
      | (counted) b z y d c where "stageCommand env command b p ctl = Some (r, c)" "ctl_state ctl = ES_READY"
          "ctl' = accountSubmission z y d c"
      using assms(1) Some x
      by (cases r) (auto simp: submitCommandV1_def Let_def split: if_splits prod.splits sum.splits)
    then show ?thesis
    proof cases
      case same
      then show ?thesis using assms(2) by simp
    next
      case (staged b)
      then show ?thesis using stage_effect [OF staged Some assms(2)] Some tp by simp
    next
      case (counted b z y d c)
      note staged = stage_effect [OF counted(1) Some assms(2)]
      then have "owned_run (ctl_run c) runId opened" by blast
      from accountSubmission_effect [OF this counted(3)] show ?thesis
        using staged counted(2) Some tp by auto
    qed
  qed
qed

lemma install_effect:
  assumes "installCommandProcessingV1 env a b c d e ctl = (r, ctl')"
  shows "ctl' = ctl \<or> (ctl_state ctl = ES_READY \<or> ctl_state ctl = ES_PAUSED) \<and> ctl_commandProcessing ctl = None \<and>
    (\<exists>path. ctl' = ctl\<lparr>ctl_commandProcessing := Some path\<rparr> \<and> \<not> capacityTransitionPending path)"
proof -
  have "\<not> capacityTransitionPending path" if "make_CommandProcessingPath env run a b c d e = Inr path" for run path
    using that by (auto simp: make_CommandProcessingPath_def result_iff Let_def)
  then show ?thesis
    using assms by (auto simp: installCommandProcessingV1_def split: if_splits sum.splits)
qed

section \<open>Every operation keeps the invariant\<close>

text \<open>A controller whose run is active and open in the catalog.\<close>

definition ready_run ::
  "('w \<Rightarrow> u8 list option) \<Rightarrow> string \<Rightarrow> ExchangeRunId \<Rightarrow> bool \<Rightarrow> ('f, 'q) controller \<Rightarrow> 'w \<Rightarrow> bool" where
  "ready_run catalog binding runId opened ctl w \<longleftrightarrow>
     ctl_state ctl = ES_READY \<and> ctl_canonicalCatalogPath ctl = binding \<and> owned_run (ctl_run ctl) runId opened \<and>
     active_run (catalog w) OPEN runId \<and> (transition_pending ctl \<longrightarrow> \<not> opened)"

lemma ready_inv: "ready_run catalog binding runId opened ctl w \<Longrightarrow> lifecycle_inv catalog binding ctl w"
  by (auto simp: ready_run_def lifecycle_inv_def)

lemma inv_ready:
  "lifecycle_inv catalog binding ctl w \<Longrightarrow> ctl_state ctl = ES_READY \<Longrightarrow> \<exists>runId opened. ready_run catalog binding runId opened ctl w"
  by (auto simp: ready_run_def lifecycle_inv_def)

lemma advance_spec:
  assumes posix: "posix_processing catalog remaining written interrupts bound env path binding" and fuel: "bound + 57 < fuel"
    and ready: "ready_run catalog binding runId opened ctl w"
    and step: "advanceCommandProcessingV1WithHooks env fuel ctl w = Some (b, ctl', w')"
  shows "ready_run catalog binding runId opened ctl' w' \<and> w' = w \<and> transition_pending ctl' = transition_pending ctl \<or>
    lifecycle_inv catalog binding ctl' w' \<and> ctl_state ctl' \<noteq> ES_READY \<and> (b \<longrightarrow> transition_pending ctl)"
proof (cases "ctl_commandProcessing ctl")
  case None
  then show ?thesis
    using ready step by (simp add: advanceCommandProcessingV1WithHooks_def)
next
  case (Some p)
  note cat = posix_processingD(2) [OF posix]
  have own: "owned_run (ctl_run ctl) runId opened" and st: "ctl_state ctl = ES_READY" "ctl_canonicalCatalogPath ctl = binding"
    and act: "active_run (catalog w) OPEN runId" and pend: "transition_pending ctl \<longrightarrow> \<not> opened"
    using ready by (simp_all add: ready_run_def)
  obtain x where x: "rs_journalWriter (ctl_run ctl) = Some x"
    using own by (auto simp: owned_run_def)
  let ?n = "committedCommandCount x" and ?m = "committedByteCount x"
  obtain r p1 run1 where cycle: "processingCycle env fuel ?n ?m p (ctl_run ctl) = Some (r, p1, run1)"
    using step Some st(1) x by (auto simp: advanceCommandProcessingV1WithHooks_def Let_def split: Option.bind_splits)
  note k = processingCycle_keeps [OF cycle own]
  let ?c = "ctl\<lparr>ctl_commandProcessing := Some p1, ctl_run := run1\<rparr>"
  have failed: "lifecycle_inv catalog binding ctl' w' \<and> ctl_state ctl' \<noteq> ES_READY \<and> \<not> b"
    if "map_option (Pair False) (publishFailStopped env fuel (closeAdmission c) w) = Some (b, ctl', w')"
      "ctl_run c = run1" "ctl_canonicalCatalogPath c = binding" "ctl_commandProcessing c \<noteq> None" for c
  proof -
    have o: "owned_run (ctl_run (closeAdmission c)) runId False"
      using closeAdmission_owned [of c runId opened] k that(2) by simp
    from publishFailStopped_spec [OF cat fuel o, of w] show ?thesis
      using that o by (auto simp: lifecycle_inv_def)
  qed
  obtain y where y: "rs_journalWriter run1 = Some y"
    using k by (auto simp: owned_run_def)
  consider (threw) e where "r = Inl e" | (refused) "r = Inr None"
    | (moved) q where "r = Inr (Some q)" "\<not> capacityTransitionPending p1 \<or> \<not> processingDrained env p1"
    | (full) q where "r = Inr (Some q)" "capacityTransitionPending p1" "processingDrained env p1"
    by (metis option.exhaust sum.exhaust)
  then show ?thesis
  proof cases
    case threw
    then show ?thesis
      using step Some st x cycle y failed [of "updatePath (\<lambda>path. (snd (accountJournalProgress ?n ?m y path))\<lparr>cp_internalFailure := Some e\<rparr>) ?c"]
      by (simp add: advanceCommandProcessingV1WithHooks_def)
  next
    case refused
    then show ?thesis
      using step Some st x cycle failed [of ?c] by (simp add: advanceCommandProcessingV1WithHooks_def)
  next
    case moved
    then show ?thesis
      using step Some st x cycle k act pend
      by (auto simp: advanceCommandProcessingV1WithHooks_def ready_run_def transition_pending_def)
  next
    case full
    then have tp: "transition_pending ctl" "\<not> opened"
      using k pend Some by (simp_all add: transition_pending_def)
    have o: "owned_run (ctl_run ?c) runId False"
      using k tp by simp
    from publishCapacityReached_spec [OF cat fuel o, of w] show ?thesis
      using step Some st x cycle full o tp
      by (auto simp: advanceCommandProcessingV1WithHooks_def lifecycle_inv_def)
  qed
qed

lemma pauseDrain_spec:
  assumes posix: "posix_processing catalog remaining written interrupts bound env path binding" and fuel: "bound + 57 < fuel"
  shows "ready_run catalog binding runId False ctl w \<Longrightarrow> \<not> transition_pending ctl \<Longrightarrow>
    pauseDrain env fuel n ctl w = Some (early, ctl', w') \<Longrightarrow>
    (case early of
       None \<Rightarrow> ready_run catalog binding runId False ctl' w' \<and> \<not> transition_pending ctl' \<and>
         (\<exists>p. ctl_commandProcessing ctl' = Some p \<and> processingDrained env p \<and> resultHandoffsDrained p)
     | Some oc \<Rightarrow> oc \<noteq> RP_PAUSED \<and> lifecycle_inv catalog binding ctl' w')"
proof (induction n arbitrary: ctl w)
  case (Suc n)
  obtain p where p: "ctl_commandProcessing ctl = Some p"
    using Suc.prems(3) by (auto split: Option.bind_splits)
  show ?case
  proof (cases "processingDrained env p")
    case True
    then show ?thesis
      using Suc.prems p ready_inv [OF Suc.prems(1)] by (auto split: if_splits)
  next
    case False
    then obtain b c1 w1 where adv: "advanceCommandProcessingV1WithHooks env fuel ctl w = Some (b, c1, w1)"
      using Suc.prems(3) p by (auto split: Option.bind_splits)
    from advance_spec [OF posix fuel Suc.prems(1) adv] Suc.prems(2)
    have a: "ready_run catalog binding runId False c1 w1 \<and> \<not> transition_pending c1 \<or>
        lifecycle_inv catalog binding c1 w1 \<and> ctl_state c1 \<noteq> ES_READY \<and> \<not> b"
      by auto
    show ?thesis
    proof (cases b)
      case True
      then show ?thesis
        using Suc.IH [of c1 w1] Suc.prems(3) a p adv False by simp
    next
      case b: False
      have inv: "lifecycle_inv catalog binding c1 w1"
        using a by (auto dest: ready_inv)
      have lost: "lifecycle_inv catalog binding (c1\<lparr>ctl_state := ES_UNAVAILABLE\<rparr>) w1"
        if "ctl_state c1 \<noteq> ES_FAIL_STOPPED" "ctl_commandProcessing c1 \<noteq> None"
        using a that by (auto simp: lifecycle_inv_def ready_run_def split: ExchangeRunStartupState.splits)
      show ?thesis
        using Suc.prems(3) p adv False b inv lost by (auto split: Option.bind_splits if_splits)
    qed
  qed
qed simp

lemma ready_lost: "ready_run catalog binding runId False ctl w \<Longrightarrow> lifecycle_inv catalog binding (ctl\<lparr>ctl_state := ES_UNAVAILABLE\<rparr>) w'"
  by (auto simp: ready_run_def lifecycle_inv_def)

lemma publishPaused_spec:
  assumes posix: "posix_processing catalog remaining written interrupts bound env path binding" and fuel: "bound + 57 < fuel"
    and ready: "ready_run catalog binding runId False ctl w" and pend: "\<not> transition_pending ctl"
  shows "\<exists>res ctl' w'. publishPaused env fuel ctl w = Some (res, ctl', w') \<and> lifecycle_inv catalog binding ctl' w' \<and>
    (pz_outcome res = RP_PAUSED \<longrightarrow> ctl' = ctl\<lparr>ctl_state := ES_PAUSED\<rparr> \<and> active_run (catalog w') PAUSED runId)"
proof -
  let ?files = "dd_files (env_directory (pe_run env) binding)"
  note cat = posix_processingD(2) [OF posix]
  have own: "owned_run (ctl_run ctl) runId False" and st: "ctl_canonicalCatalogPath ctl = binding"
    using ready by (simp_all add: ready_run_def)
  obtain x where x: "rs_journalWriter (ctl_run ctl) = Some x" "rh_exchangeRunId (w_header x) = runId"
    using own by (auto simp: owned_run_def)
  obtain load current where load: "loadRunCatalogV1 ?files fuel w empty_RunCatalogSnapshotV1 = Some (load, current)"
    using load_snapshot [OF cat fuel] by blast
  let ?next = "current\<lparr>rc_generation := rc_generation current + 1, rc_activeDisposition := PAUSED\<rparr>"
  obtain rep w1 where rep: "replaceRunCatalogV1WithHooks ?files fuel w ?next = Some (rep, w1)"
    "cp_outcome rep = CR_COMMITTED \<longrightarrow> catalog_snapshot (catalog w1) = Some ?next"
    using replace_snapshot [OF cat fuel, of ?next w] by (auto simp: known_disposition_def)
  show ?thesis
  proof (cases "cl_outcome load \<noteq> CL_LOADED \<or> rc_activeRunId current \<noteq> Some runId \<or> rc_activeDisposition current \<noteq> OPEN \<or>
      rc_generation current = - 1 \<or> cp_outcome rep \<noteq> CR_COMMITTED")
    case True
    then show ?thesis
      using x load rep st ready_lost [OF ready] by (auto simp: publishPaused_def pauseResult_def Let_def)
  next
    case False
    have "lifecycle_inv catalog binding (ctl\<lparr>ctl_state := ES_PAUSED\<rparr>) w1"
      using own st pend by (auto simp: lifecycle_inv_def transition_pending_def)
    then show ?thesis
      using False x load rep st by (auto simp: publishPaused_def pauseResult_def Let_def active_run_def)
  qed
qed

lemma pause_spec:
  assumes posix: "posix_processing catalog remaining written interrupts bound env path binding" and fuel: "bound + 57 < fuel"
    and inv: "lifecycle_inv catalog binding ctl w" and step: "pauseRunV1WithHooks env fuel ctl w = Some (res, ctl', w')"
  shows "lifecycle_inv catalog binding ctl' w'"
    and "pz_outcome res = RP_PAUSED \<Longrightarrow> ctl_state ctl = ES_READY \<and> ctl_state ctl' = ES_PAUSED \<and>
      (\<exists>runId opened p. owned_run (ctl_run ctl) runId opened \<and> owned_run (ctl_run ctl') runId False \<and>
         active_run (catalog w') PAUSED runId \<and> ctl_commandProcessing ctl' = Some p \<and> processingDrained env p \<and> resultHandoffsDrained p)"
proof -
  have "lifecycle_inv catalog binding ctl' w' \<and> (pz_outcome res = RP_PAUSED \<longrightarrow> ctl_state ctl = ES_READY \<and> ctl_state ctl' = ES_PAUSED \<and>
      (\<exists>runId opened p. owned_run (ctl_run ctl) runId opened \<and> owned_run (ctl_run ctl') runId False \<and>
         active_run (catalog w') PAUSED runId \<and> ctl_commandProcessing ctl' = Some p \<and> processingDrained env p \<and> resultHandoffsDrained p))"
  proof (cases "ctl_state ctl = ES_READY \<and> ctl_commandProcessing ctl \<noteq> None \<and> \<not> transition_pending ctl")
    case False
    then show ?thesis
      using step inv
      by (auto simp: pauseRunV1WithHooks_def pauseResult_def transition_pending_def split: if_splits option.splits)
  next
    case True
    then obtain runId opened where r: "ready_run catalog binding runId opened ctl w"
      using inv_ready [OF inv] by blast
    have ready: "ready_run catalog binding runId False (closeAdmission ctl) w" "\<not> transition_pending (closeAdmission ctl)"
      using r True closeAdmission_owned [of ctl runId opened] by (simp_all add: ready_run_def transition_pending_def)
    obtain early c1 w1 where drain: "pauseDrain env fuel fuel (closeAdmission ctl) w = Some (early, c1, w1)"
      using step True by (auto simp: pauseRunV1WithHooks_def transition_pending_def split: option.splits if_splits Option.bind_splits)
    note d = pauseDrain_spec [OF posix fuel ready drain]
    show ?thesis
    proof (cases early)
      case (Some oc)
      then show ?thesis
        using step True drain d
        by (auto simp: pauseRunV1WithHooks_def pauseResult_def transition_pending_def split: option.splits)
    next
      case None
      then have d1: "ready_run catalog binding runId False c1 w1" "\<not> transition_pending c1"
        "\<exists>p. ctl_commandProcessing c1 = Some p \<and> processingDrained env p \<and> resultHandoffsDrained p"
        using d by auto
      have "owned_run (ctl_run ctl) runId opened"
        using r by (simp add: ready_run_def)
      then show ?thesis
        using publishPaused_spec [OF posix fuel d1(1,2)] step True drain None d1
        by (auto simp: pauseRunV1WithHooks_def transition_pending_def ready_run_def split: option.splits)
    qed
  qed
  then show "lifecycle_inv catalog binding ctl' w'" "pz_outcome res = RP_PAUSED \<Longrightarrow> ctl_state ctl = ES_READY \<and> ctl_state ctl' = ES_PAUSED \<and>
      (\<exists>runId opened p. owned_run (ctl_run ctl) runId opened \<and> owned_run (ctl_run ctl') runId False \<and>
         active_run (catalog w') PAUSED runId \<and> ctl_commandProcessing ctl' = Some p \<and> processingDrained env p \<and> resultHandoffsDrained p)"
    by blast+
qed

text \<open>The catalog after a stop: no active run, and the stopped run retained.\<close>

definition stopped_run :: "u8 list option \<Rightarrow> ExchangeRunId \<Rightarrow> bool" where
  "stopped_run file' runId \<longleftrightarrow>
     (case catalog_snapshot file' of
        None \<Rightarrow> False
      | Some snap \<Rightarrow> rc_activeRunId snap = None \<and> rc_retainedStoppedRunId snap = Some runId)"

lemma removeLoop_catalog:
  assumes posix: "posix_processing catalog remaining written interrupts bound env path binding"
  shows "removeLoop env fuel (deriveCanonicalRunJournalPathV1 p runId) w = Some (e, w') \<Longrightarrow> catalog w' = catalog w"
proof (induction fuel arbitrary: w)
  case (Suc fuel)
  obtain e1 w1 where r: "pe_removeFile env w (deriveCanonicalRunJournalPathV1 p runId) = (e1, w1)"
    by (cases "pe_removeFile env w (deriveCanonicalRunJournalPathV1 p runId)")
  show ?case
    using Suc.prems Suc.IH [of w1] r posix_processingD(6) [OF posix r] by (auto split: if_splits)
qed simp

lemma removeStopped_catalog:
  assumes posix: "posix_processing catalog remaining written interrupts bound env path binding"
    and "removeStoppedJournal env files fuel (deriveCanonicalRunJournalPathV1 p runId) dir rid w = Some (cleanup, w')"
  shows "catalog w' = catalog w"
proof -
  have "\<exists>e. removeLoop env fuel (deriveCanonicalRunJournalPathV1 p runId) w = Some (e, w')"
    using assms(2) by (auto simp: removeStoppedJournal_def Let_def split: Option.bind_splits if_splits sum.splits)
  then show ?thesis
    using removeLoop_catalog [OF posix] by blast
qed

lemma commitStop_spec:
  assumes posix: "posix_processing catalog remaining written interrupts bound env path binding" and fuel: "bound + 57 < fuel"
    and own: "owned_run (ctl_run ctl) runId False" "rs_journalWriter (ctl_run ctl) = Some x" "ctl_canonicalCatalogPath ctl = binding"
    and step: "commitStop env fuel snap x replaced res ctl w = Some (res', ctl', w')"
  shows "lifecycle_inv catalog binding ctl' w' \<and>
    (if st_outcome res' = ST_STOPPED \<or> st_outcome res' = ST_STOPPED_CLEANUP_FAILED
     then ctl_state ctl' = ES_STOPPED \<and> ctl_run ctl' = empty_RunStateV1 \<and> ctl_commandProcessing ctl' = None \<and>
       stopped_run (catalog w') runId
     else st_outcome res' = ST_CATALOG_REPLACE_FAILED)"
proof -
  let ?files = "dd_files (env_directory (pe_run env) binding)"
  note cat = posix_processingD(2) [OF posix]
  have x: "rh_exchangeRunId (w_header x) = runId"
    using own by (auto simp: owned_run_def)
  let ?next = "snap\<lparr>rc_generation := rc_generation snap + 1, rc_activeRunId := None,
      rc_activeDisposition := DISPOSITION_NONE, rc_retainedStoppedRunId := Some runId\<rparr>"
  obtain rep w1 where rep: "replaceRunCatalogV1WithHooks ?files fuel w ?next = Some (rep, w1)"
    "cp_outcome rep = CR_COMMITTED \<longrightarrow> catalog_snapshot (catalog w1) = Some ?next"
    using replace_snapshot [OF cat fuel, of ?next w] by (auto simp: known_disposition_def)
  have release: "catalog (releaseRun env binding x w1) = catalog w1"
    by (simp add: releaseRun_def posix_processingD(5) [OF posix])
  show ?thesis
  proof (cases "cp_outcome rep = CR_COMMITTED")
    case False
    then show ?thesis
      using step rep own x by (auto simp: commitStop_def Let_def lifecycle_inv_def)
  next
    case True
    then have "stopped_run (catalog w1) runId"
      using rep(2) by (simp add: stopped_run_def)
    then show ?thesis
      using step rep own x True release
      by (auto simp: commitStop_def Let_def lifecycle_inv_def split: option.splits if_splits
          dest!: removeStopped_catalog [OF posix])
  qed
qed

lemma stopChecks_refuses: "stopChecks s i c snap = Inl oc \<Longrightarrow> oc \<noteq> ST_STOPPED \<and> oc \<noteq> ST_STOPPED_CLEANUP_FAILED"
  by (auto simp: stopChecks_def Let_def split: if_splits)

definition not_stopped :: "RunStopResult \<Rightarrow> bool" where
  "not_stopped res \<longleftrightarrow> st_outcome res \<noteq> ST_STOPPED \<and> st_outcome res \<noteq> ST_STOPPED_CLEANUP_FAILED"

text \<open>The ways a stop goes: refused without effect, after a pause, with results that were not taken, or committed.\<close>

lemma stop_cases:
  assumes step: "stopRunV1WithHooks env fuel confirmation ctl w = Some (res, ctl', w')"
    and x: "rs_journalWriter (ctl_run ctl) = Some x"
  obtains (refused) "ctl' = ctl" "w' = w" "not_stopped res"
  | (not_paused) pause where "pauseRunV1WithHooks env fuel ctl w = Some (pause, ctl', w')" "not_stopped res"
  | (paused) pause c1 w1 snap y r res0 where "pauseRunV1WithHooks env fuel ctl w = Some (pause, c1, w1)"
      "pz_outcome pause = RP_PAUSED" "rs_journalWriter (ctl_run c1) = Some y"
      "commitStop env fuel snap y r res0 c1 w1 = Some (res, ctl', w')"
  | (backlog) "ctl_state ctl \<noteq> ES_READY" "ctl' = closeAdmission ctl" "w' = w" "not_stopped res"
  | (commit) snap r res0 where "ctl_state ctl \<noteq> ES_READY"
      "commitStop env fuel snap x r res0 (closeAdmission ctl) w = Some (res, ctl', w')"
proof -
  let ?files = "dd_files (env_directory (pe_run env) (ctl_canonicalCatalogPath ctl))"
  let ?id = "rh_exchangeRunId (w_header x)"
  consider (early) "ctl_state ctl \<noteq> ES_READY \<and> ctl_state ctl \<noteq> ES_PAUSED \<and> ctl_state ctl \<noteq> ES_CAPACITY_REACHED"
    | (loaded) load snap where "ctl_state ctl = ES_READY \<or> ctl_state ctl = ES_PAUSED \<or> ctl_state ctl = ES_CAPACITY_REACHED"
      "loadRunCatalogV1 ?files fuel w empty_RunCatalogSnapshotV1 = Some (load, snap)"
    using step by (auto simp: stopRunV1WithHooks_def Let_def split: Option.bind_splits if_splits)
  then show thesis
  proof cases
    case early
    then show thesis
      using step refused by (auto simp: stopRunV1WithHooks_def Let_def not_stopped_def)
  next
    case loaded
    show thesis
    proof (cases "cl_outcome load = CL_LOADED \<and> (\<exists>r. stopChecks (ctl_state ctl) ?id confirmation snap = Inr r)")
      case False
      then show thesis
        using step refused loaded x stopChecks_refuses [of "ctl_state ctl" ?id confirmation snap]
        by (auto simp: stopRunV1WithHooks_def Let_def not_stopped_def split: sum.splits if_splits)
    next
      case True
      then obtain r where r: "stopChecks (ctl_state ctl) ?id confirmation snap = Inr r" "cl_outcome load = CL_LOADED"
        by blast
      show thesis
      proof (cases "ctl_state ctl = ES_READY")
        case ready: True
        then obtain pause c1 w1 where p: "pauseRunV1WithHooks env fuel ctl w = Some (pause, c1, w1)"
          using step loaded r x by (auto simp: stopRunV1WithHooks_def Let_def split: Option.bind_splits)
        show thesis
        proof (cases "pz_outcome pause = RP_PAUSED")
          case False
          then show thesis
            using step loaded r x ready p not_paused
            by (auto simp: stopRunV1WithHooks_def Let_def not_stopped_def split: if_splits)
        next
          case True
          then obtain y where "rs_journalWriter (ctl_run c1) = Some y"
            using step loaded r x ready p by (auto simp: stopRunV1WithHooks_def Let_def split: Option.bind_splits)
          then show thesis
            using step loaded r x ready p True paused [OF p True]
            by (simp add: stopRunV1WithHooks_def Let_def)
        qed
      next
        case False
        then show thesis
          using step loaded r x backlog commit
          by (auto simp: stopRunV1WithHooks_def Let_def not_stopped_def split: if_splits)
      qed
    qed
  qed
qed

lemma owned_unique: "owned_run st a b \<Longrightarrow> owned_run st c d \<Longrightarrow> a = c \<and> b = d"
  by (auto simp: owned_run_def)

lemma not_owned_empty [simp]: "\<not> owned_run empty_RunStateV1 runId opened"
  by (simp add: owned_run_def empty_RunStateV1_def)

text \<open>The invariant for a run that is known to be owned.\<close>

lemma inv_of_owned:
  assumes own: "owned_run (ctl_run ctl) runId opened"
  shows "lifecycle_inv catalog binding ctl w \<longleftrightarrow>
    (case ctl_state ctl of
       ES_READY \<Rightarrow> ctl_canonicalCatalogPath ctl = binding \<and> active_run (catalog w) OPEN runId \<and> (transition_pending ctl \<longrightarrow> \<not> opened)
     | ES_PAUSED \<Rightarrow> ctl_canonicalCatalogPath ctl = binding \<and> \<not> transition_pending ctl \<and> \<not> opened
     | ES_CAPACITY_REACHED \<Rightarrow> ctl_canonicalCatalogPath ctl = binding \<and> \<not> opened \<and> active_run (catalog w) CAPACITY_REACHED runId
     | ES_FAIL_STOPPED \<Rightarrow> ctl_canonicalCatalogPath ctl = binding \<and> ctl_commandProcessing ctl \<noteq> None \<and> \<not> opened \<and>
         active_run (catalog w) FAIL_STOPPED runId
     | ES_STOPPED \<Rightarrow> False
     | _ \<Rightarrow> \<not> opened)"
proof -
  have same: "owned_run (ctl_run ctl) i b \<longleftrightarrow> i = runId \<and> b = opened" for i b
    using own by (auto simp: owned_run_def)
  have "ctl_run ctl \<noteq> empty_RunStateV1"
    using own by auto
  then show ?thesis
    by (cases "ctl_state ctl") (auto simp: lifecycle_inv_def same)
qed

lemma stop_spec:
  assumes posix: "posix_processing catalog remaining written interrupts bound env path binding" and fuel: "bound + 57 < fuel"
    and inv: "lifecycle_inv catalog binding ctl w" and step: "stopRunV1WithHooks env fuel confirmation ctl w = Some (res, ctl', w')"
  shows "lifecycle_inv catalog binding ctl' w' \<and>
    (\<not> not_stopped res \<longrightarrow>
       ctl_state ctl' = ES_STOPPED \<and> ctl_run ctl' = empty_RunStateV1 \<and> ctl_commandProcessing ctl' = None \<and>
       (\<exists>runId opened. owned_run (ctl_run ctl) runId opened \<and> stopped_run (catalog w') runId))"
proof (cases "ctl_state ctl = ES_READY \<or> ctl_state ctl = ES_PAUSED \<or> ctl_state ctl = ES_CAPACITY_REACHED")
  case False
  then show ?thesis
    using step inv by (auto simp: stopRunV1WithHooks_def Let_def not_stopped_def)
next
  case True
  then obtain runId opened where own: "owned_run (ctl_run ctl) runId opened" and st: "ctl_canonicalCatalogPath ctl = binding"
    using inv by (auto simp: lifecycle_inv_def split: ExchangeRunStartupState.splits)
  obtain x where x: "rs_journalWriter (ctl_run ctl) = Some x"
    using own by (auto simp: owned_run_def)
  from step x show ?thesis
  proof (cases rule: stop_cases)
    case refused
    then show ?thesis using inv by simp
  next
    case (not_paused pause)
    then show ?thesis using pause_spec(1) [OF posix fuel inv not_paused(1)] by simp
  next
    case (paused pause c1 w1 snap y r res0)
    from pause_spec [OF posix fuel inv paused(1)] paused(2) owned_unique [OF own]
    have c1: "owned_run (ctl_run c1) runId False" "lifecycle_inv catalog binding c1 w1" "ctl_state c1 = ES_PAUSED"
      by auto
    then have "ctl_canonicalCatalogPath c1 = binding"
      by (simp add: lifecycle_inv_def)
    from commitStop_spec [OF posix fuel c1(1) paused(3) this paused(4)] own show ?thesis
      by (auto simp: not_stopped_def split: if_splits)
  next
    case backlog
    have "lifecycle_inv catalog binding (closeAdmission ctl) w"
      using inv True
      by (auto simp: inv_of_owned [OF own] inv_of_owned [OF closeAdmission_owned [OF own]] transition_pending_def
          split: ExchangeRunStartupState.splits)
    then show ?thesis
      using backlog by simp
  next
    case (commit snap r res0)
    have "rs_journalWriter (ctl_run (closeAdmission ctl)) = Some x"
      using x by (simp add: closeAdmission_def)
    from commitStop_spec [OF posix fuel closeAdmission_owned [OF own] this _ commit(2)] own st show ?thesis
      by (auto simp: not_stopped_def split: if_splits)
  qed
qed

lemma recoverReleased_inv:
  assumes posix: "posix_processing catalog remaining written interrupts bound env path binding" and fuel: "bound + 57 < fuel"
    and start: "ctl_commandProcessing ctl = None" "ctl_run ctl = empty_RunStateV1 \<or> (\<exists>rid. owned_run (ctl_run ctl) rid False)"
    and step: "recoverReleased env fuel binding snap runId res ctl w = Some (res', ctl', w')"
  shows "lifecycle_inv catalog binding ctl' w'"
proof -
  let ?at = "deriveCanonicalRunJournalPathV1 binding runId" and ?files = "dd_files (env_directory (pe_run env) binding)"
  have idle: "lifecycle_inv catalog binding (ctl\<lparr>ctl_state := s\<rparr>) w1" if "s = ES_UNAVAILABLE \<or> s = ES_RECOVERY_FAILED" for s w1
    using start that by (auto simp: lifecycle_inv_def)
  obtain rec st w1 where rec: "recoverRunAt (pe_run env) fuel ?at (Some runId) w = Some (rec, st, w1)"
    using step by (auto simp: recoverReleased_def Let_def split: Option.bind_splits)
  have own: "rr_outcome rec = RR_RECOVERED \<Longrightarrow> lifecycle_inv catalog binding
      (ctl\<lparr>ctl_run := st, ctl_canonicalCatalogPath := binding, ctl_state := ES_PAUSED\<rparr>) w2" for w2
    using recovered_owned(1) [OF rec] start(1) by (auto simp: lifecycle_inv_def transition_pending_def)
  show ?thesis
    using step rec idle own by (auto simp: recoverReleased_def Let_def split: Option.bind_splits if_splits)
qed

lemma recover_inv:
  assumes posix: "posix_processing catalog remaining written interrupts bound env path binding" and fuel: "bound + 57 < fuel"
    and inv: "lifecycle_inv catalog binding ctl w"
    and step: "recoverFailedRunV1WithHooks env fuel path ctl w = Some (res, ctl', w')"
  shows "lifecycle_inv catalog binding ctl' w'"
proof -
  note env = posix_processingD [OF posix]
  have binding: "map_option lexically_normal (absolute (env_currentPath (pe_run env)) path) = Some binding"
    using env(3,4) by simp
  show ?thesis
  proof (cases "ctl_state ctl = ES_FAIL_STOPPED")
    case True
    have "(ctl' = ctl \<and> w' = w) \<or> (\<exists>snap rid r w1.
        recoverReleased env fuel binding snap rid r (ctl\<lparr>ctl_commandProcessing := None, ctl_run := empty_RunStateV1\<rparr>) w1 =
          Some (res, ctl', w'))"
      using step True binding
      by (auto simp: recoverFailedRunV1WithHooks_def Let_def split: Option.bind_splits if_splits option.splits sum.splits)
    then show ?thesis
      using inv recoverReleased_inv [OF posix fuel, of "ctl\<lparr>ctl_commandProcessing := None, ctl_run := empty_RunStateV1\<rparr>"]
      by auto
  next
    case False
    have "(ctl' = ctl \<and> w' = w) \<or> ctl_commandProcessing ctl = None \<and>
        (ctl_state ctl = ES_UNAVAILABLE \<or> ctl_state ctl = ES_RECOVERY_FAILED) \<and>
        (\<exists>snap rid r. recoverReleased env fuel binding snap rid r ctl w = Some (res, ctl', w'))"
      using step False binding
      by (auto simp: recoverFailedRunV1WithHooks_def Let_def split: Option.bind_splits if_splits option.splits sum.splits)
    then show ?thesis
      using inv recoverReleased_inv [OF posix fuel, of ctl]
      by (auto simp: lifecycle_inv_def)
  qed
qed

section \<open>Runs\<close>

text \<open>The operations on one catalog, as its exclusive owner calls them.\<close>

inductive lifecycle_step ::
  "('w, 'f, 'q) ProcessingEnvironment \<Rightarrow> nat \<Rightarrow> string \<Rightarrow> ('f, 'q) controller \<times> 'w \<Rightarrow> ('f, 'q) controller \<times> 'w \<Rightarrow> bool"
  for env :: "('w, 'f, 'q) ProcessingEnvironment" and fuel :: nat and path :: string where
  startup_new: "startupNewRunV1 (pe_run env) fuel path cfg ctl w = Some (rn, ctl', w') \<Longrightarrow>
    lifecycle_step env fuel path (ctl, w) (ctl', w')"
| startup_existing: "startupExistingRunV1WithHooks (pe_run env) fuel path ctl w = Some (rx, ctl', w') \<Longrightarrow>
    lifecycle_step env fuel path (ctl, w) (ctl', w')"
| resume: "resumeRunV1WithHooks (pe_run env) fuel ctl w = Some (rr, ctl', w') \<Longrightarrow> lifecycle_step env fuel path (ctl, w) (ctl', w')"
| close_admission: "lifecycle_step env fuel path (ctl, w) (closeAdmission ctl, w)"
| lookup_completed: "lookupCompletedResultV1 (pe_run env) fuel p runId command ctl w = Some (rc, ctl', w') \<Longrightarrow>
    lifecycle_step env fuel path (ctl, w) (ctl', w')"
| lookup_private: "lookupPrivateResultV1 (pe_run env) fuel p runId command ctl w = Some (rp, ctl', w') \<Longrightarrow>
    lifecycle_step env fuel path (ctl, w) (ctl', w')"
| install: "installCommandProcessingV1 env a b c d e ctl = (ri, ctl') \<Longrightarrow> lifecycle_step env fuel path (ctl, w) (ctl', w)"
| submit: "submitCommandV1 env runId command ctl = Some (rs, ctl') \<Longrightarrow> lifecycle_step env fuel path (ctl, w) (ctl', w)"
| advance: "advanceCommandProcessingV1WithHooks env fuel ctl w = Some (ra, ctl', w') \<Longrightarrow>
    lifecycle_step env fuel path (ctl, w) (ctl', w')"
| pop_private: "tryPopPrivateResultBatchV1 ctl = Some (privates, ctl') \<Longrightarrow> lifecycle_step env fuel path (ctl, w) (ctl', w)"
| pop_public: "tryPopPublicTradeBatchV1 ctl = Some (publics, ctl') \<Longrightarrow> lifecycle_step env fuel path (ctl, w) (ctl', w)"
| pause: "pauseRunV1WithHooks env fuel ctl w = Some (rz, ctl', w') \<Longrightarrow> lifecycle_step env fuel path (ctl, w) (ctl', w')"
| stop: "stopRunV1WithHooks env fuel confirmation ctl w = Some (rt, ctl', w') \<Longrightarrow> lifecycle_step env fuel path (ctl, w) (ctl', w')"
| recover: "recoverFailedRunV1WithHooks env fuel path ctl w = Some (rf, ctl', w') \<Longrightarrow> lifecycle_step env fuel path (ctl, w) (ctl', w')"

lemma inv_owned:
  assumes "lifecycle_inv catalog binding ctl w"
  shows "ctl_run ctl = empty_RunStateV1 \<and> ctl_commandProcessing ctl = None \<or> (\<exists>runId opened. owned_run (ctl_run ctl) runId opened)"
  using assms by (auto simp: lifecycle_inv_def split: ExchangeRunStartupState.splits)

lemma inv_paused:
  assumes "lifecycle_inv catalog binding ctl w" and "ctl_state ctl = ES_PAUSED"
  shows "\<exists>runId. owned_run (ctl_run ctl) runId False \<and> ctl_canonicalCatalogPath ctl = binding \<and> \<not> transition_pending ctl"
  using assms by (auto simp: lifecycle_inv_def)

lemma inv_unowned:
  assumes "lifecycle_inv catalog binding ctl w" and "rs_journalWriter (ctl_run ctl) = None"
  shows "ctl_commandProcessing ctl = None" and "lifecycle_inv catalog binding ctl w'"
proof -
  have "\<not> owned_run (ctl_run ctl) runId opened" for runId opened
    using assms(2) by (auto simp: owned_run_def)
  then show "ctl_commandProcessing ctl = None" "lifecycle_inv catalog binding ctl w'"
    using assms(1) by (auto simp: lifecycle_inv_def split: ExchangeRunStartupState.splits)
qed

lemma inv_same_run:
  assumes "lifecycle_inv catalog binding ctl w" and "catalog w' = catalog w"
    and "ctl_state ctl' = ctl_state ctl" "ctl_run ctl' = ctl_run ctl"
      "ctl_canonicalCatalogPath ctl' = ctl_canonicalCatalogPath ctl"
      "ctl_commandProcessing ctl' = None \<longleftrightarrow> ctl_commandProcessing ctl = None"
      "transition_pending ctl' = transition_pending ctl"
  shows "lifecycle_inv catalog binding ctl' w'"
  using assms by (cases "ctl_state ctl") (simp_all add: lifecycle_inv_def)

lemma inv_same_catalog:
  assumes "lifecycle_inv catalog binding ctl w" and "catalog w' = catalog w"
    and "ctl_state ctl' = ctl_state ctl" "ctl_run ctl' = ctl_run ctl" "ctl_commandProcessing ctl' = ctl_commandProcessing ctl"
      "ctl_canonicalCatalogPath ctl' = ctl_canonicalCatalogPath ctl"
  shows "lifecycle_inv catalog binding ctl' w'"
  by (rule inv_same_run [OF assms(1,2)]) (use assms in \<open>simp_all add: transition_pending_def\<close>)

text \<open>A client that takes a batch from a result queue changes nothing else.\<close>

lemma pop_effect:
  shows "tryPopPrivateResultBatchV1 ctl = Some (privates, ctl') \<Longrightarrow>
    ctl_state ctl' = ctl_state ctl \<and> ctl_run ctl' = ctl_run ctl \<and> ctl_canonicalCatalogPath ctl' = ctl_canonicalCatalogPath ctl \<and>
    (ctl_commandProcessing ctl' = None \<longleftrightarrow> ctl_commandProcessing ctl = None) \<and> transition_pending ctl' = transition_pending ctl"
    and "tryPopPublicTradeBatchV1 ctl = Some (publics, ctl') \<Longrightarrow>
    ctl_state ctl' = ctl_state ctl \<and> ctl_run ctl' = ctl_run ctl \<and> ctl_canonicalCatalogPath ctl' = ctl_canonicalCatalogPath ctl \<and>
    (ctl_commandProcessing ctl' = None \<longleftrightarrow> ctl_commandProcessing ctl = None) \<and> transition_pending ctl' = transition_pending ctl"
  by (auto simp: tryPopPrivateResultBatchV1_def tryPopPublicTradeBatchV1_def transition_pending_def split: option.splits)

lemma close_inv: "lifecycle_inv catalog binding ctl w \<Longrightarrow> lifecycle_inv catalog binding (closeAdmission ctl) w"
proof (cases "\<exists>runId opened. owned_run (ctl_run ctl) runId opened")
  case True
  then obtain runId opened where own: "owned_run (ctl_run ctl) runId opened" by blast
  assume "lifecycle_inv catalog binding ctl w"
  then show ?thesis
    by (auto simp: inv_of_owned [OF own] inv_of_owned [OF closeAdmission_owned [OF own]] transition_pending_def
        split: ExchangeRunStartupState.splits)
next
  case False
  assume inv: "lifecycle_inv catalog binding ctl w"
  then have "ctl_run (closeAdmission ctl) = ctl_run ctl"
    using inv_owned [OF inv] False by (auto simp: closeAdmission_def empty_RunStateV1_def)
  then show ?thesis
    by (intro inv_same_catalog [OF inv]) simp_all
qed

lemma startups_inv:
  assumes posix: "posix_environment catalog remaining written interrupts bound env path binding"
    and fuel: "bound + 2 ^ 64 \<le> fuel" and inv: "lifecycle_inv catalog binding ctl w"
  shows "startupNewRunV1 env fuel path cfg ctl w = Some (rn, ctl', w') \<Longrightarrow> lifecycle_inv catalog binding ctl' w'"
    and "startupExistingRunV1WithHooks env fuel path ctl w = Some (rx, ctl', w') \<Longrightarrow> lifecycle_inv catalog binding ctl' w'"
    and "resumeRunV1WithHooks env fuel ctl w = Some (rr, ctl', w') \<Longrightarrow> lifecycle_inv catalog binding ctl' w'"
proof -
  show "lifecycle_inv catalog binding ctl' w'" if "startupNewRunV1 env fuel path cfg ctl w = Some (rn, ctl', w')"
  proof (cases "rs_journalWriter (ctl_run ctl) = None")
    case True
    then have "ctl' = ctl \<or> (\<exists>runId. ready_run catalog binding runId True ctl' w')"
      using startupNew_effect [OF posix fuel, of cfg ctl w] that inv_unowned(1) [OF inv True]
      by (auto simp: ready_run_def transition_pending_def)
    then show ?thesis
      using inv_unowned(2) [OF inv True] by (auto dest: ready_inv)
  qed (use startupNew_effect [OF posix fuel, of cfg ctl w] that inv in auto)
  show "lifecycle_inv catalog binding ctl' w'" if "startupExistingRunV1WithHooks env fuel path ctl w = Some (rx, ctl', w')"
  proof (cases "rs_journalWriter (ctl_run ctl) = None")
    case True
    then show ?thesis
      using startupExisting_effect [OF posix that] inv_unowned(1) [OF inv True]
      by (auto simp: lifecycle_inv_def transition_pending_def)
  qed (use startupExisting_effect [OF posix that] inv in auto)
  show "lifecycle_inv catalog binding ctl' w'" if step: "resumeRunV1WithHooks env fuel ctl w = Some (rr, ctl', w')"
  proof (cases "ctl_state ctl = ES_PAUSED")
    case True
    then obtain runId where r: "owned_run (ctl_run ctl) runId False" "ctl_canonicalCatalogPath ctl = binding" "\<not> transition_pending ctl"
      using inv_paused [OF inv] by blast
    then have "ctl' = ctl \<or> ready_run catalog binding runId True ctl' w'"
      using resume_effect [OF posix fuel, of ctl runId w] step True
      by (auto simp: ready_run_def transition_pending_def)
    moreover have "lifecycle_inv catalog binding ctl w'"
      using r True by (auto simp: lifecycle_inv_def)
    ultimately show ?thesis
      by (auto dest: ready_inv)
  qed (use step inv in \<open>simp add: resumeRunV1WithHooks_def\<close>)
qed

lemma path_ops_inv:
  assumes inv: "lifecycle_inv catalog binding ctl w"
  shows "installCommandProcessingV1 env a b c d e ctl = (ri, ctl') \<Longrightarrow> lifecycle_inv catalog binding ctl' w"
    and "submitCommandV1 env runId command ctl = Some (rs, ctl') \<Longrightarrow> lifecycle_inv catalog binding ctl' w"
    and "tryPopPrivateResultBatchV1 ctl = Some (privates, ctl') \<Longrightarrow> lifecycle_inv catalog binding ctl' w"
    and "tryPopPublicTradeBatchV1 ctl = Some (publics, ctl') \<Longrightarrow> lifecycle_inv catalog binding ctl' w"
proof -
  show "lifecycle_inv catalog binding ctl' w" if "installCommandProcessingV1 env a b c d e ctl = (ri, ctl')"
    using install_effect [OF that] inv by (auto simp: lifecycle_inv_def transition_pending_def)
  show "lifecycle_inv catalog binding ctl' w" if step: "submitCommandV1 env runId command ctl = Some (rs, ctl')"
  proof (cases "\<exists>i opened. owned_run (ctl_run ctl) i opened")
    case True
    then obtain i opened where own: "owned_run (ctl_run ctl) i opened" by blast
    note e = submit_effect [OF step own]
    then consider "owned_run (ctl_run ctl') i opened" "transition_pending ctl' = transition_pending ctl"
      | "owned_run (ctl_run ctl') i False" "ctl_state ctl = ES_READY"
      by blast
    then show ?thesis
    proof cases
      case 1
      then show ?thesis
        using e inv by (simp add: inv_of_owned [OF own] inv_of_owned [OF 1(1)] split: ExchangeRunStartupState.splits)
    next
      case 2
      then show ?thesis
        using e inv by (simp add: inv_of_owned [OF own] inv_of_owned [OF 2(1)])
    qed
  next
    case False
    then show ?thesis
      using inv_owned [OF inv] step inv by (auto simp: submitCommandV1_def)
  qed
  show "lifecycle_inv catalog binding ctl' w" if "tryPopPrivateResultBatchV1 ctl = Some (privates, ctl')"
    by (rule inv_same_run [OF inv]) (use pop_effect(1) [OF that] in simp_all)
  show "lifecycle_inv catalog binding ctl' w" if "tryPopPublicTradeBatchV1 ctl = Some (publics, ctl')"
    by (rule inv_same_run [OF inv]) (use pop_effect(2) [OF that] in simp_all)
qed

lemma lookup_inv:
  assumes posix: "posix_environment catalog remaining written interrupts bound env path binding"
    and inv: "lifecycle_inv catalog binding ctl w"
    and step: "lookupCompletedResultV1 env fuel p runId command ctl w = Some (res, ctl', w')"
  shows "lifecycle_inv catalog binding ctl' w'"
proof (rule inv_same_catalog [OF inv])
  show "catalog w' = catalog w"
    using lookup_effect [OF step] posix_environmentD(4) [OF posix] by auto
qed (use lookup_effect [OF step] in simp_all)

lemma advance_inv:
  assumes posix: "posix_processing catalog remaining written interrupts bound env path binding" and fuel: "bound + 57 < fuel"
    and inv: "lifecycle_inv catalog binding ctl w"
    and step: "advanceCommandProcessingV1WithHooks env fuel ctl w = Some (r, ctl', w')"
  shows "lifecycle_inv catalog binding ctl' w'"
proof (cases "ctl_state ctl = ES_READY")
  case True
  then obtain runId opened where "ready_run catalog binding runId opened ctl w"
    using inv_ready [OF inv] by blast
  from advance_spec [OF posix fuel this step] show ?thesis
    by (auto dest: ready_inv)
next
  case False
  then show ?thesis
    using step inv by (auto simp: advanceCommandProcessingV1WithHooks_def split: option.splits)
qed

lemma lifecycle_step_inv:
  assumes posix: "posix_processing catalog remaining written interrupts bound env path binding"
    and fuel: "bound + 2 ^ 64 \<le> fuel"
    and "lifecycle_step env fuel path s s'" and "lifecycle_inv catalog binding (fst s) (snd s)"
  shows "lifecycle_inv catalog binding (fst s') (snd s')"
proof -
  have small: "bound + 57 < fuel"
    using fuel by simp
  note env = posix_processingD(1) [OF posix]
  show ?thesis
    using assms(3,4)
  proof (induction rule: lifecycle_step.induct)
    case (lookup_private p runId command ctl w rp ctl' w')
    then obtain rc where "lookupCompletedResultV1 (pe_run env) fuel p runId command ctl w = Some (rc, ctl', w')"
      by (auto simp: lookupPrivateResultV1_def)
    then show ?case
      using lookup_inv [OF env] lookup_private by simp
  next
    case (stop confirmation ctl w rt ctl' w')
    then show ?case
      using stop_spec [OF posix small _ stop(1)] by simp
  next
    case (startup_new cfg ctl w rn ctl' w')
    then show ?case using startups_inv(1) [OF env fuel _ startup_new(1)] by simp
  next
    case (startup_existing ctl w rx ctl' w')
    then show ?case using startups_inv(2) [OF env fuel _ startup_existing(1)] by simp
  next
    case (resume ctl w rr ctl' w')
    then show ?case using startups_inv(3) [OF env fuel _ resume(1)] by simp
  next
    case (close_admission ctl w)
    then show ?case using close_inv by simp
  next
    case (lookup_completed p runId command ctl w rc ctl' w')
    then show ?case using lookup_inv [OF env _ lookup_completed(1)] by simp
  next
    case (install a b c d e ctl ri ctl' w)
    then show ?case using path_ops_inv(1) [OF _ install(1)] by simp
  next
    case (submit runId command ctl rs ctl' w)
    then show ?case using path_ops_inv(2) [OF _ submit(1)] by simp
  next
    case (pop_private ctl privates ctl' w)
    then show ?case using path_ops_inv(3) [OF _ pop_private(1)] by simp
  next
    case (pop_public ctl publics ctl' w)
    then show ?case using path_ops_inv(4) [OF _ pop_public(1)] by simp
  next
    case (advance ctl w ra ctl' w')
    then show ?case using advance_inv [OF posix small _ advance(1)] by simp
  next
    case (pause ctl w rz ctl' w')
    then show ?case using pause_spec(1) [OF posix small _ pause(1)] by simp
  next
    case (recover ctl w rf ctl' w')
    then show ?case using recover_inv [OF posix small _ recover(1)] by simp
  qed
qed

lemma lifecycle_steps_inv:
  assumes posix: "posix_processing catalog remaining written interrupts bound env path binding"
    and fuel: "bound + 2 ^ 64 \<le> fuel"
    and "(lifecycle_step env fuel path)\<^sup>*\<^sup>* s s'" and "lifecycle_inv catalog binding (fst s) (snd s)"
  shows "lifecycle_inv catalog binding (fst s') (snd s')"
  using assms(3,4) by (induction rule: rtranclp_induct) (use lifecycle_step_inv [OF posix fuel] in blast)+

lemma make_controller_inv: "lifecycle_inv catalog binding make_ExchangeRunController w"
  by (simp add: lifecycle_inv_def make_ExchangeRunController_def)

end
