(* ===== verification/Run_Properties.thy ===== *)
theory Run_Properties
  imports Recovery_Properties Lifecycle_Runs
begin

text \<open>
  The properties of the life of a run: its identifier and journal file, the catalog that names it, the repair of a
  torn journal, and the states that starting, recovering and controlling a run lead to.
\<close>

section \<open>Distinct journal paths\<close>

lemma canonical_path_inject:
  "deriveCanonicalRunJournalPathV1 path m = deriveCanonicalRunJournalPathV1 path n \<longleftrightarrow> m = n"
proof
  assume "deriveCanonicalRunJournalPathV1 path m = deriveCanonicalRunJournalPathV1 path n"
  then have "to_string (unat m) = to_string (unat n)"
    by (simp add: deriveCanonicalRunJournalPathV1_def path_join_def split: if_splits)
  from arg_cong [OF this, of decimal_value] show "m = n"
    by (simp add: decimal_value_to_string word_unat_eq_iff)
qed simp

text \<open>Attempts to set up new runs, one after the other: each prepares a journal and, if the flag is set, activates
  the run it prepared. The result lists the prepared runs.\<close>

fun new_runs ::
  "('w, 'f) DataDirectory \<Rightarrow> nat \<Rightarrow> string \<Rightarrow> (NewRunConfigurationV1 \<times> bool) list \<Rightarrow> 'w \<Rightarrow>
     ('f PreparedNewRunJournalV1 list \<times> 'w) option" where
  "new_runs dir fuel path [] w = Some ([], w)"
| "new_runs dir fuel path ((cfg, activate) # attempts) w =
     Option.bind (prepareNewRunJournalV1 dir fuel path cfg empty_PreparedNewRunJournalV1 w) (\<lambda>(res, prepared, w).
     Option.bind (if activate then map_option snd (activatePreparedNewRunV1WithHooks (dd_files dir) fuel path prepared w)
                  else Some w) (\<lambda>w.
     map_option (\<lambda>(runs, w). (if np_outcome res = NP_PREPARED then prepared # runs else runs, w))
       (new_runs dir fuel path attempts w)))"

abbreviation prepared_id :: "'f PreparedNewRunJournalV1 \<Rightarrow> ExchangeRunId" where
  "prepared_id p \<equiv> rh_exchangeRunId (pn_header p)"

lemma new_runs_spec:
  assumes posix: "posix_directory catalog remaining written interrupts bound dir"
    and fuel: "bound + 2 ^ 64 \<le> fuel"
  shows "\<exists>runs w'. new_runs dir fuel path attempts w = Some (runs, w') \<and>
    sorted_wrt (<) (map (\<lambda>r. unat (prepared_id r)) runs) \<and> (\<forall>r \<in> set runs. last_reserved (catalog w) < unat (prepared_id r) \<and>
      canonicalJournalPath r = deriveCanonicalRunJournalPathV1 path (prepared_id r))"
proof (induction attempts arbitrary: w)
  case (Cons a attempts)
  obtain cfg activate where a: "a = (cfg, activate)" by (cases a)
  have f: "bound + 57 < fuel" "bound + unat (nc_maxRunJournalBytes cfg) < fuel"
    using fuel unsigned_less [of "nc_maxRunJournalBytes cfg", where 'a = nat] by simp_all
  obtain res prepared w1 where prep:
    "prepareNewRunJournalV1 dir fuel path cfg empty_PreparedNewRunJournalV1 w = Some (res, prepared, w1)"
    "last_reserved (catalog w) \<le> last_reserved (catalog w1)"
    "np_outcome res = NP_PREPARED \<longrightarrow> prepared_run written path cfg (Suc (last_reserved (catalog w))) prepared \<and>
       last_reserved (catalog w1) = Suc (last_reserved (catalog w))"
    using prepareNewRun_spec [OF posix f] by metis
  obtain w2 where act: "(if activate then map_option snd (activatePreparedNewRunV1WithHooks (dd_files dir) fuel path prepared w1)
      else Some w1) = Some w2" "last_reserved (catalog w2) = last_reserved (catalog w1)"
    using activate_spec [OF posix_directoryD(1) [OF posix] f(1), of path prepared w1] by (cases activate) auto
  obtain runs w' where rest: "new_runs dir fuel path attempts w2 = Some (runs, w')"
    "sorted_wrt (<) (map (\<lambda>r. unat (prepared_id r)) runs)"
    "\<forall>r \<in> set runs. last_reserved (catalog w2) < unat (prepared_id r) \<and>
      canonicalJournalPath r = deriveCanonicalRunJournalPathV1 path (prepared_id r)"
    using Cons.IH [of w2] by blast
  have "new_runs dir fuel path (a # attempts) w =
      Some (if np_outcome res = NP_PREPARED then prepared # runs else runs, w')"
    using prep(1) act(1) rest(1) by (simp add: a)
  then show ?case
    using prep(2,3) act(2) rest(2,3) by (auto simp: prepared_run_def Let_def)
qed simp

section \<open>A file system in memory\<close>

text \<open>The catalog is the whole state, an open file is the bytes still to be read or already written, and nothing
  fails.\<close>

definition memory_files :: "(u8 list option, u8 list) CatalogFiles" where
  "memory_files =
     \<lparr>cf_open = (\<lambda>w. case w of None \<Rightarrow> Inl ENOENT | Some bytes \<Rightarrow> Inr bytes),
      cf_read = (\<lambda>f n. (Bytes (take n f), drop n f)), cf_close = (\<lambda>_. 0), cf_mkstemp = (\<lambda>w. (Inr [], w)),
      cf_write = whole_write, cf_sync = chunk_sync, cf_rename = (\<lambda>w f. (0, Some f)), cf_unlink = (\<lambda>w f. w),
      cf_openDirectory = (\<lambda>w. Inr []), cf_errno = (\<lambda>_. EIO)\<rparr>"

definition memory_directory :: "(u8 list option, u8 list) DataDirectory" where
  "memory_directory = \<lparr>dd_files = memory_files, dd_list = (\<lambda>w. Inr ([], 0)), dd_create = (\<lambda>w p. (Inr [], w))\<rparr>"

lemma posix_memory_files: "posix_catalog id id id (\<lambda>_. 0) 0 memory_files"
  using posix_whole_write unfolding posix_catalog_def
  by (auto simp: memory_files_def split: option.splits)

lemma posix_memory: "posix_directory id id id (\<lambda>_. 0) 0 memory_directory"
  using posix_memory_files by (simp add: posix_directory_def memory_directory_def)

text \<open>A journal file with its contents and position.\<close>

definition memory_hooks :: "(u8 list \<times> nat) RunJournalRecoveryHooks" where
  "memory_hooks =
     \<lparr>hk_readFile = (\<lambda>(c, p) n. (Bytes (take n (drop p c)), (c, p + min n (length c - p)))),
      hk_seekFile = (\<lambda>(c, p) n. (Seeked n, (c, n))), hk_truncateFile = (\<lambda>(c, p) n. (Truncated, (take n c, p))),
      hk_syncFile = (\<lambda>f. (Synced, f)), hk_closeFile = (\<lambda>_. 0)\<rparr>"

lemma posix_memory_hooks: "posix_file fst snd (\<lambda>_. 0) memory_hooks" and reliable_memory_hooks: "reliable memory_hooks"
  by (auto simp: posix_file_def posix_read_def memory_hooks_def reliable_def min_def add.commute)

definition sample_configuration :: NewRunConfigurationV1 where
  "sample_configuration =
     \<lparr>nc_behavioralRulesVersion = 1, nc_maxEventsPerCommand = rh_maxEventsPerCommand sample_header, nc_maxRunCommands = 10,
      nc_maxRunJournalBytes = 1000, nc_instruments = rh_instruments sample_header\<rparr>"

definition sample_snapshot :: RunCatalogSnapshotV1 where
  "sample_snapshot =
     \<lparr>rc_generation = 1, rc_lastReservedRunId = Some 1, rc_activeRunId = None, rc_activeDisposition = DISPOSITION_NONE,
      rc_retainedStoppedRunId = None\<rparr>"

lemma sample_snapshot_encodes: "\<exists>bytes. encodeRunCatalogV1 sample_snapshot = Inr bytes"
proof -
  have "validateSnapshot sample_snapshot = Inr ()"
    by (simp add: validateSnapshot_def sample_snapshot_def exceedsLastReserved_def isPresentZero_def isKnownDispositionValue_def)
  then show ?thesis
    by (simp add: encodeRunCatalogV1_def Let_def)
qed

lemma memory_fields:
  "cf_open memory_files None = Inl ENOENT" "cf_open memory_files (Some bytes) = Inr bytes"
  "cf_read memory_files f n = (Bytes (take n f), drop n f)" "cf_mkstemp memory_files w = (Inr [], w)"
  "cf_write memory_files = whole_write" "cf_close memory_files f = 0" "cf_rename memory_files w f = (0, Some f)"
  "cf_openDirectory memory_files w = Inr []"
  by (simp_all add: memory_files_def)

lemma memory_write: "bytes \<noteq> [] \<Longrightarrow> 1 < fuel \<Longrightarrow> catalogWriteLoop whole_write fuel [] bytes 0 = Some (Inr (), bytes) \<and>
    writeFrame whole_write fuel [] bytes 0 = Some (Inr (), bytes)"
  by (cases fuel; cases "fuel - 1") (simp_all add: whole_write_def)

lemma memory_sync: "0 < fuel \<Longrightarrow> storageSyncLoop memory_files fuel f = Some (Inr (), f)"
  by (cases fuel) (simp_all add: memory_files_def chunk_sync_def)

lemma memory_load:
  assumes enc: "encodeRunCatalogV1 snap = Inr bytes" and "known_disposition snap" and fuel: "57 < fuel"
  shows "loadRunCatalogV1 memory_files fuel (Some bytes) outp = Some (catalogLoadResult CL_LOADED RC_NONE 0, snap)"
proof -
  have len: "length bytes = 56"
    by (rule length_encodeRunCatalogV1 [OF enc])
  have "decodeRunCatalogV1 bytes = Inr snap"
    using catalog_codec.decode_iff assms(1,2) by blast
  moreover have "catalogReadLoop (cf_read memory_files) fuel bytes [] = Some (Inr bytes, [])"
    using fuel len by (cases fuel; cases "fuel - 1") (auto simp: memory_fields CATALOG_READ_BUFFER_SIZE_def catalog_layout)
  ultimately show ?thesis
    by (simp add: loadRunCatalogV1_def memory_fields)
qed

lemma memory_replace:
  assumes enc: "encodeRunCatalogV1 snap = Inr bytes" and fuel: "57 < fuel"
    and "loadRunCatalogV1 memory_files fuel w empty_RunCatalogSnapshotV1 = Some (l, current)"
    and "generationCheck l current snap = None"
  shows "replaceRunCatalogV1WithHooks memory_files fuel w snap = Some (replaceResult CR_COMMITTED RC_NONE 0, Some bytes)"
proof -
  have "bytes \<noteq> []"
    using length_encodeRunCatalogV1 [OF enc] by auto
  then show ?thesis
    using assms memory_write [of bytes fuel] memory_sync [of fuel]
    by (simp add: replaceRunCatalogV1WithHooks_def memory_fields writeTemporary_def syncDirectory_def)
qed

text \<open>A start on an empty directory.\<close>

definition sample_active :: RunCatalogSnapshotV1 where
  "sample_active = sample_snapshot\<lparr>rc_generation := 2, rc_activeRunId := Some 1, rc_activeDisposition := OPEN\<rparr>"

lemma sample_active_encodes: "\<exists>bytes. encodeRunCatalogV1 sample_active = Inr bytes"
proof -
  have "validateSnapshot sample_active = Inr ()"
    by (simp add: validateSnapshot_def sample_active_def sample_snapshot_def exceedsLastReserved_def isPresentZero_def
        isKnownDispositionValue_def)
  then show ?thesis
    by (simp add: encodeRunCatalogV1_def Let_def)
qed

lemma sample_configuration_header:
  "\<exists>hf. encodeRunHeaderV1 (configured_header sample_configuration 1) = Inr hf \<and> hf \<noteq> []"
proof -
  have "validateHeader (configured_header sample_configuration 1) = Inr 80"
    by (simp add: validateHeader_def configured_header_def sample_configuration_def sample_header_def layout)
  from encodeRunHeaderV1_layout [OF this] obtain frame where
    "encodeRunHeaderV1 (configured_header sample_configuration 1) = Inr frame" "36 \<le> length frame"
    by simp
  then show ?thesis by auto
qed

lemma memory_start:
  assumes fuel: "57 < fuel"
  shows "\<exists>res outp' bytes. startNewRunV1 memory_directory fuel ''/data/catalog'' sample_configuration empty_RunStateV1 None =
      Some (res, outp', Some bytes) \<and> sn_outcome res = SN_STARTED \<and> encodeRunCatalogV1 sample_active = Inr bytes"
proof -
  obtain first where first: "encodeRunCatalogV1 sample_snapshot = Inr first"
    using sample_snapshot_encodes by blast
  obtain second where second: "encodeRunCatalogV1 sample_active = Inr second"
    using sample_active_encodes by blast
  obtain hf where hf: "encodeRunHeaderV1 (configured_header sample_configuration 1) = Inr hf" "hf \<noteq> []"
    using sample_configuration_header by blast
  have missing: "loadRunCatalogV1 memory_files fuel None empty_RunCatalogSnapshotV1 =
      Some (catalogLoadResult CL_MISSING RC_NONE ENOENT, empty_RunCatalogSnapshotV1)"
    by (simp add: loadRunCatalogV1_def memory_fields)
  have known: "known_disposition sample_snapshot"
    by (simp add: known_disposition_def sample_snapshot_def)
  have rep1: "replaceRunCatalogV1WithHooks memory_files fuel None sample_snapshot =
      Some (replaceResult CR_COMMITTED RC_NONE 0, Some first)"
    by (rule memory_replace [OF first fuel missing]) (simp add: generationCheck_def catalogLoadResult_def sample_snapshot_def)
  have loaded: "loadRunCatalogV1 memory_files fuel (Some first) empty_RunCatalogSnapshotV1 =
      Some (catalogLoadResult CL_LOADED RC_NONE 0, sample_snapshot)"
    by (rule memory_load [OF first known fuel])
  have rep2: "replaceRunCatalogV1WithHooks memory_files fuel (Some first) sample_active =
      Some (replaceResult CR_COMMITTED RC_NONE 0, Some second)"
    by (rule memory_replace [OF second fuel loaded])
      (simp add: generationCheck_def catalogLoadResult_def sample_snapshot_def sample_active_def)
  have dir: "dd_files memory_directory = memory_files" "dd_list memory_directory w = Inr ([], 0)"
      "dd_create memory_directory w p = (Inr [], w)" for w p
    by (simp_all add: memory_directory_def)
  have reserve: "reserveNextExchangeRunIdWithHooks memory_directory fuel None 0 =
      Some (reservationResult RV_RESERVED (catalogLoadResult CL_MISSING RC_NONE ENOENT)
        (Some (replaceResult CR_COMMITTED RC_NONE 0)) 0, 1, Some first)"
    using rep1 by (simp add: reserveNextExchangeRunIdWithHooks_def dir missing proposeNext_def hasJournalLikeEntry_def
        catalogLoadResult_def replaceResult_def flip: sample_snapshot_def)
  have create: "createEncodedRunJournalV1 memory_directory fuel p hf True (Some first) =
      Some (createResult JC_CREATED RH_NONE 0, Some hf, Some first)" for p
    using memory_write [OF hf(2), of fuel] memory_sync [of fuel] fuel
    by (simp add: createEncodedRunJournalV1_def dir memory_fields syncDirectory_def)
  have upd: "(configured_header sample_configuration 1)\<lparr>rh_exchangeRunId := 1\<rparr> = configured_header sample_configuration 1"
      "rh_exchangeRunId (configured_header sample_configuration 1) = 1"
      "rh_maxRunCommands (configured_header sample_configuration 1) = 10"
    by (simp_all add: configured_header_def sample_configuration_def)
  have active: "sample_snapshot\<lparr>rc_generation := rc_generation sample_snapshot + 1, rc_activeRunId := Some 1,
      rc_activeDisposition := OPEN\<rparr> = sample_active" "rc_lastReservedRunId sample_snapshot = Some 1"
      "rc_activeRunId sample_snapshot = None" "rc_generation sample_snapshot \<noteq> - 1"
    by (simp_all add: sample_active_def sample_snapshot_def)
  let ?prepared = "\<lparr>pn_header = configured_header sample_configuration 1,
      canonicalJournalPath = deriveCanonicalRunJournalPathV1 ''/data/catalog'' 1,
      pn_writer = Some (make_RunJournalWriterV1 hf (configured_header sample_configuration 1) (of_nat (length hf)))\<rparr>"
  obtain pr where prep: "prepareNewRunJournalV1 memory_directory fuel ''/data/catalog'' sample_configuration
      empty_PreparedNewRunJournalV1 None = Some (pr, ?prepared, Some first)" "np_outcome pr = NP_PREPARED"
    using reserve create hf(1)
    by (simp add: prepareNewRunJournalV1_def prepareNewRunJournalV1WithHooks_def upd Let_def reservationResult_def
        createRunJournalWriterV1WithHooks_def createEncodedRunJournalV1AndRetainDescriptor_def createResult_def
        preparationResult_def)
  obtain ac where act: "activatePreparedNewRunV1WithHooks memory_files fuel ''/data/catalog'' ?prepared (Some first) =
      Some (ac, Some second)" "na_outcome ac = NA_ACTIVATED"
    using rep2
    by (simp add: activatePreparedNewRunV1WithHooks_def upd loaded active catalogLoadResult_def replaceResult_def
        activationResult_def Let_def)
  have "constructEmptyRunStateV1 1 10 = Inr (init_MatchingState 1, \<lparr>adm_capacity = 10, adm_exchangeRunId = 1,
      admissionOpen = False, records = [], statistics = no_statistics\<rparr>)"
    by (simp add: constructEmptyRunStateV1_def make_run_bound_CommandAdmissionIndex_def SIZE_MAX_def)
  then show ?thesis
    using prep act second by (simp add: startNewRunV1_def startNewRunV1WithHooks_def dir upd)
qed

definition memory_environment :: "(u8 list option, u8 list) RunEnvironment" where
  "memory_environment =
     \<lparr>env_currentPath = Some ''/'', env_directory = (\<lambda>_. memory_directory), env_openJournal = (\<lambda>w p. Inl ENOENT),
      env_recoveryHooks =
        \<lparr>hk_readFile = chunk_read, hk_seekFile = (\<lambda>f n. (Seeked n, f)), hk_truncateFile = (\<lambda>f n. (Truncated, take n f)),
         hk_syncFile = chunk_sync, hk_closeFile = (\<lambda>_. 0)\<rparr>,
      env_update = (\<lambda>w p f. w)\<rparr>"

lemma posix_memory_environment:
  "posix_environment id id id (\<lambda>_. 0) 0 memory_environment ''/data/catalog'' ''/data/catalog''"
  using posix_memory by (simp add: posix_environment_def memory_environment_def absolute_def)

text \<open>The same environment with lists as queues, for the whole life of a run.\<close>

definition memory_processing :: "(u8 list option, u8 list, sequenceMessage list) ProcessingEnvironment" where
  "memory_processing =
     \<lparr>pe_run = memory_environment, pe_makeQueue = (\<lambda>_. []), pe_push = list_push 8, pe_pop = list_pop, pe_empty = (\<lambda>q. q = []),
      pe_writeFile = whole_write, pe_syncFile = chunk_sync, pe_removeFile = (\<lambda>w p. (0, w)), pe_openDirectory = (\<lambda>w p. Inr [])\<rparr>"

lemma posix_memory_processing:
  "posix_processing id id id (\<lambda>_. 0) 0 memory_processing ''/data/catalog'' ''/data/catalog''"
  using posix_memory_environment
  by (simp add: posix_processing_def memory_processing_def lexically_normal_def)

lemma memory_startup:
  "\<exists>res (ctl :: (u8 list, sequenceMessage list) controller) bytes x idx.
    startupNewRunV1 memory_environment (2 ^ 64) ''/data/catalog'' sample_configuration make_ExchangeRunController None =
      Some (res, ctl, Some bytes) \<and> ctl_state ctl = ES_READY \<and> encodeRunCatalogV1 sample_active = Inr bytes \<and>
    ctl_canonicalCatalogPath ctl = ''/data/catalog'' \<and> ctl_commandProcessing ctl = None \<and>
    rs_journalWriter (ctl_run ctl) = Some x \<and> w_header x = configured_header sample_configuration 1 \<and>
    rs_matchingState (ctl_run ctl) = Some (init_MatchingState 1) \<and>
    rs_admissionIndex (ctl_run ctl) = Some idx \<and> adm_exchangeRunId idx = 1"
proof -
  obtain sn st bytes where start: "startNewRunV1 memory_directory (2 ^ 64) ''/data/catalog'' sample_configuration empty_RunStateV1 None =
      Some (sn, st, Some bytes)" "sn_outcome sn = SN_STARTED" "encodeRunCatalogV1 sample_active = Inr bytes"
    using memory_start [of "2 ^ 64"] by auto
  have "last_reserved None = 0" "unat (nc_maxRunJournalBytes sample_configuration) = 1000"
    by (simp_all add: last_reserved_def sample_configuration_def)
  then have "started_run id sample_configuration 1 st"
    using startNewRun_spec [OF posix_memory, of "2 ^ 64" sample_configuration "''/data/catalog''" empty_RunStateV1 None] start
    by auto
  moreover have "loadRunCatalogV1 memory_files (2 ^ 64) None empty_RunCatalogSnapshotV1 =
      Some (catalogLoadResult CL_MISSING RC_NONE ENOENT, empty_RunCatalogSnapshotV1)"
    by (simp add: loadRunCatalogV1_def memory_fields)
  ultimately show ?thesis
    using start
    by (auto simp: startupNewRunV1_def startupNewRunV1WithHooks_def make_ExchangeRunController_def empty_RunStateV1_def
        memory_environment_def absolute_def memory_directory_def catalogLoadResult_def started_run_def writer_inv_def Let_def
        openAdmission_def setAdmissionOpen_def)
qed

section \<open>Properties\<close>

text \<open>C27. Repairing a torn journal: whatever prefix of a journal that contains the header is left in the file, and
  whichever seek, truncation or sync fails, \<open>prepareRunJournalV1WithHooks\<close> returns. If it reports the journal as
  prepared, the file is cut to the complete commands, the bytes cut off are handed to the caller, and the writer stands
  at the end of the file, ready for the next sequence number. If it reports an I/O failure the file is unchanged; if it
  asks for another recovery the file is either unchanged or cut, the bytes cut off are handed over, and in both cases
  the output is untouched. When calls fail only by being interrupted the journal is prepared.\<close>

theorem torn_journal_repaired:
  assumes "posix_file contents position interrupts hooks" and "position f = 0"
    and "interrupts f + length (contents f) < fuel" and "journal_of h hf cs"
    and "contents f = take k (journal_bytes hf cs)" and "length hf \<le> k" and "k \<le> length (journal_bytes hf cs)"
    and "length (contents f) \<le> OFF_MAX" and "expectedRunId = None \<or> expectedRunId = Some (rh_exchangeRunId h)"
  shows "\<exists>res outp' f'.
    prepareRunJournalV1WithHooks (Inr f) hooks fuel outp expectedRunId = Some (res, outp', Some f') \<and>
    (let whole = complete_within (k - length hf) cs; n = length (journal_bytes hf whole) in
     case jr_outcome res of
       RO_PREPARED \<Rightarrow> prepared_ok contents position h hf whole outp' \<and> preservedTailBytes res = drop n (contents f)
     | RO_IO_FAILURE \<Rightarrow> outp' = outp \<and> contents f' = contents f
     | RO_RECOVERY_REQUIRED \<Rightarrow> outp' = outp \<and> preservedTailBytes res = drop n (contents f) \<and>
         (contents f' = contents f \<or> contents f' = take n (contents f))
     | _ \<Rightarrow> False) \<and>
    (reliable hooks \<longrightarrow> jr_outcome res = RO_PREPARED)"
  unfolding Let_def by (rule prepare_spec [OF assms])

theorem torn_journal_repaired_witness:
  "\<exists>res outp' f'. prepareRunJournalV1WithHooks (Inr (take 100 sample_file, 0)) memory_hooks 101
      empty_PreparedRunJournalV1 (Some 5) = Some (res, outp', Some f') \<and>
    jr_outcome res = RO_PREPARED \<and> prepared_ok fst snd sample_header sample_header_frame [] outp' \<and>
    preservedTailBytes res = take 20 sample_frame"
proof -
  have cut: "take 100 sample_file = take 100 (journal_bytes sample_header_frame [(JournalCancel sample_cancel, sample_frame)])"
    by (simp add: sample_file_def journal_bytes_def)
  have run5: "rh_exchangeRunId sample_header = 5"
    by (simp add: sample_header_def)
  show ?thesis
    using torn_journal_repaired [OF posix_memory_hooks _ _ sample_journal, of "(take 100 sample_file, 0)" 101 100 "Some 5"
        empty_PreparedRunJournalV1] reliable_memory_hooks
    by (auto simp: cut run5 journal_bytes_def sample_lengths OFF_MAX_def Let_def)
qed

text \<open>C28. The catalog is replaced atomically: \<open>replaceRunCatalogV1WithHooks\<close> returns, and whatever fails on the way,
  the file at the catalog's path afterwards holds either the old bytes or all of the new ones. A committed replacement
  is in the file and follows the catalog it replaced: the first generation of a missing one, the next generation of an
  existing one. An uncertain one is in the file or not, and the observed snapshot is what the file holds. Every other
  outcome leaves the file unchanged.\<close>

theorem catalog_replaced_atomically:
  assumes "posix_catalog catalog remaining written interrupts bound files" and "bound + 57 < fuel"
  shows "\<exists>res w'. replaceRunCatalogV1WithHooks files fuel w snap = Some (res, w') \<and>
    (case cp_outcome res of
       CR_COMMITTED \<Rightarrow> \<exists>bytes. encodeRunCatalogV1 snap = Inr bytes \<and> catalog w' = Some bytes \<and> follows (catalog w) snap
     | CR_UNCERTAIN \<Rightarrow> \<exists>bytes. encodeRunCatalogV1 snap = Inr bytes \<and> follows (catalog w) snap \<and>
         (catalog w' = catalog w \<or> catalog w' = Some bytes) \<and> observes (catalog w') (observedSnapshot res)
     | _ \<Rightarrow> catalog w' = catalog w)"
  by (rule replace_spec [OF assms])

theorem catalog_replaced_atomically_witness:
  "\<exists>bytes. encodeRunCatalogV1 sample_snapshot = Inr bytes \<and>
    replaceRunCatalogV1WithHooks memory_files 58 None sample_snapshot =
      Some (replaceResult CR_COMMITTED RC_NONE 0, Some bytes) \<and> follows None sample_snapshot"
proof -
  obtain bytes where bytes: "encodeRunCatalogV1 sample_snapshot = Inr bytes"
    using sample_snapshot_encodes by blast
  moreover have "rc_generation sample_snapshot = 1"
    by (simp add: sample_snapshot_def)
  ultimately have "replaceRunCatalogV1WithHooks memory_files 58 None sample_snapshot =
      Some (replaceResult CR_COMMITTED RC_NONE 0, Some bytes)"
    by (intro memory_replace [where l = "catalogLoadResult CL_MISSING RC_NONE ENOENT" and current = empty_RunCatalogSnapshotV1])
      (simp_all add: loadRunCatalogV1_def memory_fields generationCheck_def catalogLoadResult_def)
  then show ?thesis
    using catalog_replaced_atomically [OF posix_memory_files, of 58 None sample_snapshot] bytes
    by (auto simp: replaceResult_def)
qed

text \<open>C29. Run identifiers and journal paths are never reused: over any sequence of attempts to prepare and activate new
  runs, whatever fails in between, every attempt returns, the identifiers of the prepared runs increase strictly and
  exceed the last identifier that the catalog recorded before, and their journals have pairwise distinct paths.\<close>

theorem run_identifiers_never_reused:
  assumes "posix_directory catalog remaining written interrupts bound dir" and "bound + 2 ^ 64 \<le> fuel"
  shows "\<exists>runs w'. new_runs dir fuel path attempts w = Some (runs, w') \<and>
    sorted_wrt (<) (map (\<lambda>r. unat (prepared_id r)) runs) \<and>
    list_all (\<lambda>r. last_reserved (catalog w) < unat (prepared_id r)) runs \<and>
    distinct (map canonicalJournalPath runs)"
proof -
  obtain runs w' where runs: "new_runs dir fuel path attempts w = Some (runs, w')"
    "sorted_wrt (<) (map (\<lambda>r. unat (prepared_id r)) runs)"
    "\<forall>r \<in> set runs. last_reserved (catalog w) < unat (prepared_id r) \<and>
      canonicalJournalPath r = deriveCanonicalRunJournalPathV1 path (prepared_id r)"
    using new_runs_spec [OF assms, of path attempts w] by blast
  have "map canonicalJournalPath runs = map (deriveCanonicalRunJournalPathV1 path) (map prepared_id runs)"
    using runs(3) by (simp add: map_eq_conv)
  moreover have "distinct (map prepared_id runs)"
    using strict_sorted_iff [THEN iffD1, OF runs(2)] by (simp add: distinct_map inj_on_def)
  ultimately have "distinct (map canonicalJournalPath runs)"
    using canonical_path_inject by (simp add: distinct_map inj_on_def)
  then show ?thesis
    using runs by (auto simp: list_all_iff)
qed

theorem run_identifiers_never_reused_witness:
  "\<exists>runs w'. new_runs memory_directory (2 ^ 64) ''/data/catalog'' [(sample_configuration, False), (sample_configuration, True)] None =
      Some (runs, w') \<and> sorted_wrt (<) (map (\<lambda>r. unat (prepared_id r)) runs) \<and> distinct (map canonicalJournalPath runs)"
  using run_identifiers_never_reused [OF posix_memory, of "2 ^ 64" "''/data/catalog''"
      "[(sample_configuration, False), (sample_configuration, True)]" None] by auto

text \<open>C30. A started run is consistent: \<open>startNewRunV1\<close> returns, and when it reports a start, the run has the next
  identifier; its writer stands behind the encoded header in an otherwise empty journal, its book is empty, its
  admission index is empty and closed, all for this identifier and configuration; and the catalog names it as the
  active run with the disposition \<open>OPEN\<close>. Any other outcome leaves the caller's run untouched.\<close>

theorem started_run_consistent:
  assumes "posix_directory catalog remaining written interrupts bound dir"
    and "bound + 57 < fuel" and "bound + unat (nc_maxRunJournalBytes cfg) < fuel"
  shows "\<exists>res outp' w'. startNewRunV1 dir fuel path cfg outp w = Some (res, outp', w') \<and>
    last_reserved (catalog w) \<le> last_reserved (catalog w') \<and>
    (if sn_outcome res = SN_STARTED
     then last_reserved (catalog w') = Suc (last_reserved (catalog w)) \<and>
       started_run written cfg (of_nat (last_reserved (catalog w'))) outp' \<and>
       active_run (catalog w') OPEN (of_nat (last_reserved (catalog w')))
     else outp' = outp)"
  by (rule startNewRun_spec [OF assms])

theorem started_run_consistent_witness:
  "\<exists>outp' w'. started_run id sample_configuration 1 outp' \<and> active_run w' OPEN 1 \<and>
    (\<exists>res. startNewRunV1 memory_directory 2000 ''/data/catalog'' sample_configuration empty_RunStateV1 None =
      Some (res, outp', w'))"
proof -
  have "last_reserved None = 0" "unat (nc_maxRunJournalBytes sample_configuration) = 1000"
    by (simp_all add: last_reserved_def sample_configuration_def)
  then show ?thesis
    using started_run_consistent [OF posix_memory, of 2000 sample_configuration "''/data/catalog''" empty_RunStateV1 None]
      memory_start [of 2000] by auto
qed



text \<open>C32. Admission opens only after the catalog says so: over any sequence of the controller's operations on its
  catalog, from a new controller, whatever fails, admission is open only in the state \<open>READY\<close>. A ready controller owns a
  whole run whose writer and admission index carry the identifier that the catalog file names as active with the
  disposition \<open>OPEN\<close>; with capacity reached or after a fail-stop it still owns the run, closed, and the catalog records
  the disposition; a paused controller owns a closed run, and a stopped one owns nothing. Resuming and starting a new
  run always return.\<close>

theorem admission_follows_catalog:
  assumes "posix_processing catalog remaining written interrupts bound env path binding" and "bound + 2 ^ 64 \<le> fuel"
    and "(lifecycle_step env fuel path)\<^sup>*\<^sup>* (make_ExchangeRunController, w0) (ctl, w)"
  shows "(\<forall>idx. rs_admissionIndex (ctl_run ctl) = Some idx \<longrightarrow> admissionOpen idx \<longrightarrow> ctl_state ctl = ES_READY) \<and>
    (case ctl_state ctl of
       ES_READY \<Rightarrow> \<exists>runId opened. owned_run (ctl_run ctl) runId opened \<and> active_run (catalog w) OPEN runId
     | ES_CAPACITY_REACHED \<Rightarrow> \<exists>runId. owned_run (ctl_run ctl) runId False \<and> active_run (catalog w) CAPACITY_REACHED runId
     | ES_FAIL_STOPPED \<Rightarrow> \<exists>runId. owned_run (ctl_run ctl) runId False \<and> active_run (catalog w) FAIL_STOPPED runId
     | ES_PAUSED \<Rightarrow> \<exists>runId. owned_run (ctl_run ctl) runId False
     | ES_STOPPED \<Rightarrow> ctl_run ctl = empty_RunStateV1 \<and> ctl_commandProcessing ctl = None
     | _ \<Rightarrow> True) \<and>
    (\<exists>r. resumeRunV1WithHooks (pe_run env) fuel ctl w = Some r) \<and> (\<exists>r. startupNewRunV1 (pe_run env) fuel path cfg ctl w = Some r)"
proof -
  have inv: "lifecycle_inv catalog binding ctl w"
    using lifecycle_steps_inv [OF assms] by (simp add: make_controller_inv)
  note env = posix_processingD(1) [OF assms(1)]
  have "\<exists>r. resumeRunV1WithHooks (pe_run env) fuel ctl w = Some r"
    using resume_effect [OF env assms(2), of ctl _ w] inv_paused [OF inv] by blast
  moreover have "\<exists>r. startupNewRunV1 (pe_run env) fuel path cfg ctl w = Some r"
    using startupNew_effect [OF env assms(2), of cfg ctl w] by blast
  ultimately show ?thesis
    using inv by (cases "ctl_state ctl") (auto simp: lifecycle_inv_def owned_run_def empty_RunStateV1_def)
qed

theorem admission_follows_catalog_witness:
  "\<exists>res (ctl :: (u8 list, sequenceMessage list) controller) w.
    startupNewRunV1 memory_environment (2 ^ 64) ''/data/catalog'' sample_configuration make_ExchangeRunController None =
      Some (res, ctl, w) \<and>
    ctl_state ctl = ES_READY \<and> (\<exists>runId opened. owned_run (ctl_run ctl) runId opened \<and> active_run w OPEN runId)"
proof -
  obtain res and ctl :: "(u8 list, sequenceMessage list) controller" and w where new:
    "startupNewRunV1 memory_environment (2 ^ 64) ''/data/catalog'' sample_configuration make_ExchangeRunController None =
      Some (res, ctl, w)" "ctl_state ctl = ES_READY"
    using memory_startup by blast
  then have "startupNewRunV1 (pe_run memory_processing) (2 ^ 64) ''/data/catalog'' sample_configuration make_ExchangeRunController None =
      Some (res, ctl, w)"
    by (simp add: memory_processing_def)
  then have "(lifecycle_step memory_processing (2 ^ 64) ''/data/catalog'')\<^sup>*\<^sup>* (make_ExchangeRunController, None) (ctl, w)"
    by (intro r_into_rtranclp lifecycle_step.startup_new)
  from admission_follows_catalog [OF posix_memory_processing _ this] show ?thesis
    using new by auto
qed

end
