(* ===== verification/Lifecycle_Properties.thy ===== *)
theory Lifecycle_Properties
  imports Run_Properties
begin

text \<open>
  The properties of pausing and stopping a run.
\<close>

section \<open>A run that is paused and stopped\<close>

definition sample_paused :: RunCatalogSnapshotV1 where
  "sample_paused = sample_active\<lparr>rc_generation := 3, rc_activeDisposition := PAUSED\<rparr>"

definition sample_stopped :: RunCatalogSnapshotV1 where
  "sample_stopped = sample_snapshot\<lparr>rc_generation := 4, rc_retainedStoppedRunId := Some 1\<rparr>"

lemma sample_lifecycle_encodes:
  "\<exists>bytes. encodeRunCatalogV1 sample_paused = Inr bytes" "\<exists>bytes. encodeRunCatalogV1 sample_stopped = Inr bytes"
proof -
  have "validateSnapshot sample_paused = Inr ()" "validateSnapshot sample_stopped = Inr ()"
    by (simp_all add: validateSnapshot_def sample_paused_def sample_stopped_def sample_active_def sample_snapshot_def
        exceedsLastReserved_def isPresentZero_def isKnownDispositionValue_def)
  then show "\<exists>bytes. encodeRunCatalogV1 sample_paused = Inr bytes" "\<exists>bytes. encodeRunCatalogV1 sample_stopped = Inr bytes"
    by (simp_all add: encodeRunCatalogV1_def Let_def)
qed

lemma sample_known: "known_disposition sample_active" "known_disposition sample_paused"
  by (simp_all add: known_disposition_def sample_active_def sample_paused_def sample_snapshot_def)

lemma memory_processing_fields [simp]:
  "pe_run memory_processing = memory_environment" "pe_makeQueue memory_processing n = []" "pe_empty memory_processing q = (q = [])"
  "env_directory memory_environment p = memory_directory" "dd_files memory_directory = memory_files"
  "env_update memory_environment w p f = w"
  by (simp_all add: memory_processing_def memory_environment_def memory_directory_def)

lemma closeAdmission_writer [simp]: "rs_journalWriter (ctl_run (closeAdmission ctl)) = rs_journalWriter (ctl_run ctl)"
  by (simp add: closeAdmission_def)

text \<open>A ready controller on the memory file system, with an empty command path.\<close>

definition sample_ready :: "(u8 list, sequenceMessage list) controller \<Rightarrow> u8 list \<Rightarrow> bool" where
  "sample_ready ctl bytes \<longleftrightarrow>
     (lifecycle_step memory_processing (2 ^ 64) ''/data/catalog'')\<^sup>*\<^sup>* (make_ExchangeRunController, None) (ctl, Some bytes) \<and>
     ctl_state ctl = ES_READY \<and> encodeRunCatalogV1 sample_active = Inr bytes \<and>
     ctl_canonicalCatalogPath ctl = ''/data/catalog'' \<and>
     (\<exists>x. rs_journalWriter (ctl_run ctl) = Some x \<and> rh_exchangeRunId (w_header x) = 1) \<and>
     (\<exists>path. ctl_commandProcessing ctl = Some path \<and> \<not> capacityTransitionPending path \<and>
        processingDrained memory_processing path \<and> resultHandoffsDrained path)"

lemma memory_installed: "\<exists>ctl bytes. sample_ready ctl bytes"
proof -
  obtain res and ctl :: "(u8 list, sequenceMessage list) controller" and bytes x idx where new:
    "startupNewRunV1 memory_environment (2 ^ 64) ''/data/catalog'' sample_configuration make_ExchangeRunController None =
      Some (res, ctl, Some bytes)" "ctl_state ctl = ES_READY" "encodeRunCatalogV1 sample_active = Inr bytes"
    "ctl_canonicalCatalogPath ctl = ''/data/catalog''" "ctl_commandProcessing ctl = None"
    "rs_journalWriter (ctl_run ctl) = Some x" "w_header x = configured_header sample_configuration 1"
    "rs_matchingState (ctl_run ctl) = Some (init_MatchingState 1)"
    "rs_admissionIndex (ctl_run ctl) = Some idx" "adm_exchangeRunId idx = 1"
    using memory_startup by blast
  have run1: "rh_exchangeRunId (w_header x) = 1" "rh_maxEventsPerCommand (w_header x) = 4096"
    by (simp_all add: new(7) configured_header_def sample_configuration_def sample_header_def)
  obtain path where path: "make_CommandProcessingPath memory_processing (ctl_run ctl) 8 8 4 8192 4096 = Inr path"
      "\<not> capacityTransitionPending path" "processingDrained memory_processing path" "resultHandoffsDrained path"
    using new(6,8,9,10) run1
    by (simp add: make_CommandProcessingPath_def checkedCommandCapacity_def checkedPrivateEventCapacity_def
        checkedPublicTradeCapacity_def make_BoundedCommandResultQueue_def make_BoundedPrivateResultQueue_def
        make_BoundedPublicTradeQueue_def make_Bus_def make_journal_Sequencer_def get_or_throw_def SIZE_MAX_def
        processingDrained_def resultHandoffsDrained_def crq_size_def hasPendingResult_def make_MatchingEngine_def
        hasPendingBatch_def make_AdmissionCompletionConsumer_def dispatcher_hasPendingResult_def
        make_CommandResultDispatcher_def privateHandoffPending_def publicHandoffPending_def Let_def)
  let ?ctl = "ctl\<lparr>ctl_commandProcessing := Some path\<rparr>"
  have "lifecycle_step memory_processing (2 ^ 64) ''/data/catalog'' (make_ExchangeRunController, None) (ctl, Some bytes)"
    by (rule lifecycle_step.startup_new) (use new(1) in simp)
  moreover have "lifecycle_step memory_processing (2 ^ 64) ''/data/catalog'' (ctl, Some bytes) (?ctl, Some bytes)"
    by (rule lifecycle_step.install [of _ 8 8 4 8192 4096 _ "Inr True"])
      (use new(2,5,6) path(1) in \<open>simp add: installCommandProcessingV1_def\<close>)
  ultimately have "(lifecycle_step memory_processing (2 ^ 64) ''/data/catalog'')\<^sup>*\<^sup>*
      (make_ExchangeRunController, None) (?ctl, Some bytes)"
    by (meson converse_rtranclp_into_rtranclp r_into_rtranclp)
  then have "sample_ready ?ctl bytes"
    using new path(2-) run1 by (simp add: sample_ready_def)
  then show ?thesis by blast
qed

lemma memory_pause:
  assumes "sample_ready ctl bytes"
  shows "\<exists>res ctl' bytes'. pauseRunV1WithHooks memory_processing (2 ^ 64) ctl (Some bytes) = Some (res, ctl', Some bytes') \<and>
    pz_outcome res = RP_PAUSED \<and> encodeRunCatalogV1 sample_paused = Inr bytes' \<and>
    ctl_canonicalCatalogPath ctl' = ''/data/catalog'' \<and> rs_journalWriter (ctl_run ctl') = rs_journalWriter (ctl_run ctl) \<and>
    ctl_state ctl' = ES_PAUSED \<and> (\<exists>path. ctl_commandProcessing ctl' = Some path \<and> resultHandoffsDrained path)"
proof -
  note ready = assms [unfolded sample_ready_def]
  from ready obtain path x where path: "ctl_commandProcessing ctl = Some path" "\<not> capacityTransitionPending path"
      "processingDrained memory_processing path" "resultHandoffsDrained path"
    and x: "rs_journalWriter (ctl_run ctl) = Some x" "rh_exchangeRunId (w_header x) = 1"
    by blast
  obtain bytes' where paused: "encodeRunCatalogV1 sample_paused = Inr bytes'"
    using sample_lifecycle_encodes(1) by blast
  have loaded: "loadRunCatalogV1 memory_files (2 ^ 64) (Some bytes) empty_RunCatalogSnapshotV1 =
      Some (catalogLoadResult CL_LOADED RC_NONE 0, sample_active)"
    using ready sample_known(1) by (intro memory_load) simp_all
  have rep: "replaceRunCatalogV1WithHooks memory_files (2 ^ 64) (Some bytes) sample_paused =
      Some (replaceResult CR_COMMITTED RC_NONE 0, Some bytes')"
    by (rule memory_replace [OF paused _ loaded])
      (simp_all add: generationCheck_def catalogLoadResult_def sample_active_def sample_paused_def sample_snapshot_def)
  have fields: "rc_activeRunId sample_active = Some 1" "rc_activeDisposition sample_active = OPEN"
      "rc_generation sample_active \<noteq> - 1"
      "sample_active\<lparr>rc_generation := rc_generation sample_active + 1, rc_activeDisposition := PAUSED\<rparr> = sample_paused"
    by (simp_all add: sample_active_def sample_paused_def sample_snapshot_def)
  have publish: "\<exists>res. publishPaused memory_processing (2 ^ 64) (closeAdmission ctl) (Some bytes) =
      Some (res, (closeAdmission ctl)\<lparr>ctl_state := ES_PAUSED\<rparr>, Some bytes') \<and> pz_outcome res = RP_PAUSED"
    using ready x loaded rep fields
    by (simp add: publishPaused_def Let_def catalogLoadResult_def replaceResult_def pauseResult_def)
  obtain n :: nat where n: "2 ^ 64 = Suc n"
    by (metis not0_implies_Suc power_not_zero zero_neq_numeral)
  have "pauseDrain memory_processing fuel (2 ^ 64) (closeAdmission ctl) (Some bytes) = Some (None, closeAdmission ctl, Some bytes)" for fuel
    unfolding n using path by simp
  then show ?thesis
    using ready path publish paused by (auto simp: pauseRunV1WithHooks_def)
qed

lemma memory_stop:
  assumes paused: "encodeRunCatalogV1 sample_paused = Inr bytes" and st: "ctl_state ctl = ES_PAUSED"
    and binding: "ctl_canonicalCatalogPath ctl = ''/data/catalog''"
    and x: "rs_journalWriter (ctl_run ctl) = Some x" "rh_exchangeRunId (w_header x) = 1"
    and path: "ctl_commandProcessing ctl = Some path" "resultHandoffsDrained path"
  shows "\<exists>res ctl' w'. stopRunV1WithHooks memory_processing (2 ^ 64) None ctl (Some bytes) = Some (res, ctl', w') \<and>
    st_outcome res = ST_STOPPED"
proof -
  obtain bytes' where stopped: "encodeRunCatalogV1 sample_stopped = Inr bytes'"
    using sample_lifecycle_encodes(2) by blast
  have loaded: "loadRunCatalogV1 memory_files (2 ^ 64) (Some bytes) empty_RunCatalogSnapshotV1 =
      Some (catalogLoadResult CL_LOADED RC_NONE 0, sample_paused)"
    using paused sample_known(2) by (intro memory_load) simp_all
  have rep: "replaceRunCatalogV1WithHooks memory_files (2 ^ 64) (Some bytes) sample_stopped =
      Some (replaceResult CR_COMMITTED RC_NONE 0, Some bytes')"
    by (rule memory_replace [OF stopped _ loaded])
      (simp_all add: generationCheck_def catalogLoadResult_def sample_active_def sample_paused_def sample_stopped_def sample_snapshot_def)
  have checks: "stopChecks ES_PAUSED 1 None sample_paused = Inr None"
    by (simp add: stopChecks_def sample_paused_def sample_active_def sample_snapshot_def)
  have "sample_paused\<lparr>rc_generation := rc_generation sample_paused + 1, rc_activeRunId := None,
      rc_activeDisposition := DISPOSITION_NONE, rc_retainedStoppedRunId := Some 1\<rparr> = sample_stopped"
    by (simp add: sample_active_def sample_paused_def sample_stopped_def sample_snapshot_def)
  then show ?thesis
    using st binding x path loaded rep checks
    by (simp add: stopRunV1WithHooks_def commitStop_def Let_def catalogLoadResult_def replaceResult_def)
qed

section \<open>Properties\<close>



text \<open>C34. A stop gives everything back: when a controller that went through any sequence of operations reports a run as
  stopped, whether or not the journal it replaces could be removed, the controller owns neither a run nor a command path
  any more, and the catalog has no active run and retains the one that was stopped.\<close>

theorem stop_releases:
  assumes "posix_processing catalog remaining written interrupts bound env path binding" and "bound + 2 ^ 64 \<le> fuel"
    and "(lifecycle_step env fuel path)\<^sup>*\<^sup>* (make_ExchangeRunController, w0) (ctl, w)"
    and "stopRunV1WithHooks env fuel confirmation ctl w = Some (res, ctl', w')"
    and "st_outcome res = ST_STOPPED \<or> st_outcome res = ST_STOPPED_CLEANUP_FAILED"
  shows "ctl_state ctl' = ES_STOPPED \<and> ctl_run ctl' = empty_RunStateV1 \<and> ctl_commandProcessing ctl' = None \<and>
    (\<exists>runId opened. owned_run (ctl_run ctl) runId opened \<and> stopped_run (catalog w') runId)"
proof -
  have "lifecycle_inv catalog binding ctl w"
    using lifecycle_steps_inv [OF assms(1-3)] by (simp add: make_controller_inv)
  moreover have "\<not> not_stopped res"
    using assms(5) by (auto simp: not_stopped_def)
  ultimately show ?thesis
    using stop_spec [OF assms(1) _ _ assms(4)] assms(2) by simp
qed

theorem stop_releases_witness:
  "\<exists>res (ctl :: (u8 list, sequenceMessage list) controller) w ctl' w' runId.
     stopRunV1WithHooks memory_processing (2 ^ 64) None ctl w = Some (res, ctl', w') \<and>
     ctl_state ctl' = ES_STOPPED \<and> stopped_run w' runId"
proof -
  obtain ctl0 bytes0 where ready: "sample_ready ctl0 bytes0"
    using memory_installed by blast
  obtain pres ctl bytes path where pause:
    "pauseRunV1WithHooks memory_processing (2 ^ 64) ctl0 (Some bytes0) = Some (pres, ctl, Some bytes)"
    "encodeRunCatalogV1 sample_paused = Inr bytes" "ctl_canonicalCatalogPath ctl = ''/data/catalog''"
    "rs_journalWriter (ctl_run ctl) = rs_journalWriter (ctl_run ctl0)" "ctl_state ctl = ES_PAUSED"
    "ctl_commandProcessing ctl = Some path" "resultHandoffsDrained path"
    using memory_pause [OF ready] by blast
  obtain x where x: "rs_journalWriter (ctl_run ctl) = Some x" "rh_exchangeRunId (w_header x) = 1"
    using ready pause(4) by (auto simp: sample_ready_def)
  obtain res ctl' w' where stop: "stopRunV1WithHooks memory_processing (2 ^ 64) None ctl (Some bytes) = Some (res, ctl', w')"
    "st_outcome res = ST_STOPPED"
    using memory_stop [OF pause(2,5,3) x pause(6,7)] by blast
  have "(lifecycle_step memory_processing (2 ^ 64) ''/data/catalog'')\<^sup>*\<^sup>* (make_ExchangeRunController, None) (ctl, Some bytes)"
    using ready lifecycle_step.pause [OF pause(1), of "''/data/catalog''"]
    by (meson rtranclp.rtrancl_into_rtrancl sample_ready_def)
  from stop_releases [OF posix_memory_processing _ this stop(1)] stop show ?thesis
    by (metis add_0 id_apply order_refl)
qed

end
