(* ===== verification/Event_Json.thy ===== *)
theory Event_Json
  imports Result_Projection Run_Reservation
begin

text \<open>
  The JSON messages of the application event stream: \<open>core/application/src/application_event_json.cpp\<close> and its
  header. Each \<open>append\<close> function takes the text written so far and returns it extended. A serialisation that fails
  leaves the caller's string as it was; the text collected until then is dropped with the local string, so that the
  helpers return the error alone.
\<close>

datatype ApplicationEventJsonError =
    JE_NONE | JE_EMPTY_EVENTS | JE_RUN_MISMATCH | JE_COMMAND_SEQUENCE_MISMATCH | JE_CORRELATION_MISMATCH
  | JE_RECIPIENT_MISMATCH | JE_INVALID_ENUM

section \<open>Numbers and strings\<close>

definition appendUnsigned :: "string \<Rightarrow> u64 \<Rightarrow> string" where
  "appendUnsigned output v = output @ to_string (unat v)"

definition appendQuotedUnsigned :: "string \<Rightarrow> u64 \<Rightarrow> string" where
  "appendQuotedUnsigned output v = appendUnsigned (output @ [CHR 0x22]) v @ [CHR 0x22]"

definition HEX :: string where
  "HEX = ''0123456789abcdef''"

text \<open>One turn of the loop over the characters.\<close>

definition appendJsonCharacter :: "string \<Rightarrow> char \<Rightarrow> string" where
  "appendJsonCharacter output character =
     (let byte = (of_char character :: nat) in
      if character = CHR 0x22 then output @ [CHR 0x5C, CHR 0x22]
      else if character = CHR 0x5C then output @ [CHR 0x5C, CHR 0x5C]
      else if character = CHR 0x08 then output @ [CHR 0x5C, CHR ''b'']
      else if character = CHR 0x0C then output @ [CHR 0x5C, CHR ''f'']
      else if character = CHR 0x0A then output @ [CHR 0x5C, CHR ''n'']
      else if character = CHR 0x0D then output @ [CHR 0x5C, CHR ''r'']
      else if character = CHR 0x09 then output @ [CHR 0x5C, CHR ''t'']
      else if byte < 0x20 \<or> byte = 0x7f
      then output @ [CHR 0x5C] @ ''u00'' @ [HEX ! (byte div 16), HEX ! (byte mod 16)]
      else output @ [character])"

definition appendJsonString :: "string \<Rightarrow> string \<Rightarrow> string" where
  "appendJsonString output v = foldl appendJsonCharacter (output @ [CHR 0x22]) v @ [CHR 0x22]"

text \<open>The bytes of a client command identifier as characters.\<close>

definition command_id_text :: "ClientCommandId \<Rightarrow> string" where
  "command_id_text c = map (\<lambda>byte. char_of (unat byte)) (ClientCommandId_value c)"

text \<open>A JSON member name with its colon, and the separator before all but the first member.\<close>

abbreviation name_of :: "string \<Rightarrow> string" where
  "name_of k \<equiv> [CHR 0x22] @ k @ [CHR 0x22, CHR '':'']"

section \<open>Enumerators\<close>

definition enumName_Side :: "Side \<Rightarrow> string option" where
  "enumName_Side v = (case v of Side_BUY \<Rightarrow> Some ''BUY'' | Side_SELL \<Rightarrow> Some ''SELL'' | Side_other _ \<Rightarrow> None)"

definition enumName_TradeRole :: "TradeRole \<Rightarrow> string option" where
  "enumName_TradeRole v = (case v of MAKER \<Rightarrow> Some ''MAKER'' | TAKER \<Rightarrow> Some ''TAKER'')"

definition enumName_CommandType :: "CommandType \<Rightarrow> string option" where
  "enumName_CommandType v = (case v of NEW_ORDER \<Rightarrow> Some ''NEW_ORDER'' | CommandType_CANCEL \<Rightarrow> Some ''CANCEL'')"

definition enumName_CancelReason :: "CancelReason \<Rightarrow> string option" where
  "enumName_CancelReason v =
     (case v of CLIENT_REQUESTED \<Rightarrow> Some ''CLIENT_REQUESTED'' | IOC_REMAINDER \<Rightarrow> Some ''IOC_REMAINDER'')"

definition enumName_CommandRejectionReason :: "CommandRejectionReason \<Rightarrow> string option" where
  "enumName_CommandRejectionReason v =
     (case v of
        ORDER_NOT_ACTIVE \<Rightarrow> Some ''ORDER_NOT_ACTIVE''
      | NOT_OWNER \<Rightarrow> Some ''NOT_OWNER''
      | BOOK_CAPACITY_EXCEEDED \<Rightarrow> Some ''BOOK_CAPACITY_EXCEEDED'')"

section \<open>Events\<close>

definition appendEventId :: "string \<Rightarrow> EventId \<Rightarrow> string" where
  "appendEventId output e =
     (let output = output @ ''{'' @ name_of ''exchangeRunId'';
          output = appendQuotedUnsigned output (ev_exchangeRunId e);
          output = output @ '','' @ name_of ''commandSequence'';
          output = appendQuotedUnsigned output (ev_commandSequence e);
          output = output @ '','' @ name_of ''eventIndex'';
          output = appendUnsigned output (ucast (ev_eventIndex e))
      in output @ ''}'')"

definition appendPublicTrade :: "string \<Rightarrow> PublicTrade \<Rightarrow> string \<Rightarrow> string" where
  "appendPublicTrade output trade aggressor =
     (let output = output @ ''{'' @ name_of ''eventId'';
          output = appendEventId output (pu_eventId trade);
          output = output @ '','' @ name_of ''instrumentId'';
          output = appendQuotedUnsigned output (pu_instrumentId trade);
          output = output @ '','' @ name_of ''executionPrice'';
          output = appendQuotedUnsigned output (pu_executionPrice trade);
          output = output @ '','' @ name_of ''executionQuantity'';
          output = appendQuotedUnsigned output (pu_executionQuantity trade);
          output = output @ '','' @ name_of ''aggressorSide'';
          output = appendJsonString output aggressor
      in output @ ''}'')"

definition appendPrivateTrade :: "string \<Rightarrow> PrivateTrade \<Rightarrow> string \<Rightarrow> string \<Rightarrow> string" where
  "appendPrivateTrade output trade side role =
     (let output = output @ ''{'' @ name_of ''type'' @ [CHR 0x22] @ ''privateTrade'' @ [CHR 0x22] @ '','' @ name_of ''eventId'';
          output = appendEventId output (pt_eventId trade);
          output = output @ '','' @ name_of ''instrumentId'';
          output = appendQuotedUnsigned output (pt_instrumentId trade);
          output = output @ '','' @ name_of ''orderId'';
          output = appendQuotedUnsigned output (pt_orderId trade);
          output = output @ '','' @ name_of ''side'';
          output = appendJsonString output side;
          output = output @ '','' @ name_of ''role'';
          output = appendJsonString output role;
          output = output @ '','' @ name_of ''executionPrice'';
          output = appendQuotedUnsigned output (pt_executionPrice trade);
          output = output @ '','' @ name_of ''executionQuantity'';
          output = appendQuotedUnsigned output (pt_executionQuantity trade);
          output = output @ '','' @ name_of ''remainingQuantity'';
          output = appendQuotedUnsigned output (pt_remainingQuantity trade)
      in output @ ''}'')"

definition appendOrderRested :: "string \<Rightarrow> OrderRested \<Rightarrow> string \<Rightarrow> string" where
  "appendOrderRested output rested side =
     (let output = output @ ''{'' @ name_of ''type'' @ [CHR 0x22] @ ''orderRested'' @ [CHR 0x22] @ '','' @ name_of ''eventId'';
          output = appendEventId output (or_eventId rested);
          output = output @ '','' @ name_of ''orderId'';
          output = appendQuotedUnsigned output (or_orderId rested);
          output = output @ '','' @ name_of ''clientId'';
          output = appendQuotedUnsigned output (or_clientId rested);
          output = output @ '','' @ name_of ''instrumentId'';
          output = appendQuotedUnsigned output (or_instrumentId rested);
          output = output @ '','' @ name_of ''side'';
          output = appendJsonString output side;
          output = output @ '','' @ name_of ''price'';
          output = appendQuotedUnsigned output (or_price rested);
          output = output @ '','' @ name_of ''remainingQuantity'';
          output = appendQuotedUnsigned output (or_remainingQuantity rested)
      in output @ ''}'')"

definition appendOrderCancelled :: "string \<Rightarrow> OrderCancelled \<Rightarrow> string \<Rightarrow> string" where
  "appendOrderCancelled output cancelled reason =
     (let output = output @ ''{'' @ name_of ''type'' @ [CHR 0x22] @ ''orderCancelled'' @ [CHR 0x22] @ '','' @ name_of ''eventId'';
          output = appendEventId output (oc_eventId cancelled);
          output = output @ '','' @ name_of ''orderId'';
          output = appendQuotedUnsigned output (oc_orderId cancelled);
          output = output @ '','' @ name_of ''clientId'';
          output = appendQuotedUnsigned output (oc_clientId cancelled);
          output = output @ '','' @ name_of ''instrumentId'';
          output = appendQuotedUnsigned output (oc_instrumentId cancelled);
          output = output @ '','' @ name_of ''cancelledQuantity'';
          output = appendQuotedUnsigned output (cancelledQuantity cancelled);
          output = output @ '','' @ name_of ''reason'';
          output = appendJsonString output reason
      in output @ ''}'')"

definition appendCommandRejected :: "string \<Rightarrow> CommandRejected \<Rightarrow> string \<Rightarrow> string \<Rightarrow> string" where
  "appendCommandRejected output rejected commandType reason =
     (let output = output @ ''{'' @ name_of ''type'' @ [CHR 0x22] @ ''commandRejected'' @ [CHR 0x22] @ '','' @ name_of ''eventId'';
          output = appendEventId output (cr_eventId rejected);
          output = output @ '','' @ name_of ''commandType'';
          output = appendJsonString output commandType;
          output = output @ '','' @ name_of ''clientId'';
          output = appendQuotedUnsigned output (cr_clientId rejected);
          output = output @ '','' @ name_of ''clientCommandId'';
          output = appendJsonString output (command_id_text (cr_clientCommandId rejected));
          output =
            (case cr_relevantOrderId rejected of
               None \<Rightarrow> output
             | Some relevant \<Rightarrow> appendQuotedUnsigned (output @ '','' @ name_of ''relevantOrderId'') relevant);
          output = output @ '','' @ name_of ''reason'';
          output = appendJsonString output reason
      in output @ ''}'')"

text \<open>\<open>std::visit\<close> over the event; the checks of the run and of the command sequence come first and are the same for
  every alternative.\<close>

fun privateEventId :: "PrivateEvent \<Rightarrow> EventId" where
  "privateEventId (PvTrade e) = pt_eventId e"
| "privateEventId (PvOrderRested e) = or_eventId e"
| "privateEventId (PvOrderCancelled e) = oc_eventId e"
| "privateEventId (PvCommandRejected e) = cr_eventId e"

definition appendTypedEvent ::
  "string \<Rightarrow> PrivateEvent \<Rightarrow> ClientId \<Rightarrow> ApplicationEventJsonError + string" where
  "appendTypedEvent output event recipientId =
     (case event of
        PvTrade e \<Rightarrow>
          (case (enumName_Side (pt_side e), enumName_TradeRole (pt_role e)) of
             (Some side, Some role) \<Rightarrow> Inr (appendPrivateTrade output e side role)
           | _ \<Rightarrow> Inl JE_INVALID_ENUM)
      | PvOrderRested e \<Rightarrow>
          if or_clientId e \<noteq> recipientId then Inl JE_RECIPIENT_MISMATCH
          else (case enumName_Side (or_side e) of
                  None \<Rightarrow> Inl JE_INVALID_ENUM
                | Some side \<Rightarrow> Inr (appendOrderRested output e side))
      | PvOrderCancelled e \<Rightarrow>
          if oc_clientId e \<noteq> recipientId then Inl JE_RECIPIENT_MISMATCH
          else (case enumName_CancelReason (oc_reason e) of
                  None \<Rightarrow> Inl JE_INVALID_ENUM
                | Some reason \<Rightarrow> Inr (appendOrderCancelled output e reason))
      | PvCommandRejected e \<Rightarrow>
          if cr_clientId e \<noteq> recipientId then Inl JE_RECIPIENT_MISMATCH
          else (case (enumName_CommandType (cr_commandType e), enumName_CommandRejectionReason (cr_reason e)) of
                  (Some commandType, Some reason) \<Rightarrow> Inr (appendCommandRejected output e commandType reason)
                | _ \<Rightarrow> Inl JE_INVALID_ENUM))"

definition appendPrivateEvent ::
  "string \<Rightarrow> PrivateEvent \<Rightarrow> ExchangeRunId \<Rightarrow> CommandSequence option \<Rightarrow> ClientId \<Rightarrow>
     ApplicationEventJsonError + string \<times> CommandSequence option" where
  "appendPrivateEvent output event runId commandSequence recipientId =
     (let e = privateEventId event in
      if ev_exchangeRunId e \<noteq> runId then Inl JE_RUN_MISMATCH
      else if commandSequence \<noteq> None \<and> commandSequence \<noteq> Some (ev_commandSequence e)
      then Inl JE_COMMAND_SEQUENCE_MISMATCH
      else bind_result (appendTypedEvent output event recipientId) (\<lambda>output. Inr (output, Some (ev_commandSequence e))))"

section \<open>Messages\<close>

fun publicTradesLoop ::
  "ExchangeRunId \<Rightarrow> CommandSequence \<Rightarrow> nat \<Rightarrow> PublicTrade list \<Rightarrow> string \<Rightarrow> ApplicationEventJsonError + string" where
  "publicTradesLoop runId commandSequence index [] serialized = Inr serialized"
| "publicTradesLoop runId commandSequence index (trade # trades) serialized =
     (if ev_exchangeRunId (pu_eventId trade) \<noteq> runId then Inl JE_RUN_MISMATCH
      else if ev_commandSequence (pu_eventId trade) \<noteq> commandSequence then Inl JE_COMMAND_SEQUENCE_MISMATCH
      else
      case enumName_Side (aggressorSide trade) of
        None \<Rightarrow> Inl JE_INVALID_ENUM
      | Some aggressor \<Rightarrow>
          publicTradesLoop runId commandSequence (Suc index) trades
            (appendPublicTrade (if index \<noteq> 0 then serialized @ '','' else serialized) trade aggressor))"

definition serializePublicTradesV1 ::
  "ExchangeRunId \<Rightarrow> PublicTrade list \<Rightarrow> string \<Rightarrow> ApplicationEventJsonError \<times> string" where
  "serializePublicTradesV1 runId trades output =
     (if trades = [] then (JE_EMPTY_EVENTS, output)
      else
      let serialized = ''{'' @ name_of ''schemaVersion'' @ ''1,'' @ name_of ''type'' @ [CHR 0x22] @ ''publicTrades'' @ [CHR 0x22] @
            '','' @ name_of ''exchangeRunId'';
          serialized = appendQuotedUnsigned serialized runId;
          serialized = serialized @ '','' @ name_of ''trades'' @ ''['' in
      case publicTradesLoop runId (ev_commandSequence (pu_eventId (hd trades))) 0 trades serialized of
        Inl e \<Rightarrow> (e, output)
      | Inr serialized \<Rightarrow> (JE_NONE, serialized @ '']}''))"

definition appendCorrelation :: "string \<Rightarrow> CommandResultCorrelation option \<Rightarrow> string" where
  "appendCorrelation serialized cor =
     (case cor of
        None \<Rightarrow> serialized
      | Some c \<Rightarrow>
          let serialized = serialized @ '','' @ name_of ''correlation'' @ ''{'' @ name_of ''exchangeRunId'';
              serialized = appendQuotedUnsigned serialized (co_exchangeRunId c);
              serialized = serialized @ '','' @ name_of ''clientId'';
              serialized = appendQuotedUnsigned serialized (co_clientId c);
              serialized = serialized @ '','' @ name_of ''clientCommandId'';
              serialized = appendJsonString serialized (command_id_text (co_clientCommandId c));
              serialized = serialized @ '','' @ name_of ''commandSequence'';
              serialized = appendQuotedUnsigned serialized (co_commandSequence c)
          in serialized @ ''}'')"

fun privateEventsLoop ::
  "ExchangeRunId \<Rightarrow> ClientId \<Rightarrow> nat \<Rightarrow> PrivateEvent list \<Rightarrow> CommandSequence option \<Rightarrow> string \<Rightarrow>
     ApplicationEventJsonError + string \<times> CommandSequence option" where
  "privateEventsLoop runId recipientId index [] commandSequence serialized = Inr (serialized, commandSequence)"
| "privateEventsLoop runId recipientId index (event # evs) commandSequence serialized =
     bind_result
       (appendPrivateEvent (if index \<noteq> 0 then serialized @ '','' else serialized) event runId commandSequence recipientId)
       (\<lambda>(serialized, commandSequence).
          privateEventsLoop runId recipientId (Suc index) evs commandSequence serialized)"

definition serializePrivateResultV1 ::
  "ExchangeRunId \<Rightarrow> RecipientResult \<Rightarrow> string \<Rightarrow> ApplicationEventJsonError \<times> string" where
  "serializePrivateResultV1 runId res output =
     (if privateResult res = [] then (JE_EMPTY_EVENTS, output)
      else
      let serialized = ''{'' @ name_of ''schemaVersion'' @ ''1,'' @ name_of ''type'' @ [CHR 0x22] @ ''privateResult'' @ [CHR 0x22] @
            '','' @ name_of ''exchangeRunId'';
          serialized = appendQuotedUnsigned serialized runId;
          serialized = serialized @ '','' @ name_of ''recipientClientId'';
          serialized = appendQuotedUnsigned serialized (recipient res);
          serialized = appendCorrelation serialized (rr_correlation res);
          serialized = serialized @ '','' @ name_of ''events'' @ ''['' in
      case privateEventsLoop runId (recipient res) 0 (privateResult res) None serialized of
        Inl e \<Rightarrow> (e, output)
      | Inr (serialized, commandSequence) \<Rightarrow>
          case rr_correlation res of
            None \<Rightarrow> (JE_NONE, serialized @ '']}'')
          | Some c \<Rightarrow>
              if co_exchangeRunId c \<noteq> runId \<or> Some (co_commandSequence c) \<noteq> commandSequence
              then (JE_CORRELATION_MISMATCH, output)
              else if co_clientId c \<noteq> recipient res then (JE_RECIPIENT_MISMATCH, output)
              else (JE_NONE, serialized @ '']}''))"

end
