(* ===== verification/Event_Gateway.thy ===== *)
theory Event_Gateway
  imports Event_Json Command_Path
begin

text \<open>
  The application event gateway, \<open>core/application/src/application_event_gateway.cpp\<close> and its header: it takes the
  batches of public trades and of private results from the controller, writes each as one JSON message, and queues it
  for the connections that may see it. The reference to the controller is an argument and part of the result of the
  operations that use it; a shared pointer to an immutable message is an optional text, \<open>None\<close> the null pointer.
  Sizes are natural numbers: no sum here leaves the capacity of a connection.
\<close>

section \<open>The size of the largest message\<close>

text \<open>The functions that the compiler evaluates: \<open>None\<close> is a constant that does not compile.\<close>

definition literalBytes :: "string \<Rightarrow> nat" where
  "literalBytes literal = length literal"

definition checkedBytesAdd :: "nat \<Rightarrow> nat \<Rightarrow> nat option" where
  "checkedBytesAdd left right = (if right > SIZE_MAX - left then None else Some (left + right))"

definition checkedBytesSum :: "nat list \<Rightarrow> nat option" where
  "checkedBytesSum values = foldl (\<lambda>total v. Option.bind total (\<lambda>total. checkedBytesAdd total v)) (Some 0) values"

definition checkedBytesMultiply :: "nat \<Rightarrow> nat \<Rightarrow> nat option" where
  "checkedBytesMultiply left right =
     (if left \<noteq> 0 \<and> right > SIZE_MAX div left then None else Some (left * right))"

definition MAX_AUTHORITATIVE_EVENTS_PER_COMMAND :: nat where
  "MAX_AUTHORITATIVE_EVENTS_PER_COMMAND = 4096"

definition MAX_PRIVATE_EVENTS_PER_COMMAND :: nat where
  "MAX_PRIVATE_EVENTS_PER_COMMAND = the (checkedBytesMultiply 2 MAX_AUTHORITATIVE_EVENTS_PER_COMMAND)"

definition QUOTED_UINT64_BYTES :: nat where
  "QUOTED_UINT64_BYTES = 22"

definition CONTROLLER_EVENT_INDEX_BYTES :: nat where
  "CONTROLLER_EVENT_INDEX_BYTES = 4"

definition MAX_ESCAPED_CLIENT_COMMAND_ID_BYTES :: nat where
  "MAX_ESCAPED_CLIENT_COMMAND_ID_BYTES = the (checkedBytesSum [2, the (checkedBytesMultiply 6 MAX_LENGTH)])"

text \<open>A member name with its separators, as the literals have it.\<close>

abbreviation first_name :: "string \<Rightarrow> nat" where
  "first_name k \<equiv> literalBytes (''{'' @ name_of k)"

abbreviation next_name :: "string \<Rightarrow> nat" where
  "next_name k \<equiv> literalBytes ('','' @ name_of k)"

abbreviation quoted_bytes :: "string \<Rightarrow> nat" where
  "quoted_bytes s \<equiv> literalBytes ([CHR 0x22] @ s @ [CHR 0x22])"

definition EVENT_ID_BYTES :: nat where
  "EVENT_ID_BYTES = the (checkedBytesSum
     [first_name ''exchangeRunId'', QUOTED_UINT64_BYTES, next_name ''commandSequence'', QUOTED_UINT64_BYTES,
      next_name ''eventIndex'', CONTROLLER_EVENT_INDEX_BYTES, literalBytes ''}''])"

definition PRIVATE_TRADE_BYTES :: nat where
  "PRIVATE_TRADE_BYTES = the (checkedBytesSum
     [literalBytes (''{'' @ name_of ''type'' @ [CHR 0x22] @ ''privateTrade'' @ [CHR 0x22] @ '','' @ name_of ''eventId''), EVENT_ID_BYTES,
      next_name ''instrumentId'', QUOTED_UINT64_BYTES, next_name ''orderId'', QUOTED_UINT64_BYTES,
      next_name ''side'', quoted_bytes ''SELL'', next_name ''role'', quoted_bytes ''MAKER'',
      next_name ''executionPrice'', QUOTED_UINT64_BYTES, next_name ''executionQuantity'', QUOTED_UINT64_BYTES,
      next_name ''remainingQuantity'', QUOTED_UINT64_BYTES, literalBytes ''}''])"

definition ORDER_RESTED_BYTES :: nat where
  "ORDER_RESTED_BYTES = the (checkedBytesSum
     [literalBytes (''{'' @ name_of ''type'' @ [CHR 0x22] @ ''orderRested'' @ [CHR 0x22] @ '','' @ name_of ''eventId''), EVENT_ID_BYTES,
      next_name ''orderId'', QUOTED_UINT64_BYTES, next_name ''clientId'', QUOTED_UINT64_BYTES,
      next_name ''instrumentId'', QUOTED_UINT64_BYTES, next_name ''side'', quoted_bytes ''SELL'',
      next_name ''price'', QUOTED_UINT64_BYTES, next_name ''remainingQuantity'', QUOTED_UINT64_BYTES, literalBytes ''}''])"

definition ORDER_CANCELLED_BYTES :: nat where
  "ORDER_CANCELLED_BYTES = the (checkedBytesSum
     [literalBytes (''{'' @ name_of ''type'' @ [CHR 0x22] @ ''orderCancelled'' @ [CHR 0x22] @ '','' @ name_of ''eventId''), EVENT_ID_BYTES,
      next_name ''orderId'', QUOTED_UINT64_BYTES, next_name ''clientId'', QUOTED_UINT64_BYTES,
      next_name ''instrumentId'', QUOTED_UINT64_BYTES, next_name ''cancelledQuantity'', QUOTED_UINT64_BYTES,
      next_name ''reason'', quoted_bytes ''CLIENT_REQUESTED'', literalBytes ''}''])"

definition COMMAND_REJECTED_BYTES :: nat where
  "COMMAND_REJECTED_BYTES = the (checkedBytesSum
     [literalBytes (''{'' @ name_of ''type'' @ [CHR 0x22] @ ''commandRejected'' @ [CHR 0x22] @ '','' @ name_of ''eventId''), EVENT_ID_BYTES,
      next_name ''commandType'', quoted_bytes ''NEW_ORDER'', next_name ''clientId'', QUOTED_UINT64_BYTES,
      next_name ''clientCommandId'', MAX_ESCAPED_CLIENT_COMMAND_ID_BYTES, next_name ''relevantOrderId'', QUOTED_UINT64_BYTES,
      next_name ''reason'', quoted_bytes ''BOOK_CAPACITY_EXCEEDED'', literalBytes ''}''])"

definition TWO_PRIVATE_TRADES_BYTES :: nat where
  "TWO_PRIVATE_TRADES_BYTES = the (checkedBytesSum [the (checkedBytesMultiply 2 PRIVATE_TRADE_BYTES), 1])"

definition PRIVATE_ENVELOPE_FIXED_BYTES :: nat where
  "PRIVATE_ENVELOPE_FIXED_BYTES = the (checkedBytesSum
     [literalBytes (''{'' @ name_of ''schemaVersion'' @ ''1,'' @ name_of ''type'' @ [CHR 0x22] @ ''privateResult'' @ [CHR 0x22] @ '','' @
        name_of ''exchangeRunId''), QUOTED_UINT64_BYTES,
      next_name ''recipientClientId'', QUOTED_UINT64_BYTES,
      literalBytes ('','' @ name_of ''correlation'' @ ''{'' @ name_of ''exchangeRunId''), QUOTED_UINT64_BYTES,
      next_name ''clientId'', QUOTED_UINT64_BYTES, next_name ''clientCommandId'', MAX_ESCAPED_CLIENT_COMMAND_ID_BYTES,
      next_name ''commandSequence'', QUOTED_UINT64_BYTES, literalBytes ''}'',
      literalBytes ('','' @ name_of ''events'' @ ''[''), literalBytes '']}''])"

definition MAX_PRIVATE_HANDOFF_MESSAGE_BYTES :: nat where
  "MAX_PRIVATE_HANDOFF_MESSAGE_BYTES = the (checkedBytesSum
     [PRIVATE_ENVELOPE_FIXED_BYTES, the (checkedBytesMultiply MAX_PRIVATE_EVENTS_PER_COMMAND PRIVATE_TRADE_BYTES),
      MAX_PRIVATE_EVENTS_PER_COMMAND - 1])"

definition PUBLIC_TRADE_BYTES :: nat where
  "PUBLIC_TRADE_BYTES = the (checkedBytesSum
     [first_name ''eventId'', EVENT_ID_BYTES, next_name ''instrumentId'', QUOTED_UINT64_BYTES,
      next_name ''executionPrice'', QUOTED_UINT64_BYTES, next_name ''executionQuantity'', QUOTED_UINT64_BYTES,
      next_name ''aggressorSide'', quoted_bytes ''SELL'', literalBytes ''}''])"

definition PUBLIC_ENVELOPE_FIXED_BYTES :: nat where
  "PUBLIC_ENVELOPE_FIXED_BYTES = the (checkedBytesSum
     [literalBytes (''{'' @ name_of ''schemaVersion'' @ ''1,'' @ name_of ''type'' @ [CHR 0x22] @ ''publicTrades'' @ [CHR 0x22] @ '','' @
        name_of ''exchangeRunId''), QUOTED_UINT64_BYTES, literalBytes ('','' @ name_of ''trades'' @ ''[''), literalBytes '']}''])"

definition MAX_PUBLIC_HANDOFF_MESSAGE_BYTES :: nat where
  "MAX_PUBLIC_HANDOFF_MESSAGE_BYTES = the (checkedBytesSum
     [PUBLIC_ENVELOPE_FIXED_BYTES, the (checkedBytesMultiply MAX_AUTHORITATIVE_EVENTS_PER_COMMAND PUBLIC_TRADE_BYTES),
      MAX_AUTHORITATIVE_EVENTS_PER_COMMAND - 1])"

definition MIN_OUTBOUND_CAPACITY :: nat where
  "MIN_OUTBOUND_CAPACITY =
     (if MAX_PRIVATE_HANDOFF_MESSAGE_BYTES > MAX_PUBLIC_HANDOFF_MESSAGE_BYTES
      then MAX_PRIVATE_HANDOFF_MESSAGE_BYTES else MAX_PUBLIC_HANDOFF_MESSAGE_BYTES)"

definition MIN_APPLICATION_GATEWAY_OUTBOUND_CAPACITY_V1 :: nat where
  "MIN_APPLICATION_GATEWAY_OUTBOUND_CAPACITY_V1 = MIN_OUTBOUND_CAPACITY"

section \<open>Data\<close>

type_synonym ConnectionHandle = u64

datatype ConnectionRegistrationOutcome =
    REGISTERED | REPLACED | CONNECTION_LIMIT_REACHED | INVALID_BINDING | HANDLE_ALREADY_REGISTERED

record ConnectionRegistrationResult =
  cg_outcome :: ConnectionRegistrationOutcome
  replacedConnection :: "ConnectionHandle option"

record ConnectionInspection =
  ci_clientId :: ClientId
  ci_exchangeRunId :: ExchangeRunId
  ci_queuedMessageCount :: nat
  ci_queuedBytes :: nat

datatype ApplicationEventInputFailureReason =
  IF_SERIALIZATION_FAILED | IF_RECIPIENT_INVARIANT | IF_RUN_IDENTITY_INVARIANT | IF_BYTE_ACCOUNTING_INVARIANT

record ApplicationEventInputFailure =
  if_reason :: ApplicationEventInputFailureReason
  if_serializationError :: "ApplicationEventJsonError option"

record ApplicationEventInputInspection =
  ii_failure :: "ApplicationEventInputFailure option"
  retainedValueCount :: nat

record ApplicationEventGatewayInspection =
  gi_connectionCount :: nat
  gi_publicInput :: ApplicationEventInputInspection
  gi_privateInput :: ApplicationEventInputInspection

datatype ApplicationEventAdvanceOutcome = AO_IDLE | AO_ROUTED | AO_FAILED

record ConnectionState =
  cs_handle :: ConnectionHandle
  cs_clientId :: ClientId
  cs_exchangeRunId :: ExchangeRunId
  outbound :: "string option list"
  queuedBytes :: nat

record ApplicationEventGateway =
  maximumConnections :: nat
  perConnectionOutboundByteCapacity :: nat
  connections :: "ConnectionState list"
  pendingPublic :: "PublicTrade list option"
  pendingPrivate :: "RecipientResults option"
  publicFailure :: "ApplicationEventInputFailure option"
  privateFailure :: "ApplicationEventInputFailure option"

definition make_ApplicationEventGateway :: "nat \<Rightarrow> nat \<Rightarrow> ApplicationEventGateway result" where
  "make_ApplicationEventGateway maximum capacity =
     (if maximum = 0
      then Inl (invalid_argument ''application event gateway maximum connections must be positive'')
      else if capacity < MIN_APPLICATION_GATEWAY_OUTBOUND_CAPACITY_V1
      then Inl (invalid_argument
        ''application event gateway outbound byte capacity cannot hold one maximum controller handoff'')
      else Inr \<lparr>maximumConnections = maximum, perConnectionOutboundByteCapacity = capacity, connections = [],
        pendingPublic = None, pendingPrivate = None, publicFailure = None, privateFailure = None\<rparr>)"

section \<open>Connections\<close>

definition findConnection :: "ConnectionHandle \<Rightarrow> ApplicationEventGateway \<Rightarrow> nat option" where
  "findConnection handle g = find_if (\<lambda>c. cs_handle c = handle) (connections g)"

definition new_connection :: "ConnectionHandle \<Rightarrow> ClientId \<Rightarrow> ExchangeRunId \<Rightarrow> ConnectionState" where
  "new_connection handle client runId =
     \<lparr>cs_handle = handle, cs_clientId = client, cs_exchangeRunId = runId, outbound = [], queuedBytes = 0\<rparr>"

text \<open>\<open>std::vector::erase\<close> at an index.\<close>

definition erase_at :: "nat \<Rightarrow> 'a list \<Rightarrow> 'a list" where
  "erase_at i xs = take i xs @ drop (Suc i) xs"

definition registerConnection ::
  "('f, 'q) controller \<Rightarrow> ConnectionHandle \<Rightarrow> ClientId \<Rightarrow> ExchangeRunId \<Rightarrow> ApplicationEventGateway \<Rightarrow>
     ConnectionRegistrationResult \<times> ApplicationEventGateway" where
  "registerConnection ctl handle client runId g =
     (let res = (\<lambda>oc replaced. \<lparr>cg_outcome = oc, replacedConnection = replaced\<rparr>) in
      if client = 0 \<or> runId = 0 \<or>
        (case rs_admissionIndex (ctl_run ctl) of None \<Rightarrow> True | Some idx \<Rightarrow> adm_exchangeRunId idx \<noteq> runId)
      then (res INVALID_BINDING None, g)
      else if findConnection handle g \<noteq> None then (res HANDLE_ALREADY_REGISTERED None, g)
      else
      case find_if (\<lambda>c. cs_clientId c = client \<and> cs_exchangeRunId c = runId) (connections g) of
        None \<Rightarrow>
          if length (connections g) \<ge> maximumConnections g then (res CONNECTION_LIMIT_REACHED None, g)
          else (res REGISTERED None, g\<lparr>connections := connections g @ [new_connection handle client runId]\<rparr>)
      | Some i \<Rightarrow>
          (res REPLACED (Some (cs_handle (connections g ! i))),
           g\<lparr>connections := (connections g)[i := new_connection handle client runId]\<rparr>))"

definition disconnect :: "ConnectionHandle \<Rightarrow> ApplicationEventGateway \<Rightarrow> bool \<times> ApplicationEventGateway" where
  "disconnect handle g =
     (case findConnection handle g of
        None \<Rightarrow> (False, g)
      | Some i \<Rightarrow> (True, g\<lparr>connections := erase_at i (connections g)\<rparr>))"

definition inspectConnection :: "ConnectionHandle \<Rightarrow> ApplicationEventGateway \<Rightarrow> ConnectionInspection option" where
  "inspectConnection handle g =
     map_option (\<lambda>i. let c = connections g ! i in
       \<lparr>ci_clientId = cs_clientId c, ci_exchangeRunId = cs_exchangeRunId c,
        ci_queuedMessageCount = length (outbound c), ci_queuedBytes = queuedBytes c\<rparr>)
       (findConnection handle g)"

text \<open>The next message of a connection: \<open>Inr None\<close> stands for the result \<open>false\<close>.\<close>

definition tryPopOutbound ::
  "ConnectionHandle \<Rightarrow> ApplicationEventGateway \<Rightarrow> string option result \<times> ApplicationEventGateway" where
  "tryPopOutbound handle g =
     (case findConnection handle g of
        None \<Rightarrow> (Inr None, g)
      | Some i \<Rightarrow>
          let c = connections g ! i in
          case outbound c of
            [] \<Rightarrow> (Inr None, g)
          | next # rest \<Rightarrow>
              case next of
                None \<Rightarrow> (Inl (logic_error ''application event gateway outbound byte accounting invariant failed''), g)
              | Some message \<Rightarrow>
                  if length message > queuedBytes c
                  then (Inl (logic_error ''application event gateway outbound byte accounting invariant failed''), g)
                  else (Inr (Some message),
                    g\<lparr>connections := (connections g)[i := c\<lparr>outbound := rest, queuedBytes := queuedBytes c - length message\<rparr>]\<rparr>))"

section \<open>Routing\<close>

datatype EnqueueCapacity = FITS | SLOW_CONSUMER | INVARIANT_FAILURE

definition enqueueCapacity :: "nat \<Rightarrow> nat \<Rightarrow> nat \<Rightarrow> EnqueueCapacity" where
  "enqueueCapacity queued messageBytes capacity =
     (if queued > capacity then INVARIANT_FAILURE
      else if messageBytes > capacity - queued then SLOW_CONSUMER
      else FITS)"

definition push_outbound :: "string \<Rightarrow> ConnectionState \<Rightarrow> ConnectionState" where
  "push_outbound payload c = c\<lparr>outbound := outbound c @ [Some payload], queuedBytes := queuedBytes c + length payload\<rparr>"

definition failPublic ::
  "ApplicationEventInputFailureReason \<Rightarrow> ApplicationEventJsonError option \<Rightarrow> ApplicationEventGateway \<Rightarrow>
     ApplicationEventAdvanceOutcome \<times> ApplicationEventGateway" where
  "failPublic failure serializationError g =
     (AO_FAILED, g\<lparr>publicFailure := Some \<lparr>if_reason = failure, if_serializationError = serializationError\<rparr>\<rparr>)"

definition failPrivate ::
  "ApplicationEventInputFailureReason \<Rightarrow> ApplicationEventJsonError option \<Rightarrow> ApplicationEventGateway \<Rightarrow>
     ApplicationEventAdvanceOutcome \<times> ApplicationEventGateway" where
  "failPrivate failure serializationError g =
     (AO_FAILED, g\<lparr>privateFailure := Some \<lparr>if_reason = failure, if_serializationError = serializationError\<rparr>\<rparr>)"

text \<open>The loop over the connections; the flag is cleared when it returns with an accounting failure.\<close>

fun routePublic :: "nat \<Rightarrow> ExchangeRunId \<Rightarrow> string \<Rightarrow> ConnectionState list \<Rightarrow> bool \<times> ConnectionState list" where
  "routePublic capacity runId payload [] = (True, [])"
| "routePublic capacity runId payload (c # cs) =
     (if cs_exchangeRunId c \<noteq> runId then map_prod id ((#) c) (routePublic capacity runId payload cs)
      else
      case enqueueCapacity (queuedBytes c) (length payload) capacity of
        FITS \<Rightarrow> map_prod id ((#) (push_outbound payload c)) (routePublic capacity runId payload cs)
      | SLOW_CONSUMER \<Rightarrow> routePublic capacity runId payload cs
      | INVARIANT_FAILURE \<Rightarrow> (False, c # cs))"

definition routePendingPublic ::
  "PublicTrade list \<Rightarrow> ApplicationEventGateway \<Rightarrow> ApplicationEventAdvanceOutcome \<times> ApplicationEventGateway" where
  "routePendingPublic batch g =
     (if batch = [] then failPublic IF_SERIALIZATION_FAILED (Some JE_EMPTY_EVENTS) g
      else
      let runId = ev_exchangeRunId (pu_eventId (hd batch)) in
      case serializePublicTradesV1 runId batch [] of
        (serialization, payload) \<Rightarrow>
          if serialization \<noteq> JE_NONE then failPublic IF_SERIALIZATION_FAILED (Some serialization) g
          else
          case routePublic (perConnectionOutboundByteCapacity g) runId payload (connections g) of
            (routed, cs) \<Rightarrow>
              if \<not> routed then failPublic IF_BYTE_ACCOUNTING_INVARIANT None (g\<lparr>connections := cs\<rparr>)
              else (AO_ROUTED, g\<lparr>connections := cs, pendingPublic := None\<rparr>))"

definition advancePublic ::
  "ApplicationEventGateway \<Rightarrow> ('f, 'q) controller \<Rightarrow>
     ApplicationEventAdvanceOutcome \<times> ApplicationEventGateway \<times> ('f, 'q) controller" where
  "advancePublic g ctl =
     (if publicFailure g \<noteq> None then (AO_FAILED, g, ctl)
      else
      case pendingPublic g of
        Some batch \<Rightarrow> (case routePendingPublic batch g of (oc, g) \<Rightarrow> (oc, g, ctl))
      | None \<Rightarrow>
          case tryPopPublicTradeBatchV1 ctl of
            None \<Rightarrow> (AO_IDLE, g, ctl)
          | Some (batch, ctl) \<Rightarrow>
              (case routePendingPublic batch (g\<lparr>pendingPublic := Some batch\<rparr>) of (oc, g) \<Rightarrow> (oc, g, ctl)))"

text \<open>The messages of a private batch, in the order of its recipients.\<close>

record SerializedRecipient =
  sr_recipient :: ClientId
  sr_exchangeRunId :: ExchangeRunId
  sr_payload :: string

fun serializeRecipients ::
  "RecipientResults \<Rightarrow> ClientId set \<Rightarrow> (ExchangeRunId \<times> CommandSequence) option \<Rightarrow>
     ApplicationEventInputFailureReason \<times> ApplicationEventJsonError option + SerializedRecipient list" where
  "serializeRecipients [] recipients batchIdentity = Inr []"
| "serializeRecipients (r # rs) recipients batchIdentity =
     (if recipient r = 0 \<or> privateResult r = [] \<or> recipient r \<in> recipients
      then Inl (IF_RECIPIENT_INVARIANT, None)
      else
      let identity = privateEventId (hd (privateResult r));
          key = (ev_exchangeRunId identity, ev_commandSequence identity) in
      if batchIdentity \<noteq> None \<and> batchIdentity \<noteq> Some key then Inl (IF_RUN_IDENTITY_INVARIANT, None)
      else
      case serializePrivateResultV1 (ev_exchangeRunId identity) r [] of
        (serialization, payload) \<Rightarrow>
          if serialization \<noteq> JE_NONE then Inl (IF_SERIALIZATION_FAILED, Some serialization)
          else map_sum id ((#) \<lparr>sr_recipient = recipient r, sr_exchangeRunId = ev_exchangeRunId identity, sr_payload = payload\<rparr>)
            (serializeRecipients rs (insert (recipient r) recipients) (Some key)))"

text \<open>One turn of the second loop: the connection of the recipient, if there is one.\<close>

definition routeRecipient :: "nat \<Rightarrow> SerializedRecipient \<Rightarrow> ConnectionState list \<Rightarrow> bool \<times> ConnectionState list" where
  "routeRecipient capacity s cs =
     (case find_if (\<lambda>c. cs_clientId c = sr_recipient s \<and> cs_exchangeRunId c = sr_exchangeRunId s) cs of
        None \<Rightarrow> (True, cs)
      | Some i \<Rightarrow>
          case enqueueCapacity (queuedBytes (cs ! i)) (length (sr_payload s)) capacity of
            FITS \<Rightarrow> (True, cs[i := push_outbound (sr_payload s) (cs ! i)])
          | SLOW_CONSUMER \<Rightarrow> (True, erase_at i cs)
          | INVARIANT_FAILURE \<Rightarrow> (False, cs))"

fun routePrivate :: "nat \<Rightarrow> SerializedRecipient list \<Rightarrow> ConnectionState list \<Rightarrow> bool \<times> ConnectionState list" where
  "routePrivate capacity [] cs = (True, cs)"
| "routePrivate capacity (s # ss) cs =
     (case routeRecipient capacity s cs of
        (routed, cs) \<Rightarrow> if routed then routePrivate capacity ss cs else (False, cs))"

definition routePendingPrivate ::
  "RecipientResults \<Rightarrow> ApplicationEventGateway \<Rightarrow> ApplicationEventAdvanceOutcome \<times> ApplicationEventGateway" where
  "routePendingPrivate batch g =
     (if batch = [] then failPrivate IF_RECIPIENT_INVARIANT None g
      else
      case serializeRecipients batch {} None of
        Inl (reason, e) \<Rightarrow> failPrivate reason e g
      | Inr serializedRecipients \<Rightarrow>
          case routePrivate (perConnectionOutboundByteCapacity g) serializedRecipients (connections g) of
            (routed, cs) \<Rightarrow>
              if \<not> routed then failPrivate IF_BYTE_ACCOUNTING_INVARIANT None (g\<lparr>connections := cs\<rparr>)
              else (AO_ROUTED, g\<lparr>connections := cs, pendingPrivate := None\<rparr>))"

definition advancePrivate ::
  "ApplicationEventGateway \<Rightarrow> ('f, 'q) controller \<Rightarrow>
     ApplicationEventAdvanceOutcome \<times> ApplicationEventGateway \<times> ('f, 'q) controller" where
  "advancePrivate g ctl =
     (if privateFailure g \<noteq> None then (AO_FAILED, g, ctl)
      else
      case pendingPrivate g of
        Some batch \<Rightarrow> (case routePendingPrivate batch g of (oc, g) \<Rightarrow> (oc, g, ctl))
      | None \<Rightarrow>
          case tryPopPrivateResultBatchV1 ctl of
            None \<Rightarrow> (AO_IDLE, g, ctl)
          | Some (batch, ctl) \<Rightarrow>
              (case routePendingPrivate batch (g\<lparr>pendingPrivate := Some batch\<rparr>) of (oc, g) \<Rightarrow> (oc, g, ctl)))"

definition inspect :: "ApplicationEventGateway \<Rightarrow> ApplicationEventGatewayInspection" where
  "inspect g =
     \<lparr>gi_connectionCount = length (connections g),
      gi_publicInput = \<lparr>ii_failure = publicFailure g,
        retainedValueCount = (case pendingPublic g of None \<Rightarrow> 0 | Some batch \<Rightarrow> length batch)\<rparr>,
      gi_privateInput = \<lparr>ii_failure = privateFailure g,
        retainedValueCount = (case pendingPrivate g of None \<Rightarrow> 0 | Some batch \<Rightarrow> length batch)\<rparr>\<rparr>"

end
