(* ===== verification/Event_Json_Reading.thy ===== *)
theory Event_Json_Reading
  imports Event_Json
begin

text \<open>
  What the messages say: a reader of JSON texts (the grammar of RFC 8259 without insignificant white space, and with
  natural numbers as its only numbers), the objects that the messages denote, and a client's reading of them back into
  events. The texts written by \<open>Event_Json\<close> are the printed forms of these objects.
\<close>

section \<open>JSON values and their texts\<close>

datatype json =
    JString string
  | JNumber nat
  | JArray "json list"
  | JObject "(string \<times> json) list"

definition json_char :: "char \<Rightarrow> string" where
  "json_char c = appendJsonCharacter [] c"

definition json_string :: "string \<Rightarrow> string" where
  "json_string s = [CHR 0x22] @ concat (map json_char s) @ [CHR 0x22]"

fun commas :: "string list \<Rightarrow> string" where
  "commas [] = []"
| "commas [t] = t"
| "commas (t # ts) = t @ '','' @ commas ts"

primrec json_text :: "json \<Rightarrow> string" where
  "json_text (JString s) = json_string s"
| "json_text (JNumber n) = to_string n"
| "json_text (JArray vs) = ''['' @ commas (map json_text vs) @ '']''"
| "json_text (JObject ms) =
     ''{'' @ commas (map (\<lambda>(k, t). json_string k @ '':'' @ t) (map (map_prod id json_text) ms)) @ ''}''"

section \<open>A reader\<close>

definition hex_digit :: "char \<Rightarrow> nat option" where
  "hex_digit c =
     (if is_digit c then Some (digit_of c)
      else if c \<in> set ''abcdef'' then Some (of_char c - 87)
      else if c \<in> set ''ABCDEF'' then Some (of_char c - 55) else None)"

definition simple_escape :: "char \<Rightarrow> char option" where
  "simple_escape c =
     map_of [(CHR 0x22, CHR 0x22), (CHR 0x5C, CHR 0x5C), (CHR ''/'', CHR ''/''), (CHR ''b'', CHR 0x08), (CHR ''f'', CHR 0x0C),
             (CHR ''n'', CHR 0x0A), (CHR ''r'', CHR 0x0D), (CHR ''t'', CHR 0x09)] c"

text \<open>The characters of a string up to its closing quote. An escaped code point must be ASCII; control characters
  must be escaped.\<close>

fun read_chars :: "string \<Rightarrow> (string \<times> string) option" where
  "read_chars [] = None"
| "read_chars (c # cs) =
     (if c = CHR 0x22 then Some ([], cs)
      else if c = CHR 0x5C then
        (case cs of
           [] \<Rightarrow> None
         | e # cs \<Rightarrow>
             if e = CHR ''u'' then
               (case cs of
                  z # y # h # l # cs \<Rightarrow>
                    (case (hex_digit h, hex_digit l) of
                       (Some hi, Some lo) \<Rightarrow>
                         if z = CHR ''0'' \<and> y = CHR ''0'' \<and> hi < 8
                         then map_option (map_prod (Cons (char_of (16 * hi + lo))) id) (read_chars cs) else None
                     | _ \<Rightarrow> None)
                | _ \<Rightarrow> None)
             else (case simple_escape e of
                     None \<Rightarrow> None
                   | Some s \<Rightarrow> map_option (map_prod (Cons s) id) (read_chars cs)))
      else if (of_char c :: nat) < 0x20 then None
      else map_option (map_prod (Cons c) id) (read_chars cs))"

fun read_value :: "nat \<Rightarrow> string \<Rightarrow> (json \<times> string) option"
  and read_elements :: "nat \<Rightarrow> string \<Rightarrow> (json list \<times> string) option"
  and read_members :: "nat \<Rightarrow> string \<Rightarrow> ((string \<times> json) list \<times> string) option" where
  "read_value 0 cs = None"
| "read_value (Suc n) cs =
     (case cs of
        [] \<Rightarrow> None
      | c # r \<Rightarrow>
          if c = CHR 0x22 then map_option (map_prod JString id) (read_chars r)
          else if c = CHR ''['' then
            (if r \<noteq> [] \<and> hd r = CHR '']'' then Some (JArray [], tl r)
             else map_option (map_prod JArray id) (read_elements n r))
          else if c = CHR ''{'' then
            (if r \<noteq> [] \<and> hd r = CHR ''}'' then Some (JObject [], tl r)
             else map_option (map_prod JObject id) (read_members n r))
          else if is_digit c \<and> (c = CHR ''0'' \<longrightarrow> takeWhile is_digit r = [])
          then Some (JNumber (decimal_value (takeWhile is_digit cs)), dropWhile is_digit cs)
          else None)"
| "read_elements 0 cs = None"
| "read_elements (Suc n) cs =
     Option.bind (read_value n cs) (\<lambda>(v, r).
       if r \<noteq> [] \<and> hd r = CHR '']'' then Some ([v], tl r)
       else if r \<noteq> [] \<and> hd r = CHR '','' then map_option (map_prod (Cons v) id) (read_elements n (tl r))
       else None)"
| "read_members 0 cs = None"
| "read_members (Suc n) cs =
     (if cs = [] \<or> hd cs \<noteq> CHR 0x22 then None
      else
      Option.bind (read_chars (tl cs)) (\<lambda>(k, r).
      if r = [] \<or> hd r \<noteq> CHR '':'' then None
      else
      Option.bind (read_value n (tl r)) (\<lambda>(v, r).
        if r \<noteq> [] \<and> hd r = CHR ''}'' then Some ([(k, v)], tl r)
        else if r \<noteq> [] \<and> hd r = CHR '','' then map_option (map_prod (Cons (k, v)) id) (read_members n (tl r))
        else None)))"

text \<open>Each call of the reader moves on by at least one character or goes from a list to its first element.\<close>

definition read_json :: "string \<Rightarrow> json option" where
  "read_json cs = (case read_value (Suc (2 * length cs)) cs of Some (v, []) \<Rightarrow> Some v | _ \<Rightarrow> None)"

section \<open>The reader inverts the printer\<close>

lemma appendJsonCharacter_json: "appendJsonCharacter output c = output @ json_char c"
  by (simp add: appendJsonCharacter_def json_char_def Let_def)

lemma appendJsonString_json: "appendJsonString output s = output @ json_string s"
proof -
  have "foldl appendJsonCharacter acc s = acc @ concat (map json_char s)" for acc
    by (induction s arbitrary: acc) (simp_all add: appendJsonCharacter_json)
  then show ?thesis
    by (simp add: appendJsonString_def json_string_def)
qed

lemma hex_digit_HEX: "k < 16 \<Longrightarrow> hex_digit (HEX ! k) = Some k"
proof -
  assume "k < 16"
  then have "k \<in> set [0..<16]" by simp
  moreover have "\<forall>k \<in> set [0..<16]. hex_digit (HEX ! k) = Some k"
    by code_simp
  ultimately show ?thesis by blast
qed

lemma read_char: "read_chars (json_char c @ cs) = map_option (map_prod (Cons c) id) (read_chars cs)"
proof (cases "(of_char c :: nat) < 0x20 \<or> (of_char c :: nat) = 0x7f")
  case True
  then have "(of_char c :: nat) div 16 < 8" "(of_char c :: nat) div 16 < 16" by auto
  then show ?thesis
    by (auto simp: json_char_def appendJsonCharacter_def Let_def simple_escape_def hex_digit_HEX)
next
  case False
  then show ?thesis
    by (auto simp: json_char_def appendJsonCharacter_def Let_def simple_escape_def)
qed

declare read_chars.simps [simp del]

lemma read_string: "read_chars (concat (map json_char s) @ CHR 0x22 # cs) = Some (s, cs)"
  by (induction s) (simp_all add: read_char read_chars.simps(2) [of "CHR 0x22"])

definition ends_number :: "string \<Rightarrow> bool" where
  "ends_number cs \<longleftrightarrow> cs = [] \<or> \<not> is_digit (hd cs)"

lemma number_digits:
  assumes "ends_number r"
  shows "takeWhile is_digit (to_string n @ r) = to_string n" and "dropWhile is_digit (to_string n @ r) = r"
proof -
  have "\<forall>c \<in> set (to_string n). is_digit c"
    using to_string_digits [of n] by (simp add: list_all_iff)
  then show "takeWhile is_digit (to_string n @ r) = to_string n" "dropWhile is_digit (to_string n @ r) = r"
    using assms by (cases r; simp add: takeWhile_append dropWhile_append ends_number_def; fail)+
qed

lemma to_string_zero: "hd (to_string n) = CHR ''0'' \<Longrightarrow> n = 0"
proof (induction n rule: to_string.induct)
  case (1 n)
  show ?case
  proof (cases "n < 10")
    case True
    then have "char_of (48 + n) = CHR ''0''"
      using "1.prems" by (simp add: to_string.simps)
    then have "(of_char (char_of (48 + n)) :: nat) = of_char (CHR ''0'')" by simp
    then show ?thesis using True by simp
  next
    case False
    then have "to_string n = to_string (n div 10) @ [char_of (48 + n mod 10)]"
      by (subst to_string.simps) simp
    then have "hd (to_string (n div 10)) = CHR ''0''"
      using "1.prems" by simp
    then show ?thesis using "1.IH" False by simp
  qed
qed

lemma read_number:
  assumes "ends_number r"
  shows "read_value (Suc n) (to_string k @ r) = Some (JNumber k, r)"
proof -
  obtain c cs where t: "to_string k = c # cs" by (cases "to_string k") auto
  have "is_digit c"
    using to_string_digits [of k] t by simp
  moreover have "cs = []" if "c = CHR ''0''"
    using to_string_zero [of k] t that by (simp add: to_string.simps)
  moreover have "takeWhile is_digit r = []"
    using assms by (cases r) (auto simp: ends_number_def)
  ultimately show ?thesis
    using number_digits [OF assms, of k] decimal_value_to_string [of k]
    by (auto simp: t is_digit_def)
qed

lemma commas_Cons: "ts \<noteq> [] \<Longrightarrow> commas (t # ts) = t @ '','' @ commas ts"
  by (cases ts) simp_all

lemma json_text_nonempty: "\<exists>c cs. json_text v = c # cs \<and> c \<notin> {CHR '']'', CHR ''}'', CHR '',''}"
proof (cases v)
  case (JNumber n)
  obtain c cs where t: "to_string n = c # cs" by (cases "to_string n") auto
  moreover have "is_digit c"
    using to_string_digits [of n] t by simp
  ultimately show ?thesis
    using JNumber by (auto simp: is_digit_def)
qed (auto simp: json_string_def)

definition reads :: "json \<Rightarrow> bool" where
  "reads v \<longleftrightarrow> (\<forall>n r. 2 * length (json_text v) < n \<longrightarrow> ends_number r \<longrightarrow> read_value n (json_text v @ r) = Some (v, r))"

lemma readsD: "reads v \<Longrightarrow> 2 * length (json_text v) < n \<Longrightarrow> ends_number r \<Longrightarrow> read_value n (json_text v @ r) = Some (v, r)"
  by (simp add: reads_def)

lemma ends_number_punctuation [simp]:
  "ends_number (CHR '','' # r)" "ends_number (CHR '']'' # r)" "ends_number (CHR ''}'' # r)" "ends_number []"
  by (simp_all add: ends_number_def is_digit_def)

lemma read_elements_text:
  assumes "\<forall>v \<in> set vs. reads v" and "vs \<noteq> []" and "2 * length (commas (map json_text vs)) + 1 < n"
  shows "read_elements n (commas (map json_text vs) @ CHR '']'' # r) = Some (vs, r)"
  using assms
proof (induction vs arbitrary: n)
  case (Cons v vs)
  obtain m where n: "n = Suc m" using Cons.prems(3) by (cases n) auto
  show ?case
  proof (cases "vs = []")
    case True
    then show ?thesis
      using Cons.prems n by (simp add: readsD)
  next
    case False
    then show ?thesis
      using Cons.prems n Cons.IH [of m] by (simp add: readsD commas_Cons)
  qed
qed simp

definition member_text :: "string \<times> json \<Rightarrow> string" where
  "member_text m = json_string (fst m) @ '':'' @ json_text (snd m)"

lemma json_text_object: "json_text (JObject ms) = ''{'' @ commas (map member_text ms) @ ''}''"
proof -
  have "member_text = (\<lambda>m. json_string (fst m) @ '':'' @ json_text (snd m))"
    by (simp add: fun_eq_iff member_text_def)
  then show ?thesis
    by (simp add: comp_def case_prod_beta)
qed

lemma read_members_text:
  assumes "\<forall>m \<in> set ms. reads (snd m)" and "ms \<noteq> []" and "2 * length (commas (map member_text ms)) + 1 < n"
  shows "read_members n (commas (map member_text ms) @ CHR ''}'' # r) = Some (ms, r)"
  using assms
proof (induction ms arbitrary: n)
  case (Cons m ms)
  obtain k where n: "n = Suc k" using Cons.prems(3) by (cases n) auto
  show ?case
  proof (cases "ms = []")
    case True
    then show ?thesis
      using Cons.prems n by (simp add: readsD member_text_def json_string_def read_string)
  next
    case False
    then show ?thesis
      using Cons.prems n Cons.IH [of k]
      by (simp add: readsD commas_Cons member_text_def json_string_def read_string)
  qed
qed simp

lemma commas_first:
  assumes "xs \<noteq> []" and "\<forall>x. \<exists>c cs. f x = c # cs \<and> P c"
  shows "\<exists>c cs. commas (map f xs) = c # cs \<and> P c"
proof -
  obtain x ys where "xs = x # ys" using assms(1) by (cases xs) auto
  moreover obtain c cs where "f x = c # cs" "P c" using assms(2) by blast
  ultimately show ?thesis
    by (cases ys) auto
qed

lemma reads_all: "reads v"
proof (induction v)
  case (JString s)
  show ?case
    unfolding reads_def
  proof (intro allI impI)
    fix n r assume "2 * length (json_text (JString s)) < n"
    then obtain m where "n = Suc m" by (cases n) auto
    then show "read_value n (json_text (JString s) @ r) = Some (JString s, r)"
      by (simp add: json_string_def read_string)
  qed
next
  case (JNumber k)
  show ?case
    unfolding reads_def
  proof (intro allI impI)
    fix n r assume "2 * length (json_text (JNumber k)) < n" "ends_number r"
    then obtain m where "n = Suc m" by (cases n) auto
    then show "read_value n (json_text (JNumber k) @ r) = Some (JNumber k, r)"
      using read_number [OF \<open>ends_number r\<close>] by simp
  qed
next
  case (JArray vs)
  show ?case
    unfolding reads_def
  proof (intro allI impI)
    fix n r assume len: "2 * length (json_text (JArray vs)) < n"
    then obtain m where n: "n = Suc m" by (cases n) auto
    show "read_value n (json_text (JArray vs) @ r) = Some (JArray vs, r)"
    proof (cases "vs = []")
      case False
      obtain c cs where "commas (map json_text vs) = c # cs" "c \<noteq> CHR '']''"
        using commas_first [OF False, of json_text "\<lambda>c. c \<noteq> CHR '']''"] json_text_nonempty by blast
      then show ?thesis
        using JArray read_elements_text [of vs m r] False len n by simp
    qed (simp add: n)
  qed
next
  case (JObject ms)
  show ?case
    unfolding reads_def json_text_object
  proof (intro allI impI)
    fix n r assume len: "2 * length (''{'' @ commas (map member_text ms) @ ''}'') < n"
    then obtain m where n: "n = Suc m" by (cases n) auto
    have ih: "\<forall>m \<in> set ms. reads (snd m)"
      using JObject by (force simp: snds.simps)
    show "read_value n ((''{'' @ commas (map member_text ms) @ ''}'') @ r) = Some (JObject ms, r)"
    proof (cases "ms = []")
      case False
      obtain c cs where "commas (map member_text ms) = c # cs" "c = CHR 0x22"
        using commas_first [OF False, of member_text "\<lambda>c. c = CHR 0x22"] by (auto simp: member_text_def json_string_def)
      then show ?thesis
        using ih read_members_text [of ms m r] False len n by simp
    qed (simp add: n)
  qed
qed

lemma read_json_text: "read_json (json_text v) = Some v"
  using readsD [OF reads_all, of v "Suc (2 * length (json_text v))" "[]"] by (simp add: read_json_def)

end
