(* ===== verification/Event_Messages.thy ===== *)
theory Event_Messages
  imports Event_Json_Reading "HOL-Library.Monad_Syntax"
begin

text \<open>
  The objects that the messages of the event stream denote, and how a client reads them back into public trades and
  private results.
\<close>

section \<open>Objects\<close>

definition quoted :: "u64 \<Rightarrow> json" where
  "quoted v = JString (to_string (unat v))"

definition side_text :: "Side \<Rightarrow> string" where
  "side_text s = (if s = Side_BUY then ''BUY'' else ''SELL'')"

definition role_text :: "TradeRole \<Rightarrow> string" where
  "role_text r = (if r = MAKER then ''MAKER'' else ''TAKER'')"

definition command_type_text :: "CommandType \<Rightarrow> string" where
  "command_type_text c = (if c = NEW_ORDER then ''NEW_ORDER'' else ''CANCEL'')"

definition cancel_reason_text :: "CancelReason \<Rightarrow> string" where
  "cancel_reason_text r = (if r = CLIENT_REQUESTED then ''CLIENT_REQUESTED'' else ''IOC_REMAINDER'')"

definition rejection_text :: "CommandRejectionReason \<Rightarrow> string" where
  "rejection_text r =
     (if r = ORDER_NOT_ACTIVE then ''ORDER_NOT_ACTIVE''
      else if r = NOT_OWNER then ''NOT_OWNER'' else ''BOOK_CAPACITY_EXCEEDED'')"

definition event_id_json :: "EventId \<Rightarrow> json" where
  "event_id_json e = JObject
     [(''exchangeRunId'', quoted (ev_exchangeRunId e)), (''commandSequence'', quoted (ev_commandSequence e)),
      (''eventIndex'', JNumber (unat (ev_eventIndex e)))]"

definition public_trade_json :: "PublicTrade \<Rightarrow> json" where
  "public_trade_json t = JObject
     [(''eventId'', event_id_json (pu_eventId t)), (''instrumentId'', quoted (pu_instrumentId t)),
      (''executionPrice'', quoted (pu_executionPrice t)), (''executionQuantity'', quoted (pu_executionQuantity t)),
      (''aggressorSide'', JString (side_text (aggressorSide t)))]"

definition private_event_json :: "PrivateEvent \<Rightarrow> json" where
  "private_event_json event = JObject
     (case event of
        PvTrade e \<Rightarrow>
          [(''type'', JString ''privateTrade''), (''eventId'', event_id_json (pt_eventId e)),
           (''instrumentId'', quoted (pt_instrumentId e)), (''orderId'', quoted (pt_orderId e)),
           (''side'', JString (side_text (pt_side e))), (''role'', JString (role_text (pt_role e))),
           (''executionPrice'', quoted (pt_executionPrice e)), (''executionQuantity'', quoted (pt_executionQuantity e)),
           (''remainingQuantity'', quoted (pt_remainingQuantity e))]
      | PvOrderRested e \<Rightarrow>
          [(''type'', JString ''orderRested''), (''eventId'', event_id_json (or_eventId e)),
           (''orderId'', quoted (or_orderId e)), (''clientId'', quoted (or_clientId e)),
           (''instrumentId'', quoted (or_instrumentId e)), (''side'', JString (side_text (or_side e))),
           (''price'', quoted (or_price e)), (''remainingQuantity'', quoted (or_remainingQuantity e))]
      | PvOrderCancelled e \<Rightarrow>
          [(''type'', JString ''orderCancelled''), (''eventId'', event_id_json (oc_eventId e)),
           (''orderId'', quoted (oc_orderId e)), (''clientId'', quoted (oc_clientId e)),
           (''instrumentId'', quoted (oc_instrumentId e)), (''cancelledQuantity'', quoted (cancelledQuantity e)),
           (''reason'', JString (cancel_reason_text (oc_reason e)))]
      | PvCommandRejected e \<Rightarrow>
          [(''type'', JString ''commandRejected''), (''eventId'', event_id_json (cr_eventId e)),
           (''commandType'', JString (command_type_text (cr_commandType e))), (''clientId'', quoted (cr_clientId e)),
           (''clientCommandId'', JString (command_id_text (cr_clientCommandId e)))] @
          (case cr_relevantOrderId e of None \<Rightarrow> [] | Some orderNumber \<Rightarrow> [(''relevantOrderId'', quoted orderNumber)]) @
          [(''reason'', JString (rejection_text (cr_reason e)))])"

definition correlation_json :: "CommandResultCorrelation \<Rightarrow> json" where
  "correlation_json c = JObject
     [(''exchangeRunId'', quoted (co_exchangeRunId c)), (''clientId'', quoted (co_clientId c)),
      (''clientCommandId'', JString (command_id_text (co_clientCommandId c))),
      (''commandSequence'', quoted (co_commandSequence c))]"

definition public_trades_json :: "ExchangeRunId \<Rightarrow> PublicTrade list \<Rightarrow> json" where
  "public_trades_json runId trades = JObject
     [(''schemaVersion'', JNumber 1), (''type'', JString ''publicTrades''), (''exchangeRunId'', quoted runId),
      (''trades'', JArray (map public_trade_json trades))]"

definition private_result_json :: "ExchangeRunId \<Rightarrow> RecipientResult \<Rightarrow> json" where
  "private_result_json runId res = JObject
     ([(''schemaVersion'', JNumber 1), (''type'', JString ''privateResult''), (''exchangeRunId'', quoted runId),
       (''recipientClientId'', quoted (recipient res))] @
      (case rr_correlation res of None \<Rightarrow> [] | Some c \<Rightarrow> [(''correlation'', correlation_json c)]) @
      [(''events'', JArray (map private_event_json (privateResult res)))])"

section \<open>The texts of the objects\<close>

definition plain_char :: "char \<Rightarrow> bool" where
  "plain_char c \<longleftrightarrow> c \<noteq> CHR 0x22 \<and> c \<noteq> CHR 0x5C \<and> 0x20 \<le> (of_char c :: nat) \<and> (of_char c :: nat) < 0x7f"

lemma json_string_plain: "list_all plain_char s \<Longrightarrow> json_string s = [CHR 0x22] @ s @ [CHR 0x22]"
proof -
  have "json_char c = [c]" if "plain_char c" for c
    using that by (auto simp: json_char_def appendJsonCharacter_def plain_char_def Let_def)
  then have "list_all plain_char s \<Longrightarrow> concat (map json_char s) = s"
    by (induction s) simp_all
  then show "list_all plain_char s \<Longrightarrow> json_string s = [CHR 0x22] @ s @ [CHR 0x22]"
    by (simp add: json_string_def)
qed

lemma plain_digits: "list_all plain_char (to_string n)"
  using to_string_digits [of n] by (auto simp: list_all_iff is_digit_def plain_char_def)

lemma json_string_digits: "json_string (to_string n) = [CHR 0x22] @ to_string n @ [CHR 0x22]"
  by (rule json_string_plain [OF plain_digits])

lemma appendQuotedUnsigned_json: "appendQuotedUnsigned output v = output @ json_text (quoted v)"
  by (simp add: appendQuotedUnsigned_def appendUnsigned_def quoted_def json_string_digits)

lemma json_text_quoted: "json_text (quoted v) = json_string (to_string (unat v))"
  by (simp add: quoted_def)

lemma appendUnsigned_json: "appendUnsigned output (ucast (v :: u32)) = output @ to_string (unat v)"
proof -
  have "unat (ucast v :: u64) = unat v"
    using unsigned_less [of v, where 'a = nat] by (simp add: unsigned_ucast_eq take_bit_nat_eq_self)
  then show ?thesis
    by (simp add: appendUnsigned_def)
qed

lemma member_plain:
  "list_all plain_char k \<Longrightarrow> member_text (k, v) = [CHR 0x22] @ k @ [CHR 0x22] @ '':'' @ json_text v"
  by (simp add: member_text_def json_string_plain)

lemma commas_simps:
  "commas [t] = t"
  "commas (t # u # ts) = t @ '','' @ commas (u # ts)"
  by simp_all

lemmas json_writing = appendQuotedUnsigned_json appendJsonString_json appendUnsigned_json

lemma appendEventId_json: "appendEventId output e = output @ json_text (event_id_json e)"
  by (simp add: appendEventId_def event_id_json_def json_text_object json_writing member_plain Let_def plain_char_def
      del: json_text.simps(4))

lemma enumName_Some:
  "enumName_Side s = Some t \<longleftrightarrow> (s = Side_BUY \<or> s = Side_SELL) \<and> t = side_text s"
  "enumName_TradeRole r = Some (role_text r)"
  "enumName_CommandType c = Some (command_type_text c)"
  "enumName_CancelReason x = Some (cancel_reason_text x)"
  "enumName_CommandRejectionReason y = Some (rejection_text y)"
  by (auto simp: enumName_Side_def enumName_TradeRole_def enumName_CommandType_def enumName_CancelReason_def
      enumName_CommandRejectionReason_def side_text_def role_text_def command_type_text_def cancel_reason_text_def
      rejection_text_def split: Side.splits TradeRole.splits CommandType.splits CancelReason.splits
      CommandRejectionReason.splits)

lemma side_text_plain:
  "list_all plain_char (side_text s)" "list_all plain_char (role_text r)"
  by (simp_all add: side_text_def role_text_def plain_char_def)

lemmas object_text = json_text_object member_plain json_writing appendEventId_json Let_def plain_char_def

lemma appendPublicTrade_json:
  "appendPublicTrade output t (side_text (aggressorSide t)) = output @ json_text (public_trade_json t)"
  by (simp add: appendPublicTrade_def public_trade_json_def object_text del: json_text.simps(4))

lemma to_string_one: "to_string (Suc 0) = ''1''"
proof -
  have "char_of (49 :: nat) = CHR ''1''"
    by code_simp
  then show ?thesis
    by (simp add: to_string.simps)
qed

lemma literal_text:
  "json_text (JString ''privateTrade'') = [CHR 0x22] @ ''privateTrade'' @ [CHR 0x22]"
  "json_text (JString ''orderRested'') = [CHR 0x22] @ ''orderRested'' @ [CHR 0x22]"
  "json_text (JString ''orderCancelled'') = [CHR 0x22] @ ''orderCancelled'' @ [CHR 0x22]"
  "json_text (JString ''commandRejected'') = [CHR 0x22] @ ''commandRejected'' @ [CHR 0x22]"
  "json_text (JString ''publicTrades'') = [CHR 0x22] @ ''publicTrades'' @ [CHR 0x22]"
  "json_text (JString ''privateResult'') = [CHR 0x22] @ ''privateResult'' @ [CHR 0x22]"
  "json_text (JNumber 1) = ''1''"
proof -
  show "json_text (JNumber 1) = ''1''"
    by (simp add: to_string_one)
qed (simp_all add: json_string_plain plain_char_def)

lemma appendPrivateTrade_json:
  "appendPrivateTrade output e (side_text (pt_side e)) (role_text (pt_role e)) =
     output @ json_text (private_event_json (PvTrade e))"
  by (simp add: appendPrivateTrade_def private_event_json_def object_text literal_text
      del: json_text.simps(1,2,4)) simp

lemma appendOrderRested_json:
  "appendOrderRested output e (side_text (or_side e)) = output @ json_text (private_event_json (PvOrderRested e))"
  by (simp add: appendOrderRested_def private_event_json_def object_text literal_text
      del: json_text.simps(1,2,4)) simp

lemma appendOrderCancelled_json:
  "appendOrderCancelled output e (cancel_reason_text (oc_reason e)) =
     output @ json_text (private_event_json (PvOrderCancelled e))"
  by (simp add: appendOrderCancelled_def private_event_json_def object_text literal_text
      del: json_text.simps(1,2,4)) simp

lemma appendCommandRejected_json:
  "appendCommandRejected output e (command_type_text (cr_commandType e)) (rejection_text (cr_reason e)) =
     output @ json_text (private_event_json (PvCommandRejected e))"
  by (cases "cr_relevantOrderId e")
     (simp_all add: appendCommandRejected_def private_event_json_def object_text literal_text
      del: json_text.simps(1,2,4), simp_all)

lemma appendCorrelation_json:
  "appendCorrelation output cor =
     output @ (case cor of None \<Rightarrow> [] | Some c \<Rightarrow> '','' @ member_text (''correlation'', correlation_json c))"
  by (cases cor) (simp_all add: appendCorrelation_def correlation_json_def object_text del: json_text.simps(4))

section \<open>Which results can be written\<close>

definition named_side :: "Side \<Rightarrow> bool" where
  "named_side s \<longleftrightarrow> s = Side_BUY \<or> s = Side_SELL"

text \<open>The events of a message belong to one command of the run.\<close>

definition public_consistent :: "ExchangeRunId \<Rightarrow> PublicTrade list \<Rightarrow> bool" where
  "public_consistent runId trades \<longleftrightarrow>
     trades \<noteq> [] \<and>
     (\<forall>t \<in> set trades. ev_exchangeRunId (pu_eventId t) = runId \<and>
        ev_commandSequence (pu_eventId t) = ev_commandSequence (pu_eventId (hd trades)) \<and> named_side (aggressorSide t))"

definition private_event_ok :: "ExchangeRunId \<Rightarrow> CommandSequence \<Rightarrow> ClientId \<Rightarrow> PrivateEvent \<Rightarrow> bool" where
  "private_event_ok runId commandSequence client event \<longleftrightarrow>
     ev_exchangeRunId (privateEventId event) = runId \<and> ev_commandSequence (privateEventId event) = commandSequence \<and>
     (case event of
        PvTrade e \<Rightarrow> named_side (pt_side e)
      | PvOrderRested e \<Rightarrow> or_clientId e = client \<and> named_side (or_side e)
      | PvOrderCancelled e \<Rightarrow> oc_clientId e = client
      | PvCommandRejected e \<Rightarrow> cr_clientId e = client)"

definition private_consistent :: "ExchangeRunId \<Rightarrow> RecipientResult \<Rightarrow> bool" where
  "private_consistent runId res \<longleftrightarrow>
     privateResult res \<noteq> [] \<and>
     (let commandSequence = ev_commandSequence (privateEventId (hd (privateResult res))) in
      (\<forall>event \<in> set (privateResult res). private_event_ok runId commandSequence (recipient res) event) \<and>
      (\<forall>c. rr_correlation res = Some c \<longrightarrow>
         co_exchangeRunId c = runId \<and> co_commandSequence c = commandSequence \<and> co_clientId c = recipient res))"

lemma publicTradesLoop_json:
  "publicTradesLoop runId commandSequence index trades serialized = Inr text' \<longleftrightarrow>
     (\<forall>t \<in> set trades. ev_exchangeRunId (pu_eventId t) = runId \<and> ev_commandSequence (pu_eventId t) = commandSequence \<and>
        named_side (aggressorSide t)) \<and>
     text' = serialized @ (if index \<noteq> 0 \<and> trades \<noteq> [] then '','' else []) @ commas (map (json_text \<circ> public_trade_json) trades)"
proof (induction trades arbitrary: index serialized)
  case (Cons t trades)
  show ?case
  proof (cases "named_side (aggressorSide t)")
    case True
    then have "enumName_Side (aggressorSide t) = Some (side_text (aggressorSide t))"
      by (auto simp: enumName_Some named_side_def)
    then show ?thesis
      using True Cons.IH by (cases trades) (auto simp: appendPublicTrade_json)
  next
    case False
    then have "enumName_Side (aggressorSide t) = None"
      by (cases "aggressorSide t") (simp_all add: enumName_Side_def named_side_def)
    then show ?thesis
      using False by auto
  qed
qed auto

lemma appendTypedEvent_json:
  "appendTypedEvent output event client = Inr text' \<longleftrightarrow>
     (case event of
        PvTrade e \<Rightarrow> named_side (pt_side e)
      | PvOrderRested e \<Rightarrow> or_clientId e = client \<and> named_side (or_side e)
      | PvOrderCancelled e \<Rightarrow> oc_clientId e = client
      | PvCommandRejected e \<Rightarrow> cr_clientId e = client) \<and>
     text' = output @ json_text (private_event_json event)"
proof -
  have side: "enumName_Side s = (if named_side s then Some (side_text s) else None)" for s
    by (cases s) (simp_all add: enumName_Side_def named_side_def side_text_def)
  show ?thesis
    by (cases event)
       (auto simp: appendTypedEvent_def side enumName_Some(2-5) appendPrivateTrade_json appendOrderRested_json
         appendOrderCancelled_json appendCommandRejected_json)
qed

lemma appendPrivateEvent_json:
  "appendPrivateEvent output event runId (Some commandSequence) client = Inr (text', sequence') \<longleftrightarrow>
     private_event_ok runId commandSequence client event \<and> sequence' = Some commandSequence \<and>
     text' = output @ json_text (private_event_json event)"
  by (auto simp: appendPrivateEvent_def Let_def bind_result_Inr_iff if_Inl_Inr_iff appendTypedEvent_json private_event_ok_def)

lemma commas_step: "commas (t # ts) = t @ (if ts = [] then [] else '','' @ commas ts)"
  by (cases ts) simp_all

lemma privateEventsLoop_json:
  "privateEventsLoop runId client index evs (Some commandSequence) serialized = Inr (text', sequence') \<longleftrightarrow>
     (\<forall>event \<in> set evs. private_event_ok runId commandSequence client event) \<and> sequence' = Some commandSequence \<and>
     text' = serialized @ (if index \<noteq> 0 \<and> evs \<noteq> [] then '','' else []) @ commas (map (json_text \<circ> private_event_json) evs)"
proof (induction evs arbitrary: index serialized)
  case (Cons event evs)
  show ?case
    by (auto simp: bind_result_Inr_iff appendPrivateEvent_json Cons.IH commas_step simp del: commas.simps(3))
qed auto

lemma privateEventsLoop_first:
  "evs \<noteq> [] \<Longrightarrow> privateEventsLoop runId client 0 evs None serialized =
     privateEventsLoop runId client 0 evs (Some (ev_commandSequence (privateEventId (hd evs)))) serialized"
  by (cases evs) (simp_all add: appendPrivateEvent_def Let_def)

lemma loop_errors:
  "publicTradesLoop runId commandSequence index trades serialized = Inl e \<Longrightarrow> e \<noteq> JE_NONE"
  "privateEventsLoop runId client index evs commandSequence' serialized = Inl e \<Longrightarrow> e \<noteq> JE_NONE"
proof -
  show "publicTradesLoop runId commandSequence index trades serialized = Inl e \<Longrightarrow> e \<noteq> JE_NONE"
    by (induction trades arbitrary: index serialized) (auto split: if_splits option.splits)
  have "appendPrivateEvent out' event runId s client = Inl e \<Longrightarrow> e \<noteq> JE_NONE" for out' event s
    by (auto simp: appendPrivateEvent_def appendTypedEvent_def Let_def bind_result_def
        split: if_splits option.splits sum.splits PrivateEvent.splits)
  then show "privateEventsLoop runId client index evs commandSequence' serialized = Inl e \<Longrightarrow> e \<noteq> JE_NONE"
    by (induction evs arbitrary: index serialized commandSequence')
       (auto simp: bind_result_def split: sum.splits)
qed

lemma serializePublic_json:
  "if public_consistent runId trades
   then serializePublicTradesV1 runId trades output = (JE_NONE, json_text (public_trades_json runId trades))
   else \<exists>e. e \<noteq> JE_NONE \<and> serializePublicTradesV1 runId trades output = (e, output)"
proof (cases "trades = []")
  case False
  define prefix where "prefix = ''{'' @ name_of ''schemaVersion'' @ ''1,'' @ name_of ''type'' @ [CHR 0x22] @ ''publicTrades'' @ [CHR 0x22] @
      '','' @ name_of ''exchangeRunId'' @ json_text (quoted runId) @ '','' @ name_of ''trades'' @ ''[''"
  let ?loop = "publicTradesLoop runId (ev_commandSequence (pu_eventId (hd trades))) 0 trades prefix"
  have whole: "json_text (public_trades_json runId trades) =
      prefix @ commas (map (json_text \<circ> public_trade_json) trades) @ '']}''"
    by (simp add: prefix_def public_trades_json_def object_text literal_text del: json_text.simps(1,2,4)) (simp add: to_string_one)
  have serial: "serializePublicTradesV1 runId trades output =
      (case ?loop of Inl e \<Rightarrow> (e, output) | Inr serialized \<Rightarrow> (JE_NONE, serialized @ '']}''))"
    using False by (simp add: prefix_def serializePublicTradesV1_def appendQuotedUnsigned_json)
  show ?thesis
  proof (cases ?loop)
    case (Inl e)
    have "\<not> public_consistent runId trades"
    proof
      assume "public_consistent runId trades"
      then have "?loop = Inr (prefix @ commas (map (json_text \<circ> public_trade_json) trades))"
        by (intro publicTradesLoop_json [THEN iffD2] conjI) (unfold public_consistent_def, blast, simp)
      then show False
        using Inl by simp
    qed
    then show ?thesis
      using serial Inl loop_errors(1) [OF Inl] by auto
  next
    case (Inr t)
    note loop = publicTradesLoop_json [THEN iffD1, OF Inr]
    have "public_consistent runId trades"
      using loop False unfolding public_consistent_def by blast
    moreover have "t = prefix @ commas (map (json_text \<circ> public_trade_json) trades)"
      using loop by simp
    ultimately show ?thesis
      using serial Inr whole by simp
  qed
qed (auto simp: serializePublicTradesV1_def public_consistent_def)

lemma serializePrivate_json:
  "if private_consistent runId res
   then serializePrivateResultV1 runId res output = (JE_NONE, json_text (private_result_json runId res))
   else \<exists>e. e \<noteq> JE_NONE \<and> serializePrivateResultV1 runId res output = (e, output)"
proof (cases "privateResult res = []")
  case False
  let ?sequence = "ev_commandSequence (privateEventId (hd (privateResult res)))"
  define prefix where "prefix = ''{'' @ name_of ''schemaVersion'' @ ''1,'' @ name_of ''type'' @ [CHR 0x22] @ ''privateResult'' @ [CHR 0x22] @
      '','' @ name_of ''exchangeRunId'' @ json_text (quoted runId) @ '','' @ name_of ''recipientClientId'' @
      json_text (quoted (recipient res)) @
      (case rr_correlation res of None \<Rightarrow> [] | Some c \<Rightarrow> '','' @ member_text (''correlation'', correlation_json c)) @
      '','' @ name_of ''events'' @ ''[''"
  let ?loop = "privateEventsLoop runId (recipient res) 0 (privateResult res) (Some ?sequence) prefix"
  have whole: "json_text (private_result_json runId res) =
      prefix @ commas (map (json_text \<circ> private_event_json) (privateResult res)) @ '']}''"
    by (cases "rr_correlation res")
       (simp_all add: prefix_def private_result_json_def object_text literal_text del: json_text.simps(1,2,4), simp_all add: to_string_one)
  have serial: "serializePrivateResultV1 runId res output =
      (case ?loop of
         Inl e \<Rightarrow> (e, output)
       | Inr (serialized, commandSequence) \<Rightarrow>
           case rr_correlation res of
             None \<Rightarrow> (JE_NONE, serialized @ '']}'')
           | Some c \<Rightarrow>
               if co_exchangeRunId c \<noteq> runId \<or> Some (co_commandSequence c) \<noteq> commandSequence
               then (JE_CORRELATION_MISMATCH, output)
               else if co_clientId c \<noteq> recipient res then (JE_RECIPIENT_MISMATCH, output)
               else (JE_NONE, serialized @ '']}''))"
    using False
    by (simp add: prefix_def serializePrivateResultV1_def appendQuotedUnsigned_json appendCorrelation_json privateEventsLoop_first)
  show ?thesis
  proof (cases ?loop)
    case (Inl e)
    have "\<not> private_consistent runId res"
    proof
      assume "private_consistent runId res"
      then have "?loop = Inr (prefix @ commas (map (json_text \<circ> private_event_json) (privateResult res)), Some ?sequence)"
        by (intro privateEventsLoop_json [THEN iffD2] conjI) (unfold private_consistent_def Let_def, blast, simp_all)
      then show False
        using Inl by simp
    qed
    then show ?thesis
      using serial Inl loop_errors(2) [OF Inl] by auto
  next
    case (Inr r)
    then obtain t q where r: "?loop = Inr (t, q)" by (cases r) auto
    note loop = privateEventsLoop_json [THEN iffD1, OF r]
    define bound where "bound \<longleftrightarrow> (\<forall>c. rr_correlation res = Some c \<longrightarrow>
      co_exchangeRunId c = runId \<and> co_commandSequence c = ?sequence \<and> co_clientId c = recipient res)"
    have "private_consistent runId res \<longleftrightarrow> bound"
      using loop False unfolding private_consistent_def Let_def bound_def by blast
    moreover have "t = prefix @ commas (map (json_text \<circ> private_event_json) (privateResult res))" "q = Some ?sequence"
      using loop by simp_all
    ultimately show ?thesis
      using serial r whole by (cases "rr_correlation res") (auto simp: bound_def)
  qed
qed (auto simp: serializePrivateResultV1_def private_consistent_def)

section \<open>Reading a message back\<close>

definition json_field :: "string \<Rightarrow> json \<Rightarrow> json option" where
  "json_field k j = (case j of JObject ms \<Rightarrow> map_of ms k | _ \<Rightarrow> None)"

definition read_u64 :: "json \<Rightarrow> u64 option" where
  "read_u64 j =
     (case j of
        JString s \<Rightarrow>
          if s \<noteq> [] \<and> list_all is_digit s \<and> decimal_value s < 2 ^ 64 then Some (of_nat (decimal_value s)) else None
      | _ \<Rightarrow> None)"

definition read_u32 :: "json \<Rightarrow> u32 option" where
  "read_u32 j = (case j of JNumber n \<Rightarrow> if n < 2 ^ 32 then Some (of_nat n) else None | _ \<Rightarrow> None)"

definition read_text :: "json \<Rightarrow> string option" where
  "read_text j = (case j of JString s \<Rightarrow> Some s | _ \<Rightarrow> None)"

definition read_array :: "json \<Rightarrow> json list option" where
  "read_array j = (case j of JArray vs \<Rightarrow> Some vs | _ \<Rightarrow> None)"

abbreviation field_u64 :: "string \<Rightarrow> json \<Rightarrow> u64 option" where
  "field_u64 k j \<equiv> Option.bind (json_field k j) read_u64"

abbreviation field_text :: "string \<Rightarrow> json \<Rightarrow> string option" where
  "field_text k j \<equiv> Option.bind (json_field k j) read_text"

text \<open>An enumerator by its name.\<close>

definition side_named :: "string \<Rightarrow> Side option" where
  "side_named = map_of [(''BUY'', Side_BUY), (''SELL'', Side_SELL)]"

definition role_named :: "string \<Rightarrow> TradeRole option" where
  "role_named = map_of [(''MAKER'', MAKER), (''TAKER'', TAKER)]"

definition command_type_named :: "string \<Rightarrow> CommandType option" where
  "command_type_named = map_of [(''NEW_ORDER'', NEW_ORDER), (''CANCEL'', CommandType_CANCEL)]"

definition cancel_reason_named :: "string \<Rightarrow> CancelReason option" where
  "cancel_reason_named = map_of [(''CLIENT_REQUESTED'', CLIENT_REQUESTED), (''IOC_REMAINDER'', IOC_REMAINDER)]"

definition rejection_named :: "string \<Rightarrow> CommandRejectionReason option" where
  "rejection_named = map_of [(''ORDER_NOT_ACTIVE'', ORDER_NOT_ACTIVE), (''NOT_OWNER'', NOT_OWNER),
     (''BOOK_CAPACITY_EXCEEDED'', BOOK_CAPACITY_EXCEEDED)]"

definition read_command_id :: "string \<Rightarrow> ClientCommandId option" where
  "read_command_id s =
     (case make_ClientCommandId (map (\<lambda>c. of_nat (of_char c)) s) of Inl _ \<Rightarrow> None | Inr c \<Rightarrow> Some c)"

definition read_event_id :: "json \<Rightarrow> EventId option" where
  "read_event_id j = do {
     runId \<leftarrow> field_u64 ''exchangeRunId'' j;
     commandSequence \<leftarrow> field_u64 ''commandSequence'' j;
     index \<leftarrow> Option.bind (json_field ''eventIndex'' j) read_u32;
     Some \<lparr>ev_commandSequence = commandSequence, ev_eventIndex = index, ev_exchangeRunId = runId\<rparr> }"

definition read_public_trade :: "json \<Rightarrow> PublicTrade option" where
  "read_public_trade j = do {
     e \<leftarrow> Option.bind (json_field ''eventId'' j) read_event_id;
     instrument \<leftarrow> field_u64 ''instrumentId'' j;
     p \<leftarrow> field_u64 ''executionPrice'' j;
     q \<leftarrow> field_u64 ''executionQuantity'' j;
     s \<leftarrow> Option.bind (field_text ''aggressorSide'' j) side_named;
     Some \<lparr>pu_eventId = e, pu_instrumentId = instrument, pu_executionPrice = p, pu_executionQuantity = q,
           aggressorSide = s\<rparr> }"

definition read_private_trade :: "json \<Rightarrow> PrivateTrade option" where
  "read_private_trade j = do {
     e \<leftarrow> Option.bind (json_field ''eventId'' j) read_event_id;
     instrument \<leftarrow> field_u64 ''instrumentId'' j;
     number \<leftarrow> field_u64 ''orderId'' j;
     s \<leftarrow> Option.bind (field_text ''side'' j) side_named;
     r \<leftarrow> Option.bind (field_text ''role'' j) role_named;
     p \<leftarrow> field_u64 ''executionPrice'' j;
     q \<leftarrow> field_u64 ''executionQuantity'' j;
     remaining \<leftarrow> field_u64 ''remainingQuantity'' j;
     Some \<lparr>pt_eventId = e, pt_instrumentId = instrument, pt_orderId = number, pt_side = s, pt_role = r,
           pt_executionPrice = p, pt_executionQuantity = q, pt_remainingQuantity = remaining\<rparr> }"

definition read_order_rested :: "json \<Rightarrow> OrderRested option" where
  "read_order_rested j = do {
     e \<leftarrow> Option.bind (json_field ''eventId'' j) read_event_id;
     number \<leftarrow> field_u64 ''orderId'' j;
     client \<leftarrow> field_u64 ''clientId'' j;
     instrument \<leftarrow> field_u64 ''instrumentId'' j;
     s \<leftarrow> Option.bind (field_text ''side'' j) side_named;
     p \<leftarrow> field_u64 ''price'' j;
     remaining \<leftarrow> field_u64 ''remainingQuantity'' j;
     Some \<lparr>or_eventId = e, or_orderId = number, or_clientId = client, or_instrumentId = instrument, or_side = s,
           or_price = p, or_remainingQuantity = remaining\<rparr> }"

definition read_order_cancelled :: "json \<Rightarrow> OrderCancelled option" where
  "read_order_cancelled j = do {
     e \<leftarrow> Option.bind (json_field ''eventId'' j) read_event_id;
     number \<leftarrow> field_u64 ''orderId'' j;
     client \<leftarrow> field_u64 ''clientId'' j;
     instrument \<leftarrow> field_u64 ''instrumentId'' j;
     q \<leftarrow> field_u64 ''cancelledQuantity'' j;
     r \<leftarrow> Option.bind (field_text ''reason'' j) cancel_reason_named;
     Some \<lparr>oc_eventId = e, oc_orderId = number, oc_clientId = client, oc_instrumentId = instrument,
           cancelledQuantity = q, oc_reason = r\<rparr> }"

text \<open>A member that may be missing.\<close>

definition read_optional :: "(json \<Rightarrow> 'a option) \<Rightarrow> json option \<Rightarrow> 'a option option" where
  "read_optional f m = (case m of None \<Rightarrow> Some None | Some j \<Rightarrow> map_option Some (f j))"

definition read_command_rejected :: "json \<Rightarrow> CommandRejected option" where
  "read_command_rejected j = do {
     e \<leftarrow> Option.bind (json_field ''eventId'' j) read_event_id;
     c \<leftarrow> Option.bind (field_text ''commandType'' j) command_type_named;
     client \<leftarrow> field_u64 ''clientId'' j;
     commandId \<leftarrow> Option.bind (field_text ''clientCommandId'' j) read_command_id;
     relevant \<leftarrow> read_optional read_u64 (json_field ''relevantOrderId'' j);
     r \<leftarrow> Option.bind (field_text ''reason'' j) rejection_named;
     Some \<lparr>cr_eventId = e, cr_commandType = c, cr_clientId = client, cr_clientCommandId = commandId,
           cr_relevantOrderId = relevant, cr_reason = r\<rparr> }"

definition read_private_event :: "json \<Rightarrow> PrivateEvent option" where
  "read_private_event j = do {
     t \<leftarrow> field_text ''type'' j;
     if t = ''privateTrade'' then map_option PvTrade (read_private_trade j)
     else if t = ''orderRested'' then map_option PvOrderRested (read_order_rested j)
     else if t = ''orderCancelled'' then map_option PvOrderCancelled (read_order_cancelled j)
     else if t = ''commandRejected'' then map_option PvCommandRejected (read_command_rejected j)
     else None }"

definition read_correlation :: "json \<Rightarrow> CommandResultCorrelation option" where
  "read_correlation j = do {
     runId \<leftarrow> field_u64 ''exchangeRunId'' j;
     client \<leftarrow> field_u64 ''clientId'' j;
     commandId \<leftarrow> Option.bind (field_text ''clientCommandId'' j) read_command_id;
     commandSequence \<leftarrow> field_u64 ''commandSequence'' j;
     Some \<lparr>co_clientId = client, co_clientCommandId = commandId, co_commandSequence = commandSequence,
           co_exchangeRunId = runId\<rparr> }"

definition read_all :: "('a \<Rightarrow> 'b option) \<Rightarrow> 'a list \<Rightarrow> 'b list option" where
  "read_all f xs = those (map f xs)"

definition read_public_trades :: "json \<Rightarrow> (ExchangeRunId \<times> PublicTrade list) option" where
  "read_public_trades j = do {
     t \<leftarrow> field_text ''type'' j;
     if t = ''publicTrades'' then do {
       runId \<leftarrow> field_u64 ''exchangeRunId'' j;
       trades \<leftarrow> Option.bind (Option.bind (json_field ''trades'' j) read_array) (read_all read_public_trade);
       Some (runId, trades) }
     else None }"

definition read_private_result :: "json \<Rightarrow> (ExchangeRunId \<times> RecipientResult) option" where
  "read_private_result j = do {
     t \<leftarrow> field_text ''type'' j;
     if t = ''privateResult'' then do {
       runId \<leftarrow> field_u64 ''exchangeRunId'' j;
       client \<leftarrow> field_u64 ''recipientClientId'' j;
       cor \<leftarrow> read_optional read_correlation (json_field ''correlation'' j);
       evs \<leftarrow> Option.bind (Option.bind (json_field ''events'' j) read_array) (read_all read_private_event);
       Some (runId, \<lparr>recipient = client, rr_correlation = cor, privateResult = evs\<rparr>) }
     else None }"

section \<open>Nothing is lost\<close>

lemma read_u64_quoted: "read_u64 (quoted v) = Some v"
  using to_string_digits [of "unat v"] unsigned_less [of v, where 'a = nat]
  by (simp add: read_u64_def quoted_def decimal_value_to_string)

lemma read_u32_number: "read_u32 (JNumber (unat v)) = Some v"
  using unsigned_less [of v, where 'a = nat] by (simp add: read_u32_def)

lemma read_names [simp]:
  "named_side s \<Longrightarrow> side_named (side_text s) = Some s"
  "role_named (role_text r) = Some r"
  "command_type_named (command_type_text c) = Some c"
  "cancel_reason_named (cancel_reason_text x) = Some x"
  "rejection_named (rejection_text y) = Some y"
proof -
  show "named_side s \<Longrightarrow> side_named (side_text s) = Some s"
    by (auto simp: named_side_def side_named_def side_text_def)
  show "role_named (role_text r) = Some r"
    by (cases r) (simp_all add: role_named_def role_text_def)
  show "command_type_named (command_type_text c) = Some c"
    by (cases c) (simp_all add: command_type_named_def command_type_text_def)
  show "cancel_reason_named (cancel_reason_text x) = Some x"
    by (cases x) (simp_all add: cancel_reason_named_def cancel_reason_text_def)
  show "rejection_named (rejection_text y) = Some y"
    by (cases y) (simp_all add: rejection_named_def rejection_text_def)
qed

lemma read_command_id_text: "valid_ClientCommandId c \<Longrightarrow> read_command_id (command_id_text c) = Some c"
proof -
  have "(of_nat (of_char (char_of (unat b))) :: u8) = b" for b :: u8
    using unsigned_less [of b, where 'a = nat] by simp
  then have "map (\<lambda>c. of_nat (of_char c)) (command_id_text c) = ClientCommandId_value c"
    by (simp add: command_id_text_def comp_def)
  then show "valid_ClientCommandId c \<Longrightarrow> read_command_id (command_id_text c) = Some c"
    by (simp add: read_command_id_def valid_ClientCommandId_def)
qed

lemmas reading = json_field_def read_u64_quoted read_u32_number read_text_def read_array_def read_optional_def
  read_command_id_text

lemma read_event_id_json: "read_event_id (event_id_json e) = Some e"
  by (simp add: read_event_id_def event_id_json_def reading)

lemma read_public_trade_json:
  "named_side (aggressorSide t) \<Longrightarrow> read_public_trade (public_trade_json t) = Some t"
  by (simp add: read_public_trade_def public_trade_json_def reading read_event_id_json)

definition valid_ids :: "PrivateEvent \<Rightarrow> bool" where
  "valid_ids event \<longleftrightarrow> (case event of PvCommandRejected e \<Rightarrow> valid_ClientCommandId (cr_clientCommandId e) | _ \<Rightarrow> True)"

lemma read_private_event_json:
  assumes "private_event_ok runId commandSequence client event" and "valid_ids event"
  shows "read_private_event (private_event_json event) = Some event"
proof (cases event)
  case (PvTrade e)
  then show ?thesis
    using assms by (simp add: private_event_ok_def read_private_event_def read_private_trade_def private_event_json_def
        reading read_event_id_json)
next
  case (PvOrderRested e)
  then show ?thesis
    using assms by (simp add: private_event_ok_def read_private_event_def read_order_rested_def private_event_json_def
        reading read_event_id_json)
next
  case (PvOrderCancelled e)
  then show ?thesis
    using assms by (simp add: private_event_ok_def read_private_event_def read_order_cancelled_def private_event_json_def
        reading read_event_id_json)
next
  case (PvCommandRejected e)
  then show ?thesis
    using assms by (cases "cr_relevantOrderId e")
      (simp_all add: private_event_ok_def valid_ids_def read_private_event_def read_command_rejected_def
        private_event_json_def reading read_event_id_json)
qed

lemma read_all_map: "\<forall>x \<in> set xs. f (g x) = Some x \<Longrightarrow> read_all f (map g xs) = Some xs"
  by (induction xs) (simp_all add: read_all_def)

lemma read_public_trades_json:
  "public_consistent runId trades \<Longrightarrow> read_public_trades (public_trades_json runId trades) = Some (runId, trades)"
  by (simp add: read_public_trades_def public_trades_json_def reading public_consistent_def read_all_map
      read_public_trade_json)

definition readable_result :: "RecipientResult \<Rightarrow> bool" where
  "readable_result res \<longleftrightarrow>
     list_all valid_ids (privateResult res) \<and>
     (case rr_correlation res of None \<Rightarrow> True | Some c \<Rightarrow> valid_ClientCommandId (co_clientCommandId c))"

lemma read_private_result_json:
  assumes "private_consistent runId res" and "readable_result res"
  shows "read_private_result (private_result_json runId res) = Some (runId, res)"
proof -
  have evs: "read_all read_private_event (map private_event_json (privateResult res)) = Some (privateResult res)"
    using assms by (intro read_all_map)
      (auto simp: private_consistent_def Let_def readable_result_def list_all_iff intro: read_private_event_json)
  have "read_correlation (correlation_json c) = Some c" if "rr_correlation res = Some c" for c
    using that assms(2) by (simp add: read_correlation_def correlation_json_def reading readable_result_def)
  then show ?thesis
    using evs by (cases "rr_correlation res")
      (simp_all add: read_private_result_def private_result_json_def reading)
qed

end
