(* ===== verification/Message_Sizes.thy ===== *)
theory Message_Sizes
  imports Event_Gateway Event_Messages
begin

text \<open>
  How long the messages of the event stream can be: the byte counts of \<open>Event_Gateway\<close> bound the texts of
  \<open>Event_Messages\<close>, field by field, for the results of one command.
\<close>

section \<open>The constants\<close>

lemmas bytes_def = checkedBytesSum_def checkedBytesAdd_def checkedBytesMultiply_def literalBytes_def SIZE_MAX_def

lemma basic_bytes [simp]:
  "MAX_AUTHORITATIVE_EVENTS_PER_COMMAND = 4096" "MAX_PRIVATE_EVENTS_PER_COMMAND = 8192" "QUOTED_UINT64_BYTES = 22"
  "CONTROLLER_EVENT_INDEX_BYTES = 4" "MAX_ESCAPED_CLIENT_COMMAND_ID_BYTES = 386"
  by (simp_all add: MAX_AUTHORITATIVE_EVENTS_PER_COMMAND_def MAX_PRIVATE_EVENTS_PER_COMMAND_def QUOTED_UINT64_BYTES_def
      CONTROLLER_EVENT_INDEX_BYTES_def MAX_ESCAPED_CLIENT_COMMAND_ID_BYTES_def MAX_LENGTH_def bytes_def)

lemma event_id_bytes [simp]: "EVENT_ID_BYTES = 99"
  by (simp add: EVENT_ID_BYTES_def bytes_def)

lemma event_bytes [simp]:
  "PRIVATE_TRADE_BYTES = 359" "ORDER_RESTED_BYTES = 325" "ORDER_CANCELLED_BYTES = 311" "COMMAND_REJECTED_BYTES = 676"
  "PUBLIC_TRADE_BYTES = 255"
  by (simp_all add: PRIVATE_TRADE_BYTES_def ORDER_RESTED_BYTES_def ORDER_CANCELLED_BYTES_def COMMAND_REJECTED_BYTES_def
      PUBLIC_TRADE_BYTES_def bytes_def)

lemma envelope_bytes [simp]:
  "TWO_PRIVATE_TRADES_BYTES = 719" "PRIVATE_ENVELOPE_FIXED_BYTES = 671" "PUBLIC_ENVELOPE_FIXED_BYTES = 92"
  by (simp_all add: TWO_PRIVATE_TRADES_BYTES_def PRIVATE_ENVELOPE_FIXED_BYTES_def PUBLIC_ENVELOPE_FIXED_BYTES_def bytes_def)

lemma handoff_bytes [simp]:
  "MAX_PRIVATE_HANDOFF_MESSAGE_BYTES = 2949790" "MAX_PUBLIC_HANDOFF_MESSAGE_BYTES = 1048667"
  "MIN_APPLICATION_GATEWAY_OUTBOUND_CAPACITY_V1 = 2949790"
  by (simp_all add: MAX_PRIVATE_HANDOFF_MESSAGE_BYTES_def MAX_PUBLIC_HANDOFF_MESSAGE_BYTES_def
      MIN_APPLICATION_GATEWAY_OUTBOUND_CAPACITY_V1_def MIN_OUTBOUND_CAPACITY_def bytes_def)

text \<open>The static assertions of the source.\<close>

lemma static_assertions:
  "ORDER_RESTED_BYTES \<le> TWO_PRIVATE_TRADES_BYTES" "ORDER_CANCELLED_BYTES \<le> TWO_PRIVATE_TRADES_BYTES"
  "COMMAND_REJECTED_BYTES \<le> TWO_PRIVATE_TRADES_BYTES"
  by simp_all

section \<open>Fields\<close>

lemma length_quoted: "length (json_text (quoted v)) \<le> 22"
proof -
  have "unat v < 10 ^ Suc 19"
    using unsigned_less [of v, where 'a = nat] by simp
  from length_to_string [OF this] show ?thesis
    by (simp add: json_text_quoted json_string_digits)
qed

lemma length_index: "unat (i :: u32) < 4096 \<Longrightarrow> length (json_text (JNumber (unat i))) \<le> 4"
  using length_to_string [of "unat i" 3] by simp

lemma length_side: "length (json_text (JString (side_text s))) \<le> 6" "length (json_text (JString (role_text r))) \<le> 7"
  by (simp_all add: json_string_plain side_text_plain) (simp_all add: side_text_def role_text_def)

lemma length_reasons:
  "length (json_text (JString (command_type_text c))) \<le> 11"
  "length (json_text (JString (cancel_reason_text x))) \<le> 18"
  "length (json_text (JString (rejection_text y))) \<le> 24"
  by (simp_all add: json_string_plain plain_char_def command_type_text_def cancel_reason_text_def rejection_text_def)

lemma length_json_string: "length (json_string s) \<le> 2 + 6 * length s"
proof -
  have "length (json_char c) \<le> 6" for c
    by (simp add: json_char_def appendJsonCharacter_def Let_def)
  then have "length (concat (map json_char s)) \<le> 6 * length s"
    by (induction s) (simp_all add: add_mono)
  then show ?thesis
    by (simp add: json_string_def)
qed

lemma length_command_id:
  assumes "valid_ClientCommandId c"
  shows "length (json_text (JString (command_id_text c))) \<le> 386"
proof -
  have "length (ClientCommandId_value c) \<le> 64"
    using assms
    by (auto simp: valid_ClientCommandId_def make_ClientCommandId_def MAX_LENGTH_def split: if_splits)
  then show ?thesis
    using length_json_string [of "command_id_text c"] by (simp add: command_id_text_def)
qed

lemma length_one: "length (json_text (JNumber (Suc 0))) = 1"
  by (simp add: to_string_one)

section \<open>Events\<close>

lemmas object_length = json_text_object member_plain plain_char_def

lemma length_event_id: "unat (ev_eventIndex e) < 4096 \<Longrightarrow> length (json_text (event_id_json e)) \<le> 99"
  using length_quoted [of "ev_exchangeRunId e"] length_quoted [of "ev_commandSequence e"] length_index [of "ev_eventIndex e"]
  by (simp add: event_id_json_def object_length del: json_text.simps)

lemma length_public_trade:
  "unat (ev_eventIndex (pu_eventId t)) < 4096 \<Longrightarrow> length (json_text (public_trade_json t)) \<le> PUBLIC_TRADE_BYTES"
  using length_event_id [of "pu_eventId t"] length_quoted [of "pu_instrumentId t"] length_quoted [of "pu_executionPrice t"]
    length_quoted [of "pu_executionQuantity t"] length_side(1) [of "aggressorSide t"]
  by (simp add: public_trade_json_def object_length del: json_text.simps)

lemma length_private_event:
  assumes "unat (ev_eventIndex (privateEventId event)) < 4096" and "valid_ids event"
  shows "length (json_text (private_event_json event)) \<le>
    (case event of PvTrade e \<Rightarrow> PRIVATE_TRADE_BYTES | PvOrderRested e \<Rightarrow> ORDER_RESTED_BYTES
     | PvOrderCancelled e \<Rightarrow> ORDER_CANCELLED_BYTES | PvCommandRejected e \<Rightarrow> COMMAND_REJECTED_BYTES)"
proof (cases event)
  case (PvTrade e)
  then show ?thesis
    using assms(1) length_event_id [of "pt_eventId e"] length_quoted [of "pt_instrumentId e"] length_quoted [of "pt_orderId e"]
      length_side(1) [of "pt_side e"] length_side(2) [of "pt_role e"] length_quoted [of "pt_executionPrice e"]
      length_quoted [of "pt_executionQuantity e"] length_quoted [of "pt_remainingQuantity e"]
    by (simp add: private_event_json_def object_length literal_text del: json_text.simps)
next
  case (PvOrderRested e)
  then show ?thesis
    using assms(1) length_event_id [of "or_eventId e"] length_quoted [of "or_instrumentId e"] length_quoted [of "or_orderId e"]
      length_side(1) [of "or_side e"] length_quoted [of "or_clientId e"] length_quoted [of "or_price e"]
      length_quoted [of "or_remainingQuantity e"]
    by (simp add: private_event_json_def object_length literal_text del: json_text.simps)
next
  case (PvOrderCancelled e)
  then show ?thesis
    using assms(1) length_event_id [of "oc_eventId e"] length_quoted [of "oc_instrumentId e"] length_quoted [of "oc_orderId e"]
      length_reasons(2) [of "oc_reason e"] length_quoted [of "oc_clientId e"] length_quoted [of "cancelledQuantity e"]
    by (simp add: private_event_json_def object_length literal_text del: json_text.simps)
next
  case (PvCommandRejected e)
  moreover have "case cr_relevantOrderId e of None \<Rightarrow> True | Some i \<Rightarrow> length (json_text (quoted i)) \<le> 22"
    using length_quoted by (simp split: option.splits)
  ultimately show ?thesis
    using assms length_event_id [of "cr_eventId e"] length_reasons(1) [of "cr_commandType e"] length_quoted [of "cr_clientId e"]
      length_command_id [of "cr_clientCommandId e"] length_reasons(3) [of "cr_reason e"]
    by (cases "cr_relevantOrderId e")
      (simp_all add: private_event_json_def object_length literal_text valid_ids_def del: json_text.simps)
qed

section \<open>Messages\<close>

text \<open>A list of elements with one separator for each.\<close>

definition listed :: "string list \<Rightarrow> nat" where
  "listed ts = sum_list (map (\<lambda>t. length t + 1) ts)"

lemma listed_simps [simp]:
  "listed [] = 0" "listed (t # ts) = length t + 1 + listed ts" "listed (ts @ us) = listed ts + listed us"
  by (simp_all add: listed_def)

lemma length_commas: "length (commas ts) = listed ts - 1"
  by (induction ts rule: commas.induct) simp_all

lemma listed_bound: "\<forall>t \<in> set ts. length t \<le> b \<Longrightarrow> listed ts \<le> length ts * (b + 1)"
  by (induction ts) auto

lemma length_array: "length (json_text (JArray vs)) = listed (map json_text vs) - 1 + 2"
  by (simp add: length_commas)

lemma length_public_message:
  assumes "length trades \<le> 4096" and "\<forall>t \<in> set trades. unat (ev_eventIndex (pu_eventId t)) < 4096"
  shows "length (json_text (public_trades_json runId trades)) \<le> MAX_PUBLIC_HANDOFF_MESSAGE_BYTES"
proof -
  have "listed (map json_text (map public_trade_json trades)) \<le> length (map json_text (map public_trade_json trades)) * (255 + 1)"
    using assms(2) length_public_trade by (intro listed_bound) auto
  then have "listed (map (json_text \<circ> public_trade_json) trades) \<le> 4096 * 256"
    using assms(1) by simp
  then show ?thesis
    using length_quoted [of runId]
    by (simp add: public_trades_json_def object_length literal_text length_one length_array del: json_text.simps)
qed

text \<open>The events that one event of a command gives a recipient: two trades, or one event that is shorter.\<close>

lemma listed_view:
  assumes "unat (ev_eventIndex (eventId_of event)) < 4096"
    and "case event of EvCommandRejected e \<Rightarrow> valid_ClientCommandId (cr_clientCommandId e) | _ \<Rightarrow> True"
  shows "listed (map (json_text \<circ> private_event_json) (private_view client event)) \<le> TWO_PRIVATE_TRADES_BYTES + 1"
proof -
  have "\<forall>p \<in> set (private_view client event). unat (ev_eventIndex (privateEventId p)) < 4096 \<and> valid_ids p"
    using assms by (cases event) (auto simp: private_view_def valid_ids_def maker_trade_def taker_trade_def)
  then have "\<forall>p \<in> set (private_view client event). length (json_text (private_event_json p)) \<le>
    (case p of PvTrade e \<Rightarrow> 359 | PvOrderRested e \<Rightarrow> 325 | PvOrderCancelled e \<Rightarrow> 311 | PvCommandRejected e \<Rightarrow> 676)"
    using length_private_event by (auto cong: PrivateEvent.case_cong)
  then show ?thesis
    by (cases event) (auto simp: private_view_def)
qed

lemma length_private_message:
  assumes few: "length evs \<le> 4096" and ids: "\<forall>e \<in> set evs. unat (ev_eventIndex (eventId_of e)) < 4096"
    and valid: "\<forall>e \<in> set evs. case e of EvCommandRejected r \<Rightarrow> valid_ClientCommandId (cr_clientCommandId r) | _ \<Rightarrow> True"
    and cor: "valid_ClientCommandId (co_clientCommandId (correlation batch))"
  shows "length (json_text (private_result_json runId (recipient_view batch evs client))) \<le> MAX_PRIVATE_HANDOFF_MESSAGE_BYTES"
proof -
  have "listed (map (json_text \<circ> private_event_json) (concat (map (private_view client) es))) \<le> length es * 720"
    if "set es \<subseteq> set evs" for es
    using that
  proof (induction es)
    case (Cons e es)
    then show ?case
      using listed_view [of e client] ids valid by (simp add: comp_def)
  qed simp
  from this [of evs] have "listed (map (json_text \<circ> private_event_json) (concat (map (private_view client) evs))) \<le> 4096 * 720"
    using few by simp
  moreover have "length (json_text (correlation_json (correlation batch))) \<le> 520"
    using length_command_id [OF cor] length_quoted [of "co_exchangeRunId (correlation batch)"]
      length_quoted [of "co_clientId (correlation batch)"] length_quoted [of "co_commandSequence (correlation batch)"]
    by (simp add: correlation_json_def object_length del: json_text.simps)
  ultimately show ?thesis
    using length_quoted [of runId] length_quoted [of client]
    by (cases "client = co_clientId (correlation batch)")
      (simp_all add: private_result_json_def recipient_view_def object_length literal_text length_one length_array
        del: json_text.simps)
qed

end
