(* ===== verification/Gateway_Runs.thy ===== *)
theory Gateway_Runs
  imports Message_Sizes
begin

text \<open>
  Sequences of operations of the event gateway. Every connection accounts for the bytes of its queue and stays within
  its capacity, a client has at most one connection to a run, and a message is queued only where it may be seen. The
  gateway is one side of the contract with the controller: whatever the queues of the controller hand over, these facts
  hold.
\<close>

section \<open>Who may see a message\<close>

text \<open>What a client reads in a message: the run, and for a private result the recipient.\<close>

definition addressed :: "ClientId \<Rightarrow> ExchangeRunId \<Rightarrow> string \<Rightarrow> bool" where
  "addressed client runId message \<longleftrightarrow>
     (case read_json message of
        None \<Rightarrow> False
      | Some j \<Rightarrow> field_u64 ''exchangeRunId'' j = Some runId \<and>
          (field_text ''type'' j = Some ''publicTrades'' \<or>
           field_text ''type'' j = Some ''privateResult'' \<and> field_u64 ''recipientClientId'' j = Some client))"

lemma addressed_public: "addressed client runId (json_text (public_trades_json runId trades))"
  unfolding addressed_def read_json_text by (simp add: public_trades_json_def reading)

lemma addressed_private: "addressed (recipient r) runId (json_text (private_result_json runId r))"
  unfolding addressed_def read_json_text by (simp add: private_result_json_def reading)

section \<open>The invariant\<close>

definition accounted :: "nat \<Rightarrow> ConnectionState \<Rightarrow> bool" where
  "accounted capacity c \<longleftrightarrow>
     cs_clientId c \<noteq> 0 \<and> cs_exchangeRunId c \<noteq> 0 \<and> queuedBytes c \<le> capacity \<and>
     (\<exists>messages. outbound c = map Some messages \<and> queuedBytes c = sum_list (map length messages) \<and>
        (\<forall>m \<in> set messages. addressed (cs_clientId c) (cs_exchangeRunId c) m))"

definition connection_key :: "ConnectionState \<Rightarrow> ClientId \<times> ExchangeRunId" where
  "connection_key c = (cs_clientId c, cs_exchangeRunId c)"

definition gateway_inv :: "ApplicationEventGateway \<Rightarrow> bool" where
  "gateway_inv g \<longleftrightarrow>
     length (connections g) \<le> maximumConnections g \<and> distinct (map cs_handle (connections g)) \<and>
     distinct (map connection_key (connections g)) \<and>
     list_all (accounted (perConnectionOutboundByteCapacity g)) (connections g) \<and>
     MIN_APPLICATION_GATEWAY_OUTBOUND_CAPACITY_V1 \<le> perConnectionOutboundByteCapacity g \<and>
     (\<forall>f. publicFailure g = Some f \<longrightarrow> if_reason f \<noteq> IF_BYTE_ACCOUNTING_INVARIANT) \<and>
     (\<forall>f. privateFailure g = Some f \<longrightarrow> if_reason f \<noteq> IF_BYTE_ACCOUNTING_INVARIANT)"

lemma make_gateway_inv: "make_ApplicationEventGateway maximum capacity = Inr g \<Longrightarrow> gateway_inv g"
  by (auto simp: make_ApplicationEventGateway_def gateway_inv_def split: if_splits)

lemma find_if_Some: "find_if P xs = Some i \<Longrightarrow> i < length xs \<and> P (xs ! i)"
  by (induction xs arbitrary: i) (auto split: if_splits)

lemma find_if_None: "find_if P xs = None \<longleftrightarrow> (\<forall>x \<in> set xs. \<not> P x)"
  by (induction xs) auto

lemma set_erase_at: "set (erase_at i xs) \<subseteq> set xs"
  using set_take_subset [of i xs] set_drop_subset [of "Suc i" xs] by (auto simp: erase_at_def)

lemma map_erase_at: "map f (erase_at i xs) = erase_at i (map f xs)"
  by (simp add: erase_at_def take_map drop_map)

lemma distinct_erase_at: "distinct xs \<Longrightarrow> distinct (erase_at i xs)"
  using set_take_disj_set_drop_if_distinct [of xs i "Suc i"] by (auto simp: erase_at_def)

lemma length_erase_at: "length (erase_at i xs) \<le> length xs"
  by (simp add: erase_at_def)

section \<open>Delivery\<close>

text \<open>What routing a message does to the connections: each that may see it has it at the end of its queue if it fits,
  and is dropped if it does not.\<close>

definition deliver :: "nat \<Rightarrow> (ConnectionState \<Rightarrow> bool) \<Rightarrow> string \<Rightarrow> ConnectionState list \<Rightarrow> ConnectionState list" where
  "deliver capacity P message cs =
     concat (map (\<lambda>c. if \<not> P c then [c]
        else if queuedBytes c + length message \<le> capacity then [push_outbound message c] else []) cs)"

lemma deliver_simps [simp]:
  "deliver capacity P message [] = []"
  "deliver capacity P message (c # cs) =
     (if \<not> P c then [c] else if queuedBytes c + length message \<le> capacity then [push_outbound message c] else []) @
     deliver capacity P message cs"
  "deliver capacity P message (cs @ ds) = deliver capacity P message cs @ deliver capacity P message ds"
  by (simp_all add: deliver_def)

lemma push_outbound_simps [simp]:
  "cs_handle (push_outbound m c) = cs_handle c" "cs_clientId (push_outbound m c) = cs_clientId c"
  "cs_exchangeRunId (push_outbound m c) = cs_exchangeRunId c" "connection_key (push_outbound m c) = connection_key c"
  by (simp_all add: push_outbound_def connection_key_def)

lemma deliver_none: "\<forall>c \<in> set cs. \<not> P c \<Longrightarrow> deliver capacity P message cs = cs"
  by (induction cs) simp_all

lemma routePublic_deliver:
  assumes "\<forall>c \<in> set cs. queuedBytes c \<le> capacity"
  shows "routePublic capacity runId payload cs = (True, deliver capacity (\<lambda>c. cs_exchangeRunId c = runId) payload cs)"
  using assms by (induction cs) (auto simp: enqueueCapacity_def)

lemma routeRecipient_deliver:
  assumes "\<forall>c \<in> set cs. queuedBytes c \<le> capacity" and "distinct (map connection_key cs)"
  shows "routeRecipient capacity s cs =
    (True, deliver capacity (\<lambda>c. connection_key c = (sr_recipient s, sr_exchangeRunId s)) (sr_payload s) cs)"
proof -
  let ?P = "\<lambda>c. cs_clientId c = sr_recipient s \<and> cs_exchangeRunId c = sr_exchangeRunId s"
  have P: "(\<lambda>c. connection_key c = (sr_recipient s, sr_exchangeRunId s)) = ?P"
    by (simp add: connection_key_def)
  show ?thesis
  proof (cases "find_if ?P cs")
    case None
    then have "deliver capacity ?P (sr_payload s) cs = cs"
      by (intro deliver_none) (simp add: find_if_None)
    then show ?thesis
      using None unfolding P by (simp add: routeRecipient_def)
  next
    case (Some i)
    then have i: "i < length cs" "?P (cs ! i)"
      using find_if_Some by blast+
    have split: "cs = take i cs @ cs ! i # drop (Suc i) cs"
      by (rule id_take_nth_drop [OF i(1)])
    have other: "\<not> ?P c" if "c \<in> set (take i cs) \<union> set (drop (Suc i) cs)" for c
    proof -
      have "connection_key (cs ! i) \<notin> connection_key ` (set (take i cs) \<union> set (drop (Suc i) cs))"
        using assms(2) by (subst (asm) split) (simp add: image_Un)
      moreover have "connection_key c = connection_key (cs ! i)" if "?P c"
        using that i(2) by (simp add: connection_key_def)
      ultimately show ?thesis
        using that by (metis imageI)
    qed
    have "deliver capacity ?P (sr_payload s) cs = take i cs @
        (if queuedBytes (cs ! i) + length (sr_payload s) \<le> capacity then [push_outbound (sr_payload s) (cs ! i)] else []) @
        drop (Suc i) cs"
      using i(2) other deliver_none [of "take i cs" ?P] deliver_none [of "drop (Suc i) cs" ?P]
      by (subst split) simp
    moreover have "queuedBytes (cs ! i) \<le> capacity"
      using assms(1) i(1) by simp
    ultimately show ?thesis
      using Some i(1) unfolding P
      by (auto simp: routeRecipient_def enqueueCapacity_def erase_at_def upd_conv_take_nth_drop)
  qed
qed

section \<open>Routing keeps the invariant\<close>

text \<open>The part of the invariant that concerns the connections.\<close>

definition connections_inv :: "nat \<Rightarrow> nat \<Rightarrow> ConnectionState list \<Rightarrow> bool" where
  "connections_inv maximum capacity cs \<longleftrightarrow>
     length cs \<le> maximum \<and> distinct (map cs_handle cs) \<and> distinct (map connection_key cs) \<and> list_all (accounted capacity) cs"

lemma gateway_inv_connections:
  "gateway_inv g \<longleftrightarrow> connections_inv (maximumConnections g) (perConnectionOutboundByteCapacity g) (connections g) \<and>
     MIN_APPLICATION_GATEWAY_OUTBOUND_CAPACITY_V1 \<le> perConnectionOutboundByteCapacity g \<and>
     (\<forall>f. publicFailure g = Some f \<longrightarrow> if_reason f \<noteq> IF_BYTE_ACCOUNTING_INVARIANT) \<and>
     (\<forall>f. privateFailure g = Some f \<longrightarrow> if_reason f \<noteq> IF_BYTE_ACCOUNTING_INVARIANT)"
  unfolding gateway_inv_def connections_inv_def by blast

lemma connections_queued: "connections_inv maximum capacity cs \<Longrightarrow> \<forall>c \<in> set cs. queuedBytes c \<le> capacity"
  by (auto simp: connections_inv_def list_all_iff accounted_def)

lemma push_accounted:
  assumes "accounted capacity c" and "queuedBytes c + length m \<le> capacity" and "addressed (cs_clientId c) (cs_exchangeRunId c) m"
  shows "accounted capacity (push_outbound m c)"
proof -
  from assms(1) obtain ms where ms: "outbound c = map Some ms" "queuedBytes c = sum_list (map length ms)"
    "\<forall>m \<in> set ms. addressed (cs_clientId c) (cs_exchangeRunId c) m"
    by (auto simp: accounted_def)
  have "outbound (push_outbound m c) = map Some (ms @ [m])"
    "queuedBytes (push_outbound m c) = sum_list (map length (ms @ [m]))"
    using ms by (simp_all add: push_outbound_def)
  moreover have "\<forall>x \<in> set (ms @ [m]). addressed (cs_clientId c) (cs_exchangeRunId c) x"
    using ms(3) assms(3) by simp
  ultimately show ?thesis
    using assms(1,2) unfolding accounted_def push_outbound_simps
    by (metis (no_types, lifting) ms(2) add.commute add.right_neutral list.simps(8,9) map_append sum_list.Cons sum_list.Nil sum_list_append)
qed

lemma length_deliver: "length (deliver capacity P m cs) \<le> length cs"
  by (induction cs) auto

lemma deliver_distinct:
  assumes "\<And>c. f (push_outbound m c) = f c" and "distinct (map f cs)"
  shows "distinct (map f (deliver capacity P m cs))"
proof -
  have "set (map f (deliver capacity P m ds)) \<subseteq> set (map f ds)" for ds
    by (induction ds) (auto simp: assms(1))
  then have "f c \<notin> set (map f ds) \<Longrightarrow> f c \<notin> set (map f (deliver capacity P m ds))" for c ds
    by blast
  then show ?thesis
    using assms(2) by (induction cs) (simp_all add: assms(1))
qed

lemma deliver_inv:
  assumes "connections_inv maximum capacity cs"
    and "\<And>c. c \<in> set cs \<Longrightarrow> P c \<Longrightarrow> addressed (cs_clientId c) (cs_exchangeRunId c) m"
  shows "connections_inv maximum capacity (deliver capacity P m cs)"
proof -
  have "distinct (map cs_handle (deliver capacity P m cs))" "distinct (map connection_key (deliver capacity P m cs))"
    using assms(1) by (auto simp: connections_inv_def intro!: deliver_distinct)
  moreover have "list_all (accounted capacity) (deliver capacity P m cs)"
    using assms by (induction cs) (auto simp: connections_inv_def intro: push_accounted)
  moreover have "length (deliver capacity P m cs) \<le> maximum"
    using assms(1) length_deliver [of capacity P m cs] by (simp add: connections_inv_def)
  ultimately show ?thesis
    using assms(1) by (simp add: connections_inv_def)
qed

section \<open>The messages of a batch\<close>

lemma map_sum_iff:
  "map_sum f g x = Inr y \<longleftrightarrow> (\<exists>z. x = Inr z \<and> y = g z)" "map_sum f g x = Inl e \<longleftrightarrow> (\<exists>d. x = Inl d \<and> e = f d)"
  by (cases x; auto)+

definition run_of :: "RecipientResult \<Rightarrow> ExchangeRunId" where
  "run_of r = ev_exchangeRunId (privateEventId (hd (privateResult r)))"

definition recipient_message :: "RecipientResult \<Rightarrow> SerializedRecipient" where
  "recipient_message r =
     \<lparr>sr_recipient = recipient r, sr_exchangeRunId = run_of r, sr_payload = json_text (private_result_json (run_of r) r)\<rparr>"

lemma serializeRecipients_messages:
  "serializeRecipients rs seen k = Inr ss \<Longrightarrow> ss = map recipient_message rs \<and> (\<forall>r \<in> set rs. private_consistent (run_of r) r)"
proof (induction rs arbitrary: seen k ss)
  case (Cons r rs)
  have r: "serializePrivateResultV1 (run_of r) r [] =
      (JE_NONE, json_text (private_result_json (run_of r) r)) \<and> private_consistent (run_of r) r"
    "\<exists>seen k ts. serializeRecipients rs seen k = Inr ts \<and> ss = recipient_message r # ts"
    using Cons.prems serializePrivate_json [of "run_of r" r "[]"]
    by (auto simp: Let_def run_of_def recipient_message_def map_sum_iff split: if_splits prod.splits)
  then show ?case
    using Cons.IH by auto
qed simp

lemma serializeRecipients_total:
  assumes "\<forall>r \<in> set rs. recipient r \<noteq> 0 \<and> recipient r \<notin> seen \<and> private_consistent runId r \<and>
      ev_commandSequence (privateEventId (hd (privateResult r))) = commandSequence"
    and "distinct (map recipient rs)" and "k = None \<or> k = Some (runId, commandSequence)"
  shows "serializeRecipients rs seen k = Inr (map recipient_message rs)"
  using assms
proof (induction rs arbitrary: seen k)
  case (Cons r rs)
  have r: "recipient r \<noteq> 0" "recipient r \<notin> seen" "private_consistent runId r"
    "ev_commandSequence (privateEventId (hd (privateResult r))) = commandSequence"
    using Cons.prems(1) by simp_all
  have first: "privateResult r \<noteq> []" "ev_exchangeRunId (privateEventId (hd (privateResult r))) = runId"
    using r(3) by (auto simp: private_consistent_def private_event_ok_def Let_def)
  have "serializePrivateResultV1 runId r [] = (JE_NONE, json_text (private_result_json runId r))"
    using serializePrivate_json [of runId r "[]"] r(3) by simp
  moreover have "serializeRecipients rs (insert (recipient r) seen) (Some (runId, commandSequence)) = Inr (map recipient_message rs)"
  proof (rule Cons.IH)
    have "\<forall>x \<in> set rs. recipient x \<noteq> recipient r"
      using Cons.prems(2) by (force simp: image_iff)
    then show "\<forall>x \<in> set rs. recipient x \<noteq> 0 \<and> recipient x \<notin> insert (recipient r) seen \<and> private_consistent runId x \<and>
        ev_commandSequence (privateEventId (hd (privateResult x))) = commandSequence"
      using Cons.prems(1) by simp
  qed (use Cons.prems(2) in simp_all)
  ultimately show ?case
    using r first Cons.prems(3) by (auto simp: Let_def recipient_message_def run_of_def)
qed simp

text \<open>The messages of a private batch delivered one after the other.\<close>

definition deliver_all :: "nat \<Rightarrow> SerializedRecipient list \<Rightarrow> ConnectionState list \<Rightarrow> ConnectionState list" where
  "deliver_all capacity ss cs =
     fold (\<lambda>s. deliver capacity (\<lambda>c. connection_key c = (sr_recipient s, sr_exchangeRunId s)) (sr_payload s)) ss cs"

lemma routePrivate_deliver:
  assumes "connections_inv maximum capacity cs"
    and "\<forall>s \<in> set ss. addressed (sr_recipient s) (sr_exchangeRunId s) (sr_payload s)"
  shows "routePrivate capacity ss cs = (True, deliver_all capacity ss cs) \<and> connections_inv maximum capacity (deliver_all capacity ss cs)"
  using assms
proof (induction ss arbitrary: cs)
  case (Cons s ss)
  let ?cs = "deliver capacity (\<lambda>c. connection_key c = (sr_recipient s, sr_exchangeRunId s)) (sr_payload s) cs"
  have "connections_inv maximum capacity ?cs"
    using Cons.prems by (intro deliver_inv) (auto simp: connection_key_def)
  moreover have "routeRecipient capacity s cs = (True, ?cs)"
    using routeRecipient_deliver [OF connections_queued] Cons.prems(1) by (auto simp: connections_inv_def)
  ultimately show ?case
    using Cons.IH [of ?cs] Cons.prems(2) by (simp add: deliver_all_def)
qed (simp add: deliver_all_def)

lemma routePendingPublic_spec:
  assumes "connections_inv (maximumConnections g) (perConnectionOutboundByteCapacity g) (connections g)"
  shows "\<exists>oc g'. routePendingPublic batch g = (oc, g') \<and>
    (let runId = ev_exchangeRunId (pu_eventId (hd batch));
         cs = deliver (perConnectionOutboundByteCapacity g) (\<lambda>c. cs_exchangeRunId c = runId)
           (json_text (public_trades_json runId batch)) (connections g) in
     if public_consistent runId batch
     then oc = AO_ROUTED \<and> g' = g\<lparr>connections := cs, pendingPublic := None\<rparr> \<and>
       connections_inv (maximumConnections g) (perConnectionOutboundByteCapacity g) cs
     else oc = AO_FAILED \<and> (\<exists>e. g' = g\<lparr>publicFailure := Some \<lparr>if_reason = IF_SERIALIZATION_FAILED, if_serializationError = e\<rparr>\<rparr>))"
proof -
  let ?runId = "ev_exchangeRunId (pu_eventId (hd batch))"
  have "connections_inv (maximumConnections g) (perConnectionOutboundByteCapacity g)
      (deliver (perConnectionOutboundByteCapacity g) (\<lambda>c. cs_exchangeRunId c = ?runId)
        (json_text (public_trades_json ?runId batch)) (connections g))"
    using addressed_public by (intro deliver_inv [OF assms]) auto
  note route = this routePublic_deliver [OF connections_queued [OF assms], of ?runId]
  show ?thesis
  proof (cases "public_consistent ?runId batch")
    case True
    then have "serializePublicTradesV1 ?runId batch [] = (JE_NONE, json_text (public_trades_json ?runId batch))"
      using serializePublic_json [of ?runId batch "[]"] by simp
    moreover have "batch \<noteq> []"
      using True unfolding public_consistent_def by blast
    ultimately show ?thesis
      using True route by (simp add: routePendingPublic_def Let_def)
  next
    case False
    then obtain e where "e \<noteq> JE_NONE" "serializePublicTradesV1 ?runId batch [] = (e, [])"
      using serializePublic_json [of ?runId batch "[]"] by auto
    then show ?thesis
      using False by (auto simp: routePendingPublic_def Let_def failPublic_def)
  qed
qed

lemma routePendingPrivate_spec:
  assumes "connections_inv (maximumConnections g) (perConnectionOutboundByteCapacity g) (connections g)"
  shows "\<exists>oc g'. routePendingPrivate batch g = (oc, g') \<and>
    (let cs = deliver_all (perConnectionOutboundByteCapacity g) (map recipient_message batch) (connections g) in
     if batch \<noteq> [] \<and> serializeRecipients batch {} None = Inr (map recipient_message batch)
     then oc = AO_ROUTED \<and> g' = g\<lparr>connections := cs, pendingPrivate := None\<rparr> \<and>
       connections_inv (maximumConnections g) (perConnectionOutboundByteCapacity g) cs
     else oc = AO_FAILED \<and> (\<exists>reason e. reason \<noteq> IF_BYTE_ACCOUNTING_INVARIANT \<and>
       g' = g\<lparr>privateFailure := Some \<lparr>if_reason = reason, if_serializationError = e\<rparr>\<rparr>))"
proof -
  have reasons: "serializeRecipients rs seen k = Inl (reason, e) \<Longrightarrow> reason \<noteq> IF_BYTE_ACCOUNTING_INVARIANT" for rs seen k reason e
    by (induction rs arbitrary: seen k) (auto simp: Let_def map_sum_iff split: if_splits prod.splits)
  have "\<forall>s \<in> set (map recipient_message batch). addressed (sr_recipient s) (sr_exchangeRunId s) (sr_payload s)"
    by (auto simp: recipient_message_def addressed_private)
  note route = routePrivate_deliver [OF assms this]
  show ?thesis
  proof (cases "serializeRecipients batch {} None")
    case (Inl f)
    then show ?thesis
      using reasons [of batch "{}" None "fst f" "snd f"]
      by (cases f; cases "batch = []") (auto simp: routePendingPrivate_def failPrivate_def Let_def intro!: exI)
  next
    case (Inr ss)
    then show ?thesis
      using serializeRecipients_messages [OF Inr] route by (auto simp: routePendingPrivate_def failPrivate_def Let_def)
  qed
qed

section \<open>Sequences of operations\<close>

text \<open>The controller may change in any way between two operations of the gateway.\<close>

inductive gateway_step ::
  "ApplicationEventGateway \<times> ('f, 'q) controller \<Rightarrow> ApplicationEventGateway \<times> ('f, 'q) controller \<Rightarrow> bool" where
  controller: "gateway_step (g, ctl) (g, ctl')"
| register: "registerConnection ctl handle client runId g = (r, g') \<Longrightarrow> gateway_step (g, ctl) (g', ctl)"
| disconnect: "disconnect handle g = (b, g') \<Longrightarrow> gateway_step (g, ctl) (g', ctl)"
| pop: "tryPopOutbound handle g = (m, g') \<Longrightarrow> gateway_step (g, ctl) (g', ctl)"
| route_public: "advancePublic g ctl = (oc, g', ctl') \<Longrightarrow> gateway_step (g, ctl) (g', ctl')"
| route_private: "advancePrivate g ctl = (oc, g', ctl') \<Longrightarrow> gateway_step (g, ctl) (g', ctl')"

lemma register_inv:
  assumes "gateway_inv g" and "registerConnection ctl handle client runId g = (r, g')"
  shows "gateway_inv g'"
proof -
  have new: "accounted capacity (new_connection handle client runId)" if "client \<noteq> 0" "runId \<noteq> 0" for capacity
    using that by (auto simp: accounted_def new_connection_def)
  have key: "connection_key (new_connection handle client runId) = (client, runId)" "cs_handle (new_connection handle client runId) = handle"
    by (simp_all add: connection_key_def new_connection_def)
  let ?same = "find_if (\<lambda>c. cs_clientId c = client \<and> cs_exchangeRunId c = runId) (connections g)"
  consider "g' = g"
    | (added) "client \<noteq> 0" "runId \<noteq> 0" "findConnection handle g = None" "length (connections g) < maximumConnections g"
        "?same = None" "g' = g\<lparr>connections := connections g @ [new_connection handle client runId]\<rparr>"
    | (replaced) i where "client \<noteq> 0" "runId \<noteq> 0" "findConnection handle g = None"
        "?same = Some i" "g' = g\<lparr>connections := (connections g)[i := new_connection handle client runId]\<rparr>"
  proof (cases "client = 0 \<or> runId = 0 \<or> findConnection handle g \<noteq> None \<or>
      (case rs_admissionIndex (ctl_run ctl) of None \<Rightarrow> True | Some idx \<Rightarrow> adm_exchangeRunId idx \<noteq> runId)")
    case True
    then have "g' = g"
      using assms(2) by (auto simp: registerConnection_def Let_def split: if_splits)
    then show ?thesis by (rule that(1))
  next
    case False
    show ?thesis
    proof (cases ?same)
      case None
      then have "g' = g \<or> length (connections g) < maximumConnections g \<and>
          g' = g\<lparr>connections := connections g @ [new_connection handle client runId]\<rparr>"
        using assms(2) False by (simp add: registerConnection_def Let_def split: if_splits)
      then show ?thesis
        using False None that(1,2) by blast
    next
      case (Some i)
      then have "g' = g\<lparr>connections := (connections g)[i := new_connection handle client runId]\<rparr>"
        using assms(2) False by (simp add: registerConnection_def Let_def)
      then show ?thesis
        using False Some that(3) by blast
    qed
  qed
  then show ?thesis
  proof cases
    case added
    then show ?thesis
      using assms(1) new key
      by (auto simp: gateway_inv_def findConnection_def find_if_None connection_key_def)
  next
    case replaced
    have i: "i < length (connections g)" "connection_key (connections g ! i) = (client, runId)"
      using find_if_Some [OF replaced(4)] by (simp_all add: connection_key_def)
    have "map connection_key ((connections g)[i := new_connection handle client runId]) = map connection_key (connections g)"
      using i by (simp add: map_update key) (metis length_map list_update_id nth_map)
    moreover have "distinct (map cs_handle ((connections g)[i := new_connection handle client runId]))"
      using assms(1) replaced(3) i(1)
      by (auto simp: map_update key gateway_inv_def findConnection_def find_if_None intro!: distinct_list_update)
    moreover have "list_all (accounted (perConnectionOutboundByteCapacity g)) ((connections g)[i := new_connection handle client runId])"
      using assms(1) new replaced(1,2) set_update_subset_insert [of "connections g" i "new_connection handle client runId"]
      by (auto simp: gateway_inv_def list_all_iff)
    ultimately show ?thesis
      using assms(1) by (simp add: gateway_inv_def replaced(5))
  qed (use assms(1) in simp)
qed

lemma disconnect_inv:
  assumes "gateway_inv g" and "disconnect handle g = (b, g')"
  shows "gateway_inv g'"
proof -
  have "gateway_inv (g\<lparr>connections := erase_at i (connections g)\<rparr>)" for i
    using assms(1) set_erase_at [of i "connections g"] length_erase_at [of i "connections g"]
    by (auto simp: gateway_inv_def map_erase_at distinct_erase_at list_all_iff)
  then show ?thesis
    using assms by (auto simp: disconnect_def split: option.splits)
qed

lemma pop_spec:
  assumes inv: "gateway_inv g" and pop: "tryPopOutbound handle g = (m, g')"
  shows "gateway_inv g' \<and> (\<exists>reply. m = Inr reply)"
proof (cases "findConnection handle g")
  case (Some i)
  let ?c = "connections g ! i"
  have i: "i < length (connections g)"
    using find_if_Some Some by (auto simp: findConnection_def)
  then have "accounted (perConnectionOutboundByteCapacity g) ?c"
    using inv by (simp add: gateway_inv_def list_all_length)
  then obtain ms where ms: "outbound ?c = map Some ms" "queuedBytes ?c = sum_list (map length ms)"
    "\<forall>m \<in> set ms. addressed (cs_clientId ?c) (cs_exchangeRunId ?c) m"
    and c: "cs_clientId ?c \<noteq> 0" "cs_exchangeRunId ?c \<noteq> 0" "queuedBytes ?c \<le> perConnectionOutboundByteCapacity g"
    by (auto simp: accounted_def)
  show ?thesis
  proof (cases ms)
    case Nil
    then show ?thesis
      using pop Some ms inv by (auto simp: tryPopOutbound_def Let_def)
  next
    case (Cons x xs)
    let ?d = "?c\<lparr>outbound := map Some xs, queuedBytes := sum_list (map length xs)\<rparr>"
    have step: "g' = g\<lparr>connections := (connections g)[i := ?d]\<rparr>" "m = Inr (Some x)"
      using pop Some ms Cons by (auto simp: tryPopOutbound_def Let_def)
    have "accounted (perConnectionOutboundByteCapacity g) ?d"
      using ms c Cons by (auto simp: accounted_def)
    moreover have "map cs_handle ((connections g)[i := ?d]) = map cs_handle (connections g)"
      "map connection_key ((connections g)[i := ?d]) = map connection_key (connections g)"
      using i by (simp_all add: map_update connection_key_def list_update_same_conv)
    ultimately have "connections_inv (maximumConnections g) (perConnectionOutboundByteCapacity g) ((connections g)[i := ?d])"
      using inv set_update_subset_insert [of "connections g" i ?d]
      by (auto simp: gateway_inv_def connections_inv_def list_all_iff)
    then show ?thesis
      using inv by (simp add: step gateway_inv_connections)
  qed
qed (use assms in \<open>auto simp: tryPopOutbound_def\<close>)

lemma advancePublic_inv:
  assumes inv: "gateway_inv g" and step: "advancePublic g ctl = (oc, g', ctl')"
  shows "gateway_inv g'"
proof -
  have route: "gateway_inv h'" if "gateway_inv h" "routePendingPublic batch h = (oc, h')" for batch h h'
    using that routePendingPublic_spec [of h batch]
    by (auto simp: gateway_inv_connections Let_def split: if_splits)
  have "gateway_inv (g\<lparr>pendingPublic := Some batch\<rparr>)" for batch
    using inv by (simp add: gateway_inv_def)
  then show ?thesis
    using step inv route by (auto simp: advancePublic_def split: if_splits option.splits prod.splits)
qed

lemma advancePrivate_inv:
  assumes inv: "gateway_inv g" and step: "advancePrivate g ctl = (oc, g', ctl')"
  shows "gateway_inv g'"
proof -
  have route: "gateway_inv h'" if "gateway_inv h" "routePendingPrivate batch h = (oc, h')" for batch h h'
    using that routePendingPrivate_spec [of h batch]
    by (auto simp: gateway_inv_connections Let_def split: if_splits)
  have "gateway_inv (g\<lparr>pendingPrivate := Some batch\<rparr>)" for batch
    using inv by (simp add: gateway_inv_def)
  then show ?thesis
    using step inv route by (auto simp: advancePrivate_def split: if_splits option.splits prod.splits)
qed

lemma gateway_steps_inv:
  assumes "gateway_step\<^sup>*\<^sup>* s s'" and "gateway_inv (fst s)"
  shows "gateway_inv (fst s')"
  using assms
proof (induction rule: rtranclp_induct)
  case (step s s')
  from step(2) show ?case
    using step(3) [OF step(4)]
    by cases (auto dest: register_inv disconnect_inv pop_spec advancePublic_inv advancePrivate_inv)
qed

text \<open>The limits never change.\<close>

lemma gateway_step_limits:
  "gateway_step s s' \<Longrightarrow> maximumConnections (fst s') = maximumConnections (fst s) \<and>
     perConnectionOutboundByteCapacity (fst s') = perConnectionOutboundByteCapacity (fst s)"
  by (erule gateway_step.cases)
    (auto simp: registerConnection_def disconnect_def tryPopOutbound_def advancePublic_def advancePrivate_def
      routePendingPublic_def routePendingPrivate_def failPublic_def failPrivate_def Let_def
      split: if_splits option.splits prod.splits list.splits sum.splits)

lemma gateway_steps_limits:
  "gateway_step\<^sup>*\<^sup>* s s' \<Longrightarrow> maximumConnections (fst s') = maximumConnections (fst s) \<and>
     perConnectionOutboundByteCapacity (fst s') = perConnectionOutboundByteCapacity (fst s)"
  by (induction rule: rtranclp_induct) (simp_all add: gateway_step_limits)

text \<open>A gateway that is in use.\<close>

definition gateway_reachable :: "nat \<Rightarrow> nat \<Rightarrow> ('f, 'q) controller \<Rightarrow> ApplicationEventGateway \<Rightarrow> bool" where
  "gateway_reachable maximum capacity ctl g \<longleftrightarrow>
     (\<exists>g0 ctl0. make_ApplicationEventGateway maximum capacity = Inr g0 \<and> gateway_step\<^sup>*\<^sup>* (g0, ctl0) (g, ctl))"

lemma reachable_gateway:
  assumes "gateway_reachable maximum capacity ctl g"
  shows "gateway_inv g" and "maximumConnections g = maximum" and "perConnectionOutboundByteCapacity g = capacity"
proof -
  from assms obtain g0 ctl0 where g: "make_ApplicationEventGateway maximum capacity = Inr g0" "gateway_step\<^sup>*\<^sup>* (g0, ctl0) (g, ctl)"
    by (auto simp: gateway_reachable_def)
  show "gateway_inv g"
    using gateway_steps_inv [OF g(2)] make_gateway_inv [OF g(1)] by simp
  show "maximumConnections g = maximum" "perConnectionOutboundByteCapacity g = capacity"
    using gateway_steps_limits [OF g(2)] g(1) by (auto simp: make_ApplicationEventGateway_def split: if_splits)
qed

text \<open>What a client pops was queued for it.\<close>

lemma pop_addressed:
  assumes inv: "gateway_inv g" and pop: "tryPopOutbound handle g = (Inr (Some m), g')"
  shows "\<exists>c \<in> set (connections g). cs_handle c = handle \<and> addressed (cs_clientId c) (cs_exchangeRunId c) m"
proof -
  obtain i where find: "findConnection handle g = Some i"
    using pop by (cases "findConnection handle g") (auto simp: tryPopOutbound_def)
  then have i: "i < length (connections g)" "cs_handle (connections g ! i) = handle"
    using find_if_Some by (auto simp: findConnection_def)
  have "accounted (perConnectionOutboundByteCapacity g) (connections g ! i)"
    using inv i(1) by (simp add: gateway_inv_def list_all_length)
  moreover have "outbound (connections g ! i) \<noteq> [] \<and> hd (outbound (connections g ! i)) = Some m"
    using pop find by (auto simp: tryPopOutbound_def Let_def split: list.splits option.splits if_splits)
  ultimately have "addressed (cs_clientId (connections g ! i)) (cs_exchangeRunId (connections g ! i)) m"
    by (auto simp: accounted_def hd_map)
  then show ?thesis
    using i nth_mem by blast
qed

end
