(* ===== verification/Engine_Messages.thy ===== *)
theory Engine_Messages
  imports Gateway_Runs
begin

text \<open>
  The results of the matching engine at the event gateway: the projections of every batch that the engine produces can
  be written as messages, none of them is longer than the smallest capacity of a connection, and the gateway routes them.
\<close>

section \<open>Owners\<close>

text \<open>Nobody with the reserved client identifier 0 has an order in the book.\<close>

definition owned_book :: "Book \<Rightarrow> bool" where
  "owned_book b \<longleftrightarrow> (\<forall>r \<in> set (b_bids b) \<union> set (b_asks b). r_owner r \<noteq> 0)"

lemma match_queue_owners:
  "match_queue ok q rs = (fs, q', rs') \<Longrightarrow> \<forall>r \<in> set rs. r_owner r \<noteq> 0 \<Longrightarrow>
     (\<forall>r \<in> set rs'. r_owner r \<noteq> 0) \<and> (\<forall>f \<in> set fs. r_owner (fst f) \<noteq> 0)"
  by (induction ok q rs arbitrary: fs q' rs' rule: match_queue.induct) (auto split: if_splits prod.splits)

lemma owned_side: "owned_book b \<Longrightarrow> r \<in> set (book_side s b) \<Longrightarrow> r_owner r \<noteq> 0"
  by (auto simp: owned_book_def book_side_def split: if_splits)

lemma owned_set_side:
  "owned_book b \<Longrightarrow> \<forall>r \<in> set rs. r_owner r \<noteq> 0 \<Longrightarrow> owned_book (set_side s rs b)"
  by (auto simp: owned_book_def set_side_def)

lemma set_enqueue: "set (enqueue s r rs) \<subseteq> insert r (set rs)"
  by (auto simp: enqueue_def dest: set_takeWhileD set_dropWhileD)

lemma owned_spec_command:
  assumes owned: "owned_book b" and client: "clientId message \<noteq> 0"
  shows "owned_book (fst (spec_command runId message b))"
proof (cases "orderType_of message = CANCEL")
  case True
  then show ?thesis
    using owned by (auto simp: spec_command_def spec_cancel_def Let_def without_order_def owned_book_def split: option.splits)
next
  case False
  let ?s = "orderType_of message"
  obtain fs rest queue where m: "match_queue (acceptable ?s (price message)) (quantity message) (book_side (other_side ?s) b) =
      (fs, rest, queue)"
    by (metis prod_cases3)
  have b1: "owned_book (set_side (other_side ?s) queue b)"
    using match_queue_owners [OF m] owned_side [OF owned] by (intro owned_set_side [OF owned]) blast
  have "owned_book (set_side ?s (enqueue ?s (own_resting message rest) (book_side ?s (set_side (other_side ?s) queue b)))
      (set_side (other_side ?s) queue b))"
  proof (rule owned_set_side [OF b1], rule ballI)
    fix r assume "r \<in> set (enqueue ?s (own_resting message rest) (book_side ?s (set_side (other_side ?s) queue b)))"
    then have "r = own_resting message rest \<or> r \<in> set (book_side ?s (set_side (other_side ?s) queue b))"
      using set_enqueue by blast
    then show "r_owner r \<noteq> 0"
      using client owned_side [OF b1] by (auto simp: own_resting_def)
  qed
  then show ?thesis
    using owned b1 m False by (simp add: spec_command_def spec_order_def Let_def)
qed

lemma reachable_owned: "reachable runId k st \<Longrightarrow> owned_book (abs_book st)"
proof (induction rule: reachable.induct)
  case start
  then show ?case
    by (simp add: owned_book_def init_MatchingState_def abs_book_def side_levels_def)
next
  case (step k st message st' batch)
  have "abs_book st' = fst (spec_command runId message (abs_book st))"
    using processCommand_refines [OF reachable_run_inv [OF step.hyps(1)] step.hyps(2,3,4)] step.hyps(5) by auto
  then show ?case
    using owned_spec_command [OF step.IH] step.hyps(2) by (simp add: normalized_command_def)
qed

section \<open>The events of a batch\<close>

text \<open>What the messages need of an event.\<close>

definition writable_event :: "ExchangeRunId \<Rightarrow> sequenceMessage \<Rightarrow> BusinessEvent \<Rightarrow> bool" where
  "writable_event runId message event \<longleftrightarrow>
     ev_exchangeRunId (eventId_of event) = runId \<and> ev_commandSequence (eventId_of event) = globalSequenceNumber message \<and>
     unat (ev_eventIndex (eventId_of event)) < 4096 \<and> sided event \<and> (\<forall>c \<in> set (parties event). c \<noteq> 0) \<and>
     (case event of
        EvOrderRested e \<Rightarrow> named_side (or_side e)
      | EvCommandRejected e \<Rightarrow> cr_clientCommandId e = the (clientCommandId message)
      | _ \<Rightarrow> True)"

lemma trade_reports_parties:
  "\<forall>f \<in> set fs. r_owner (fst f) \<noteq> 0 \<Longrightarrow> clientId message \<noteq> 0 \<Longrightarrow> e \<in> set (trade_reports runId message n q fs) \<Longrightarrow>
     (\<forall>c \<in> set (parties e). c \<noteq> 0) \<and> (\<exists>t. e = EvTrade t)"
  by (induction runId message n q fs rule: trade_reports.induct)
    (auto simp: trade_report_def parties_def affectedRecipients_def Let_def split: if_splits)

lemma spec_command_parties:
  assumes owned: "owned_book b" and client: "clientId message \<noteq> 0" and e: "e \<in> set (snd (snd (spec_command runId message b)))"
  shows "(\<forall>c \<in> set (parties e). c \<noteq> 0) \<and>
    (case e of EvOrderRested r \<Rightarrow> named_side (or_side r) | EvCommandRejected r \<Rightarrow> cr_clientCommandId r = the (clientCommandId message)
     | _ \<Rightarrow> True)"
proof (cases "orderType_of message = CANCEL")
  case True
  have "r_owner r \<noteq> 0" if "List.find P (b_bids b @ b_asks b) = Some r" for P r
    using owned that by (auto simp: owned_book_def find_Some_iff) (metis Un_iff nth_mem set_append length_append)
  then show ?thesis
    using True client e
    by (auto simp: spec_command_def spec_cancel_def Let_def rejection_def cancel_report_def parties_def affectedRecipients_def
        split: option.splits if_splits)
next
  case False
  let ?s = "orderType_of message"
  obtain fs rest queue where m: "match_queue (acceptable ?s (price message)) (quantity message) (book_side (other_side ?s) b) =
      (fs, rest, queue)"
    by (metis prod_cases3)
  have fs: "\<forall>f \<in> set fs. r_owner (fst f) \<noteq> 0"
    using match_queue_owners [OF m] owned_side [OF owned] by blast
  have "e \<in> set (trade_reports runId message 0 (quantity message) fs) \<or> e = remainder_event runId message (length fs) rest \<or>
      e = rejection runId message NEW_ORDER (orderId message) BOOK_CAPACITY_EXCEEDED"
    using e False m by (auto simp: spec_command_def spec_order_def Let_def split: if_splits)
  then consider "(\<forall>c \<in> set (parties e). c \<noteq> 0) \<and> (\<exists>t. e = EvTrade t)" | "e = remainder_event runId message (length fs) rest"
    | "e = rejection runId message NEW_ORDER (orderId message) BOOK_CAPACITY_EXCEEDED"
    using trade_reports_parties [OF fs client, of e runId 0 "quantity message"] by blast
  then show ?thesis
    using client
    by cases (auto simp: remainder_event_def rejection_def parties_def affectedRecipients_def named_side_def domain_side_def)
qed

lemma spec_batch_writable:
  assumes "owned_book b" and "clientId message \<noteq> 0" and "e \<in> set (events (spec_batch runId message b))"
  shows "writable_event runId message e"
proof -
  let ?evs = "events (spec_batch runId message b)"
  have "eventId_of e \<in> set (map (event_id runId message) [0 ..< length ?evs])"
    using assms(3) eventIds_spec_command [of runId message b] by (metis (no_types, lifting) image_eqI list.set_map spec_batch_def CommandResultBatch.select_convs(3))
  then obtain i where i: "i < length ?evs" "eventId_of e = event_id runId message i"
    by auto
  then have "i < 4096"
    using length_spec_command [of runId message b] by (simp add: spec_batch_def)
  then have "unat (of_nat i :: u32) < 4096"
    by (simp add: unat_of_nat)
  then show ?thesis
    using i(2) spec_command_parties [OF assms(1,2)] spec_batch_projectable(1) [of runId message b] assms(3)
    by (auto simp: writable_event_def event_id_def spec_batch_def)
qed

section \<open>The messages of a batch\<close>

lemma view_writable:
  assumes "writable_event runId message e" and "p \<in> set (private_view client e)"
    and "valid_ClientCommandId (the (clientCommandId message))"
  shows "private_event_ok runId (globalSequenceNumber message) client p \<and> valid_ids p"
  using assms
  by (cases e)
    (auto simp: writable_event_def private_view_def private_event_ok_def valid_ids_def maker_trade_def taker_trade_def sided_def
      named_side_def opposite_side_def split: if_splits)

text \<open>The batch of one command, from the point of view of its messages.\<close>

definition writable_batch :: "ExchangeRunId \<Rightarrow> sequenceMessage \<Rightarrow> CommandResultBatch \<Rightarrow> bool" where
  "writable_batch runId message batch \<longleftrightarrow>
     (\<forall>e \<in> set (events batch). writable_event runId message e) \<and> length (events batch) \<le> 4096 \<and>
     correlation batch = command_correlation runId message \<and> valid_ClientCommandId (the (clientCommandId message))"

lemma processed_writable:
  assumes "reachable runId k st" and "normalized_command message"
    and "globalSequenceNumber message = of_nat (Suc k)" and "Suc k < 2 ^ 64"
    and "processCommand st message = Inr (st', batch)" and "valid_ClientCommandId (the (clientCommandId message))"
  shows "writable_batch runId message batch"
proof -
  have "batch = spec_batch runId message (abs_book st)"
    using processCommand_refines [OF reachable_run_inv [OF assms(1)] assms(2,3,4)] assms(5) by auto
  then show ?thesis
    using spec_batch_writable [OF reachable_owned [OF assms(1)]] assms(2,6) length_spec_command [of runId message "abs_book st"]
    by (auto simp: writable_batch_def spec_batch_def normalized_command_def)
qed

lemma writable_views:
  assumes batch: "writable_batch runId message batch" and client: "client \<in> set (recipients_of (events batch))"
  defines "r \<equiv> recipient_view batch (events batch) client"
  shows "recipient r = client" and "client \<noteq> 0" and "private_consistent runId r" and "readable_result r" and "run_of r = runId"
    and "ev_commandSequence (privateEventId (hd (privateResult r))) = globalSequenceNumber message"
    and "length (json_text (private_result_json runId r)) \<le> MAX_PRIVATE_HANDOFF_MESSAGE_BYTES"
proof -
  have w: "\<forall>e \<in> set (events batch). writable_event runId message e"
    and valid: "valid_ClientCommandId (the (clientCommandId message))"
    and cor: "correlation batch = command_correlation runId message"
    using batch by (simp_all add: writable_batch_def)
  have ok: "\<forall>p \<in> set (privateResult r). private_event_ok runId (globalSequenceNumber message) client p \<and> valid_ids p"
    using w view_writable [OF _ _ valid] by (auto simp: r_def recipient_view_def)
  have some: "privateResult r \<noteq> []"
    using client private_view_parties [of client] by (auto simp: r_def recipient_view_def recipients_of_def)
  then have first: "private_event_ok runId (globalSequenceNumber message) client (hd (privateResult r))"
    using ok by simp
  then show "run_of r = runId" and sequence: "ev_commandSequence (privateEventId (hd (privateResult r))) = globalSequenceNumber message"
    by (simp_all add: run_of_def private_event_ok_def)
  show "recipient r = client"
    by (simp add: r_def recipient_view_def)
  show "client \<noteq> 0"
    using client w by (auto simp: recipients_of_def writable_event_def)
  have "rr_correlation r = Some c \<Longrightarrow> c = command_correlation runId message \<and> client = clientId message" for c
    by (auto simp: r_def recipient_view_def cor command_correlation_def split: if_splits)
  then show "private_consistent runId r" "readable_result r"
    using ok some sequence \<open>recipient r = client\<close> valid
    by (auto simp: private_consistent_def Let_def command_correlation_def readable_result_def list_all_iff split: option.splits)
  show "length (json_text (private_result_json runId r)) \<le> MAX_PRIVATE_HANDOFF_MESSAGE_BYTES"
    unfolding r_def
    using w valid batch
    by (intro length_private_message)
      (auto simp: writable_batch_def writable_event_def cor command_correlation_def split: BusinessEvent.splits)
qed

lemma trades_of_set: "t \<in> set (trades_of evs) \<longleftrightarrow> EvTrade t \<in> set evs"
  by (induction evs rule: trades_of.induct) auto

lemma length_trades_of: "length (trades_of evs) \<le> length evs"
  by (induction evs rule: trades_of.induct) auto

lemma writable_trades:
  assumes batch: "writable_batch runId message batch"
  shows "projectPublicTrades batch \<noteq> [] \<Longrightarrow> public_consistent runId (projectPublicTrades batch)"
    and "length (json_text (public_trades_json runId (projectPublicTrades batch))) \<le> MAX_PUBLIC_HANDOFF_MESSAGE_BYTES"
proof -
  have t: "ev_exchangeRunId (pu_eventId t) = runId \<and> ev_commandSequence (pu_eventId t) = globalSequenceNumber message \<and>
      named_side (aggressorSide t) \<and> unat (ev_eventIndex (pu_eventId t)) < 4096" if "t \<in> set (projectPublicTrades batch)" for t
  proof -
    from that obtain x where "EvTrade x \<in> set (events batch)" "pu_eventId t = tr_eventId x" "aggressorSide t = takerSide x"
      by (auto simp: projectPublicTrades_view trades_of_set)
    then show ?thesis
      using batch by (fastforce simp: writable_batch_def writable_event_def sided_def named_side_def)
  qed
  show "public_consistent runId (projectPublicTrades batch)" if "projectPublicTrades batch \<noteq> []"
    unfolding public_consistent_def using that t t [OF hd_in_set [OF that]] by simp
  have "length (projectPublicTrades batch) \<le> 4096"
    using batch length_trades_of [of "events batch"] by (simp add: projectPublicTrades_view writable_batch_def)
  then show "length (json_text (public_trades_json runId (projectPublicTrades batch))) \<le> MAX_PUBLIC_HANDOFF_MESSAGE_BYTES"
    using t by (intro length_public_message) auto
qed

section \<open>Routing\<close>

lemma route_private_batch:
  assumes batch: "writable_batch runId message batch" and inv: "gateway_inv g" and some: "events batch \<noteq> []"
    and results: "projectPrivateResults batch = Inr rs"
  shows "routePendingPrivate rs g =
    (AO_ROUTED, g\<lparr>connections := deliver_all (perConnectionOutboundByteCapacity g) (map recipient_message rs) (connections g),
       pendingPrivate := None\<rparr>)"
proof -
  let ?cs = "recipients_of (events batch)"
  have "\<forall>e \<in> set (events batch). sided e" "2 * length (events batch) \<le> SIZE_MAX"
    using batch by (auto simp: writable_batch_def writable_event_def SIZE_MAX_def)
  from projectPrivateResults_view [OF this] have rs: "rs = map (recipient_view batch (events batch)) ?cs"
    using results by simp
  have "parties e \<noteq> []" for e
    by (simp add: parties_def affectedRecipients_def Let_def split: BusinessEvent.splits)
  then have "?cs \<noteq> []"
    using some by (cases "events batch") (auto simp: recipients_of_def first_seen_def)
  moreover have "serializeRecipients rs {} None = Inr (map recipient_message rs)"
    unfolding rs
  proof (rule serializeRecipients_total)
    show "\<forall>r \<in> set (map (recipient_view batch (events batch)) ?cs). recipient r \<noteq> 0 \<and> recipient r \<notin> {} \<and>
        private_consistent runId r \<and> ev_commandSequence (privateEventId (hd (privateResult r))) = globalSequenceNumber message"
      using writable_views [OF batch] by auto
    show "distinct (map recipient (map (recipient_view batch (events batch)) ?cs))"
      by (simp add: comp_def recipient_view_def recipients_of_def)
  qed simp
  moreover have "rs \<noteq> []"
    using calculation(1) by (simp add: rs)
  ultimately show ?thesis
    using routePendingPrivate_spec [of g rs] inv by (auto simp: gateway_inv_connections Let_def)
qed

lemma route_public_batch:
  assumes batch: "writable_batch runId message batch" and inv: "gateway_inv g" and some: "projectPublicTrades batch \<noteq> []"
  shows "routePendingPublic (projectPublicTrades batch) g =
    (AO_ROUTED, g\<lparr>connections := deliver (perConnectionOutboundByteCapacity g) (\<lambda>c. cs_exchangeRunId c = runId)
       (json_text (public_trades_json runId (projectPublicTrades batch))) (connections g), pendingPublic := None\<rparr>)"
proof -
  note ok = writable_trades(1) [OF batch some]
  then have "ev_exchangeRunId (pu_eventId (hd (projectPublicTrades batch))) = runId"
    using some unfolding public_consistent_def by (metis hd_in_set)
  then show ?thesis
    using routePendingPublic_spec [of g "projectPublicTrades batch"] inv ok by (simp add: gateway_inv_connections Let_def)
qed

end
