(* ===== verification/Application_Properties.thy ===== *)
theory Application_Properties
  imports Engine_Messages Matching_Examples
begin

text \<open>
  The properties of the event stream: its messages lose nothing, the gateway queues a message only where it may be seen
  and within the capacity of a connection, and every result of the matching engine reaches its connections.
\<close>

section \<open>An example\<close>

definition demo_trades :: "PublicTrade list" where
  "demo_trades = projectPublicTrades (demo_batch demo_buy APPLIED demo_buy_events)"

definition demo_rejection :: RecipientResult where
  "demo_rejection =
     \<lparr>recipient = 13,
      rr_correlation = Some \<lparr>co_clientId = 13, co_clientCommandId = demo_id, co_commandSequence = 4, co_exchangeRunId = 7\<rparr>,
      privateResult = [PvCommandRejected
        \<lparr>cr_eventId = \<lparr>ev_commandSequence = 4, ev_eventIndex = 0, ev_exchangeRunId = 7\<rparr>, cr_commandType = CommandType_CANCEL,
         cr_clientId = 13, cr_clientCommandId = demo_id, cr_relevantOrderId = Some 2, cr_reason = NOT_OWNER\<rparr>]\<rparr>"

text \<open>A controller that owns run 7 and a gateway with a connection of client 13 to it.\<close>

definition demo_controller :: "(u8 list, sequenceMessage list) controller" where
  "demo_controller = make_ExchangeRunController\<lparr>ctl_run := empty_RunStateV1
     \<lparr>rs_admissionIndex := Some \<lparr>adm_capacity = 4, adm_exchangeRunId = 7, admissionOpen = True, records = [],
        statistics = no_statistics\<rparr>\<rparr>\<rparr>"

definition demo_gateway :: ApplicationEventGateway where
  "demo_gateway =
     \<lparr>maximumConnections = 2, perConnectionOutboundByteCapacity = 3000000, connections = [new_connection 1 13 7],
      pendingPublic = None, pendingPrivate = None, publicFailure = None, privateFailure = None\<rparr>"

lemma demo_gateway_reachable: "gateway_reachable 2 3000000 demo_controller demo_gateway"
proof -
  let ?g0 = "demo_gateway\<lparr>connections := []\<rparr>"
  have "make_ApplicationEventGateway 2 3000000 = Inr ?g0"
    by (simp add: make_ApplicationEventGateway_def demo_gateway_def)
  moreover have "registerConnection demo_controller 1 13 7 ?g0 = (\<lparr>cg_outcome = REGISTERED, replacedConnection = None\<rparr>, demo_gateway)"
    by (simp add: registerConnection_def demo_controller_def demo_gateway_def findConnection_def Let_def)
  ultimately show ?thesis
    unfolding gateway_reachable_def by (blast intro: r_into_rtranclp gateway_step.register)
qed

text \<open>The same gateway after it routed a private result.\<close>

definition demo_queued :: ApplicationEventGateway where
  "demo_queued = demo_gateway\<lparr>connections :=
     [push_outbound (json_text (private_result_json 7 demo_rejection)) (new_connection 1 13 7)]\<rparr>"

lemma demo_consistent: "private_consistent 7 demo_rejection" "run_of demo_rejection = 7"
  by (simp_all add: private_consistent_def private_event_ok_def demo_rejection_def run_of_def)

lemma demo_short: "length (json_text (private_result_json 7 demo_rejection)) \<le> 3000000"
proof -
  have "valid_ClientCommandId demo_id" by code_simp
  then have "length (json_text (JString (command_id_text demo_id))) \<le> 386"
    by (rule length_command_id)
  then show ?thesis
    using length_quoted [of 7] length_quoted [of 13] length_quoted [of 4] length_quoted [of 2]
      length_event_id [of "\<lparr>ev_commandSequence = 4, ev_eventIndex = 0, ev_exchangeRunId = 7\<rparr>"]
      length_reasons(1) [of CommandType_CANCEL] length_reasons(3) [of NOT_OWNER]
    by (simp add: private_result_json_def demo_rejection_def correlation_json_def private_event_json_def object_length
        literal_text length_one length_array del: json_text.simps)
qed

lemma demo_queued_reachable: "\<exists>ctl :: (u8 list, sequenceMessage list) controller. gateway_reachable 2 3000000 ctl demo_queued"
proof -
  have "\<exists>(path :: (sequenceMessage list, u8 list) CommandProcessingPath) q.
      prq_tryPop (cp_privateResults path) = Some ([demo_rejection], q)"
    by (rule exI [where x = "undefined\<lparr>cp_privateResults :=
          \<lparr>prq_eventCapacity = 4, prq_batches = [[demo_rejection]], prq_queuedEventCount = 1\<rparr>\<rparr>"])
      (simp add: prq_tryPop_def)
  then obtain path :: "(sequenceMessage list, u8 list) CommandProcessingPath" and q where
    pop: "prq_tryPop (cp_privateResults path) = Some ([demo_rejection], q)"
    by blast
  let ?ctl = "demo_controller\<lparr>ctl_commandProcessing := Some path\<rparr>"
  have "serializeRecipients [demo_rejection] {} None = Inr [recipient_message demo_rejection]"
    using serializeRecipients_total [of "[demo_rejection]" "{}" 7 4 None] demo_consistent
    by (simp add: demo_rejection_def)
  moreover have "gateway_inv (demo_gateway\<lparr>pendingPrivate := p\<rparr>)" for p
    using reachable_gateway(1) [OF demo_gateway_reachable] by (simp add: gateway_inv_def)
  moreover have "deliver_all 3000000 [recipient_message demo_rejection] [new_connection 1 13 7] = connections demo_queued"
    using demo_short demo_consistent(2)
    by (simp add: deliver_all_def recipient_message_def demo_queued_def connection_key_def new_connection_def)
      (simp add: demo_rejection_def)
  ultimately have "routePendingPrivate [demo_rejection] (demo_gateway\<lparr>pendingPrivate := Some [demo_rejection]\<rparr>) = (AO_ROUTED, demo_queued)"
    using routePendingPrivate_spec [of "demo_gateway\<lparr>pendingPrivate := Some [demo_rejection]\<rparr>" "[demo_rejection]"]
    by (simp add: gateway_inv_connections Let_def) (simp add: demo_gateway_def demo_queued_def)
  moreover have "privateFailure demo_gateway = None" "pendingPrivate demo_gateway = None"
    by (simp_all add: demo_gateway_def)
  ultimately have "\<exists>ctl'. advancePrivate demo_gateway ?ctl = (AO_ROUTED, demo_queued, ctl')"
    using pop by (simp add: advancePrivate_def tryPopPrivateResultBatchV1_def)
  then obtain ctl' where "gateway_step (demo_gateway, ?ctl) (demo_queued, ctl')"
    using gateway_step.route_private by blast
  then show ?thesis
    using demo_gateway_reachable gateway_step.controller [of demo_gateway demo_controller ?ctl]
    unfolding gateway_reachable_def by (meson rtranclp.rtrancl_into_rtrancl)
qed

section \<open>Properties\<close>

text \<open>C39. A message of public trades loses nothing: trades of one command of the run are written as a JSON text
  from which a client reads exactly these trades and the run; any other list, empty or with an unknown side, is refused
  and leaves the caller's string alone.\<close>

theorem public_trades_roundtrip:
  "if public_consistent runId trades
   then \<exists>message. serializePublicTradesV1 runId trades output = (JE_NONE, message) \<and>
     Option.bind (read_json message) read_public_trades = Some (runId, trades)
   else \<exists>e. e \<noteq> JE_NONE \<and> serializePublicTradesV1 runId trades output = (e, output)"
  using serializePublic_json [of runId trades "output"] read_public_trades_json [of runId trades]
  by (auto simp: read_json_text split: if_splits)



text \<open>C37. The gateway keeps its accounts: whatever the controller hands over and the clients do, there are never more
  connections than allowed, no two have the same handle or the same client and run, the bytes counted for a connection
  are the lengths of its queued messages and stay within its capacity, taking a message never fails, and no input is
  given up for an accounting error.\<close>

theorem gateway_accounts:
  assumes "gateway_reachable maximum capacity ctl g"
  shows "length (connections g) \<le> maximum \<and> distinct (map cs_handle (connections g)) \<and>
    distinct (map (\<lambda>c. (cs_clientId c, cs_exchangeRunId c)) (connections g)) \<and>
    list_all (\<lambda>c. queuedBytes c \<le> capacity \<and>
      (\<exists>messages. outbound c = map Some messages \<and> queuedBytes c = sum_list (map length messages))) (connections g) \<and>
    (\<exists>reply. fst (tryPopOutbound handle g) = Inr reply) \<and>
    (\<nexists>e. ii_failure (gi_publicInput (inspect g)) = Some \<lparr>if_reason = IF_BYTE_ACCOUNTING_INVARIANT, if_serializationError = e\<rparr>) \<and>
    (\<nexists>e. ii_failure (gi_privateInput (inspect g)) = Some \<lparr>if_reason = IF_BYTE_ACCOUNTING_INVARIANT, if_serializationError = e\<rparr>)"
proof -
  note inv = reachable_gateway [OF assms]
  have key: "(\<lambda>c. (cs_clientId c, cs_exchangeRunId c)) = connection_key"
    by (simp add: connection_key_def fun_eq_iff)
  obtain m g' where "tryPopOutbound handle g = (m, g')"
    by (cases "tryPopOutbound handle g")
  then have "\<exists>reply. fst (tryPopOutbound handle g) = Inr reply"
    using pop_spec [OF inv(1)] by auto
  then show ?thesis
    using inv unfolding key by (auto simp: gateway_inv_def inspect_def accounted_def list_all_iff)
qed

theorem gateway_accounts_witness:
  "length (connections demo_gateway) \<le> 2 \<and> (\<exists>reply. fst (tryPopOutbound 1 demo_gateway) = Inr reply)"
  using gateway_accounts [OF demo_gateway_reachable, of 1] by blast

text \<open>C36. Results stay private: in any gateway in use, a message that a client takes was queued on the connection with
  its handle, it is about the run of this connection, and it is either public or a private result of the client that
  registered the connection, as the client itself reads in the message.\<close>

theorem results_stay_private:
  assumes "gateway_reachable maximum capacity ctl g" and "tryPopOutbound handle g = (Inr (Some message), g')"
  shows "\<exists>c \<in> set (connections g). cs_handle c = handle \<and> addressed (cs_clientId c) (cs_exchangeRunId c) message"
  by (rule pop_addressed [OF reachable_gateway(1) [OF assms(1)] assms(2)])

theorem results_stay_private_witness:
  "\<exists>message g'. tryPopOutbound 1 demo_queued = (Inr (Some message), g') \<and> addressed 13 7 message"
proof -
  obtain ctl :: "(u8 list, sequenceMessage list) controller" where reach: "gateway_reachable 2 3000000 ctl demo_queued"
    using demo_queued_reachable by blast
  have c: "cs_clientId c = 13 \<and> cs_exchangeRunId c = 7" if "c \<in> set (connections demo_queued)" for c
    using that by (auto simp: demo_queued_def new_connection_def)
  have "\<exists>g'. tryPopOutbound 1 demo_queued = (Inr (Some (json_text (private_result_json 7 demo_rejection))), g')"
    by (simp add: tryPopOutbound_def findConnection_def demo_queued_def push_outbound_def new_connection_def Let_def)
  then show ?thesis
    using results_stay_private [OF reach] c by metis
qed

text \<open>C38. Every result fits: for any command that the engine processes, the private message of every recipient and the
  public message are at most as long as the smallest capacity that a gateway accepts, so that a connection whose queue
  is empty is never dropped for them.\<close>

theorem handoff_fits:
  assumes "reachable runId k st" and "normalized_command command"
    and "globalSequenceNumber command = of_nat (Suc k)" and "Suc k < 2 ^ 64"
    and "processCommand st command = Inr (st', batch)" and "valid_ClientCommandId (the (clientCommandId command))"
    and "projectPrivateResults batch = Inr results" and "r \<in> set results"
  shows "\<exists>private_text public_text.
    serializePrivateResultV1 runId r [] = (JE_NONE, private_text) \<and>
    length private_text \<le> MIN_APPLICATION_GATEWAY_OUTBOUND_CAPACITY_V1 \<and>
    (projectPublicTrades batch = [] \<or> serializePublicTradesV1 runId (projectPublicTrades batch) [] = (JE_NONE, public_text)) \<and>
    length public_text \<le> MIN_APPLICATION_GATEWAY_OUTBOUND_CAPACITY_V1"
proof -
  note batch = processed_writable [OF assms(1-6)]
  have "\<forall>e \<in> set (events batch). sided e" "2 * length (events batch) \<le> SIZE_MAX"
    using batch by (auto simp: writable_batch_def writable_event_def SIZE_MAX_def)
  from projectPrivateResults_view [OF this] obtain client where "client \<in> set (recipients_of (events batch))"
    "r = recipient_view batch (events batch) client"
    using assms(7,8) by auto
  then have r: "private_consistent runId r" "length (json_text (private_result_json runId r)) \<le> 2949790"
    using writable_views(3,7) [OF batch] by auto
  have "projectPublicTrades batch = [] \<or> serializePublicTradesV1 runId (projectPublicTrades batch) [] =
      (JE_NONE, json_text (public_trades_json runId (projectPublicTrades batch)))"
    using writable_trades(1) [OF batch] serializePublic_json [of runId "projectPublicTrades batch" "[]"]
    by (cases "projectPublicTrades batch = []") simp_all
  moreover have "length (json_text (public_trades_json runId (projectPublicTrades batch))) \<le> 2949790"
    using writable_trades(2) [OF batch] by simp
  ultimately show ?thesis
    using r serializePrivate_json [of runId r "[]"] by auto
qed

lemma demo_command: "valid_ClientCommandId (the (clientCommandId demo_buy))"
  by code_simp

lemma demo_results: "\<exists>results. projectPrivateResults (demo_batch demo_buy APPLIED demo_buy_events) = Inr results \<and> results \<noteq> []"
  by (simp add: projectPrivateResults_view sided_def demo_batch_def demo_buy_events_def demo_trade_def demo_rested_def
      recipients_of_def first_seen_def parties_def affectedRecipients_def SIZE_MAX_def)

theorem handoff_fits_witness:
  "\<exists>results message. projectPrivateResults (demo_batch demo_buy APPLIED demo_buy_events) = Inr results \<and>
     serializePrivateResultV1 7 (hd results) [] = (JE_NONE, message) \<and> length message \<le> 2949790"
proof -
  obtain results where results: "projectPrivateResults (demo_batch demo_buy APPLIED demo_buy_events) = Inr results" "results \<noteq> []"
    using demo_results by blast
  show ?thesis
    using handoff_fits [OF demo_reachable(2) demo_normalized(3) demo_sequence(3) _ demo_step3 demo_command results(1)
        hd_in_set [OF results(2)]] results(1) by auto
qed



end
