(* ===== verification/Spec2Isabelle.thy ===== *)
theory Spec2Isabelle
  imports Matching_Properties Codec_Properties Worker_Properties Admission_Properties Journal_Properties
    Recovery_Properties Fix_Properties Lifecycle_Properties Application_Properties
begin

text \<open>
  A financial exchange in C++: clients submit orders over FIX, an admission index makes submissions idempotent,
  a sequencer numbers and journals the commands, a matching engine keeps the price-time order book and produces
  result batches, and the results complete the admission records and are projected for clients and the public.
  After a crash the journal is loaded and replayed, and the admission index is rebuilt. Paths below are relative to
  the root of the repository's sources.

  \<^bold>\<open>Conventions.\<close> Structs and classes are records, enums are datatypes (with an extra constructor where the code
  handles values outside the enumerators), identifiers and quantities are words of their width. A C++ exception is
  the left side of a \<open>result\<close>; a null or dangling access is the exception \<open>undefined_behaviour\<close>, so that a theorem
  that a call returns also excludes it. \<open>std::map\<close> is an association list in the order of its comparator
  (\<open>Prelude\<close>: locale \<open>key_order\<close>). Sizes are natural numbers. Allocation succeeds. Operating system calls and
  \<open>boost::lockfree::queue\<close> are parameters with what their documentation promises as a hypothesis
  (\<open>posix_read\<close>, \<open>posix_append\<close>, \<open>lockfree_queue\<close>), each shown satisfiable by a concrete instance. An object
  whose member functions hold its mutex for their whole effect makes one step per call; interleavings of threads are
  sequences of such calls.

  \<^bold>\<open>Matching\<close> (\<open>matching_engine/include/matching_state.hpp\<close>, \<open>matching_engine/src/matching_engine.cpp\<close>).
  \<open>Domain\<close> has the types, the events and the instrument table; \<open>Matching_State\<close>, \<open>Matching_Execution\<close>,
  \<open>Matching_Process\<close>, \<open>Matching_Commands\<close> and \<open>Matching_Views\<close> the operations of \<open>MatchingState\<close>; list nodes carry
  an address, which the index of active orders stores like the code's iterators. \<open>Order_Book_Spec\<close> is the abstract
  price-time book; \<open>Matching_Invariant\<close>, \<open>Matching_Operations\<close>, \<open>Matching_Orders\<close>, \<open>Matching_Refinement\<close>,
  \<open>Matching_Handlers\<close>, \<open>Matching_Runs\<close> and \<open>Matching_Selfcheck\<close> prove that every command on a reachable state
  refines the abstract command and keeps the invariant. \<open>Matching_Properties\<close> draws the consequences: priority,
  conservation of quantity, no crossed book, exact aggregates, numbered events, cancel and capacity behaviour,
  the self-check, and that the snapshot determines all later results.

  \<^bold>\<open>Codecs\<close> (\<open>core/storage\<close>). \<open>Wire\<close> and \<open>Crc32c\<close> model little-endian fields and the checksum; \<open>Journal_Envelope\<close>,
  \<open>Command_Codec\<close>, \<open>Run_Header_Codec\<close> and \<open>Run_Catalog_Codec\<close> the formats, each an interpretation of the
  locale \<open>frame_codec\<close>; \<open>Codec_Properties\<close> shows that decoders accept exactly what encoders write and that small
  corruptions are detected.

  \<^bold>\<open>Results and workers\<close>. \<open>Result_Projection\<close> (\<open>private_result_projection.cpp\<close>, \<open>public_trade_projection.cpp\<close>),
  \<open>Result_Queues\<close> (the three bounded queues, interpretations of \<open>bounded_queue\<close>), \<open>Bus\<close>, \<open>Shared_Queue\<close>,
  \<open>Matching_Worker\<close> (\<open>MatchingEngine::advance\<close>) and \<open>Adaptive_Idle\<close>; \<open>Worker_Properties\<close> shows that projections
  agree, queues are FIFO, every accepted command is processed once and in order, and the worker drains.

  \<^bold>\<open>Admission\<close> (\<open>core/admission\<close>). \<open>Admission\<close> models \<open>CommandAdmissionIndex\<close>, \<open>Admission_Runs\<close> its invariant and
  runs, \<open>Completion_Consumer\<close> the consumer; \<open>Admission_Properties\<close> shows that a command is admitted at most
  once, that records only move forward, and that a resubmission gets the original result.

  \<^bold>\<open>Journal\<close> (\<open>core/storage\<close>). \<open>Journal_Reader\<close> and \<open>Journal_Writer\<close> model \<open>run_journal_reader.cpp\<close> and
  \<open>run_journal_writer.cpp\<close>; \<open>Journal_Loading\<close>, \<open>Journal_Soundness\<close> and \<open>Journal_Durability\<close> prove what they do on
  prefixes of a journal, on arbitrary files, and after failing appends. \<open>Journal_Properties\<close> has the results.

  \<^bold>\<open>Sequencing and recovery\<close>. \<open>Sequencer\<close> and \<open>Sequencer_Runs\<close> (\<open>sequencer/src/sequencer.cpp\<close>), \<open>Journal_Replay\<close>
  (\<open>run_journal_replay.cpp\<close>), \<open>Admission_Recovery\<close> (\<open>command_admission_recovery.cpp\<close>) and \<open>Crash_Recovery\<close>, which
  connects them. \<open>Recovery_Properties\<close> shows that nothing is matched before it is journaled and that the replay
  of what a crash leaves reproduces every result announced before it.

  \<^bold>\<open>Life of a run\<close> (\<open>core/storage\<close>, \<open>core/recovery\<close>). \<open>Catalog_Storage\<close> models the catalog file, which is replaced by
  rename; \<open>Run_Reservation\<close> the reservation of run identifiers, the journal paths and the activation;
  \<open>Journal_Creation\<close> the creation of a journal and the preparation of a new run; \<open>Journal_Recovery\<close> the repair of a
  torn journal; \<open>Run_State\<close> the start of a run and its recovery; \<open>Run_Controller\<close> the controller's startup, resumption
  and result lookups, and \<open>Controller_Runs\<close> what they do to it. \<open>Command_Path\<close> is the command path of the controller
  (\<open>controller_command_processing.cpp\<close>): the dispatcher of results, installation, submission with the accounting of the
  run's capacity, one cycle of the path, and the fail-stop and capacity transitions; \<open>Run_Lifecycle\<close> has pausing,
  stopping and the recovery of a failed run. \<open>Lifecycle_Runs\<close> is the invariant of the controller over sequences of all
  these operations (\<open>lifecycle_step\<close>). The path's parts borrow the run's owners by reference; the model hands the current
  owner to each part and takes it back in the step functions (\<open>sequenceStep\<close>, \<open>matchStep\<close>, \<open>dispatchStep\<close>). The file system is a state
  \<open>'w\<close> behind records of its calls; what POSIX documents of them are the hypotheses \<open>posix_catalog\<close>, \<open>posix_directory\<close>,
  \<open>posix_file\<close>, \<open>posix_environment\<close> and \<open>posix_processing\<close>, which a file system in memory satisfies. \<open>Run_Properties\<close> shows that the repair
  keeps every complete command and hands over the rest, that the catalog is replaced atomically, that identifiers and
  paths are never reused, that started and recovered runs are consistent, and that admission opens only once the
  catalog names the run as open; \<open>Lifecycle_Properties\<close> that a pause leaves nothing on the path and a stop nothing in the
  controller.

  \<^bold>\<open>Event stream\<close> (\<open>core/application\<close>). \<open>Event_Json\<close> models the serialisers of \<open>application_event_json.cpp\<close>;
  \<open>Event_Json_Reading\<close> is a reader of JSON texts and \<open>Event_Messages\<close> says which objects the messages denote and how a
  client reads them back. \<open>Event_Gateway\<close> models \<open>application_event_gateway.cpp\<close>; \<open>Message_Sizes\<close> bounds the messages by
  its byte counts, \<open>Gateway_Runs\<close> has its invariant over sequences of operations, with a controller that may do anything
  in between, and \<open>Engine_Messages\<close> connects it with the batches of the matching engine. \<open>Application_Properties\<close> shows
  that messages lose nothing, that a client sees only public messages and its own results, that the byte accounts hold,
  that every result fits the smallest connection, and that it is routed.

  \<^bold>\<open>FIX gateway\<close> (\<open>core/fix\<close>). \<open>Fix_Decimal\<close> has the decimal arithmetic of \<open>fix_parser.cpp\<close>, \<open>Fix_Parser\<close> the
  identity resolver and \<open>parseFixMessage\<close>, \<open>Fix_Gateway\<close> the task with its inbound callback and its worker. QuickFIX is
  the parameter record \<open>QuickFix\<close> with no hypothesis on it. \<open>Fix_Properties\<close> shows that prices and quantities are
  read exactly, that parsed messages are what the later components accept, which outcome each message has, and that
  admitted commands reach the sequencer once and in order.

  \<^bold>\<open>Fuel.\<close> Loops that retry interrupted system calls and loops that drain a queue take fuel and return \<open>None\<close> when it
  is too small; the theorems show the result for every fuel above the number of interrupts (plus the length of a
  frame, at most 143 bytes, for a write, of the catalog, 57 bytes, for a load, of a new header or of the file that is
  recovered) or above the length of the queue, so that no loop runs for ever. The command
  loop of the reader needs none: \<open>maxRunCommands\<close> bounds it.

  \<^bold>\<open>Not modelled.\<close> The HTTPS server (\<open>core/application/src/https_static_server.cpp\<close>) drives sockets, TLS and WebSockets
  through the callbacks of third-party libraries, and the main of the exchange process starts threads. Memory orders, thread
  start-up, logging, metrics and the backend and frontend scripts have no state to verify. A pause is shown clean when it
  returns; that its drain loop ends depends on the progress of every part of the path and is not claimed.
\<close>

end
